(* ===== verification/Prelude.thy ===== *)
theory Prelude
  imports Main "HOL-Library.Word" "HOL-Library.Sublist"
begin

text \<open>
  Shared vocabulary of the development: the widths of Go's unsigned integers, Go byte
  slices and strings, the outcome of a Go function that may return an error or panic,
  the few \<open>strings\<close> and \<open>encoding/binary\<close> functions the sources call, and the generic
  lemmas about them.  Nothing here is specific to one component.

  A Go string is a sequence of bytes; HOL's \<open>string\<close> is a list of 8-bit characters, so the
  two agree.  \<open>strings.ToLower\<close> is modelled by its ASCII behaviour: on a string with a byte
  of 128 or more Go decodes UTF-8 and applies the Unicode mapping, here such bytes are
  left as they are.
\<close>

unbundle bit_operations_syntax

type_synonym u8 = "8 word"
type_synonym u16 = "16 word"
type_synonym u32 = "32 word"
type_synonym u64 = "64 word"
type_synonym bytes = "u8 list"

named_theorems outcome_simps
named_theorems word_io

section \<open>Outcomes of Go functions\<close>

text \<open>
  \<open>Ret\<close> is a normal return with a nil error, \<open>Err\<close> a return with a non-nil error (the
  other results are then ignored by every caller), \<open>Panic\<close> a run-time panic: an index or
  a slice bound out of range.
\<close>

datatype ('e, 'a) outcome = Ret 'a | Err 'e | Panic

fun andThen :: "('e, 'a) outcome \<Rightarrow> ('a \<Rightarrow> ('e, 'b) outcome) \<Rightarrow> ('e, 'b) outcome" where
  "andThen (Ret a) f = f a"
| "andThen (Err e) f = Err e"
| "andThen Panic f = Panic"

text \<open>\<open>v, err := f(); if err == nil { ... } else { ... }\<close>: a panic is not an error value.\<close>

fun ifOk :: "('e, 'a) outcome \<Rightarrow> ('a \<Rightarrow> ('f, 'b) outcome) \<Rightarrow> ('f, 'b) outcome \<Rightarrow> ('f, 'b) outcome" where
  "ifOk (Ret a) f g = f a"
| "ifOk (Err e) f g = g"
| "ifOk Panic f g = Panic"

lemma ifOk_eq_Panic [outcome_simps]:
  "ifOk m f g = Panic \<longleftrightarrow> m = Panic \<or> (\<exists>a. m = Ret a \<and> f a = Panic) \<or> (\<exists>e. m = Err e \<and> g = Panic)"
  by (cases m) auto

lemma ifOk_eq_Ret [outcome_simps]:
  "ifOk m f g = Ret b \<longleftrightarrow> (\<exists>a. m = Ret a \<and> f a = Ret b) \<or> (\<exists>e. m = Err e \<and> g = Ret b)"
  by (cases m) auto

lemma ifOk_eq_Err [outcome_simps]:
  "ifOk m f g = Err e' \<longleftrightarrow> (\<exists>a. m = Ret a \<and> f a = Err e') \<or> (\<exists>e. m = Err e \<and> g = Err e')"
  by (cases m) auto

lemma andThen_eq_Ret [outcome_simps]:
  "andThen m f = Ret b \<longleftrightarrow> (\<exists>a. m = Ret a \<and> f a = Ret b)"
  by (cases m) auto

lemma andThen_eq_Panic [outcome_simps]:
  "andThen m f = Panic \<longleftrightarrow> m = Panic \<or> (\<exists>a. m = Ret a \<and> f a = Panic)"
  by (cases m) auto

lemma andThen_cong [fundef_cong]:
  "\<lbrakk>m = m'; \<And>a. m' = Ret a \<Longrightarrow> f a = f' a\<rbrakk> \<Longrightarrow> andThen m f = andThen m' f'"
  by (cases m') auto

text \<open>A computation that returns a value: no error, no panic.\<close>

definition returns :: "('e, 'a) outcome \<Rightarrow> bool" where
  "returns m \<longleftrightarrow> (\<exists>a. m = Ret a)"

named_theorems returns_intros

lemma returns_Ret [simp, returns_intros]: "returns (Ret a)"
  by (simp add: returns_def)

lemma returns_andThen [returns_intros]:
  "returns m \<Longrightarrow> (\<And>a. m = Ret a \<Longrightarrow> returns (f a)) \<Longrightarrow> returns (andThen m f)"
  by (auto simp: returns_def)

lemma returns_ifOk [returns_intros]:
  "m \<noteq> Panic \<Longrightarrow> (\<And>a. m = Ret a \<Longrightarrow> returns (f a)) \<Longrightarrow> returns g \<Longrightarrow> returns (ifOk m f g)"
  by (cases m) auto

lemma returns_if [returns_intros]:
  "(c \<Longrightarrow> returns a) \<Longrightarrow> (\<not> c \<Longrightarrow> returns b) \<Longrightarrow> returns (if c then a else b)"
  by simp

lemma returns_prod [returns_intros]: "(\<And>a b. p = (a, b) \<Longrightarrow> returns (f a b)) \<Longrightarrow> returns (case p of (a, b) \<Rightarrow> f a b)"
  by (cases p) simp

lemma returns_not_panic: "returns m \<Longrightarrow> m \<noteq> Panic"
  by (auto simp: returns_def)

section \<open>Slices\<close>

text \<open>\<open>xs[i]\<close> and \<open>xs[lo:hi]\<close> of a slice whose capacity is its length.\<close>

definition goIndex :: "'a list \<Rightarrow> nat \<Rightarrow> ('e, 'a) outcome" where
  "goIndex xs i = (if i < length xs then Ret (xs ! i) else Panic)"

definition goSlice :: "'a list \<Rightarrow> nat \<Rightarrow> nat \<Rightarrow> ('e, 'a list) outcome" where
  "goSlice xs lo hi =
     (if lo \<le> hi \<and> hi \<le> length xs then Ret (take (hi - lo) (drop lo xs)) else Panic)"

lemma goIndex_in [simp]: "i < length xs \<Longrightarrow> goIndex xs i = Ret (xs ! i)"
  by (simp add: goIndex_def)

lemma goSlice_in [simp]:
  "lo \<le> hi \<Longrightarrow> hi \<le> length xs \<Longrightarrow> goSlice xs lo hi = Ret (take (hi - lo) (drop lo xs))"
  by (simp add: goSlice_def)

lemma goIndex_Ret_iff: "goIndex xs i = Ret v \<longleftrightarrow> i < length xs \<and> v = xs ! i"
  by (auto simp: goIndex_def)

lemma goSlice_Ret_iff:
  "goSlice xs lo hi = Ret v \<longleftrightarrow> lo \<le> hi \<and> hi \<le> length xs \<and> v = take (hi - lo) (drop lo xs)"
  by (auto simp: goSlice_def)

lemma returns_goSlice [returns_intros]: "lo \<le> hi \<Longrightarrow> hi \<le> length xs \<Longrightarrow> returns (goSlice xs lo hi)"
  by simp

lemma goIndex_not_Err [simp]: "goIndex xs i \<noteq> Err e"
  by (simp add: goIndex_def)

lemma goSlice_not_Err [simp]: "goSlice xs lo hi \<noteq> Err e"
  by (simp add: goSlice_def)

text \<open>\<open>copy(dst[at:], src)\<close> when \<open>src\<close> fits: the bytes of \<open>src\<close> replace those of \<open>dst\<close>.\<close>

definition copyAt :: "'a list \<Rightarrow> nat \<Rightarrow> 'a list \<Rightarrow> 'a list" where
  "copyAt dst at src = take at dst @ src @ drop (at + length src) dst"

lemma length_copyAt [simp]:
  "at + length src \<le> length dst \<Longrightarrow> length (copyAt dst at src) = length dst"
  by (simp add: copyAt_def)

lemma take_copyAt_before [simp]:
  "at + length src \<le> length dst \<Longrightarrow> n \<le> at \<Longrightarrow> take n (copyAt dst at src) = take n dst"
  by (simp add: copyAt_def)

lemma take_copyAt_end [simp]:
  "at + length src \<le> length dst \<Longrightarrow> take (at + length src) (copyAt dst at src) = take at dst @ src"
  by (simp add: copyAt_def)

section \<open>Bytes, characters and big-endian integers\<close>

definition byte_of :: "char \<Rightarrow> u8" where
  "byte_of c = of_nat (of_char c)"

definition char_of_byte :: "u8 \<Rightarrow> char" where
  "char_of_byte b = char_of (unat b)"

lemma unat_byte_of: "unat (byte_of c) = of_char c"
  by (simp add: byte_of_def unat_of_nat)

lemma char_of_byte_of [simp]: "char_of_byte (byte_of c) = c"
  by (simp add: char_of_byte_def unat_byte_of)

lemma byte_of_char_of_byte [simp]: "byte_of (char_of_byte b) = b"
proof -
  have "unat b < 256" using unsigned_less [of b] by simp
  then have "(of_char (char_of (unat b) :: char) :: nat) = unat b" by simp
  then show ?thesis unfolding char_of_byte_def byte_of_def by simp
qed

lemma char_of_byte_eq_iff: "char_of_byte b = c \<longleftrightarrow> b = byte_of c"
  by auto

definition bytes_of :: "string \<Rightarrow> bytes" where
  "bytes_of s = map byte_of s"

definition string_of :: "bytes \<Rightarrow> string" where
  "string_of bs = map char_of_byte bs"

lemma string_of_bytes_of [simp]: "string_of (bytes_of s) = s"
  by (simp add: string_of_def bytes_of_def o_def)

lemma bytes_of_string_of [simp]: "bytes_of (string_of bs) = bs"
  by (simp add: string_of_def bytes_of_def o_def)

lemma length_bytes_of [simp]: "length (bytes_of s) = length s"
  by (simp add: bytes_of_def)

lemma length_string_of [simp]: "length (string_of bs) = length bs"
  by (simp add: string_of_def)

lemma string_of_append [simp]: "string_of (xs @ ys) = string_of xs @ string_of ys"
  by (simp add: string_of_def)

lemma bytes_of_append [simp]: "bytes_of (xs @ ys) = bytes_of xs @ bytes_of ys"
  by (simp add: bytes_of_def)

text \<open>\<open>binary.BigEndian\<close>: the written order is most significant byte first.\<close>

definition getUint16 :: "u8 \<Rightarrow> u8 \<Rightarrow> u16" where
  "getUint16 b0 b1 = push_bit 8 (ucast b0) OR ucast b1"

definition getUint32 :: "u8 \<Rightarrow> u8 \<Rightarrow> u8 \<Rightarrow> u8 \<Rightarrow> u32" where
  "getUint32 b0 b1 b2 b3 =
     push_bit 24 (ucast b0) OR push_bit 16 (ucast b1) OR push_bit 8 (ucast b2) OR ucast b3"

definition putUint16 :: "u16 \<Rightarrow> bytes" where
  "putUint16 v = [ucast (drop_bit 8 v), ucast v]"

definition putUint32 :: "u32 \<Rightarrow> bytes" where
  "putUint32 v = [ucast (drop_bit 24 v), ucast (drop_bit 16 v), ucast (drop_bit 8 v), ucast v]"

lemma length_putUint16 [simp]: "length (putUint16 v) = 2"
  by (simp add: putUint16_def)

lemma length_putUint32 [simp]: "length (putUint32 v) = 4"
  by (simp add: putUint32_def)

lemma u8_high_bits:
  "\<not> bit (b :: u8) (8 + n)" "\<not> bit (b :: u8) (16 + n)" "\<not> bit (b :: u8) (24 + n)"
  by (auto dest: bit_imp_le_length)

lemma get_putUint16 [word_io]: "getUint16 (ucast (drop_bit 8 v)) (ucast v) = v"
  unfolding getUint16_def
  by (rule bit_word_eqI) (auto simp: bit_simps)

lemma get_putUint32 [word_io]:
  "getUint32 (ucast (drop_bit 24 v)) (ucast (drop_bit 16 v)) (ucast (drop_bit 8 v)) (ucast v) = v"
  unfolding getUint32_def
proof (rule bit_word_eqI)
  fix n
  assume "n < LENGTH(32)"
  then consider "n < 8" | "8 \<le> n \<and> n < 16" | "16 \<le> n \<and> n < 24" | "24 \<le> n \<and> n < 32"
    by fastforce
  then show "bit (push_bit 24 (ucast (ucast (drop_bit 24 v) :: u8)) OR
      push_bit 16 (ucast (ucast (drop_bit 16 v) :: u8)) OR
      push_bit 8 (ucast (ucast (drop_bit 8 v) :: u8)) OR ucast (ucast v :: u8) :: u32) n = bit v n"
    by cases (auto simp: bit_simps)
qed

lemma put_getUint16 [word_io]: "putUint16 (getUint16 b0 b1) = [b0, b1]"
  unfolding getUint16_def putUint16_def
  by (auto intro!: bit_word_eqI simp: bit_simps u8_high_bits)

lemma put_getUint32 [word_io]: "putUint32 (getUint32 b0 b1 b2 b3) = [b0, b1, b2, b3]"
  unfolding getUint32_def putUint32_def
  by (auto intro!: bit_word_eqI simp: bit_simps u8_high_bits)

lemma unat_of_nat_u16: "n < 65536 \<Longrightarrow> unat (of_nat n :: u16) = n"
  by (simp add: unsigned_of_nat take_bit_nat_eq_self)

section \<open>The string functions of package \<open>strings\<close>\<close>

definition lowerChar :: "char \<Rightarrow> char" where
  "lowerChar c = (let n = (of_char c :: nat) in
     if 65 \<le> n \<and> n \<le> 90 then char_of (n + 32) else c)"

definition ToLower :: "string \<Rightarrow> string" where
  "ToLower s = map lowerChar s"

definition HasSuffix :: "string \<Rightarrow> string \<Rightarrow> bool" where
  "HasSuffix s suf \<longleftrightarrow> length suf \<le> length s \<and> drop (length s - length suf) s = suf"

definition TrimSuffix :: "string \<Rightarrow> string \<Rightarrow> string" where
  "TrimSuffix s suf = (if HasSuffix s suf then take (length s - length suf) s else s)"

fun Split :: "char \<Rightarrow> string \<Rightarrow> string list" where
  "Split c [] = [[]]"
| "Split c (x # xs) =
     (if x = c then [] # Split c xs
      else (case Split c xs of [] \<Rightarrow> [[x]] | y # ys \<Rightarrow> (x # y) # ys))"

fun Join :: "char \<Rightarrow> string list \<Rightarrow> string" where
  "Join c [] = []"
| "Join c [x] = x"
| "Join c (x # y # ys) = x @ c # Join c (y # ys)"

fun IndexByte :: "string \<Rightarrow> char \<Rightarrow> nat option" where
  "IndexByte [] c = None"
| "IndexByte (x # xs) c = (if x = c then Some 0 else map_option Suc (IndexByte xs c))"

abbreviation dot :: char where
  "dot \<equiv> CHR ''.''"

lemma HasSuffix_iff_suffix: "HasSuffix s suf \<longleftrightarrow> suffix suf s"
proof
  assume "HasSuffix s suf"
  then have "s = take (length s - length suf) s @ suf"
    unfolding HasSuffix_def by (metis append_take_drop_id)
  then show "suffix suf s" unfolding suffix_def by blast
qed (auto simp: HasSuffix_def suffix_def)

lemma HasSuffix_append [simp]: "HasSuffix (xs @ suf) suf"
  by (simp add: HasSuffix_def)

lemma TrimSuffix_append [simp]: "TrimSuffix (xs @ suf) suf = xs"
  by (simp add: TrimSuffix_def)

lemma lowerChar_idem [simp]: "lowerChar (lowerChar c) = lowerChar c"
  by (auto simp: lowerChar_def Let_def)

lemma ToLower_idem [simp]: "ToLower (ToLower s) = ToLower s"
  by (simp add: ToLower_def)

lemma length_ToLower [simp]: "length (ToLower s) = length s"
  by (simp add: ToLower_def)

lemma ToLower_append [simp]: "ToLower (xs @ ys) = ToLower xs @ ToLower ys"
  by (simp add: ToLower_def)

lemma lowerChar_eq_dot [simp]: "lowerChar c = dot \<longleftrightarrow> c = dot"
proof
  assume l: "lowerChar c = dot"
  have "\<not> (65 \<le> (of_char c :: nat) \<and> (of_char c :: nat) \<le> 90)"
  proof
    assume r: "65 \<le> (of_char c :: nat) \<and> (of_char c :: nat) \<le> 90"
    then have "(of_char (lowerChar c) :: nat) = of_char c + 32"
      by (simp add: lowerChar_def)
    with r l show False by simp
  qed
  with l show "c = dot" by (simp add: lowerChar_def Let_def split: if_splits)
qed (simp add: lowerChar_def)

lemma Split_not_Nil [simp]: "Split c s \<noteq> []"
  by (cases s) (auto split: list.splits)

lemma Join_Split [simp]: "Join c (Split c s) = s"
proof (induction s)
  case (Cons x xs)
  obtain y ys where "Split c xs = y # ys"
    by (cases "Split c xs") auto
  with Cons show ?case by (cases ys) auto
qed simp

lemma Split_no_sep: "c \<notin> set x \<Longrightarrow> Split c x = [x]"
  by (induction x) auto

lemma Split_append_sep: "c \<notin> set x \<Longrightarrow> Split c (x @ c # ys) = x # Split c ys"
  by (induction x) auto

lemma Split_Join:
  "ls \<noteq> [] \<Longrightarrow> \<forall>l \<in> set ls. c \<notin> set l \<Longrightarrow> Split c (Join c ls) = ls"
  by (induction c ls rule: Join.induct) (auto simp: Split_no_sep Split_append_sep)

lemma Split_parts: "l \<in> set (Split c s) \<Longrightarrow> c \<notin> set l"
  by (induction s arbitrary: l) (auto split: list.splits if_splits)

lemma Split_Cons_sep [simp]: "Split c (c # xs) = [] # Split c xs"
  by simp

lemma IndexByte_None_iff: "IndexByte s c = None \<longleftrightarrow> c \<notin> set s"
  by (induction s) auto

lemma IndexByte_Some:
  "IndexByte s c = Some i \<Longrightarrow> i < length s \<and> s ! i = c \<and> c \<notin> set (take i s)"
  by (induction s arbitrary: i) (auto split: if_splits)

lemma IndexByte_Some_split:
  assumes "IndexByte s c = Some i"
  shows "s = take i s @ c # drop (Suc i) s" and "c \<notin> set (take i s)"
  using IndexByte_Some [OF assms] by (auto simp: id_take_nth_drop [symmetric])

lemma IndexByte_sep: "c \<notin> set x \<Longrightarrow> IndexByte (x @ c # ys) c = Some (length x)"
  by (induction x) auto

end
