(* ===== verification/Dns_Wire.thy ===== *)
theory Dns_Wire
  imports Prelude
begin

text \<open>
  The byte level of package \<open>dns\<close>: the error values of \<open>errors.go\<close>, the cursor reader and
  writer of \<open>wire.go\<close>, and the fixed header with its flag accessors and flag builder
  (\<open>message.go\<close>, \<open>header.go\<close>).  Every index into a buffer goes through \<open>goIndex\<close> or
  \<open>goSlice\<close>, so a read past the end would be the outcome \<open>Panic\<close>; the lemmas show that the
  length checks of the code exclude it.
\<close>

section \<open>Errors (errors.go)\<close>

datatype dns_error =
    errTruncated | errBufferFull | errNameTooLong | errLabelTooLong
  | errPointerLoop | errPointerForward | errInvalidMessage
  | errText string \<comment> \<open>an error built with \<open>fmt.Errorf\<close>; its text without the formatted values\<close>

type_synonym 'a dns = "(dns_error, 'a) outcome"

section \<open>The reader (wire.go)\<close>

record wireReader =
  rbuf :: bytes
  roffset :: nat

definition newWireReader :: "bytes \<Rightarrow> wireReader" where
  "newWireReader buf = \<lparr>rbuf = buf, roffset = 0\<rparr>"

definition remaining :: "wireReader \<Rightarrow> int" where
  "remaining r = int (length (rbuf r)) - int (roffset r)"

definition readUint16 :: "wireReader \<Rightarrow> (u16 \<times> wireReader) dns" where
  "readUint16 r =
     (if remaining r < 2 then Err errTruncated
      else andThen (goIndex (rbuf r) (roffset r)) (\<lambda>b0.
           andThen (goIndex (rbuf r) (roffset r + 1)) (\<lambda>b1.
           Ret (getUint16 b0 b1, r\<lparr>roffset := roffset r + 2\<rparr>))))"

definition readUint32 :: "wireReader \<Rightarrow> (u32 \<times> wireReader) dns" where
  "readUint32 r =
     (if remaining r < 4 then Err errTruncated
      else andThen (goIndex (rbuf r) (roffset r)) (\<lambda>b0.
           andThen (goIndex (rbuf r) (roffset r + 1)) (\<lambda>b1.
           andThen (goIndex (rbuf r) (roffset r + 2)) (\<lambda>b2.
           andThen (goIndex (rbuf r) (roffset r + 3)) (\<lambda>b3.
           Ret (getUint32 b0 b1 b2 b3, r\<lparr>roffset := roffset r + 4\<rparr>))))))"

definition readBytes :: "wireReader \<Rightarrow> nat \<Rightarrow> (bytes \<times> wireReader) dns" where
  "readBytes r n =
     (if remaining r < int n then Err errTruncated
      else andThen (goSlice (rbuf r) (roffset r) (roffset r + n)) (\<lambda>b.
           Ret (b, r\<lparr>roffset := roffset r + n\<rparr>)))"

definition peek :: "wireReader \<Rightarrow> u8 dns" where
  "peek r = (if remaining r < 1 then Err errTruncated else goIndex (rbuf r) (roffset r))"

section \<open>The writer (wire.go)\<close>

text \<open>
  The Go methods mutate the writer; here they return the new one.  On an error the Go writer
  keeps what was written before it, and every caller gives the whole message up.
\<close>

record wireWriter =
  wbuf :: bytes
  woffset :: nat
  compressed :: "string \<rightharpoonup> nat"

definition newWireWriter :: "bytes \<Rightarrow> wireWriter" where
  "newWireWriter buf = \<lparr>wbuf = buf, woffset = 0, compressed = Map.empty\<rparr>"

definition writeBytes :: "wireWriter \<Rightarrow> bytes \<Rightarrow> wireWriter dns" where
  "writeBytes w b =
     (if int (length (wbuf w)) - int (woffset w) < int (length b) then Err errBufferFull
      else Ret (w\<lparr>wbuf := copyAt (wbuf w) (woffset w) b, woffset := woffset w + length b\<rparr>))"

definition writeUint16 :: "wireWriter \<Rightarrow> u16 \<Rightarrow> wireWriter dns" where
  "writeUint16 w v =
     (if int (length (wbuf w)) - int (woffset w) < 2 then Err errBufferFull
      else Ret (w\<lparr>wbuf := copyAt (wbuf w) (woffset w) (putUint16 v), woffset := woffset w + 2\<rparr>))"

definition writeUint32 :: "wireWriter \<Rightarrow> u32 \<Rightarrow> wireWriter dns" where
  "writeUint32 w v =
     (if int (length (wbuf w)) - int (woffset w) < 4 then Err errBufferFull
      else Ret (w\<lparr>wbuf := copyAt (wbuf w) (woffset w) (putUint32 v), woffset := woffset w + 4\<rparr>))"

text \<open>\<open>w.bytes()\<close>: the written prefix of the buffer.\<close>

definition written :: "wireWriter \<Rightarrow> bytes" where
  "written w = take (woffset w) (wbuf w)"

section \<open>The header (message.go, header.go)\<close>

record Header =
  ID :: u16
  Flags :: u16
  QDCount :: u16
  ANCount :: u16
  NSCount :: u16
  ARCount :: u16

definition QR :: "Header \<Rightarrow> bool" where
  "QR h \<longleftrightarrow> drop_bit 15 (Flags h) AND 1 = 1"

definition Opcode :: "Header \<Rightarrow> u8" where
  "Opcode h = ucast (drop_bit 11 (Flags h) AND 15)"

definition AA :: "Header \<Rightarrow> bool" where
  "AA h \<longleftrightarrow> drop_bit 10 (Flags h) AND 1 = 1"

definition TC :: "Header \<Rightarrow> bool" where
  "TC h \<longleftrightarrow> drop_bit 9 (Flags h) AND 1 = 1"

definition RD :: "Header \<Rightarrow> bool" where
  "RD h \<longleftrightarrow> drop_bit 8 (Flags h) AND 1 = 1"

definition RA :: "Header \<Rightarrow> bool" where
  "RA h \<longleftrightarrow> drop_bit 7 (Flags h) AND 1 = 1"

definition AD :: "Header \<Rightarrow> bool" where
  "AD h \<longleftrightarrow> drop_bit 5 (Flags h) AND 1 = 1"

definition CD :: "Header \<Rightarrow> bool" where
  "CD h \<longleftrightarrow> drop_bit 4 (Flags h) AND 1 = 1"

definition RCODE :: "Header \<Rightarrow> u8" where
  "RCODE h = ucast (Flags h AND 15)"

definition Header_Unpack :: "wireReader \<Rightarrow> (Header \<times> wireReader) dns" where
  "Header_Unpack r =
     andThen (readUint16 r) (\<lambda>(i, r).
     andThen (readUint16 r) (\<lambda>(f, r).
     andThen (readUint16 r) (\<lambda>(qd, r).
     andThen (readUint16 r) (\<lambda>(an, r).
     andThen (readUint16 r) (\<lambda>(ns, r).
     andThen (readUint16 r) (\<lambda>(ar, r).
     Ret (\<lparr>ID = i, Flags = f, QDCount = qd, ANCount = an, NSCount = ns, ARCount = ar\<rparr>, r)))))))"

fun writeAll16 :: "wireWriter \<Rightarrow> u16 list \<Rightarrow> wireWriter dns" where
  "writeAll16 w [] = Ret w"
| "writeAll16 w (v # vs) = andThen (writeUint16 w v) (\<lambda>w. writeAll16 w vs)"

definition Header_Pack :: "Header \<Rightarrow> wireWriter \<Rightarrow> wireWriter dns" where
  "Header_Pack h w = writeAll16 w [ID h, Flags h, QDCount h, ANCount h, NSCount h, ARCount h]"

text \<open>The flag builder: each setter ORs its field into the flags under construction.\<close>

type_synonym FlagBuilder = u16

definition NewFlagBuilder :: FlagBuilder where
  "NewFlagBuilder = 0"

definition SetQR :: "bool \<Rightarrow> FlagBuilder \<Rightarrow> FlagBuilder" where
  "SetQR v fb = (if v then fb OR push_bit 15 1 else fb)"

definition SetOpcode :: "u8 \<Rightarrow> FlagBuilder \<Rightarrow> FlagBuilder" where
  "SetOpcode v fb = fb OR push_bit 11 (ucast (v AND 15))"

definition SetAA :: "bool \<Rightarrow> FlagBuilder \<Rightarrow> FlagBuilder" where
  "SetAA v fb = (if v then fb OR push_bit 10 1 else fb)"

definition SetTC :: "bool \<Rightarrow> FlagBuilder \<Rightarrow> FlagBuilder" where
  "SetTC v fb = (if v then fb OR push_bit 9 1 else fb)"

definition SetRD :: "bool \<Rightarrow> FlagBuilder \<Rightarrow> FlagBuilder" where
  "SetRD v fb = (if v then fb OR push_bit 8 1 else fb)"

definition SetRA :: "bool \<Rightarrow> FlagBuilder \<Rightarrow> FlagBuilder" where
  "SetRA v fb = (if v then fb OR push_bit 7 1 else fb)"

definition SetAD :: "bool \<Rightarrow> FlagBuilder \<Rightarrow> FlagBuilder" where
  "SetAD v fb = (if v then fb OR push_bit 5 1 else fb)"

definition SetCD :: "bool \<Rightarrow> FlagBuilder \<Rightarrow> FlagBuilder" where
  "SetCD v fb = (if v then fb OR push_bit 4 1 else fb)"

definition SetRCODE :: "u8 \<Rightarrow> FlagBuilder \<Rightarrow> FlagBuilder" where
  "SetRCODE v fb = fb OR ucast (v AND 15)"

definition Build :: "FlagBuilder \<Rightarrow> u16" where
  "Build fb = fb"

section \<open>Lemmas: the reader\<close>

lemma readUint16_Ret_iff:
  "readUint16 r = Ret (v, r') \<longleftrightarrow>
     roffset r + 2 \<le> length (rbuf r) \<and>
     v = getUint16 (rbuf r ! roffset r) (rbuf r ! (roffset r + 1)) \<and>
     r' = r\<lparr>roffset := roffset r + 2\<rparr>"
  by (auto simp: readUint16_def remaining_def outcome_simps goIndex_Ret_iff)

lemma readUint32_Ret_iff:
  "readUint32 r = Ret (v, r') \<longleftrightarrow>
     roffset r + 4 \<le> length (rbuf r) \<and>
     v = getUint32 (rbuf r ! roffset r) (rbuf r ! (roffset r + 1))
           (rbuf r ! (roffset r + 2)) (rbuf r ! (roffset r + 3)) \<and>
     r' = r\<lparr>roffset := roffset r + 4\<rparr>"
  by (auto simp: readUint32_def remaining_def outcome_simps goIndex_Ret_iff)

lemma readBytes_Ret_iff:
  "readBytes r n = Ret (b, r') \<longleftrightarrow>
     roffset r + n \<le> length (rbuf r) \<and> b = take n (drop (roffset r) (rbuf r)) \<and>
     r' = r\<lparr>roffset := roffset r + n\<rparr>"
  by (auto simp: readBytes_def remaining_def outcome_simps goSlice_Ret_iff)

lemma readUint16_no_panic [simp]: "readUint16 r \<noteq> Panic"
  by (auto simp: readUint16_def remaining_def goIndex_def)

lemma readUint32_no_panic [simp]: "readUint32 r \<noteq> Panic"
  by (auto simp: readUint32_def remaining_def goIndex_def)

lemma readBytes_no_panic [simp]: "readBytes r n \<noteq> Panic"
  by (auto simp: readBytes_def remaining_def goSlice_def)

lemma peek_no_panic [simp]: "peek r \<noteq> Panic"
  by (auto simp: peek_def remaining_def goIndex_def)

lemmas read_no_panic = readUint16_no_panic readUint32_no_panic readBytes_no_panic peek_no_panic
lemmas read_Ret_iff = readUint16_Ret_iff readUint32_Ret_iff readBytes_Ret_iff

lemma Header_Unpack_no_panic [simp]: "Header_Unpack r \<noteq> Panic"
  by (simp add: Header_Unpack_def outcome_simps split: prod.splits)

section \<open>Lemmas: the writer\<close>

text \<open>
  A writer is well formed when its cursor is inside its buffer.  A successful write appends
  to the written prefix and leaves the buffer's length alone.
\<close>

definition wf_writer :: "wireWriter \<Rightarrow> bool" where
  "wf_writer w \<longleftrightarrow> woffset w \<le> length (wbuf w)"

lemma length_written [simp]: "wf_writer w \<Longrightarrow> length (written w) = woffset w"
  by (simp add: written_def wf_writer_def)

lemma writeBytes_Ret:
  assumes "writeBytes w b = Ret w'" and "wf_writer w"
  shows "written w' = written w @ b" and "wf_writer w'" and "woffset w' = woffset w + length b"
    and "length (wbuf w') = length (wbuf w)" and "compressed w' = compressed w"
  using assms by (auto simp: writeBytes_def written_def wf_writer_def split: if_splits)

lemma writeUint16_writeBytes: "writeUint16 w v = writeBytes w (putUint16 v)"
  by (simp add: writeUint16_def writeBytes_def)

lemma writeUint32_writeBytes: "writeUint32 w v = writeBytes w (putUint32 v)"
  by (simp add: writeUint32_def writeBytes_def)

lemmas write_as_bytes = writeUint16_writeBytes writeUint32_writeBytes

lemma writeBytes_no_panic [simp]: "writeBytes w b \<noteq> Panic"
  by (simp add: writeBytes_def)

lemma writeBytes_fits:
  "woffset w + length b \<le> length (wbuf w) \<Longrightarrow> \<exists>w'. writeBytes w b = Ret w'"
  by (simp add: writeBytes_def)

lemma writeBytes_full:
  "wf_writer w \<Longrightarrow> length (wbuf w) < woffset w + length b \<Longrightarrow> writeBytes w b = Err errBufferFull"
  by (simp add: writeBytes_def)

lemma wf_newWireWriter [simp]: "wf_writer (newWireWriter buf)" "written (newWireWriter buf) = []"
  by (simp_all add: wf_writer_def newWireWriter_def written_def)

lemma writeAll16_Ret:
  "writeAll16 w vs = Ret w' \<Longrightarrow> wf_writer w \<Longrightarrow>
     written w' = written w @ concat (map putUint16 vs) \<and> wf_writer w' \<and>
     woffset w' = woffset w + 2 * length vs \<and> compressed w' = compressed w \<and>
     length (wbuf w') = length (wbuf w)"
proof (induction vs arbitrary: w)
  case (Cons v vs)
  then obtain w1 where w1: "writeBytes w (putUint16 v) = Ret w1" and rest: "writeAll16 w1 vs = Ret w'"
    by (auto simp: outcome_simps write_as_bytes)
  with Cons.IH [OF rest] Cons.prems(2) writeBytes_Ret [OF w1] show ?case by simp
qed simp

lemma writeAll16_no_panic [simp]: "writeAll16 w vs \<noteq> Panic"
  by (induction vs arbitrary: w) (auto simp: outcome_simps write_as_bytes)

lemma Header_Pack_no_panic [simp]: "Header_Pack h w \<noteq> Panic"
  by (simp add: Header_Pack_def del: writeAll16.simps)

section \<open>The header round trip and the flag builder\<close>

lemma and_one_eq_bit: "drop_bit n (w :: 'a :: len word) AND 1 = 1 \<longleftrightarrow> bit w n"
  by (simp add: bit_iff_odd_drop_bit and_one_eq odd_iff_mod_2_eq_one)

lemmas flag_bits = QR_def AA_def TC_def RD_def RA_def AD_def CD_def and_one_eq_bit

lemma readUint16_at:
  assumes "rbuf r = pre @ putUint16 v @ post" and "roffset r = length pre"
  shows "readUint16 r = Ret (v, r\<lparr>roffset := length pre + 2\<rparr>)"
  using assms
  by (simp add: readUint16_Ret_iff putUint16_def nth_append word_io)

lemma readUint32_at:
  assumes "rbuf r = pre @ putUint32 v @ post" and "roffset r = length pre"
  shows "readUint32 r = Ret (v, r\<lparr>roffset := length pre + 4\<rparr>)"
  using assms
  by (simp add: readUint32_Ret_iff putUint32_def nth_append word_io)

definition header_bytes :: "Header \<Rightarrow> bytes" where
  "header_bytes h = putUint16 (ID h) @ putUint16 (Flags h) @ putUint16 (QDCount h) @
     putUint16 (ANCount h) @ putUint16 (NSCount h) @ putUint16 (ARCount h)"

lemma length_header_bytes [simp]: "length (header_bytes h) = 12"
  by (simp add: header_bytes_def)

lemma Header_Pack_Ret:
  assumes "Header_Pack h w = Ret w'" and "wf_writer w"
  shows "written w' = written w @ header_bytes h" and "wf_writer w'"
    and "woffset w' = woffset w + 12" and "compressed w' = compressed w"
    and "length (wbuf w') = length (wbuf w)"
  using writeAll16_Ret [of w "[ID h, Flags h, QDCount h, ANCount h, NSCount h, ARCount h]" w'] assms
  by (auto simp: Header_Pack_def header_bytes_def simp del: writeAll16.simps)

lemma Header_Unpack_header_bytes:
  assumes "rbuf r = header_bytes h @ post" and "roffset r = 0"
  shows "Header_Unpack r = Ret (h, r\<lparr>roffset := 12\<rparr>)"
proof -
  let ?p = putUint16
  have 1: "readUint16 r = Ret (ID h, r\<lparr>roffset := 2\<rparr>)"
    using readUint16_at [of r "[]" "ID h"] assms by (simp add: header_bytes_def)
  have 2: "readUint16 (r\<lparr>roffset := 2\<rparr>) = Ret (Flags h, r\<lparr>roffset := 4\<rparr>)"
    using readUint16_at [of "r\<lparr>roffset := 2\<rparr>" "?p (ID h)" "Flags h"] assms
    by (simp add: header_bytes_def)
  have 3: "readUint16 (r\<lparr>roffset := 4\<rparr>) = Ret (QDCount h, r\<lparr>roffset := 6\<rparr>)"
    using readUint16_at [of "r\<lparr>roffset := 4\<rparr>" "?p (ID h) @ ?p (Flags h)" "QDCount h"] assms
    by (simp add: header_bytes_def)
  have 4: "readUint16 (r\<lparr>roffset := 6\<rparr>) = Ret (ANCount h, r\<lparr>roffset := 8\<rparr>)"
    using readUint16_at [of "r\<lparr>roffset := 6\<rparr>" "?p (ID h) @ ?p (Flags h) @ ?p (QDCount h)" "ANCount h"] assms
    by (simp add: header_bytes_def)
  have 5: "readUint16 (r\<lparr>roffset := 8\<rparr>) = Ret (NSCount h, r\<lparr>roffset := 10\<rparr>)"
    using readUint16_at [of "r\<lparr>roffset := 8\<rparr>"
        "?p (ID h) @ ?p (Flags h) @ ?p (QDCount h) @ ?p (ANCount h)" "NSCount h"] assms
    by (simp add: header_bytes_def)
  have 6: "readUint16 (r\<lparr>roffset := 10\<rparr>) = Ret (ARCount h, r\<lparr>roffset := 12\<rparr>)"
    using readUint16_at [of "r\<lparr>roffset := 10\<rparr>"
        "?p (ID h) @ ?p (Flags h) @ ?p (QDCount h) @ ?p (ANCount h) @ ?p (NSCount h)" "ARCount h"] assms
    by (simp add: header_bytes_def)
  from 1 2 3 4 5 6 show ?thesis by (simp add: Header_Unpack_def)
qed

text \<open>The setters, bit by bit.\<close>

lemma bit_15: "bit (15 :: 'a :: len word) n \<longleftrightarrow> n < 4 \<and> n < LENGTH('a)"
proof -
  have "(15 :: 'a word) = mask 4" by (simp add: mask_eq_exp_minus_1)
  then show ?thesis by (simp only: bit_mask_iff) auto
qed

lemma bit_or_flag: "k < 16 \<Longrightarrow> bit (if v then fb OR push_bit k 1 else fb :: u16) n \<longleftrightarrow> bit fb n \<or> v \<and> n = k"
  by (auto simp: bit_simps)

lemma bit_setters:
  "bit (SetQR v fb) n \<longleftrightarrow> bit fb n \<or> v \<and> n = 15"
  "bit (SetAA v fb) n \<longleftrightarrow> bit fb n \<or> v \<and> n = 10"
  "bit (SetTC v fb) n \<longleftrightarrow> bit fb n \<or> v \<and> n = 9"
  "bit (SetRD v fb) n \<longleftrightarrow> bit fb n \<or> v \<and> n = 8"
  "bit (SetRA v fb) n \<longleftrightarrow> bit fb n \<or> v \<and> n = 7"
  "bit (SetAD v fb) n \<longleftrightarrow> bit fb n \<or> v \<and> n = 5"
  "bit (SetCD v fb) n \<longleftrightarrow> bit fb n \<or> v \<and> n = 4"
  unfolding SetQR_def SetAA_def SetTC_def SetRD_def SetRA_def SetAD_def SetCD_def
  by (rule bit_or_flag; simp)+

lemma bit_SetOpcode: "bit (SetOpcode v fb) n \<longleftrightarrow> bit fb n \<or> 11 \<le> n \<and> n < 15 \<and> bit v (n - 11)"
  unfolding SetOpcode_def bit_or_iff bit_push_bit_iff bit_unsigned_iff bit_and_iff bit_15 by auto

lemma bit_SetRCODE: "bit (SetRCODE v fb) n \<longleftrightarrow> bit fb n \<or> n < 4 \<and> bit v n"
  unfolding SetRCODE_def bit_or_iff bit_unsigned_iff bit_and_iff bit_15 by auto

lemma bit_Build [simp]: "bit (Build fb) n \<longleftrightarrow> bit fb n" "\<not> bit NewFlagBuilder n"
  by (simp_all add: Build_def NewFlagBuilder_def)

lemma bit_Opcode: "bit (Opcode h) n \<longleftrightarrow> n < 4 \<and> bit (Flags h) (11 + n)"
  unfolding Opcode_def bit_unsigned_iff bit_and_iff bit_15 bit_drop_bit_eq o_def by auto

lemma bit_RCODE: "bit (RCODE h) n \<longleftrightarrow> n < 4 \<and> bit (Flags h) n"
  unfolding RCODE_def bit_unsigned_iff bit_and_iff bit_15 by auto

lemmas flag_bit_simps = bit_setters bit_SetOpcode bit_SetRCODE bit_Opcode bit_RCODE

end
