(* ===== verification/Dns_Name.thy ===== *)
theory Dns_Name
  imports Dns_Wire
begin

text \<open>
  Domain names (\<open>dns/name.go\<close> and the plain encoder of \<open>dns/record.go\<close>): the decoder that
  follows compression pointers, the compressing encoder and the uncompressed encoder.
  The reference is \<open>name_at\<close>, the grammar of RFC 1035 section 4.1.4 as an inductive
  relation; the decoder is shown to compute exactly that relation within its limits, and
  the two encoders to produce bytes that are in it.
\<close>

section \<open>Decoding\<close>

definition maxNameLength :: nat where "maxNameLength = 255"
definition maxLabelLength :: nat where "maxLabelLength = 63"
definition maxPointerDepth :: nat where "maxPointerDepth = 128"
definition compressionMask :: u8 where "compressionMask = 0xC0"
definition pointerMask :: u16 where "pointerMask = 0x3FFF"

lemmas name_limits = maxNameLength_def maxLabelLength_def maxPointerDepth_def

text \<open>\<open>(int(msg[offset])<<8 | int(msg[offset+1])) & pointerMask\<close>, a value below \<open>2 ^ 14\<close>.\<close>

definition pointerTarget :: "u8 \<Rightarrow> u8 \<Rightarrow> nat" where
  "pointerTarget b0 b1 = unat (getUint16 b0 b1 AND pointerMask)"

text \<open>
  The \<open>for\<close> loop of \<open>DecodeName\<close> with its five variables.  It ends because a label moves
  the offset forward and a pointer uses up one of the 128 permitted jumps.
\<close>

function decodeLoop :: "bytes \<Rightarrow> nat \<Rightarrow> bytes \<Rightarrow> bool \<Rightarrow> nat \<Rightarrow> nat \<Rightarrow> (string \<times> nat) dns" where
  "decodeLoop msg offset name jumped consumedEnd pointerDepth =
     (if length msg \<le> offset then Err errTruncated
      else andThen (goIndex msg offset) (\<lambda>b.
        if b = 0 then Ret (string_of name, if jumped then consumedEnd else offset + 1)
        else if b AND compressionMask = compressionMask then
          (if length msg \<le> offset + 1 then Err errTruncated
           else andThen (goIndex msg (offset + 1)) (\<lambda>b1.
             let consumedEnd' = (if jumped then consumedEnd else offset + 2);
                 target = pointerTarget b b1
             in if offset \<le> target then Err errPointerForward
                else if maxPointerDepth < pointerDepth + 1 then Err errPointerLoop
                else decodeLoop msg target name True consumedEnd' (pointerDepth + 1)))
        else if maxLabelLength < unat b then Err errLabelTooLong
        else if length msg < offset + 1 + unat b then Err errTruncated
        else andThen (goSlice msg (offset + 1) (offset + 1 + unat b)) (\<lambda>l.
          let name' = (if name = [] then name else name @ [byte_of dot]) @ l
          in if maxNameLength < length name' then Err errNameTooLong
             else decodeLoop msg (offset + 1 + unat b) name' jumped consumedEnd pointerDepth)))"
  by pat_completeness auto
termination
  by (relation "measures [\<lambda>(msg, offset, name, jumped, e, d). maxPointerDepth + 1 - d,
                          \<lambda>(msg, offset, name, jumped, e, d). length msg - offset]")
     (auto simp: unat_gt_0)

declare decodeLoop.simps [simp del]

definition DecodeName :: "bytes \<Rightarrow> nat \<Rightarrow> (string \<times> nat) dns" where
  "DecodeName msg offset = decodeLoop msg offset [] False 0 0"

section \<open>Encoding\<close>

definition splitLabels :: "string \<Rightarrow> string list" where
  "splitLabels name = (let name = TrimSuffix name ''.'' in if name = '''' then [] else Split dot name)"

definition joinLabels :: "string list \<Rightarrow> string" where
  "joinLabels labels = Join dot labels"

text \<open>\<open>offset, ok := w.compressed[s]; ok && offset < 0x3FFF\<close>\<close>

definition compressionOffset :: "wireWriter \<Rightarrow> string \<Rightarrow> nat option" where
  "compressionOffset w s =
     (case compressed w s of None \<Rightarrow> None | Some off \<Rightarrow> if off < 0x3FFF then Some off else None)"

definition writePointer :: "wireWriter \<Rightarrow> nat \<Rightarrow> wireWriter dns" where
  "writePointer w off = writeUint16 w (0xC000 OR of_nat off)"

fun encodeLabels :: "wireWriter \<Rightarrow> string list \<Rightarrow> wireWriter dns" where
  "encodeLabels w [] = writeBytes w [0]"
| "encodeLabels w (label # rest) =
     (let suff = joinLabels (label # rest) in
      case compressionOffset w suff of
        Some off \<Rightarrow> writePointer w off
      | None \<Rightarrow>
          (let w = w\<lparr>compressed := (compressed w)(suff \<mapsto> woffset w)\<rparr> in
           if maxLabelLength < length label then Err errLabelTooLong
           else andThen (writeBytes w [of_nat (length label)]) (\<lambda>w.
                andThen (writeBytes w (bytes_of label)) (\<lambda>w.
                encodeLabels w rest))))"

definition EncodeName :: "wireWriter \<Rightarrow> string \<Rightarrow> wireWriter dns" where
  "EncodeName w name =
     (if name = '''' \<or> name = ''.'' then writeBytes w [0]
      else case compressionOffset w name of
             Some off \<Rightarrow> writePointer w off
           | None \<Rightarrow> encodeLabels w (splitLabels name))"

text \<open>
  \<open>encodePlainName\<close> of \<open>record.go\<close>: a single pass that emits a label at each dot and at the
  end of the string.
\<close>

function plainLoop :: "string \<Rightarrow> nat \<Rightarrow> nat \<Rightarrow> bytes \<Rightarrow> bytes dns" where
  "plainLoop name i start buf =
     (if i \<le> length name then
        (if i = length name \<or> name ! i = dot
         then andThen (goSlice name start i) (\<lambda>label.
                plainLoop name (i + 1) (i + 1) (buf @ of_nat (length label) # bytes_of label))
         else plainLoop name (i + 1) start buf)
      else Ret (buf @ [0]))"
  by pat_completeness auto
termination
  by (relation "measure (\<lambda>(name, i, start, buf). length name + 1 - i)") auto

declare plainLoop.simps [simp del]

definition encodePlainName :: "string \<Rightarrow> bytes dns" where
  "encodePlainName name =
     (if name = '''' \<or> name = ''.'' then Ret [0]
      else plainLoop (if last name = dot then butlast name else name) 0 0 [])"

definition BuildPlainName :: "string \<Rightarrow> bytes dns" where
  "BuildPlainName name = encodePlainName name"

section \<open>The reference: the name grammar of RFC 1035\<close>

text \<open>
  \<open>name_at msg off ls k e\<close>: at \<open>off\<close> the message holds the labels \<open>ls\<close>, reached through \<open>k\<close>
  pointers, and the part of it before the first pointer ends at \<open>e\<close>.
\<close>

inductive name_at :: "bytes \<Rightarrow> nat \<Rightarrow> string list \<Rightarrow> nat \<Rightarrow> nat \<Rightarrow> bool" where
  root: "off < length msg \<Longrightarrow> msg ! off = 0 \<Longrightarrow> name_at msg off [] 0 (off + 1)"
| label: "off < length msg \<Longrightarrow> unat (msg ! off) = length l \<Longrightarrow> 0 < length l \<Longrightarrow> length l \<le> 63 \<Longrightarrow>
     off + 1 + length l \<le> length msg \<Longrightarrow> take (length l) (drop (off + 1) msg) = bytes_of l \<Longrightarrow>
     name_at msg (off + 1 + length l) ls k e \<Longrightarrow> name_at msg off (l # ls) k e"
| pointer: "off + 1 < length msg \<Longrightarrow> msg ! off AND 0xC0 = 0xC0 \<Longrightarrow>
     pointerTarget (msg ! off) (msg ! (off + 1)) < off \<Longrightarrow>
     name_at msg (pointerTarget (msg ! off) (msg ! (off + 1))) ls k e' \<Longrightarrow>
     name_at msg off ls (Suc k) (off + 2)"

inductive_cases name_at_NilE: "name_at msg off [] k e"
inductive_cases name_at_ConsE: "name_at msg off (l # ls) k e"

text \<open>A label a name may hold when it is written: non-empty, at most 63 bytes, no dot.\<close>

definition valid_label :: "string \<Rightarrow> bool" where
  "valid_label l \<longleftrightarrow> l \<noteq> [] \<and> length l \<le> 63 \<and> dot \<notin> set l"

definition valid_labels :: "string list \<Rightarrow> bool" where
  "valid_labels ls \<longleftrightarrow> list_all valid_label ls \<and> length (Join dot ls) \<le> 255"

section \<open>Small facts\<close>

lemma joinLabels_Nil [simp]: "joinLabels [] = []"
  by (simp add: joinLabels_def)

lemma Join_Cons: "Join c (x # xs) = (if xs = [] then x else x @ c # Join c xs)"
  by (cases xs) auto

lemma Join_eq_Nil: "list_all (\<lambda>l. l \<noteq> []) ls \<Longrightarrow> Join c ls = [] \<longleftrightarrow> ls = []"
  by (cases ls) (auto simp: Join_Cons)

lemma label_byte_small:
  fixes b :: u8 assumes "unat b \<le> 63" shows "b AND 0xC0 \<noteq> 0xC0"
proof
  assume "b AND 0xC0 = 0xC0"
  then have "0xC0 \<le> b" by (metis word_and_le2)
  then have "192 \<le> unat b" by (simp add: word_le_nat_alt)
  with assms show False by simp
qed

lemma pointerTarget_less: "pointerTarget b0 b1 < 2 ^ 14"
proof -
  have "getUint16 b0 b1 AND pointerMask \<le> pointerMask" by (rule word_and_le1)
  then show ?thesis by (simp add: pointerTarget_def pointerMask_def word_le_nat_alt)
qed

section \<open>The decoder computes the grammar\<close>

definition extendName :: "string \<Rightarrow> string list \<Rightarrow> string" where
  "extendName pre ls = (if ls = [] then pre else if pre = [] then Join dot ls else pre @ dot # Join dot ls)"

lemma extendName_Nil [simp]: "extendName pre [] = pre" "extendName [] ls = Join dot ls"
  by (simp_all add: extendName_def)

lemma extendName_Cons:
  "l \<noteq> [] \<Longrightarrow> extendName ((if pre = [] then pre else pre @ [dot]) @ l) ls = extendName pre (l # ls)"
  by (auto simp: extendName_def Join_Cons)

lemma string_of_eq_Nil [simp]: "string_of bs = [] \<longleftrightarrow> bs = []"
  by (simp add: string_of_def)

lemma string_of_step:
  "string_of ((if name = [] then name else name @ [byte_of dot]) @ l) =
     (if string_of name = [] then string_of name else string_of name @ [dot]) @ string_of l"
  by (simp add: string_of_def)

lemma decodeLoop_sound:
  assumes "decodeLoop msg off name jumped e d = Ret (s, e')" and "d \<le> maxPointerDepth"
  shows "\<exists>ls k e0. name_at msg off ls k e0 \<and> d + k \<le> maxPointerDepth \<and>
           s = extendName (string_of name) ls \<and> e' = (if jumped then e else e0) \<and>
           (ls \<noteq> [] \<longrightarrow> length s \<le> maxNameLength)"
  using assms
proof (induction msg off name jumped e d rule: decodeLoop.induct)
  case (1 msg off name jumped e d)
  let ?b = "msg ! off"
  from "1.prems" have len: "off < length msg"
    by (subst (asm) decodeLoop.simps) (auto split: if_splits)
  consider (zero) "?b = 0" | (ptr) "?b \<noteq> 0" "?b AND compressionMask = compressionMask"
    | (lab) "?b \<noteq> 0" "?b AND compressionMask \<noteq> compressionMask" by blast
  then show ?case
  proof cases
    case zero
    with "1.prems" len have "s = string_of name" "e' = (if jumped then e else off + 1)"
      by (subst (asm) decodeLoop.simps, simp)+
    moreover have "name_at msg off [] 0 (off + 1)" using len zero by (rule name_at.root)
    ultimately show ?thesis using "1.prems"(2) by (intro exI [of _ "[]"] exI [of _ 0] exI [of _ "off + 1"]) auto
  next
    case ptr
    let ?t = "pointerTarget ?b (msg ! (off + 1))"
    let ?e = "if jumped then e else off + 2"
    from "1.prems" len ptr have g: "off + 1 < length msg" "?t < off" "d + 1 \<le> maxPointerDepth"
      and rec: "decodeLoop msg ?t name True ?e (d + 1) = Ret (s, e')"
      by (subst (asm) decodeLoop.simps, auto simp: Let_def split: if_splits)+
    from "1.IH"(1) [of ?b "msg ! (off + 1)" ?e ?t] len ptr g rec
    obtain ls k e0 where "name_at msg ?t ls k e0" "d + 1 + k \<le> maxPointerDepth"
      "s = extendName (string_of name) ls" "e' = ?e" "ls \<noteq> [] \<longrightarrow> length s \<le> maxNameLength"
      by (auto simp: goIndex_def)
    then show ?thesis
      using name_at.pointer [of off msg ls k e0] g ptr
      by (intro exI [of _ ls] exI [of _ "Suc k"] exI [of _ "off + 2"]) (auto simp: compressionMask_def)
  next
    case lab
    let ?l = "take (unat ?b) (drop (off + 1) msg)"
    let ?name = "(if name = [] then name else name @ [byte_of dot]) @ ?l"
    from "1.prems" len lab have g: "unat ?b \<le> maxLabelLength" "off + 1 + unat ?b \<le> length msg"
      "length ?name \<le> maxNameLength"
      and rec: "decodeLoop msg (off + 1 + unat ?b) ?name jumped e d = Ret (s, e')"
      by (subst (asm) decodeLoop.simps, auto simp: Let_def split: if_splits)+
    from "1.IH"(2) [of ?b ?l ?name] len lab g rec "1.prems"(2)
    obtain ls k e0 where ih: "name_at msg (off + 1 + unat ?b) ls k e0" "d + k \<le> maxPointerDepth"
      "s = extendName (string_of ?name) ls" "e' = (if jumped then e else e0)"
      "ls \<noteq> [] \<longrightarrow> length s \<le> maxNameLength"
      by (auto simp: goIndex_def goSlice_def)
    have nz: "0 < unat ?b" using lab by (simp add: unat_gt_0)
    have ll: "length ?l = unat ?b" using g by simp
    then have lne: "string_of ?l \<noteq> []" using nz by (metis length_0_conv length_string_of less_numeral_extra(3))
    have "name_at msg off (string_of ?l # ls) k e0"
      using name_at.label [of off msg "string_of ?l" ls k e0] len g nz ll ih(1)
      by (simp add: name_limits)
    moreover have "s = extendName (string_of name) (string_of ?l # ls)"
      using ih(3) lne extendName_Cons [OF lne] by (simp only: string_of_step)
    moreover have "length s \<le> maxNameLength"
      using ih(3,5) g(3) by (cases "ls = []") auto
    ultimately show ?thesis using ih(2,4) by blast
  qed
qed

lemma decodeLoop_complete:
  assumes "name_at msg off ls k e0" and "d + k \<le> maxPointerDepth"
    and "ls \<noteq> [] \<longrightarrow> length (extendName (string_of name) ls) \<le> maxNameLength"
  shows "decodeLoop msg off name jumped e d =
           Ret (extendName (string_of name) ls, if jumped then e else e0)"
  using assms
proof (induction arbitrary: name jumped e d rule: name_at.induct)
  case (root off msg)
  then show ?case by (subst decodeLoop.simps) simp
next
  case (label off msg l ls k e0)
  let ?b = "msg ! off"
  let ?name = "(if name = [] then name else name @ [byte_of dot]) @ bytes_of l"
  have lne: "l \<noteq> []" using label by auto
  have nz: "?b \<noteq> 0" using label by auto
  have np: "?b AND compressionMask \<noteq> compressionMask"
    using label_byte_small [of ?b] label by (simp add: compressionMask_def)
  have ext: "extendName (string_of ?name) ls = extendName (string_of name) (l # ls)"
    using extendName_Cons [OF lne] by (simp only: string_of_step string_of_bytes_of)
  have "length ?name \<le> length (extendName (string_of name) (l # ls))"
    by (auto simp: extendName_def Join_Cons)
  then have short: "length ?name \<le> maxNameLength" using label.prems(2) by simp
  have "decodeLoop msg (off + 1 + length l) ?name jumped e d =
     Ret (extendName (string_of ?name) ls, if jumped then e else e0)"
    using label.prems by (intro label.IH) (simp_all only: ext, simp_all)
  then show ?case
    using label.hyps nz np short ext
    by (subst decodeLoop.simps) (simp add: Let_def name_limits add.assoc)
next
  case (pointer off msg ls k e')
  then show ?case
    by (subst decodeLoop.simps) (auto simp: Let_def compressionMask_def)
qed

lemma decodeLoop_no_panic: "decodeLoop msg off name jumped e d \<noteq> Panic"
proof (induction msg off name jumped e d rule: decodeLoop.induct)
  case (1 msg off name jumped e d)
  then show ?case
    by (subst decodeLoop.simps) (auto simp: Let_def outcome_simps goIndex_def goSlice_def split: if_splits)
qed

lemma DecodeName_no_panic [simp]: "DecodeName msg off \<noteq> Panic"
  by (simp add: DecodeName_def decodeLoop_no_panic)

lemma DecodeName_iff:
  "DecodeName msg off = Ret (s, e) \<longleftrightarrow>
     (\<exists>ls k. name_at msg off ls k e \<and> k \<le> 128 \<and> s = Join dot ls \<and> length s \<le> 255)"
proof
  assume "DecodeName msg off = Ret (s, e)"
  then show "\<exists>ls k. name_at msg off ls k e \<and> k \<le> 128 \<and> s = Join dot ls \<and> length s \<le> 255"
    using decodeLoop_sound [of msg off "[]" False 0 0 s e]
    by (fastforce simp: DecodeName_def name_limits string_of_def)
next
  assume "\<exists>ls k. name_at msg off ls k e \<and> k \<le> 128 \<and> s = Join dot ls \<and> length s \<le> 255"
  then show "DecodeName msg off = Ret (s, e)"
    using decodeLoop_complete [of msg off _ _ e 0 "[]" False 0]
    by (auto simp: DecodeName_def name_limits string_of_def)
qed

section \<open>Facts about the grammar\<close>

lemma name_at_bounds: "name_at msg off ls k e \<Longrightarrow> off < e \<and> e \<le> length msg"
  by (induction rule: name_at.induct) auto

lemma name_at_label_sizes: "name_at msg off ls k e \<Longrightarrow> list_all (\<lambda>l. l \<noteq> [] \<and> length l \<le> 63) ls"
  by (induction rule: name_at.induct) auto

lemma name_at_append: "name_at msg off ls k e \<Longrightarrow> name_at (msg @ xs) off ls k e"
proof (induction rule: name_at.induct)
  case (root off msg)
  then show ?case using name_at.root [of off "msg @ xs"] by (simp add: nth_append)
next
  case (label off msg l ls k e)
  then show ?case using name_at.label [of off "msg @ xs" l ls k e] by (simp add: nth_append)
next
  case (pointer off msg ls k e')
  then show ?case using name_at.pointer [of off "msg @ xs" ls k e'] by (simp add: nth_append)
qed

lemma DecodeName_bounds:
  "DecodeName msg off = Ret (s, e) \<Longrightarrow> off < e \<and> e \<le> length msg \<and> length s \<le> 255"
  using name_at_bounds by (auto simp: DecodeName_iff)

section \<open>The uncompressed form\<close>

definition wireLabel :: "string \<Rightarrow> bytes" where
  "wireLabel l = of_nat (length l) # bytes_of l"

definition wireName :: "string list \<Rightarrow> bytes" where
  "wireName ls = concat (map wireLabel ls) @ [0]"

lemma wireName_simps [simp]:
  "wireName [] = [0]" "wireName (l # ls) = wireLabel l @ wireName ls"
  by (simp_all add: wireName_def)

lemma length_wireLabel [simp]: "length (wireLabel l) = Suc (length l)"
  by (simp add: wireLabel_def)

lemma unat_label_length: "length l \<le> 63 \<Longrightarrow> unat (of_nat (length l) :: u8) = length l"
  by (simp add: unat_of_nat)

lemma name_at_wireName:
  "list_all (\<lambda>l. l \<noteq> [] \<and> length l \<le> 63) ls \<Longrightarrow>
     name_at (pre @ wireName ls @ post) (length pre) ls 0 (length pre + length (wireName ls))"
proof (induction ls arbitrary: pre)
  case Nil
  then show ?case using name_at.root [of "length pre" "pre @ [0] @ post"] by (simp add: nth_append)
next
  case (Cons l ls)
  let ?m = "pre @ wireName (l # ls) @ post"
  have "name_at ((pre @ wireLabel l) @ wireName ls @ post) (length (pre @ wireLabel l)) ls 0
          (length (pre @ wireLabel l) + length (wireName ls))"
    using Cons by (intro Cons.IH) simp
  then have "name_at ?m (length pre + 1 + length l) ls 0 (length pre + length (wireName (l # ls)))"
    by (simp add: add.assoc)
  moreover have "?m ! length pre = of_nat (length l)"
    by (simp add: nth_append wireLabel_def)
  moreover have "take (length l) (drop (length pre + 1) ?m) = bytes_of l"
    by (simp add: wireLabel_def)
  ultimately show ?case
    using Cons.prems by (intro name_at.label) (auto simp: unat_label_length)
qed

lemma plainLoop_eq:
  "start \<le> i \<Longrightarrow> i \<le> length name \<Longrightarrow> dot \<notin> set (take (i - start) (drop start name)) \<Longrightarrow>
   plainLoop name i start buf = Ret (buf @ wireName (Split dot (drop start name)))"
proof (induction name i start buf rule: plainLoop.induct)
  case (1 name i start buf)
  let ?l = "take (i - start) (drop start name)"
  consider (last) "i = length name" | (sep) "i < length name" "name ! i = dot"
    | (other) "i < length name" "name ! i \<noteq> dot"
    using "1.prems"(2) by fastforce
  then show ?case
  proof cases
    case last
    then have "Split dot (drop start name) = [?l]"
      using "1.prems" by (simp add: Split_no_sep)
    moreover have "plainLoop name (i + 1) (i + 1) b = Ret (b @ [0])" for b
      using last by (subst plainLoop.simps) simp
    ultimately show ?thesis
      using last "1.prems" by (subst plainLoop.simps) (simp add: wireLabel_def)
  next
    case sep
    have "drop start name = ?l @ dot # drop (Suc i) name"
      using "1.prems" sep
      by (metis Cons_nth_drop_Suc append_take_drop_id drop_drop le_add_diff_inverse2)
    then have sp: "Split dot (drop start name) = ?l # Split dot (drop (Suc i) name)"
      using "1.prems"(3) by (metis Split_append_sep)
    have "plainLoop name (i + 1) (i + 1) (buf @ of_nat (length ?l) # bytes_of ?l) =
        Ret ((buf @ of_nat (length ?l) # bytes_of ?l) @ wireName (Split dot (drop (i + 1) name)))"
      using "1.prems" sep by (intro "1.IH"(1)) auto
    then show ?thesis
      using sep "1.prems" sp by (subst plainLoop.simps) (simp add: wireLabel_def)
  next
    case other
    have "take (i + 1 - start) (drop start name) = ?l @ [name ! i]"
      using "1.prems" other by (simp add: Suc_diff_le take_Suc_conv_app_nth)
    then have "plainLoop name (i + 1) start buf = Ret (buf @ wireName (Split dot (drop start name)))"
      using "1.prems" other by (intro "1.IH"(2)) auto
    with other show ?thesis by (subst plainLoop.simps) simp
  qed
qed

lemma TrimSuffix_dot: "TrimSuffix name ''.'' = (if name \<noteq> [] \<and> last name = dot then butlast name else name)"
  by (cases name rule: rev_cases) (auto simp: TrimSuffix_def HasSuffix_def)

lemma encodePlainName_eq: "encodePlainName name = Ret (wireName (splitLabels name))"
proof (cases "name = '''' \<or> name = ''.''")
  case True
  then show ?thesis
    by (auto simp: encodePlainName_def splitLabels_def TrimSuffix_dot)
next
  case False
  let ?n = "if last name = dot then butlast name else name"
  from False have "?n \<noteq> []"
    by (cases name rule: rev_cases) auto
  then have "splitLabels name = Split dot ?n"
    using False by (auto simp: splitLabels_def TrimSuffix_dot)
  with False plainLoop_eq [of 0 0 ?n "[]"] show ?thesis
    by (simp add: encodePlainName_def)
qed

lemma last_Join:
  "xs \<noteq> [] \<Longrightarrow> \<forall>l \<in> set xs. l \<noteq> [] \<and> c \<notin> set l \<Longrightarrow> last (Join c xs) \<noteq> c"
proof (induction xs)
  case (Cons x xs)
  then show ?case
    by (cases "xs = []") (auto simp: Join_Cons Join_eq_Nil list_all_iff dest: last_in_set)
qed simp

lemma splitLabels_Join:
  assumes "list_all valid_label ls" shows "splitLabels (Join dot ls) = ls"
proof (cases ls)
  case Nil
  then show ?thesis by (simp add: splitLabels_def TrimSuffix_dot)
next
  case (Cons l ls')
  have nd: "\<forall>l \<in> set ls. dot \<notin> set l" and ne: "\<forall>l \<in> set ls. l \<noteq> []"
    using assms by (auto simp: valid_label_def list_all_iff)
  have jne: "Join dot ls \<noteq> []"
    using Join_eq_Nil [of ls dot] ne Cons by (simp add: list_all_iff)
  have "last (Join dot ls) \<noteq> dot"
    using last_Join [of ls] nd ne Cons by simp
  then show ?thesis
    using jne Split_Join [of ls dot] nd Cons by (simp add: splitLabels_def TrimSuffix_dot)
qed

lemma valid_label_sizes: "list_all valid_label ls \<Longrightarrow> list_all (\<lambda>l. l \<noteq> [] \<and> length l \<le> 63) ls"
  by (simp add: list_all_iff valid_label_def)

lemma encodePlainName_Join:
  "list_all valid_label ls \<Longrightarrow> encodePlainName (Join dot ls) = Ret (wireName ls)"
  by (simp add: encodePlainName_eq splitLabels_Join)

lemma DecodeName_wireName:
  assumes "valid_labels ls"
  shows "DecodeName (pre @ wireName ls @ post) (length pre) =
           Ret (Join dot ls, length pre + length (wireName ls))"
  using name_at_wireName [OF valid_label_sizes, of ls pre post] assms
  by (auto simp: DecodeName_iff valid_labels_def)

section \<open>The compressing encoder\<close>

text \<open>A pointer written for an offset below \<open>0x3FFF\<close> is read back as that offset.\<close>

lemma pointer_bytes:
  assumes "off < 0x3FFF"
  shows "\<exists>b0 b1. putUint16 (0xC000 OR of_nat off) = [b0, b1] \<and> b0 AND 0xC0 = 0xC0 \<and>
           pointerTarget b0 b1 = off"
proof (intro exI conjI)
  let ?v = "0xC000 OR of_nat off :: u16"
  show "putUint16 ?v = [ucast (drop_bit 8 ?v), ucast ?v]" by (simp add: putUint16_def)
  show "(ucast (drop_bit 8 ?v) :: u8) AND 0xC0 = 0xC0"
  proof (rule bit_word_eqI)
    fix n assume "n < LENGTH(8)"
    then have "n \<in> {0,1,2,3,4,5,6,7}" by auto
    then show "bit ((ucast (drop_bit 8 ?v) :: u8) AND 0xC0) n = bit (0xC0 :: u8) n"
      by (auto simp: bit_simps bit_numeral_rec)
  qed
  have small: "(of_nat off :: u16) AND 0x3FFF = of_nat off"
  proof -
    have "take_bit 14 (of_nat off :: u16) = of_nat off"
    proof (rule word_unat_eq_iff [THEN iffD2])
      show "unat (take_bit 14 (of_nat off :: u16)) = unat (of_nat off :: u16)"
        using assms by (simp add: unsigned_take_bit_eq unsigned_of_nat take_bit_nat_eq_self)
    qed
    then show ?thesis by (simp add: take_bit_eq_mask mask_eq_exp_minus_1)
  qed
  have "(0xC000 :: u16) AND 0x3FFF = 0" by simp
  then have "?v AND 0x3FFF = of_nat off"
    using small by (simp add: bit.conj_disj_distrib2)
  then have "unat (?v AND 0x3FFF) = off"
    using assms by (simp add: unsigned_of_nat take_bit_nat_eq_self)
  then show "pointerTarget (ucast (drop_bit 8 ?v)) (ucast ?v) = off"
    by (simp only: pointerTarget_def pointerMask_def get_putUint16)
qed

text \<open>
  What a compression-table entry promises: the name is written at its offset, and reading it
  follows fewer pointers than it has labels.
\<close>

definition entry_ok :: "bytes \<Rightarrow> string \<Rightarrow> nat \<Rightarrow> bool" where
  "entry_ok msg s off \<longleftrightarrow>
     (\<exists>ls k e. name_at msg off ls k e \<and> k < length ls \<and> s = Join dot ls \<and> list_all valid_label ls)"

definition table_ok :: "wireWriter \<Rightarrow> bool" where
  "table_ok w \<longleftrightarrow> (\<forall>s off. compressionOffset w s = Some off \<longrightarrow> entry_ok (written w) s off)"

lemma compressionOffset_bound: "compressionOffset w s = Some off \<Longrightarrow> off < 0x3FFF"
  by (auto simp: compressionOffset_def split: option.splits if_splits)

lemma compressionOffset_cong: "compressed w = compressed w' \<Longrightarrow> compressionOffset w s = compressionOffset w' s"
  by (simp add: compressionOffset_def)

lemma entry_ok_append: "entry_ok msg s off \<Longrightarrow> entry_ok (msg @ xs) s off"
  unfolding entry_ok_def using name_at_append by blast

lemma entry_ok_less: "entry_ok msg s off \<Longrightarrow> off < length msg"
  unfolding entry_ok_def using name_at_bounds by fastforce

lemma name_at_pointer_written:
  assumes "name_at msg off ls k e" and "off < 0x3FFF"
  shows "name_at (msg @ putUint16 (0xC000 OR of_nat off)) (length msg) ls (Suc k) (length msg + 2)"
proof -
  obtain b0 b1 where b: "putUint16 (0xC000 OR of_nat off) = [b0, b1]" "b0 AND 0xC0 = 0xC0"
    "pointerTarget b0 b1 = off"
    using pointer_bytes [OF assms(2)] by blast
  have "off < length msg" using name_at_bounds [OF assms(1)] by simp
  then show ?thesis
    using name_at.pointer [of "length msg" "msg @ [b0, b1]" ls k e] name_at_append [OF assms(1)] b
    by (simp add: nth_append)
qed

lemma writePointer_correct:
  assumes "writePointer w off = Ret w'" and "wf_writer w" and "entry_ok (written w) (Join dot ls) off"
    and "off < 0x3FFF" and "list_all valid_label ls"
  shows "\<exists>k bs. written w' = written w @ bs \<and> wf_writer w' \<and>
           name_at (written w') (woffset w) ls k (woffset w') \<and> k \<le> length ls \<and>
           compressed w' = compressed w"
proof -
  from assms(1) have wr: "writeBytes w (putUint16 (0xC000 OR of_nat off)) = Ret w'"
    by (simp add: writePointer_def write_as_bytes)
  note w' = writeBytes_Ret [OF wr assms(2)]
  from assms(3) obtain ls' k e where e: "name_at (written w) off ls' k e" "k < length ls'"
    "Join dot ls = Join dot ls'" "list_all valid_label ls'" by (auto simp: entry_ok_def)
  then have "ls' = ls"
    using splitLabels_Join [of ls] splitLabels_Join [of ls'] assms(5) by metis
  then show ?thesis
    using name_at_pointer_written [OF e(1) assms(4)] w' assms(2) e(2) by auto
qed

text \<open>
  The state of the encoder: the bytes written since \<open>w\<close> spell the labels \<open>ls\<close> at the old
  cursor, and every table entry is either one of \<open>w\<close>'s or keeps its promise.
\<close>

definition spelled :: "wireWriter \<Rightarrow> string list \<Rightarrow> wireWriter \<Rightarrow> bool" where
  "spelled w ls w' \<longleftrightarrow> wf_writer w' \<and> (\<exists>bs. written w' = written w @ bs) \<and>
     (\<exists>k \<le> length ls. name_at (written w') (woffset w) ls k (woffset w')) \<and>
     (\<forall>s off. compressionOffset w' s = Some off \<longrightarrow>
        compressionOffset w s = Some off \<or> entry_ok (written w') s off)"

text \<open>The table is sound for every name no longer than \<open>n\<close>.\<close>

definition table_upto :: "nat \<Rightarrow> wireWriter \<Rightarrow> bool" where
  "table_upto n w \<longleftrightarrow>
     (\<forall>s off. compressionOffset w s = Some off \<longrightarrow> length s \<le> n \<longrightarrow> entry_ok (written w) s off)"

lemma name_at_written_label:
  assumes "W = pre @ wireLabel l @ bs" and "l \<noteq> []" and "length l \<le> 63"
    and "name_at W (length pre + 1 + length l) ls k e"
  shows "name_at W (length pre) (l # ls) k e"
  using assms by (intro name_at.label) (auto simp: unat_label_length nth_append wireLabel_def)

lemma spelled_pointer:
  assumes "writePointer w off = Ret w'" and "wf_writer w" and "list_all valid_label ls"
    and "compressionOffset w (Join dot ls) = Some off" and "entry_ok (written w) (Join dot ls) off"
  shows "spelled w ls w'"
  using writePointer_correct [OF assms(1,2,5) compressionOffset_bound [OF assms(4)] assms(3)]
    compressionOffset_cong unfolding spelled_def by metis

lemma spelled_root:
  assumes "writeBytes w [0] = Ret w'" and "wf_writer w"
  shows "spelled w [] w'"
proof -
  note w' = writeBytes_Ret [OF assms]
  have "name_at (written w @ [0]) (woffset w) [] 0 (woffset w + 1)"
    using name_at.root [of "woffset w" "written w @ [0]"] assms(2) by (simp add: nth_append)
  with w' show ?thesis using compressionOffset_cong [OF w'(5)] by (simp add: spelled_def)
qed

lemma spelled_label:
  assumes "spelled w3 ls w'" and "written w3 = written w @ wireLabel l"
    and "woffset w3 = woffset w + 1 + length l" and "wf_writer w" and "list_all valid_label (l # ls)"
    and "compressed w3 = (compressed w)(Join dot (l # ls) \<mapsto> woffset w)"
  shows "spelled w (l # ls) w'"
proof -
  let ?s = "Join dot (l # ls)"
  from assms(1) obtain k bs where
    k: "written w' = written w3 @ bs" "wf_writer w'" "k \<le> length ls"
      "name_at (written w') (woffset w3) ls k (woffset w')"
    and tab: "\<And>s off. compressionOffset w' s = Some off \<Longrightarrow>
      compressionOffset w3 s = Some off \<or> entry_ok (written w') s off"
    unfolding spelled_def by blast
  have "l \<noteq> []" "length l \<le> 63" using assms(5) by (simp_all add: valid_label_def)
  then have here: "name_at (written w') (woffset w) (l # ls) k (woffset w')"
    using name_at_written_label [of "written w'" "written w" l bs ls k] k(1,4) assms(2,3,4) by simp
  then have new: "entry_ok (written w') ?s (woffset w)"
    unfolding entry_ok_def using k(3) assms(5) by (metis le_imp_less_Suc length_Cons)
  have "compressionOffset w s = Some off \<or> entry_ok (written w') s off"
    if "compressionOffset w' s = Some off" for s off
    using tab [OF that] new assms(6)
    by (cases "s = ?s") (auto simp: compressionOffset_def split: if_splits)
  moreover have "\<exists>bs. written w' = written w @ bs" using k(1) assms(2) by simp
  moreover have "k \<le> length (l # ls)" using k(3) by simp
  ultimately show ?thesis using k(2) here unfolding spelled_def by blast
qed

lemma encodeLabels_spelled:
  assumes "encodeLabels w ls = Ret w'" and "wf_writer w" and "list_all valid_label ls"
    and "table_upto (length (Join dot ls)) w"
  shows "spelled w ls w'"
  using assms
proof (induction ls arbitrary: w)
  case Nil
  then show ?case by (simp add: spelled_root)
next
  case (Cons l ls)
  let ?suff = "Join dot (l # ls)"
  show ?case
  proof (cases "compressionOffset w ?suff")
    case (Some off)
    with Cons.prems show ?thesis
      by (intro spelled_pointer) (auto simp: joinLabels_def Let_def table_upto_def)
  next
    case None
    let ?w = "w\<lparr>compressed := (compressed w)(?suff \<mapsto> woffset w)\<rparr>"
    have vl: "l \<noteq> []" "length l \<le> 63" using Cons.prems(3) by (simp_all add: valid_label_def)
    have vls: "list_all valid_label ls" using Cons.prems(3) by simp
    from None Cons.prems(1) vl obtain w2 w3 where
      w2: "writeBytes ?w [of_nat (length l)] = Ret w2" and w3: "writeBytes w2 (bytes_of l) = Ret w3"
      and rest: "encodeLabels w3 ls = Ret w'"
      by (auto simp: joinLabels_def Let_def name_limits outcome_simps split: if_splits)
    have wf: "wf_writer ?w" and wr: "written ?w = written w"
      using Cons.prems(2) by (simp_all add: wf_writer_def written_def)
    note r2 = writeBytes_Ret [OF w2 wf]
    note r3 = writeBytes_Ret [OF w3 r2(2)]
    have cmp: "compressed w3 = (compressed w)(?suff \<mapsto> woffset w)" using r2 r3 by simp
    have wr3: "written w3 = written w @ wireLabel l" using r2 r3 wr by (simp add: wireLabel_def)
    have off3: "woffset w3 = woffset w + 1 + length l" using r2 r3 by simp
    have "length (Join dot ls) < length ?suff" using vl by (auto simp: Join_Cons)
    then have "table_upto (length (Join dot ls)) w3"
      using Cons.prems(4) cmp wr3 entry_ok_append
      by (auto simp: table_upto_def compressionOffset_def split: if_splits)
    from Cons.IH [OF rest r3(2) vls this] show ?thesis
      by (rule spelled_label [OF _ wr3 off3 Cons.prems(2,3) cmp])
  qed
qed

lemma table_ok_upto: "table_ok w \<Longrightarrow> table_upto n w"
  by (simp add: table_ok_def table_upto_def)

lemma spelled_table_ok: "spelled w ls w' \<Longrightarrow> table_ok w \<Longrightarrow> table_ok w'"
  unfolding spelled_def table_ok_def using entry_ok_append by metis

lemma EncodeName_spelled:
  assumes "EncodeName w (Join dot ls) = Ret w'" and "wf_writer w" and "table_ok w"
    and "list_all valid_label ls"
  shows "spelled w ls w'"
proof (cases "ls = []")
  case True
  with assms show ?thesis by (simp add: EncodeName_def spelled_root)
next
  case False
  then have ne: "Join dot ls \<noteq> []"
    using Join_eq_Nil valid_label_sizes [OF assms(4)] by (metis (mono_tags, lifting) list_all_iff)
  have "Join dot ls \<noteq> ''.''"
    using last_Join [of ls dot] assms(4) False by (auto simp: list_all_iff valid_label_def)
  with ne assms have enc: "(case compressionOffset w (Join dot ls) of
      Some off \<Rightarrow> writePointer w off | None \<Rightarrow> encodeLabels w ls) = Ret w'"
    using splitLabels_Join [OF assms(4)] by (simp add: EncodeName_def split: option.splits)
  show ?thesis
  proof (cases "compressionOffset w (Join dot ls)")
    case None
    with enc assms show ?thesis by (intro encodeLabels_spelled table_ok_upto) simp_all
  next
    case (Some off)
    with enc assms show ?thesis by (intro spelled_pointer) (auto simp: table_ok_def)
  qed
qed

lemma valid_labels_count: "valid_labels ls \<Longrightarrow> length ls \<le> 128"
proof -
  have "list_all valid_label ls \<Longrightarrow> 2 * length ls \<le> length (Join dot ls) + 1" for ls
  proof (induction ls)
    case (Cons l ls)
    then have "1 \<le> length l" by (cases l) (simp_all add: valid_label_def)
    with Cons show ?case by (auto simp: Join_Cons)
  qed simp
  then show "valid_labels ls \<Longrightarrow> length ls \<le> 128"
    unfolding valid_labels_def by fastforce
qed

lemma spelled_DecodeName:
  assumes "spelled w ls w'" and "valid_labels ls"
  shows "DecodeName (written w' @ post) (woffset w) = Ret (Join dot ls, woffset w')"
proof -
  from assms(1) obtain k where "k \<le> length ls" "name_at (written w' @ post) (woffset w) ls k (woffset w')"
    unfolding spelled_def using name_at_append by blast
  with assms(2) valid_labels_count [OF assms(2)] show ?thesis
    unfolding DecodeName_iff valid_labels_def by fastforce
qed

lemma table_ok_new [simp]: "table_ok (newWireWriter buf)"
  by (simp add: table_ok_def compressionOffset_def newWireWriter_def)

lemma table_ok_append:
  assumes "table_ok w" and "written w' = written w @ bs" and "compressed w' = compressed w"
  shows "table_ok w'"
  using assms entry_ok_append compressionOffset_cong [OF assms(3)]
  unfolding table_ok_def by metis

lemma encodeLabels_no_panic [simp]: "encodeLabels w ls \<noteq> Panic"
  by (induction ls arbitrary: w)
     (auto simp: Let_def outcome_simps writePointer_def write_as_bytes split: option.splits)

lemma EncodeName_no_panic [simp]: "EncodeName w name \<noteq> Panic"
  by (auto simp: EncodeName_def writePointer_def write_as_bytes split: option.splits)

end
