(* ===== verification/Net_IP.thy ===== *)
theory Net_IP
  imports Prelude
begin

text \<open>
  The parts of Go's package \<open>net\<close> the sources use on addresses: a \<open>net.IP\<close> is a byte slice
  of 4 or 16 bytes (anything else is no address), \<open>To4\<close> and \<open>To16\<close> convert between the two
  forms, a \<open>net.IPNet\<close> is an address with a prefix length, and \<open>Contains\<close> compares under
  the mask.
\<close>

type_synonym IP = bytes

definition v4InV6Prefix :: bytes where
  "v4InV6Prefix = replicate 10 0 @ [0xFF, 0xFF]"

definition To4 :: "IP \<Rightarrow> IP option" where
  "To4 ip =
     (if length ip = 4 then Some ip
      else if length ip = 16 \<and> take 12 ip = v4InV6Prefix then Some (drop 12 ip)
      else None)"

definition To16 :: "IP \<Rightarrow> IP option" where
  "To16 ip =
     (if length ip = 4 then Some (v4InV6Prefix @ ip)
      else if length ip = 16 then Some ip
      else None)"

text \<open>\<open>net.CIDRMask(ones, 8 * n)\<close> as the list of mask bytes.\<close>

definition CIDRMask :: "nat \<Rightarrow> nat \<Rightarrow> bytes" where
  "CIDRMask ones n =
     map (\<lambda>i. if 8 * (i + 1) \<le> ones then 0xFF
              else if ones \<le> 8 * i then 0
              else push_bit (8 - (ones - 8 * i)) 0xFF) [0..<n]"

definition maskBytes :: "bytes \<Rightarrow> bytes \<Rightarrow> bytes" where
  "maskBytes ip m = map2 (\<lambda>a b. a AND b) ip m"

text \<open>A network: its (already masked) address and its mask, both of 4 or both of 16 bytes.\<close>

record IPNet =
  netIP :: IP
  netMask :: bytes

definition mkNet :: "IP \<Rightarrow> nat \<Rightarrow> IPNet" where
  "mkNet ip ones =
     (let m = CIDRMask ones (length ip) in \<lparr>netIP = maskBytes ip m, netMask = m\<rparr>)"

text \<open>
  \<open>(*IPNet).Contains\<close>: the network and the address are brought to their 4-byte form when
  they have one, and an address of another length than the network's is not contained.
\<close>

definition networkNumberAndMask :: "IPNet \<Rightarrow> (IP \<times> bytes) option" where
  "networkNumberAndMask n =
     (let ip = (case To4 (netIP n) of Some v4 \<Rightarrow> v4 | None \<Rightarrow> netIP n); m = netMask n in
      if length ip = 4 \<and> length m = 16 then Some (ip, drop 12 m)
      else if length ip = length m \<and> (length m = 4 \<or> length m = 16) then Some (ip, m)
      else None)"

definition netContains :: "IPNet \<Rightarrow> IP \<Rightarrow> bool" where
  "netContains n ip =
     (case networkNumberAndMask n of
        None \<Rightarrow> False
      | Some (nn, m) \<Rightarrow>
          (let x = (case To4 ip of Some v4 \<Rightarrow> v4 | None \<Rightarrow> ip) in
           length x = length nn \<and> maskBytes nn m = maskBytes x m))"

section \<open>Lemmas\<close>

lemma To4_length: "To4 ip = Some v \<Longrightarrow> length v = 4"
  by (auto simp: To4_def split: if_splits)

lemma To16_length: "To16 ip = Some v \<Longrightarrow> length v = 16"
  by (auto simp: To16_def v4InV6Prefix_def split: if_splits)

lemma To4_To16: "length ip = 4 \<Longrightarrow> To16 ip = Some v \<Longrightarrow> To4 v = Some ip"
  by (auto simp: To16_def To4_def v4InV6Prefix_def)

lemma length_CIDRMask [simp]: "length (CIDRMask ones n) = n"
  by (simp add: CIDRMask_def)

lemma length_maskBytes [simp]: "length (maskBytes ip m) = min (length ip) (length m)"
  by (simp add: maskBytes_def)

end
