(* ===== verification/Dns_Edns.thy ===== *)
theory Dns_Edns
  imports Dns_Record Net_IP
begin

text \<open>
  EDNS(0) of package \<open>dns\<close>: the OPT pseudo-record with its options (\<open>edns.go\<close>), extended
  errors and cookies, and the client-subnet option (\<open>ecs.go\<close>).  The lemmas are the round
  trips between the builders and the parsers, and where a builder can panic.
\<close>

section \<open>OPT (edns.go)\<close>

record EDNSOption =
  optCode :: u16
  optData :: bytes

record EDNS0 =
  UDPSize :: u16
  ExtRCODE :: u8
  Version :: u8
  DOFlag :: bool
  Options :: "EDNSOption list"

definition getUint16At :: "bytes \<Rightarrow> nat \<Rightarrow> u16 dns" where
  "getUint16At b i = andThen (goIndex b i) (\<lambda>b0. andThen (goIndex b (i + 1)) (\<lambda>b1. Ret (getUint16 b0 b1)))"

text \<open>The option loop of \<open>ParseOPT\<close>; it is bounded by \<open>rr.RDLength\<close>, not by the slice.\<close>

function optLoop :: "bytes \<Rightarrow> nat \<Rightarrow> nat \<Rightarrow> EDNSOption list \<Rightarrow> EDNSOption list dns" where
  "optLoop rdata rdLength offset options =
     (if offset + 4 \<le> rdLength then
        andThen (getUint16At rdata offset) (\<lambda>code.
        andThen (getUint16At rdata (offset + 2)) (\<lambda>optLen.
        if rdLength < offset + 4 + unat optLen then Ret options
        else andThen (goSlice rdata (offset + 4) (offset + 4 + unat optLen)) (\<lambda>d.
             optLoop rdata rdLength (offset + 4 + unat optLen)
               (options @ [\<lparr>optCode = code, optData = d\<rparr>]))))
      else Ret options)"
  by pat_completeness auto
termination
  by (relation "measure (\<lambda>(rdata, rdLength, offset, options). rdLength - offset)") auto

declare optLoop.simps [simp del]

definition ParseOPT :: "ResourceRecord \<Rightarrow> EDNS0 dns" where
  "ParseOPT rr =
     (if rrType rr \<noteq> TypeOPT then Err (errText ''not an OPT record'')
      else andThen (optLoop (rrRData rr) (unat (rrRDLength rr)) 0 []) (\<lambda>options.
        Ret \<lparr>UDPSize = rrClass rr, ExtRCODE = ucast (drop_bit 24 (rrTTL rr)),
             Version = ucast (drop_bit 16 (rrTTL rr) AND 0xFF),
             DOFlag = (drop_bit 15 (rrTTL rr) AND 1 = 1), Options = options\<rparr>))"

definition BuildOPT :: "u16 \<Rightarrow> bool \<Rightarrow> ResourceRecord" where
  "BuildOPT udpSize doFlag =
     \<lparr>rrName = '''', rrType = TypeOPT, rrClass = udpSize,
      rrTTL = (if doFlag then 0 OR push_bit 15 1 else 0),
      rrRDLength = 0, rrRData = [], rrRDataOffset = 0\<rparr>"

definition optBytes :: "EDNSOption \<Rightarrow> bytes" where
  "optBytes opt = putUint16 (optCode opt) @ putUint16 (of_nat (length (optData opt))) @ optData opt"

definition BuildOPTWithOptions :: "u16 \<Rightarrow> bool \<Rightarrow> EDNSOption list \<Rightarrow> ResourceRecord" where
  "BuildOPTWithOptions udpSize doFlag options =
     (let rr = BuildOPT udpSize doFlag in
      if options = [] then rr
      else (let rdata = concat (map optBytes options) in
            rr\<lparr>rrRData := rdata, rrRDLength := of_nat (length rdata)\<rparr>))"

abbreviation EDNSOptionCodeECS :: u16 where "EDNSOptionCodeECS \<equiv> 8"
abbreviation EDNSOptionCodeCookie :: u16 where "EDNSOptionCodeCookie \<equiv> 10"
abbreviation EDNSOptionCodeEDE :: u16 where "EDNSOptionCodeEDE \<equiv> 15"

definition BuildEDEOption :: "u16 \<Rightarrow> string \<Rightarrow> EDNSOption" where
  "BuildEDEOption infoCode extraText =
     \<lparr>optCode = EDNSOptionCodeEDE, optData = putUint16 infoCode @ bytes_of extraText\<rparr>"

definition ParseEDEOption :: "bytes \<Rightarrow> (u16 \<times> string) dns" where
  "ParseEDEOption d =
     (if length d < 2 then Err (errText ''EDE option data too short'')
      else andThen (getUint16At d 0) (\<lambda>infoCode.
           Ret (infoCode, if 2 < length d then string_of (drop 2 d) else '''')))"

definition ParseCookieOption :: "bytes \<Rightarrow> bytes \<times> bytes" where
  "ParseCookieOption d = (if length d < 8 then ([], []) else (take 8 d, if 8 < length d then drop 8 d else []))"

section \<open>Client subnet (ecs.go)\<close>

text \<open>A nil \<open>net.IP\<close> is the empty byte list.\<close>

record ECSOption =
  Family :: u16
  SourcePrefixLen :: u8
  ScopePrefixLen :: u8
  ecsAddress :: IP

text \<open>\<open>ip := make(net.IP, n); copy(ip, addrBytes)\<close>\<close>

definition padCopy :: "nat \<Rightarrow> bytes \<Rightarrow> bytes" where
  "padCopy n b = take n b @ replicate (n - length b) 0"

definition ParseECS :: "bytes \<Rightarrow> ECSOption dns" where
  "ParseECS d =
     (if length d < 4 then Err (errText ''ECS option data too short'')
      else andThen (getUint16At d 0) (\<lambda>family.
           andThen (goIndex d 2) (\<lambda>src.
           andThen (goIndex d 3) (\<lambda>scope.
           if family = 1 then
             (if 32 < src then Err (errText ''ECS IPv4 source prefix length > 32'')
              else Ret \<lparr>Family = family, SourcePrefixLen = src, ScopePrefixLen = scope,
                        ecsAddress = padCopy 4 (drop 4 d)\<rparr>)
           else if family = 2 then
             (if 128 < src then Err (errText ''ECS IPv6 source prefix length > 128'')
              else Ret \<lparr>Family = family, SourcePrefixLen = src, ScopePrefixLen = scope,
                        ecsAddress = padCopy 16 (drop 4 d)\<rparr>)
           else Err (errText ''ECS unsupported address family'')))))"

definition BuildECS :: "ECSOption \<Rightarrow> EDNSOption dns" where
  "BuildECS ecs =
     (let addrLen = (unat (SourcePrefixLen ecs) + 7) div 8;
          hdr = putUint16 (Family ecs) @ [SourcePrefixLen ecs, ScopePrefixLen ecs];
          addr = (if Family ecs = 1 then To4 (ecsAddress ecs)
                  else if Family ecs = 2 then To16 (ecsAddress ecs) else None) in
      andThen (if ecsAddress ecs \<noteq> [] \<and> 0 < addrLen
               then (case addr of Some a \<Rightarrow> goSlice a 0 addrLen | None \<Rightarrow> Ret (replicate addrLen 0))
               else Ret (replicate addrLen 0)) (\<lambda>body.
      (let d = hdr @ body;
           trailingBits = addrLen * 8 - unat (SourcePrefixLen ecs);
           d' = (if 0 < addrLen \<and> 0 < trailingBits
                 then d[4 + addrLen - 1 := d ! (4 + addrLen - 1) AND push_bit trailingBits 0xFF]
                 else d)
       in Ret \<lparr>optCode = EDNSOptionCodeECS, optData = d'\<rparr>)))"

fun ecsFirst :: "EDNSOption list \<Rightarrow> ECSOption option dns" where
  "ecsFirst [] = Ret None"
| "ecsFirst (x # xs) =
     (if optCode x \<noteq> EDNSOptionCodeECS then ecsFirst xs
      else andThen (ParseECS (optData x)) (\<lambda>e. Ret (Some e)))"

definition ExtractECSFromOPT :: "EDNS0 option \<Rightarrow> ECSOption option dns" where
  "ExtractECSFromOPT opt = (case opt of None \<Rightarrow> Ret None | Some o' \<Rightarrow> ecsFirst (Options o'))"

text \<open>
  \<open>TruncateIP\<close>: an address of neither 4 nor 16 bytes becomes 16 zero bytes
  (\<open>copy\<close> from a nil slice copies nothing).
\<close>

definition TruncateIP :: "IP \<Rightarrow> u8 \<Rightarrow> IP" where
  "TruncateIP ip prefixLen =
     (let addr = (case To4 ip of Some v4 \<Rightarrow> v4
                  | None \<Rightarrow> (case To16 ip of Some v6 \<Rightarrow> v6 | None \<Rightarrow> replicate 16 0));
          byteIndex = unat prefixLen div 8;
          bitIndex = unat prefixLen mod 8
      in if byteIndex < length addr then
           (let addr' = (if 0 < bitIndex
                         then addr[byteIndex := addr ! byteIndex AND push_bit (8 - bitIndex) 0xFF]
                         else addr);
                from = (if 0 < bitIndex then byteIndex + 1 else byteIndex)
            in take from addr' @ replicate (length addr - from) 0)
         else addr)"

section \<open>Lemmas: OPT\<close>

lemma getUint16At_in: "i + 1 < length b \<Longrightarrow> getUint16At b i = Ret (getUint16 (b ! i) (b ! (i + 1)))"
  by (simp add: getUint16At_def)

lemma optLoop_returns: "rdLength \<le> length rdata \<Longrightarrow> returns (optLoop rdata rdLength offset options)"
proof (induction rdata rdLength offset options rule: optLoop.induct)
  case (1 rdata rdLength offset options)
  then show ?case
    by (subst optLoop.simps) (auto intro!: returns_intros simp: getUint16At_in goSlice_Ret_iff)
qed

lemma ParseOPT_no_panic: "unat (rrRDLength rr) \<le> length (rrRData rr) \<Longrightarrow> ParseOPT rr \<noteq> Panic"
  using returns_not_panic [OF optLoop_returns]
  by (auto simp: ParseOPT_def outcome_simps)

lemma length_optBytes [simp]: "length (optBytes x) = 4 + length (optData x)"
  by (simp add: optBytes_def)

lemma getUint16At_put: "getUint16At (pre @ putUint16 v @ post) (length pre) = Ret v"
  by (simp add: getUint16At_def nth_append putUint16_def word_io)

lemma optLoop_optBytes:
  assumes "length pre + length (concat (map optBytes opts)) < 2 ^ 16"
  shows "optLoop (pre @ concat (map optBytes opts)) (length (pre @ concat (map optBytes opts)))
           (length pre) acc = Ret (acc @ opts)"
  using assms
proof (induction opts arbitrary: pre acc)
  case Nil
  then show ?case by (subst optLoop.simps) simp
next
  case (Cons x xs)
  let ?rest = "concat (map optBytes xs)"
  let ?r = "pre @ optBytes x @ ?rest"
  have len: "unat (of_nat (length (optData x)) :: u16) = length (optData x)"
    using Cons.prems by (simp add: unsigned_of_nat take_bit_nat_eq_self)
  have c: "getUint16At ?r (length pre) = Ret (optCode x)"
    using getUint16At_put [of pre "optCode x"] by (simp add: optBytes_def)
  have l: "getUint16At ?r (length pre + 2) = Ret (of_nat (length (optData x)))"
    using getUint16At_put [of "pre @ putUint16 (optCode x)"] by (simp add: optBytes_def)
  have d: "goSlice ?r (length pre + 4) (length pre + 4 + length (optData x)) = Ret (optData x)"
    by (simp add: goSlice_def optBytes_def)
  have "optLoop ((pre @ optBytes x) @ ?rest) (length ((pre @ optBytes x) @ ?rest))
      (length (pre @ optBytes x)) (acc @ [\<lparr>optCode = optCode x, optData = optData x\<rparr>]) =
      Ret ((acc @ [\<lparr>optCode = optCode x, optData = optData x\<rparr>]) @ xs)"
    using Cons.prems by (intro Cons.IH) simp
  then show ?case
    using c l d len by (subst optLoop.simps) (simp add: add.assoc)
qed

section \<open>Lemmas: client subnet\<close>

text \<open>The address bytes with everything behind the first \<open>p\<close> bits cleared.\<close>

definition clearAfter :: "nat \<Rightarrow> bytes \<Rightarrow> bytes" where
  "clearAfter p a = map (\<lambda>j. if j < p div 8 then a ! j
     else if j = p div 8 then a ! j AND (if p mod 8 = 0 then 0 else push_bit (8 - p mod 8) 0xFF) else 0) [0..<length a]"

lemma length_clearAfter [simp]: "length (clearAfter p a) = length a"
  by (simp add: clearAfter_def)

lemma TruncateIP_clearAfter:
  assumes "(case To4 ip of Some v4 \<Rightarrow> v4 | None \<Rightarrow> (case To16 ip of Some v6 \<Rightarrow> v6 | None \<Rightarrow> replicate 16 0)) = a"
  shows "TruncateIP ip p = clearAfter (unat p) a"
proof (cases "unat p div 8 < length a")
  case True
  then show ?thesis
    unfolding TruncateIP_def assms clearAfter_def Let_def
    by (intro nth_equalityI) (auto simp: nth_append nth_list_update)
next
  case False
  then show ?thesis
    unfolding TruncateIP_def assms clearAfter_def Let_def by (intro nth_equalityI) auto
qed

text \<open>What \<open>BuildECS\<close> sends of an address of the family's length.\<close>

definition ecsBody :: "nat \<Rightarrow> bytes \<Rightarrow> bytes" where
  "ecsBody p a = take ((p + 7) div 8) (clearAfter p a)"

lemma padCopy_ecsBody: "length a = n \<Longrightarrow> padCopy n (ecsBody p a) = clearAfter p a"
proof (intro nth_equalityI)
  fix j assume n: "length a = n" and "j < length (padCopy n (ecsBody p a))"
  then have j: "j < n" by (auto simp: padCopy_def)
  have "clearAfter p a ! j = 0" if "(p + 7) div 8 \<le> j"
  proof -
    have "p div 8 \<le> j" "j = p div 8 \<longrightarrow> p mod 8 = 0" using that by presburger+
    then show ?thesis using j n by (auto simp: clearAfter_def)
  qed
  then show "padCopy n (ecsBody p a) ! j = clearAfter p a ! j"
    using j n by (auto simp: padCopy_def ecsBody_def nth_append)
qed (simp add: padCopy_def ecsBody_def)

lemma masked_ecsBody:
  assumes "p \<le> 8 * length a" and "0 < p"
  shows "(let L = (p + 7) div 8; d = take L a in
     if 0 < L * 8 - p then d[L - 1 := d ! (L - 1) AND push_bit (L * 8 - p) 0xFF] else d) = ecsBody p a"
proof (cases "p mod 8 = 0")
  case True
  then obtain q where p: "p = 8 * q" by (metis mod_0_imp_dvd dvdE)
  then show ?thesis using assms by (intro nth_equalityI) (auto simp: ecsBody_def clearAfter_def)
next
  case False
  define q where "q = p div 8"
  define r where "r = p mod 8"
  have p: "p = 8 * q + r" "0 < r" "r < 8" using False by (auto simp: q_def r_def)
  have L: "(p + 7) div 8 = q + 1" using p by simp
  have q: "p div 8 = q" "p mod 8 = r" using p by simp_all
  have t: "(q + 1) * 8 - p = 8 - r" using p by simp
  have "q < length a" using assms(1) p by linarith
  then show ?thesis
    unfolding L t ecsBody_def Let_def using p(2,3)
    by (intro nth_equalityI) (auto simp: clearAfter_def q nth_list_update less_Suc_eq)
qed

lemma BuildECS_body:
  assumes "(if Family ecs = 1 then To4 (ecsAddress ecs) else if Family ecs = 2 then To16 (ecsAddress ecs) else None) = Some a"
    and "unat (SourcePrefixLen ecs) \<le> 8 * length a"
  shows "BuildECS ecs = Ret \<lparr>optCode = EDNSOptionCodeECS,
     optData = putUint16 (Family ecs) @ [SourcePrefixLen ecs, ScopePrefixLen ecs] @ ecsBody (unat (SourcePrefixLen ecs)) a\<rparr>"
proof -
  let ?p = "unat (SourcePrefixLen ecs)"
  let ?hdr = "putUint16 (Family ecs) @ [SourcePrefixLen ecs, ScopePrefixLen ecs]"
  let ?L = "(?p + 7) div 8"
  have ne: "ecsAddress ecs \<noteq> []" using assms(1) by (auto simp: To4_def To16_def split: if_splits)
  show ?thesis
  proof (cases "?p = 0")
    case True
    then show ?thesis by (simp add: BuildECS_def Let_def ecsBody_def)
  next
    case False
    then have L: "0 < ?L" "?L \<le> length a" using assms(2) by linarith+
    have up: "(?hdr @ d)[4 + ?L - 1 := v] = ?hdr @ d[?L - 1 := v]" "(?hdr @ d) ! (4 + ?L - 1) = d ! (?L - 1)" for d v
      using L(1) by (cases ?L; simp add: list_update_append nth_append)+
    have "BuildECS ecs = Ret \<lparr>optCode = EDNSOptionCodeECS, optData = ?hdr @ (let d = take ?L a in
        if 0 < ?L * 8 - ?p then d[?L - 1 := d ! (?L - 1) AND push_bit (?L * 8 - ?p) 0xFF] else d)\<rparr>"
      using ne assms(1) L unfolding BuildECS_def Let_def up by (simp split: if_splits)
    then show ?thesis using masked_ecsBody [OF assms(2)] False by (simp add: Let_def)
  qed
qed

lemma ParseECS_body:
  assumes "f = 1 \<and> n = 4 \<or> f = 2 \<and> n = 16" and "unat p \<le> 8 * n" and "length a = n"
  shows "ParseECS (putUint16 f @ [p, s] @ ecsBody (unat p) a) =
     Ret \<lparr>Family = f, SourcePrefixLen = p, ScopePrefixLen = s, ecsAddress = clearAfter (unat p) a\<rparr>"
proof -
  have "getUint16At (putUint16 f @ [p, s] @ ecsBody (unat p) a) 0 = Ret f"
    using getUint16At_put [of "[]" f] by simp
  then show ?thesis
    using assms padCopy_ecsBody [of a n "unat p"]
    by (auto simp: ParseECS_def nth_append word_less_nat_alt)
qed

end
