(* ===== verification/Dns_Message.thy ===== *)
theory Dns_Message
  imports Dns_Edns
begin

text \<open>
  Whole messages of package \<open>dns\<close> (\<open>message.go\<close>, \<open>Unpack\<close>, \<open>Pack\<close> and \<open>packRData\<close> of
  \<open>wire.go\<close>).  \<open>Pack\<close> also writes the section counts back into the message it is given, so
  it returns that message beside the bytes.
\<close>

record Message =
  msgHeader :: Header
  Questions :: "Question list"
  Answers :: "ResourceRecord list"
  Authority :: "ResourceRecord list"
  Additional :: "ResourceRecord list"
  msgEDNS0 :: "EDNS0 option"
  Raw :: bytes

section \<open>Unpack (wire.go)\<close>

fun unpackQuestions :: "bytes \<Rightarrow> nat \<Rightarrow> nat \<Rightarrow> (Question list \<times> nat) dns" where
  "unpackQuestions buf offset 0 = Ret ([], offset)"
| "unpackQuestions buf offset (Suc n) =
     andThen (UnpackQuestion buf offset) (\<lambda>(q, offset).
     andThen (unpackQuestions buf offset n) (\<lambda>(qs, offset).
     Ret (q # qs, offset)))"

fun unpackRRs :: "bytes \<Rightarrow> nat \<Rightarrow> nat \<Rightarrow> (ResourceRecord list \<times> nat) dns" where
  "unpackRRs buf offset 0 = Ret ([], offset)"
| "unpackRRs buf offset (Suc n) =
     andThen (UnpackRR buf offset) (\<lambda>(rr, offset).
     andThen (unpackRRs buf offset n) (\<lambda>(rrs, offset).
     Ret (rr # rrs, offset)))"

text \<open>The first OPT record of the additional section is parsed; a parse error leaves EDNS0 nil.\<close>

fun findEDNS0 :: "ResourceRecord list \<Rightarrow> EDNS0 option dns" where
  "findEDNS0 [] = Ret None"
| "findEDNS0 (rr # rrs) =
     (if rrType rr = TypeOPT then ifOk (ParseOPT rr) (\<lambda>e. Ret (Some e)) (Ret None)
      else findEDNS0 rrs)"

definition Unpack :: "bytes \<Rightarrow> Message dns" where
  "Unpack buf =
     (if length buf < 12 then Err errTruncated
      else andThen (Header_Unpack (newWireReader buf)) (\<lambda>(h, r).
           andThen (unpackQuestions buf (roffset r) (unat (QDCount h))) (\<lambda>(qs, offset).
           andThen (unpackRRs buf offset (unat (ANCount h))) (\<lambda>(an, offset).
           andThen (unpackRRs buf offset (unat (NSCount h))) (\<lambda>(ns, offset).
           andThen (unpackRRs buf offset (unat (ARCount h))) (\<lambda>(ar, offset).
           andThen (findEDNS0 ar) (\<lambda>e.
           Ret \<lparr>msgHeader = h, Questions = qs, Answers = an, Authority = ns, Additional = ar,
                msgEDNS0 = e, Raw = buf\<rparr>)))))))"

section \<open>Pack (wire.go)\<close>

text \<open>The \<open>switch rr.Type\<close> of \<open>packRData\<close>.\<close>

definition packRDataBody :: "wireWriter \<Rightarrow> u16 \<Rightarrow> bytes \<Rightarrow> wireWriter dns" where
  "packRDataBody w type rd =
    (let raw = writeBytes w rd in
     if type = TypeNS \<or> type = TypeCNAME \<or> type = TypePTR \<or> type = TypeDNAME then
       ifOk (DecodeName rd 0) (\<lambda>(name, _). EncodeName w name) raw
     else if type = TypeMX then
       (if 2 \<le> length rd then
          andThen (writeBytes w (take 2 rd)) (\<lambda>w.
          ifOk (DecodeName rd 2) (\<lambda>(name, _). EncodeName w name) (writeBytes w (drop 2 rd)))
        else raw)
     else if type = TypeSOA then
       ifOk (DecodeName rd 0) (\<lambda>(mname, off1).
       ifOk (DecodeName rd off1) (\<lambda>(rname, off2).
         andThen (EncodeName w mname) (\<lambda>w.
         andThen (EncodeName w rname) (\<lambda>w.
         andThen (goSlice rd off2 (length rd)) (\<lambda>rest.
         writeBytes w rest)))) raw) raw
     else if type = TypeSRV then
       (if 6 \<le> length rd then
          andThen (writeBytes w (take 6 rd)) (\<lambda>w.
          ifOk (DecodeName rd 6) (\<lambda>(name, _). EncodeName w name) (writeBytes w (drop 6 rd)))
        else raw)
     else if type = TypeRRSIG then
       (if 18 \<le> length rd then
          andThen (writeBytes w (take 18 rd)) (\<lambda>w.
          ifOk (DecodeName rd 18) (\<lambda>(signer, nameEnd).
            andThen (EncodeName w signer) (\<lambda>w.
            if nameEnd < length rd
            then andThen (goSlice rd nameEnd (length rd)) (\<lambda>sig. writeBytes w sig)
            else Ret w)) (writeBytes w (drop 18 rd)))
        else raw)
     else if type = TypeNSEC then
       ifOk (DecodeName rd 0) (\<lambda>(name, nameEnd).
         andThen (EncodeName w name) (\<lambda>w.
         if nameEnd < length rd
         then andThen (goSlice rd nameEnd (length rd)) (\<lambda>bitmap. writeBytes w bitmap)
         else Ret w)) raw
     else raw)"

text \<open>
  RDLENGTH is written as a placeholder and patched afterwards with the number of bytes the
  RDATA took, truncated to 16 bits.
\<close>

definition packRData :: "wireWriter \<Rightarrow> ResourceRecord \<Rightarrow> wireWriter dns" where
  "packRData w rr =
     (let rdLenOffset = woffset w in
      andThen (writeUint16 w 0) (\<lambda>w.
      (let rdStart = woffset w in
       if rrRData rr = [] then
         Ret (w\<lparr>wbuf := copyAt (wbuf w) rdLenOffset (putUint16 0)\<rparr>)
       else andThen (packRDataBody w (rrType rr) (rrRData rr)) (\<lambda>w.
         Ret (w\<lparr>wbuf := copyAt (wbuf w) rdLenOffset (putUint16 (of_nat (woffset w - rdStart)))\<rparr>)))))"

fun packQuestions :: "wireWriter \<Rightarrow> Question list \<Rightarrow> wireWriter dns" where
  "packQuestions w [] = Ret w"
| "packQuestions w (q # qs) =
     andThen (EncodeName w (qName q)) (\<lambda>w.
     andThen (writeUint16 w (qType q)) (\<lambda>w.
     andThen (writeUint16 w (qClass q)) (\<lambda>w.
     packQuestions w qs)))"

fun packRRs :: "wireWriter \<Rightarrow> ResourceRecord list \<Rightarrow> wireWriter dns" where
  "packRRs w [] = Ret w"
| "packRRs w (rr # rrs) =
     andThen (EncodeName w (rrName rr)) (\<lambda>w.
     andThen (writeUint16 w (rrType rr)) (\<lambda>w.
     andThen (writeUint16 w (rrClass rr)) (\<lambda>w.
     andThen (writeUint32 w (rrTTL rr)) (\<lambda>w.
     andThen (packRData w rr) (\<lambda>w.
     packRRs w rrs)))))"

definition updateCounts :: "Message \<Rightarrow> Message" where
  "updateCounts m = m\<lparr>msgHeader := (msgHeader m)\<lparr>
     QDCount := of_nat (length (Questions m)), ANCount := of_nat (length (Answers m)),
     NSCount := of_nat (length (Authority m)), ARCount := of_nat (length (Additional m))\<rparr>\<rparr>"

definition Pack :: "Message \<Rightarrow> bytes \<Rightarrow> (Message \<times> bytes) dns" where
  "Pack m buf =
     (let w = newWireWriter buf; m = updateCounts m in
      andThen (Header_Pack (msgHeader m) w) (\<lambda>w.
      andThen (packQuestions w (Questions m)) (\<lambda>w.
      andThen (packRRs w (Answers m)) (\<lambda>w.
      andThen (packRRs w (Authority m)) (\<lambda>w.
      andThen (packRRs w (Additional m)) (\<lambda>w.
      Ret (m, written w)))))))"

section \<open>Unpack: no panic, every section accounted for\<close>

lemma unpackQuestions_no_panic [simp]: "unpackQuestions buf off n \<noteq> Panic"
  by (induction n arbitrary: off) (auto simp: outcome_simps split: prod.splits)

lemma unpackRRs_no_panic [simp]: "unpackRRs buf off n \<noteq> Panic"
  by (induction n arbitrary: off) (auto simp: outcome_simps split: prod.splits)

lemma unpackQuestions_Ret:
  "unpackQuestions buf off n = Ret (qs, off') \<Longrightarrow>
     length qs = n \<and> off + 5 * n \<le> off' \<and> (off \<le> length buf \<longrightarrow> off' \<le> length buf) \<and>
     list_all (\<lambda>q. length (qName q) \<le> 255) qs"
proof (induction n arbitrary: off qs)
  case (Suc n)
  then obtain q o1 qs' where q: "UnpackQuestion buf off = Ret (q, o1)"
    and rest: "unpackQuestions buf o1 n = Ret (qs', off')" and qs: "qs = q # qs'"
    by (auto simp: outcome_simps split: prod.splits)
  have "off + 5 \<le> o1"
    using q by (auto simp: UnpackQuestion_def outcome_simps read_Ret_iff dest!: DecodeName_bounds)
  with Suc.IH [OF rest] UnpackQuestion_bounds [OF q] qs show ?case by auto
qed simp

definition rr_wf :: "ResourceRecord \<Rightarrow> bool" where
  "rr_wf rr \<longleftrightarrow> length (rrName rr) \<le> 255 \<and> rrRDLength rr = of_nat (length (rrRData rr))"

lemma unpackRRs_Ret:
  "unpackRRs buf off n = Ret (rrs, off') \<Longrightarrow>
     length rrs = n \<and> off + n \<le> off' \<and> (off \<le> length buf \<longrightarrow> off' \<le> length buf) \<and> list_all rr_wf rrs"
proof (induction n arbitrary: off rrs)
  case (Suc n)
  then obtain rr o1 rrs' where rr: "UnpackRR buf off = Ret (rr, o1)"
    and rest: "unpackRRs buf o1 n = Ret (rrs', off')" and rrs: "rrs = rr # rrs'"
    by (auto simp: outcome_simps split: prod.splits)
  with Suc.IH [OF rest] UnpackRR_Ret [OF rr] rrs show ?case by (auto simp: rr_wf_def)
qed simp

lemma rr_wf_RDLength: "rr_wf rr \<Longrightarrow> unat (rrRDLength rr) \<le> length (rrRData rr)"
  by (simp add: rr_wf_def unsigned_of_nat)

lemma findEDNS0_no_panic: "list_all rr_wf rrs \<Longrightarrow> findEDNS0 rrs \<noteq> Panic"
  by (induction rrs) (auto simp: outcome_simps ParseOPT_no_panic rr_wf_RDLength)

lemma Unpack_no_panic_lemma: "Unpack buf \<noteq> Panic"
  by (auto simp: Unpack_def outcome_simps findEDNS0_no_panic dest!: unpackRRs_Ret split: prod.splits)

section \<open>Pack: no panic\<close>

lemma packRDataBody_no_panic [simp]: "packRDataBody w t rd \<noteq> Panic"
  by (auto simp: packRDataBody_def Let_def outcome_simps goSlice_def split: prod.splits
      dest!: DecodeName_bounds)

lemma packRData_no_panic [simp]: "packRData w rr \<noteq> Panic"
  by (simp add: packRData_def Let_def outcome_simps write_as_bytes)

lemma packQuestions_no_panic [simp]: "packQuestions w qs \<noteq> Panic"
  by (induction qs arbitrary: w) (auto simp: outcome_simps write_as_bytes)

lemma packRRs_no_panic [simp]: "packRRs w rrs \<noteq> Panic"
  by (induction rrs arbitrary: w) (auto simp: outcome_simps write_as_bytes)

lemma Pack_no_panic_lemma: "Pack m buf \<noteq> Panic"
  by (simp add: Pack_def Let_def outcome_simps)

end
