(* ===== verification/Dns_RoundTrip.thy ===== *)
theory Dns_RoundTrip
  imports Dns_Message
begin

text \<open>
  \<open>Unpack\<close> after \<open>Pack\<close>: a well-formed message survives the wire, through name compression in
  owner names and in RDATA and through the late patching of RDLENGTH.  The patch is handled
  by showing that it commutes with everything written after it.
\<close>

section \<open>Well-formed messages\<close>

definition valid_name :: "string \<Rightarrow> bool" where
  "valid_name s \<longleftrightarrow> valid_labels (splitLabels s) \<and> Join dot (splitLabels s) = s"

text \<open>RDATA that holds an uncompressed name after \<open>pre\<close> bytes, followed by \<open>post\<close> bytes.\<close>

definition name_rdata :: "nat \<Rightarrow> (bytes \<Rightarrow> bool) \<Rightarrow> bytes \<Rightarrow> bool" where
  "name_rdata pre ok rd \<longleftrightarrow>
     (case DecodeName rd pre of
        Ret (s, e) \<Rightarrow> valid_name s \<and> pre + length (wireName (splitLabels s)) = e \<and>
          take (e - pre) (drop pre rd) = wireName (splitLabels s) \<and> ok (drop e rd)
      | _ \<Rightarrow> False)"

definition wf_rdata :: "u16 \<Rightarrow> bytes \<Rightarrow> bool" where
  "wf_rdata type rd =
    (if type = TypeNS \<or> type = TypeCNAME \<or> type = TypePTR \<or> type = TypeDNAME then name_rdata 0 (\<lambda>x. x = []) rd
     else if type = TypeMX then name_rdata 2 (\<lambda>x. x = []) rd
     else if type = TypeSOA then name_rdata 0 (name_rdata 0 (\<lambda>x. length x = 20)) rd
     else if type = TypeSRV then name_rdata 6 (\<lambda>x. x = []) rd
     else if type = TypeRRSIG then name_rdata 18 (\<lambda>x. True) rd
     else if type = TypeNSEC then name_rdata 0 (\<lambda>x. True) rd
     else True)"

definition wf_rr :: "ResourceRecord \<Rightarrow> bool" where
  "wf_rr rr \<longleftrightarrow> valid_name (rrName rr) \<and> wf_rdata (rrType rr) (rrRData rr) \<and>
     rrRDLength rr = of_nat (length (rrRData rr))"

definition wf_message :: "Message \<Rightarrow> bool" where
  "wf_message m \<longleftrightarrow> list_all (\<lambda>q. valid_name (qName q)) (Questions m) \<and>
     list_all wf_rr (Answers m) \<and> list_all wf_rr (Authority m) \<and> list_all wf_rr (Additional m) \<and>
     length (Questions m) < 2 ^ 16 \<and> length (Answers m) < 2 ^ 16 \<and>
     length (Authority m) < 2 ^ 16 \<and> length (Additional m) < 2 ^ 16"

text \<open>The offset of a record's RDATA in the message is the only field the wire does not carry.\<close>

definition strip :: "ResourceRecord \<Rightarrow> ResourceRecord" where
  "strip rr = rr\<lparr>rrRDataOffset := 0\<rparr>"

lemma valid_name_labels:
  assumes "valid_name s"
  obtains ls where "valid_labels ls" "s = Join dot ls" "splitLabels s = ls"
  using assms unfolding valid_name_def by metis

lemma valid_name_Join: "valid_labels ls \<Longrightarrow> valid_name (Join dot ls)"
  by (simp add: valid_name_def valid_labels_def splitLabels_Join)

lemma name_rdataE:
  assumes "name_rdata pre ok rd"
  obtains ls where "valid_labels ls" "pre \<le> length rd" "rd = take pre rd @ wireName ls @ drop (pre + length (wireName ls)) rd"
    "ok (drop (pre + length (wireName ls)) rd)"
    "DecodeName rd pre = Ret (Join dot ls, pre + length (wireName ls))"
proof -
  from assms obtain s e where d: "DecodeName rd pre = Ret (s, e)" and v: "valid_name s"
    and e: "pre + length (wireName (splitLabels s)) = e"
    and t: "take (e - pre) (drop pre rd) = wireName (splitLabels s)" and ok: "ok (drop e rd)"
    unfolding name_rdata_def by (auto split: outcome.splits prod.splits)
  have "drop pre rd = wireName (splitLabels s) @ drop e rd"
    using t e by (metis add.commute append_take_drop_id diff_add_inverse drop_drop)
  then have "rd = take pre rd @ wireName (splitLabels s) @ drop e rd"
    by (metis append_take_drop_id)
  moreover have "pre \<le> length rd" using DecodeName_bounds [OF d] by simp
  ultimately show ?thesis
    using that [of "splitLabels s"] d v e ok by (auto simp: valid_name_def)
qed

section \<open>Patching commutes with writing\<close>

definition patch :: "nat \<Rightarrow> bytes \<Rightarrow> wireWriter \<Rightarrow> wireWriter" where
  "patch p v w = w\<lparr>wbuf := copyAt (wbuf w) p v\<rparr>"

definition mapRet :: "('a \<Rightarrow> 'b) \<Rightarrow> ('e, 'a) outcome \<Rightarrow> ('e, 'b) outcome" where
  "mapRet f m = andThen m (\<lambda>a. Ret (f a))"

lemma mapRet_simps [simp]: "mapRet f (Ret a) = Ret (f a)" "mapRet f (Err e) = Err e" "mapRet f Panic = Panic"
  by (simp_all add: mapRet_def)

definition patchable :: "nat \<Rightarrow> bytes \<Rightarrow> wireWriter \<Rightarrow> bool" where
  "patchable p v w \<longleftrightarrow> p + length v \<le> woffset w \<and> woffset w \<le> length (wbuf w)"

lemma patch_fields [simp]:
  "woffset (patch p v w) = woffset w" "compressed (patch p v w) = compressed w"
  "patchable p v w \<Longrightarrow> length (wbuf (patch p v w)) = length (wbuf w)"
  by (simp_all add: patch_def patchable_def)

lemma copyAt_Nil: "copyAt xs p [] = xs"
  by (simp add: copyAt_def)

lemma copyAt_copyAt:
  assumes "p + length v \<le> q" and "q + length b \<le> length xs"
  shows "copyAt (copyAt xs q b) p v = copyAt (copyAt xs p v) q b"
proof (cases "v = []")
  case False
  then have "0 < length v" by simp
  with assms have "p < q" by linarith
  with assms show ?thesis by (auto simp: copyAt_def drop_take min_def)
qed (simp only: copyAt_Nil)

text \<open>
  A writing step commutes with a patch of what lies before the cursor, and keeps the patched
  place before the cursor.
\<close>

definition commutes :: "nat \<Rightarrow> bytes \<Rightarrow> (wireWriter \<Rightarrow> wireWriter dns) \<Rightarrow> bool" where
  "commutes p v f \<longleftrightarrow> (\<forall>w. patchable p v w \<longrightarrow>
     f (patch p v w) = mapRet (patch p v) (f w) \<and> (\<forall>w'. f w = Ret w' \<longrightarrow> patchable p v w'))"

named_theorems commutes_intros

lemma commutes_Ret [commutes_intros]: "commutes p v Ret"
  by (simp add: commutes_def)

lemma commutes_writeBytes [commutes_intros]: "commutes p v (\<lambda>w. writeBytes w b)"
  by (auto simp: commutes_def writeBytes_def patch_def patchable_def copyAt_copyAt split: if_splits)

lemma commutes_seq [commutes_intros]:
  assumes "commutes p v f" and "commutes p v g"
  shows "commutes p v (\<lambda>w. andThen (f w) g)"
  unfolding commutes_def
proof (intro allI impI)
  fix w assume "patchable p v w"
  with assms(1) have f: "f (patch p v w) = mapRet (patch p v) (f w)"
    "\<forall>w'. f w = Ret w' \<longrightarrow> patchable p v w'" unfolding commutes_def by blast+
  show "andThen (f (patch p v w)) g = mapRet (patch p v) (andThen (f w) g) \<and>
      (\<forall>w'. andThen (f w) g = Ret w' \<longrightarrow> patchable p v w')"
    using f assms(2) unfolding commutes_def by (cases "f w") auto
qed

lemma commutes_Err [commutes_intros]: "commutes p v (\<lambda>w. Err e)"
  by (simp add: commutes_def)

lemma commutes_Panic: "commutes p v (\<lambda>w. Panic)"
  by (simp add: commutes_def)

lemma commutes_const [commutes_intros]:
  "(\<And>x. commutes p v (f x)) \<Longrightarrow> commutes p v (\<lambda>w. andThen m (\<lambda>x. f x w))"
  by (cases m) (simp_all add: commutes_Err commutes_Panic)

lemma commutes_ifOk [commutes_intros]:
  "(\<And>x. commutes p v (f x)) \<Longrightarrow> commutes p v g \<Longrightarrow> commutes p v (\<lambda>w. ifOk m (\<lambda>x. f x w) (g w))"
  by (cases m) (simp_all add: commutes_Panic)

lemma commutes_if [commutes_intros]:
  "commutes p v f \<Longrightarrow> commutes p v g \<Longrightarrow> commutes p v (\<lambda>w. if c then f w else g w)"
  by (cases c) auto

lemma commutes_prod [commutes_intros]:
  "(\<And>a b. commutes p v (f a b)) \<Longrightarrow> commutes p v (\<lambda>w. case x of (a, b) \<Rightarrow> f a b w)"
  by (cases x) auto

lemma commutes_writePointer [commutes_intros]: "commutes p v (\<lambda>w. writePointer w off)"
  unfolding writePointer_def write_as_bytes by (rule commutes_writeBytes)

lemma compressionOffset_patch [simp]: "compressionOffset (patch p v w) s = compressionOffset w s"
  by (simp add: compressionOffset_def)

lemma commutesI:
  assumes "\<And>w. patchable p v w \<Longrightarrow> f (patch p v w) = mapRet (patch p v) (f w)"
    and "\<And>w w'. patchable p v w \<Longrightarrow> f w = Ret w' \<Longrightarrow> patchable p v w'"
  shows "commutes p v f"
  using assms unfolding commutes_def by blast

lemma commutesD:
  assumes "commutes p v f" and "patchable p v w"
  shows "f (patch p v w) = mapRet (patch p v) (f w)" and "f w = Ret w' \<Longrightarrow> patchable p v w'"
  using assms unfolding commutes_def by blast+

text \<open>A step that looks at the compression table first.\<close>

lemma commutes_table:
  assumes "\<And>off. commutes p v (f off)" and "commutes p v g"
  shows "commutes p v (\<lambda>w. case compressionOffset w s of Some off \<Rightarrow> f off w | None \<Rightarrow> g w)"
proof (rule commutesI)
  fix w assume w: "patchable p v w"
  show "(case compressionOffset (patch p v w) s of Some off \<Rightarrow> f off (patch p v w) | None \<Rightarrow> g (patch p v w)) =
      mapRet (patch p v) (case compressionOffset w s of Some off \<Rightarrow> f off w | None \<Rightarrow> g w)"
    by (cases "compressionOffset w s") (simp_all add: commutesD(1) [OF assms(1) w] commutesD(1) [OF assms(2) w])
next
  fix w w' assume "patchable p v w"
    and "(case compressionOffset w s of Some off \<Rightarrow> f off w | None \<Rightarrow> g w) = Ret w'"
  then show "patchable p v w'"
    by (cases "compressionOffset w s") (auto intro: commutesD(2) [OF assms(1)] commutesD(2) [OF assms(2)])
qed

lemma patch_compressed: "patch p v (w\<lparr>compressed := c\<rparr>) = (patch p v w)\<lparr>compressed := c\<rparr>"
  by (cases w) (simp add: patch_def)

lemma commutes_record:
  assumes "commutes p v g"
  shows "commutes p v (\<lambda>w. g (w\<lparr>compressed := (compressed w)(s \<mapsto> woffset w)\<rparr>))"
proof (rule commutesI)
  fix w assume "patchable p v w"
  then have pw: "patchable p v (w\<lparr>compressed := (compressed w)(s \<mapsto> woffset w)\<rparr>)"
    by (simp add: patchable_def)
  show "g ((patch p v w)\<lparr>compressed := (compressed (patch p v w))(s \<mapsto> woffset (patch p v w))\<rparr>) =
      mapRet (patch p v) (g (w\<lparr>compressed := (compressed w)(s \<mapsto> woffset w)\<rparr>))"
    using commutesD(1) [OF assms pw] by (simp only: patch_compressed patch_fields)
  show "g (w\<lparr>compressed := (compressed w)(s \<mapsto> woffset w)\<rparr>) = Ret w' \<Longrightarrow> patchable p v w'" for w'
    by (rule commutesD(2) [OF assms pw])
qed

lemma commutes_encodeLabels: "commutes p v (\<lambda>w. encodeLabels w ls)"
proof (induction ls)
  case Nil
  then show ?case by (simp add: commutes_intros)
next
  case (Cons l ls)
  then show ?case
    unfolding encodeLabels.simps Let_def
    by (intro commutes_table commutes_writePointer commutes_intros
        commutes_record [of p v "\<lambda>w. if maxLabelLength < length l then Err errLabelTooLong
           else andThen (writeBytes w [of_nat (length l)]) (\<lambda>w.
                andThen (writeBytes w (bytes_of l)) (\<lambda>w. encodeLabels w ls))"])
qed

lemma commutes_EncodeName [commutes_intros]: "commutes p v (\<lambda>w. EncodeName w n)"
  unfolding EncodeName_def
  by (intro commutes_intros commutes_table commutes_encodeLabels)

lemma commutes_packRDataBody: "commutes p v (\<lambda>w. packRDataBody w t rd)"
  unfolding packRDataBody_def Let_def by (intro commutes_intros)

section \<open>RDATA survives\<close>

text \<open>The writer \<open>w'\<close> continues the sound writer \<open>w\<close>.\<close>

definition sound :: "wireWriter \<Rightarrow> bool" where
  "sound w \<longleftrightarrow> wf_writer w \<and> table_ok w"

definition extends :: "wireWriter \<Rightarrow> wireWriter \<Rightarrow> bool" where
  "extends w w' \<longleftrightarrow> sound w' \<and> (\<exists>bs. written w' = written w @ bs) \<and> woffset w \<le> woffset w' \<and>
     length (wbuf w') = length (wbuf w)"

lemma extends_refl: "sound w \<Longrightarrow> extends w w"
  by (simp add: extends_def)

lemma extends_trans: "extends w w' \<Longrightarrow> extends w' w'' \<Longrightarrow> extends w w''"
  by (auto simp: extends_def)

lemma extends_sound: "extends w w' \<Longrightarrow> sound w'"
  by (simp add: extends_def)

lemma writeBytes_sound:
  assumes "writeBytes w b = Ret w'" and "sound w"
  shows "extends w w'" and "written w' = written w @ b" and "woffset w' = woffset w + length b"
  using writeBytes_Ret [OF assms(1)] table_ok_append [of w w' b] assms(2)
  by (auto simp: sound_def extends_def)

lemma writeBytes_wbuf: "writeBytes w b = Ret w' \<Longrightarrow> wf_writer w \<Longrightarrow> length (wbuf w') = length (wbuf w)"
  by (rule writeBytes_Ret(4))

lemma encodeLabels_wbuf:
  "encodeLabels w ls = Ret w' \<Longrightarrow> wf_writer w \<Longrightarrow> length (wbuf w') = length (wbuf w) \<and> wf_writer w'"
proof (induction ls arbitrary: w)
  case Nil
  then show ?case using writeBytes_Ret(2,4) by auto
next
  case (Cons l ls)
  let ?s = "joinLabels (l # ls)"
  show ?case
  proof (cases "compressionOffset w ?s")
    case (Some off)
    with Cons.prems show ?thesis
      using writeBytes_Ret(2,4) by (auto simp: Let_def writePointer_def write_as_bytes)
  next
    case None
    let ?w = "w\<lparr>compressed := (compressed w)(?s \<mapsto> woffset w)\<rparr>"
    from None Cons.prems(1) obtain w2 w3 where
      w2: "writeBytes ?w [of_nat (length l)] = Ret w2" and w3: "writeBytes w2 (bytes_of l) = Ret w3"
      and rest: "encodeLabels w3 ls = Ret w'"
      by (auto simp: Let_def outcome_simps split: if_splits)
    have "wf_writer ?w" using Cons.prems(2) by (simp add: wf_writer_def)
    note r2 = writeBytes_Ret [OF w2 this]
    note r3 = writeBytes_Ret [OF w3 r2(2)]
    show ?thesis using Cons.IH [OF rest r3(2)] r2 r3 by simp
  qed
qed

lemma EncodeName_wbuf:
  assumes "EncodeName w n = Ret w'" and "wf_writer w"
  shows "length (wbuf w') = length (wbuf w)"
proof -
  have "length (wbuf w') = length (wbuf w)" if "writePointer w off = Ret w'" for off
    using that assms(2) by (auto simp: writePointer_def write_as_bytes dest: writeBytes_wbuf)
  then show ?thesis
    using assms encodeLabels_wbuf writeBytes_wbuf
    by (auto simp: EncodeName_def split: if_splits option.splits)
qed

lemma EncodeName_sound:
  assumes "EncodeName w (Join dot ls) = Ret w'" and "sound w" and "valid_labels ls"
  shows "extends w w'" and "DecodeName (written w' @ post) (woffset w) = Ret (Join dot ls, woffset w')"
    and "woffset w < woffset w'"
proof -
  have s: "spelled w ls w'"
    using EncodeName_spelled assms by (simp add: sound_def valid_labels_def)
  show d: "DecodeName (written w' @ post) (woffset w) = Ret (Join dot ls, woffset w')" for post
    by (rule spelled_DecodeName [OF s assms(3)])
  show "woffset w < woffset w'" using DecodeName_bounds [OF d] by simp
  with s spelled_table_ok [OF s] assms(2) EncodeName_wbuf [OF assms(1)] show "extends w w'"
    by (auto simp: extends_def sound_def spelled_def)
qed

lemma goSlice_written:
  assumes "writeBytes w b = Ret w'" and "sound w"
  shows "goSlice (written w' @ post) (woffset w) (woffset w') = (Ret b :: bytes dns)"
  using writeBytes_sound [OF assms] assms(2) by (simp add: sound_def)

text \<open>A fixed prefix followed by a name, as in MX, SRV and RRSIG.\<close>

lemma prefix_name:
  assumes "writeBytes w (take pre rd) = Ret w1" and "EncodeName w1 (Join dot ls) = Ret w'"
    and "sound w" and "valid_labels ls" and "pre \<le> length rd"
  shows "extends w w'" and "goSlice (written w' @ post) (woffset w) (woffset w + pre) = (Ret (take pre rd) :: bytes dns)"
    and "DecodeName (written w' @ post) (woffset w + pre) = Ret (Join dot ls, woffset w')"
    and "woffset w + pre < woffset w'"
proof -
  note w1 = writeBytes_sound [OF assms(1,3)]
  note w' = EncodeName_sound [OF assms(2) extends_sound [OF w1(1)] assms(4)]
  have off: "woffset w1 = woffset w + pre" using w1(3) assms(5) by simp
  show "extends w w'" using extends_trans [OF w1(1) w'(1)] .
  obtain bs where "written w' = written w1 @ bs" using w'(1) by (auto simp: extends_def)
  then show "goSlice (written w' @ post) (woffset w) (woffset w + pre) = (Ret (take pre rd) :: bytes dns)"
    using goSlice_written [OF assms(1,3), of "bs @ post"] off by simp
  show "DecodeName (written w' @ post) (woffset w + pre) = Ret (Join dot ls, woffset w')"
    using w'(2) off by simp
  show "woffset w + pre < woffset w'" using w'(3) off by simp
qed

text \<open>What the body of \<open>packRData\<close> owes to \<open>UnpackRR\<close>.\<close>

definition reads_back :: "wireWriter \<Rightarrow> u16 \<Rightarrow> bytes \<Rightarrow> wireWriter \<Rightarrow> bool" where
  "reads_back w t rd w' \<longleftrightarrow> extends w w' \<and>
     (\<forall>post. unpackRData (written w' @ post) t (woffset w) (woffset w' - woffset w) = Ret rd)"

lemma reads_back_raw:
  assumes "writeBytes w rd = Ret w'" and "sound w" and "t \<notin> {TypeNS, TypeCNAME, TypePTR, TypeDNAME, TypeMX, TypeSOA, TypeSRV, TypeRRSIG, TypeNSEC}"
  shows "reads_back w t rd w'"
  using writeBytes_sound [OF assms(1,2)] goSlice_written [OF assms(1,2)] assms(3)
  by (auto simp: reads_back_def unpackRData_def copyRData_def)

lemma reads_back_name:
  assumes "EncodeName w (Join dot ls) = Ret w'" and "sound w" and "valid_labels ls"
    and "t \<in> {TypeNS, TypeCNAME, TypePTR, TypeDNAME}"
  shows "reads_back w t (wireName ls) w'"
  using EncodeName_sound [OF assms(1-3)] assms(3,4)
  by (auto simp: reads_back_def unpackRData_def encodePlainName_Join valid_labels_def)

lemma reads_back_prefix_name:
  assumes "writeBytes w (take pre rd) = Ret w1" and "EncodeName w1 (Join dot ls) = Ret w'"
    and "sound w" and "valid_labels ls" and "pre \<le> length rd" and "(t, pre) \<in> {(TypeMX, 2), (TypeSRV, 6)}"
  shows "reads_back w t (take pre rd @ wireName ls) w'"
proof -
  note p = prefix_name [OF assms(1-5)]
  have "list_all valid_label ls" using assms(4) by (simp add: valid_labels_def)
  with p assms(6) show ?thesis
    by (auto simp: reads_back_def unpackRData_def encodePlainName_Join Let_def simp del: add_2_eq_Suc')
qed

text \<open>A name, possibly after a prefix, followed by bytes to the end of the RDATA (RRSIG and NSEC).\<close>

lemma reads_back_rrsig:
  assumes "writeBytes w (take 18 rd) = Ret w1" and "EncodeName w1 (Join dot ls) = Ret w2"
    and "writeBytes w2 rest = Ret w'" and "sound w" and "valid_labels ls" and "18 \<le> length rd"
  shows "reads_back w TypeRRSIG (take 18 rd @ wireName ls @ rest) w'"
proof -
  note p = prefix_name [OF assms(1,2,4-6)]
  note r = writeBytes_sound [OF assms(3) extends_sound [OF p(1)]]
  have g: "goSlice (written w' @ post) (woffset w2) (woffset w') = (Ret rest :: bytes dns)" for post
    using goSlice_written [OF assms(3) extends_sound [OF p(1)]] by simp
  have v: "list_all valid_label ls" using assms(5) by (simp add: valid_labels_def)
  have "extends w w'" using extends_trans [OF p(1) r(1)] .
  then show ?thesis
    using p(2-4) r(2,3) g v
    by (auto simp: reads_back_def unpackRData_def encodePlainName_Join Let_def)
qed

lemma reads_back_nsec:
  assumes "EncodeName w (Join dot ls) = Ret w2" and "writeBytes w2 rest = Ret w'" and "sound w"
    and "valid_labels ls"
  shows "reads_back w TypeNSEC (wireName ls @ rest) w'"
proof -
  note p = EncodeName_sound [OF assms(1,3,4)]
  note r = writeBytes_sound [OF assms(2) extends_sound [OF p(1)]]
  have g: "goSlice (written w' @ post) (woffset w2) (woffset w') = (Ret rest :: bytes dns)" for post
    using goSlice_written [OF assms(2) extends_sound [OF p(1)]] by simp
  have v: "list_all valid_label ls" using assms(4) by (simp add: valid_labels_def)
  have "extends w w'" using extends_trans [OF p(1) r(1)] .
  then show ?thesis
    using p(2,3) r(2,3) g v
    by (auto simp: reads_back_def unpackRData_def encodePlainName_Join Let_def)
qed

lemma reads_back_soa:
  assumes "EncodeName w (Join dot ms) = Ret w1" and "EncodeName w1 (Join dot rs) = Ret w2"
    and "writeBytes w2 rest = Ret w'" and "sound w" and "valid_labels ms" and "valid_labels rs"
    and "length rest = 20"
  shows "reads_back w TypeSOA (wireName ms @ wireName rs @ rest) w'"
proof -
  note p = EncodeName_sound [OF assms(1,4,5)]
  note q = EncodeName_sound [OF assms(2) extends_sound [OF p(1)] assms(6)]
  note r = writeBytes_sound [OF assms(3) extends_sound [OF q(1)]]
  obtain b2 where b2: "written w2 = written w1 @ b2" using q(1) by (auto simp: extends_def)
  have g: "goSlice (written w' @ post) (woffset w2) (woffset w2 + 20) = (Ret rest :: bytes dns)" for post
    using goSlice_written [OF assms(3) extends_sound [OF q(1)]] r(3) assms(7) by simp
  have v: "list_all valid_label ms" "list_all valid_label rs"
    using assms(5,6) by (simp_all add: valid_labels_def)
  have "extends w w'" using extends_trans [OF extends_trans [OF p(1) q(1)] r(1)] .
  then show ?thesis
    using p(2) [of "b2 @ rest @ _"] p(3) q(2) [of "rest @ _"] q(3) r(2,3) g v b2 assms(7)
    by (simp add: reads_back_def unpackRData_def encodePlainName_Join Let_def)
qed

lemma writeBytes_Nil: "wf_writer w \<Longrightarrow> writeBytes w [] = Ret w"
  by (simp add: writeBytes_def wf_writer_def copyAt_Nil)

lemma packs_name:
  assumes "packRDataBody w t rd = Ret w'" and "sound w" and "wf_rdata t rd"
    and t: "t \<in> {TypeNS, TypeCNAME, TypePTR, TypeDNAME}"
  shows "reads_back w t rd w'"
proof -
  have "name_rdata 0 (\<lambda>x. x = []) rd" using assms by (auto simp: wf_rdata_def)
  then obtain ls where ls: "valid_labels ls" "rd = wireName ls"
    "DecodeName rd 0 = Ret (Join dot ls, length (wireName ls))" by (elim name_rdataE) auto
  with assms(1) t have "EncodeName w (Join dot ls) = Ret w'" by (auto simp: packRDataBody_def)
  from reads_back_name [OF this assms(2) ls(1) t] ls(2) show ?thesis by simp
qed

lemma packs_prefix_name:
  assumes "packRDataBody w t rd = Ret w'" and "sound w" and "wf_rdata t rd"
    and t: "(t, pre) \<in> {(TypeMX, 2 :: nat), (TypeSRV, 6)}"
  shows "reads_back w t rd w'"
proof -
  have "name_rdata pre (\<lambda>x. x = []) rd" using assms by (auto simp: wf_rdata_def)
  then obtain ls where ls: "valid_labels ls" "pre \<le> length rd" "rd = take pre rd @ wireName ls"
    "DecodeName rd pre = Ret (Join dot ls, pre + length (wireName ls))" by (elim name_rdataE) auto
  with assms(1) t obtain w1 where
    "writeBytes w (take pre rd) = Ret w1" "EncodeName w1 (Join dot ls) = Ret w'"
    by (auto simp: packRDataBody_def outcome_simps)
  from reads_back_prefix_name [OF this assms(2) ls(1,2) t] ls(3) show ?thesis by simp
qed

lemma packs_soa:
  assumes "packRDataBody w TypeSOA rd = Ret w'" and "sound w" and "wf_rdata TypeSOA rd"
  shows "reads_back w TypeSOA rd w'"
proof -
  have "name_rdata 0 (name_rdata 0 (\<lambda>x. length x = 20)) rd" using assms by (simp add: wf_rdata_def)
  then obtain ms rest where ms: "valid_labels ms" "rd = wireName ms @ rest"
    and rest: "name_rdata 0 (\<lambda>x. length x = 20) rest" by (rule name_rdataE) auto
  from rest obtain rs ser where rs: "valid_labels rs" "rest = wireName rs @ ser" "length ser = 20"
    by (rule name_rdataE) auto
  have d: "DecodeName rd 0 = Ret (Join dot ms, length (wireName ms))"
    "DecodeName rd (length (wireName ms)) = Ret (Join dot rs, length (wireName ms) + length (wireName rs))"
    using DecodeName_wireName [OF ms(1), of "[]" rest] DecodeName_wireName [OF rs(1), of "wireName ms" ser]
      ms(2) rs(2) by simp_all
  with assms(1) ms(2) rs(2) obtain w1 w2 where "EncodeName w (Join dot ms) = Ret w1"
    "EncodeName w1 (Join dot rs) = Ret w2" "writeBytes w2 ser = Ret w'"
    by (auto simp: packRDataBody_def outcome_simps goSlice_Ret_iff)
  from reads_back_soa [OF this assms(2) ms(1) rs(1,3)] ms(2) rs(2) show ?thesis by simp
qed

lemma packs_rrsig:
  assumes "packRDataBody w TypeRRSIG rd = Ret w'" and s: "sound w" and "wf_rdata TypeRRSIG rd"
  shows "reads_back w TypeRRSIG rd w'"
proof -
  have "name_rdata 18 (\<lambda>x. True) rd" using assms by (simp add: wf_rdata_def)
  then obtain ls where ls: "valid_labels ls" "18 \<le> length rd"
    "rd = take 18 rd @ wireName ls @ drop (18 + length (wireName ls)) rd"
    "DecodeName rd 18 = Ret (Join dot ls, 18 + length (wireName ls))" by (elim name_rdataE) auto
  let ?sig = "drop (18 + length (wireName ls)) rd"
  from assms(1) ls obtain w1 w2 where w12: "writeBytes w (take 18 rd) = Ret w1"
    "EncodeName w1 (Join dot ls) = Ret w2" and "writeBytes w2 ?sig = Ret w' \<or> ?sig = [] \<and> w' = w2"
    by (auto simp: packRDataBody_def outcome_simps goSlice_Ret_iff split: if_splits)
  then have "writeBytes w2 ?sig = Ret w'"
    using prefix_name(1) [OF w12 s ls(1,2)] by (auto simp: writeBytes_Nil extends_def sound_def)
  from reads_back_rrsig [OF w12 this s ls(1,2)] ls(3) show ?thesis by simp
qed

lemma packs_nsec:
  assumes "packRDataBody w TypeNSEC rd = Ret w'" and s: "sound w" and "wf_rdata TypeNSEC rd"
  shows "reads_back w TypeNSEC rd w'"
proof -
  have "name_rdata 0 (\<lambda>x. True) rd" using assms by (simp add: wf_rdata_def)
  then obtain ls where ls: "valid_labels ls" "rd = wireName ls @ drop (length (wireName ls)) rd"
    "DecodeName rd 0 = Ret (Join dot ls, length (wireName ls))" by (elim name_rdataE) auto
  let ?map = "drop (length (wireName ls)) rd"
  from assms(1) ls obtain w2 where w2: "EncodeName w (Join dot ls) = Ret w2"
    and "writeBytes w2 ?map = Ret w' \<or> ?map = [] \<and> w' = w2"
    by (auto simp: packRDataBody_def outcome_simps goSlice_Ret_iff split: if_splits)
  then have "writeBytes w2 ?map = Ret w'"
    using EncodeName_sound(1) [OF w2 s ls(1)] by (auto simp: writeBytes_Nil extends_def sound_def)
  from reads_back_nsec [OF w2 this s ls(1)] ls(2) show ?thesis by simp
qed

lemma packRDataBody_reads_back:
  assumes "packRDataBody w t rd = Ret w'" and "sound w" and "wf_rdata t rd"
  shows "reads_back w t rd w'"
proof -
  consider "t \<in> {TypeNS, TypeCNAME, TypePTR, TypeDNAME}" | pre where "(t, pre) \<in> {(TypeMX, 2::nat), (TypeSRV, 6)}"
    | "t = TypeSOA" | "t = TypeRRSIG" | "t = TypeNSEC"
    | "t \<notin> {TypeNS, TypeCNAME, TypePTR, TypeDNAME, TypeMX, TypeSOA, TypeSRV, TypeRRSIG, TypeNSEC}" by blast
  then show ?thesis
  proof cases
    case 1
    with assms show ?thesis by (intro packs_name)
  next
    case 2
    with assms show ?thesis by (intro packs_prefix_name)
  next
    case 6
    with assms(1) have "writeBytes w rd = Ret w'" by (auto simp: packRDataBody_def)
    from reads_back_raw [OF this assms(2)] 6 show ?thesis by simp
  qed (use assms in \<open>simp_all only: packs_soa packs_rrsig packs_nsec\<close>)
qed

section \<open>Records survive\<close>

lemma copyAt_again: "length a = length b \<Longrightarrow> at + length a \<le> length xs \<Longrightarrow> copyAt (copyAt xs at a) at b = copyAt xs at b"
  by (simp add: copyAt_def)

text \<open>Patching RDLENGTH at the end has the effect of writing the right value at the start.\<close>

lemma packRData_as_written:
  assumes "packRData w rr = Ret w'" and "sound w"
  obtains n w1 where "writeUint16 w n = Ret w1" "n = of_nat (woffset w' - woffset w1)"
    "if rrRData rr = [] then w' = w1 else packRDataBody w1 (rrType rr) (rrRData rr) = Ret w'"
proof -
  let ?p = "woffset w"
  from assms(1) obtain w0 where w0: "writeUint16 w 0 = Ret w0"
    by (auto simp: packRData_def Let_def outcome_simps)
  have fit: "?p + 2 \<le> length (wbuf w)" and w0': "w0 = w\<lparr>wbuf := copyAt (wbuf w) ?p (putUint16 0), woffset := ?p + 2\<rparr>"
    using w0 by (auto simp: writeUint16_def split: if_splits)
  have again: "writeUint16 w n = Ret (patch ?p (putUint16 n) w0)" for n
    using fit by (simp add: writeUint16_def patch_def w0' copyAt_again)
  show thesis
  proof (cases "rrRData rr = []")
    case True
    with assms(1) w0 have "w' = patch ?p (putUint16 0) w0"
      by (simp add: packRData_def Let_def patch_def)
    with True that [OF again, of 0] show thesis by simp
  next
    case False
    with assms(1) w0 obtain w2 where body: "packRDataBody w0 (rrType rr) (rrRData rr) = Ret w2"
      and w': "w' = patch ?p (putUint16 (of_nat (woffset w2 - woffset w0))) w2"
      by (auto simp: packRData_def Let_def outcome_simps patch_def)
    let ?n = "of_nat (woffset w2 - woffset w0) :: u16"
    have "patchable ?p (putUint16 ?n) w0" using fit w0' by (simp add: patchable_def)
    from commutesD(1) [OF commutes_packRDataBody this] body w'
    have "packRDataBody (patch ?p (putUint16 ?n) w0) (rrType rr) (rrRData rr) = Ret w'" by simp
    with False that [OF again] w' show thesis by simp
  qed
qed

lemma wf_rdata_Nil: "wf_rdata t [] \<Longrightarrow> t \<notin> {TypeNS, TypeCNAME, TypePTR, TypeDNAME, TypeMX, TypeSOA, TypeSRV, TypeRRSIG, TypeNSEC}"
  by (auto simp: wf_rdata_def name_rdata_def DecodeName_def decodeLoop.simps)

lemma packRData_reads_back:
  assumes "packRData w rr = Ret w'" and "sound w" and "wf_rdata (rrType rr) (rrRData rr)"
    and "length (wbuf w) < 2 ^ 16"
  obtains n w1 where "writeUint16 w n = Ret w1" "unat n = woffset w' - woffset w1"
    "reads_back w1 (rrType rr) (rrRData rr) w'"
proof -
  from assms(1,2) obtain n w1 where n: "writeUint16 w n = Ret w1" "n = of_nat (woffset w' - woffset w1)"
    and body: "if rrRData rr = [] then w' = w1 else packRDataBody w1 (rrType rr) (rrRData rr) = Ret w'"
    by (rule packRData_as_written)
  have e1: "extends w w1" using n(1) writeBytes_sound(1) [OF _ assms(2)] by (simp add: write_as_bytes)
  then have s1: "sound w1" by (rule extends_sound)
  have r: "reads_back w1 (rrType rr) (rrRData rr) w'"
  proof (cases "rrRData rr = []")
    case True
    with body s1 have "writeBytes w1 [] = Ret w'" by (simp add: writeBytes_Nil sound_def)
    with True s1 assms(3) show ?thesis using reads_back_raw wf_rdata_Nil by metis
  next
    case False
    with body s1 assms(3) show ?thesis by (simp add: packRDataBody_reads_back)
  qed
  have "extends w w'" using r extends_trans [OF e1] by (simp add: reads_back_def)
  then have "woffset w' < 2 ^ 16" using assms(4) by (simp add: extends_def sound_def wf_writer_def)
  then have "unat n = woffset w' - woffset w1"
    using n(2) by (simp add: unsigned_of_nat take_bit_nat_eq_self)
  with that n(1) r show thesis by blast
qed

text \<open>Reading one of the integers just written, with more bytes behind it.\<close>

lemma readUint16_written:
  assumes "writeBytes w (putUint16 v) = Ret w'" and "sound w" and "written w'' = written w' @ bs"
  shows "readUint16 \<lparr>rbuf = written w'' @ post, roffset = woffset w\<rparr> =
    Ret (v, \<lparr>rbuf = written w'' @ post, roffset = woffset w'\<rparr>)"
  using readUint16_at [of "\<lparr>rbuf = written w'' @ post, roffset = woffset w\<rparr>" "written w" v "bs @ post"]
    writeBytes_sound [OF assms(1,2)] assms(2,3) by (simp add: sound_def)

lemma readUint32_written:
  assumes "writeBytes w (putUint32 v) = Ret w'" and "sound w" and "written w'' = written w' @ bs"
  shows "readUint32 \<lparr>rbuf = written w'' @ post, roffset = woffset w\<rparr> =
    Ret (v, \<lparr>rbuf = written w'' @ post, roffset = woffset w'\<rparr>)"
  using readUint32_at [of "\<lparr>rbuf = written w'' @ post, roffset = woffset w\<rparr>" "written w" v "bs @ post"]
    writeBytes_sound [OF assms(1,2)] assms(2,3) by (simp add: sound_def)

lemma extends_written:
  assumes "extends w w'"
  obtains bs where "written w' = written w @ bs"
  using assms by (auto simp: extends_def)

lemma question_reads_back:
  assumes "EncodeName w (qName q) = Ret w1" and "writeUint16 w1 (qType q) = Ret w2"
    and "writeUint16 w2 (qClass q) = Ret w'" and "sound w" and "valid_name (qName q)"
  shows "extends w w'" and "UnpackQuestion (written w' @ post) (woffset w) = Ret (q, woffset w')"
proof -
  obtain ls where ls: "valid_labels ls" "qName q = Join dot ls"
    using assms(5) by (rule valid_name_labels)
  note e1 = EncodeName_sound [OF assms(1) [unfolded ls(2)] assms(4) ls(1)]
  note s1 = extends_sound [OF e1(1)]
  note e2 = writeBytes_sound [OF assms(2) [unfolded write_as_bytes] s1]
  note s2 = extends_sound [OF e2(1)]
  note e3 = writeBytes_sound [OF assms(3) [unfolded write_as_bytes] s2]
  show "extends w w'" using e1(1) e2(1) e3(1) extends_trans by blast
  have "DecodeName (written w' @ post) (woffset w) = Ret (qName q, woffset w1)"
    using e1(2) [of "putUint16 (qType q) @ putUint16 (qClass q) @ post"] e2(2) e3(2) ls(2) by simp
  then show "UnpackQuestion (written w' @ post) (woffset w) = Ret (q, woffset w')"
    using readUint16_written [OF assms(2) [unfolded write_as_bytes] s1 e3(2)]
      readUint16_written [OF assms(3) [unfolded write_as_bytes] s2, of w' "[]"]
    by (simp add: UnpackQuestion_def)
qed

lemma UnpackRR_parts:
  assumes "DecodeName msg off = Ret (name, o1)"
    and "readUint16 \<lparr>rbuf = msg, roffset = o1\<rparr> = Ret (t, \<lparr>rbuf = msg, roffset = o2\<rparr>)"
    and "readUint16 \<lparr>rbuf = msg, roffset = o2\<rparr> = Ret (c, \<lparr>rbuf = msg, roffset = o3\<rparr>)"
    and "readUint32 \<lparr>rbuf = msg, roffset = o3\<rparr> = Ret (ttl, \<lparr>rbuf = msg, roffset = o4\<rparr>)"
    and "readUint16 \<lparr>rbuf = msg, roffset = o4\<rparr> = Ret (n, \<lparr>rbuf = msg, roffset = o5\<rparr>)"
    and "o5 + unat n \<le> length msg" and "unpackRData msg t o5 (unat n) = Ret rd"
  shows "UnpackRR msg off = Ret (\<lparr>rrName = name, rrType = t, rrClass = c, rrTTL = ttl,
     rrRDLength = of_nat (length rd), rrRData = rd, rrRDataOffset = o5\<rparr>, o5 + unat n)"
proof -
  have "\<not> remaining \<lparr>rbuf = msg, roffset = o5\<rparr> < int (unat n)"
    using assms(6) by (simp add: remaining_less_uint)
  then show ?thesis
    using assms unfolding UnpackRR_def by (simp only: andThen.simps prod.case if_False Let_def wireReader.simps)
qed

lemma rr_reads_back:
  assumes "EncodeName w (rrName rr) = Ret w1" and "writeUint16 w1 (rrType rr) = Ret w2"
    and "writeUint16 w2 (rrClass rr) = Ret w3" and "writeUint32 w3 (rrTTL rr) = Ret w4"
    and "packRData w4 rr = Ret w'" and "sound w" and "wf_rr rr" and "length (wbuf w) < 2 ^ 16"
  shows "extends w w'"
    and "\<exists>rr'. UnpackRR (written w' @ post) (woffset w) = Ret (rr', woffset w') \<and> strip rr' = strip rr"
proof -
  obtain ls where ls: "valid_labels ls" "rrName rr = Join dot ls"
    using assms(7) valid_name_labels by (metis wf_rr_def)
  note e1 = EncodeName_sound [OF assms(1) [unfolded ls(2)] assms(6) ls(1)]
  note s1 = extends_sound [OF e1(1)]
  note e2 = writeBytes_sound [OF assms(2) [unfolded write_as_bytes] s1]
  note s2 = extends_sound [OF e2(1)]
  note e3 = writeBytes_sound [OF assms(3) [unfolded write_as_bytes] s2]
  note s3 = extends_sound [OF e3(1)]
  note e4 = writeBytes_sound [OF assms(4) [unfolded write_as_bytes] s3]
  note s4 = extends_sound [OF e4(1)]
  have e14: "extends w1 w4" using e2(1) e3(1) e4(1) extends_trans by blast
  have "length (wbuf w4) < 2 ^ 16" using assms(8) e1(1) e14 by (simp add: extends_def)
  with packRData_reads_back [OF assms(5) s4] assms(7) obtain n w5 where
    w5: "writeUint16 w4 n = Ret w5" "unat n = woffset w' - woffset w5"
    and rb: "reads_back w5 (rrType rr) (rrRData rr) w'" by (metis wf_rr_def)
  note e5 = writeBytes_sound [OF w5(1) [unfolded write_as_bytes] s4]
  have e5': "extends w5 w'" using rb by (simp add: reads_back_def)
  obtain bs where bs: "written w' = written w5 @ bs" using e5' by (rule extends_written)
  show "extends w w'" using e1(1) e14 e5(1) e5' extends_trans by blast
  have o5: "woffset w5 + unat n = woffset w'" using w5(2) e5' by (simp add: extends_def)
  have wr: "written w' = written w2 @ putUint16 (rrClass rr) @ putUint32 (rrTTL rr) @ putUint16 n @ bs"
    "written w' = written w3 @ putUint32 (rrTTL rr) @ putUint16 n @ bs"
    "written w' = written w4 @ putUint16 n @ bs"
    using bs e3(2) e4(2) e5(2) by simp_all
  have "DecodeName (written w' @ post) (woffset w) = Ret (rrName rr, woffset w1)"
    using e1(2) [of "putUint16 (rrType rr) @ putUint16 (rrClass rr) @ putUint32 (rrTTL rr) @ putUint16 n @ bs @ post"]
      e2(2) wr(1) ls(2) by simp
  moreover have "woffset w5 + unat n \<le> length (written w' @ post)"
    using o5 e5' by (simp add: extends_def sound_def)
  moreover have "unpackRData (written w' @ post) (rrType rr) (woffset w5) (unat n) = Ret (rrRData rr)"
    using rb w5(2) by (simp add: reads_back_def)
  ultimately have "UnpackRR (written w' @ post) (woffset w) = Ret (\<lparr>rrName = rrName rr, rrType = rrType rr,
      rrClass = rrClass rr, rrTTL = rrTTL rr, rrRDLength = of_nat (length (rrRData rr)),
      rrRData = rrRData rr, rrRDataOffset = woffset w5\<rparr>, woffset w5 + unat n)"
    by (rule UnpackRR_parts [OF _ readUint16_written [OF assms(2) [unfolded write_as_bytes] s1 wr(1)]
        readUint16_written [OF assms(3) [unfolded write_as_bytes] s2 wr(2)]
        readUint32_written [OF assms(4) [unfolded write_as_bytes] s3 wr(3)]
        readUint16_written [OF w5(1) [unfolded write_as_bytes] s4 bs]])
  then show "\<exists>rr'. UnpackRR (written w' @ post) (woffset w) = Ret (rr', woffset w') \<and> strip rr' = strip rr"
    using o5 assms(7) by (auto simp: strip_def wf_rr_def)
qed

section \<open>Sections and messages survive\<close>

lemma packQuestions_reads_back:
  assumes "packQuestions w qs = Ret w'" and "sound w" and "list_all (\<lambda>q. valid_name (qName q)) qs"
  shows "extends w w' \<and> (\<forall>post. unpackQuestions (written w' @ post) (woffset w) (length qs) = Ret (qs, woffset w'))"
  using assms
proof (induction qs arbitrary: w)
  case Nil
  then show ?case by (simp add: extends_refl)
next
  case (Cons q qs)
  then obtain w1 w2 w3 where q: "EncodeName w (qName q) = Ret w1" "writeUint16 w1 (qType q) = Ret w2"
    "writeUint16 w2 (qClass q) = Ret w3" and rest: "packQuestions w3 qs = Ret w'"
    by (auto simp: outcome_simps)
  have v: "valid_name (qName q)" using Cons.prems(3) by simp
  note q' = question_reads_back [OF q Cons.prems(2) v]
  from Cons.IH [OF rest extends_sound [OF q'(1)]] Cons.prems(3)
  have ih: "extends w3 w'" "unpackQuestions (written w' @ post) (woffset w3) (length qs) = Ret (qs, woffset w')"
    for post by simp_all
  obtain bs where "written w' = written w3 @ bs" using ih(1) by (rule extends_written)
  with q'(2) [of "bs @ _"] ih extends_trans [OF q'(1) ih(1)] show ?case by simp
qed

lemma packRRs_reads_back:
  assumes "packRRs w rrs = Ret w'" and "sound w" and "list_all wf_rr rrs" and "length (wbuf w) < 2 ^ 16"
  shows "extends w w' \<and> (\<forall>post. \<exists>rrs'. unpackRRs (written w' @ post) (woffset w) (length rrs) = Ret (rrs', woffset w') \<and>
     map strip rrs' = map strip rrs)"
  using assms
proof (induction rrs arbitrary: w)
  case Nil
  then show ?case by (simp add: extends_refl)
next
  case (Cons rr rrs)
  then obtain w1 w2 w3 w4 w5 where rr: "EncodeName w (rrName rr) = Ret w1" "writeUint16 w1 (rrType rr) = Ret w2"
    "writeUint16 w2 (rrClass rr) = Ret w3" "writeUint32 w3 (rrTTL rr) = Ret w4" "packRData w4 rr = Ret w5"
    and rest: "packRRs w5 rrs = Ret w'"
    by (auto simp: outcome_simps)
  have v: "wf_rr rr" using Cons.prems(3) by simp
  note rr' = rr_reads_back [OF rr Cons.prems(2) v Cons.prems(4)]
  have "length (wbuf w5) < 2 ^ 16" using rr'(1) Cons.prems(4) by (simp add: extends_def)
  with Cons.IH [OF rest extends_sound [OF rr'(1)]] Cons.prems(3)
  have ih: "extends w5 w'" "\<exists>rrs'. unpackRRs (written w' @ post) (woffset w5) (length rrs) = Ret (rrs', woffset w') \<and>
     map strip rrs' = map strip rrs" for post by simp_all
  obtain bs where bs: "written w' = written w5 @ bs" using ih(1) by (rule extends_written)
  have "\<exists>rrs'. unpackRRs (written w' @ post) (woffset w) (length (rr # rrs)) = Ret (rrs', woffset w') \<and>
     map strip rrs' = map strip (rr # rrs)" for post
  proof -
    obtain r where r: "UnpackRR (written w' @ post) (woffset w) = Ret (r, woffset w5)" "strip r = strip rr"
      using rr'(2) [of "bs @ post"] bs by auto
    obtain rs where "unpackRRs (written w' @ post) (woffset w5) (length rrs) = Ret (rs, woffset w')"
      "map strip rs = map strip rrs" using ih(2) by blast
    with r show ?thesis by (intro exI [of _ "r # rs"]) simp
  qed
  with extends_trans [OF rr'(1) ih(1)] show ?case by blast
qed

lemma Pack_steps:
  assumes "Pack m buf = Ret (m', bs)"
  obtains w1 w2 w3 w4 w5 where "m' = updateCounts m" "Header_Pack (msgHeader m') (newWireWriter buf) = Ret w1"
    "packQuestions w1 (Questions m) = Ret w2" "packRRs w2 (Answers m) = Ret w3"
    "packRRs w3 (Authority m) = Ret w4" "packRRs w4 (Additional m) = Ret w5" "bs = written w5"
  using assms by (auto simp: Pack_def Let_def outcome_simps updateCounts_def)

lemma findEDNS0_returns: "list_all rr_wf rrs \<Longrightarrow> \<exists>e. findEDNS0 rrs = Ret e"
  by (induction rrs) (auto simp: ParseOPT_no_panic rr_wf_RDLength returns_def [symmetric] intro!: returns_intros)

lemma Unpack_sections:
  assumes "bs = header_bytes h @ rest" and "unpackQuestions bs 12 (unat (QDCount h)) = Ret (qs, o1)"
    and "unpackRRs bs o1 (unat (ANCount h)) = Ret (an, o2)" and "unpackRRs bs o2 (unat (NSCount h)) = Ret (ns, o3)"
    and "unpackRRs bs o3 (unat (ARCount h)) = Ret (ar, o4)"
  shows "\<exists>e. Unpack bs = Ret \<lparr>msgHeader = h, Questions = qs, Answers = an, Authority = ns,
     Additional = ar, msgEDNS0 = e, Raw = bs\<rparr>"
proof -
  obtain e where e: "findEDNS0 ar = Ret e" using findEDNS0_returns unpackRRs_Ret [OF assms(5)] by blast
  have "Header_Unpack (newWireReader bs) = Ret (h, \<lparr>rbuf = bs, roffset = 12\<rparr>)"
    using Header_Unpack_header_bytes [of "newWireReader bs" h rest] assms(1) by (simp add: newWireReader_def)
  moreover have "12 \<le> length bs" using assms(1) by simp
  ultimately show ?thesis using assms(2-) e by (simp add: Unpack_def)
qed

lemma Unpack_Pack_lemma:
  assumes "Pack m buf = Ret (m', bs)" and "wf_message m" and "length buf < 2 ^ 16"
  shows "\<exists>m''. Unpack bs = Ret m'' \<and> msgHeader m'' = msgHeader m' \<and> Questions m'' = Questions m \<and>
     map strip (Answers m'') = map strip (Answers m) \<and> map strip (Authority m'') = map strip (Authority m) \<and>
     map strip (Additional m'') = map strip (Additional m) \<and> Raw m'' = bs"
proof -
  from assms(1) obtain w1 w2 w3 w4 w5 where m': "m' = updateCounts m"
    and w1: "Header_Pack (msgHeader m') (newWireWriter buf) = Ret w1" and w2: "packQuestions w1 (Questions m) = Ret w2"
    and w3: "packRRs w2 (Answers m) = Ret w3" and w4: "packRRs w3 (Authority m) = Ret w4"
    and w5: "packRRs w4 (Additional m) = Ret w5" and bs: "bs = written w5" by (rule Pack_steps)
  note h = Header_Pack_Ret [OF w1 wf_newWireWriter(1)]
  have s1: "sound w1" using h table_ok_append [of "newWireWriter buf" w1] by (simp add: sound_def)
  have b1: "length (wbuf w1) < 2 ^ 16" using h(5) assms(3) by (simp add: newWireWriter_def)
  from packQuestions_reads_back [OF w2 s1] assms(2) have q: "extends w1 w2"
    "unpackQuestions (written w2 @ post) (woffset w1) (length (Questions m)) = Ret (Questions m, woffset w2)" for post
    by (simp_all add: wf_message_def)
  have b2: "length (wbuf w2) < 2 ^ 16" using q(1) b1 by (simp add: extends_def)
  note a = packRRs_reads_back [OF w3 extends_sound [OF q(1)] _ b2]
  have an: "extends w2 w3" using a assms(2) by (simp add: wf_message_def)
  have b3: "length (wbuf w3) < 2 ^ 16" using an b2 by (simp add: extends_def)
  note n = packRRs_reads_back [OF w4 extends_sound [OF an] _ b3]
  have ns: "extends w3 w4" using n assms(2) by (simp add: wf_message_def)
  have b4: "length (wbuf w4) < 2 ^ 16" using ns b3 by (simp add: extends_def)
  note d = packRRs_reads_back [OF w5 extends_sound [OF ns] _ b4]
  have ar: "extends w4 w5" using d assms(2) by (simp add: wf_message_def)
  obtain x2 x3 x4 where x: "written w3 = written w2 @ x2" "written w4 = written w3 @ x3" "bs = written w4 @ x4"
    using an ns ar bs by (metis extends_written)
  obtain rs1 where rs1: "unpackRRs bs (woffset w2) (length (Answers m)) = Ret (rs1, woffset w3)"
    "map strip rs1 = map strip (Answers m)"
    using a [THEN conjunct2, THEN spec, of "x3 @ x4"] assms(2) x by (auto simp: wf_message_def)
  obtain rs2 where rs2: "unpackRRs bs (woffset w3) (length (Authority m)) = Ret (rs2, woffset w4)"
    "map strip rs2 = map strip (Authority m)"
    using n [THEN conjunct2, THEN spec, of "x4"] assms(2) x by (auto simp: wf_message_def)
  obtain rs3 where rs3: "unpackRRs bs (woffset w4) (length (Additional m)) = Ret (rs3, woffset w5)"
    "map strip rs3 = map strip (Additional m)"
    using d [THEN conjunct2, THEN spec, of "[]"] assms(2) bs by (auto simp: wf_message_def)
  obtain x1 where x1: "bs = header_bytes (msgHeader m') @ x1"
    using h(1) q(1) x by (metis append.assoc append_Nil extends_written wf_newWireWriter(2))
  have "unpackQuestions bs 12 (length (Questions m)) = Ret (Questions m, woffset w2)"
    using q(2) [of "x2 @ x3 @ x4"] x h(3) by (simp add: newWireWriter_def)
  then have "\<exists>e. Unpack bs = Ret \<lparr>msgHeader = msgHeader m', Questions = Questions m, Answers = rs1,
      Authority = rs2, Additional = rs3, msgEDNS0 = e, Raw = bs\<rparr>"
    using rs1(1) rs2(1) rs3(1) m' assms(2)
    by (intro Unpack_sections [OF x1])
       (simp_all add: updateCounts_def wf_message_def unsigned_of_nat take_bit_nat_eq_self)
  with rs1(2) rs2(2) rs3(2) show ?thesis by auto
qed

section \<open>Pack succeeds when the buffer is large enough\<close>

text \<open>A writing step that succeeds whenever \<open>n\<close> bytes are free, and takes at most \<open>n\<close>.\<close>

definition needs :: "nat \<Rightarrow> (wireWriter \<Rightarrow> wireWriter dns) \<Rightarrow> bool" where
  "needs n f \<longleftrightarrow> (\<forall>w. woffset w + n \<le> length (wbuf w) \<longrightarrow>
     (\<exists>w'. f w = Ret w' \<and> woffset w' \<le> woffset w + n \<and> length (wbuf w') = length (wbuf w)))"

lemma needs_writeBytes: "needs (length b) (\<lambda>w. writeBytes w b)"
  by (auto simp: needs_def writeBytes_def)

lemma needs_seq: "needs n f \<Longrightarrow> needs k g \<Longrightarrow> needs (n + k) (\<lambda>w. andThen (f w) g)"
  unfolding needs_def
proof (intro allI impI)
  fix w :: wireWriter
  assume f: "\<forall>w. woffset w + n \<le> length (wbuf w) \<longrightarrow>
      (\<exists>w'. f w = Ret w' \<and> woffset w' \<le> woffset w + n \<and> length (wbuf w') = length (wbuf w))"
    and g: "\<forall>w. woffset w + k \<le> length (wbuf w) \<longrightarrow>
      (\<exists>w'. g w = Ret w' \<and> woffset w' \<le> woffset w + k \<and> length (wbuf w') = length (wbuf w))"
    and w: "woffset w + (n + k) \<le> length (wbuf w)"
  then obtain w1 where w1: "f w = Ret w1" "woffset w1 \<le> woffset w + n" "length (wbuf w1) = length (wbuf w)"
    by (meson add_leD1 add.assoc le_trans nat_add_left_cancel_le le_add1)
  with w have "woffset w1 + k \<le> length (wbuf w1)" by simp
  with g obtain w2 where "g w1 = Ret w2" "woffset w2 \<le> woffset w1 + k" "length (wbuf w2) = length (wbuf w1)"
    by blast
  with w1 show "\<exists>w'. andThen (f w) g = Ret w' \<and> woffset w' \<le> woffset w + (n + k) \<and>
      length (wbuf w') = length (wbuf w)" by auto
qed

lemma needs_mono: "needs n f \<Longrightarrow> n \<le> k \<Longrightarrow> needs k f"
  unfolding needs_def by (meson add_left_mono le_trans)

lemma needs_writePointer: "needs 2 (\<lambda>w. writePointer w off)"
  using needs_writeBytes [of "putUint16 _"] by (simp add: writePointer_def write_as_bytes)

lemma needs_table:
  assumes "2 \<le> n" and "needs n g"
  shows "needs n (\<lambda>w. case compressionOffset w s of Some off \<Rightarrow> writePointer w off | None \<Rightarrow> g w)"
  using needs_mono [OF needs_writePointer assms(1)] assms(2)
  unfolding needs_def by (auto split: option.split)

lemma needs_record:
  assumes "needs n g" shows "needs n (\<lambda>w. g (w\<lparr>compressed := c w\<rparr>))"
  unfolding needs_def
proof (intro allI impI)
  fix w :: wireWriter assume "woffset w + n \<le> length (wbuf w)"
  with assms show "\<exists>w'. g (w\<lparr>compressed := c w\<rparr>) = Ret w' \<and> woffset w' \<le> woffset w + n \<and>
      length (wbuf w') = length (wbuf w)"
    using spec [OF assms [unfolded needs_def], of "w\<lparr>compressed := c w\<rparr>"] by simp
qed

lemma wireName_Cons_length: "length (wireName (l # ls)) = 1 + length l + length (wireName ls)"
  by (simp add: wireName_def wireLabel_def)

lemma needs_encodeLabels: "list_all valid_label ls \<Longrightarrow> needs (length (wireName ls)) (\<lambda>w. encodeLabels w ls)"
proof (induction ls)
  case Nil
  then show ?case using needs_writeBytes [of "[0]"] by (simp add: wireName_def)
next
  case (Cons l ls)
  let ?n = "length (wireName (l # ls))"
  let ?g = "\<lambda>w. andThen (writeBytes w [of_nat (length l)]) (\<lambda>w.
     andThen (writeBytes w (bytes_of l)) (\<lambda>w. encodeLabels w ls))"
  have l: "l \<noteq> []" "length l \<le> 63" using Cons.prems by (simp_all add: valid_label_def)
  have "needs ?n ?g"
    using needs_seq [OF needs_writeBytes [of "[of_nat (length l)]"] needs_seq [OF needs_writeBytes [of "bytes_of l"] Cons.IH]]
      Cons.prems by (simp add: wireName_Cons_length)
  then have "needs ?n (\<lambda>w. ?g (w\<lparr>compressed := (compressed w)(joinLabels (l # ls) \<mapsto> woffset w)\<rparr>))"
    by (rule needs_record)
  moreover have "2 \<le> ?n" using l by (cases l) (simp_all add: wireName_Cons_length)
  ultimately show ?case
    using needs_table l by (simp add: Let_def name_limits)
qed

lemma needs_EncodeName:
  assumes "valid_name n" shows "needs (length (wireName (splitLabels n))) (\<lambda>w. EncodeName w n)"
proof -
  obtain ls where ls: "valid_labels ls" "n = Join dot ls" "splitLabels n = ls"
    using assms by (rule valid_name_labels)
  have v: "list_all valid_label ls" using ls(1) by (simp add: valid_labels_def)
  show ?thesis
  proof (cases "ls = []")
    case True
    with ls(2) needs_writeBytes [of "[0]"] show ?thesis by (simp add: EncodeName_def wireName_def splitLabels_def TrimSuffix_def HasSuffix_def)
  next
    case False
    then have "n \<noteq> []" "n \<noteq> ''.''"
      using ls(2) v Join_eq_Nil [of ls] last_Join [of ls dot] by (auto simp: list_all_iff valid_label_def)
    moreover have "2 \<le> length (wireName ls)"
      using False v by (cases ls) (auto simp: wireName_Cons_length valid_label_def Suc_le_eq)
    ultimately show ?thesis
      using needs_table needs_encodeLabels [OF v] ls(3) by (simp add: EncodeName_def)
  qed
qed

definition rr_size :: "ResourceRecord \<Rightarrow> nat" where
  "rr_size rr = length (wireName (splitLabels (rrName rr))) + 10 + length (rrRData rr)"

definition message_size :: "Message \<Rightarrow> nat" where
  "message_size m = 12 + sum_list (map (\<lambda>q. length (wireName (splitLabels (qName q))) + 4) (Questions m)) +
     sum_list (map rr_size (Answers m @ Authority m @ Additional m))"

lemma valid_name_split: "valid_labels ls \<Longrightarrow> splitLabels (Join dot ls) = ls"
  by (simp add: splitLabels_Join valid_labels_def)

lemma needs_name: "valid_labels ls \<Longrightarrow> needs (length (wireName ls)) (\<lambda>w. EncodeName w (Join dot ls))"
  using needs_EncodeName [OF valid_name_Join, of ls] by (simp add: valid_name_split)

lemma needs_Ret: "needs 0 Ret"
  by (simp add: needs_def)

text \<open>A name and what follows it, which is not written when it is empty.\<close>

lemma needs_name_tail:
  assumes "valid_labels ls"
  shows "needs (length (wireName ls) + length rest) (\<lambda>w. andThen (EncodeName w (Join dot ls)) (\<lambda>w.
     if rest \<noteq> [] then writeBytes w rest else Ret w))"
proof (rule needs_seq [OF needs_name [OF assms]])
  show "needs (length rest) (\<lambda>w. if rest \<noteq> [] then writeBytes w rest else Ret w)"
    by (cases rest) (simp_all add: needs_Ret, metis length_Cons needs_writeBytes)
qed

lemma needs_prefix:
  assumes "pre \<le> length rd" and "needs (length rd - pre) g"
  shows "needs (length rd) (\<lambda>w. andThen (writeBytes w (take pre rd)) g)"
  using needs_seq [OF needs_writeBytes [of "take pre rd"] assms(2)] assms(1) by simp

lemma name_rdata_tail:
  assumes "name_rdata pre ok rd"
  obtains ls rest where "valid_labels ls" "ok rest" "drop (pre + length (wireName ls)) rd = rest"
    "DecodeName rd pre = Ret (Join dot ls, pre + length (wireName ls))"
    "length rd = pre + (length (wireName ls) + length rest)"
proof -
  from assms obtain ls where ls: "valid_labels ls" "pre \<le> length rd"
    "rd = take pre rd @ wireName ls @ drop (pre + length (wireName ls)) rd"
    "ok (drop (pre + length (wireName ls)) rd)"
    "DecodeName rd pre = Ret (Join dot ls, pre + length (wireName ls))" by (rule name_rdataE)
  have "length rd = length (take pre rd) + (length (wireName ls) + length (drop (pre + length (wireName ls)) rd))"
    using arg_cong [OF ls(3), of length] by (simp only: length_append)
  moreover have "length (take pre rd) = pre" using ls(2) by simp
  ultimately show thesis using that [OF ls(1,4) refl ls(5)] by (simp only:)
qed

lemma needs_soa:
  assumes "wf_rdata TypeSOA rd" shows "needs (length rd) (\<lambda>w. packRDataBody w TypeSOA rd)"
proof -
  have "name_rdata 0 (name_rdata 0 (\<lambda>x. length x = 20)) rd" using assms by (simp add: wf_rdata_def)
  then obtain ms rest where ms: "valid_labels ms" "rd = wireName ms @ rest"
    and rest: "name_rdata 0 (\<lambda>x. length x = 20) rest" by (rule name_rdataE) auto
  from rest obtain rs ser where rs: "valid_labels rs" "rest = wireName rs @ ser" "length ser = 20"
    by (rule name_rdataE) auto
  have "DecodeName rd 0 = Ret (Join dot ms, length (wireName ms))"
    "DecodeName rd (length (wireName ms)) = Ret (Join dot rs, length (wireName ms) + length (wireName rs))"
    using DecodeName_wireName [OF ms(1), of "[]" rest] DecodeName_wireName [OF rs(1), of "wireName ms" ser]
      ms(2) rs(2) by simp_all
  with needs_seq [OF needs_name [OF ms(1)] needs_seq [OF needs_name [OF rs(1)] needs_writeBytes [of ser]]]
    ms(2) rs(2) show ?thesis by (simp add: packRDataBody_def add.assoc)
qed

lemma needs_packRDataBody:
  assumes wf: "wf_rdata t rd" shows "needs (length rd) (\<lambda>w. packRDataBody w t rd)"
proof -
  consider "t \<in> {TypeNS, TypeCNAME, TypePTR, TypeDNAME}" | pre where "(t, pre) \<in> {(TypeMX, 2::nat), (TypeSRV, 6)}"
    | "t = TypeSOA" | "t = TypeRRSIG" | "t = TypeNSEC"
    | "t \<notin> {TypeNS, TypeCNAME, TypePTR, TypeDNAME, TypeMX, TypeSOA, TypeSRV, TypeRRSIG, TypeNSEC}" by blast
  then show ?thesis
  proof cases
    case 1
    then have "name_rdata 0 (\<lambda>x. x = []) rd" using wf by (auto simp: wf_rdata_def)
    then obtain ls where "valid_labels ls" "length rd = length (wireName ls)"
      "DecodeName rd 0 = Ret (Join dot ls, length (wireName ls))" by (elim name_rdata_tail) auto
    with 1 needs_name show ?thesis by (auto simp: packRDataBody_def)
  next
    case (2 pre)
    then have "name_rdata pre (\<lambda>x. x = []) rd" using wf by (auto simp: wf_rdata_def)
    then obtain ls where ls: "valid_labels ls" "length rd = pre + length (wireName ls)"
      "DecodeName rd pre = Ret (Join dot ls, pre + length (wireName ls))" by (elim name_rdata_tail) auto
    with needs_prefix [of pre rd "\<lambda>w. EncodeName w (Join dot ls)"] needs_name [OF ls(1)]
    have "needs (length rd) (\<lambda>w. andThen (writeBytes w (take pre rd)) (\<lambda>w. EncodeName w (Join dot ls)))" by simp
    with 2 ls(2,3) show ?thesis by (auto simp: packRDataBody_def)
  next
    case 3
    with wf needs_soa show ?thesis by simp
  next
    case 4
    then have "name_rdata 18 (\<lambda>x. True) rd" using wf by (simp add: wf_rdata_def)
    then obtain ls rest where ls: "valid_labels ls" "drop (18 + length (wireName ls)) rd = rest"
      "DecodeName rd 18 = Ret (Join dot ls, 18 + length (wireName ls))"
      "length rd = 18 + (length (wireName ls) + length rest)" by (rule name_rdata_tail)
    with needs_prefix [of 18 rd] needs_name_tail [OF ls(1), of rest] 4 show ?thesis
      by (simp add: packRDataBody_def cong: if_cong)
  next
    case 5
    then have "name_rdata 0 (\<lambda>x. True) rd" using wf by (simp add: wf_rdata_def)
    then obtain ls rest where ls: "valid_labels ls" "drop (0 + length (wireName ls)) rd = rest"
      "DecodeName rd 0 = Ret (Join dot ls, 0 + length (wireName ls))"
      "length rd = 0 + (length (wireName ls) + length rest)" by (rule name_rdata_tail)
    with needs_name_tail [OF ls(1), of rest] 5 show ?thesis by (simp add: packRDataBody_def cong: if_cong)
  next
    case 6
    with needs_writeBytes show ?thesis by (auto simp: packRDataBody_def)
  qed
qed

lemma needs_packRData:
  assumes "wf_rdata (rrType rr) (rrRData rr)"
  shows "needs (2 + length (rrRData rr)) (\<lambda>w. packRData w rr)"
  unfolding needs_def
proof (intro allI impI)
  fix w :: wireWriter
  assume w: "woffset w + (2 + length (rrRData rr)) \<le> length (wbuf w)"
  then obtain w1 where w1: "writeUint16 w 0 = Ret w1" "woffset w1 = woffset w + 2" "length (wbuf w1) = length (wbuf w)"
    by (auto simp: writeUint16_def)
  with w needs_packRDataBody [OF assms] obtain w2 where
    "packRDataBody w1 (rrType rr) (rrRData rr) = Ret w2" "woffset w2 \<le> woffset w1 + length (rrRData rr)"
    "length (wbuf w2) = length (wbuf w)"
    by (force simp: needs_def)
  with w w1 show "\<exists>w'. packRData w rr = Ret w' \<and> woffset w' \<le> woffset w + (2 + length (rrRData rr)) \<and>
      length (wbuf w') = length (wbuf w)"
    by (auto simp: packRData_def Let_def)
qed

lemma needs_writeAll16: "needs (2 * length vs) (\<lambda>w. writeAll16 w vs)"
proof (induction vs)
  case Nil
  then show ?case by (simp add: needs_Ret)
next
  case (Cons v vs)
  then show ?case using needs_seq [OF needs_writeBytes [of "putUint16 v"]] by (simp add: write_as_bytes)
qed

lemma needs_Header_Pack: "needs 12 (Header_Pack h)"
  using needs_writeAll16 [of "[ID h, Flags h, QDCount h, ANCount h, NSCount h, ARCount h]"]
  by (simp add: Header_Pack_def [abs_def] del: writeAll16.simps)

lemma needs_u16: "needs 2 (\<lambda>w. writeUint16 w v)" and needs_u32: "needs 4 (\<lambda>w. writeUint32 w u)"
  using needs_writeBytes [of "putUint16 v"] needs_writeBytes [of "putUint32 u"] by (simp_all add: write_as_bytes)

lemma needs_packQuestions:
  "list_all (\<lambda>q. valid_name (qName q)) qs \<Longrightarrow>
     needs (sum_list (map (\<lambda>q. length (wireName (splitLabels (qName q))) + 4) qs)) (\<lambda>w. packQuestions w qs)"
proof (induction qs)
  case Nil
  then show ?case by (simp add: needs_Ret)
next
  case (Cons q qs)
  then have "needs (length (wireName (splitLabels (qName q))) + (2 + (2 +
      sum_list (map (\<lambda>q. length (wireName (splitLabels (qName q))) + 4) qs)))) (\<lambda>w. packQuestions w (q # qs))"
    unfolding packQuestions.simps by (intro needs_seq needs_EncodeName needs_u16) simp_all
  then show ?case by (rule needs_mono) simp
qed

lemma needs_packRRs:
  "list_all wf_rr rrs \<Longrightarrow> needs (sum_list (map rr_size rrs)) (\<lambda>w. packRRs w rrs)"
proof (induction rrs)
  case Nil
  then show ?case by (simp add: needs_Ret)
next
  case (Cons rr rrs)
  then have "needs (length (wireName (splitLabels (rrName rr))) + (2 + (2 + (4 + ((2 + length (rrRData rr)) +
      sum_list (map rr_size rrs)))))) (\<lambda>w. packRRs w (rr # rrs))"
    unfolding packRRs.simps
    by (intro needs_seq needs_EncodeName needs_u16 needs_u32 needs_packRData) (simp_all add: wf_rr_def)
  then show ?case by (rule needs_mono) (simp add: rr_size_def [of rr])
qed

lemma Pack_returns_lemma:
  assumes "wf_message m" and "message_size m \<le> length buf"
  shows "\<exists>bs. Pack m buf = Ret (updateCounts m, bs) \<and> length bs \<le> message_size m"
proof -
  let ?q = "sum_list (map (\<lambda>q. length (wireName (splitLabels (qName q))) + 4) (Questions m))"
  let ?s = "\<lambda>rrs. sum_list (map rr_size rrs)"
  have "needs (12 + (?q + (?s (Answers m) + (?s (Authority m) + ?s (Additional m)))))
     (\<lambda>w. andThen (Header_Pack (msgHeader (updateCounts m)) w) (\<lambda>w. andThen (packQuestions w (Questions m)) (\<lambda>w.
        andThen (packRRs w (Answers m)) (\<lambda>w. andThen (packRRs w (Authority m)) (\<lambda>w. packRRs w (Additional m))))))"
    using assms(1) by (intro needs_seq needs_Header_Pack needs_packQuestions needs_packRRs) (simp_all add: wf_message_def)
  with assms(2) obtain w where "andThen (Header_Pack (msgHeader (updateCounts m)) (newWireWriter buf)) (\<lambda>w.
      andThen (packQuestions w (Questions m)) (\<lambda>w. andThen (packRRs w (Answers m)) (\<lambda>w.
      andThen (packRRs w (Authority m)) (\<lambda>w. packRRs w (Additional m))))) = Ret w"
    and "woffset w \<le> message_size m"
    by (force simp: needs_def message_size_def newWireWriter_def add.assoc)
  then show ?thesis
    by (auto simp: Pack_def Let_def outcome_simps updateCounts_def written_def)
qed

text \<open>RDATA built from a name is well formed.\<close>

lemma name_rdata_wireName:
  assumes "valid_labels ls" and "ok rest" and "length pre = n"
  shows "name_rdata n ok (pre @ wireName ls @ rest)"
  using DecodeName_wireName [OF assms(1), of pre rest] valid_name_Join [OF assms(1)] assms
  by (simp add: name_rdata_def valid_name_split)

end
