(* ===== verification/Dns_RData.thy ===== *)
theory Dns_RData
  imports Dns_Edns
begin

text \<open>
  The RDATA parsers of \<open>dns/rdata.go\<close>: addresses, names, SOA, MX, SRV, TXT and the DNSSEC
  record types, with the key tag of RFC 4034 and the type bitmaps of NSEC and NSEC3.  Every
  parser is shown to be free of panics on every input; the key tag and the bitmap decoder are
  related to their arithmetic meaning.  A nil slice and an empty one are both the empty list.
\<close>

section \<open>Addresses and names\<close>

definition ParseA :: "bytes \<Rightarrow> IP dns" where
  "ParseA rdata = (if length rdata \<noteq> 4 then Err (errText ''A record RDATA length, want 4'') else Ret rdata)"

definition ParseAAAA :: "bytes \<Rightarrow> IP dns" where
  "ParseAAAA rdata = (if length rdata \<noteq> 16 then Err (errText ''AAAA record RDATA length, want 16'') else Ret rdata)"

definition ParseNS :: "bytes \<Rightarrow> nat \<Rightarrow> string dns" where
  "ParseNS msg rdataOffset = andThen (DecodeName msg rdataOffset) (\<lambda>(name, _). Ret name)"

definition ParseCNAME :: "bytes \<Rightarrow> nat \<Rightarrow> string dns" where
  "ParseCNAME msg rdataOffset = andThen (DecodeName msg rdataOffset) (\<lambda>(name, _). Ret name)"

definition ParsePTR :: "bytes \<Rightarrow> nat \<Rightarrow> string dns" where
  "ParsePTR msg rdataOffset = andThen (DecodeName msg rdataOffset) (\<lambda>(name, _). Ret name)"

definition ParseDNAME :: "bytes \<Rightarrow> nat \<Rightarrow> string dns" where
  "ParseDNAME msg rdataOffset = andThen (DecodeName msg rdataOffset) (\<lambda>(name, _). Ret name)"

section \<open>SOA, MX, SRV, TXT\<close>

record SOARecord =
  MName :: string
  RName :: string
  Serial :: u32
  Refresh :: u32
  Retry :: u32
  Expire :: u32
  Minimum :: u32

definition ParseSOA :: "bytes \<Rightarrow> nat \<Rightarrow> SOARecord dns" where
  "ParseSOA msg rdataOffset =
     andThen (DecodeName msg rdataOffset) (\<lambda>(mname, offset).
     andThen (DecodeName msg offset) (\<lambda>(rname, offset).
     andThen (readUint32 \<lparr>rbuf = msg, roffset = offset\<rparr>) (\<lambda>(serial, r).
     andThen (readUint32 r) (\<lambda>(refresh, r).
     andThen (readUint32 r) (\<lambda>(retry, r).
     andThen (readUint32 r) (\<lambda>(expire, r).
     andThen (readUint32 r) (\<lambda>(minimum, r).
     Ret \<lparr>MName = mname, RName = rname, Serial = serial, Refresh = refresh, Retry = retry,
          Expire = expire, Minimum = minimum\<rparr>)))))))"

record MXRecord =
  Preference :: u16
  Exchange :: string

definition ParseMX :: "bytes \<Rightarrow> nat \<Rightarrow> MXRecord dns" where
  "ParseMX msg rdataOffset =
     andThen (readUint16 \<lparr>rbuf = msg, roffset = rdataOffset\<rparr>) (\<lambda>(pref, r).
     andThen (DecodeName msg (roffset r)) (\<lambda>(exchange, _).
     Ret \<lparr>Preference = pref, Exchange = exchange\<rparr>))"

record SRVRecord =
  Priority :: u16
  Weight :: u16
  Port :: u16
  Target :: string

definition ParseSRV :: "bytes \<Rightarrow> nat \<Rightarrow> SRVRecord dns" where
  "ParseSRV msg rdataOffset =
     andThen (readUint16 \<lparr>rbuf = msg, roffset = rdataOffset\<rparr>) (\<lambda>(priority, r).
     andThen (readUint16 r) (\<lambda>(weight, r).
     andThen (readUint16 r) (\<lambda>(port, r).
     andThen (DecodeName msg (roffset r)) (\<lambda>(target, _).
     Ret \<lparr>Priority = priority, Weight = weight, Port = port, Target = target\<rparr>))))"

function txtLoop :: "bytes \<Rightarrow> nat \<Rightarrow> string list \<Rightarrow> string list dns" where
  "txtLoop rdata offset result =
     (if offset < length rdata then
        andThen (goIndex rdata offset) (\<lambda>b.
        let len = unat b; offset = offset + 1 in
        if length rdata < offset + len then Err errTruncated
        else andThen (goSlice rdata offset (offset + len)) (\<lambda>s.
             txtLoop rdata (offset + len) (result @ [string_of s])))
      else Ret result)"
  by pat_completeness auto
termination
  by (relation "measure (\<lambda>(rdata, offset, result). length rdata - offset)") auto

declare txtLoop.simps [simp del]

definition ParseTXT :: "bytes \<Rightarrow> string list dns" where
  "ParseTXT rdata = txtLoop rdata 0 []"

section \<open>DNSSEC records\<close>

definition getUint32At :: "bytes \<Rightarrow> nat \<Rightarrow> u32 dns" where
  "getUint32At b i =
     andThen (goIndex b i) (\<lambda>b0. andThen (goIndex b (i + 1)) (\<lambda>b1.
     andThen (goIndex b (i + 2)) (\<lambda>b2. andThen (goIndex b (i + 3)) (\<lambda>b3.
     Ret (getUint32 b0 b1 b2 b3)))))"

record DNSKEYRecord =
  keyFlags :: u16
  keyProtocol :: u8
  keyAlgorithm :: u8
  PublicKey :: bytes

definition ParseDNSKEY :: "bytes \<Rightarrow> DNSKEYRecord dns" where
  "ParseDNSKEY rdata =
     (if length rdata < 4 then Err (errText ''DNSKEY RDATA too short'')
      else andThen (getUint16At rdata 0) (\<lambda>flags.
           andThen (goIndex rdata 2) (\<lambda>protocol.
           andThen (goIndex rdata 3) (\<lambda>algorithm.
           Ret \<lparr>keyFlags = flags, keyProtocol = protocol, keyAlgorithm = algorithm,
                PublicKey = (if 4 < length rdata then drop 4 rdata else [])\<rparr>))))"

text \<open>The accumulation loop of \<open>KeyTag\<close>: odd positions count once, even ones 256 times.\<close>

fun keyTagLoop :: "nat \<Rightarrow> bytes \<Rightarrow> u32 \<Rightarrow> u32" where
  "keyTagLoop i [] ac = ac"
| "keyTagLoop i (b # bs) ac =
     keyTagLoop (i + 1) bs (ac + (if odd i then ucast b else push_bit 8 (ucast b)))"

definition KeyTag :: "DNSKEYRecord \<Rightarrow> u16" where
  "KeyTag k =
     (let wire = putUint16 (keyFlags k) @ [keyProtocol k, keyAlgorithm k] @ PublicKey k;
          ac = keyTagLoop 0 wire 0;
          ac = ac + (drop_bit 16 ac AND 0xFFFF)
      in ucast (ac AND 0xFFFF))"

definition IsKSK :: "DNSKEYRecord \<Rightarrow> bool" where
  "IsKSK k \<longleftrightarrow> keyFlags k AND 1 \<noteq> 0"

record DSRecord =
  dsKeyTag :: u16
  dsAlgorithm :: u8
  dsDigestType :: u8
  dsDigest :: bytes

definition ParseDS :: "bytes \<Rightarrow> DSRecord dns" where
  "ParseDS rdata =
     (if length rdata < 4 then Err (errText ''DS RDATA too short'')
      else andThen (getUint16At rdata 0) (\<lambda>tag.
           andThen (goIndex rdata 2) (\<lambda>algorithm.
           andThen (goIndex rdata 3) (\<lambda>digestType.
           Ret \<lparr>dsKeyTag = tag, dsAlgorithm = algorithm, dsDigestType = digestType,
                dsDigest = (if 4 < length rdata then drop 4 rdata else [])\<rparr>))))"

record RRSIGRecord =
  TypeCovered :: u16
  sigAlgorithm :: u8
  sigLabels :: u8
  sigOrigTTL :: u32
  Expiration :: u32
  Inception :: u32
  sigKeyTag :: u16
  SignerName :: string
  Signature :: bytes

definition ParseRRSIG :: "bytes \<Rightarrow> nat \<Rightarrow> RRSIGRecord dns" where
  "ParseRRSIG rdata offset =
     (if length rdata < 18 then Err (errText ''RRSIG RDATA too short'')
      else andThen (getUint16At rdata 0) (\<lambda>tc.
           andThen (goIndex rdata 2) (\<lambda>alg.
           andThen (goIndex rdata 3) (\<lambda>lab.
           andThen (getUint32At rdata 4) (\<lambda>ttl.
           andThen (getUint32At rdata 8) (\<lambda>expi.
           andThen (getUint32At rdata 12) (\<lambda>inc.
           andThen (getUint16At rdata 16) (\<lambda>tag.
           ifOk (DecodeName rdata 18) (\<lambda>(name, nameEnd).
             andThen (if nameEnd < length rdata then goSlice rdata nameEnd (length rdata) else Ret []) (\<lambda>sig.
             Ret \<lparr>TypeCovered = tc, sigAlgorithm = alg, sigLabels = lab, sigOrigTTL = ttl, Expiration = expi,
                  Inception = inc, sigKeyTag = tag, SignerName = name, Signature = sig\<rparr>))
             (Err (errText ''RRSIG signer name''))))))))))"

text \<open>The two nested \<open>for\<close> loops over the bytes and bits of one window.\<close>

definition byteTypes :: "nat \<Rightarrow> nat \<Rightarrow> u8 \<Rightarrow> u16 list" where
  "byteTypes window i b =
     map (\<lambda>k. of_nat (window * 256 + i * 8 + k)) (filter (\<lambda>k. b AND drop_bit k 0x80 \<noteq> 0) [0..<8])"

definition windowTypes :: "nat \<Rightarrow> bytes \<Rightarrow> u16 list" where
  "windowTypes window bitmap = concat (map (\<lambda>i. byteTypes window i (bitmap ! i)) [0..<length bitmap])"

function bitMapsLoop :: "bytes \<Rightarrow> nat \<Rightarrow> u16 list \<Rightarrow> u16 list dns" where
  "bitMapsLoop d off types =
     (if off + 2 \<le> length d then
        andThen (goIndex d off) (\<lambda>w.
        andThen (goIndex d (off + 1)) (\<lambda>n.
        let off = off + 2; bitmapLen = unat n in
        if length d < off + bitmapLen then Ret types
        else andThen (goSlice d off (off + bitmapLen)) (\<lambda>bitmap.
             bitMapsLoop d (off + bitmapLen) (types @ windowTypes (unat w) bitmap))))
      else Ret types)"
  by pat_completeness auto
termination
  by (relation "measure (\<lambda>(d, off, types). length d - off)") auto

declare bitMapsLoop.simps [simp del]

definition parseTypeBitMaps :: "bytes \<Rightarrow> u16 list dns" where
  "parseTypeBitMaps d = bitMapsLoop d 0 []"

record NSECRecord =
  NextDomainName :: string
  nsecTypes :: "u16 list"

definition ParseNSEC :: "bytes \<Rightarrow> nat \<Rightarrow> NSECRecord dns" where
  "ParseNSEC rdata offset =
     (if length rdata = 0 then Err (errText ''NSEC RDATA empty'')
      else ifOk (DecodeName rdata 0) (\<lambda>(name, nameEnd).
             andThen (goSlice rdata nameEnd (length rdata)) (\<lambda>rest.
             andThen (parseTypeBitMaps rest) (\<lambda>types.
             Ret \<lparr>NextDomainName = name, nsecTypes = types\<rparr>)))
             (Err (errText ''NSEC next domain name'')))"

record NSEC3Record =
  HashAlgorithm :: u8
  nsec3Flags :: u8
  Iterations :: u16
  Salt :: bytes
  NextHash :: bytes
  nsec3Types :: "u16 list"

definition ParseNSEC3 :: "bytes \<Rightarrow> NSEC3Record dns" where
  "ParseNSEC3 rdata =
     (if length rdata < 5 then Err (errText ''NSEC3 RDATA too short'')
      else andThen (goIndex rdata 0) (\<lambda>alg.
           andThen (goIndex rdata 1) (\<lambda>flags.
           andThen (getUint16At rdata 2) (\<lambda>iters.
           andThen (goIndex rdata 4) (\<lambda>sl.
           let saltLen = unat sl; off = 5 in
           if length rdata < off + saltLen then Err (errText ''NSEC3 salt overflows RDATA'')
           else andThen (if 0 < saltLen then goSlice rdata off (off + saltLen) else Ret []) (\<lambda>salt.
           let off = off + saltLen in
           if length rdata \<le> off then Err (errText ''NSEC3 RDATA truncated at hash length'')
           else andThen (goIndex rdata off) (\<lambda>hl.
           let hashLen = unat hl; off = off + 1 in
           if length rdata < off + hashLen then Err (errText ''NSEC3 next hash overflows RDATA'')
           else andThen (if 0 < hashLen then goSlice rdata off (off + hashLen) else Ret []) (\<lambda>hash.
           andThen (goSlice rdata (off + hashLen) (length rdata)) (\<lambda>rest.
           andThen (parseTypeBitMaps rest) (\<lambda>types.
           Ret \<lparr>HashAlgorithm = alg, nsec3Flags = flags, Iterations = iters, Salt = salt,
                NextHash = hash, nsec3Types = types\<rparr>))))))))))"

section \<open>No panics\<close>

lemma txtLoop_no_panic: "txtLoop rdata off res \<noteq> Panic"
proof (induction rdata off res rule: txtLoop.induct)
  case (1 rdata off res)
  then show ?case
    by (subst txtLoop.simps) (auto simp: outcome_simps Let_def goIndex_def goSlice_def)
qed

lemma bitMapsLoop_returns: "returns (bitMapsLoop d off types)"
proof (induction d off types rule: bitMapsLoop.induct)
  case (1 d off types)
  then show ?case
    by (subst bitMapsLoop.simps) (auto intro!: returns_intros simp: Let_def goIndex_Ret_iff goSlice_Ret_iff)
qed

lemma parseTypeBitMaps_returns: "returns (parseTypeBitMaps d)"
  by (simp add: parseTypeBitMaps_def bitMapsLoop_returns)

lemma parseTypeBitMaps_no_panic [simp]: "parseTypeBitMaps d \<noteq> Panic"
  using parseTypeBitMaps_returns returns_not_panic by blast

lemma getAt_no_panic: "i + 1 < length b \<Longrightarrow> getUint16At b i \<noteq> Panic" "i + 3 < length b \<Longrightarrow> getUint32At b i \<noteq> Panic"
  by (simp_all add: getUint16At_def getUint32At_def)

lemma ParseSOA_no_panic [simp]: "ParseSOA msg off \<noteq> Panic"
  by (simp add: ParseSOA_def outcome_simps split: prod.splits)

lemma name_parsers_no_panic:
  "ParseNS msg off \<noteq> Panic" "ParseCNAME msg off \<noteq> Panic" "ParsePTR msg off \<noteq> Panic" "ParseDNAME msg off \<noteq> Panic"
  "ParseMX msg off \<noteq> Panic" "ParseSRV msg off \<noteq> Panic" "ParseA rd \<noteq> Panic" "ParseAAAA rd \<noteq> Panic" "ParseTXT rd \<noteq> Panic"
  by (simp_all add: ParseNS_def ParseCNAME_def ParsePTR_def ParseDNAME_def ParseMX_def ParseSRV_def ParseA_def
      ParseAAAA_def ParseTXT_def txtLoop_no_panic outcome_simps split: prod.splits)

lemma ParseDNSKEY_no_panic: "ParseDNSKEY rd \<noteq> Panic" and ParseDS_no_panic: "ParseDS rd \<noteq> Panic"
  by (auto simp: ParseDNSKEY_def ParseDS_def outcome_simps getUint16At_def goIndex_def split: if_splits)

lemma ParseRRSIG_no_panic: "ParseRRSIG rd off \<noteq> Panic"
  by (auto simp: ParseRRSIG_def outcome_simps getAt_no_panic goIndex_def goSlice_def split: if_splits)

lemma ParseNSEC_no_panic: "ParseNSEC rd off \<noteq> Panic"
  by (auto simp: ParseNSEC_def outcome_simps goSlice_def dest!: DecodeName_bounds)

lemma ParseNSEC3_no_panic: "ParseNSEC3 rd \<noteq> Panic"
  by (auto simp: ParseNSEC3_def outcome_simps getAt_no_panic goIndex_def goSlice_def Let_def split: if_splits)

lemmas dnssec_parsers_no_panic = ParseDNSKEY_no_panic ParseDS_no_panic ParseRRSIG_no_panic ParseNSEC_no_panic
  ParseNSEC3_no_panic

section \<open>The key tag\<close>

text \<open>RFC 4034, appendix B: the sum of the RDATA read as 16-bit big-endian numbers.\<close>

fun keySum :: "nat \<Rightarrow> bytes \<Rightarrow> nat" where
  "keySum i [] = 0"
| "keySum i (b # bs) = (if odd i then unat b else 256 * unat b) + keySum (i + 1) bs"

lemma unat_u8_less: "unat (b :: u8) \<le> 255"
proof -
  have "unat b < 2 ^ LENGTH(8)" by (rule unsigned_less)
  then show ?thesis by simp
qed

lemma keySum_le: "keySum i bs \<le> 65280 * length bs"
proof (induction bs arbitrary: i)
  case (Cons b bs)
  have "(if odd i then unat b else 256 * unat b) \<le> 65280" using unat_u8_less [of b] by simp
  with Cons.IH [of "i + 1"] show ?case unfolding keySum.simps length_Cons mult_Suc_right by linarith
qed simp

lemma unat_key_term: "unat (if odd i then ucast b else push_bit 8 (ucast b) :: u32) = (if odd i then unat (b :: u8) else 256 * unat b)"
  using unat_u8_less [of b]
  by (simp add: unat_word_ariths push_bit_eq_mult unsigned_ucast_eq take_bit_nat_eq_self)

lemma keyTagLoop_sum:
  "unat ac + keySum i bs < 2 ^ 32 \<Longrightarrow> unat (keyTagLoop i bs ac) = unat ac + keySum i bs"
proof (induction i bs ac rule: keyTagLoop.induct)
  case (2 i b bs ac)
  let ?t = "if odd i then ucast b else push_bit 8 (ucast b) :: u32"
  have "unat ac + unat ?t < 2 ^ LENGTH(32)"
    using "2.prems" unat_key_term [of i b] by (cases "odd i") simp_all
  then have "unat (ac + ?t) = unat ac + unat ?t" by (simp add: unat_add_lem [THEN iffD1])
  with "2.IH" "2.prems" unat_key_term [of i b] show ?case by (simp only: keyTagLoop.simps keySum.simps)
qed simp

lemma unat_low16: "unat (ucast (x AND 0xFFFF) :: u16) = unat (x :: u32) mod 65536"
proof -
  have "(0xFFFF :: u32) = mask 16" by (simp add: mask_eq_exp_minus_1)
  then show ?thesis
    by (simp only: take_bit_eq_mask [symmetric] unsigned_ucast_eq unsigned_take_bit_eq) (simp add: take_bit_eq_mod)
qed

lemma KeyTag_sum:
  assumes "length (PublicKey k) < 65532"
  defines "S \<equiv> keySum 0 (putUint16 (keyFlags k) @ [keyProtocol k, keyAlgorithm k] @ PublicKey k)"
  shows "unat (KeyTag k) = (S + S div 65536) mod 65536"
proof -
  let ?w = "putUint16 (keyFlags k) @ [keyProtocol k, keyAlgorithm k] @ PublicKey k"
  let ?ac = "keyTagLoop 0 ?w 0"
  have "S \<le> 65280 * length ?w" unfolding S_def by (rule keySum_le)
  also have "\<dots> \<le> 65280 * 65535" using assms(1) by simp
  finally have S: "S \<le> 4278124800" by simp
  have ac: "unat ?ac = S"
    using keyTagLoop_sum [of 0 0 ?w] S unfolding S_def by simp
  have hi: "unat (drop_bit 16 ?ac AND 0xFFFF) = S div 65536"
  proof -
    have "(0xFFFF :: u32) = mask 16" by (simp add: mask_eq_exp_minus_1)
    then have "unat (drop_bit 16 ?ac AND 0xFFFF) = take_bit 16 (drop_bit 16 (unat ?ac))"
      using ac S by (simp only: take_bit_eq_mask [symmetric] unsigned_take_bit_eq unsigned_drop_bit_eq)
        (simp add: take_bit_nat_eq_self)
    also have "\<dots> = S div 65536"
      using ac S by (simp add: drop_bit_eq_div take_bit_nat_eq_self)
    finally show ?thesis .
  qed
  have sum: "unat (?ac + (drop_bit 16 ?ac AND 0xFFFF)) = S + S div 65536"
    using ac hi S by (simp add: unat_word_ariths)
  show ?thesis unfolding KeyTag_def Let_def unat_low16 sum by (rule refl)
qed

section \<open>Type bitmaps\<close>

text \<open>The wire form of a window block: window number, length, bitmap.\<close>

definition windowBlock :: "u8 \<times> bytes \<Rightarrow> bytes" where
  "windowBlock = (\<lambda>(w, bm). w # of_nat (length bm) # bm)"

text \<open>The type \<open>t\<close> is present in a window when its bit is set, most significant bit first.\<close>

definition present :: "nat \<Rightarrow> u8 \<times> bytes \<Rightarrow> bool" where
  "present t = (\<lambda>(w, bm). t div 256 = unat w \<and> t mod 256 div 8 < length bm \<and>
     bit (bm ! (t mod 256 div 8)) (7 - t mod 8))"

lemma and_high_bit: "k < 8 \<Longrightarrow> b AND drop_bit k (0x80 :: u8) \<noteq> 0 \<longleftrightarrow> bit b (7 - k)"
proof -
  assume k: "k < 8"
  have "drop_bit k (0x80 :: u8) = push_bit (7 - k) 1"
  proof -
    have "k \<in> {0,1,2,3,4,5,6,7}" using k by auto
    then show ?thesis by (elim insertE emptyE) simp_all
  qed
  then show ?thesis
    by (simp add: push_bit_eq_mult and_exp_eq_0_iff_not_bit)
qed

lemma set_windowTypes:
  assumes "length bm \<le> 32"
  shows "t \<in> set (windowTypes (unat w) bm) \<longleftrightarrow> present (unat t) (w, bm)"
proof
  assume "t \<in> set (windowTypes (unat w) bm)"
  then obtain i k where i: "i < length bm" and k: "k < 8" "bm ! i AND drop_bit k 0x80 \<noteq> 0"
    and t: "t = of_nat (unat w * 256 + i * 8 + k)"
    by (auto simp: windowTypes_def byteTypes_def)
  have "unat w * 256 + i * 8 + k < 65536" using unat_u8_less [of w] i k(1) assms by linarith
  then have t': "unat t = unat w * 256 + (i * 8 + k)"
    unfolding t by (simp only: unat_of_nat_u16 add.assoc)
  have r: "i * 8 + k < 256" using i k(1) assms by linarith
  have d: "unat t div 256 = unat w" and m: "unat t mod 256 = i * 8 + k" unfolding t' using r by simp_all
  have "unat t mod 256 div 8 = i" using m k(1) by simp
  moreover have "unat t mod 8 = k" unfolding t' using k(1) by presburger
  ultimately show "present (unat t) (w, bm)"
    using i k and_high_bit [OF k(1)] d by (simp add: present_def)
next
  assume p: "present (unat t) (w, bm)"
  let ?i = "unat t mod 256 div 8" and ?k = "unat t mod 8"
  have w: "unat w = unat t div 256" using p by (simp add: present_def)
  have N: "n = n div 256 * 256 + n mod 256 div 8 * 8 + n mod 8" for n :: nat
  proof -
    have "n mod 256 mod 8 = n mod 8" by (rule mod_mod_cancel) simp
    then show ?thesis using div_mult_mod_eq [of n 256] div_mult_mod_eq [of "n mod 256" 8] by linarith
  qed
  have eq: "unat t = unat w * 256 + ?i * 8 + ?k" unfolding w by (rule N)
  have "t = of_nat (unat t)" by simp
  also have "\<dots> = of_nat (unat w * 256 + ?i * 8 + ?k)" by (rule arg_cong [OF eq])
  finally have "t = of_nat (unat w * 256 + ?i * 8 + ?k)" .
  moreover have "?k \<in> set (filter (\<lambda>k. bm ! ?i AND drop_bit k 0x80 \<noteq> 0) [0..<8])"
    using p and_high_bit [of ?k "bm ! ?i"] by (simp add: present_def)
  ultimately have "t \<in> set (byteTypes (unat w) ?i (bm ! ?i))"
    unfolding byteTypes_def set_map by (rule image_eqI)
  moreover have "?i \<in> set [0..<length bm]" using p by (simp add: present_def)
  ultimately show "t \<in> set (windowTypes (unat w) bm)"
    unfolding windowTypes_def set_concat set_map by (intro UnionI [OF imageI [OF imageI]])
qed

lemma bitMapsLoop_blocks:
  assumes "\<forall>(w, bm) \<in> set ws. length bm \<le> 255"
  shows "bitMapsLoop (pre @ concat (map windowBlock ws)) (length pre) acc =
     Ret (acc @ concat (map (\<lambda>(w, bm). windowTypes (unat w) bm) ws))"
  using assms
proof (induction ws arbitrary: pre acc)
  case Nil
  then show ?case by (simp add: bitMapsLoop.simps)
next
  case (Cons x ws)
  obtain w bm where x: "x = (w, bm)" by fastforce
  let ?d = "pre @ concat (map windowBlock (x # ws))"
  have len: "unat (of_nat (length bm) :: u8) = length bm"
    using Cons.prems x by (simp add: unsigned_of_nat take_bit_nat_eq_self)
  have d: "?d = (pre @ windowBlock x) @ concat (map windowBlock ws)" by simp
  have "bitMapsLoop ?d (length pre) acc =
      bitMapsLoop ?d (length (pre @ windowBlock x)) (acc @ windowTypes (unat w) bm)"
    using len by (subst bitMapsLoop.simps) (simp add: x windowBlock_def nth_append Let_def)
  also have "\<dots> = Ret ((acc @ windowTypes (unat w) bm) @ concat (map (\<lambda>(w, bm). windowTypes (unat w) bm) ws))"
    unfolding d using Cons.prems by (intro Cons.IH) simp
  finally show ?case by (simp add: x)
qed

end
