(* ===== verification/Dns_Properties.thy ===== *)
theory Dns_Properties
  imports Dns_RoundTrip Dns_RData
begin

text \<open>
  The properties of package \<open>dns\<close>, each stated over the model's definitions: the wire format
  is read and written without panics, the decoder computes the grammar of RFC 1035, and what
  is packed is what is unpacked.
\<close>

text \<open>
  C1. Round trip.  A well-formed message that fits its buffer is packed, and unpacking the
  bytes gives back the header (with the counts set by \<open>Pack\<close>), the questions and every
  record of the three sections, whatever name compression did; only the RDATA offsets, which
  the wire does not carry, may differ.
\<close>

theorem Unpack_Pack:
  assumes "wf_message m" and "message_size m \<le> length buf" and "length buf < 2 ^ 16"
  shows "\<exists>bs m'. Pack m buf = Ret (updateCounts m, bs) \<and> Unpack bs = Ret m' \<and>
     msgHeader m' = msgHeader (updateCounts m) \<and> Questions m' = Questions m \<and>
     map strip (Answers m') = map strip (Answers m) \<and>
     map strip (Authority m') = map strip (Authority m) \<and>
     map strip (Additional m') = map strip (Additional m) \<and> Raw m' = bs"
proof -
  obtain bs where "Pack m buf = Ret (updateCounts m, bs)"
    using Pack_returns_lemma [OF assms(1,2)] by blast
  with Unpack_Pack_lemma [OF this assms(1,3)] show ?thesis by blast
qed

definition sample_message :: Message where
  "sample_message =
     \<lparr>msgHeader = \<lparr>ID = 7, Flags = 0x8180, QDCount = 0, ANCount = 0, NSCount = 0, ARCount = 0\<rparr>,
      Questions = [\<lparr>qName = ''b.c'', qType = TypeNS, qClass = ClassIN\<rparr>],
      Answers = [\<lparr>rrName = ''b.c'', rrType = TypeNS, rrClass = ClassIN, rrTTL = 60, rrRDLength = 7,
                  rrRData = [1, 0x61, 1, 0x62, 1, 0x63, 0], rrRDataOffset = 0\<rparr>],
      Authority = [], Additional = [], msgEDNS0 = None, Raw = []\<rparr>"

lemma sample_names: "splitLabels ''b.c'' = [''b'', ''c'']" "valid_labels [''a'', ''b'', ''c'']"
  "wireName [''a'', ''b'', ''c''] = [1, 0x61, 1, 0x62, 1, 0x63, 0]"
  by (simp_all add: splitLabels_def TrimSuffix_def HasSuffix_def valid_labels_def valid_label_def
      wireLabel_def bytes_of_def byte_of_def)

lemma sample_rdata: "name_rdata 0 (\<lambda>x. x = []) [1, 0x61, 1, 0x62, 1, 0x63, 0]"
  using name_rdata_wireName [OF sample_names(2), of "\<lambda>x. x = []" "[]" "[]" 0]
  by (simp add: sample_names(3) del: wireName_simps)

lemma sample_wf: "wf_message sample_message"
  using sample_rdata sample_names(1)
  by (simp add: wf_message_def wf_rr_def wf_rdata_def sample_message_def valid_name_def valid_labels_def
      valid_label_def)

lemma sample_size: "message_size sample_message \<le> 512"
  by (simp add: message_size_def rr_size_def sample_message_def sample_names)

theorem Unpack_Pack_witness:
  "\<exists>bs m'. Pack sample_message (replicate 512 0) = Ret (updateCounts sample_message, bs) \<and>
     Unpack bs = Ret m' \<and> Questions m' = Questions sample_message \<and>
     map strip (Answers m') = map strip (Answers sample_message)"
  using Unpack_Pack [OF sample_wf, of "replicate 512 0"] sample_size by auto

text \<open>
  C17. No input makes \<open>Unpack\<close> panic: every index and every slice bound of the decoding path
  is in range on every byte string.
\<close>

theorem Unpack_no_panic: "Unpack buf \<noteq> Panic"
  by (rule Unpack_no_panic_lemma)

text \<open>
  What \<open>Unpack\<close> accepts is consistent: the four section lengths are the header's counts,
  every name is at most 255 bytes, every record's RDLength is the length of its RDATA (modulo
  \<open>2 ^ 16\<close>), and the message is at least as long as its parts.
\<close>

theorem Unpack_consistent:
  assumes "Unpack buf = Ret m"
  shows "length (Questions m) = unat (QDCount (msgHeader m)) \<and> length (Answers m) = unat (ANCount (msgHeader m)) \<and>
     length (Authority m) = unat (NSCount (msgHeader m)) \<and> length (Additional m) = unat (ARCount (msgHeader m)) \<and>
     list_all (\<lambda>q. length (qName q) \<le> 255) (Questions m) \<and>
     list_all rr_wf (Answers m @ Authority m @ Additional m) \<and> Raw m = buf \<and>
     12 + 5 * length (Questions m) + length (Answers m) + length (Authority m) + length (Additional m) \<le> length buf"
proof -
  from assms obtain h r o1 o2 o3 o4 where h: "Header_Unpack (newWireReader buf) = Ret (h, r)" "12 \<le> length buf"
    and q: "unpackQuestions buf (roffset r) (unat (QDCount h)) = Ret (Questions m, o1)"
    and a: "unpackRRs buf o1 (unat (ANCount h)) = Ret (Answers m, o2)"
    and n: "unpackRRs buf o2 (unat (NSCount h)) = Ret (Authority m, o3)"
    and d: "unpackRRs buf o3 (unat (ARCount h)) = Ret (Additional m, o4)"
    and m: "msgHeader m = h" "Raw m = buf"
    by (auto simp: Unpack_def outcome_simps split: if_splits)
  have "roffset r = 12" using h(1)
    by (auto simp: Header_Unpack_def outcome_simps read_Ret_iff newWireReader_def)
  with unpackQuestions_Ret [OF q] unpackRRs_Ret [OF a] unpackRRs_Ret [OF n] unpackRRs_Ret [OF d] m h(2)
  show ?thesis by auto
qed

definition sample_query :: bytes where
  "sample_query = [0, 7, 1, 0, 0, 1, 0, 0, 0, 0, 0, 0, 1, 0x61, 0, 0, 1, 0, 1]"

definition sample_query_message :: Message where
  "sample_query_message =
     \<lparr>msgHeader = \<lparr>ID = 7, Flags = 256, QDCount = 1, ANCount = 0, NSCount = 0, ARCount = 0\<rparr>,
      Questions = [\<lparr>qName = ''a'', qType = TypeA, qClass = ClassIN\<rparr>],
      Answers = [], Authority = [], Additional = [], msgEDNS0 = None, Raw = sample_query\<rparr>"

lemma sample_query_name: "DecodeName sample_query 12 = Ret (''a'', 15)"
  by (simp add: DecodeName_def sample_query_def decodeLoop.simps goSlice_def Let_def name_limits
      compressionMask_def string_of_def char_of_byte_eq_iff byte_of_def)

lemma sample_query_unpack: "Unpack sample_query = Ret sample_query_message"
  using sample_query_name
  by (simp add: Unpack_def sample_query_message_def Header_Unpack_def UnpackQuestion_def readUint16_def
      remaining_def newWireReader_def getUint16_def sample_query_def push_bit_eq_mult
      del: add_2_eq_Suc add_2_eq_Suc')

theorem Unpack_consistent_witness:
  "Unpack sample_query = Ret sample_query_message \<and> length (Questions sample_query_message) = 1 \<and>
     Raw sample_query_message = sample_query"
  using Unpack_consistent [OF sample_query_unpack] sample_query_unpack by (simp add: sample_query_message_def)

text \<open>
  C20. The decoder is exact: \<open>DecodeName\<close> returns a name and an end offset precisely when the
  grammar of RFC 1035 (labels, backward pointers, root) derives these labels at this offset
  with at most 128 pointers and at most 255 characters.  In particular a loop of pointers,
  a forward pointer and a truncated label are rejected, since the grammar derives nothing.
\<close>

theorem DecodeName_grammar:
  "DecodeName msg off = Ret (s, e) \<longleftrightarrow>
     (\<exists>ls k. name_at msg off ls k e \<and> k \<le> 128 \<and> s = Join dot ls \<and> length s \<le> 255)"
  by (rule DecodeName_iff)

text \<open>
  Compression is transparent: after \<open>EncodeName\<close> on a writer whose table is sound, the
  old bytes are unchanged, the table is still sound, and decoding at the old cursor, whatever
  is written later, returns the name and the new cursor.
\<close>

theorem EncodeName_DecodeName:
  assumes "EncodeName w (Join dot ls) = Ret w'" and "sound w" and "valid_labels ls"
  shows "sound w' \<and> prefix (written w) (written w') \<and>
     (\<forall>post. DecodeName (written w' @ post) (woffset w) = Ret (Join dot ls, woffset w'))"
  using EncodeName_sound [OF assms] by (auto simp: extends_def prefix_def)

lemma sound_new: "sound (newWireWriter buf)"
  by (simp add: sound_def)

theorem EncodeName_DecodeName_witness:
  "\<exists>w'. EncodeName (newWireWriter (replicate 16 0)) (Join dot [''a'', ''b'', ''c'']) = Ret w' \<and>
     DecodeName (written w') 0 = Ret (Join dot [''a'', ''b'', ''c''], woffset w')"
proof -
  obtain w' where w': "EncodeName (newWireWriter (replicate 16 0)) (Join dot [''a'', ''b'', ''c'']) = Ret w'"
    using needs_name [OF sample_names(2), unfolded needs_def sample_names(3), rule_format,
        of "newWireWriter (replicate 16 0)"]
    by (auto simp: newWireWriter_def)
  with EncodeName_DecodeName [OF w' sound_new sample_names(2)] show ?thesis
    by (auto simp: newWireWriter_def dest: spec [of _ "[]"])
qed

text \<open>
  The uncompressed encoder, a single pass over the string, produces the label sequence of
  the name, and decoding it in any surrounding message returns the name.
\<close>

theorem encodePlainName_DecodeName:
  assumes "valid_labels ls"
  shows "\<exists>b. encodePlainName (Join dot ls) = Ret b \<and> b = concat (map (\<lambda>l. of_nat (length l) # bytes_of l) ls) @ [0] \<and>
     DecodeName (pre @ b @ post) (length pre) = Ret (Join dot ls, length pre + length b)"
  using DecodeName_wireName [OF assms] assms
  by (simp add: encodePlainName_Join valid_labels_def wireName_def wireLabel_def [abs_def])

theorem encodePlainName_DecodeName_witness:
  "\<exists>b. encodePlainName (Join dot [''a'', ''b'', ''c'']) = Ret b \<and>
     DecodeName ([1, 2] @ b @ [9]) (length [1 :: u8, 2]) = Ret (Join dot [''a'', ''b'', ''c''], length [1 :: u8, 2] + length b)"
  using encodePlainName_DecodeName [OF sample_names(2), of "[1, 2]" "[9]"] by blast

text \<open>
  The flag builder and the flag accessors agree: whatever the setters are given is what
  the accessors read from the built word, with opcode and response code cut to four bits.
\<close>

theorem FlagBuilder_fields:
  "let h = h0\<lparr>Flags := Build (SetRCODE rc (SetCD cd (SetAD ad (SetRA ra (SetRD rd (SetTC tc (SetAA aa
     (SetOpcode opc (SetQR qr NewFlagBuilder)))))))))\<rparr> in
   QR h = qr \<and> Opcode h = opc AND 15 \<and> AA h = aa \<and> TC h = tc \<and> RD h = rd \<and> RA h = ra \<and>
     AD h = ad \<and> CD h = cd \<and> RCODE h = rc AND 15"
proof -
  let ?f = "Build (SetRCODE rc (SetCD cd (SetAD ad (SetRA ra (SetRD rd (SetTC tc (SetAA aa
     (SetOpcode opc (SetQR qr NewFlagBuilder)))))))))"
  have "Opcode (h0\<lparr>Flags := ?f\<rparr>) = opc AND 15"
    by (rule bit_word_eqI, unfold bit_and_iff bit_15) (auto simp: flag_bit_simps)
  moreover have "RCODE (h0\<lparr>Flags := ?f\<rparr>) = rc AND 15"
    by (rule bit_word_eqI, unfold bit_and_iff bit_15) (auto simp: flag_bit_simps)
  ultimately show ?thesis
    unfolding flag_bits Let_def by (simp add: flag_bit_simps)
qed

text \<open>
  OPT round trip: the record \<open>BuildOPTWithOptions\<close> builds is parsed back into the same
  UDP size, DO bit and options, with extended RCODE and version zero, as long as the options
  fit a 16-bit RDLENGTH.
\<close>

theorem ParseOPT_BuildOPT:
  assumes "length (concat (map optBytes opts)) < 2 ^ 16"
  shows "ParseOPT (BuildOPTWithOptions sz dof opts) =
     Ret \<lparr>UDPSize = sz, ExtRCODE = 0, Version = 0, DOFlag = dof, Options = opts\<rparr>"
proof -
  let ?b = "concat (map optBytes opts)"
  have "optLoop ?b (unat (of_nat (length ?b) :: u16)) 0 [] = Ret opts"
    using optLoop_optBytes [of "[]" opts "[]"] assms by (simp add: unsigned_of_nat take_bit_nat_eq_self)
  moreover have "optLoop [] 0 0 [] = Ret []" by (simp add: optLoop.simps)
  ultimately show ?thesis
    by (cases "opts = []") (simp_all add: ParseOPT_def BuildOPTWithOptions_def BuildOPT_def Let_def)
qed

theorem ParseOPT_BuildOPT_witness:
  "ParseOPT (BuildOPTWithOptions 1232 True [BuildEDEOption 6 ''bogus'']) =
     Ret \<lparr>UDPSize = 1232, ExtRCODE = 0, Version = 0, DOFlag = True, Options = [BuildEDEOption 6 ''bogus'']\<rparr>"
  by (rule ParseOPT_BuildOPT) (simp add: BuildEDEOption_def)

text \<open>
  Client subnet: for an IPv4 subnet with a prefix of at most 32 bits, or a proper IPv6 one
  of at most 128, \<open>BuildECS\<close> sends exactly the bytes the prefix needs with the spare bits
  cleared, and \<open>ParseECS\<close> on the other side sees the address as \<open>TruncateIP\<close> cuts it.
\<close>

theorem ParseECS_BuildECS:
  assumes "f = 1 \<and> length ip = 4 \<and> p \<le> 32 \<or> f = 2 \<and> length ip = 16 \<and> To4 ip = None \<and> p \<le> 128"
  shows "\<exists>opt. BuildECS \<lparr>Family = f, SourcePrefixLen = p, ScopePrefixLen = s, ecsAddress = ip\<rparr> = Ret opt \<and>
     length (optData opt) = 4 + (unat p + 7) div 8 \<and>
     ParseECS (optData opt) = Ret \<lparr>Family = f, SourcePrefixLen = p, ScopePrefixLen = s, ecsAddress = TruncateIP ip p\<rparr>"
proof -
  have p: "unat p \<le> 8 * length ip" using assms by (auto simp: word_le_nat_alt)
  have "(case To4 ip of Some v4 \<Rightarrow> v4 | None \<Rightarrow> (case To16 ip of Some v6 \<Rightarrow> v6 | None \<Rightarrow> replicate 16 0)) = ip"
    using assms by (auto simp: To4_def To16_def split: if_splits)
  note t = TruncateIP_clearAfter [OF this, of p]
  have b: "BuildECS \<lparr>Family = f, SourcePrefixLen = p, ScopePrefixLen = s, ecsAddress = ip\<rparr> =
      Ret \<lparr>optCode = EDNSOptionCodeECS, optData = putUint16 f @ [p, s] @ ecsBody (unat p) ip\<rparr>"
    using assms p by (subst BuildECS_body [of _ ip]) (auto simp: To4_def To16_def)
  have r: "ParseECS (putUint16 f @ [p, s] @ ecsBody (unat p) ip) =
      Ret \<lparr>Family = f, SourcePrefixLen = p, ScopePrefixLen = s, ecsAddress = TruncateIP ip p\<rparr>"
    using assms p t by (subst ParseECS_body [of f "length ip"]) auto
  have "length (ecsBody (unat p) ip) = (unat p + 7) div 8" using p by (simp add: ecsBody_def)
  with b r show ?thesis by simp
qed

theorem ParseECS_BuildECS_witness:
  "\<exists>opt. BuildECS \<lparr>Family = 1, SourcePrefixLen = 20, ScopePrefixLen = 0, ecsAddress = [192, 168, 255, 9]\<rparr> = Ret opt \<and>
     ParseECS (optData opt) = Ret \<lparr>Family = 1, SourcePrefixLen = 20, ScopePrefixLen = 0,
       ecsAddress = TruncateIP [192, 168, 255, 9] 20\<rparr>"
  using ParseECS_BuildECS [of 1 "[192, 168, 255, 9]" 20 0] by auto

text \<open>
  C8. No RDATA parser panics: whatever the bytes of the record and the offset, each of the
  fifteen parsers returns a value or an error; no index or slice is out of range.  The resolver and the validator, which
  skip a record that does not parse, therefore never see a panic of a parser.
\<close>

theorem rdata_parsers_no_panic:
  "ParseA rd \<noteq> Panic \<and> ParseAAAA rd \<noteq> Panic \<and> ParseNS rd off \<noteq> Panic \<and> ParseCNAME rd off \<noteq> Panic \<and>
   ParsePTR rd off \<noteq> Panic \<and> ParseDNAME rd off \<noteq> Panic \<and> ParseSOA rd off \<noteq> Panic \<and> ParseMX rd off \<noteq> Panic \<and>
   ParseSRV rd off \<noteq> Panic \<and> ParseTXT rd \<noteq> Panic \<and> ParseDNSKEY rd \<noteq> Panic \<and> ParseDS rd \<noteq> Panic \<and>
   ParseRRSIG rd off \<noteq> Panic \<and> ParseNSEC rd off \<noteq> Panic \<and> ParseNSEC3 rd \<noteq> Panic"
  by (intro conjI name_parsers_no_panic dnssec_parsers_no_panic ParseSOA_no_panic)

text \<open>
  The key tag is the one of RFC 4034, appendix B: for every key of fewer than 65532
  bytes the 32-bit accumulator does not wrap, and the tag is the 16-bit sum of the RDATA with
  its carry added once, modulo \<open>2 ^ 16\<close>.
\<close>

theorem KeyTag_reference:
  assumes "length (PublicKey k) < 65532"
  shows "unat (KeyTag k) =
     (keySum 0 (putUint16 (keyFlags k) @ [keyProtocol k, keyAlgorithm k] @ PublicKey k) +
      keySum 0 (putUint16 (keyFlags k) @ [keyProtocol k, keyAlgorithm k] @ PublicKey k) div 65536) mod 65536"
  using assms by (rule KeyTag_sum)

theorem KeyTag_reference_witness:
  "unat (KeyTag \<lparr>keyFlags = 257, keyProtocol = 3, keyAlgorithm = 8, PublicKey = [1, 2, 3]\<rparr>) = 2059"
  using KeyTag_reference [of "\<lparr>keyFlags = 257, keyProtocol = 3, keyAlgorithm = 8, PublicKey = [1, 2, 3]\<rparr>"]
  by (simp add: putUint16_def)

text \<open>
  Type bitmaps: on a sequence of window blocks of at most 32 bytes the decoder returns a
  type exactly when its bit is set in the block of its window.
\<close>

theorem parseTypeBitMaps_present:
  assumes "\<forall>(w, bm) \<in> set ws. length bm \<le> 32"
  shows "\<exists>types. parseTypeBitMaps (concat (map windowBlock ws)) = Ret types \<and>
     (\<forall>t. t \<in> set types \<longleftrightarrow> (\<exists>x \<in> set ws. present (unat t) x))"
proof -
  have "\<forall>(w, bm) \<in> set ws. length bm \<le> 255" using assms by auto
  from bitMapsLoop_blocks [OF this, of "[]" "[]"]
  have "parseTypeBitMaps (concat (map windowBlock ws)) = Ret (concat (map (\<lambda>(w, bm). windowTypes (unat w) bm) ws))"
    by (simp add: parseTypeBitMaps_def)
  moreover have "t \<in> set (concat (map (\<lambda>(w, bm). windowTypes (unat w) bm) ws)) \<longleftrightarrow> (\<exists>x \<in> set ws. present (unat t) x)" for t
    using assms by (auto simp: set_windowTypes split: prod.splits) (metis case_prodD set_windowTypes prod.exhaust)+
  ultimately show ?thesis by blast
qed

theorem parseTypeBitMaps_present_witness:
  "\<exists>types. parseTypeBitMaps [0, 1, 0x40] = Ret types \<and> TypeA \<in> set types \<and> TypeNS \<notin> set types"
proof -
  have "\<forall>(w, bm) \<in> set [(0 :: u8, [0x40 :: u8])]. length bm \<le> 32" by simp
  from parseTypeBitMaps_present [OF this] obtain types where
    "parseTypeBitMaps [0, 1, 0x40] = Ret types" "\<forall>t. t \<in> set types \<longleftrightarrow> present (unat t) (0, [0x40])"
    by (auto simp: windowBlock_def)
  then show ?thesis by (auto simp: present_def bit_numeral_rec)
qed

end
