(* ===== verification/Cache_Entry.thy ===== *)
theory Cache_Entry
  imports Dns_RData "HOL-Library.AList"
begin

text \<open>
  Cache entries (\<open>cache/entry.go\<close>).  A \<open>time.Time\<close> is a number of nanoseconds on the
  monotonic clock; a function that reads the clock takes the reading as its argument
  \<open>now\<close>.  \<open>uint32(time.Since(t).Seconds())\<close> is the whole number of elapsed seconds; the
  rounding of the intermediate \<open>float64\<close> (visible only after about 97 days, by one nanosecond)
  is not modelled.  An \<open>*Entry\<close> is a record with the number of its allocation in \<open>entryId\<close>,
  so that comparing pointers is comparing these numbers.
\<close>

type_synonym time = nat

definition second :: time where "second = 1000000000"

type_synonym NegativeType = u8

abbreviation NegNone :: NegativeType where "NegNone \<equiv> 0"
abbreviation NegNXDomain :: NegativeType where "NegNXDomain \<equiv> 1"
abbreviation NegNoData :: NegativeType where "NegNoData \<equiv> 2"
abbreviation NegServFail :: NegativeType where "NegServFail \<equiv> 3"

record Entry =
  entryId :: nat
  Records :: "ResourceRecord list"
  entAuthority :: "ResourceRecord list"
  InsertedAt :: time
  OrigTTL :: u32
  Negative :: bool
  NegType :: NegativeType
  entSOA :: "ResourceRecord option"
  entRCODE :: u8
  DNSSECStatus :: string
  ECSScope :: u8
  prefetched :: bool

text \<open>\<open>CompareAndSwap(0, 1)\<close>: whether the swap happened, and the entry after it.\<close>

definition tryPrefetch :: "Entry \<Rightarrow> bool \<times> Entry" where
  "tryPrefetch e = (if prefetched e then (False, e) else (True, e\<lparr>prefetched := True\<rparr>))"

definition RemainingTTL :: "time \<Rightarrow> Entry \<Rightarrow> u32" where
  "RemainingTTL now e =
     (let elapsed = (of_nat ((now - InsertedAt e) div second) :: u32)
      in if OrigTTL e \<le> elapsed then 0 else OrigTTL e - elapsed)"

definition Expired :: "time \<Rightarrow> Entry \<Rightarrow> bool" where
  "Expired now e \<longleftrightarrow> RemainingTTL now e = 0"

text \<open>
  The copy is a new allocation (its number is irrelevant, no caller stores it), with every
  TTL of the two sections replaced; the SOA pointer is shared.
\<close>

definition WithDecayedTTL :: "Entry \<Rightarrow> u32 \<Rightarrow> Entry" where
  "WithDecayedTTL e ttl =
     \<lparr>entryId = 0,
      Records = map (\<lambda>rr. rr\<lparr>rrTTL := ttl\<rparr>) (Records e),
      entAuthority = map (\<lambda>rr. rr\<lparr>rrTTL := ttl\<rparr>) (entAuthority e),
      InsertedAt = InsertedAt e, OrigTTL = OrigTTL e, Negative = Negative e, NegType = NegType e,
      entSOA = entSOA e, entRCODE = entRCODE e, DNSSECStatus = DNSSECStatus e, ECSScope = ECSScope e,
      prefetched = False\<rparr>"

text \<open>When the entry expires: \<open>InsertedAt.Add(OrigTTL * time.Second)\<close>.\<close>

definition expiry :: "Entry \<Rightarrow> time" where
  "expiry e = InsertedAt e + unat (OrigTTL e) * second"

section \<open>Lemmas\<close>

text \<open>The age of an entry stays below the range of \<open>uint32\<close> seconds (136 years).\<close>

definition in_range :: "time \<Rightarrow> Entry \<Rightarrow> bool" where
  "in_range now e \<longleftrightarrow> (now - InsertedAt e) div second < 2 ^ 32"

lemma unat_u32_of_nat: "n < 2 ^ 32 \<Longrightarrow> unat (of_nat n :: u32) = n"
  by (simp add: unsigned_of_nat take_bit_nat_eq_self)

lemma unat_RemainingTTL:
  assumes "in_range now e"
  shows "unat (RemainingTTL now e) = unat (OrigTTL e) - (now - InsertedAt e) div second"
  using assms unat_u32_of_nat [of "(now - InsertedAt e) div second"]
  by (auto simp: RemainingTTL_def Let_def in_range_def word_le_nat_alt unat_sub)

lemma RemainingTTL_le: "RemainingTTL now e \<le> OrigTTL e"
  by (auto simp: RemainingTTL_def Let_def word_le_nat_alt unat_sub)

text \<open>The two notions of expiry of the sources agree: no TTL left, and the deadline reached.\<close>

lemma Expired_iff_expiry:
  assumes "in_range now e" and "InsertedAt e \<le> now"
  shows "Expired now e \<longleftrightarrow> expiry e \<le> now"
proof -
  have "Expired now e \<longleftrightarrow> unat (OrigTTL e) \<le> (now - InsertedAt e) div second"
    using unat_RemainingTTL [OF assms(1)] unfolding Expired_def by (simp add: word_unat_eq_iff)
  also have "\<dots> \<longleftrightarrow> unat (OrigTTL e) * second \<le> now - InsertedAt e"
    by (rule less_eq_div_iff_mult_less_eq) (simp add: second_def)
  also have "\<dots> \<longleftrightarrow> expiry e \<le> now" using assms(2) by (auto simp: expiry_def)
  finally show ?thesis .
qed

lemma WithDecayedTTL_simps [simp]:
  "InsertedAt (WithDecayedTTL e r) = InsertedAt e" "OrigTTL (WithDecayedTTL e r) = OrigTTL e"
  "Negative (WithDecayedTTL e r) = Negative e" "NegType (WithDecayedTTL e r) = NegType e"
  "entRCODE (WithDecayedTTL e r) = entRCODE e" "DNSSECStatus (WithDecayedTTL e r) = DNSSECStatus e"
  "ECSScope (WithDecayedTTL e r) = ECSScope e" "entSOA (WithDecayedTTL e r) = entSOA e"
  "length (Records (WithDecayedTTL e r)) = length (Records e)"
  by (simp_all add: WithDecayedTTL_def)

end
