(* ===== verification/Cache_Heap.thy ===== *)
theory Cache_Heap
  imports Cache_Entry "HOL-Library.Multiset"
begin

text \<open>
  The eviction queue (\<open>cache/eviction_heap.go\<close>): a slice ordered by \<open>container/heap\<close>, whose
  sift-up and sift-down loops are modelled as they are written.  The interface the shard
  relies on is the locale \<open>min_queue\<close> (a bag of items from which the smallest is taken); it
  is interpreted on the heap operations.
\<close>

section \<open>Keys, items, and the methods of \<open>heap.Interface\<close>\<close>

record cacheKey =
  keyName :: string
  keyType :: u16
  keyClass :: u16
  ecsPrefix :: string

record evictionItem =
  itemKey :: cacheKey
  itemEntry :: nat
  expiresAt :: time

type_synonym evictionQueue = "evictionItem list"

definition Len :: "evictionQueue \<Rightarrow> nat" where
  "Len q = length q"

definition Less :: "evictionQueue \<Rightarrow> nat \<Rightarrow> nat \<Rightarrow> bool" where
  "Less q i j \<longleftrightarrow> expiresAt (q ! i) < expiresAt (q ! j)"

definition Swap :: "evictionQueue \<Rightarrow> nat \<Rightarrow> nat \<Rightarrow> evictionQueue" where
  "Swap q i j = q[i := q ! j, j := q ! i]"

definition Push :: "evictionQueue \<Rightarrow> evictionItem \<Rightarrow> evictionQueue" where
  "Push q x = q @ [x]"

definition Pop :: "evictionQueue \<Rightarrow> evictionItem \<times> evictionQueue" where
  "Pop q = (q ! (length q - 1), take (length q - 1) q)"

section \<open>Package \<open>container/heap\<close>\<close>

text \<open>The loop of \<open>heap.up\<close>; the parent of 0 is 0, as Go's division truncates towards zero.\<close>

function up :: "evictionQueue \<Rightarrow> nat \<Rightarrow> evictionQueue" where
  "up q j =
     (let i = (j - 1) div 2 in
      if i = j \<or> \<not> Less q j i then q else up (Swap q i j) i)"
  by pat_completeness auto
termination
  by (relation "measure (\<lambda>(q, j). j)") auto

text \<open>The loop of \<open>heap.down\<close> on the first \<open>n\<close> elements.\<close>

function down :: "evictionQueue \<Rightarrow> nat \<Rightarrow> nat \<Rightarrow> evictionQueue" where
  "down q i n =
     (let j1 = 2 * i + 1 in
      if n \<le> j1 then q
      else (let j2 = j1 + 1; j = (if j2 < n \<and> Less q j2 j1 then j2 else j1)
            in if \<not> Less q j i then q else down (Swap q i j) j n))"
  by pat_completeness auto
termination
  by (relation "measure (\<lambda>(q, i, n). n - i)") (auto split: if_splits)

declare up.simps [simp del] down.simps [simp del]

definition heapPush :: "evictionQueue \<Rightarrow> evictionItem \<Rightarrow> evictionQueue" where
  "heapPush q x = (let q = Push q x in up q (Len q - 1))"

definition heapPop :: "evictionQueue \<Rightarrow> evictionItem \<times> evictionQueue" where
  "heapPop q = (let n = Len q - 1; q = Swap q 0 n; q = down q 0 n in Pop q)"

text \<open>\<open>heap.Init\<close>: sift down every inner node, the last one first.\<close>

fun heapInitLoop :: "evictionQueue \<Rightarrow> nat \<Rightarrow> evictionQueue" where
  "heapInitLoop q 0 = q"
| "heapInitLoop q (Suc i) = heapInitLoop (down q i (Len q)) i"

definition heapInit :: "evictionQueue \<Rightarrow> evictionQueue" where
  "heapInit q = heapInitLoop q (Len q div 2)"

section \<open>The interface\<close>

locale min_queue =
  fixes items :: "'q \<Rightarrow> 'a multiset"
    and inv :: "'q \<Rightarrow> bool"
    and put :: "'q \<Rightarrow> 'a \<Rightarrow> 'q"
    and take_min :: "'q \<Rightarrow> 'a \<times> 'q"
    and prio :: "'a \<Rightarrow> nat"
  assumes put_inv: "inv q \<Longrightarrow> inv (put q x)"
    and put_items: "inv q \<Longrightarrow> items (put q x) = add_mset x (items q)"
    and take_inv: "inv q \<Longrightarrow> items q \<noteq> {#} \<Longrightarrow> take_min q = (x, q') \<Longrightarrow> inv q'"
    and take_items: "inv q \<Longrightarrow> items q \<noteq> {#} \<Longrightarrow> take_min q = (x, q') \<Longrightarrow> items q = add_mset x (items q')"
    and take_least: "inv q \<Longrightarrow> items q \<noteq> {#} \<Longrightarrow> take_min q = (x, q') \<Longrightarrow> y \<in># items q \<Longrightarrow> prio x \<le> prio y"
begin

lemma take_member: "inv q \<Longrightarrow> items q \<noteq> {#} \<Longrightarrow> take_min q = (x, q') \<Longrightarrow> x \<in># items q"
  by (auto dest: take_items)

lemma take_least_rest:
  "inv q \<Longrightarrow> items q \<noteq> {#} \<Longrightarrow> take_min q = (x, q') \<Longrightarrow> y \<in># items q' \<Longrightarrow> prio x \<le> prio y"
  using take_least take_items by (metis union_single_eq_member add_mset_add_single mset_subset_eqD subset_mset.le_iff_add union_commute)

lemma take_size: "inv q \<Longrightarrow> items q \<noteq> {#} \<Longrightarrow> take_min q = (x, q') \<Longrightarrow> size (items q') < size (items q)"
  by (auto dest: take_items)

end

section \<open>The heap order\<close>

text \<open>The first \<open>n\<close> elements are in heap order; \<open>except j\<close> leaves out the edge above \<open>j\<close>.\<close>

definition parent :: "nat \<Rightarrow> nat" where
  "parent i = (i - 1) div 2"

lemma parent_less: "0 < i \<Longrightarrow> parent i < i" and parent_le: "parent i \<le> i"
  by (auto simp: parent_def)

definition heap_upto :: "nat \<Rightarrow> evictionQueue \<Rightarrow> bool" where
  "heap_upto n q \<longleftrightarrow> (\<forall>i. 0 < i \<and> i < n \<longrightarrow> expiresAt (q ! parent i) \<le> expiresAt (q ! i))"

abbreviation is_heap :: "evictionQueue \<Rightarrow> bool" where
  "is_heap q \<equiv> heap_upto (length q) q"

lemma length_Swap [simp]: "length (Swap q i j) = length q"
  by (simp add: Swap_def)

lemma mset_Swap: "i < length q \<Longrightarrow> j < length q \<Longrightarrow> mset (Swap q i j) = mset q"
  by (simp add: Swap_def mset_swap)

lemma nth_Swap: "i < length q \<Longrightarrow> j < length q \<Longrightarrow>
  Swap q i j ! k = (if k = j then q ! i else if k = i then q ! j else q ! k)"
  by (auto simp: Swap_def nth_list_update)

lemma root_least: "heap_upto n q \<Longrightarrow> i < n \<Longrightarrow> expiresAt (q ! 0) \<le> expiresAt (q ! i)"
proof (induction i rule: less_induct)
  case (less i)
  show ?case
  proof (cases "i = 0")
    case False
    then have "parent i < i" by (simp add: parent_less)
    moreover have "parent i < n" using less.prems(2) calculation by simp
    ultimately have "expiresAt (q ! 0) \<le> expiresAt (q ! parent i)"
      using less.IH less.prems(1) by simp
    also have "\<dots> \<le> expiresAt (q ! i)" using less.prems False by (simp add: heap_upto_def)
    finally show ?thesis .
  qed simp
qed

text \<open>Heap order except for the edge above \<open>j\<close>, which its children respect across \<open>j\<close>.\<close>

definition heap_above :: "nat \<Rightarrow> nat \<Rightarrow> evictionQueue \<Rightarrow> bool" where
  "heap_above j n q \<longleftrightarrow>
     (\<forall>i. 0 < i \<and> i < n \<and> i \<noteq> j \<longrightarrow> expiresAt (q ! parent i) \<le> expiresAt (q ! i)) \<and>
     (\<forall>c. 0 < c \<and> c < n \<and> parent c = j \<and> 0 < j \<longrightarrow> expiresAt (q ! parent j) \<le> expiresAt (q ! c))"

text \<open>Heap order except for the edges below \<open>i\<close>.\<close>

definition heap_below :: "nat \<Rightarrow> nat \<Rightarrow> evictionQueue \<Rightarrow> bool" where
  "heap_below i n q \<longleftrightarrow>
     (\<forall>k. 0 < k \<and> k < n \<and> parent k \<noteq> i \<longrightarrow> expiresAt (q ! parent k) \<le> expiresAt (q ! k)) \<and>
     (\<forall>c. 0 < c \<and> c < n \<and> parent c = i \<and> 0 < i \<longrightarrow> expiresAt (q ! parent i) \<le> expiresAt (q ! c))"

lemma heap_above_step:
  assumes h: "heap_above j (length q) q" and j: "0 < j" "j < length q" and i: "parent j = i"
    and less: "expiresAt (q ! j) < expiresAt (q ! i)"
  shows "heap_above i (length q) (Swap q i j)"
proof -
  have ij: "i < j" "i < length q" using parent_less [OF j(1)] j(2) i by auto
  note sw = nth_Swap [OF ij(2) j(2)]
  have edge: "expiresAt (q ! parent k) \<le> expiresAt (q ! k)" if "0 < k" "k < length q" "k \<noteq> j" for k
    using h that by (simp add: heap_above_def)
  have across: "expiresAt (q ! i) \<le> expiresAt (q ! c)" if "0 < c" "c < length q" "parent c = j" for c
    using h that j(1) i by (simp add: heap_above_def)
  have "expiresAt (Swap q i j ! parent k) \<le> expiresAt (Swap q i j ! k)"
    if k: "0 < k" "k < length q" "k \<noteq> i" for k
  proof -
    consider "k = j" | "k \<noteq> j" "parent k = j" | "k \<noteq> j" "parent k = i" | "k \<noteq> j" "parent k \<noteq> j" "parent k \<noteq> i"
      by blast
    then show ?thesis
      using k ij i less edge [of k] across [of k] by cases (auto simp: sw)
  qed
  moreover have "expiresAt (Swap q i j ! parent i) \<le> expiresAt (Swap q i j ! c)"
    if c: "0 < c" "c < length q" "parent c = i" "0 < i" for c
  proof -
    have "parent i < i" using c(4) by (rule parent_less)
    then have "parent i \<noteq> i" "parent i \<noteq> j" "c \<noteq> i" using ij c parent_less [OF c(1)] by auto
    then show ?thesis
      using edge [of i] edge [of c] c ij by (cases "c = j") (auto simp: sw)
  qed
  ultimately show ?thesis by (simp add: heap_above_def)
qed

lemma up_heap:
  assumes "heap_above j (length q) q" and "j < length q"
  shows "is_heap (up q j) \<and> mset (up q j) = mset q"
  using assms
proof (induction q j rule: up.induct)
  case (1 q j)
  let ?i = "parent j"
  show ?case
  proof (cases "?i = j \<or> \<not> Less q j ?i")
    case True
    have "expiresAt (q ! parent k) \<le> expiresAt (q ! k)" if "0 < k" "k < length q" for k
      using True "1.prems" that by (cases "k = j") (auto simp: heap_above_def Less_def)
    then have "is_heap q" by (simp add: heap_upto_def)
    with True show ?thesis by (subst (1 2 3) up.simps) (simp add: Let_def parent_def)
  next
    case False
    then have j: "0 < j" "?i < length q" using "1.prems"(2) parent_le [of j] by (auto simp: parent_def)
    have "heap_above ?i (length q) (Swap q ?i j)"
      using heap_above_step [OF "1.prems"(1) j(1) "1.prems"(2) refl] False by (simp add: Less_def)
    with "1.IH" [OF parent_def False] j(2) have "is_heap (up (Swap q ?i j) ?i) \<and> mset (up (Swap q ?i j) ?i) = mset q"
      using "1.prems"(2) by (simp add: mset_Swap)
    with False show ?thesis by (subst (1 2 3) up.simps) (simp add: Let_def parent_def)
  qed
qed

lemma heap_below_step:
  assumes h: "heap_below i n q" and n: "n \<le> length q" and j: "0 < j" "j < n" "parent j = i"
    and least: "\<And>c. 0 < c \<Longrightarrow> c < n \<Longrightarrow> parent c = i \<Longrightarrow> expiresAt (q ! j) \<le> expiresAt (q ! c)"
    and less: "expiresAt (q ! j) < expiresAt (q ! i)"
  shows "heap_below j n (Swap q i j)"
proof -
  have ij: "i < j" "i < length q" "j < length q" using parent_less [OF j(1)] j n by auto
  note sw = nth_Swap [OF ij(2,3)]
  have edge: "expiresAt (q ! parent k) \<le> expiresAt (q ! k)" if "0 < k" "k < n" "parent k \<noteq> i" for k
    using h that by (simp add: heap_below_def)
  have across: "expiresAt (q ! parent i) \<le> expiresAt (q ! j)" if "0 < i"
    using h that j by (simp add: heap_below_def)
  have "expiresAt (Swap q i j ! parent k) \<le> expiresAt (Swap q i j ! k)"
    if k: "0 < k" "k < n" "parent k \<noteq> j" for k
  proof -
    consider "k = j" | "k \<noteq> j" "parent k = i" | "k = i" | "k \<noteq> j" "k \<noteq> i" "parent k \<noteq> i" by blast
    then show ?thesis
      using k ij j less least [of k] edge [of k] across parent_less [OF k(1)] by cases (auto simp: sw)
  qed
  moreover have "expiresAt (Swap q i j ! parent j) \<le> expiresAt (Swap q i j ! c)"
    if c: "0 < c" "c < n" "parent c = j" for c
    using c ij j edge [of c] parent_less [OF c(1)] by (auto simp: sw)
  ultimately show ?thesis by (simp add: heap_below_def)
qed

lemma children: "0 < c \<and> parent c = i \<longleftrightarrow> c = 2 * i + 1 \<or> c = 2 * i + 2"
  by (auto simp: parent_def)

lemma down_stop: "n \<le> 2 * i + 1 \<Longrightarrow> down q i n = q"
  by (subst down.simps) (simp add: Let_def)

lemma down_step:
  assumes "\<not> n \<le> 2 * i + 1" and "j = (if 2 * i + 1 + 1 < n \<and> Less q (2 * i + 1 + 1) (2 * i + 1) then 2 * i + 1 + 1 else 2 * i + 1)"
  shows "down q i n = (if \<not> Less q j i then q else down (Swap q i j) j n)"
  unfolding assms(2) using assms(1) by (subst down.simps) (simp only: Let_def if_False)

lemma heap_below_done:
  assumes "heap_below i n q" and "\<And>c. 0 < c \<Longrightarrow> c < n \<Longrightarrow> parent c = i \<Longrightarrow> expiresAt (q ! i) \<le> expiresAt (q ! c)"
  shows "heap_upto n q"
  using assms unfolding heap_upto_def heap_below_def by metis

lemma down_heap:
  assumes "heap_below i n q" and "n \<le> length q"
  shows "heap_upto n (down q i n) \<and> mset (down q i n) = mset q \<and> (\<forall>k \<ge> n. down q i n ! k = q ! k)"
  using assms
proof (induction q i n rule: down.induct)
  case (1 q i n)
  define j where j_def: "j = (if 2 * i + 1 + 1 < n \<and> Less q (2 * i + 1 + 1) (2 * i + 1) then 2 * i + 1 + 1 else 2 * i + 1)"
  show ?case
  proof (cases "n \<le> 2 * i + 1")
    case True
    then have "c < n \<Longrightarrow> 0 < c \<Longrightarrow> parent c \<noteq> i" for c using children [of c i] by auto
    then have "heap_upto n q" by (intro heap_below_done [OF "1.prems"(1)]) blast
    with down_stop [OF True] show ?thesis by simp
  next
    case n1: False
    have j: "0 < j" "j < n" "parent j = i" using n1 children [of j i] by (auto simp: j_def)
    have least: "expiresAt (q ! j) \<le> expiresAt (q ! c)" if "0 < c" "c < n" "parent c = i" for c
      using that n1 children [of c i] by (auto simp: j_def Less_def)
    show ?thesis
    proof (cases "Less q j i")
      case False
      then have "expiresAt (q ! i) \<le> expiresAt (q ! j)" by (simp add: Less_def)
      then have "heap_upto n q"
        using least order_trans by (intro heap_below_done [OF "1.prems"(1)]) blast
      with False down_step [OF n1 j_def] show ?thesis by simp
    next
      case True
      have i: "i < length q" "j < length q" using j(2) "1.prems"(2) parent_less [OF j(1)] j(3) by auto
      have hb: "heap_below j n (Swap q i j)"
        using True by (intro heap_below_step [OF "1.prems" j least]) (simp_all only: Less_def)
      have nn: "\<not> \<not> Less q j i" and len: "n \<le> length (Swap q i j)" using True "1.prems"(2) by simp_all
      note ih = "1.IH" [OF refl n1 refl j_def nn hb len]
      have "Swap q i j ! k = q ! k" if "n \<le> k" for k
        using that j parent_less [OF j(1)] by (auto simp: nth_Swap [OF i])
      with ih mset_Swap [OF i] True down_step [OF n1 j_def] show ?thesis by simp
    qed
  qed
qed

lemma length_down: "heap_below i n q \<Longrightarrow> n \<le> length q \<Longrightarrow> length (down q i n) = length q"
  using down_heap by (metis size_mset)

lemma heapPush_heap: "is_heap q \<Longrightarrow> is_heap (heapPush q x) \<and> mset (heapPush q x) = add_mset x (mset q)"
proof -
  assume h: "is_heap q"
  have "heap_above (length q) (length (q @ [x])) (q @ [x])"
    unfolding heap_above_def
  proof (intro conjI allI impI)
    fix i assume i: "0 < i \<and> i < length (q @ [x]) \<and> i \<noteq> length q"
    then have "parent i < i" "i < length q" by (simp_all add: parent_less)
    with h i show "expiresAt ((q @ [x]) ! parent i) \<le> expiresAt ((q @ [x]) ! i)"
      by (simp add: heap_upto_def nth_append)
  next
    fix c assume "0 < c \<and> c < length (q @ [x]) \<and> parent c = length q \<and> 0 < length q"
    then have False using parent_less [of c] by auto
    then show "expiresAt ((q @ [x]) ! parent (length q)) \<le> expiresAt ((q @ [x]) ! c)" ..
  qed
  from up_heap [OF this] show ?thesis by (simp add: heapPush_def Push_def Len_def)
qed

lemma heapPop_heap:
  assumes h: "is_heap q" and ne: "q \<noteq> []" and p: "heapPop q = (x, q')"
  shows "is_heap q'" and "mset q = add_mset x (mset q')" and "x = q ! 0"
proof -
  obtain n where n': "length q = Suc n" using ne by (cases q) auto
  let ?s = "Swap q 0 n"
  let ?d = "down ?s 0 n"
  have n: "0 < length q" "n < length q" using n' by simp_all
  note sw = nth_Swap [OF n]
  have "heap_below 0 n ?s"
    unfolding heap_below_def
  proof (intro conjI allI impI)
    fix k assume k: "0 < k \<and> k < n \<and> parent k \<noteq> 0"
    then have "parent k < n" using parent_less [of k] by simp
    with k h n show "expiresAt (?s ! parent k) \<le> expiresAt (?s ! k)" by (simp add: sw heap_upto_def)
  qed simp
  note d = down_heap [OF this] length_down [OF this]
  have len: "length ?d = length q" using d(2) n by simp
  have dn: "heap_upto n ?d" "mset ?d = mset q" "?d ! n = q ! 0"
    using d(1) mset_Swap [OF n] sw [of n] n by simp_all
  have pq: "x = ?d ! n" "q' = take n ?d"
    using p len n' by (simp_all add: heapPop_def Let_def Len_def Pop_def)
  show "x = q ! 0" using pq dn(3) by simp
  have "?d = take n ?d @ [?d ! n]"
    using len n' by (metis lessI order_refl take_Suc_conv_app_nth take_all)
  then have "mset ?d = add_mset x (mset q')" using pq
    by (metis add_mset_add_single mset.simps(1) mset.simps(2) mset_append)
  with dn(2) show "mset q = add_mset x (mset q')" by simp
  show "is_heap q'"
    unfolding heap_upto_def pq
  proof (intro allI impI)
    fix i assume i: "0 < i \<and> i < length (take n ?d)"
    then have "parent i < n" "i < n" using parent_less [of i] by auto
    with dn(1) i show "expiresAt (take n ?d ! parent i) \<le> expiresAt (take n ?d ! i)" by (simp add: heap_upto_def)
  qed
qed

interpretation evq: min_queue mset is_heap heapPush heapPop expiresAt
proof
  fix q :: evictionQueue and x y q'
  show "is_heap q \<Longrightarrow> is_heap (heapPush q x)" and "is_heap q \<Longrightarrow> mset (heapPush q x) = add_mset x (mset q)"
    using heapPush_heap by blast+
  assume h: "is_heap q" "mset q \<noteq> {#}" "heapPop q = (x, q')"
  then have ne: "q \<noteq> []" by auto
  show "is_heap q'" "mset q = add_mset x (mset q')" using heapPop_heap [OF h(1) ne h(3)] by blast+
  assume "y \<in># mset q"
  then obtain i where "i < length q" "y = q ! i" by (auto simp: in_set_conv_nth)
  then show "expiresAt x \<le> expiresAt y"
    using root_least [OF h(1)] heapPop_heap(3) [OF h(1) ne h(3)] by simp
qed

text \<open>The queue of a new shard: \<open>heap.Init\<close> of an empty slice is empty.\<close>

lemma heapInit_Nil [simp]: "heapInit [] = []"
  by (simp add: heapInit_def Len_def)

lemma heap_upto_0 [simp]: "heap_upto 0 q"
  by (simp add: heap_upto_def)

end
