(* ===== verification/Cache_Shard.thy ===== *)
theory Cache_Shard
  imports Cache_Heap
begin

text \<open>
  One shard of the cache (\<open>cache/eviction_heap.go\<close>, \<open>enforceMaxEntriesLocked\<close> of
  \<open>cache/cache.go\<close>): the map of entries beside the eviction queue.  The map is an
  association list in the order in which \<open>range\<close> would visit it; Go leaves this order open, so
  nothing may depend on it.  Queue items are not removed when an entry is replaced or deleted:
  an item is current when the map still holds the very entry it was pushed for.
\<close>

record shard =
  entries :: "(cacheKey \<times> Entry) list"
  evictQ :: evictionQueue

definition resetEntries :: shard where
  "resetEntries = \<lparr>entries = [], evictQ = heapInit []\<rparr>"

definition pushEvictionEntry :: "cacheKey \<Rightarrow> Entry \<Rightarrow> shard \<Rightarrow> shard" where
  "pushEvictionEntry k e s =
     s\<lparr>evictQ := heapPush (evictQ s) \<lparr>itemKey = k, itemEntry = entryId e,
        expiresAt = InsertedAt e + unat (OrigTTL e) * second\<rparr>\<rparr>"

lemma length_up [simp]: "length (up q j) = length q"
proof (induction q j rule: up.induct)
  case (1 q j)
  then show ?case by (subst up.simps) (simp add: Let_def)
qed

lemma length_down_any [simp]: "length (down q i n) = length q"
proof (induction q i n rule: down.induct)
  case (1 q i n)
  show ?case
  proof (cases "n \<le> 2 * i + 1")
    case False
    from down_step [OF this refl, of q] "1.IH" [OF refl False refl refl] show ?thesis
      by (simp del: One_nat_def add_2_eq_Suc add_2_eq_Suc')
  qed (simp add: down_stop)
qed

lemma length_heapPop: "heapPop q = (x, q') \<Longrightarrow> q \<noteq> [] \<Longrightarrow> length q' < length q"
  by (auto simp: heapPop_def Let_def Pop_def Len_def)

section \<open>Choosing a victim\<close>

text \<open>The first loop of \<open>nextEvictionKeyLocked\<close>.\<close>

function popCurrent :: "(cacheKey \<times> Entry) list \<Rightarrow> evictionQueue \<Rightarrow> cacheKey option \<times> evictionQueue" where
  "popCurrent es q =
     (if q = [] then (None, [])
      else (case heapPop q of (item, q') \<Rightarrow>
        (case map_of es (itemKey item) of
           None \<Rightarrow> popCurrent es q'
         | Some current \<Rightarrow> if entryId current \<noteq> itemEntry item then popCurrent es q'
                            else (Some (itemKey item), q'))))"
  by pat_completeness auto
termination
  by (relation "measure (\<lambda>(es, q). length q)") (auto dest: length_heapPop [OF sym])

declare popCurrent.simps [simp del]

text \<open>The second loop, over the map itself; \<open>^uint32(0)\<close> is the largest \<open>uint32\<close>.\<close>

fun minRemainingLoop :: "time \<Rightarrow> (cacheKey \<times> Entry) list \<Rightarrow> cacheKey \<Rightarrow> u32 \<Rightarrow> bool \<Rightarrow> cacheKey \<times> bool" where
  "minRemainingLoop now [] evictKey minRemaining found = (evictKey, found)"
| "minRemainingLoop now ((k, e) # es) evictKey minRemaining found =
     (let rem = RemainingTTL now e in
      if rem < minRemaining then minRemainingLoop now es k rem True
      else minRemainingLoop now es evictKey minRemaining found)"

definition zeroKey :: cacheKey where
  "zeroKey = \<lparr>keyName = [], keyType = 0, keyClass = 0, ecsPrefix = []\<rparr>"

definition nextEvictionKeyLocked :: "time \<Rightarrow> shard \<Rightarrow> cacheKey \<times> bool \<times> shard" where
  "nextEvictionKeyLocked now s =
     (case popCurrent (entries s) (evictQ s) of
        (Some k, q) \<Rightarrow> (k, True, s\<lparr>evictQ := q\<rparr>)
      | (None, q) \<Rightarrow> (case minRemainingLoop now (entries s) zeroKey (-1) False of
                         (k, found) \<Rightarrow> (k, found, s\<lparr>evictQ := q\<rparr>)))"

text \<open>
  The loop of \<open>enforceMaxEntriesLocked\<close>, with the number of evictions it counts.  It does not
  look at whether a key was found, so nothing in it bounds the number of rounds.
\<close>

partial_function (option) enforceLoop :: "time \<Rightarrow> nat \<Rightarrow> shard \<Rightarrow> nat \<Rightarrow> (shard \<times> nat) option" where
  [code]: "enforceLoop now cap s n =
     (if cap < length (entries s) then
        (case nextEvictionKeyLocked now s of
           (k, _, s') \<Rightarrow> enforceLoop now cap (s'\<lparr>entries := AList.delete k (entries s')\<rparr>) (n + 1))
      else Some (s, n))"

definition shardCount :: nat where "shardCount = 256"

definition enforceMaxEntriesLocked :: "int \<Rightarrow> time \<Rightarrow> shard \<Rightarrow> (shard \<times> nat) option" where
  "enforceMaxEntriesLocked maxEntries now s =
     (if maxEntries \<le> 0 then Some (s, 0) else enforceLoop now (nat maxEntries div shardCount + 1) s 0)"

section \<open>Expiring\<close>

text \<open>
  \<open>evictExpiredLocked\<close>: \<open>now\<close> is its argument, \<open>clock\<close> what \<open>RemainingTTL\<close> reads when it is
  called.
\<close>

function evictExpiredLocked :: "time \<Rightarrow> time \<Rightarrow> shard \<Rightarrow> nat \<Rightarrow> shard \<times> nat" where
  "evictExpiredLocked now clock s evicted =
     (if evictQ s = [] then (s, evicted)
      else if now < expiresAt (evictQ s ! 0) then (s, evicted)
      else (case heapPop (evictQ s) of (item, q') \<Rightarrow>
        (let s = s\<lparr>evictQ := q'\<rparr> in
         case map_of (entries s) (itemKey item) of
           None \<Rightarrow> evictExpiredLocked now clock s evicted
         | Some current \<Rightarrow>
             if entryId current \<noteq> itemEntry item then evictExpiredLocked now clock s evicted
             else if 0 < RemainingTTL clock current then evictExpiredLocked now clock s evicted
             else evictExpiredLocked now clock (s\<lparr>entries := AList.delete (itemKey item) (entries s)\<rparr>) (evicted + 1))))"
  by pat_completeness auto
termination
  by (relation "measure (\<lambda>(now, clock, s, n). length (evictQ s))") (auto simp: Let_def dest: length_heapPop [OF sym])

declare evictExpiredLocked.simps [simp del]

definition evictExpiredFallbackLocked :: "time \<Rightarrow> shard \<Rightarrow> shard \<times> nat" where
  "evictExpiredFallbackLocked now s =
     (s\<lparr>entries := filter (\<lambda>(k, e). RemainingTTL now e \<noteq> 0) (entries s)\<rparr>,
      length (filter (\<lambda>(k, e). RemainingTTL now e = 0) (entries s)))"

section \<open>The invariant of a shard\<close>

text \<open>The queue item that was pushed for an entry.\<close>

definition queued :: "evictionQueue \<Rightarrow> cacheKey \<Rightarrow> Entry \<Rightarrow> bool" where
  "queued q k e \<longleftrightarrow> (\<exists>it \<in> set q. itemKey it = k \<and> itemEntry it = entryId e)"

text \<open>
  Keys are unique, the queue is in heap order, every entry has its item in the queue, and an
  item that is current carries the entry's expiry time.
\<close>

definition queue_inv :: "(cacheKey \<times> Entry) list \<Rightarrow> evictionQueue \<Rightarrow> bool" where
  "queue_inv es q \<longleftrightarrow> distinct (map fst es) \<and> is_heap q \<and> (\<forall>(k, e) \<in> set es. queued q k e) \<and>
     (\<forall>it \<in> set q. \<forall>e. map_of es (itemKey it) = Some e \<longrightarrow> itemEntry it = entryId e \<longrightarrow> expiresAt it = expiry e)"

abbreviation shard_inv :: "shard \<Rightarrow> bool" where
  "shard_inv s \<equiv> queue_inv (entries s) (evictQ s)"

lemma queue_invD:
  assumes "queue_inv es q"
  shows "distinct (map fst es)" and "is_heap q" and "map_of es k = Some e \<Longrightarrow> queued q k e"
    and "it \<in> set q \<Longrightarrow> map_of es (itemKey it) = Some e \<Longrightarrow> itemEntry it = entryId e \<Longrightarrow> expiresAt it = expiry e"
  using assms map_of_SomeD unfolding queue_inv_def by fast+

lemma shard_inv_reset [simp]: "shard_inv resetEntries"
  by (simp add: resetEntries_def queue_inv_def)



text \<open>Taking an item that is not current leaves the invariant.\<close>

lemma pop_set:
  assumes "is_heap q" and "q \<noteq> []" and "heapPop q = (x, q')"
  shows "set q = insert x (set q')" and "is_heap q'" and "\<And>y. y \<in> set q \<Longrightarrow> expiresAt x \<le> expiresAt y"
proof -
  have ne: "mset q \<noteq> {#}" using assms(2) by simp
  have "mset q = add_mset x (mset q')" using assms ne by (intro evq.take_items) auto
  then show "set q = insert x (set q')" by (metis set_mset_add_mset_insert set_mset_mset)
  show "is_heap q'" using assms ne by (intro evq.take_inv [of q x q']) auto
  show "\<And>y. y \<in> set q \<Longrightarrow> expiresAt x \<le> expiresAt y"
    using assms ne evq.take_least [of q x q'] by simp
qed

lemma queue_inv_skip:
  assumes inv: "queue_inv es q" and "q \<noteq> []" and "heapPop q = (x, q')"
    and stale: "\<And>e. map_of es (itemKey x) = Some e \<Longrightarrow> entryId e \<noteq> itemEntry x"
  shows "queue_inv es q'"
proof -
  note ps = pop_set [OF queue_invD(2) [OF inv] assms(2,3)]
  have "queued q' k e" if "(k, e) \<in> set es" for k e
  proof -
    have me: "map_of es k = Some e" using that queue_invD(1) [OF inv] by simp
    then obtain it where it: "it \<in> set q" "itemKey it = k" "itemEntry it = entryId e"
      using queue_invD(3) [OF inv] by (auto simp: queued_def)
    then have "it \<noteq> x" using stale me by auto
    with it ps(1) show ?thesis by (auto simp: queued_def)
  qed
  with inv ps show ?thesis unfolding queue_inv_def by auto
qed

lemma queue_inv_take:
  assumes inv: "queue_inv es q" and "q \<noteq> []" and "heapPop q = (x, q')"
  shows "queue_inv (AList.delete (itemKey x) es) q'"
proof -
  note ps = pop_set [OF queue_invD(2) [OF inv] assms(2,3)]
  let ?es = "AList.delete (itemKey x) es"
  have d: "distinct (map fst ?es)" using queue_invD(1) [OF inv] by (rule distinct_delete)
  have m: "map_of ?es k = (if k = itemKey x then None else map_of es k)" for k
    by (simp add: delete_conv')
  have "queued q' k e" if "(k, e) \<in> set ?es" for k e
  proof -
    have "map_of ?es k = Some e" using that d by simp
    then have k: "k \<noteq> itemKey x" "map_of es k = Some e" using m [of k] by (auto split: if_splits)
    then obtain it where "it \<in> set q" "itemKey it = k" "itemEntry it = entryId e"
      using queue_invD(3) [OF inv] by (auto simp: queued_def)
    with ps(1) k(1) show ?thesis by (auto simp: queued_def)
  qed
  moreover have "expiresAt it = expiry e"
    if "it \<in> set q'" "map_of ?es (itemKey it) = Some e" "itemEntry it = entryId e" for it e
    using that ps(1) m queue_invD(4) [OF inv] by (auto split: if_splits)
  ultimately show ?thesis using d ps(2) unfolding queue_inv_def by auto
qed

lemma queue_inv_empty_queue: "queue_inv es [] \<Longrightarrow> es = []"
  by (cases es) (auto simp: queue_inv_def queued_def)

section \<open>The victim is the entry that expires first\<close>

lemma popCurrent_first:
  assumes "queue_inv es q" and "es \<noteq> []"
  shows "\<exists>k e q'. popCurrent es q = (Some k, q') \<and> map_of es k = Some e \<and>
     (\<forall>(k', e') \<in> set es. expiry e \<le> expiry e') \<and> queue_inv (AList.delete k es) q'"
  using assms
proof (induction es q rule: popCurrent.induct)
  case (1 es q)
  have ne: "q \<noteq> []" using "1.prems" queue_inv_empty_queue by blast
  obtain x q' where x: "heapPop q = (x, q')" by fastforce
  show ?case
  proof (cases "\<exists>e. map_of es (itemKey x) = Some e \<and> entryId e = itemEntry x")
    case True
    then obtain e where e: "map_of es (itemKey x) = Some e" "entryId e = itemEntry x" by blast
    note ps = pop_set [OF queue_invD(2) [OF "1.prems"(1)] ne x]
    have xe: "expiresAt x = expiry e" using queue_invD(4) [OF "1.prems"(1)] e ps(1) by auto
    have "expiry e \<le> expiry e'" if "(k', e') \<in> set es" for k' e'
    proof -
      have me: "map_of es k' = Some e'" using that queue_invD(1) [OF "1.prems"(1)] by simp
      then obtain it where it: "it \<in> set q" "itemKey it = k'" "itemEntry it = entryId e'"
        using queue_invD(3) [OF "1.prems"(1)] by (auto simp: queued_def)
      then have "expiresAt it = expiry e'" using queue_invD(4) [OF "1.prems"(1)] me by simp
      with ps(3) [OF it(1)] xe show ?thesis by simp
    qed
    moreover have "popCurrent es q = (Some (itemKey x), q')"
      using ne x e by (subst popCurrent.simps) simp
    ultimately show ?thesis using e queue_inv_take [OF "1.prems"(1) ne x] by blast
  next
    case False
    then have inv: "queue_inv es q'" using queue_inv_skip [OF "1.prems"(1) ne x] by blast
    have eq: "popCurrent es q = popCurrent es q'"
      using ne x False by (subst popCurrent.simps) (auto split: option.split)
    show ?thesis
    proof (cases "map_of es (itemKey x)")
      case None
      from "1.IH"(1) [OF ne x [symmetric] None inv "1.prems"(2)] eq show ?thesis by simp
    next
      case (Some e)
      with False have "entryId e \<noteq> itemEntry x" by blast
      from "1.IH"(2) [OF ne x [symmetric] Some this inv "1.prems"(2)] eq show ?thesis by simp
    qed
  qed
qed

text \<open>The queue only loses items while the capacity is enforced.\<close>

lemma popCurrent_queue: "is_heap q \<Longrightarrow> popCurrent es q = (r, q') \<Longrightarrow> set q' \<subseteq> set q \<and> is_heap q'"
proof (induction es q arbitrary: r q' rule: popCurrent.induct)
  case (1 es q)
  show ?case
  proof (cases "q = []")
    case False
    obtain x q1 where x: "heapPop q = (x, q1)" by fastforce
    note ps = pop_set [OF "1.prems"(1) False x]
    show ?thesis
    proof (cases "map_of es (itemKey x)")
      case None
      with "1.IH"(1) [OF False x [symmetric] None ps(2)] "1.prems"(2) x False ps(1) show ?thesis
        by (subst (asm) popCurrent.simps) auto
    next
      case (Some e)
      with "1.IH"(2) [OF False x [symmetric] Some _ ps(2)] "1.prems"(2) x False ps(1,2) show ?thesis
        by (subst (asm) popCurrent.simps) (auto split: if_splits)
    qed
  qed (use "1.prems" in \<open>simp add: popCurrent.simps\<close>)
qed

text \<open>
  The loop that enforces the capacity ends, keeps the invariant, removes no more than needed,
  and what it removes expires no later than anything it keeps.
\<close>

lemma nextEvictionKey_first:
  assumes "shard_inv s" and "entries s \<noteq> []"
  shows "\<exists>k e q. nextEvictionKeyLocked now s = (k, True, s\<lparr>evictQ := q\<rparr>) \<and> map_of (entries s) k = Some e \<and>
     (\<forall>(k', e') \<in> set (entries s). expiry e \<le> expiry e') \<and> queue_inv (AList.delete k (entries s)) q \<and>
     set q \<subseteq> set (evictQ s)"
proof -
  obtain k e q where p: "popCurrent (entries s) (evictQ s) = (Some k, q)" "map_of (entries s) k = Some e"
    "\<forall>(k', e') \<in> set (entries s). expiry e \<le> expiry e'" "queue_inv (AList.delete k (entries s)) q"
    using popCurrent_first [OF assms] by blast
  then show ?thesis using popCurrent_queue [OF queue_invD(2) [OF assms(1)] p(1)]
    by (auto simp: nextEvictionKeyLocked_def)
qed

lemma length_delete_present:
  "distinct (map fst es) \<Longrightarrow> map_of es k = Some e \<Longrightarrow> length (AList.delete k es) = length es - 1"
proof (induction es)
  case (Cons x es)
  show ?case
  proof (cases "fst x = k")
    case True
    then have "k \<notin> fst ` set es" using Cons.prems(1) by auto
    then have "AList.delete k es = es" by simp
    with True show ?thesis by (cases x) simp
  next
    case False
    then have me: "map_of es k = Some e" using Cons.prems(2) by (cases x) auto
    then have "es \<noteq> []" by auto
    with False me Cons show ?thesis by (cases x, cases es) auto
  qed
qed simp

lemma enforceLoop_ends:
  assumes "shard_inv s"
  shows "\<exists>s' n'. enforceLoop now cap s n = Some (s', n') \<and> shard_inv s' \<and>
     length (entries s') = min cap (length (entries s)) \<and> set (entries s') \<subseteq> set (entries s) \<and>
     set (evictQ s') \<subseteq> set (evictQ s) \<and> n' = n + (length (entries s) - cap) \<and>
     (\<forall>(k, e) \<in> set (entries s) - set (entries s'). \<forall>(k', e') \<in> set (entries s'). expiry e \<le> expiry e')"
  using assms
proof (induction "length (entries s) - cap" arbitrary: s n)
  case 0
  then show ?case by (subst enforceLoop.simps) simp
next
  case (Suc d)
  then have more: "cap < length (entries s)" by simp
  then have ne: "entries s \<noteq> []" by auto
  obtain k e q where nx: "nextEvictionKeyLocked now s = (k, True, s\<lparr>evictQ := q\<rparr>)" and ke: "map_of (entries s) k = Some e"
    and least: "\<forall>(k', e') \<in> set (entries s). expiry e \<le> expiry e'"
    and inv: "queue_inv (AList.delete k (entries s)) q" and sq: "set q \<subseteq> set (evictQ s)"
    using nextEvictionKey_first [OF Suc.prems ne, of now] by (elim exE conjE)
  let ?s = "s\<lparr>evictQ := q, entries := AList.delete k (entries s)\<rparr>"
  have len: "length (entries ?s) = length (entries s) - 1"
    using length_delete_present [OF queue_invD(1) [OF Suc.prems] ke] by simp
  have sub: "set (entries ?s) \<subseteq> set (entries s)" by (auto simp: AList.delete_eq)
  have gone: "x = (k, e)" if "x \<in> set (entries s)" "x \<notin> set (entries ?s)" for x
  proof -
    have "fst x = k" using that by (auto simp: AList.delete_eq split: prod.splits)
    then show ?thesis using that(1) ke queue_invD(1) [OF Suc.prems] by (cases x) auto
  qed
  have "d = length (entries ?s) - cap" using Suc.hyps(2) len by simp
  from Suc.hyps(1) [OF this, of "n + 1"] inv obtain s' n' where ih: "enforceLoop now cap ?s (n + 1) = Some (s', n')"
    "shard_inv s'" "length (entries s') = min cap (length (entries ?s))" "set (entries s') \<subseteq> set (entries ?s)"
    "set (evictQ s') \<subseteq> set q" "n' = n + 1 + (length (entries ?s) - cap)"
    "\<forall>(k, e) \<in> set (entries ?s) - set (entries s'). \<forall>(k', e') \<in> set (entries s'). expiry e \<le> expiry e'"
    by auto
  have "expiry e1 \<le> expiry e2" if "(k1, e1) \<in> set (entries s) - set (entries s')" "(k2, e2) \<in> set (entries s')" for k1 e1 k2 e2
  proof (cases "(k1, e1) \<in> set (entries ?s)")
    case True
    with that ih(7) show ?thesis by blast
  next
    case False
    with that gone [of "(k1, e1)"] have "e1 = e" by simp
    moreover have "(k2, e2) \<in> set (entries s)" using that(2) ih(4) sub by blast
    ultimately show ?thesis using least by blast
  qed
  moreover have "enforceLoop now cap s n = Some (s', n')"
    using more nx ih(1) by (subst enforceLoop.simps) simp
  ultimately show ?case using ih(2-6) len more sub sq by auto
qed

section \<open>Sweeping removes exactly the expired entries\<close>

definition live :: "time \<Rightarrow> cacheKey \<times> Entry \<Rightarrow> bool" where
  "live now = (\<lambda>(k, e). now < expiry e)"

text \<open>Every entry was inserted before \<open>now\<close>, and the clock is within the range of \<open>uint32\<close>.\<close>

definition aged :: "time \<Rightarrow> time \<Rightarrow> (cacheKey \<times> Entry) list \<Rightarrow> bool" where
  "aged now clock es \<longleftrightarrow> now \<le> clock \<and> (\<forall>(k, e) \<in> set es. InsertedAt e \<le> now \<and> in_range clock e)"

lemma aged_delete: "aged now clock es \<Longrightarrow> aged now clock (AList.delete k es)"
  by (auto simp: aged_def AList.delete_eq)

lemma aged_expired:
  assumes "aged now clock es" and "map_of es k = Some e" and "expiry e \<le> now"
  shows "RemainingTTL clock e = 0"
proof -
  have "InsertedAt e \<le> now" "in_range clock e" "now \<le> clock"
    using assms(1) map_of_SomeD [OF assms(2)] by (auto simp: aged_def)
  with Expired_iff_expiry [of clock e] assms(3) show ?thesis by (simp add: Expired_def)
qed

lemma filter_live_delete:
  assumes "distinct (map fst es)" and "map_of es k = Some e" and "expiry e \<le> now"
  shows "filter (live now) (AList.delete k es) = filter (live now) es"
proof -
  have "\<not> live now x" if "x \<in> set es" "fst x = k" for x
    using assms that by (cases x) (auto simp: live_def dest: map_of_is_SomeI [OF assms(1)])
  then show ?thesis unfolding AList.delete_eq filter_filter by (intro filter_cong) auto
qed

lemma evictExpired_filters:
  assumes "shard_inv s" and "aged now clock (entries s)"
  shows "\<exists>q. evictExpiredLocked now clock s n =
     (\<lparr>entries = filter (live now) (entries s), evictQ = q\<rparr>, n + length (filter (\<lambda>x. \<not> live now x) (entries s))) \<and>
     queue_inv (filter (live now) (entries s)) q"
  using assms
proof (induction now clock s n rule: evictExpiredLocked.induct)
  case (1 now clock s n)
  note inv = "1.prems"(1)
  show ?case
  proof (cases "evictQ s = [] \<or> now < expiresAt (evictQ s ! 0)")
    case True
    have "live now x" if "x \<in> set (entries s)" for x
    proof -
      obtain k e where x: "x = (k, e)" by fastforce
      with that queue_invD(1) [OF inv] have me: "map_of (entries s) k = Some e" by simp
      then obtain it where it: "it \<in> set (evictQ s)" "itemKey it = k" "itemEntry it = entryId e"
        using queue_invD(3) [OF inv] by (auto simp: queued_def)
      then obtain i where "i < length (evictQ s)" "it = evictQ s ! i" by (auto simp: in_set_conv_nth)
      then have "expiresAt (evictQ s ! 0) \<le> expiresAt it" using root_least [OF queue_invD(2) [OF inv]] by simp
      moreover have "expiresAt it = expiry e" using queue_invD(4) [OF inv] it me by simp
      ultimately show ?thesis using True it(1) x by (auto simp: live_def)
    qed
    then have f: "filter (live now) (entries s) = entries s" "filter (\<lambda>x. \<not> live now x) (entries s) = []"
      by (simp_all add: filter_id_conv filter_empty_conv)
    have "evictExpiredLocked now clock s n = (s, n)"
      using True by (subst evictExpiredLocked.simps) auto
    with f inv show ?thesis by (cases s) auto
  next
    case False
    then have ne: "evictQ s \<noteq> []" and due: "\<not> now < expiresAt (evictQ s ! 0)" by auto
    obtain x q' where x: "heapPop (evictQ s) = (x, q')" by fastforce
    let ?s = "s\<lparr>evictQ := q'\<rparr>"
    note ih = "1.IH" [OF ne due x [symmetric] refl]
    show ?thesis
    proof (cases "\<exists>e. map_of (entries s) (itemKey x) = Some e \<and> entryId e = itemEntry x")
      case True
      then obtain e where e: "map_of (entries s) (itemKey x) = Some e" "entryId e = itemEntry x" by blast
      let ?es = "AList.delete (itemKey x) (entries s)"
      let ?t = "?s\<lparr>entries := ?es\<rparr>"
      have "x = evictQ s ! 0" using heapPop_heap(3) [OF queue_invD(2) [OF inv] ne x] .
      moreover have "expiresAt x = expiry e"
        using queue_invD(4) [OF inv] e pop_set(1) [OF queue_invD(2) [OF inv] ne x] by auto
      ultimately have ex: "expiry e \<le> now" using due by simp
      have rem: "\<not> 0 < RemainingTTL clock e" using aged_expired [OF "1.prems"(2) e(1) ex] by simp
      have "evictExpiredLocked now clock s n = evictExpiredLocked now clock ?t (n + 1)"
        using ne due x e rem by (subst evictExpiredLocked.simps) simp
      moreover have "\<exists>q. evictExpiredLocked now clock ?t (n + 1) = (\<lparr>entries = filter (live now) ?es, evictQ = q\<rparr>,
          n + 1 + length (filter (\<lambda>x. \<not> live now x) ?es)) \<and> queue_inv (filter (live now) ?es) q"
        using ih(4) [of e] e rem queue_inv_take [OF inv ne x] aged_delete [OF "1.prems"(2)] by simp
      moreover have "length (filter (\<lambda>x. \<not> live now x) (entries s)) = 1 + length (filter (\<lambda>x. \<not> live now x) ?es)"
      proof -
        have "length (entries s) = length ?es + 1"
          using length_delete_present [OF queue_invD(1) [OF inv] e(1)] map_of_SomeD [OF e(1)]
          by (cases "entries s") auto
        then show ?thesis
          using sum_length_filter_compl [of "live now" "entries s"] sum_length_filter_compl [of "live now" ?es]
            filter_live_delete [OF queue_invD(1) [OF inv] e(1) ex] by simp
      qed
      ultimately show ?thesis using filter_live_delete [OF queue_invD(1) [OF inv] e(1) ex] by simp
    next
      case False
      then have inv': "queue_inv (entries s) q'" using queue_inv_skip [OF inv ne x] by blast
      have eq: "evictExpiredLocked now clock s n = evictExpiredLocked now clock ?s n"
        using ne due x False by (subst evictExpiredLocked.simps) (auto simp: Let_def split: option.split)
      show ?thesis
        using ih(1) ih(2) inv' "1.prems"(2) False eq
        by (cases "map_of (entries s) (itemKey x)") auto
    qed
  qed
qed

end
