(* ===== verification/Cache.thy ===== *)
theory Cache
  imports Cache_Shard
begin

text \<open>
  The sharded cache (\<open>cache/cache.go\<close>, \<open>cache/eviction.go\<close>).  An operation is a function of
  the clock reading and the cache; what it changes (entries, counters of \<open>metrics\<close>, prefetch
  goroutines it starts) is in the returned cache.  \<open>allocs\<close> numbers the \<open>*Entry\<close> allocations.
  A store returns \<open>None\<close> only if the capacity loop would not end.  \<open>Get\<close> is written in the two
  critical sections of the source, so that another goroutine may run between them.
\<close>

record Cache =
  shards :: "u8 \<Rightarrow> shard"
  maxEntries :: int
  minTTL :: u32
  maxTTL :: u32
  negMaxTTL :: u32
  serveStale :: bool
  staleTTL :: u32
  hardenBelowNX :: bool
  prefetchEnabled :: bool
  prefetchFunc :: bool
  evictedExpired :: nat
  evictedCapacity :: nat
  evictedSweep :: nat
  prefetches :: "(string \<times> u16 \<times> u16) list"
  allocs :: nat

definition NewCacheWithStale :: "int \<Rightarrow> u32 \<Rightarrow> u32 \<Rightarrow> u32 \<Rightarrow> bool \<Rightarrow> u32 \<Rightarrow> Cache" where
  "NewCacheWithStale mx mn mxt neg ss st =
     \<lparr>shards = (\<lambda>i. resetEntries), maxEntries = mx, minTTL = mn, maxTTL = mxt, negMaxTTL = neg,
      serveStale = ss, staleTTL = st, hardenBelowNX = False, prefetchEnabled = False, prefetchFunc = False,
      evictedExpired = 0, evictedCapacity = 0, evictedSweep = 0, prefetches = [], allocs = 0\<rparr>"

definition NewCache :: "int \<Rightarrow> u32 \<Rightarrow> u32 \<Rightarrow> u32 \<Rightarrow> Cache" where
  "NewCache mx mn mxt neg = NewCacheWithStale mx mn mxt neg False 30"

section \<open>Keys and shards\<close>

definition fnv32a :: "string \<Rightarrow> u32" where
  "fnv32a s = fold (\<lambda>c h. (h XOR ucast (byte_of c)) * 16777619) s 2166136261"

definition shardIndex :: "string \<Rightarrow> u8" where
  "shardIndex name = ucast (fnv32a name)"

abbreviation mkKey :: "string \<Rightarrow> u16 \<Rightarrow> u16 \<Rightarrow> string \<Rightarrow> cacheKey" where
  "mkKey n t c p \<equiv> \<lparr>keyName = n, keyType = t, keyClass = c, ecsPrefix = p\<rparr>"

text \<open>\<open>c.shards[c.shardIndex(name)].entries[key]\<close>\<close>

definition findEntry :: "Cache \<Rightarrow> cacheKey \<Rightarrow> Entry option" where
  "findEntry c k = map_of (entries (shards c (shardIndex (keyName k)))) k"

definition setShard :: "u8 \<Rightarrow> shard \<Rightarrow> Cache \<Rightarrow> Cache" where
  "setShard i s c = c\<lparr>shards := (shards c)(i := s)\<rparr>"

definition deleteKey :: "cacheKey \<Rightarrow> Cache \<Rightarrow> Cache" where
  "deleteKey k c =
     (let i = shardIndex (keyName k); s = shards c i in
      setShard i (s\<lparr>entries := AList.delete k (entries s)\<rparr>) c)"

section \<open>Lookup\<close>

text \<open>The walk over the ancestors of a name, for a cached NXDOMAIN (RFC 8020).\<close>

function checkParentNXDomain :: "time \<Rightarrow> Cache \<Rightarrow> string \<Rightarrow> u16 \<Rightarrow> Entry option" where
  "checkParentNXDomain now c name class =
     (case IndexByte name dot of
        None \<Rightarrow> None
      | Some dotIdx \<Rightarrow>
          (let parent = drop (dotIdx + 1) name in
           if parent = [] then None
           else (case findEntry c (mkKey parent 0 class []) of
                   None \<Rightarrow> checkParentNXDomain now c parent class
                 | Some entry \<Rightarrow>
                     (let ttl = RemainingTTL now entry in
                      if 0 < ttl then Some (WithDecayedTTL entry ttl)
                      else checkParentNXDomain now c parent class))))"
  by pat_completeness auto
termination
  by (relation "measure (\<lambda>(now, c, name, class). length name)") (auto dest: IndexByte_Some)

declare checkParentNXDomain.simps [simp del]

text \<open>First critical section(s) of \<open>Get\<close>: the entry and the key it was found under.\<close>

definition getFind :: "Cache \<Rightarrow> string \<Rightarrow> u16 \<Rightarrow> u16 \<Rightarrow> (cacheKey \<times> Entry) option" where
  "getFind c name qtype class =
     (case findEntry c (mkKey name qtype class []) of
        Some e \<Rightarrow> Some (mkKey name qtype class [], e)
      | None \<Rightarrow> if qtype \<noteq> 0
                then map_option (\<lambda>e. (mkKey name 0 class [], e)) (findEntry c (mkKey name 0 class []))
                else None)"

text \<open>The rest of \<open>Get\<close> once an entry was found.\<close>

definition getFinish :: "time \<Rightarrow> Cache \<Rightarrow> string \<Rightarrow> u16 \<Rightarrow> u16 \<Rightarrow> cacheKey \<Rightarrow> Entry \<Rightarrow> Entry option \<times> Cache" where
  "getFinish now c name qtype class lookupKey entry =
     (let ttl = RemainingTTL now entry in
      if ttl = 0 then
        (None, if serveStale c then c
               else (deleteKey lookupKey c)\<lparr>evictedExpired := evictedExpired c + 1\<rparr>)
      else
        (let threshold = (if OrigTTL entry div 10 = 0 then 1 else OrigTTL entry div 10);
             c = (if prefetchEnabled c \<and> prefetchFunc c \<and> ttl < threshold
                  then (case tryPrefetch entry of (won, entry') \<Rightarrow>
                    (let i = shardIndex (keyName lookupKey); s = shards c i;
                         c = (if map_option entryId (findEntry c lookupKey) = Some (entryId entry)
                              then setShard i (s\<lparr>entries := AList.update lookupKey entry' (entries s)\<rparr>) c else c)
                     in if won then c\<lparr>prefetches := prefetches c @ [(name, qtype, class)]\<rparr> else c))
                  else c)
         in (Some (WithDecayedTTL entry ttl), c)))"

definition Get :: "time \<Rightarrow> Cache \<Rightarrow> string \<Rightarrow> u16 \<Rightarrow> u16 \<Rightarrow> Entry option \<times> Cache" where
  "Get now c name qtype class =
     (let name = ToLower name in
      case getFind c name qtype class of
        None \<Rightarrow> (if hardenBelowNX c \<and> qtype \<noteq> 0 then checkParentNXDomain now c name class else None, c)
      | Some (lookupKey, entry) \<Rightarrow> getFinish now c name qtype class lookupKey entry)"

definition GetStale :: "time \<Rightarrow> Cache \<Rightarrow> string \<Rightarrow> u16 \<Rightarrow> u16 \<Rightarrow> Entry option" where
  "GetStale now c name qtype class =
     (if \<not> serveStale c then None
      else (case findEntry c (mkKey (ToLower name) qtype class []) of
              None \<Rightarrow> None
            | Some entry \<Rightarrow>
                if 0 < RemainingTTL now entry then None
                else Some ((WithDecayedTTL entry (staleTTL c))\<lparr>DNSSECStatus := []\<rparr>)))"

definition Lookup :: "time \<Rightarrow> Cache \<Rightarrow> string \<Rightarrow> u16 \<Rightarrow> u16 \<Rightarrow> Entry option" where
  "Lookup now c name qtype class =
     (case findEntry c (mkKey (ToLower name) qtype class []) of
        None \<Rightarrow> None
      | Some entry \<Rightarrow> (let ttl = RemainingTTL now entry in
                        if ttl = 0 then None else Some (WithDecayedTTL entry ttl)))"

definition LookupAll :: "time \<Rightarrow> Cache \<Rightarrow> string \<Rightarrow> u16 \<Rightarrow> Entry list" where
  "LookupAll now c name class =
     (let name = ToLower name in
      map (\<lambda>(k, e). WithDecayedTTL e (RemainingTTL now e))
        (filter (\<lambda>(k, e). keyName k = name \<and> keyClass k = class \<and> RemainingTTL now e \<noteq> 0)
           (entries (shards c (shardIndex name)))))"

definition GetWithECS :: "time \<Rightarrow> Cache \<Rightarrow> string \<Rightarrow> u16 \<Rightarrow> u16 \<Rightarrow> string \<Rightarrow> Entry option \<times> Cache" where
  "GetWithECS now c name qtype class ecs =
     (if ecs = [] then Get now c name qtype class
      else (case findEntry c (mkKey (ToLower name) qtype class ecs) of
              None \<Rightarrow> (None, c)
            | Some entry \<Rightarrow> (let ttl = RemainingTTL now entry in
                              if ttl = 0 then (None, c) else (Some (WithDecayedTTL entry ttl), c))))"

definition Delete :: "Cache \<Rightarrow> string \<Rightarrow> u16 \<Rightarrow> u16 \<Rightarrow> bool \<times> Cache" where
  "Delete c name qtype class =
     (let k = mkKey (ToLower name) qtype class [] in
      case findEntry c k of None \<Rightarrow> (False, c) | Some _ \<Rightarrow> (True, deleteKey k c))"

section \<open>TTLs\<close>

definition sanitizeWireTTL :: "u32 \<Rightarrow> u32" where
  "sanitizeWireTTL ttl = (if ttl AND 0x80000000 \<noteq> 0 then 0 else ttl)"

definition extractTTL :: "Cache \<Rightarrow> ResourceRecord list \<Rightarrow> u32" where
  "extractTTL c records =
     (case records of
        [] \<Rightarrow> minTTL c
      | rr # rrs \<Rightarrow> fold (\<lambda>rr m. let t = sanitizeWireTTL (rrTTL rr) in if t < m then t else m) rrs
                      (sanitizeWireTTL (rrTTL rr)))"

text \<open>\<open>rr.RData != nil && len(rr.RData) > 0\<close> is non-emptiness; \<open>ParseSOA\<close> does not panic.\<close>

fun extractNegativeTTL :: "ResourceRecord list \<Rightarrow> u32" where
  "extractNegativeTTL [] = 60"
| "extractNegativeTTL (rr # rrs) =
     (if rrType rr = TypeSOA \<and> rrRData rr \<noteq> []
      then (case ParseSOA (rrRData rr) 0 of
              Ret soa \<Rightarrow> (let ttl = sanitizeWireTTL (rrTTL rr); m = sanitizeWireTTL (Minimum soa)
                          in if m < ttl then m else ttl)
            | _ \<Rightarrow> sanitizeWireTTL (rrTTL rr))
      else extractNegativeTTL rrs)"

definition clampTTL :: "Cache \<Rightarrow> u32 \<Rightarrow> u32" where
  "clampTTL c ttl = (if ttl < minTTL c then minTTL c else if maxTTL c < ttl then maxTTL c else ttl)"

definition clampNegativeTTL :: "Cache \<Rightarrow> u32 \<Rightarrow> u32" where
  "clampNegativeTTL c ttl = (if ttl < minTTL c then minTTL c else if negMaxTTL c < ttl then negMaxTTL c else ttl)"

section \<open>Storing\<close>

text \<open>\<open>cloneRRs\<close> copies the records and their RDATA; as a value nothing changes.\<close>

definition cloneRRs :: "ResourceRecord list \<Rightarrow> ResourceRecord list" where
  "cloneRRs rrs = map (\<lambda>rr. rr\<lparr>rrRData := rrRData rr\<rparr>) rrs"

text \<open>The locked tail that every store shares.\<close>

definition storeLocked :: "time \<Rightarrow> Cache \<Rightarrow> cacheKey \<Rightarrow> Entry \<Rightarrow> Cache option" where
  "storeLocked now c k e =
     (let i = shardIndex (keyName k); s = shards c i;
          s = s\<lparr>entries := AList.update k e (entries s)\<rparr>;
          s = pushEvictionEntry k e s
      in case enforceMaxEntriesLocked (maxEntries c) now s of
           None \<Rightarrow> None
         | Some (s, n) \<Rightarrow> Some ((setShard i s c)\<lparr>evictedCapacity := evictedCapacity c + n, allocs := allocs c + 1\<rparr>))"

text \<open>A composite literal \<open>&Entry{...}\<close> with the fields not named at their zero values.\<close>

definition newEntry :: "time \<Rightarrow> Cache \<Rightarrow> u32 \<Rightarrow> Entry" where
  "newEntry now c ttl =
     \<lparr>entryId = allocs c, Records = [], entAuthority = [], InsertedAt = now, OrigTTL = ttl, Negative = False,
      NegType = NegNone, entSOA = None, entRCODE = 0, DNSSECStatus = [], ECSScope = 0, prefetched = False\<rparr>"

definition StoreWithStatus ::
  "time \<Rightarrow> Cache \<Rightarrow> string \<Rightarrow> u16 \<Rightarrow> u16 \<Rightarrow> ResourceRecord list \<Rightarrow> ResourceRecord list \<Rightarrow> string \<Rightarrow> Cache option" where
  "StoreWithStatus now c name qtype class answers auth status =
     (if extractTTL c answers = 0 then Some c
      else (let ttl = clampTTL c (extractTTL c answers) in
            storeLocked now c (mkKey (ToLower name) qtype class [])
              ((newEntry now c ttl)\<lparr>Records := cloneRRs answers, entAuthority := cloneRRs auth,
                 DNSSECStatus := status\<rparr>)))"

definition Store ::
  "time \<Rightarrow> Cache \<Rightarrow> string \<Rightarrow> u16 \<Rightarrow> u16 \<Rightarrow> ResourceRecord list \<Rightarrow> ResourceRecord list \<Rightarrow> Cache option" where
  "Store now c name qtype class answers auth = StoreWithStatus now c name qtype class answers auth []"

definition StoreWithECSStatus ::
  "time \<Rightarrow> Cache \<Rightarrow> string \<Rightarrow> u16 \<Rightarrow> u16 \<Rightarrow> string \<Rightarrow> u8 \<Rightarrow> ResourceRecord list \<Rightarrow> ResourceRecord list \<Rightarrow> string \<Rightarrow> Cache option" where
  "StoreWithECSStatus now c name qtype class ecs scope answers auth status =
     (if ecs = [] then StoreWithStatus now c name qtype class answers auth status
      else if extractTTL c answers = 0 then Some c
      else (let ttl = clampTTL c (extractTTL c answers) in
            storeLocked now c (mkKey (ToLower name) qtype class ecs)
              ((newEntry now c ttl)\<lparr>Records := cloneRRs answers, entAuthority := cloneRRs auth,
                 DNSSECStatus := status, ECSScope := scope\<rparr>)))"

definition StoreWithECS ::
  "time \<Rightarrow> Cache \<Rightarrow> string \<Rightarrow> u16 \<Rightarrow> u16 \<Rightarrow> string \<Rightarrow> ResourceRecord list \<Rightarrow> ResourceRecord list \<Rightarrow> Cache option" where
  "StoreWithECS now c name qtype class ecs answers auth =
     (if ecs = [] then Store now c name qtype class answers auth
      else (let ttl = clampTTL c (extractTTL c answers) in
            storeLocked now c (mkKey (ToLower name) qtype class ecs)
              ((newEntry now c ttl)\<lparr>Records := cloneRRs answers, entAuthority := cloneRRs auth\<rparr>)))"

definition hasAnySOA :: "ResourceRecord list \<Rightarrow> bool" where
  "hasAnySOA auth = list_ex (\<lambda>rr. rrType rr = TypeSOA) auth"

definition authorityCoversName :: "string \<Rightarrow> ResourceRecord list \<Rightarrow> bool" where
  "authorityCoversName qname auth =
     (let q = ToLower (TrimSuffix qname ''.'') in
      list_ex (\<lambda>rr. rrType rr = TypeSOA \<and>
        (let owner = ToLower (TrimSuffix (rrName rr) ''.'')
         in owner = [] \<or> owner = q \<or> HasSuffix q (dot # owner))) auth)"

definition StoreNegative ::
  "time \<Rightarrow> Cache \<Rightarrow> string \<Rightarrow> u16 \<Rightarrow> u16 \<Rightarrow> NegativeType \<Rightarrow> u8 \<Rightarrow> ResourceRecord list \<Rightarrow> Cache option" where
  "StoreNegative now c name qtype class negType rcode auth =
     (if hasAnySOA auth \<and> \<not> authorityCoversName name auth then Some c
      else if extractNegativeTTL auth = 0 then Some c
      else (let storeType = (if negType = NegNXDomain then 0 else qtype);
                ttl = clampNegativeTTL c (extractNegativeTTL auth) in
            storeLocked now c (mkKey (ToLower name) storeType class [])
              ((newEntry now c ttl)\<lparr>entAuthority := cloneRRs auth, Negative := True, NegType := negType,
                 entSOA := find (\<lambda>rr. rrType rr = TypeSOA) auth, entRCODE := rcode\<rparr>)))"

definition MaxFailureTTL :: u32 where "MaxFailureTTL = 30"
definition DefaultFailureTTL :: u32 where "DefaultFailureTTL = 5"

definition StoreFailure :: "time \<Rightarrow> Cache \<Rightarrow> string \<Rightarrow> u16 \<Rightarrow> u16 \<Rightarrow> u32 \<Rightarrow> Cache option" where
  "StoreFailure now c name qtype class ttl =
     (let ttl = (if ttl = 0 then DefaultFailureTTL else ttl);
          ttl = (if MaxFailureTTL < ttl then MaxFailureTTL else ttl) in
      storeLocked now c (mkKey (ToLower name) qtype class [])
        ((newEntry now c ttl)\<lparr>Negative := True, NegType := NegServFail, entRCODE := RCodeServFail\<rparr>))"

section \<open>Settings, sweep, flush, statistics\<close>

definition SetHardenBelowNX :: "bool \<Rightarrow> Cache \<Rightarrow> Cache" where
  "SetHardenBelowNX enabled c = c\<lparr>hardenBelowNX := enabled\<rparr>"

definition SetPrefetchEnabled :: "bool \<Rightarrow> Cache \<Rightarrow> Cache" where
  "SetPrefetchEnabled enabled c = c\<lparr>prefetchEnabled := enabled\<rparr>"

definition SetPrefetchFunc :: "bool \<Rightarrow> Cache \<Rightarrow> Cache" where
  "SetPrefetchFunc nonNil c = c\<lparr>prefetchFunc := nonNil\<rparr>"

definition sweepShard :: "time \<Rightarrow> time \<Rightarrow> shard \<Rightarrow> shard \<times> nat" where
  "sweepShard now clock s =
     (case evictExpiredLocked now clock s 0 of
        (s, n) \<Rightarrow> if entries s \<noteq> [] \<and> Len (evictQ s) = 0
                  then (case evictExpiredFallbackLocked clock s of (s, m) \<Rightarrow> (s, n + m)) else (s, n))"

definition sweep :: "time \<Rightarrow> time \<Rightarrow> Cache \<Rightarrow> Cache" where
  "sweep now clock c =
     (let evicted = sum_list (map (\<lambda>i. snd (sweepShard now clock (shards c (of_nat i)))) [0..<shardCount])
      in c\<lparr>shards := (\<lambda>i. fst (sweepShard now clock (shards c i))), evictedSweep := evictedSweep c + evicted\<rparr>)"

definition Flush :: "Cache \<Rightarrow> Cache" where
  "Flush c = c\<lparr>shards := (\<lambda>i. resetEntries)\<rparr>"

record CacheStats =
  statEntries :: nat
  statPositive :: nat
  statNegative :: nat

definition Stats :: "Cache \<Rightarrow> CacheStats" where
  "Stats c = \<lparr>statEntries = sum_list (map (\<lambda>i. length (entries (shards c (of_nat i)))) [0..<shardCount]),
              statPositive = 0, statNegative = 0\<rparr>"

definition DetailedStats :: "Cache \<Rightarrow> CacheStats" where
  "DetailedStats c =
     (let es = concat (map (\<lambda>i. entries (shards c (of_nat i))) [0..<shardCount]) in
      \<lparr>statEntries = length es, statPositive = length (filter (\<lambda>(k, e). \<not> Negative e) es),
       statNegative = length (filter (\<lambda>(k, e). Negative e) es)\<rparr>)"

end
