(* ===== verification/Cache_Inv.thy ===== *)
theory Cache_Inv
  imports Cache
begin

text \<open>
  What every operation of the cache keeps, and what the stores and the lookups show of the map
  from keys to entries.  The interface between the stored map and its users is the locale
  \<open>forgetful_store\<close>: a store may forget entries to make room but otherwise is a map, from a key to the
  value that was put under it last.
\<close>

section \<open>The interface\<close>

datatype ('k, 'v) op = Put nat 'k 'v | Del 'k

text \<open>What an operation does to a map.\<close>

fun applyOp :: "('k, 'v) op \<Rightarrow> ('k \<rightharpoonup> 'v) \<Rightarrow> ('k \<rightharpoonup> 'v)" where
  "applyOp (Put t k v) m = m(k \<mapsto> v)"
| "applyOp (Del k) m = m(k := None)"

locale forgetful_store =
  fixes view :: "'c \<Rightarrow> 'k \<Rightarrow> 'v option"
    and inv :: "'c \<Rightarrow> bool"
    and ok :: "'c \<Rightarrow> 'k \<Rightarrow> 'v \<Rightarrow> bool"
    and put :: "nat \<Rightarrow> 'c \<Rightarrow> 'k \<Rightarrow> 'v \<Rightarrow> 'c option"
    and del :: "'k \<Rightarrow> 'c \<Rightarrow> 'c"
    and room :: "'c \<Rightarrow> 'k \<Rightarrow> bool"
  assumes put_returns: "inv c \<Longrightarrow> ok c k v \<Longrightarrow> \<exists>c'. put t c k v = Some c' \<and> inv c'"
    and put_view: "inv c \<Longrightarrow> ok c k v \<Longrightarrow> put t c k v = Some c' \<Longrightarrow> view c' k' = Some v' \<Longrightarrow>
      k' = k \<and> v' = v \<or> k' \<noteq> k \<and> view c k' = Some v'"
    and put_room: "inv c \<Longrightarrow> ok c k v \<Longrightarrow> room c k \<Longrightarrow> put t c k v = Some c' \<Longrightarrow> view c' = (view c)(k \<mapsto> v)"
    and del_inv: "inv c \<Longrightarrow> inv (del k c)"
    and del_view: "view (del k c) = (view c)(k := None)"
begin

fun run :: "('k, 'v) op list \<Rightarrow> 'c \<Rightarrow> 'c option" where
  "run [] c = Some c"
| "run (Put t k v # ops) c = (if ok c k v then (case put t c k v of None \<Rightarrow> None | Some c' \<Rightarrow> run ops c') else None)"
| "run (Del k # ops) c = run ops (del k c)"

lemma run_inv: "inv c \<Longrightarrow> run ops c = Some c' \<Longrightarrow> inv c'"
proof (induction ops c rule: run.induct)
  case (2 t k v ops c)
  then have "ok c k v" by (auto split: if_splits)
  with put_returns [OF "2.prems"(1) this, of t] 2 show ?case by auto
qed (auto simp: del_inv)

text \<open>Every store of the run finds room.\<close>

fun roomFor :: "('k, 'v) op list \<Rightarrow> 'c \<Rightarrow> bool" where
  "roomFor [] c = True"
| "roomFor (Put t k v # ops) c = (room c k \<and> (case put t c k v of None \<Rightarrow> False | Some c' \<Rightarrow> roomFor ops c'))"
| "roomFor (Del k # ops) c = roomFor ops (del k c)"

text \<open>After a run the store shows a part of the map that the operations make, and all of it if there was room.\<close>

lemma run_part:
  "inv c \<Longrightarrow> run ops c = Some c' \<Longrightarrow> view c \<subseteq>\<^sub>m m \<Longrightarrow> view c' \<subseteq>\<^sub>m fold applyOp ops m"
proof (induction ops c arbitrary: m rule: run.induct)
  case (2 t k v ops c)
  then have ok: "ok c k v" by (auto split: if_splits)
  obtain c1 where c1: "put t c k v = Some c1" "inv c1" using put_returns [OF "2.prems"(1) ok] by blast
  have "view c1 k' = Some v' \<Longrightarrow> (m(k \<mapsto> v)) k' = Some v'" for k' v'
    using put_view [OF "2.prems"(1) ok c1(1), of k' v'] "2.prems"(3) by (auto simp: map_le_def dom_def)
  then have "view c1 \<subseteq>\<^sub>m m(k \<mapsto> v)" by (fastforce simp: map_le_def dom_def)
  with 2 ok c1 show ?case by auto
next
  case (3 k ops c)
  have "view (del k c) \<subseteq>\<^sub>m m(k := None)" using "3.prems"(3) by (auto simp: map_le_def del_view dom_def)
  with 3 show ?case by (simp add: del_inv)
qed simp

lemma run_exact:
  "inv c \<Longrightarrow> run ops c = Some c' \<Longrightarrow> roomFor ops c \<Longrightarrow> view c' = fold applyOp ops (view c)"
proof (induction ops c rule: run.induct)
  case (2 t k v ops c)
  then have ok: "ok c k v" by (auto split: if_splits)
  obtain c1 where c1: "put t c k v = Some c1" "inv c1" using put_returns [OF "2.prems"(1) ok] by blast
  with 2 ok put_room [OF "2.prems"(1) ok _ c1(1)] show ?case by auto
qed (auto simp: del_inv del_view)

end

section \<open>The invariant\<close>

definition ttlLimit :: "Cache \<Rightarrow> u32" where
  "ttlLimit c = max (max (minTTL c) (maxTTL c)) (max (negMaxTTL c) MaxFailureTTL)"

definition entry_wf :: "Cache \<Rightarrow> u8 \<Rightarrow> cacheKey \<times> Entry \<Rightarrow> bool" where
  "entry_wf c i = (\<lambda>(k, e). shardIndex (keyName k) = i \<and> ToLower (keyName k) = keyName k \<and>
     OrigTTL e \<le> ttlLimit c \<and> entryId e < allocs c)"

definition shard_wf :: "Cache \<Rightarrow> u8 \<Rightarrow> shard \<Rightarrow> bool" where
  "shard_wf c i s \<longleftrightarrow> shard_inv s \<and> (\<forall>x \<in> set (entries s). entry_wf c i x) \<and>
     (\<forall>it \<in> set (evictQ s). itemEntry it < allocs c) \<and>
     (0 < maxEntries c \<longrightarrow> length (entries s) \<le> nat (maxEntries c) div shardCount + 1)"

definition cache_inv :: "Cache \<Rightarrow> bool" where
  "cache_inv c \<longleftrightarrow> (\<forall>i. shard_wf c i (shards c i))"

text \<open>Two caches with the same settings and allocations have the same well-formedness.\<close>

definition same_settings :: "Cache \<Rightarrow> Cache \<Rightarrow> bool" where
  "same_settings c c' \<longleftrightarrow> maxEntries c' = maxEntries c \<and> minTTL c' = minTTL c \<and> maxTTL c' = maxTTL c \<and>
     negMaxTTL c' = negMaxTTL c \<and> allocs c \<le> allocs c'"

lemma same_settings_refl [simp]: "same_settings c c"
  by (simp add: same_settings_def)

lemma shard_wf_mono: "same_settings c c' \<Longrightarrow> shard_wf c i s \<Longrightarrow> shard_wf c' i s"
  by (fastforce simp: same_settings_def shard_wf_def entry_wf_def ttlLimit_def)

lemma cache_inv_new [simp]: "cache_inv (NewCacheWithStale mx mn mxt neg ss st)"
  by (simp add: cache_inv_def shard_wf_def NewCacheWithStale_def queue_inv_def resetEntries_def)

lemma cache_inv_setShard:
  assumes "cache_inv c" and "same_settings c c'" and "shard_wf c' i s" and "shards c' = (shards c)(i := s)"
  shows "cache_inv c'"
  using assms shard_wf_mono unfolding cache_inv_def by auto

text \<open>Removing entries and queue items.\<close>

lemma delete_subset: "set (AList.delete k es) \<subseteq> set es"
  by (auto simp: AList.delete_eq)

lemma queue_inv_delete:
  assumes "queue_inv es q" shows "queue_inv (AList.delete k es) q"
  unfolding queue_inv_def
proof (intro conjI ballI allI impI)
  show "distinct (map fst (AList.delete k es))" using assms by (auto simp: queue_inv_def distinct_delete)
  show "is_heap q" using assms by (simp add: queue_inv_def)
  show "case x of (k, e) \<Rightarrow> queued q k e" if "x \<in> set (AList.delete k es)" for x
    using subsetD [OF delete_subset that] assms by (auto simp: queue_inv_def)
  show "expiresAt it = expiry e"
    if "it \<in> set q" "map_of (AList.delete k es) (itemKey it) = Some e" "itemEntry it = entryId e" for it e
    using that queue_invD(4) [OF assms] by (auto simp: delete_conv' split: if_splits)
qed

lemma shard_wf_shrink:
  assumes "shard_wf c i s" and "queue_inv (entries s') (evictQ s')" and "set (entries s') \<subseteq> set (entries s)"
    and "length (entries s') \<le> length (entries s)" and "set (evictQ s') \<subseteq> set (evictQ s)"
  shows "shard_wf c i s'"
  using assms by (auto simp: shard_wf_def)

lemma findEntry_deleteKey: "findEntry (deleteKey k c) = (findEntry c)(k := None)"
  by (rule ext) (auto simp: findEntry_def deleteKey_def setShard_def Let_def delete_conv')

lemma cache_inv_deleteKey:
  assumes "cache_inv c" shows "cache_inv (deleteKey k c)"
proof -
  let ?i = "shardIndex (keyName k)"
  let ?s = "(shards c ?i)\<lparr>entries := AList.delete k (entries (shards c ?i))\<rparr>"
  have "shard_wf c ?i (shards c ?i)" using assms by (simp add: cache_inv_def)
  then have "shard_wf c ?i ?s"
    by (rule shard_wf_shrink) (use assms in \<open>auto simp: cache_inv_def shard_wf_def queue_inv_delete length_delete_le
        dest: subsetD [OF delete_subset]\<close>)
  then have "shard_wf (deleteKey k c) ?i ?s"
    by (rule shard_wf_mono [rotated]) (simp add: deleteKey_def setShard_def same_settings_def Let_def)
  then show ?thesis
    by (intro cache_inv_setShard [OF assms, of "deleteKey k c" ?i ?s])
       (simp_all add: deleteKey_def setShard_def same_settings_def Let_def)
qed

section \<open>Storing\<close>

text \<open>The entry a store brings: a fresh allocation under a lower-case name with a bounded TTL.\<close>

definition storable :: "Cache \<Rightarrow> cacheKey \<Rightarrow> Entry \<Rightarrow> bool" where
  "storable c k e \<longleftrightarrow> entryId e = allocs c \<and> ToLower (keyName k) = keyName k \<and> OrigTTL e \<le> ttlLimit c"

lemma set_update_cases:
  assumes "distinct (map fst es)" and "x \<in> set (AList.update k v es)"
  shows "x = (k, v) \<or> x \<in> set es \<and> fst x \<noteq> k"
proof -
  have "map_of (AList.update k v es) (fst x) = Some (snd x)"
    using assms by (simp add: distinct_update)
  then show ?thesis by (cases x) (auto simp: update_conv' dest: map_of_SomeD split: if_splits)
qed

lemma queue_inv_push:
  assumes inv: "queue_inv es q" and fresh: "\<forall>it \<in> set q. itemEntry it < entryId e"
    and ex: "itemKey x = k" "itemEntry x = entryId e" "expiresAt x = expiry e"
  shows "queue_inv (AList.update k e es) (heapPush q x)"
proof -
  have h: "is_heap q" and d: "distinct (map fst es)" using queue_invD [OF inv] by blast+
  have "set_mset (mset (heapPush q x)) = insert x (set q)" by (subst evq.put_items [OF h]) simp
  then have sq: "set (heapPush q x) = insert x (set q)" by simp
  show ?thesis
    unfolding queue_inv_def
  proof (intro conjI ballI allI impI)
    show "distinct (map fst (AList.update k e es))" using d by (rule distinct_update)
    show "is_heap (heapPush q x)" using h by (rule evq.put_inv)
    show "case y of (k, e) \<Rightarrow> queued (heapPush q x) k e" if "y \<in> set (AList.update k e es)" for y
      using set_update_cases [OF d that] inv sq ex by (fastforce simp: queue_inv_def queued_def)
    show "expiresAt it = expiry e'"
      if it: "it \<in> set (heapPush q x)" "map_of (AList.update k e es) (itemKey it) = Some e'" "itemEntry it = entryId e'" for it e'
    proof (cases "itemKey it = k")
      case True
      with it have "e' = e" by (simp add: update_conv')
      with it fresh sq ex show ?thesis by auto
    next
      case False
      with it sq ex queue_invD(4) [OF inv] show ?thesis by (auto simp: update_conv')
    qed
  qed
qed

lemma enforce_ends:
  assumes "shard_inv s"
  shows "\<exists>s' n. enforceMaxEntriesLocked mx now s = Some (s', n) \<and> shard_inv s' \<and> set (entries s') \<subseteq> set (entries s) \<and>
     set (evictQ s') \<subseteq> set (evictQ s) \<and> (0 < mx \<longrightarrow> length (entries s') \<le> nat mx div shardCount + 1) \<and>
     (mx \<le> 0 \<or> length (entries s) \<le> nat mx div shardCount + 1 \<longrightarrow> s' = s)"
proof (cases "mx \<le> 0")
  case True
  with assms show ?thesis by (simp add: enforceMaxEntriesLocked_def)
next
  case False
  let ?cap = "nat mx div shardCount + 1"
  obtain s' n' where "enforceLoop now ?cap s 0 = Some (s', n')" "shard_inv s'"
    "length (entries s') = min ?cap (length (entries s))" "set (entries s') \<subseteq> set (entries s)" "set (evictQ s') \<subseteq> set (evictQ s)"
    using enforceLoop_ends [OF assms, of now ?cap 0] by blast
  moreover have "enforceLoop now ?cap s 0 = Some (s, 0)" if "length (entries s) \<le> ?cap"
    using that by (subst enforceLoop.simps) simp
  ultimately show ?thesis using False by (auto simp: enforceMaxEntriesLocked_def)
qed

text \<open>There is room for \<open>k\<close> in its shard.\<close>

definition room :: "Cache \<Rightarrow> cacheKey \<Rightarrow> bool" where
  "room c k \<longleftrightarrow> maxEntries c \<le> 0 \<or> findEntry c k \<noteq> None \<or>
     length (entries (shards c (shardIndex (keyName k)))) \<le> nat (maxEntries c) div shardCount"

lemma length_update:
  "length (AList.update k v es) = (if map_of es k = None then length es + 1 else length es)"
  by (induction es) auto

lemma map_of_subset:
  assumes "distinct (map fst xs)" and "distinct (map fst ys)" and "set xs \<subseteq> set ys" and "map_of xs k = Some v"
  shows "map_of ys k = Some v"
  using assms by (metis map_of_SomeD map_of_is_SomeI subsetD)

lemma storeLocked_unfold:
  assumes inv: "cache_inv c" and st: "storable c k e"
  defines "i \<equiv> shardIndex (keyName k)"
  defines "s \<equiv> pushEvictionEntry k e ((shards c i)\<lparr>entries := AList.update k e (entries (shards c i))\<rparr>)"
  obtains s' n where "storeLocked now c k e = Some ((setShard i s' c)\<lparr>evictedCapacity := evictedCapacity c + n, allocs := allocs c + 1\<rparr>)"
    "shard_wf (c\<lparr>allocs := allocs c + 1\<rparr>) i s'" "set (entries s') \<subseteq> set (AList.update k e (entries (shards c i)))"
    "room c k \<longrightarrow> entries s' = AList.update k e (entries (shards c i))"
proof -
  let ?x = "\<lparr>itemKey = k, itemEntry = entryId e, expiresAt = InsertedAt e + unat (OrigTTL e) * second\<rparr>"
  let ?es = "AList.update k e (entries (shards c i))"
  let ?c = "c\<lparr>allocs := allocs c + 1\<rparr>"
  have wf: "shard_wf c i (shards c i)" using inv by (simp add: cache_inv_def)
  then have qi: "queue_inv (entries (shards c i)) (evictQ (shards c i))" by (simp add: shard_wf_def)
  have s: "entries s = ?es" "evictQ s = heapPush (evictQ (shards c i)) ?x"
    by (simp_all add: s_def pushEvictionEntry_def)
  have "queue_inv ?es (heapPush (evictQ (shards c i)) ?x)"
    using wf st by (intro queue_inv_push [OF qi]) (auto simp: shard_wf_def storable_def expiry_def)
  then have si: "shard_inv s" by (simp add: s)
  obtain s' n where s': "enforceMaxEntriesLocked (maxEntries c) now s = Some (s', n)" "shard_inv s'"
    "set (entries s') \<subseteq> set ?es" "set (evictQ s') \<subseteq> set (evictQ s)"
    "0 < maxEntries c \<longrightarrow> length (entries s') \<le> nat (maxEntries c) div shardCount + 1"
    "maxEntries c \<le> 0 \<or> length ?es \<le> nat (maxEntries c) div shardCount + 1 \<longrightarrow> s' = s"
    using enforce_ends [OF si, of "maxEntries c" now] by (auto simp: s)
  have "set_mset (mset (evictQ s)) = insert ?x (set (evictQ (shards c i)))"
    unfolding s(2) by (subst evq.put_items [OF queue_invD(2) [OF qi]]) simp
  then have sq: "set (evictQ s) = insert ?x (set (evictQ (shards c i)))" by simp
  have "entry_wf ?c i x" if "x \<in> set (entries s')" for x
    using set_update_cases [OF queue_invD(1) [OF qi], of x k e] that s'(3) wf st
    by (fastforce simp: shard_wf_def entry_wf_def storable_def ttlLimit_def i_def)
  moreover have "itemEntry it < allocs ?c" if "it \<in> set (evictQ s')" for it
    using that s'(4) sq wf st by (fastforce simp: shard_wf_def storable_def)
  ultimately have "shard_wf ?c i s'" using s'(2,5) by (simp add: shard_wf_def)
  moreover have "entries s' = ?es" if "room c k"
  proof -
    have "length (entries (shards c i)) \<le> nat (maxEntries c) div shardCount + 1" if "0 < maxEntries c"
      using that wf by (simp add: shard_wf_def)
    with \<open>room c k\<close> s'(6) s(1) show ?thesis
      by (auto simp: room_def length_update findEntry_def i_def split: if_splits)
  qed
  moreover have "storeLocked now c k e =
      Some ((setShard i s' c)\<lparr>evictedCapacity := evictedCapacity c + n, allocs := allocs c + 1\<rparr>)"
    using s'(1) by (simp add: storeLocked_def Let_def s_def i_def)
  ultimately show thesis using that s'(3) by blast
qed

lemma storeLocked_ok:
  assumes inv: "cache_inv c" and st: "storable c k e"
  shows "\<exists>c'. storeLocked now c k e = Some c' \<and> cache_inv c' \<and> same_settings c c' \<and>
     (\<forall>k' v. findEntry c' k' = Some v \<longrightarrow> k' = k \<and> v = e \<or> k' \<noteq> k \<and> findEntry c k' = Some v) \<and>
     (room c k \<longrightarrow> findEntry c' = (findEntry c)(k \<mapsto> e))"
proof -
  let ?i = "shardIndex (keyName k)"
  let ?es = "AList.update k e (entries (shards c ?i))"
  obtain s' n where eq: "storeLocked now c k e =
      Some ((setShard ?i s' c)\<lparr>evictedCapacity := evictedCapacity c + n, allocs := allocs c + 1\<rparr>)" (is "_ = Some ?c'")
    and wf: "shard_wf (c\<lparr>allocs := allocs c + 1\<rparr>) ?i s'" and sub: "set (entries s') \<subseteq> set ?es"
    and rm: "room c k \<longrightarrow> entries s' = ?es"
    by (rule storeLocked_unfold [OF inv st])
  have ss: "same_settings c ?c'" by (simp add: same_settings_def setShard_def)
  have "same_settings (c\<lparr>allocs := allocs c + 1\<rparr>) ?c'" by (simp add: same_settings_def setShard_def)
  then have "cache_inv ?c'"
    by (intro cache_inv_setShard [OF inv ss shard_wf_mono [OF _ wf]]) (simp_all add: setShard_def)
  moreover have d: "distinct (map fst ?es)"
    using inv by (intro distinct_update) (simp add: cache_inv_def shard_wf_def queue_inv_def)
  have fe: "findEntry ?c' k' = (if shardIndex (keyName k') = ?i then map_of (entries s') k' else findEntry c k')" for k'
    by (simp add: findEntry_def setShard_def)
  have "k' = k \<and> v = e \<or> k' \<noteq> k \<and> findEntry c k' = Some v" if f: "findEntry ?c' k' = Some v" for k' v
  proof (cases "shardIndex (keyName k') = ?i")
    case True
    have "distinct (map fst (entries s'))" using wf by (simp add: shard_wf_def queue_inv_def)
    with f True have "map_of ?es k' = Some v" using fe [of k'] map_of_subset [OF _ d sub] by simp
    with True show ?thesis by (auto simp: update_conv' findEntry_def split: if_splits)
  qed (use f fe [of k'] in auto)
  moreover have "findEntry ?c' = (findEntry c)(k \<mapsto> e)" if "room c k"
    using rm that fe by (intro ext) (auto simp: update_conv' findEntry_def)
  ultimately show ?thesis using eq ss by blast
qed

interpretation kv: forgetful_store findEntry cache_inv storable storeLocked deleteKey room
proof
  fix c k e t c' k' v'
  assume a: "cache_inv c" "storable c k e"
  show "\<exists>c'. storeLocked t c k e = Some c' \<and> cache_inv c'" using storeLocked_ok [OF a, of t] by blast
  show "findEntry c' = (findEntry c)(k \<mapsto> e)" if "room c k" "storeLocked t c k e = Some c'"
    using that storeLocked_ok [OF a, of t] by auto
  assume "storeLocked t c k e = Some c'" "findEntry c' k' = Some v'"
  then show "k' = k \<and> v' = e \<or> k' \<noteq> k \<and> findEntry c k' = Some v'"
    using storeLocked_ok [OF a, of t] by auto
qed (simp_all add: cache_inv_deleteKey findEntry_deleteKey)

section \<open>Every operation keeps the invariant\<close>

lemma clamp_limits: "clampTTL c t \<le> ttlLimit c" "clampNegativeTTL c t \<le> ttlLimit c" "t \<le> MaxFailureTTL \<Longrightarrow> t \<le> ttlLimit c"
  by (auto simp: clampTTL_def clampNegativeTTL_def ttlLimit_def le_max_iff_disj)

lemma storable_new: "ToLower n = n \<Longrightarrow> ttl \<le> ttlLimit c \<Longrightarrow> entryId e = allocs c \<Longrightarrow> OrigTTL e = ttl \<Longrightarrow>
  storable c (mkKey n t cl p) e"
  by (simp add: storable_def)

text \<open>What a store may do to the cache: nothing, or put one storable entry.\<close>

definition stores :: "time \<Rightarrow> Cache \<Rightarrow> Cache option \<Rightarrow> bool" where
  "stores now c r \<longleftrightarrow> r = Some c \<or> (\<exists>k e. storable c k e \<and> InsertedAt e = now \<and> r = storeLocked now c k e)"

lemma stores_all:
  "stores now c (StoreWithStatus now c name qtype class answers auth status)"
  "stores now c (Store now c name qtype class answers auth)"
  "stores now c (StoreWithECSStatus now c name qtype class ecs scope answers auth status)"
  "stores now c (StoreWithECS now c name qtype class ecs answers auth)"
  "stores now c (StoreNegative now c name qtype class neg rcode auth)"
  "stores now c (StoreFailure now c name qtype class ttl)"
proof -
  have one: "stores now c (storeLocked now c k e)" if "storable c k e" "InsertedAt e = now" for k e
    using that by (auto simp: stores_def)
  have nop: "stores now c (Some c)" by (simp add: stores_def)
  show s: "stores now c (StoreWithStatus now c name qtype class answers auth status)" for status
    by (auto simp: StoreWithStatus_def Let_def newEntry_def clamp_limits nop intro!: one storable_new [OF _ clamp_limits(1)])
  then show s': "stores now c (Store now c name qtype class answers auth)" by (simp add: Store_def)
  show "stores now c (StoreWithECSStatus now c name qtype class ecs scope answers auth status)"
    using s by (auto simp: StoreWithECSStatus_def Let_def newEntry_def clamp_limits nop intro!: one storable_new [OF _ clamp_limits(1)])
  show "stores now c (StoreWithECS now c name qtype class ecs answers auth)"
    using s' by (auto simp: StoreWithECS_def Let_def newEntry_def clamp_limits nop intro!: one storable_new [OF _ clamp_limits(1)])
  show "stores now c (StoreNegative now c name qtype class neg rcode auth)"
    by (auto simp: StoreNegative_def Let_def newEntry_def clamp_limits nop intro!: one storable_new [OF _ clamp_limits(2)])
  have "(if MaxFailureTTL < t then MaxFailureTTL else t) \<le> MaxFailureTTL" for t by auto
  then show "stores now c (StoreFailure now c name qtype class ttl)"
    unfolding StoreFailure_def Let_def
    by (intro one storable_new [OF _ clamp_limits(3)]) (simp_all add: newEntry_def)
qed

lemma stores_returns: "cache_inv c \<Longrightarrow> stores now c r \<Longrightarrow> \<exists>c'. r = Some c' \<and> cache_inv c' \<and> same_settings c c'"
  using storeLocked_ok by (fastforce simp: stores_def)

lemma queue_inv_refresh:
  assumes inv: "queue_inv es q" and k: "map_of es k = Some e" and e': "entryId e' = entryId e" "expiry e' = expiry e"
  shows "queue_inv (AList.update k e' es) q"
proof -
  note d = queue_invD(1) [OF inv]
  have "queued q k' v" if "(k', v) \<in> set (AList.update k e' es)" for k' v
    using set_update_cases [OF d that] queue_invD(3) [OF inv k] inv e'
    by (auto simp: queue_inv_def queued_def)
  moreover have "expiresAt it = expiry v"
    if "it \<in> set q" "map_of (AList.update k e' es) (itemKey it) = Some v" "itemEntry it = entryId v" for it v
    using that queue_invD(4) [OF inv, of it] k e' by (auto simp: update_conv' split: if_splits)
  ultimately show ?thesis
    using d distinct_update [OF d] queue_invD(2) [OF inv] unfolding queue_inv_def by auto
qed

lemma shard_wf_refresh:
  assumes wf: "shard_wf c i s" and k: "map_of (entries s) k = Some e" and e': "entryId e' = entryId e" "expiry e' = expiry e"
    "OrigTTL e' = OrigTTL e"
  shows "shard_wf c i (s\<lparr>entries := AList.update k e' (entries s)\<rparr>)"
proof -
  have qi: "queue_inv (entries s) (evictQ s)" using wf by (simp add: shard_wf_def)
  have "entry_wf c i x" if "x \<in> set (AList.update k e' (entries s))" for x
    using set_update_cases [OF queue_invD(1) [OF qi] that] map_of_SomeD [OF k] wf e'
    by (fastforce simp: shard_wf_def entry_wf_def)
  with wf queue_inv_refresh [OF qi k e'(1,2)] k show ?thesis by (simp add: shard_wf_def length_update)
qed

lemma cache_inv_cong:
  "shards c' = shards c \<Longrightarrow> same_settings c c' \<Longrightarrow> cache_inv c \<Longrightarrow> cache_inv c'"
  using shard_wf_mono by (auto simp: cache_inv_def)

lemma getFind_Some: "getFind c name qtype class = Some (k, e) \<Longrightarrow> findEntry c k = Some e \<and> keyName k = name"
  by (auto simp: getFind_def split: option.splits if_splits)

lemma getFinish_inv:
  assumes inv: "cache_inv c" and k: "findEntry c k = Some e"
  shows "cache_inv (snd (getFinish now c name qtype class k e))"
proof -
  let ?i = "shardIndex (keyName k)"
  let ?e = "snd (tryPrefetch e)"
  let ?s = "(shards c ?i)\<lparr>entries := AList.update k ?e (entries (shards c ?i))\<rparr>"
  have "entryId ?e = entryId e" "expiry ?e = expiry e" "OrigTTL ?e = OrigTTL e"
    by (simp_all add: tryPrefetch_def expiry_def)
  then have "shard_wf c ?i ?s"
    using inv k by (intro shard_wf_refresh [of _ _ _ _ e]) (simp_all add: cache_inv_def findEntry_def)
  then have upd: "cache_inv (setShard ?i ?s c)"
    using shard_wf_mono [of c "setShard ?i ?s c"]
    by (intro cache_inv_setShard [OF inv, of _ ?i ?s]) (simp_all add: setShard_def same_settings_def)
  have cong: "cache_inv (c'\<lparr>prefetches := p\<rparr>)" "cache_inv (c'\<lparr>evictedExpired := n\<rparr>)" if "cache_inv c'" for c' p n
    using that by (auto intro: cache_inv_cong [rotated 2] simp: same_settings_def)
  show ?thesis
    using upd inv cong cache_inv_deleteKey [OF inv, of k] k
    by (auto simp: getFinish_def Let_def split: prod.splits)
qed

lemma Get_inv: "cache_inv c \<Longrightarrow> cache_inv (snd (Get now c name qtype class))"
  using getFinish_inv getFind_Some by (fastforce simp: Get_def Let_def split: option.split)

lemma GetWithECS_inv: "cache_inv c \<Longrightarrow> cache_inv (snd (GetWithECS now c name qtype class ecs))"
  using Get_inv by (auto simp: GetWithECS_def Let_def split: option.split)

lemma Delete_inv: "cache_inv c \<Longrightarrow> cache_inv (snd (Delete c name qtype class))"
  by (auto simp: Delete_def Let_def cache_inv_deleteKey split: option.split)

lemma Flush_inv: "cache_inv (Flush c)"
  by (simp add: cache_inv_def shard_wf_def Flush_def queue_inv_def resetEntries_def)

section \<open>Sweeping\<close>

text \<open>Every entry was inserted at or before \<open>t\<close>.\<close>

definition inserted_by :: "time \<Rightarrow> Cache \<Rightarrow> bool" where
  "inserted_by t c \<longleftrightarrow> (\<forall>i. \<forall>(k, e) \<in> set (entries (shards c i)). InsertedAt e \<le> t)"

lemma inserted_by_mono: "inserted_by t c \<Longrightarrow> t \<le> t' \<Longrightarrow> inserted_by t' c"
  by (fastforce simp: inserted_by_def)

lemma inserted_by_find: "cache_inv c \<Longrightarrow> inserted_by t c \<longleftrightarrow> (\<forall>k e. findEntry c k = Some e \<longrightarrow> InsertedAt e \<le> t)"
proof
  show "inserted_by t c \<Longrightarrow> \<forall>k e. findEntry c k = Some e \<longrightarrow> InsertedAt e \<le> t"
    by (auto simp: inserted_by_def findEntry_def dest!: map_of_SomeD)
  assume inv: "cache_inv c" and f: "\<forall>k e. findEntry c k = Some e \<longrightarrow> InsertedAt e \<le> t"
  have "InsertedAt e \<le> t" if x: "(k, e) \<in> set (entries (shards c i))" for i k e
  proof -
    have wf: "shard_wf c i (shards c i)" using inv by (simp add: cache_inv_def)
    then have "shardIndex (keyName k) = i" using x by (auto simp: shard_wf_def entry_wf_def)
    moreover have "map_of (entries (shards c i)) k = Some e" using wf x by (simp add: shard_wf_def queue_inv_def)
    ultimately show ?thesis using f by (auto simp: findEntry_def)
  qed
  then show "inserted_by t c" by (auto simp: inserted_by_def)
qed

lemma aged_shard:
  assumes "inserted_by now c" and "now \<le> clock" and "clock < 2 ^ 32 * second"
  shows "aged now clock (entries (shards c i))"
proof -
  have "in_range clock e" for e
  proof -
    have "clock - InsertedAt e < 2 ^ 32 * second" using assms(3) by simp
    then show ?thesis unfolding in_range_def by (simp add: less_mult_imp_div_less)
  qed
  with assms(1,2) show ?thesis by (auto simp: aged_def inserted_by_def)
qed

lemma evictExpired_queue:
  "is_heap (evictQ s) \<Longrightarrow> evictExpiredLocked now clock s n = (s', n') \<Longrightarrow> set (evictQ s') \<subseteq> set (evictQ s)"
proof (induction now clock s n arbitrary: s' n' rule: evictExpiredLocked.induct)
  case (1 now clock s n)
  show ?case
  proof (cases "evictQ s = [] \<or> now < expiresAt (evictQ s ! 0)")
    case True
    with "1.prems"(2) show ?thesis by (subst (asm) evictExpiredLocked.simps) (auto split: if_splits)
  next
    case False
    then have ne: "evictQ s \<noteq> []" and due: "\<not> now < expiresAt (evictQ s ! 0)" by auto
    obtain x q' where x: "heapPop (evictQ s) = (x, q')" by fastforce
    note ps = pop_set [OF "1.prems"(1) ne x]
    note ih = "1.IH" [OF ne due x [symmetric] refl]
    show ?thesis
    proof (cases "map_of (entries s) (itemKey x)")
      case None
      with ih(1) [of s' n'] "1.prems"(2) ne due x ps show ?thesis
        by (subst (asm) (2) evictExpiredLocked.simps) auto
    next
      case (Some e)
      with ih(2,3,4) [of e s' n'] "1.prems"(2) ne due x ps show ?thesis
        by (subst (asm) (4) evictExpiredLocked.simps) (auto simp: Let_def split: if_splits)
    qed
  qed
qed

lemma sweepShard_live:
  assumes "shard_inv s" and "aged now clock (entries s)"
  shows "entries (fst (sweepShard now clock s)) = filter (live now) (entries s)"
    and "snd (sweepShard now clock s) = length (filter (\<lambda>x. \<not> live now x) (entries s))"
    and "shard_inv (fst (sweepShard now clock s))"
    and "set (evictQ (fst (sweepShard now clock s))) \<subseteq> set (evictQ s)"
proof -
  obtain q where q: "evictExpiredLocked now clock s 0 =
      (\<lparr>entries = filter (live now) (entries s), evictQ = q\<rparr>, length (filter (\<lambda>x. \<not> live now x) (entries s)))"
    "queue_inv (filter (live now) (entries s)) q"
    using evictExpired_filters [OF assms, of 0] by auto
  have "filter (live now) (entries s) = []" if "q = []" using q(2) queue_inv_empty_queue that by blast
  with q(1) have eq: "sweepShard now clock s = (\<lparr>entries = filter (live now) (entries s), evictQ = q\<rparr>,
      length (filter (\<lambda>x. \<not> live now x) (entries s)))" by (auto simp: sweepShard_def Len_def)
  show "entries (fst (sweepShard now clock s)) = filter (live now) (entries s)"
    "snd (sweepShard now clock s) = length (filter (\<lambda>x. \<not> live now x) (entries s))"
    "shard_inv (fst (sweepShard now clock s))" using eq q(2) by simp_all
  show "set (evictQ (fst (sweepShard now clock s))) \<subseteq> set (evictQ s)"
    using evictExpired_queue [OF queue_invD(2) [OF assms(1)] q(1)] eq by simp
qed

lemma sweep_inv:
  assumes "cache_inv c" and "inserted_by now c" and "now \<le> clock" and "clock < 2 ^ 32 * second"
  shows "cache_inv (sweep now clock c)"
proof -
  have "shard_wf c i (fst (sweepShard now clock (shards c i)))" for i
  proof -
    have wf: "shard_wf c i (shards c i)" using assms(1) by (simp add: cache_inv_def)
    then have "shard_inv (shards c i)" by (simp add: shard_wf_def)
    note sw = sweepShard_live [OF this aged_shard [OF assms(2-4)]]
    show ?thesis by (rule shard_wf_shrink [OF wf sw(3) _ _ sw(4)]) (auto simp: sw(1))
  qed
  then show ?thesis
    using shard_wf_mono [of c "sweep now clock c"]
    by (simp add: cache_inv_def sweep_def Let_def same_settings_def)
qed

end
