(* ===== verification/Cache_Properties.thy ===== *)
theory Cache_Properties
  imports Cache_Inv
begin

text \<open>
  The cache as a state machine: the states reachable by its operations at advancing clock
  readings, and the properties of package \<open>cache\<close>.
\<close>

section \<open>Reachable caches\<close>

text \<open>\<open>cache_run t c\<close>: \<open>c\<close> is the state after operations the last of which read the clock \<open>t\<close>.\<close>

inductive cache_run :: "time \<Rightarrow> Cache \<Rightarrow> bool" where
  new: "cache_run t (NewCacheWithStale mx mn mxt neg ss st)"
| get: "cache_run t c \<Longrightarrow> t \<le> now \<Longrightarrow> Get now c name qtype class = (r, c') \<Longrightarrow> cache_run now c'"
| getECS: "cache_run t c \<Longrightarrow> t \<le> now \<Longrightarrow> GetWithECS now c name qtype class ecs = (r, c') \<Longrightarrow> cache_run now c'"
| store: "cache_run t c \<Longrightarrow> t \<le> now \<Longrightarrow> StoreWithStatus now c name qtype class an au status = Some c' \<Longrightarrow> cache_run now c'"
| storeECSStatus: "cache_run t c \<Longrightarrow> t \<le> now \<Longrightarrow>
     StoreWithECSStatus now c name qtype class ecs scope an au status = Some c' \<Longrightarrow> cache_run now c'"
| storeECS: "cache_run t c \<Longrightarrow> t \<le> now \<Longrightarrow> StoreWithECS now c name qtype class ecs an au = Some c' \<Longrightarrow> cache_run now c'"
| storeNegative: "cache_run t c \<Longrightarrow> t \<le> now \<Longrightarrow> StoreNegative now c name qtype class neg rcode au = Some c' \<Longrightarrow> cache_run now c'"
| storeFailure: "cache_run t c \<Longrightarrow> t \<le> now \<Longrightarrow> StoreFailure now c name qtype class ttl = Some c' \<Longrightarrow> cache_run now c'"
| delete: "cache_run t c \<Longrightarrow> t \<le> now \<Longrightarrow> Delete c name qtype class = (r, c') \<Longrightarrow> cache_run now c'"
| sweep: "cache_run t c \<Longrightarrow> t \<le> now \<Longrightarrow> now \<le> clock \<Longrightarrow> clock < 2 ^ 32 * second \<Longrightarrow> cache_run now (sweep now clock c)"
| flush: "cache_run t c \<Longrightarrow> cache_run t (Flush c)"
| harden: "cache_run t c \<Longrightarrow> cache_run t (SetHardenBelowNX b c)"
| prefetch: "cache_run t c \<Longrightarrow> cache_run t (SetPrefetchEnabled b c)"
| prefetchFn: "cache_run t c \<Longrightarrow> cache_run t (SetPrefetchFunc b c)"

inductive_cases cache_runE: "cache_run t c"

text \<open>An operation that only shows what was there before, with earlier insertion times.\<close>

lemma inserted_by_shrink:
  assumes "cache_inv c" and "cache_inv c'" and "inserted_by t c" and "t \<le> now"
    and "\<And>k e'. findEntry c' k = Some e' \<Longrightarrow> \<exists>e. findEntry c k = Some e \<and> InsertedAt e' = InsertedAt e \<or> InsertedAt e' = now"
  shows "inserted_by now c'"
  unfolding inserted_by_find [OF assms(2)]
  using assms(3,4,5) inserted_by_find [OF assms(1)] by (metis le_refl order_trans)

lemma stores_inserted:
  assumes "cache_inv c" and "inserted_by t c" and "t \<le> now" and "stores now c (Some c')"
  shows "cache_inv c' \<and> inserted_by now c'"
proof -
  have inv: "cache_inv c'" using stores_returns [OF assms(1,4)] by auto
  have "\<exists>e. findEntry c k = Some e \<and> InsertedAt e' = InsertedAt e \<or> InsertedAt e' = now"
    if f: "findEntry c' k = Some e'" for k e'
  proof (cases "c' = c")
    case False
    with assms(4) obtain k0 e0 where e0: "storable c k0 e0" "InsertedAt e0 = now" "storeLocked now c k0 e0 = Some c'"
      by (auto simp: stores_def)
    from kv.put_view [OF assms(1) e0(1,3) f] e0(2) show ?thesis by blast
  qed (use f in blast)
  with inserted_by_shrink [OF assms(1) inv assms(2,3)] inv show ?thesis by blast
qed

lemma getFinish_find:
  assumes "findEntry c k = Some e" and "findEntry (snd (getFinish now c name qtype class k e)) k' = Some e'"
  shows "\<exists>e0. findEntry c k' = Some e0 \<and> InsertedAt e' = InsertedAt e0 \<and> OrigTTL e' = OrigTTL e0"
proof -
  have upd: "\<exists>e0. findEntry c k' = Some e0 \<and> InsertedAt e' = InsertedAt e0 \<and> OrigTTL e' = OrigTTL e0"
    if "findEntry (setShard (shardIndex (keyName k)) ((shards c (shardIndex (keyName k)))\<lparr>entries :=
        AList.update k (snd (tryPrefetch e)) (entries (shards c (shardIndex (keyName k))))\<rparr>) c) k' = Some e'"
    using that assms(1)
    by (cases "k' = k") (auto simp: findEntry_def setShard_def update_conv' tryPrefetch_def split: if_splits)
  have del: "findEntry c k' = Some e'" if "findEntry (deleteKey k c) k' = Some e'"
    using that by (auto simp: findEntry_deleteKey split: if_splits)
  have cong: "findEntry (x\<lparr>prefetches := p\<rparr>) = findEntry x" "findEntry (x\<lparr>evictedExpired := n\<rparr>) = findEntry x" for x p n
    by (auto simp: findEntry_def)
  show ?thesis
    using assms(2) upd del by (auto simp: getFinish_def Let_def cong split: if_splits prod.splits)
qed

lemma Get_find:
  assumes "findEntry (snd (Get now c name qtype cls)) k = Some e'"
  shows "\<exists>e0. findEntry c k = Some e0 \<and> InsertedAt e' = InsertedAt e0 \<and> OrigTTL e' = OrigTTL e0"
proof (cases "getFind c (ToLower name) qtype cls")
  case None
  with assms show ?thesis by (simp add: Get_def Let_def)
next
  case (Some x)
  then obtain k0 e0 where x: "getFind c (ToLower name) qtype cls = Some (k0, e0)" by (cases x) auto
  then have "Get now c name qtype cls = getFinish now c (ToLower name) qtype cls k0 e0" by (simp add: Get_def Let_def)
  with assms getFinish_find [OF conjunct1 [OF getFind_Some [OF x]]] show ?thesis by simp
qed

lemma GetWithECS_find:
  assumes "findEntry (snd (GetWithECS now c name qtype cls ecs)) k = Some e'"
  shows "\<exists>e0. findEntry c k = Some e0 \<and> InsertedAt e' = InsertedAt e0 \<and> OrigTTL e' = OrigTTL e0"
proof (cases "ecs = []")
  case True
  with assms Get_find show ?thesis by (simp add: GetWithECS_def)
next
  case False
  then have "snd (GetWithECS now c name qtype cls ecs) = c" by (simp add: GetWithECS_def Let_def split: option.split)
  with assms show ?thesis by simp
qed

lemma findEntry_sweep:
  assumes "cache_inv c" and "inserted_by now c" and "now \<le> clock" and "clock < 2 ^ 32 * second"
  shows "findEntry (sweep now clock c) k =
     (case findEntry c k of Some e \<Rightarrow> if now < expiry e then Some e else None | None \<Rightarrow> None)"
proof -
  let ?s = "shards c (shardIndex (keyName k))"
  have inv: "shard_inv ?s" using assms(1) by (simp add: cache_inv_def shard_wf_def)
  have "map_of (filter (live now) es) k = (case map_of es k of Some e \<Rightarrow> if now < expiry e then Some e else None | None \<Rightarrow> None)"
    if "distinct (map fst es)" for es
    using that by (induction es) (auto simp: live_def split: option.splits dest: map_of_SomeD, force)
  with sweepShard_live(1) [OF inv aged_shard [OF assms(2-4)]] queue_invD(1) [OF inv] show ?thesis
    by (simp add: findEntry_def sweep_def Let_def)
qed

lemma cache_run_inv: "cache_run t c \<Longrightarrow> cache_inv c \<and> inserted_by t c"
proof (induction rule: cache_run.induct)
  case (new t mx mn mxt neg ss st)
  then show ?case by (simp add: inserted_by_def NewCacheWithStale_def resetEntries_def cache_inv_def shard_wf_def queue_inv_def)
next
  case (get t c now name qtype cls r c')
  then have "cache_inv c'" using Get_inv [of c now name qtype cls] by simp
  with get Get_find [of now c name qtype cls] inserted_by_shrink [of c c' t now] show ?case by fastforce
next
  case (getECS t c now name qtype cls ecs r c')
  then have "cache_inv c'" using GetWithECS_inv [of c now name qtype cls ecs] by simp
  with getECS GetWithECS_find [of now c name qtype cls ecs] inserted_by_shrink [of c c' t now] show ?case by fastforce
next
  case (delete t c now name qtype cls r c')
  then have "cache_inv c'" using Delete_inv [of c name qtype cls] by simp
  moreover have "findEntry c' k = Some e \<Longrightarrow> findEntry c k = Some e" for k e
    using delete(3) by (auto simp: Delete_def Let_def findEntry_deleteKey split: option.splits if_splits)
  ultimately show ?case using delete inserted_by_shrink [of c c' t now] by blast
next
  case (sweep t c now clock)
  then have i: "cache_inv c" "inserted_by now c" using inserted_by_mono by blast+
  have "findEntry c k = Some e" if "findEntry (sweep now clock c) k = Some e" for k e
    using that findEntry_sweep [OF i sweep(3,4), of k] by (auto split: option.splits if_splits)
  with inserted_by_shrink [OF i(1) sweep_inv [OF i sweep(3,4)] i(2) order_refl] sweep_inv [OF i sweep(3,4)]
  show ?case by blast
next
  case (flush t c)
  then show ?case by (simp add: Flush_inv inserted_by_def) (simp add: Flush_def resetEntries_def)
next
  case (store t c now name qtype cls an au status c')
  with stores_inserted [of c t now c'] stores_all(1) show ?case by metis
next
  case (storeECSStatus t c now name qtype cls ecs scope an au status c')
  with stores_inserted [of c t now c'] stores_all(3) show ?case by metis
next
  case (storeECS t c now name qtype cls ecs an au c')
  with stores_inserted [of c t now c'] stores_all(4) show ?case by metis
next
  case (storeNegative t c now name qtype cls neg rcode au c')
  with stores_inserted [of c t now c'] stores_all(5) show ?case by metis
next
  case (storeFailure t c now name qtype cls ttl c')
  with stores_inserted [of c t now c'] stores_all(6) show ?case by metis
qed (auto simp: SetHardenBelowNX_def SetPrefetchEnabled_def SetPrefetchFunc_def inserted_by_def same_settings_def
    intro: cache_inv_cong [rotated 2])

section \<open>Lookups\<close>

text \<open>What a hit of \<open>getFinish\<close> returns.\<close>

lemma getFinish_hit:
  "0 < RemainingTTL now e \<Longrightarrow> fst (getFinish now c name qtype cls k e) = Some (WithDecayedTTL e (RemainingTTL now e))"
  by (auto simp: getFinish_def Let_def)

lemma getFinish_miss: "RemainingTTL now e = 0 \<Longrightarrow> fst (getFinish now c name qtype cls k e) = None"
  by (simp add: getFinish_def)

lemma Get_own_key:
  assumes "findEntry c (mkKey (ToLower name) qtype cls []) = Some e" and "0 < RemainingTTL now e"
  shows "fst (Get now c name qtype cls) = Some (WithDecayedTTL e (RemainingTTL now e))"
  using assms by (simp add: Get_def Let_def getFind_def getFinish_hit)

lemma Get_sentinel:
  assumes "findEntry c (mkKey (ToLower name) qtype cls []) = None" and "qtype \<noteq> 0"
    and "findEntry c (mkKey (ToLower name) 0 cls []) = Some e" and "0 < RemainingTTL now e"
  shows "fst (Get now c name qtype cls) = Some (WithDecayedTTL e (RemainingTTL now e))"
  using assms by (simp add: Get_def Let_def getFind_def getFinish_hit)

lemma checkParent_Some:
  "checkParentNXDomain now c name cls = Some e \<Longrightarrow>
     \<exists>pre anc e0. name = pre @ dot # anc \<and> anc \<noteq> [] \<and> findEntry c (mkKey anc 0 cls []) = Some e0 \<and>
       0 < RemainingTTL now e0 \<and> e = WithDecayedTTL e0 (RemainingTTL now e0)"
proof (induction now c name cls rule: checkParentNXDomain.induct)
  case (1 now c name cls)
  then obtain i where i: "IndexByte name dot = Some i"
    by (cases "IndexByte name dot") (auto simp: checkParentNXDomain.simps)
  let ?p = "drop (i + 1) name"
  have name: "name = take i name @ dot # ?p" using IndexByte_Some_split(1) [OF i] by simp
  have ne: "?p \<noteq> []" using "1.prems" i by (auto simp: checkParentNXDomain.simps)
  have ext: "\<exists>pre anc e0. name = pre @ dot # anc \<and> anc \<noteq> [] \<and> P anc e0"
    if "\<exists>pre anc e0. ?p = pre @ dot # anc \<and> anc \<noteq> [] \<and> P anc e0" for P :: "string \<Rightarrow> Entry \<Rightarrow> bool"
    using that name by (metis append.assoc append_Cons)
  show ?case
  proof (cases "findEntry c (mkKey ?p 0 cls [])")
    case None
    then have "checkParentNXDomain now c ?p cls = Some e"
      using "1.prems" i ne by (subst (asm) checkParentNXDomain.simps) simp
    from ext [OF "1.IH"(1) [OF i refl ne None this]] show ?thesis .
  next
    case (Some e0)
    show ?thesis
    proof (cases "0 < RemainingTTL now e0")
      case True
      then have "e = WithDecayedTTL e0 (RemainingTTL now e0)"
        using "1.prems" i ne Some by (subst (asm) checkParentNXDomain.simps) simp
      with True Some ne name show ?thesis by blast
    next
      case False
      then have "checkParentNXDomain now c ?p cls = Some e"
        using "1.prems" i ne Some by (subst (asm) checkParentNXDomain.simps) simp
      from ext [OF "1.IH"(2) [OF i refl ne Some refl False this]] show ?thesis .
    qed
  qed
qed

text \<open>An ancestor with a live sentinel is always found, or a nearer one.\<close>

lemma checkParent_finds:
  assumes "name = pre @ dot # anc" and "anc \<noteq> []" and "findEntry c (mkKey anc 0 cls []) = Some e"
    and "0 < RemainingTTL now e"
  shows "checkParentNXDomain now c name cls \<noteq> None"
  using assms
proof (induction now c name cls arbitrary: pre rule: checkParentNXDomain.induct)
  case (1 now c name cls)
  have "dot \<in> set name" using "1.prems"(1) by simp
  then obtain i where i: "IndexByte name dot = Some i" using IndexByte_None_iff [of name dot] by (cases "IndexByte name dot") auto
  let ?p = "drop (i + 1) name"
  have i2: "i \<le> length pre"
  proof (rule ccontr)
    assume "\<not> i \<le> length pre"
    then have "dot \<in> set (take i name)" using "1.prems"(1) by (simp add: take_Cons')
    with IndexByte_Some [OF i] show False by simp
  qed
  have ne: "?p \<noteq> []"
  proof -
    have "length name = length pre + 1 + length anc" "0 < length anc" using "1.prems"(1,2) by simp_all
    then have "i + 1 < length name" using i2 by linarith
    then show ?thesis by simp
  qed
  have deeper: "\<exists>pre'. ?p = pre' @ dot # anc" if "i < length pre" using that "1.prems"(1) by simp
  have same: "?p = anc" if "i = length pre" using that "1.prems"(1) by simp
  show ?case
  proof (cases "findEntry c (mkKey ?p 0 cls [])")
    case None
    then have "i < length pre" using same i2 "1.prems"(3) by (cases "i = length pre") auto
    then obtain pre' where "?p = pre' @ dot # anc" using deeper by blast
    from "1.IH"(1) [OF i refl ne None this "1.prems"(2-4)] None i ne show ?thesis
      by (subst checkParentNXDomain.simps) simp
  next
    case (Some e0)
    show ?thesis
    proof (cases "0 < RemainingTTL now e0")
      case True
      with Some i ne show ?thesis by (subst checkParentNXDomain.simps) simp
    next
      case False
      then have "i < length pre" using same i2 "1.prems"(3,4) Some by (cases "i = length pre") auto
      then obtain pre' where "?p = pre' @ dot # anc" using deeper by blast
      from "1.IH"(2) [OF i refl ne Some refl False this "1.prems"(2-4)] False Some i ne show ?thesis
        by (subst checkParentNXDomain.simps) simp
    qed
  qed
qed

lemma Get_hit:
  assumes "fst (Get now c name qtype cls) = Some e"
  shows "\<exists>k e0. findEntry c k = Some e0 \<and> 0 < RemainingTTL now e0 \<and> e = WithDecayedTTL e0 (RemainingTTL now e0) \<and>
     keyClass k = cls \<and> ecsPrefix k = [] \<and>
     (k = mkKey (ToLower name) qtype cls [] \<or> keyType k = 0 \<and>
       (keyName k = ToLower name \<or> hardenBelowNX c \<and> (\<exists>pre. ToLower name = pre @ dot # keyName k)))"
proof (cases "getFind c (ToLower name) qtype cls")
  case None
  with assms have h: "hardenBelowNX c" "checkParentNXDomain now c (ToLower name) cls = Some e"
    by (auto simp: Get_def Let_def split: if_splits)
  from checkParent_Some [OF h(2)] obtain pre anc e0 where "ToLower name = pre @ dot # anc"
    "findEntry c (mkKey anc 0 cls []) = Some e0" "0 < RemainingTTL now e0" "e = WithDecayedTTL e0 (RemainingTTL now e0)"
    by blast
  with h(1) show ?thesis by (intro exI [of _ "mkKey anc 0 cls []"] exI [of _ e0]) auto
next
  case (Some x)
  then obtain k e0 where x: "getFind c (ToLower name) qtype cls = Some (k, e0)" by (cases x) auto
  have g: "Get now c name qtype cls = getFinish now c (ToLower name) qtype cls k e0" using x by (simp add: Get_def Let_def)
  have live: "RemainingTTL now e0 \<noteq> 0" using assms g getFinish_miss by fastforce
  then have pos: "0 < RemainingTTL now e0" by (simp add: word_gt_0)
  have "e = WithDecayedTTL e0 (RemainingTTL now e0)" using assms g getFinish_hit [OF pos] by simp
  moreover have "k = mkKey (ToLower name) qtype cls [] \<or> k = mkKey (ToLower name) 0 cls []"
    using x by (auto simp: getFind_def split: option.splits if_splits)
  ultimately show ?thesis using getFind_Some [OF x] pos by (intro exI [of _ k] exI [of _ e0]) auto
qed

section \<open>Properties\<close>

text \<open>
  C16. In every reachable state of the cache each key is stored once, in the shard its name
  hashes to and under a lower-case name; every stored entry is in the eviction queue of its shard, which is a heap by the
  time of expiry; no shard holds more than its share of \<open>maxEntries\<close>
  (plus one); and no entry has a TTL above the configured limits or an insertion time in the
  future.
\<close>

theorem cache_reachable_invariant:
  assumes "cache_run t c"
  shows "distinct (map fst (entries (shards c i))) \<and> is_heap (evictQ (shards c i)) \<and>
     (0 < maxEntries c \<longrightarrow> length (entries (shards c i)) \<le> nat (maxEntries c) div 256 + 1) \<and>
     (\<forall>(k, e) \<in> set (entries (shards c i)). shardIndex (keyName k) = i \<and> ToLower (keyName k) = keyName k \<and>
        (\<exists>it \<in> set (evictQ (shards c i)). itemKey it = k \<and> itemEntry it = entryId e \<and> expiresAt it = expiry e) \<and>
        OrigTTL e \<le> ttlLimit c \<and> InsertedAt e \<le> t)"
proof -
  have w: "shard_wf c i (shards c i)" and t: "inserted_by t c"
    using cache_run_inv [OF assms] by (auto simp: cache_inv_def)
  then have q: "queue_inv (entries (shards c i)) (evictQ (shards c i))" by (simp add: shard_wf_def)
  have queued: "\<exists>it \<in> set (evictQ (shards c i)). itemKey it = k \<and> itemEntry it = entryId e \<and> expiresAt it = expiry e"
    if "(k, e) \<in> set (entries (shards c i))" for k e
    using q that unfolding queue_inv_def queued_def by fastforce
  then show ?thesis using w t q
    by (fastforce simp: shard_wf_def queue_inv_def entry_wf_def inserted_by_def shardCount_def)
qed

lemma run_sample: "cache_run 0 (NewCacheWithStale 1000 5 3600 60 False 30)"
  by (rule cache_run.new)

text \<open>
  Every store ends: in a reachable cache the loop that evicts down to the capacity always
  finds a victim, so each of the storing operations returns, and the cache stays reachable.
\<close>

theorem stores_return:
  assumes "cache_run t c" and "t \<le> now"
  shows "(\<exists>c'. StoreWithStatus now c name qtype cls answers auth status = Some c' \<and> cache_run now c') \<and>
     (\<exists>c'. StoreWithECSStatus now c name qtype cls ecs scope answers auth status = Some c' \<and> cache_run now c') \<and>
     (\<exists>c'. StoreWithECS now c name qtype cls ecs answers auth = Some c' \<and> cache_run now c') \<and>
     (\<exists>c'. StoreNegative now c name qtype cls neg rcode auth = Some c' \<and> cache_run now c') \<and>
     (\<exists>c'. StoreFailure now c name qtype cls ttl = Some c' \<and> cache_run now c')"
proof (intro conjI)
  have inv: "cache_inv c" using cache_run_inv [OF assms(1)] by blast
  note r = stores_returns [OF inv]
  show "\<exists>c'. StoreWithStatus now c name qtype cls answers auth status = Some c' \<and> cache_run now c'"
    using r [OF stores_all(1)] cache_run.store [OF assms] by blast
  show "\<exists>c'. StoreWithECSStatus now c name qtype cls ecs scope answers auth status = Some c' \<and> cache_run now c'"
    using r [OF stores_all(3)] cache_run.storeECSStatus [OF assms] by blast
  show "\<exists>c'. StoreWithECS now c name qtype cls ecs answers auth = Some c' \<and> cache_run now c'"
    using r [OF stores_all(4)] cache_run.storeECS [OF assms] by blast
  show "\<exists>c'. StoreNegative now c name qtype cls neg rcode auth = Some c' \<and> cache_run now c'"
    using r [OF stores_all(5)] cache_run.storeNegative [OF assms] by blast
  show "\<exists>c'. StoreFailure now c name qtype cls ttl = Some c' \<and> cache_run now c'"
    using r [OF stores_all(6)] cache_run.storeFailure [OF assms] by blast
qed

theorem stores_return_witness:
  "\<exists>c'. StoreFailure 9 (NewCacheWithStale 1000 5 3600 60 False 30) ''a.b'' TypeA ClassIN 0 = Some c' \<and> cache_run 9 c'"
  using stores_return [OF run_sample, of 9 "''a.b''" TypeA ClassIN _ _ _ _ _ _ _ 0] by blast

text \<open>
  C18. Lookup after store, whatever the case of the name: if no TTL of the answers is 0 (one with its highest bit set counts as 0) and the
  shard has room, the entry gets one lifetime, the least TTL of the answers brought between the configured bounds, and until it has run out \<open>Get\<close> returns exactly the stored
  records, every one of them with what is left of that lifetime as its TTL, and the validator's verdict.
\<close>

theorem Get_after_Store:
  assumes "cache_run t c" and "t \<le> now" and "extractTTL c answers \<noteq> 0"
    and "room c (mkKey (ToLower name) qtype cls [])" and "ToLower name' = ToLower name"
    and "(later - now) div second < unat (clampTTL c (extractTTL c answers))"
  shows "\<exists>c' e. StoreWithStatus now c name qtype cls answers auth status = Some c' \<and>
     fst (Get later c' name' qtype cls) = Some e \<and> DNSSECStatus e = status \<and>
     Records e = map (\<lambda>rr. rr\<lparr>rrTTL := clampTTL c (extractTTL c answers) - of_nat ((later - now) div second)\<rparr>) answers"
proof -
  let ?ttl = "clampTTL c (extractTTL c answers)" and ?k = "mkKey (ToLower name) qtype cls []"
  let ?e = "(newEntry now c ?ttl)\<lparr>Records := cloneRRs answers, entAuthority := cloneRRs auth, DNSSECStatus := status\<rparr>"
  let ?d = "(later - now) div second"
  have inv: "cache_inv c" using cache_run_inv [OF assms(1)] by blast
  have st: "storable c ?k ?e" by (rule storable_new [OF _ clamp_limits(1)]) (simp_all add: newEntry_def)
  obtain c' where c': "storeLocked now c ?k ?e = Some c'" "findEntry c' = (findEntry c)(?k \<mapsto> ?e)"
    using storeLocked_ok [OF inv st, of now] assms(4) by blast
  have "unat ?ttl < 2 ^ LENGTH(32)" by (rule unsigned_less)
  then have "?d < 2 ^ 32" using assms(6) by simp
  then have d: "unat (of_nat ?d :: u32) = ?d" by (rule unat_u32_of_nat)
  have ttl: "RemainingTTL later ?e = ?ttl - of_nat ?d"
    using assms(6) d by (simp add: RemainingTTL_def Let_def newEntry_def word_le_nat_alt)
  have "unat (?ttl - of_nat ?d) = unat ?ttl - ?d" using assms(6) d by (simp add: unat_sub word_le_nat_alt)
  then have pos: "0 < RemainingTTL later ?e" using ttl assms(6) by (simp add: word_less_nat_alt)
  have "StoreWithStatus now c name qtype cls answers auth status = Some c'"
    using assms(3) c'(1) by (simp add: StoreWithStatus_def Let_def)
  moreover have "fst (Get later c' name' qtype cls) = Some (WithDecayedTTL ?e (RemainingTTL later ?e))"
    using c'(2) assms(5) pos by (intro Get_own_key) simp_all
  ultimately show ?thesis
    using ttl by (simp add: WithDecayedTTL_def cloneRRs_def)
qed

definition sample_a :: ResourceRecord where
  "sample_a = \<lparr>rrName = ''a.b'', rrType = TypeA, rrClass = ClassIN, rrTTL = 300, rrRDLength = 4,
     rrRData = [192, 0, 2, 1], rrRDataOffset = 0\<rparr>"

lemma sample_room: "room (NewCacheWithStale 1000 5 3600 60 False 30) k"
  by (simp add: room_def NewCacheWithStale_def resetEntries_def)

theorem cache_reachable_invariant_witness:
  "\<exists>c e. StoreWithStatus 0 (NewCacheWithStale 1000 5 3600 60 False 30) ''a.b'' TypeA ClassIN [sample_a] [] ''secure'' = Some c \<and>
     findEntry c (mkKey ''a.b'' TypeA ClassIN []) = Some e \<and>
     (\<exists>it \<in> set (evictQ (shards c (shardIndex ''a.b''))). itemKey it = mkKey ''a.b'' TypeA ClassIN [] \<and> expiresAt it = expiry e)"
proof -
  let ?c = "NewCacheWithStale 1000 5 3600 60 False 30" and ?k = "mkKey ''a.b'' TypeA ClassIN []"
  let ?e = "(newEntry 0 ?c (clampTTL ?c (extractTTL ?c [sample_a])))\<lparr>Records := cloneRRs [sample_a], entAuthority := cloneRRs [], DNSSECStatus := ''secure''\<rparr>"
  have low: "ToLower ''a.b'' = ''a.b''" by code_simp
  have st: "storable ?c ?k ?e" by (rule storable_new [OF low clamp_limits(1)]) (simp_all add: newEntry_def)
  obtain c where c: "storeLocked 0 ?c ?k ?e = Some c" "findEntry c = (findEntry ?c)(?k \<mapsto> ?e)"
    using storeLocked_ok [OF cache_inv_new st, of 0] sample_room by blast
  have "extractTTL ?c [sample_a] \<noteq> 0" by (simp add: extractTTL_def sanitizeWireTTL_def sample_a_def)
  with c(1) have s: "StoreWithStatus 0 ?c ''a.b'' TypeA ClassIN [sample_a] [] ''secure'' = Some c" by (simp add: StoreWithStatus_def Let_def low)
  then have "cache_run 0 c" by (rule cache_run.store [OF run_sample le_refl])
  moreover have "(?k, ?e) \<in> set (entries (shards c (shardIndex ''a.b'')))"
    using c(2) by (auto simp: findEntry_def fun_eq_iff dest!: spec [of _ ?k] map_of_SomeD)
  ultimately show ?thesis using cache_reachable_invariant [of 0 c "shardIndex ''a.b''"] s c(2) by fastforce
qed

theorem Get_after_Store_witness:
  "\<exists>c' e. StoreWithStatus 0 (NewCacheWithStale 1000 5 3600 60 False 30) ''A.b'' TypeA ClassIN [sample_a] [] ''secure'' = Some c' \<and>
     fst (Get (10 * second) c' ''a.B'' TypeA ClassIN) = Some e \<and> Records e = [sample_a\<lparr>rrTTL := 290\<rparr>]"
proof -
  let ?c = "NewCacheWithStale 1000 5 3600 60 False 30"
  have ttl: "extractTTL ?c [sample_a] = 300" "clampTTL ?c 300 = 300"
    by (simp_all add: extractTTL_def sanitizeWireTTL_def sample_a_def clampTTL_def NewCacheWithStale_def)
  have "ToLower ''a.B'' = ToLower ''A.b''" by code_simp
  moreover have "(10 * second - 0) div second = 10" by (simp add: second_def)
  ultimately show ?thesis
    using Get_after_Store [OF run_sample, of 0 "[sample_a]" "''A.b''" TypeA ClassIN "''a.B''" "10 * second" "[]" "''secure''"]
      sample_room ttl by auto
qed

text \<open>
  A hit is never expired and never foreign: what \<open>Get\<close> returns is a stored entry of the
  same class, with its TTLs replaced by the positive remainder of its original TTL, kept under
  the (lower-cased) name and type asked for, or under the name's NXDOMAIN sentinel, or, when
  \<open>hardenBelowNX\<close> is set, under the sentinel of an ancestor of the name.
\<close>

theorem Get_serves_live_entries:
  assumes "fst (Get now c name qtype cls) = Some e"
  shows "\<exists>k e0. findEntry c k = Some e0 \<and> e = WithDecayedTTL e0 (RemainingTTL now e0) \<and>
     0 < RemainingTTL now e0 \<and> RemainingTTL now e0 \<le> OrigTTL e0 \<and> keyClass k = cls \<and> ecsPrefix k = [] \<and>
     (k = mkKey (ToLower name) qtype cls [] \<or> keyType k = 0 \<and>
       (keyName k = ToLower name \<or> hardenBelowNX c \<and> (\<exists>pre. ToLower name = pre @ dot # keyName k)))"
  using Get_hit [OF assms] RemainingTTL_le by blast

text \<open>A small cache with one entry, built by the model's own store.\<close>

definition sample_cache :: Cache where
  "sample_cache = setShard (shardIndex ''a.b'')
     \<lparr>entries = [(mkKey ''a.b'' TypeA ClassIN [], (newEntry 0 (NewCache 0 5 3600 60) 300)\<lparr>Records := [sample_a]\<rparr>)],
      evictQ = [\<lparr>itemKey = mkKey ''a.b'' TypeA ClassIN [], itemEntry = 0, expiresAt = 300 * second\<rparr>]\<rparr>
     ((NewCache 0 5 3600 60)\<lparr>allocs := 1\<rparr>)"

lemma sample_lower: "ToLower ''a.b'' = ''a.b''"
  by code_simp

lemma sample_find: "findEntry sample_cache (mkKey ''a.b'' TypeA ClassIN []) =
  Some ((newEntry 0 (NewCache 0 5 3600 60) 300)\<lparr>Records := [sample_a]\<rparr>)"
  by (simp add: findEntry_def sample_cache_def setShard_def)

lemma sample_hit: "\<exists>e. fst (Get 0 sample_cache ''a.b'' TypeA ClassIN) = Some e"
  using Get_own_key [of sample_cache "''a.b''" TypeA ClassIN _ 0] sample_find
  by (simp add: sample_lower RemainingTTL_def newEntry_def)

theorem Get_serves_live_entries_witness:
  "\<exists>e k e0. fst (Get 0 sample_cache ''a.b'' TypeA ClassIN) = Some e \<and> findEntry sample_cache k = Some e0 \<and>
     e = WithDecayedTTL e0 (RemainingTTL 0 e0) \<and> 0 < RemainingTTL 0 e0"
proof -
  obtain e where e: "fst (Get 0 sample_cache ''a.b'' TypeA ClassIN) = Some e" using sample_hit by blast
  with Get_serves_live_entries [OF e] show ?thesis by blast
qed

text \<open>
  NXDOMAIN covers every type, and with \<open>hardenBelowNX\<close> every name below: after
  \<open>StoreNegative\<close> of an NXDOMAIN, and while it lives, a query of any type for the name itself is
  answered from it (unless the type has an entry of its own), and a query for a name below it
  that has no entry is answered by a cached NXDOMAIN sentinel instead of being resolved.
\<close>

theorem NXDOMAIN_covers:
  assumes "cache_run t c" and "t \<le> now" and "hasAnySOA auth \<longrightarrow> authorityCoversName name auth"
    and "extractNegativeTTL auth \<noteq> 0" and "room c (mkKey (ToLower name) 0 cls [])" and "qtype \<noteq> 0"
    and "(later - now) div second < unat (clampNegativeTTL c (extractNegativeTTL auth))"
  shows "\<exists>c'. StoreNegative now c name qt cls NegNXDomain rcode auth = Some c' \<and>
     (findEntry c (mkKey (ToLower name) qtype cls []) = None \<longrightarrow>
        (\<exists>e. fst (Get later c' name qtype cls) = Some e \<and> Negative e \<and> NegType e = NegNXDomain \<and> entRCODE e = rcode)) \<and>
     (hardenBelowNX c' \<longrightarrow> ToLower name \<noteq> [] \<longrightarrow> getFind c' (ToLower (pre @ dot # name)) qtype cls = None \<longrightarrow>
        fst (Get later c' (pre @ dot # name) qtype cls) \<noteq> None)"
proof -
  let ?ttl = "clampNegativeTTL c (extractNegativeTTL auth)" and ?k = "mkKey (ToLower name) 0 cls []"
  let ?e = "(newEntry now c ?ttl)\<lparr>entAuthority := cloneRRs auth, Negative := True, NegType := NegNXDomain,
     entSOA := find (\<lambda>rr. rrType rr = TypeSOA) auth, entRCODE := rcode\<rparr>"
  let ?d = "(later - now) div second"
  have inv: "cache_inv c" using cache_run_inv [OF assms(1)] by blast
  have st: "storable c ?k ?e" by (rule storable_new [OF _ clamp_limits(2)]) (simp_all add: newEntry_def)
  obtain c' where c': "storeLocked now c ?k ?e = Some c'" "findEntry c' = (findEntry c)(?k \<mapsto> ?e)"
    using storeLocked_ok [OF inv st, of now] assms(5) by blast
  have "unat ?ttl < 2 ^ LENGTH(32)" by (rule unsigned_less)
  then have "in_range later ?e" using assms(7) by (simp add: in_range_def newEntry_def)
  from unat_RemainingTTL [OF this] have pos: "0 < RemainingTTL later ?e"
    using assms(7) by (simp add: newEntry_def word_less_nat_alt)
  have st': "StoreNegative now c name qt cls NegNXDomain rcode auth = Some c'"
    using assms(3,4) c'(1) by (auto simp: StoreNegative_def Let_def)
  have own: "fst (Get later c' name qtype cls) = Some (WithDecayedTTL ?e (RemainingTTL later ?e))"
    if "findEntry c (mkKey (ToLower name) qtype cls []) = None"
    using that c'(2) assms(6) pos by (intro Get_sentinel) simp_all
  have below: "fst (Get later c' (pre @ dot # name) qtype cls) \<noteq> None"
    if h: "hardenBelowNX c'" "ToLower name \<noteq> []" "getFind c' (ToLower (pre @ dot # name)) qtype cls = None"
  proof -
    have low: "ToLower (pre @ dot # name) = ToLower pre @ dot # ToLower name"
      by (simp add: ToLower_def)
    have "checkParentNXDomain later c' (ToLower (pre @ dot # name)) cls \<noteq> None"
      using c'(2) pos h(2) by (intro checkParent_finds [OF low, of _ _ ?e]) simp_all
    then show ?thesis using h(1,3) assms(6) by (simp add: Get_def Let_def)
  qed
  show ?thesis using st' own below by (intro exI [of _ c']) auto
qed

theorem NXDOMAIN_covers_witness:
  "\<exists>c'. StoreNegative 0 (NewCacheWithStale 1000 5 3600 60 False 30) ''a.b'' TypeA ClassIN NegNXDomain RCodeNXDomain [] = Some c' \<and>
     (\<exists>e. fst (Get second c' ''a.b'' TypeMX ClassIN) = Some e \<and> Negative e \<and> entRCODE e = RCodeNXDomain)"
proof -
  let ?c = "NewCacheWithStale 1000 5 3600 60 False 30"
  have "clampNegativeTTL ?c 60 = 60" by (simp add: clampNegativeTTL_def NewCacheWithStale_def)
  moreover have empty: "findEntry ?c k = None" for k by (simp add: findEntry_def NewCacheWithStale_def resetEntries_def)
  moreover have "(second - 0) div second = 1" by (simp add: second_def)
  ultimately have "\<exists>c'. StoreNegative 0 ?c ''a.b'' TypeA ClassIN NegNXDomain RCodeNXDomain [] = Some c' \<and>
      (findEntry ?c (mkKey (ToLower ''a.b'') TypeMX ClassIN []) = None \<longrightarrow>
        (\<exists>e. fst (Get second c' ''a.b'' TypeMX ClassIN) = Some e \<and> Negative e \<and> NegType e = NegNXDomain \<and>
           entRCODE e = RCodeNXDomain)) \<and>
      (hardenBelowNX c' \<longrightarrow> ToLower ''a.b'' \<noteq> [] \<longrightarrow> getFind c' (ToLower ([] @ dot # ''a.b'')) TypeMX ClassIN = None \<longrightarrow>
        fst (Get second c' ([] @ dot # ''a.b'') TypeMX ClassIN) \<noteq> None)"
    using sample_room by (intro NXDOMAIN_covers [OF run_sample]) (simp_all add: hasAnySOA_def)
  then show ?thesis by (simp only: empty simp_thms) blast
qed

text \<open>
  The sweeper removes exactly the expired entries: the entry of a key survives a sweep at
  \<open>now\<close> if and only if its expiry time is after \<open>now\<close>, unchanged; and the sweep keeps every
  reachable state reachable.
\<close>

theorem sweep_exact:
  assumes "cache_run t c" and "t \<le> now" and "now \<le> clock" and "clock < 2 ^ 32 * second"
  shows "findEntry (sweep now clock c) k =
     (case findEntry c k of Some e \<Rightarrow> if now < expiry e then Some e else None | None \<Rightarrow> None) \<and>
     cache_run now (sweep now clock c)"
  using findEntry_sweep [OF _ _ assms(3,4)] cache_run_inv [OF assms(1)] inserted_by_mono [OF _ assms(2)]
    cache_run.sweep [OF assms] by blast

theorem sweep_exact_witness:
  "findEntry (sweep 5 6 (NewCacheWithStale 1000 5 3600 60 False 30)) (mkKey ''a'' TypeA ClassIN []) = None \<and>
     cache_run 5 (sweep 5 6 (NewCacheWithStale 1000 5 3600 60 False 30))"
  using sweep_exact [OF run_sample, of 5 6 "mkKey ''a'' TypeA ClassIN []"]
  by (simp add: second_def) (simp add: findEntry_def NewCacheWithStale_def resetEntries_def)

text \<open>
  Capacity eviction: enforcing the limit on a shard ends, removes exactly the excess, and
  every entry it removes expires no later than every entry it keeps.
\<close>

theorem enforce_evicts_first_to_expire:
  assumes "shard_inv s" and "0 < mx"
  shows "\<exists>s' n. enforceMaxEntriesLocked mx now s = Some (s', n) \<and> set (entries s') \<subseteq> set (entries s) \<and>
     length (entries s') = min (nat mx div 256 + 1) (length (entries s)) \<and>
     n = length (entries s) - (nat mx div 256 + 1) \<and>
     (\<forall>(k, e) \<in> set (entries s) - set (entries s'). \<forall>(k', e') \<in> set (entries s'). expiry e \<le> expiry e')"
proof -
  obtain s' n' where "enforceLoop now (nat mx div 256 + 1) s 0 = Some (s', n')"
    "length (entries s') = min (nat mx div 256 + 1) (length (entries s))" "set (entries s') \<subseteq> set (entries s)"
    "n' = 0 + (length (entries s) - (nat mx div 256 + 1))"
    "\<forall>(k, e) \<in> set (entries s) - set (entries s'). \<forall>(k', e') \<in> set (entries s'). expiry e \<le> expiry e'"
    using enforceLoop_ends [OF assms(1), of now "nat mx div 256 + 1" 0] by blast
  with assms(2) show ?thesis
    by (intro exI [of _ s'] exI [of _ n']) (simp add: enforceMaxEntriesLocked_def shardCount_def)
qed

definition sample_shard :: shard where
  "sample_shard =
     \<lparr>entries = [(mkKey ''a'' 1 1 [], newEntry 0 (NewCache 1 5 3600 60) 300),
                 (mkKey ''b'' 1 1 [], (newEntry 0 (NewCache 1 5 3600 60) 10)\<lparr>entryId := 1\<rparr>)],
      evictQ = [\<lparr>itemKey = mkKey ''b'' 1 1 [], itemEntry = 1, expiresAt = 10 * second\<rparr>,
                \<lparr>itemKey = mkKey ''a'' 1 1 [], itemEntry = 0, expiresAt = 300 * second\<rparr>]\<rparr>"

lemma sample_shard_inv: "shard_inv sample_shard"
  by (auto simp: sample_shard_def queue_inv_def queued_def heap_upto_def parent_def expiry_def newEntry_def NewCache_def
      NewCacheWithStale_def second_def less_Suc_eq)

theorem enforce_evicts_first_to_expire_witness:
  "\<exists>s' n. enforceMaxEntriesLocked 1 0 sample_shard = Some (s', n) \<and> length (entries s') = 1 \<and> n = 1"
proof -
  have "length (entries sample_shard) = 2" by (simp add: sample_shard_def)
  with enforce_evicts_first_to_expire [OF sample_shard_inv, of 1 0] show ?thesis by auto
qed

text \<open>
  C19. The cache is a map that may forget: after any sequence of stores and deletions on a reachable cache, what is found
  under a key is what was put there last and has not been deleted since; and while the stores find room, so that
  nothing is evicted, all of that is found.
\<close>

theorem cache_refines_map:
  assumes "cache_run t c" and "kv.run ops c = Some c'"
  shows "findEntry c' \<subseteq>\<^sub>m fold applyOp ops (findEntry c) \<and> (kv.roomFor ops c \<longrightarrow> findEntry c' = fold applyOp ops (findEntry c))"
  using cache_run_inv [OF assms(1)] kv.run_part [OF _ assms(2) map_le_refl] kv.run_exact [OF _ assms(2)] by blast

theorem cache_refines_map_witness:
  "\<exists>c. kv.run [Put 0 (mkKey ''a'' 1 1 []) (newEntry 0 (NewCache 0 5 3600 60) 300), Del (mkKey ''a'' 2 1 [])] (NewCacheWithStale 0 5 3600 60 False 30) = Some c \<and>
     findEntry c = [mkKey ''a'' 1 1 [] \<mapsto> newEntry 0 (NewCache 0 5 3600 60) 300]"
proof -
  let ?c = "NewCacheWithStale 0 5 3600 60 False 30" and ?k = "mkKey ''a'' 1 1 []"
  let ?e = "newEntry 0 (NewCache 0 5 3600 60) 300" and ?ops = "[Put 0 (mkKey ''a'' 1 1 []) (newEntry 0 (NewCache 0 5 3600 60) 300), Del (mkKey ''a'' 2 1 [])]"
  have low: "ToLower ''a'' = ''a''" by code_simp
  have st: "storable ?c ?k ?e"
    by (simp add: storable_def newEntry_def NewCache_def NewCacheWithStale_def low ttlLimit_def MaxFailureTTL_def le_max_iff_disj)
  obtain c where c: "storeLocked 0 ?c ?k ?e = Some c" using storeLocked_ok [OF cache_inv_new st] by blast
  with st have run: "kv.run ?ops ?c = Some (deleteKey (mkKey ''a'' 2 1 []) c)" by simp
  have "room ?c ?k" by (simp add: room_def NewCacheWithStale_def)
  with c have "kv.roomFor ?ops ?c" by simp
  moreover have "findEntry ?c = Map.empty" by (rule ext) (simp add: findEntry_def NewCacheWithStale_def resetEntries_def)
  ultimately show ?thesis using cache_refines_map [OF cache_run.new run] run by auto
qed


lemma sanitize_unat: "unat (sanitizeWireTTL ttl) = (if 2 ^ 31 \<le> unat ttl then 0 else unat ttl)"
proof -
  have e: "ttl AND 0x80000000 \<noteq> 0 \<longleftrightarrow> bit ttl 31"
  proof -
    have "(0x80000000 :: u32) = push_bit 31 1" by simp
    then show ?thesis by (simp only: push_bit_eq_mult mult_1 and_exp_eq_0_iff_not_bit) simp
  qed
  have lt: "unat ttl < 2 ^ LENGTH(32)" by (rule unsigned_less)
  have "bit ttl 31 \<longleftrightarrow> bit (unat ttl) 31" by (simp add: bit_unsigned_iff)
  also have "\<dots> \<longleftrightarrow> odd (unat ttl div 2 ^ 31)" by (rule bit_iff_odd)
  also have "\<dots> \<longleftrightarrow> 2 ^ 31 \<le> unat ttl"
  proof (cases "2 ^ 31 \<le> unat ttl")
    case True
    then have "unat ttl div 2 ^ 31 = 1" using lt by (intro div_nat_eqI) simp_all
    with True show ?thesis by simp
  qed simp
  finally show ?thesis using e by (simp add: sanitizeWireTTL_def)
qed

lemma fold_min_eq: "fold (\<lambda>rr m. let t = f rr in if t < m then t else m) rrs (a :: 'b :: linorder) = Min (insert a (f ` set rrs))"
proof (induction rrs arbitrary: a)
  case (Cons rr rrs)
  have "Min (insert (if f rr < a then f rr else a) (f ` set rrs)) = Min (insert a (insert (f rr) (f ` set rrs)))"
    by (cases "rrs = []") (auto simp: min_def)
  with Cons show ?case by (simp add: Let_def)
qed simp

lemma extractTTL_Min: "rrs \<noteq> [] \<Longrightarrow> extractTTL c rrs = Min ((\<lambda>rr. sanitizeWireTTL (rrTTL rr)) ` set rrs)"
  by (cases rrs) (simp_all add: extractTTL_def fold_min_eq [where f = "\<lambda>rr. sanitizeWireTTL (rrTTL rr)"])

text \<open>
  Which TTL a positive answer is cached with: the least of its records' TTLs, where a TTL of
  \<open>2 ^ 31\<close> or more counts as zero (RFC 2181), brought into the range from \<open>minTTL\<close> to
  \<open>maxTTL\<close>.  An answer with a record whose TTL is zero (or counts as zero) is not cached: the
  store leaves the cache as it is.
\<close>

theorem StoreWithStatus_TTL:
  assumes "answers \<noteq> []" and "minTTL c \<le> maxTTL c"
  shows "((\<exists>rr \<in> set answers. unat (rrTTL rr) = 0 \<or> 2 ^ 31 \<le> unat (rrTTL rr)) \<longrightarrow>
           StoreWithStatus now c name qtype cls answers auth status = Some c) \<and>
         ((\<forall>rr \<in> set answers. unat (rrTTL rr) \<noteq> 0 \<and> unat (rrTTL rr) < 2 ^ 31) \<longrightarrow>
           (\<exists>e. StoreWithStatus now c name qtype cls answers auth status =
                  storeLocked now c (mkKey (ToLower name) qtype cls []) e \<and>
                Records e = answers \<and> InsertedAt e = now \<and>
                OrigTTL e = min (maxTTL c) (max (minTTL c) (Min ((\<lambda>rr. rrTTL rr) ` set answers)))))"
proof (intro conjI impI)
  assume "\<exists>rr \<in> set answers. unat (rrTTL rr) = 0 \<or> 2 ^ 31 \<le> unat (rrTTL rr)"
  then obtain rr where rr: "rr \<in> set answers" and "unat (sanitizeWireTTL (rrTTL rr)) = 0"
    by (auto simp: sanitize_unat split: if_splits)
  then have "sanitizeWireTTL (rrTTL rr) = 0" by (simp add: word_unat_eq_iff)
  with rr have "Min ((\<lambda>rr. sanitizeWireTTL (rrTTL rr)) ` set answers) \<le> 0"
    by (intro Min_le) (auto intro: image_eqI [where x = rr])
  then have "extractTTL c answers = 0" by (simp add: extractTTL_Min [OF assms(1)])
  then show "StoreWithStatus now c name qtype cls answers auth status = Some c"
    by (simp add: StoreWithStatus_def)
next
  assume all: "\<forall>rr \<in> set answers. unat (rrTTL rr) \<noteq> 0 \<and> unat (rrTTL rr) < 2 ^ 31"
  let ?m = "Min ((\<lambda>rr. rrTTL rr) ` set answers)"
  have "sanitizeWireTTL (rrTTL rr) = rrTTL rr" if "rr \<in> set answers" for rr
  proof -
    have "unat (rrTTL rr) < 2 ^ 31" using all that by blast
    then have "unat (sanitizeWireTTL (rrTTL rr)) = unat (rrTTL rr)" by (simp only: sanitize_unat not_le [symmetric] if_False)
    then show ?thesis by (simp only: word_unat_eq_iff)
  qed
  then have "(\<lambda>rr. sanitizeWireTTL (rrTTL rr)) ` set answers = (\<lambda>rr. rrTTL rr) ` set answers" by (rule image_cong [OF refl])
  then have m: "extractTTL c answers = ?m" by (simp add: extractTTL_Min [OF assms(1)])
  have "?m \<in> (\<lambda>rr. rrTTL rr) ` set answers" using assms(1) by (intro Min_in) auto
  then have nz: "?m \<noteq> 0" using all by (auto simp: word_unat_eq_iff)
  have "clampTTL c ?m = min (maxTTL c) (max (minTTL c) ?m)"
    using assms(2) by (auto simp: clampTTL_def min_def max_def)
  moreover have "cloneRRs answers = answers" by (simp add: cloneRRs_def)
  ultimately show "\<exists>e. StoreWithStatus now c name qtype cls answers auth status =
      storeLocked now c (mkKey (ToLower name) qtype cls []) e \<and>
      Records e = answers \<and> InsertedAt e = now \<and> OrigTTL e = min (maxTTL c) (max (minTTL c) ?m)"
    using nz m by (simp add: StoreWithStatus_def newEntry_def) (rule exI, rule conjI, rule refl, simp)
qed

theorem StoreWithStatus_TTL_witness:
  "StoreWithStatus 0 (NewCache 10 5 3600 60) ''a'' 1 1
     [\<lparr>rrName = ''a'', rrType = 1, rrClass = 1, rrTTL = 0xFFFFFFFF, rrRDLength = 0, rrRData = [], rrRDataOffset = 0\<rparr>] [] [] =
   Some (NewCache 10 5 3600 60)"
  using StoreWithStatus_TTL [of "[\<lparr>rrName = ''a'', rrType = 1, rrClass = 1, rrTTL = 0xFFFFFFFF, rrRDLength = 0, rrRData = [], rrRDataOffset = 0\<rparr>]"
      "NewCache 10 5 3600 60" 0 "''a''" 1 1 "[]" "[]"]
  by (simp add: NewCache_def NewCacheWithStale_def)

end
