(* ===== verification/Zone_Names.thy ===== *)
theory Zone_Names
  imports Prelude
begin

text \<open>
  Names at or below a zone.  Six places of the sources decide whether a name belongs to a
  zone (\<open>security.InZone\<close>, \<open>security.inZoneOrEqual\<close>, \<open>resolver.soaCoversName\<close>,
  \<open>cache.authorityCoversName\<close>, the match of a forward zone and that of a local zone), all of
  them by comparing strings.  The interface \<open>zone_test\<close> says what such a test promises: on
  a zone name that is not empty it compares whole labels, which are the parts of the name
  between its dots.  The facts that clients need, above all that the zones of one name are a
  chain, so that the longest matching zone is unique, are proved here once.
\<close>

named_theorems zone_simps

text \<open>The reference: the labels of the zone are the last labels of the name.\<close>

definition at_or_below :: "string \<Rightarrow> string \<Rightarrow> bool" where
  "at_or_below name zone \<longleftrightarrow> suffix (Split dot zone) (Split dot name)"

lemma Split_append_dot: "Split c (xs @ c # ys) = Split c xs @ Split c ys"
proof (induction xs)
  case (Cons x xs)
  obtain y ys' where "Split c xs = y # ys'" by (cases "Split c xs") auto
  with Cons show ?case by auto
qed simp

lemma Split_inj: "Split c xs = Split c ys \<Longrightarrow> xs = ys"
  by (metis Join_Split)

lemma Join_append: "xs \<noteq> [] \<Longrightarrow> ys \<noteq> [] \<Longrightarrow> Join c (xs @ ys) = Join c xs @ c # Join c ys"
proof (induction c xs rule: Join.induct)
  case (2 c x)
  then show ?case by (cases ys) auto
qed auto

text \<open>Comparing whole labels is comparing strings, with the dot before the zone.\<close>

lemma at_or_below_iff [zone_simps]: "at_or_below name zone \<longleftrightarrow> name = zone \<or> suffix (dot # zone) name"
proof
  assume "at_or_below name zone"
  then obtain pre where pre: "Split dot name = pre @ Split dot zone" by (auto simp: at_or_below_def suffix_def)
  show "name = zone \<or> suffix (dot # zone) name"
  proof (cases "pre = []")
    case True
    then show ?thesis using pre Split_inj [of dot name zone] by simp
  next
    case False
    have "name = Join dot (pre @ Split dot zone)" using pre Join_Split [of dot name] by simp
    with False have "name = Join dot pre @ dot # zone" by (simp add: Join_append)
    then show ?thesis by (simp add: suffix_def)
  qed
next
  assume "name = zone \<or> suffix (dot # zone) name"
  then show "at_or_below name zone" by (auto simp: at_or_below_def suffix_def Split_append_dot)
qed

lemma at_or_below_refl [simp]: "at_or_below n n"
  by (simp add: at_or_below_def)

lemma at_or_below_trans: "at_or_below n y \<Longrightarrow> at_or_below y z \<Longrightarrow> at_or_below n z"
  unfolding at_or_below_def by (rule suffix_order.order_trans)

lemma at_or_below_antisym: "at_or_below n z \<Longrightarrow> at_or_below z n \<Longrightarrow> n = z"
  unfolding at_or_below_def by (meson Split_inj suffix_order.order_antisym)

lemma at_or_below_chain: "at_or_below n y \<Longrightarrow> at_or_below n z \<Longrightarrow> at_or_below y z \<or> at_or_below z y"
  unfolding at_or_below_def by (rule suffix_same_cases)

lemma at_or_below_length: "at_or_below n z \<Longrightarrow> length z \<le> length n"
  by (auto simp: at_or_below_iff suffix_def)

lemma at_or_below_same_length: "at_or_below n y \<Longrightarrow> at_or_below n z \<Longrightarrow> length y = length z \<Longrightarrow> y = z"
  by (auto simp: at_or_below_iff suffix_def)

lemma at_or_below_child [simp]: "at_or_below (l @ dot # z) z"
  by (auto simp: at_or_below_iff suffix_def)

lemma ToLower_dot_Cons: "ToLower (dot # z) = dot # ToLower z"
proof -
  have "lowerChar dot = dot" by simp
  then show ?thesis unfolding ToLower_def by (simp del: lowerChar_eq_dot)
qed

lemma at_or_below_lower: "at_or_below n z \<Longrightarrow> at_or_below (ToLower n) (ToLower z)"
  by (auto simp: at_or_below_iff suffix_def ToLower_dot_Cons)

section \<open>The interface\<close>

locale zone_test =
  fixes covers :: "string \<Rightarrow> string \<Rightarrow> bool"
  assumes covers_labels: "zone \<noteq> [] \<Longrightarrow> covers name zone \<longleftrightarrow> at_or_below name zone"
begin

lemma covers_self: "z \<noteq> [] \<Longrightarrow> covers z z"
  by (simp add: covers_labels)

lemma covers_trans: "z \<noteq> [] \<Longrightarrow> y \<noteq> [] \<Longrightarrow> covers n y \<Longrightarrow> covers y z \<Longrightarrow> covers n z"
  using at_or_below_trans by (simp add: covers_labels)

lemma covers_chain: "y \<noteq> [] \<Longrightarrow> z \<noteq> [] \<Longrightarrow> covers n y \<Longrightarrow> covers n z \<Longrightarrow> covers y z \<or> covers z y"
  using at_or_below_chain by (simp add: covers_labels)

text \<open>A string that merely ends in the zone's characters is not in the zone.\<close>

lemma not_by_characters: "z \<noteq> [] \<Longrightarrow> x \<noteq> dot \<Longrightarrow> \<not> covers (l @ x # z) z"
  by (auto simp: covers_labels at_or_below_iff suffix_def)

end

text \<open>
  A table searched for the longest zone of a name: \<open>best\<close> is the choice a scan makes that
  replaces its candidate only by a strictly longer zone.
\<close>

definition scanStep :: "(string \<Rightarrow> string \<Rightarrow> bool) \<Rightarrow> ('z \<Rightarrow> string) \<Rightarrow> string \<Rightarrow> 'z \<Rightarrow> 'z option \<times> int \<Rightarrow> 'z option \<times> int" where
  "scanStep covers zname qname z best =
     (if covers qname (zname z) \<and> snd best < int (length (zname z)) then (Some z, int (length (zname z))) else best)"

definition longestMatch :: "(string \<Rightarrow> string \<Rightarrow> bool) \<Rightarrow> ('z \<Rightarrow> string) \<Rightarrow> string \<Rightarrow> 'z list \<Rightarrow> 'z option" where
  "longestMatch covers zname qname zs = fst (fold (scanStep covers zname qname) zs (None, -1))"

definition scan_ok :: "(string \<Rightarrow> string \<Rightarrow> bool) \<Rightarrow> ('z \<Rightarrow> string) \<Rightarrow> string \<Rightarrow> 'z list \<Rightarrow> 'z option \<times> int \<Rightarrow> bool" where
  "scan_ok covers zname qname zs best \<longleftrightarrow>
     (case fst best of
        None \<Rightarrow> snd best = -1 \<and> (\<forall>z \<in> set zs. \<not> covers qname (zname z))
      | Some b \<Rightarrow> b \<in> set zs \<and> covers qname (zname b) \<and> snd best = int (length (zname b)) \<and>
                  (\<forall>z \<in> set zs. covers qname (zname z) \<longrightarrow> length (zname z) \<le> length (zname b)))"

lemma scan_ok_step: "scan_ok covers zname q zs best \<Longrightarrow> scan_ok covers zname q (zs @ [z]) (scanStep covers zname q z best)"
  by (cases best; cases "fst best") (auto simp: scan_ok_def scanStep_def)

lemma scan_ok_fold: "scan_ok covers zname q zs best \<Longrightarrow> scan_ok covers zname q (zs @ rest) (fold (scanStep covers zname q) rest best)"
proof (induction rest arbitrary: zs best)
  case (Cons z rest)
  from Cons.IH [OF scan_ok_step [OF Cons.prems]] show ?case by simp
qed simp

lemma longestMatch_ok: "scan_ok covers zname q zs (fold (scanStep covers zname q) zs (None, -1))"
  using scan_ok_fold [of covers zname q "[]" "(None, -1)" zs] by (simp add: scan_ok_def)

lemma longestMatch_Some:
  "longestMatch covers zname q zs = Some b \<Longrightarrow>
     b \<in> set zs \<and> covers q (zname b) \<and> (\<forall>z \<in> set zs. covers q (zname z) \<longrightarrow> length (zname z) \<le> length (zname b))"
  using longestMatch_ok [of covers zname q zs] by (auto simp: longestMatch_def scan_ok_def split: option.splits)

lemma longestMatch_None: "longestMatch covers zname q zs = None \<longleftrightarrow> (\<forall>z \<in> set zs. \<not> covers q (zname z))"
  using longestMatch_ok [of covers zname q zs] by (auto simp: longestMatch_def scan_ok_def split: option.splits)

context zone_test
begin

text \<open>The zone chosen is the closest one: every other matching zone is an ancestor of it.\<close>

lemma longestMatch_closest:
  assumes "longestMatch covers zname q zs = Some b" and "z \<in> set zs" and "covers q (zname z)"
    and "zname z \<noteq> []" and "zname b \<noteq> []"
  shows "covers (zname b) (zname z)"
proof -
  from longestMatch_Some [OF assms(1)] assms(2,3)
  have b: "covers q (zname b)" and le: "length (zname z) \<le> length (zname b)" by auto
  from covers_chain [OF assms(5,4) b assms(3)] show ?thesis
  proof
    assume "covers (zname z) (zname b)"
    then have "at_or_below (zname z) (zname b)" using assms(5) by (simp add: covers_labels)
    moreover from this have "length (zname b) \<le> length (zname z)" by (rule at_or_below_length)
    ultimately have "zname z = zname b"
      using le at_or_below_same_length [of "zname z" "zname z" "zname b"] by simp
    then show ?thesis using assms(4) covers_self by simp
  qed
qed

end

end
