(* ===== verification/Net_Text.thy ===== *)
theory Net_Text
  imports Net_IP
begin

text \<open>
  Textual addresses of package \<open>net\<close>: \<open>ParseIP\<close> (dotted quads and the forms of RFC 4291, no
  zone), \<open>ParseCIDR\<close> and \<open>IP.String\<close> (RFC 5952), as the Go library has them.  \<open>None\<close> stands
  for the nil address and for an error.
\<close>

section \<open>Numbers\<close>

definition digitVal :: "char \<Rightarrow> nat option" where
  "digitVal c = (let n = (of_char c :: nat) in if 48 \<le> n \<and> n \<le> 57 then Some (n - 48) else None)"

definition hexVal :: "char \<Rightarrow> nat option" where
  "hexVal c = (let n = (of_char c :: nat) in
     if 48 \<le> n \<and> n \<le> 57 then Some (n - 48)
     else if 97 \<le> n \<and> n \<le> 102 then Some (n - 87)
     else if 65 \<le> n \<and> n \<le> 70 then Some (n - 55)
     else None)"

definition isDigit :: "char \<Rightarrow> bool" where
  "isDigit c \<longleftrightarrow> digitVal c \<noteq> None"

definition decimal :: "string \<Rightarrow> nat" where
  "decimal s = foldl (\<lambda>v c. v * 10 + the (digitVal c)) 0 s"

definition digitChar :: "nat \<Rightarrow> char" where
  "digitChar d = char_of (48 + d)"

text \<open>\<open>strconv.Itoa\<close> of a number that is not negative.\<close>

fun showNat :: "nat \<Rightarrow> string" where
  "showNat n = (if n < 10 then [digitChar n] else showNat (n div 10) @ [digitChar (n mod 10)])"

declare showNat.simps [simp del]

section \<open>ParseIP\<close>

definition parseOctet :: "string \<Rightarrow> u8 option" where
  "parseOctet p =
     (if p \<noteq> [] \<and> list_all isDigit p \<and> (length p = 1 \<or> hd p \<noteq> CHR ''0'') \<and> decimal p \<le> 255
      then Some (of_nat (decimal p)) else None)"

fun optMap :: "('a \<Rightarrow> 'b option) \<Rightarrow> 'a list \<Rightarrow> 'b list option" where
  "optMap f [] = Some []"
| "optMap f (x # xs) = (case f x of None \<Rightarrow> None | Some y \<Rightarrow> map_option ((#) y) (optMap f xs))"

definition parseIPv4 :: "string \<Rightarrow> bytes option" where
  "parseIPv4 s = (let ps = Split dot s in if length ps = 4 then optMap parseOctet ps else None)"

definition isHex :: "char \<Rightarrow> bool" where
  "isHex c \<longleftrightarrow> hexVal c \<noteq> None"

definition hexNum :: "string \<Rightarrow> u16" where
  "hexNum s = foldl (\<lambda>v c. v * 16 + of_nat (the (hexVal c))) 0 s"

text \<open>
  The loop over the groups: the rest of the text, the bytes read, and where the ellipsis
  stands.  It yields the bytes read and the position of the ellipsis.
\<close>

function v6Loop :: "string \<Rightarrow> bytes \<Rightarrow> nat option \<Rightarrow> (bytes \<times> nat option) option" where
  "v6Loop s ip ellipsis =
     (if 16 \<le> length ip then None
      else (let g = takeWhile isHex s; rest = dropWhile isHex s in
        if g = [] \<or> 4 < length g then None
        else (case rest of
          [] \<Rightarrow> Some (ip @ putUint16 (hexNum g), ellipsis)
        | c # rest' \<Rightarrow>
            if c = dot then
              (if ellipsis = None \<and> length ip \<noteq> 12 then None
               else if 16 < length ip + 4 then None
               else map_option (\<lambda>v4. (ip @ v4, ellipsis)) (parseIPv4 s))
            else if c \<noteq> CHR '':'' \<or> rest' = [] then None
            else (let ip' = ip @ putUint16 (hexNum g) in
              if hd rest' = CHR '':'' then
                (if ellipsis \<noteq> None then None
                 else if tl rest' = [] then Some (ip', Some (length ip'))
                 else v6Loop (tl rest') ip' (Some (length ip')))
              else v6Loop rest' ip' ellipsis))))"
  by pat_completeness auto
termination
proof -
  have shorter: "length ys < length s" if "dropWhile P s = x # ys" for P s and x :: char and ys
    using length_dropWhile_le [of P s] that by simp
  show ?thesis
    by (relation "measure (\<lambda>(s, ip, ellipsis). length s)") (auto dest!: shorter [OF sym] simp: less_imp_diff_less)
qed

declare v6Loop.simps [simp del]

definition expandEllipsis :: "bytes \<Rightarrow> nat option \<Rightarrow> bytes option" where
  "expandEllipsis ip ellipsis =
     (if length ip < 16
      then map_option (\<lambda>e. take e ip @ replicate (16 - length ip) 0 @ drop e ip) ellipsis
      else if ellipsis = None then Some ip else None)"

definition parseIPv6 :: "string \<Rightarrow> bytes option" where
  "parseIPv6 s =
     (if take 2 s = ''::'' then
        (if drop 2 s = [] then Some (replicate 16 0)
         else (case v6Loop (drop 2 s) [] (Some 0) of
                 None \<Rightarrow> None | Some (ip, e) \<Rightarrow> expandEllipsis ip e))
      else (case v6Loop s [] None of None \<Rightarrow> None | Some (ip, e) \<Rightarrow> expandEllipsis ip e))"

text \<open>
  \<open>netip.ParseAddr\<close>: the first of \<open>.\<close>, \<open>:\<close> and \<open>%\<close> in the text decides.  An address with a
  zone is refused by both callers, so a \<open>%\<close> is refused here.  The result has 4 or 16 bytes.
\<close>

definition ParseAddr :: "string \<Rightarrow> bytes option" where
  "ParseAddr s =
     (if CHR ''%'' \<in> set s then None
      else (case dropWhile (\<lambda>c. c \<noteq> dot \<and> c \<noteq> CHR '':'') s of
              [] \<Rightarrow> None
            | c # _ \<Rightarrow> if c = dot then parseIPv4 s else parseIPv6 s))"

definition ParseIP :: "string \<Rightarrow> IP option" where
  "ParseIP s = Option.bind (ParseAddr s) To16"

section \<open>ParseCIDR\<close>

definition ParseCIDR :: "string \<Rightarrow> (IP \<times> IPNet) option" where
  "ParseCIDR s =
     (case IndexByte s CHR ''/'' of
        None \<Rightarrow> None
      | Some i \<Rightarrow>
          (let m = drop (i + 1) s in
           case ParseAddr (take i s) of
             None \<Rightarrow> None
           | Some a \<Rightarrow>
               if m \<noteq> [] \<and> list_all isDigit m \<and> decimal m \<le> 8 * length a
               then map_option (\<lambda>ip. (ip, mkNet a (decimal m))) (To16 a)
               else None))"

section \<open>String\<close>

definition hexDigit :: "nat \<Rightarrow> char" where
  "hexDigit d = (if d < 10 then char_of (48 + d) else char_of (87 + d))"

text \<open>A group in lower-case hexadecimal without leading zeros.\<close>

definition showHex16 :: "nat \<Rightarrow> string" where
  "showHex16 n =
     (let ds = dropWhile (\<lambda>d. d = 0) [n div 4096 mod 16, n div 256 mod 16, n div 16 mod 16] in
      map hexDigit ds @ [hexDigit (n mod 16)])"

definition group :: "bytes \<Rightarrow> nat \<Rightarrow> nat" where
  "group ip i = unat (getUint16 (ip ! (2 * i)) (ip ! (2 * i + 1)))"

text \<open>The length of the run of zero groups that starts at group \<open>i\<close>, and the first longest run.\<close>

definition zeroRun :: "bytes \<Rightarrow> nat \<Rightarrow> nat" where
  "zeroRun ip i = length (takeWhile (\<lambda>j. group ip j = 0) [i..<8])"

definition longestZeros :: "bytes \<Rightarrow> nat \<times> nat" where
  "longestZeros ip =
     fold (\<lambda>i (at, len). if len < zeroRun ip i \<and> 2 \<le> zeroRun ip i then (i, zeroRun ip i) else (at, len)) [0..<8] (8, 0)"

definition showGroups :: "bytes \<Rightarrow> nat \<Rightarrow> nat \<Rightarrow> string" where
  "showGroups ip lo hi = Join CHR '':'' (map (\<lambda>i. showHex16 (group ip i)) [lo..<hi])"

definition IP_String :: "IP \<Rightarrow> string" where
  "IP_String ip =
     (case To4 ip of
        Some v4 \<Rightarrow> Join dot (map (\<lambda>b. showNat (unat b)) v4)
      | None \<Rightarrow>
          if length ip = 16 then
            (case longestZeros ip of (at, len) \<Rightarrow>
               if len = 0 then showGroups ip 0 8
               else showGroups ip 0 at @ ''::'' @ showGroups ip (at + len) 8)
          else ''<nil>'')"

section \<open>Lemmas\<close>

lemma digitVal_digitChar: "d < 10 \<Longrightarrow> digitVal (digitChar d) = Some d"
  by (simp add: digitVal_def digitChar_def)

lemma decimal_append_digit: "d < 10 \<Longrightarrow> decimal (s @ [digitChar d]) = decimal s * 10 + d"
  by (simp add: decimal_def digitVal_digitChar)

lemma decimal_showNat: "decimal (showNat n) = n"
proof (induction n rule: less_induct)
  case (less n)
  show ?case
  proof (cases "n < 10")
    case True
    then show ?thesis by (simp add: showNat.simps [of n] decimal_def digitVal_digitChar)
  next
    case False
    with less.IH [of "n div 10"] show ?thesis by (simp add: showNat.simps [of n] decimal_append_digit)
  qed
qed

lemma showNat_digits: "list_all isDigit (showNat n) \<and> showNat n \<noteq> []"
proof (induction n rule: less_induct)
  case (less n)
  show ?case
  proof (cases "n < 10")
    case False
    with less.IH [of "n div 10"] show ?thesis
      by (simp add: showNat.simps [of n] isDigit_def digitVal_digitChar)
  qed (simp add: showNat.simps [of n] isDigit_def digitVal_digitChar)
qed

lemma digitChar_0_iff: "d < 10 \<Longrightarrow> digitChar d = CHR ''0'' \<longleftrightarrow> d = 0"
proof -
  assume d: "d < 10"
  have "digitChar d = CHR ''0'' \<longleftrightarrow> digitVal (digitChar d) = Some 0"
  proof
    assume "digitVal (digitChar d) = Some 0"
    with d have "d = 0" by (simp add: digitVal_digitChar)
    then show "digitChar d = CHR ''0''" by (simp add: digitChar_def) code_simp
  qed (simp add: digitVal_def)
  with d show ?thesis by (simp add: digitVal_digitChar)
qed

lemma showNat_no_leading_zero: "0 < n \<Longrightarrow> hd (showNat n) \<noteq> CHR ''0''"
proof (induction n rule: less_induct)
  case (less n)
  show ?case
  proof (cases "n < 10")
    case True
    then show ?thesis using less.prems by (simp add: showNat.simps [of n] digitChar_0_iff)
  next
    case False
    with less.IH [of "n div 10"] have "hd (showNat (n div 10)) \<noteq> CHR ''0''" by simp
    then show ?thesis using False showNat_digits [of "n div 10"] by (simp add: showNat.simps [of n])
  qed
qed

lemma parseOctet_showNat: "parseOctet (showNat (unat (b :: u8))) = Some b"
proof -
  have lt: "unat b < 2 ^ LENGTH(8)" by (rule unsigned_less)
  have "length (showNat (unat b)) = 1 \<or> hd (showNat (unat b)) \<noteq> CHR ''0''"
    using showNat_no_leading_zero [of "unat b"] by (cases "unat b = 0") (auto simp: showNat.simps [of 0])
  with lt show ?thesis by (auto simp: parseOctet_def decimal_showNat showNat_digits)
qed

lemma dot_not_digit: "list_all isDigit s \<Longrightarrow> dot \<notin> set s"
  by (auto simp: list_all_iff isDigit_def digitVal_def)

lemma optMap_map: "(\<And>x. x \<in> set xs \<Longrightarrow> f (g x) = Some x) \<Longrightarrow> optMap f (map g xs) = Some xs"
  by (induction xs) auto

text \<open>A dotted quad reads back as the address it was printed from.\<close>

lemma parseIPv4_String: "length v4 = 4 \<Longrightarrow> parseIPv4 (Join dot (map (\<lambda>b. showNat (unat b)) v4)) = Some v4"
proof -
  assume len: "length v4 = 4"
  have "Split dot (Join dot (map (\<lambda>b. showNat (unat b)) v4)) = map (\<lambda>b. showNat (unat b)) v4"
    using len by (intro Split_Join) (auto simp: dot_not_digit showNat_digits)
  with len show ?thesis by (simp add: parseIPv4_def parseOctet_showNat optMap_map)
qed

lemma optMap_length: "optMap f xs = Some ys \<Longrightarrow> length ys = length xs"
  by (induction xs arbitrary: ys) (auto split: option.splits)

lemma parseIPv4_length: "parseIPv4 s = Some v \<Longrightarrow> length v = 4"
  by (auto simp: parseIPv4_def Let_def dest: optMap_length split: if_splits)

lemma ParseIP_length: "ParseIP s = Some ip \<Longrightarrow> length ip = 16"
  by (auto simp: ParseIP_def Option.bind_eq_Some_conv dest: To16_length)

end
