(* ===== verification/Security_Zone.thy ===== *)
theory Security_Zone
  imports Zone_Names Dns_RData Dns_Message Net_Text
begin

text \<open>
  Package \<open>security\<close>, the part that decides by zone and by address: the bailiwick filter
  (\<open>bailiwick.go\<close>), the access control lists (\<open>acl.go\<close>) and the filter of addresses that must
  not appear in a public answer (\<open>private.go\<close>).  A message is a value: the in-place filters of
  the sources become functions that return the new message.
\<close>

section \<open>Bailiwick (bailiwick.go)\<close>

definition InZone :: "string \<Rightarrow> string \<Rightarrow> bool" where
  "InZone name zone \<longleftrightarrow> (if zone = [] then True else if name = zone then True else HasSuffix name (''.'' @ zone))"

definition filterInZone :: "ResourceRecord list \<Rightarrow> string \<Rightarrow> ResourceRecord list" where
  "filterInZone records zone =
     (if zone = [] then records else filter (\<lambda>rr. InZone (ToLower (rrName rr)) zone) records)"

text \<open>The set of NS names the authority section gives, as a list of map keys.\<close>

fun glueNames :: "ResourceRecord list \<Rightarrow> string list" where
  "glueNames [] = []"
| "glueNames (rr # rrs) =
     (if rrType rr = TypeNS
      then (case ParseNS (rrRData rr) 0 of
              Ret nsName \<Rightarrow> ToLower nsName # glueNames rrs
            | _ \<Rightarrow> glueNames rrs)
      else glueNames rrs)"

definition SanitizeBailiwick :: "Message \<Rightarrow> string \<Rightarrow> Message" where
  "SanitizeBailiwick msg zone =
     (let zone = ToLower zone;
          msg = msg\<lparr>Answers := filterInZone (Answers msg) zone\<rparr>;
          msg = msg\<lparr>Authority := filterInZone (Authority msg) zone\<rparr>;
          nsNames = glueNames (Authority msg);
          filtered = filter (\<lambda>rr. if rrType rr = TypeOPT then True
                                  else if ToLower (rrName rr) \<notin> set nsNames then False
                                  else InZone (ToLower (rrName rr)) zone) (Additional msg)
      in msg\<lparr>Additional := filtered\<rparr>)"

interpretation bw: zone_test InZone
  by unfold_locales (auto simp: InZone_def zone_simps HasSuffix_iff_suffix)

section \<open>Access control (acl.go)\<close>

record ZoneACL =
  aclZone :: string
  AllowNets :: "IPNet list"
  DenyNets :: "IPNet list"

record ACL =
  allow :: "IPNet list"
  deny :: "IPNet list"
  zones :: "ZoneACL list"

record ZoneACLConfig =
  cfgZone :: string
  cfgAllow :: "string list"
  cfgDeny :: "string list"

text \<open>The loop over the texts of networks: \<open>None\<close> is the error of the first text that does not parse.\<close>

definition parseNets :: "string list \<Rightarrow> IPNet list option" where
  "parseNets cidrs = optMap (\<lambda>c. map_option snd (ParseCIDR c)) cidrs"

definition NewACL :: "string list \<Rightarrow> string list \<Rightarrow> ACL option" where
  "NewACL al de =
     (case parseNets al of
        None \<Rightarrow> None
      | Some a \<Rightarrow> (case parseNets de of None \<Rightarrow> None | Some d \<Rightarrow> Some \<lparr>allow = a, deny = d, zones = []\<rparr>))"

definition AddZoneACL :: "ACL \<Rightarrow> ZoneACLConfig \<Rightarrow> ACL option" where
  "AddZoneACL acl cfg =
     (case parseNets (cfgAllow cfg) of
        None \<Rightarrow> None
      | Some a \<Rightarrow> (case parseNets (cfgDeny cfg) of
          None \<Rightarrow> None
        | Some d \<Rightarrow> Some (acl\<lparr>zones := zones acl @ [\<lparr>aclZone = ToLower (TrimSuffix (cfgZone cfg) ''.''),
                                                        AllowNets = a, DenyNets = d\<rparr>]\<rparr>)))"

definition checkNets :: "IP \<Rightarrow> IPNet list \<Rightarrow> IPNet list \<Rightarrow> bool" where
  "checkNets ip al de =
     (if list_ex (\<lambda>n. netContains n ip) de then False
      else if length al = 0 then True
      else list_ex (\<lambda>n. netContains n ip) al)"

definition checkGlobal :: "ACL \<Rightarrow> IP \<Rightarrow> bool" where
  "checkGlobal acl ip = checkNets ip (allow acl) (deny acl)"

definition Check :: "ACL \<Rightarrow> string \<Rightarrow> bool" where
  "Check acl ipStr = (case ParseIP ipStr of None \<Rightarrow> False | Some ip \<Rightarrow> checkGlobal acl ip)"

definition inZoneOrEqual :: "string \<Rightarrow> string \<Rightarrow> bool" where
  "inZoneOrEqual qname zone =
     (if qname = zone then True
      else length zone < length qname \<and> qname ! (length qname - length zone - 1) = dot \<and> HasSuffix qname zone)"

definition matchZone :: "ACL \<Rightarrow> string \<Rightarrow> ZoneACL option" where
  "matchZone acl qname = longestMatch inZoneOrEqual aclZone qname (zones acl)"

definition CheckWithZone :: "ACL \<Rightarrow> string \<Rightarrow> string \<Rightarrow> bool" where
  "CheckWithZone acl ipStr qname =
     (case ParseIP ipStr of
        None \<Rightarrow> False
      | Some ip \<Rightarrow>
          (let qname = ToLower (TrimSuffix qname ''.'') in
           case matchZone acl qname of
             Some za \<Rightarrow> checkNets ip (AllowNets za) (DenyNets za)
           | None \<Rightarrow> checkGlobal acl ip))"

lemma inZoneOrEqual_at_or_below: "inZoneOrEqual name zone \<longleftrightarrow> at_or_below name zone"
proof
  assume "inZoneOrEqual name zone"
  then show "at_or_below name zone"
  proof (cases "name = zone")
    case False
    with \<open>inZoneOrEqual name zone\<close> have len: "length zone < length name"
      and d: "name ! (length name - length zone - 1) = dot" and s: "suffix zone name"
      by (auto simp: inZoneOrEqual_def HasSuffix_iff_suffix)
    from s obtain pre where pre: "name = pre @ zone" by (auto simp: suffix_def)
    with len obtain ps p where "pre = ps @ [p]" by (cases pre rule: rev_cases) auto
    with pre d have "name = ps @ dot # zone" by (simp add: nth_append)
    then show ?thesis by simp
  qed simp
next
  assume "at_or_below name zone"
  then show "inZoneOrEqual name zone"
    by (auto simp: zone_simps inZoneOrEqual_def HasSuffix_iff_suffix suffix_def nth_append)
qed

interpretation acl: zone_test inZoneOrEqual
  by unfold_locales (rule inZoneOrEqual_at_or_below)

section \<open>Reserved addresses (private.go)\<close>

text \<open>\<open>cidr\<close> panics on a malformed text, which is \<open>None\<close>; the tables are built when the package is initialised.\<close>

definition cidr :: "string \<Rightarrow> IPNet option" where
  "cidr s = map_option snd (ParseCIDR s)"

definition reservedV4Texts :: "string list" where
  "reservedV4Texts =
     [''0.0.0.0/8'', ''10.0.0.0/8'', ''100.64.0.0/10'', ''127.0.0.0/8'', ''169.254.0.0/16'', ''172.16.0.0/12'',
      ''192.0.0.0/24'', ''192.0.2.0/24'', ''192.168.0.0/16'', ''198.18.0.0/15'', ''198.51.100.0/24'',
      ''203.0.113.0/24'', ''224.0.0.0/4'', ''240.0.0.0/4'']"

definition reservedV4 :: "IPNet list" where
  "reservedV4 = List.map_filter cidr reservedV4Texts"

definition reservedV6Texts :: "string list" where
  "reservedV6Texts =
     [''::1/128'', ''::/128'', ''64:ff9b::/96'', ''64:ff9b:1::/48'', ''100::/64'', ''2001::/23'', ''2001:db8::/32'',
      ''2002::/16'', ''fc00::/7'', ''fe80::/10'', ''ff00::/8'']"

definition reservedV6 :: "IPNet list" where
  "reservedV6 = List.map_filter cidr reservedV6Texts"

definition IsReservedIP :: "IP \<Rightarrow> bool" where
  "IsReservedIP ip =
     (case To4 ip of
        Some v4 \<Rightarrow> list_ex (\<lambda>n. netContains n v4) reservedV4
      | None \<Rightarrow> list_ex (\<lambda>n. netContains n ip) reservedV6)"

definition isPrivateAddressRecord :: "ResourceRecord \<Rightarrow> bool" where
  "isPrivateAddressRecord rr =
     (if rrType rr = TypeA then (if length (rrRData rr) \<noteq> 4 then False else IsReservedIP (rrRData rr))
      else if rrType rr = TypeAAAA then (if length (rrRData rr) \<noteq> 16 then False else IsReservedIP (rrRData rr))
      else False)"

definition FilterPrivateAddresses :: "ResourceRecord list \<Rightarrow> ResourceRecord list" where
  "FilterPrivateAddresses answers = filter (\<lambda>rr. \<not> isPrivateAddressRecord rr) answers"

end
