(* ===== verification/Security_Properties.thy ===== *)
theory Security_Properties
  imports Security_Zone
begin

text \<open>
  What the zone and address filters of package \<open>security\<close> guarantee.
\<close>

section \<open>Bytes under a mask\<close>

lemma high_bits_iff: "x AND NOT (mask k) = y AND NOT (mask k) \<longleftrightarrow> drop_bit k x = drop_bit k y" for x y :: "'a :: len word"
proof
  assume a: "x AND NOT (mask k) = y AND NOT (mask k)"
  show "drop_bit k x = drop_bit k y"
  proof (rule bit_word_eqI)
    fix n
    have "bit (x AND NOT (mask k)) (k + n) = bit (y AND NOT (mask k)) (k + n)" using a by simp
    then show "bit (drop_bit k x) n = bit (drop_bit k y) n"
      by (auto simp: bit_simps dest: bit_imp_le_length)
  qed
next
  assume a: "drop_bit k x = drop_bit k y"
  show "x AND NOT (mask k) = y AND NOT (mask k)"
  proof (rule bit_word_eqI)
    fix n
    show "bit (x AND NOT (mask k)) n = bit (y AND NOT (mask k)) n"
    proof (cases "k \<le> n")
      case True
      have "bit (drop_bit k x) (n - k) = bit (drop_bit k y) (n - k)" using a by simp
      with True show ?thesis by (simp add: bit_simps)
    qed (auto simp: bit_simps)
  qed
qed

lemma and_high_iff:
  fixes x y :: "'a :: len word"
  assumes "m = NOT (mask k)" and "y AND m = y"
  shows "x AND m = y \<longleftrightarrow> unat x div 2 ^ k = unat y div 2 ^ k"
proof -
  have "x AND m = y \<longleftrightarrow> drop_bit k x = drop_bit k y"
    using assms high_bits_iff [of x k y] by simp
  also have "\<dots> \<longleftrightarrow> unat (drop_bit k x) = unat (drop_bit k y)" by (simp only: word_unat_eq_iff)
  also have "\<dots> \<longleftrightarrow> unat x div 2 ^ k = unat y div 2 ^ k"
    by (simp only: unsigned_drop_bit_eq [of k x] unsigned_drop_bit_eq [of k y]) (simp add: drop_bit_eq_div unsigned_take_bit_eq take_bit_nat_eq_self [OF unsigned_less])
  finally show ?thesis .
qed

lemma u8_lt: "unat (x :: u8) < 256"
  using unsigned_less [of x] by simp

lemma masked_ranges:
  fixes x :: u8
  shows "x AND 192 = 64 \<longleftrightarrow> 64 \<le> unat x \<and> unat x < 128"
    and "x AND 240 = 16 \<longleftrightarrow> 16 \<le> unat x \<and> unat x < 32"
    and "x AND 240 = 224 \<longleftrightarrow> 224 \<le> unat x \<and> unat x < 240"
    and "x AND 240 = 240 \<longleftrightarrow> 240 \<le> unat x"
    and "x AND 254 = 18 \<longleftrightarrow> 18 \<le> unat x \<and> unat x < 20"
proof -
  have m: "(192 :: u8) = NOT (mask 6)" "(240 :: u8) = NOT (mask 4)" "(254 :: u8) = NOT (mask 1)"
    by code_simp+
  show "x AND 192 = 64 \<longleftrightarrow> 64 \<le> unat x \<and> unat x < 128"
    by (subst and_high_iff [OF m(1)]) (simp, auto)
  show "x AND 240 = 16 \<longleftrightarrow> 16 \<le> unat x \<and> unat x < 32"
    by (subst and_high_iff [OF m(2)]) (simp, auto)
  show "x AND 240 = 224 \<longleftrightarrow> 224 \<le> unat x \<and> unat x < 240"
    by (subst and_high_iff [OF m(2)]) (simp, auto)
  show "x AND 240 = 240 \<longleftrightarrow> 240 \<le> unat x"
    using u8_lt [of x] by (subst and_high_iff [OF m(2)]) (simp, auto)
  show "x AND 254 = 18 \<longleftrightarrow> 18 \<le> unat x \<and> unat x < 20"
    by (subst and_high_iff [OF m(3)]) (simp, auto)
qed


section \<open>Networks\<close>

lemma reservedV4_nets:
  "reservedV4 = map (\<lambda>(ip, m). \<lparr>netIP = ip, netMask = m\<rparr>)
     [([0,0,0,0],[255,0,0,0]), ([10,0,0,0],[255,0,0,0]), ([100,64,0,0],[255,192,0,0]), ([127,0,0,0],[255,0,0,0]),
      ([169,254,0,0],[255,255,0,0]), ([172,16,0,0],[255,240,0,0]), ([192,0,0,0],[255,255,255,0]),
      ([192,0,2,0],[255,255,255,0]), ([192,168,0,0],[255,255,0,0]), ([198,18,0,0],[255,254,0,0]),
      ([198,51,100,0],[255,255,255,0]), ([203,0,113,0],[255,255,255,0]), ([224,0,0,0],[240,0,0,0]),
      ([240,0,0,0],[240,0,0,0])]"
  by code_simp

lemma and_255: "x AND 255 = x" for x :: u8
proof -
  have "(255 :: u8) = NOT 0" by code_simp
  then show ?thesis by (simp only: and.right_neutral minus_eq_not_minus_1 bit.conj_one_right) simp
qed

lemma netContains_v4:
  "netContains \<lparr>netIP = [p, q, r, s], netMask = [k, l, m, n]\<rparr> [a, b, c, d] \<longleftrightarrow>
     a AND k = p AND k \<and> b AND l = q AND l \<and> c AND m = r AND m \<and> d AND n = s AND n"
  by (auto simp: netContains_def networkNumberAndMask_def To4_def maskBytes_def)

text \<open>The table of private.go, read as ranges of octets.\<close>

definition reserved_v4 :: "nat \<Rightarrow> nat \<Rightarrow> nat \<Rightarrow> nat \<Rightarrow> bool" where
  "reserved_v4 a b c d \<longleftrightarrow>
     a = 0 \<or> a = 10 \<or> a = 127 \<or> 224 \<le> a \<or>
     a = 100 \<and> 64 \<le> b \<and> b < 128 \<or>
     a = 169 \<and> b = 254 \<or>
     a = 172 \<and> 16 \<le> b \<and> b < 32 \<or>
     a = 192 \<and> b = 0 \<and> (c = 0 \<or> c = 2) \<or>
     a = 192 \<and> b = 168 \<or>
     a = 198 \<and> 18 \<le> b \<and> b < 20 \<or>
     a = 198 \<and> b = 51 \<and> c = 100 \<or>
     a = 203 \<and> b = 0 \<and> c = 113"

lemma IsReservedIP_v4:
  "IsReservedIP [a, b, c, d] \<longleftrightarrow> reserved_v4 (unat a) (unat b) (unat c) (unat d)"
proof -
  have e: "IsReservedIP [a, b, c, d] \<longleftrightarrow>
      a = 0 \<or> a = 10 \<or> (a = 100 \<and> b AND 192 = 64) \<or> a = 127 \<or> (a = 169 \<and> b = 254) \<or>
      (a = 172 \<and> b AND 240 = 16) \<or> (a = 192 \<and> b = 0 \<and> c = 0) \<or> (a = 192 \<and> b = 0 \<and> c = 2) \<or>
      (a = 192 \<and> b = 168) \<or> (a = 198 \<and> b AND 254 = 18) \<or> (a = 198 \<and> b = 51 \<and> c = 100) \<or>
      (a = 203 \<and> b = 0 \<and> c = 113) \<or> a AND 240 = 224 \<or> a AND 240 = 240"
    by (simp add: IsReservedIP_def To4_def reservedV4_nets netContains_v4 and_255)
  show ?thesis unfolding e reserved_v4_def masked_ranges
    unfolding word_unat_eq_iff by simp presburger
qed

lemma maskBytes_append: "length x = length m \<Longrightarrow> maskBytes (x @ y) (m @ n) = maskBytes x m @ maskBytes y n"
  by (simp add: maskBytes_def)

lemma maskBytes_ones: "length x = k \<Longrightarrow> maskBytes x (replicate k 255) = x"
  by (induction x arbitrary: k) (auto simp: maskBytes_def and_255)

lemma maskBytes_zeros: "length x = k \<Longrightarrow> maskBytes x (replicate k 0) = replicate k 0"
  by (induction x arbitrary: k) (auto simp: maskBytes_def)

text \<open>Equality under a mask of \<open>k\<close> whole bytes is equality of the first \<open>k\<close> bytes.\<close>

lemma masked_eq_prefix:
  assumes "length x = k + j" and "length y = k + j"
  shows "maskBytes x (replicate k 255 @ replicate j 0) = maskBytes y (replicate k 255 @ replicate j 0) \<longleftrightarrow> take k x = take k y"
proof -
  have "maskBytes z (replicate k 255 @ replicate j 0) = take k z @ replicate j 0" if "length z = k + j" for z
    using that maskBytes_append [of "take k z" "replicate k 255" "drop k z" "replicate j 0"]
    by (simp add: maskBytes_ones maskBytes_zeros)
  with assms show ?thesis by simp
qed

lemma masked_eq_partial:
  assumes "length x = k + Suc j" and "length y = k + Suc j"
  shows "maskBytes x (replicate k 255 @ m # replicate j 0) = maskBytes y (replicate k 255 @ m # replicate j 0) \<longleftrightarrow>
    take k x = take k y \<and> x ! k AND m = y ! k AND m"
proof -
  have "maskBytes z (replicate k 255 @ m # replicate j 0) = take k z @ (z ! k AND m) # replicate j 0"
    if "length z = k + Suc j" for z
  proof -
    have "z = take k z @ z ! k # drop (Suc k) z" using that by (simp add: id_take_nth_drop)
    then have "maskBytes z (replicate k 255 @ m # replicate j 0) =
        maskBytes (take k z @ [z ! k] @ drop (Suc k) z) (replicate k 255 @ [m] @ replicate j 0)" by simp
    also have "\<dots> = take k z @ (z ! k AND m) # replicate j 0"
      using that by (simp add: maskBytes_append maskBytes_ones maskBytes_zeros del: append_Cons) (simp add: maskBytes_def)
    finally show ?thesis .
  qed
  with assms show ?thesis by simp
qed

lemma netContains_v6:
  assumes "length p = 16" "length m = 16" "To4 p = None" "length ip = 16" "To4 ip = None"
  shows "netContains \<lparr>netIP = p, netMask = m\<rparr> ip \<longleftrightarrow> maskBytes ip m = maskBytes p m"
  using assms by (auto simp: netContains_def networkNumberAndMask_def)

definition pad16 :: "bytes \<Rightarrow> bytes" where
  "pad16 p = p @ replicate (16 - length p) 0"

lemma reservedV6_nets:
  "reservedV6 = map (\<lambda>(p, m). \<lparr>netIP = pad16 p, netMask = pad16 m\<rparr>)
     [(replicate 15 0 @ [1], replicate 16 255), ([], replicate 16 255), ([0, 0x64, 0xff, 0x9b], replicate 12 255),
      ([0, 0x64, 0xff, 0x9b, 0, 1], replicate 6 255), ([1, 0], replicate 8 255), ([0x20, 1], replicate 2 255 @ [254]),
      ([0x20, 1, 0xd, 0xb8], replicate 4 255), ([0x20, 2], replicate 2 255), ([0xfc], replicate 0 255 @ [254]),
      ([0xfe, 0x80], replicate 1 255 @ [192]), ([0xff], replicate 1 255)]"
  by code_simp

text \<open>The IPv6 table, read as prefixes of the 16 address bytes.\<close>

definition reserved_v6 :: "bytes \<Rightarrow> bool" where
  "reserved_v6 ip \<longleftrightarrow>
     ip = replicate 15 0 @ [1] \<or> ip = replicate 16 0 \<or>
     take 12 ip = [0, 0x64, 0xff, 0x9b, 0, 0, 0, 0, 0, 0, 0, 0] \<or>
     take 6 ip = [0, 0x64, 0xff, 0x9b, 0, 1] \<or>
     take 8 ip = [1, 0, 0, 0, 0, 0, 0, 0] \<or>
     take 2 ip = [0x20, 1] \<and> unat (ip ! 2) < 2 \<or>
     take 4 ip = [0x20, 1, 0xd, 0xb8] \<or>
     take 2 ip = [0x20, 2] \<or>
     unat (ip ! 0) div 2 = 126 \<or>
     take 1 ip = [0xfe] \<and> 128 \<le> unat (ip ! 1) \<and> unat (ip ! 1) < 192 \<or>
     take 1 ip = [0xff]"

lemma pad16_prefix: "length p \<le> 16 \<Longrightarrow> length m \<le> 16 \<Longrightarrow> To4 (pad16 p) = None \<Longrightarrow> length ip = 16 \<Longrightarrow> To4 ip = None \<Longrightarrow>
   netContains \<lparr>netIP = pad16 p, netMask = pad16 (replicate k 255)\<rparr> ip \<longleftrightarrow> take k ip = take k (pad16 p)" if "k \<le> 16" 
  using that masked_eq_prefix [of ip k "16 - k" "pad16 p"]
  by (simp add: netContains_v6 pad16_def)

lemma masked_ranges':
  fixes x :: u8
  shows "x AND 254 = 0 \<longleftrightarrow> unat x < 2" and "x AND 254 = 252 \<longleftrightarrow> unat x div 2 = 126"
    and "x AND 192 = 128 \<longleftrightarrow> 128 \<le> unat x \<and> unat x < 192"
proof -
  have m: "(192 :: u8) = NOT (mask 6)" "(254 :: u8) = NOT (mask 1)"
    by code_simp+
  show "x AND 254 = 0 \<longleftrightarrow> unat x < 2" by (subst and_high_iff [OF m(2)]) (simp, auto)
  show "x AND 254 = 252 \<longleftrightarrow> unat x div 2 = 126" by (subst and_high_iff [OF m(2)]) (simp, auto)
  show "x AND 192 = 128 \<longleftrightarrow> 128 \<le> unat x \<and> unat x < 192" by (subst and_high_iff [OF m(1)]) (simp, auto)
qed

lemma pad16_partial:
  assumes "k < 16" and "length p \<le> 16" and "To4 (pad16 p) = None" and "length ip = 16" and "To4 ip = None"
  shows "netContains \<lparr>netIP = pad16 p, netMask = pad16 (replicate k 255 @ [m])\<rparr> ip \<longleftrightarrow>
           take k ip = take k (pad16 p) \<and> ip ! k AND m = pad16 p ! k AND m"
  using assms masked_eq_partial [of ip k "15 - k" "pad16 p" m]
  by (simp add: netContains_v6 pad16_def)

definition v6Prefixes :: "bytes list" where
  "v6Prefixes = [replicate 15 0 @ [1], [], [0, 0x64, 0xff, 0x9b], [0, 0x64, 0xff, 0x9b, 0, 1],
      [1, 0], [0x20, 1], [0x20, 1, 0xd, 0xb8], [0x20, 2], [0xfc], [0xfe, 0x80], [0xff]]"

lemma v6Prefixes_ok: "list_all (\<lambda>p. To4 (pad16 p) = None \<and> length p \<le> 16) v6Prefixes"
  by code_simp

lemma to4: "p \<in> set v6Prefixes \<Longrightarrow> To4 (pad16 p) = None"
  and prefix_length: "p \<in> set v6Prefixes \<Longrightarrow> length p \<le> 16"
  using v6Prefixes_ok by (auto simp: list_all_iff)

lemma v6_tables:
  "take 16 (pad16 (replicate 15 0 @ [1])) = replicate 15 0 @ [1]" "take 16 (pad16 []) = replicate 16 0"
  "take 12 (pad16 [0, 0x64, 0xff, 0x9b]) = [0, 0x64, 0xff, 0x9b, 0, 0, 0, 0, 0, 0, 0, 0]"
  "take 6 (pad16 [0, 0x64, 0xff, 0x9b, 0, 1]) = [0, 0x64, 0xff, 0x9b, 0, 1]"
  "take 8 (pad16 [1, 0]) = [1, 0, 0, 0, 0, 0, 0, 0]" "take 2 (pad16 [0x20, 1]) = [0x20, 1]"
  "take 4 (pad16 [0x20, 1, 0xd, 0xb8]) = [0x20, 1, 0xd, 0xb8]" "take 2 (pad16 [0x20, 2]) = [0x20, 2]"
  "take 1 (pad16 [0xfe, 0x80]) = [0xfe]" "take 1 (pad16 [0xff]) = [0xff]" "take 0 (pad16 [0xfc]) = []"
  "pad16 [0x20, 1] ! 2 AND 254 = 0" "pad16 [0xfc] ! 0 AND 254 = 252" "pad16 [0xfe, 0x80] ! 1 AND 192 = 128"
  by code_simp+

lemma IsReservedIP_v6:
  assumes len: "length ip = 16" and v6: "To4 ip = None"
  shows "IsReservedIP ip \<longleftrightarrow> reserved_v6 ip"
proof -
  have whole: "netContains \<lparr>netIP = pad16 p, netMask = pad16 (replicate k 255)\<rparr> ip \<longleftrightarrow> take k ip = take k (pad16 p)"
    if "p \<in> set v6Prefixes" "k \<le> 16" for p k
    using pad16_prefix [of k p "[]" ip] to4 [OF that(1)] that(2) len v6 prefix_length [OF that(1)] by simp
  have part: "netContains \<lparr>netIP = pad16 p, netMask = pad16 (replicate k 255 @ [m])\<rparr> ip \<longleftrightarrow>
      take k ip = take k (pad16 p) \<and> ip ! k AND m = pad16 p ! k AND m"
    if "p \<in> set v6Prefixes" "k < 16" for p k m
    using pad16_partial [OF that(2) prefix_length [OF that(1)] to4 [OF that(1)] len v6] .
  have in_list: "replicate 15 0 @ [1] \<in> set v6Prefixes" "[] \<in> set v6Prefixes" "[0, 0x64, 0xff, 0x9b] \<in> set v6Prefixes"
    "[0, 0x64, 0xff, 0x9b, 0, 1] \<in> set v6Prefixes" "[1, 0] \<in> set v6Prefixes" "[0x20, 1] \<in> set v6Prefixes"
    "[0x20, 1, 0xd, 0xb8] \<in> set v6Prefixes" "[0x20, 2] \<in> set v6Prefixes" "[0xfc] \<in> set v6Prefixes"
    "[0xfe, 0x80] \<in> set v6Prefixes" "[0xff] \<in> set v6Prefixes"
    by (simp_all add: v6Prefixes_def)
  have t16: "take 16 ip = ip" using len by simp
  have "IsReservedIP ip \<longleftrightarrow> list_ex (\<lambda>n. netContains n ip) reservedV6" by (simp add: IsReservedIP_def v6)
  also have "\<dots> \<longleftrightarrow>
     ip = take 16 (pad16 (replicate 15 0 @ [1])) \<or> ip = take 16 (pad16 []) \<or>
     take 12 ip = take 12 (pad16 [0, 0x64, 0xff, 0x9b]) \<or> take 6 ip = take 6 (pad16 [0, 0x64, 0xff, 0x9b, 0, 1]) \<or>
     take 8 ip = take 8 (pad16 [1, 0]) \<or> (take 2 ip = take 2 (pad16 [0x20, 1]) \<and> ip ! 2 AND 254 = pad16 [0x20, 1] ! 2 AND 254) \<or>
     take 4 ip = take 4 (pad16 [0x20, 1, 0xd, 0xb8]) \<or> take 2 ip = take 2 (pad16 [0x20, 2]) \<or>
     (take 0 ip = take 0 (pad16 [0xfc]) \<and> ip ! 0 AND 254 = pad16 [0xfc] ! 0 AND 254) \<or>
     (take 1 ip = take 1 (pad16 [0xfe, 0x80]) \<and> ip ! 1 AND 192 = pad16 [0xfe, 0x80] ! 1 AND 192) \<or>
     take 1 ip = take 1 (pad16 [0xff])"
    unfolding reservedV6_nets
    by (simp only: list.map list_ex_Nil_iff list_ex_Cons_iff case_prod_conv) (simp add: whole part in_list t16 del: replicate_0 replicate_Suc append_Nil One_nat_def)
  also have "\<dots> \<longleftrightarrow> reserved_v6 ip"
    unfolding reserved_v6_def v6_tables masked_ranges' by simp
  finally show ?thesis .
qed


lemma To4_mapped: "To4 (v4InV6Prefix @ [a, b, c, d]) = Some [a, b, c, d]"
  by (simp add: To4_def v4InV6Prefix_def)

text \<open>Which addresses count as reserved, read as octets: a mapped address counts as its IPv4 address.\<close>

definition reserved_address :: "bytes \<Rightarrow> bool" where
  "reserved_address ip \<longleftrightarrow>
     (\<exists>a b c d. (ip = [a, b, c, d] \<or> ip = v4InV6Prefix @ [a, b, c, d]) \<and> reserved_v4 (unat a) (unat b) (unat c) (unat d)) \<or>
     length ip = 16 \<and> take 12 ip \<noteq> v4InV6Prefix \<and> reserved_v6 ip"

lemma length_4: "length xs = 4 \<Longrightarrow> \<exists>a b c d. xs = [a, b, c, d]"
  by (auto simp: numeral_eq_Suc length_Suc_conv)

lemma length_mapped_prefix: "length v4InV6Prefix = 12"
  by (simp add: v4InV6Prefix_def)

lemma mapped_prefix: "take 12 (v4InV6Prefix @ xs) = v4InV6Prefix" "length (v4InV6Prefix @ xs) = 12 + length xs"
  by (simp_all add: length_mapped_prefix)

lemma mapped_prefix_not_Nil: "v4InV6Prefix \<noteq> []" "[] \<noteq> v4InV6Prefix"
  by (simp_all add: v4InV6Prefix_def)

lemma reserved_address_v4: "reserved_address [a, b, c, d] \<longleftrightarrow> reserved_v4 (unat a) (unat b) (unat c) (unat d)"
  by (auto simp: reserved_address_def mapped_prefix_not_Nil)

lemma reserved_address_mapped: "reserved_address (v4InV6Prefix @ [a, b, c, d]) \<longleftrightarrow> reserved_v4 (unat a) (unat b) (unat c) (unat d)"
  by (auto simp: reserved_address_def mapped_prefix_not_Nil length_mapped_prefix)

lemma IsReservedIP_iff:
  assumes "length ip = 4 \<or> length ip = 16"
  shows "IsReservedIP ip \<longleftrightarrow> reserved_address ip"
proof (cases "To4 ip")
  case None
  then have v6: "length ip = 16" "take 12 ip \<noteq> v4InV6Prefix" using assms by (simp_all add: To4_def split: if_splits)
  then have "ip \<noteq> v4InV6Prefix @ [a, b, c, d]" "ip \<noteq> [a, b, c, d]" for a b c d
    using mapped_prefix(1) by auto
  with None v6 show ?thesis using IsReservedIP_v6 [of ip] by (simp add: reserved_address_def)
next
  case (Some v4)
  then obtain a b c d where v4: "v4 = [a, b, c, d]" using To4_length length_4 by blast
  have "IsReservedIP ip \<longleftrightarrow> IsReservedIP v4" using Some v4 by (simp add: IsReservedIP_def To4_def)
  also have "\<dots> \<longleftrightarrow> reserved_v4 (unat a) (unat b) (unat c) (unat d)" unfolding v4 by (rule IsReservedIP_v4)
  also have "\<dots> \<longleftrightarrow> reserved_address ip"
  proof -
    have "ip = v4 \<or> ip = v4InV6Prefix @ v4"
    proof (cases "length ip = 4")
      case False
      with Some have "take 12 ip = v4InV6Prefix" "v4 = drop 12 ip" by (simp_all add: To4_def split: if_splits)
      then show ?thesis using append_take_drop_id [of 12 ip] by simp
    qed (use Some in \<open>simp add: To4_def\<close>)
    then show ?thesis unfolding v4 using reserved_address_v4 reserved_address_mapped by blast
  qed
  finally show ?thesis .
qed

section \<open>Properties\<close>

text \<open>
  C21. The bailiwick filter.  After \<open>SanitizeBailiwick\<close> for a zone that is not the root, the
  answer and authority sections hold exactly the records that were there whose owner, as a
  sequence of labels, is at or below the zone, in their order; an additional record that is
  left is the OPT record or an address of a name server that the remaining authority section
  names, at or below the zone.  For the root zone the first two sections are unchanged.
\<close>

theorem bailiwick_sound:
  "zone \<noteq> [] \<Longrightarrow>
     Answers (SanitizeBailiwick msg zone) = filter (\<lambda>rr. at_or_below (ToLower (rrName rr)) (ToLower zone)) (Answers msg) \<and>
     Authority (SanitizeBailiwick msg zone) = filter (\<lambda>rr. at_or_below (ToLower (rrName rr)) (ToLower zone)) (Authority msg) \<and>
     (\<forall>rr \<in> set (Additional (SanitizeBailiwick msg zone)).
        rr \<in> set (Additional msg) \<and>
        (rrType rr \<noteq> TypeOPT \<longrightarrow>
           at_or_below (ToLower (rrName rr)) (ToLower zone) \<and>
           (\<exists>ns \<in> set (Authority (SanitizeBailiwick msg zone)). rrType ns = TypeNS \<and>
              (\<exists>n. ParseNS (rrRData ns) 0 = Ret n \<and> ToLower n = ToLower (rrName rr)))))"
proof -
  assume "zone \<noteq> []"
  then have z: "ToLower zone \<noteq> []" by (simp add: ToLower_def)
  have glue: "n \<in> set (glueNames rrs) \<longleftrightarrow>
      (\<exists>ns \<in> set rrs. rrType ns = TypeNS \<and> (\<exists>m. ParseNS (rrRData ns) 0 = Ret m \<and> ToLower m = n))" for n rrs
    by (induction rrs) (auto split: outcome.splits)
  have f: "filterInZone rrs (ToLower zone) = filter (\<lambda>rr. at_or_below (ToLower (rrName rr)) (ToLower zone)) rrs" for rrs
    using z by (simp add: filterInZone_def bw.covers_labels)
  show ?thesis
    by (auto simp: SanitizeBailiwick_def Let_def f glue bw.covers_labels [OF z])
qed

theorem bailiwick_sound_witness:
  "\<exists>m :: Message. Answers m \<noteq> [] \<and> Answers (SanitizeBailiwick m ''com'') = Answers m \<and>
     Answers (SanitizeBailiwick m ''org'') = []"
proof -
  let ?rr = "\<lparr>rrName = ''a.com'', rrType = TypeA, rrClass = 1, rrTTL = 5, rrRDLength = 4, rrRData = [1, 2, 3, 4], rrRDataOffset = 0\<rparr>"
  let ?m = "\<lparr>msgHeader = \<lparr>ID = 0, Flags = 0, QDCount = 0, ANCount = 1, NSCount = 0, ARCount = 0\<rparr>, Questions = [],
      Answers = [?rr], Authority = [], Additional = [], msgEDNS0 = None, Raw = []\<rparr>"
  have l: "ToLower ''a.com'' = ''a.com''" "ToLower ''com'' = ''com''" "ToLower ''org'' = ''org''" by code_simp+
  have b: "at_or_below ''a.com'' ''com''" "\<not> at_or_below ''a.com'' ''org''" by code_simp+
  from bailiwick_sound [of "''com''" ?m] bailiwick_sound [of "''org''" ?m]
  show ?thesis using l b by (intro exI [of _ ?m]) simp
qed

text \<open>
  C22. Access control with per-zone rules.  A text that is not an address is refused.
  Otherwise, when a zone rule matches the query name, the rule that decides is one whose zone
  is closest to the name: it covers the name, and every other matching zone is an ancestor of
  it.  A decision by a rule denies when a denied network contains the address, and allows
  otherwise when the allowed networks are none or one of them contains it.  Only when no rule
  matches do the global lists decide, in the same way.
\<close>

theorem CheckWithZone_closest_rule:
  "(ParseIP ipStr = None \<longrightarrow> \<not> CheckWithZone acl ipStr qname) \<and>
   (\<forall>ip. ParseIP ipStr = Some ip \<longrightarrow>
      (let q = ToLower (TrimSuffix qname ''.'');
           verdict = (\<lambda>al de. (\<forall>n \<in> set de. \<not> netContains n ip) \<and> (al = [] \<or> (\<exists>n \<in> set al. netContains n ip))) in
       (\<exists>za \<in> set (zones acl). at_or_below q (aclZone za) \<and>
          (\<forall>z \<in> set (zones acl). at_or_below q (aclZone z) \<longrightarrow> at_or_below (aclZone za) (aclZone z)) \<and>
          CheckWithZone acl ipStr qname = verdict (AllowNets za) (DenyNets za)) \<or>
       (\<forall>z \<in> set (zones acl). \<not> at_or_below q (aclZone z)) \<and>
       CheckWithZone acl ipStr qname = verdict (allow acl) (deny acl)))"
proof -
  have nets: "checkNets ip al de \<longleftrightarrow> (\<forall>n \<in> set de. \<not> netContains n ip) \<and> (al = [] \<or> (\<exists>n \<in> set al. netContains n ip))" for ip al de
    by (auto simp: checkNets_def list_ex_iff)
  have cov: "inZoneOrEqual = at_or_below" using inZoneOrEqual_at_or_below by blast
  have closest: "at_or_below (aclZone za) (aclZone z)"
    if "longestMatch at_or_below aclZone q (zones acl) = Some za" "z \<in> set (zones acl)" "at_or_below q (aclZone z)" for q za z
  proof -
    from longestMatch_Some [OF that(1)] that(2,3)
    have za: "at_or_below q (aclZone za)" "length (aclZone z) \<le> length (aclZone za)" by auto
    from at_or_below_chain [OF za(1) that(3)] show ?thesis
      using za that(3) by (metis at_or_below_length at_or_below_same_length le_antisym at_or_below_refl)
  qed
  show ?thesis
  proof (intro conjI allI impI)
    fix ip assume ip: "ParseIP ipStr = Some ip"
    let ?q = "ToLower (TrimSuffix qname ''.'')"
    show "let q = ?q; verdict = (\<lambda>al de. (\<forall>n \<in> set de. \<not> netContains n ip) \<and> (al = [] \<or> (\<exists>n \<in> set al. netContains n ip))) in
       (\<exists>za \<in> set (zones acl). at_or_below q (aclZone za) \<and>
          (\<forall>z \<in> set (zones acl). at_or_below q (aclZone z) \<longrightarrow> at_or_below (aclZone za) (aclZone z)) \<and>
          CheckWithZone acl ipStr qname = verdict (AllowNets za) (DenyNets za)) \<or>
       (\<forall>z \<in> set (zones acl). \<not> at_or_below q (aclZone z)) \<and>
       CheckWithZone acl ipStr qname = verdict (allow acl) (deny acl)"
    proof (cases "longestMatch at_or_below aclZone ?q (zones acl)")
      case None
      then have "\<forall>z \<in> set (zones acl). \<not> at_or_below ?q (aclZone z)" by (simp add: longestMatch_None)
      moreover have "CheckWithZone acl ipStr qname \<longleftrightarrow> checkNets ip (allow acl) (deny acl)"
        using None by (simp add: CheckWithZone_def ip matchZone_def cov checkGlobal_def)
      ultimately show ?thesis unfolding Let_def nets by blast
    next
      case (Some za)
      then have "CheckWithZone acl ipStr qname \<longleftrightarrow> checkNets ip (AllowNets za) (DenyNets za)"
        by (simp add: CheckWithZone_def ip matchZone_def cov)
      then show ?thesis using longestMatch_Some [OF Some] closest [OF Some] unfolding Let_def nets by blast
    qed
  qed (simp add: CheckWithZone_def)
qed

theorem CheckWithZone_closest_rule_witness:
  "\<not> CheckWithZone \<lparr>allow = [], deny = [], zones = []\<rparr> ''not an address'' ''a.com''"
proof -
  have "ParseIP ''not an address'' = None" by code_simp
  with CheckWithZone_closest_rule [of "''not an address''" "\<lparr>allow = [], deny = [], zones = []\<rparr>" "''a.com''"]
  show ?thesis by blast
qed

text \<open>
  The tables of reserved networks are well formed (building them does not panic), and
  the filter of private addresses removes from an answer exactly the A records with four
  octets and the AAAA records with sixteen whose address is in one of the ranges of the
  tables, written here as conditions on the octets.  An IPv4 address that is mapped into IPv6 is
  judged as the IPv4 address.
\<close>

theorem FilterPrivateAddresses_exact:
  "list_all (\<lambda>s. cidr s \<noteq> None) (reservedV4Texts @ reservedV6Texts) \<and>
   FilterPrivateAddresses answers =
     filter (\<lambda>rr. \<not> ((rrType rr = TypeA \<and> length (rrRData rr) = 4 \<or> rrType rr = TypeAAAA \<and> length (rrRData rr) = 16) \<and>
                      reserved_address (rrRData rr))) answers"
proof
  show "list_all (\<lambda>s. cidr s \<noteq> None) (reservedV4Texts @ reservedV6Texts)" by code_simp
  have "isPrivateAddressRecord rr \<longleftrightarrow>
      (rrType rr = TypeA \<and> length (rrRData rr) = 4 \<or> rrType rr = TypeAAAA \<and> length (rrRData rr) = 16) \<and> reserved_address (rrRData rr)" for rr
    by (auto simp: isPrivateAddressRecord_def IsReservedIP_iff)
  then show "FilterPrivateAddresses answers =
     filter (\<lambda>rr. \<not> ((rrType rr = TypeA \<and> length (rrRData rr) = 4 \<or> rrType rr = TypeAAAA \<and> length (rrRData rr) = 16) \<and>
                      reserved_address (rrRData rr))) answers"
    by (simp add: FilterPrivateAddresses_def)
qed

end
