(* ===== verification/Security_Rate.thy ===== *)
theory Security_Rate
  imports Complex_Main Net_Text Cache_Entry
begin

text \<open>
  Rate limiting (\<open>ratelimit.go\<close>, \<open>rrl.go\<close>) and the keyed hash of the server cookies
  (\<open>siphash.go\<close>).  A \<open>float64\<close> is a rational number; every arithmetic operation on them is
  followed by the rounding of the machine, which is the argument \<open>rnd\<close> of the definitions.
  What is used of it is that it is monotone and leaves the integers up to \<open>2 ^ 53\<close> alone.
\<close>

definition rounding :: "(rat \<Rightarrow> rat) \<Rightarrow> bool" where
  "rounding rnd \<longleftrightarrow> mono rnd \<and> (\<forall>n :: int. \<bar>n\<bar> \<le> 2 ^ 53 \<longrightarrow> rnd (of_int n) = of_int n)"

text \<open>\<open>now.Sub(t).Seconds()\<close>: the whole seconds plus the fraction.\<close>

definition Seconds :: "(rat \<Rightarrow> rat) \<Rightarrow> nat \<Rightarrow> rat" where
  "Seconds rnd d = rnd (of_nat (d div second) + rnd (of_nat (d mod second) / of_nat second))"

section \<open>Token buckets per client (ratelimit.go)\<close>

record tokenBucket =
  tokens :: rat
  lastTime :: time

record RateLimiter =
  clients :: "(string \<times> tokenBucket) list"
  rate :: rat
  burst :: int
  cleanup :: nat

definition NewRateLimiter :: "rat \<Rightarrow> int \<Rightarrow> RateLimiter" where
  "NewRateLimiter r b = \<lparr>clients = [], rate = r, burst = b, cleanup = 300 * second\<rparr>"

definition refill :: "(rat \<Rightarrow> rat) \<Rightarrow> time \<Rightarrow> rat \<Rightarrow> rat \<Rightarrow> rat \<Rightarrow> time \<Rightarrow> rat" where
  "refill rnd now r cap tok lastT =
     (let t = rnd (tok + rnd (Seconds rnd (now - lastT) * r)) in if cap < t then cap else t)"

definition Allow :: "(rat \<Rightarrow> rat) \<Rightarrow> time \<Rightarrow> RateLimiter \<Rightarrow> string \<Rightarrow> bool \<times> RateLimiter" where
  "Allow rnd now rl clientIP =
     (case map_of (clients rl) clientIP of
        None \<Rightarrow> (True, rl\<lparr>clients := AList.update clientIP \<lparr>tokens = rnd (rnd (of_int (burst rl)) - 1), lastTime = now\<rparr> (clients rl)\<rparr>)
      | Some tb \<Rightarrow>
          (let t = refill rnd now (rate rl) (rnd (of_int (burst rl))) (tokens tb) (lastTime tb) in
           if 1 \<le> t
           then (True, rl\<lparr>clients := AList.update clientIP \<lparr>tokens = rnd (t - 1), lastTime = now\<rparr> (clients rl)\<rparr>)
           else (False, rl\<lparr>clients := AList.update clientIP \<lparr>tokens = t, lastTime = now\<rparr> (clients rl)\<rparr>)))"

text \<open>One tick of \<open>StartCleanup\<close>; \<open>time.Now().Add(-cleanup)\<close> is an instant before \<open>now\<close>.\<close>

definition cleanupTick :: "time \<Rightarrow> RateLimiter \<Rightarrow> RateLimiter" where
  "cleanupTick now rl = rl\<lparr>clients := filter (\<lambda>(ip, tb). \<not> lastTime tb + cleanup rl < now) (clients rl)\<rparr>"

section \<open>Response rate limiting (rrl.go)\<close>

datatype RRLAction = RRLAllow | RRLDrop | RRLSlip

record rrlKey =
  rrlPrefix :: string
  rrlQName :: string
  rrlResponseType :: string

record rrlEntry =
  rrlTokens :: rat
  rrlLastTime :: time
  slipCount :: int

record RRL =
  rrlEntries :: "(rrlKey \<times> rrlEntry) list"
  responsesPerSecond :: rat
  slipRatio :: int
  ipv4Prefix :: int
  ipv6Prefix :: int
  cleanupInterval :: int

definition NewRRL :: "rat \<Rightarrow> int \<Rightarrow> int \<Rightarrow> int \<Rightarrow> RRL" where
  "NewRRL rps slip p4 p6 =
     \<lparr>rrlEntries = [], responsesPerSecond = rps, slipRatio = slip, ipv4Prefix = p4, ipv6Prefix = p6,
      cleanupInterval = 300 * int second\<rparr>"

definition maxRRLPrefixLen :: nat where "maxRRLPrefixLen = 64"
definition maxRRLQNameLen :: nat where "maxRRLQNameLen = 255"
definition maxRRLResponseTypeLen :: nat where "maxRRLResponseTypeLen = 32"

text \<open>\<open>strings.TrimSpace\<close> and \<open>strings.ToUpper\<close> on ASCII text.\<close>

definition isSpace :: "char \<Rightarrow> bool" where
  "isSpace c \<longleftrightarrow> (let n = (of_char c :: nat) in n = 32 \<or> 9 \<le> n \<and> n \<le> 13)"

definition TrimSpace :: "string \<Rightarrow> string" where
  "TrimSpace s = rev (dropWhile isSpace (rev (dropWhile isSpace s)))"

lemma TrimSpace_plain:
  assumes "\<forall>c\<in>set d. \<not> isSpace c"
  shows "TrimSpace d = d"
proof -
  have dw: "dropWhile isSpace xs = xs" if "\<forall>c\<in>set xs. \<not> isSpace c" for xs using that by (cases xs) simp_all
  show ?thesis using assms dw [of d] dw [of "rev d"] by (simp add: TrimSpace_def)
qed

definition upperChar :: "char \<Rightarrow> char" where
  "upperChar c = (let n = (of_char c :: nat) in if 97 \<le> n \<and> n \<le> 122 then char_of (n - 32) else c)"

definition ToUpper :: "string \<Rightarrow> string" where
  "ToUpper s = map upperChar s"

definition normalizeRRLKeyPart :: "string \<Rightarrow> nat \<Rightarrow> bool \<Rightarrow> string" where
  "normalizeRRLKeyPart val maxLen lower =
     (let v = TrimSpace val in
      if v = [] then ''-''
      else (let v = (if maxLen < length v then take maxLen v else v) in if lower then ToLower v else v))"

text \<open>\<open>ip.Mask(net.CIDRMask(ones, 8 * len(ip)))\<close>: a prefix length out of range gives the nil mask and the nil address.\<close>

definition maskTo :: "IP \<Rightarrow> int \<Rightarrow> IP" where
  "maskTo ip ones =
     (if ones < 0 \<or> int (8 * length ip) < ones then [] else maskBytes ip (CIDRMask (nat ones) (length ip)))"

definition sourcePrefix :: "RRL \<Rightarrow> string \<Rightarrow> string" where
  "sourcePrefix r ipStr =
     (case ParseIP ipStr of
        None \<Rightarrow> ipStr
      | Some ip \<Rightarrow>
          (case To4 ip of
             Some ip4 \<Rightarrow> IP_String (maskTo ip4 (ipv4Prefix r))
           | None \<Rightarrow> IP_String (maskTo ip (ipv6Prefix r))))"

definition rrlKeyOf :: "RRL \<Rightarrow> string \<Rightarrow> string \<Rightarrow> string \<Rightarrow> rrlKey" where
  "rrlKeyOf r sourceIP qname responseType =
     \<lparr>rrlPrefix = normalizeRRLKeyPart (sourcePrefix r sourceIP) maxRRLPrefixLen False,
      rrlQName = normalizeRRLKeyPart qname maxRRLQNameLen True,
      rrlResponseType = ToUpper (normalizeRRLKeyPart responseType maxRRLResponseTypeLen False)\<rparr>"

definition AllowResponse :: "(rat \<Rightarrow> rat) \<Rightarrow> time \<Rightarrow> RRL \<Rightarrow> string \<Rightarrow> string \<Rightarrow> string \<Rightarrow> RRLAction \<times> RRL" where
  "AllowResponse rnd now r sourceIP qname responseType =
     (let key = rrlKeyOf r sourceIP qname responseType in
      case map_of (rrlEntries r) key of
        None \<Rightarrow> (RRLAllow, r\<lparr>rrlEntries := AList.update key
                 \<lparr>rrlTokens = rnd (responsesPerSecond r - 1), rrlLastTime = now, slipCount = 0\<rparr> (rrlEntries r)\<rparr>)
      | Some e \<Rightarrow>
          (let t = refill rnd now (responsesPerSecond r) (responsesPerSecond r) (rrlTokens e) (rrlLastTime e) in
           if 1 \<le> t
           then (RRLAllow, r\<lparr>rrlEntries := AList.update key (e\<lparr>rrlTokens := rnd (t - 1), rrlLastTime := now\<rparr>) (rrlEntries r)\<rparr>)
           else (let n = slipCount e + 1;
                     r = r\<lparr>rrlEntries := AList.update key (e\<lparr>rrlTokens := t, rrlLastTime := now, slipCount := n\<rparr>) (rrlEntries r)\<rparr>
                 in if 0 < slipRatio r \<and> n mod slipRatio r = 0 then (RRLSlip, r) else (RRLDrop, r))))"

definition rrlCleanupTick :: "time \<Rightarrow> RRL \<Rightarrow> RRL" where
  "rrlCleanupTick now r =
     (let interval = (if cleanupInterval r \<le> 0 then 300 * int second else cleanupInterval r)
      in r\<lparr>rrlEntries := filter (\<lambda>(k, e). \<not> int (rrlLastTime e) < int now - interval) (rrlEntries r)\<rparr>)"

section \<open>SipHash-2-4 (siphash.go)\<close>

definition rotl64 :: "u64 \<Rightarrow> nat \<Rightarrow> u64" where
  "rotl64 x b = push_bit b x OR drop_bit (64 - b) x"

type_synonym sipState = "u64 \<times> u64 \<times> u64 \<times> u64"

fun sipRound :: "sipState \<Rightarrow> sipState" where
  "sipRound (v0, v1, v2, v3) =
     (let v0 = v0 + v1; v1 = rotl64 v1 13; v1 = v1 XOR v0; v0 = rotl64 v0 32;
          v2 = v2 + v3; v3 = rotl64 v3 16; v3 = v3 XOR v2;
          v2 = v2 + v1; v1 = rotl64 v1 17; v1 = v1 XOR v2; v2 = rotl64 v2 32;
          v0 = v0 + v3; v3 = rotl64 v3 21; v3 = v3 XOR v0
      in (v0, v1, v2, v3))"

text \<open>\<open>binary.LittleEndian.Uint64\<close> of eight bytes.\<close>

definition le64 :: "bytes \<Rightarrow> u64" where
  "le64 bs = foldr (\<lambda>b acc. ucast b OR push_bit 8 acc) bs 0"

fun sipBlock :: "u64 \<Rightarrow> sipState \<Rightarrow> sipState" where
  "sipBlock m (v0, v1, v2, v3) =
     (case sipRound (sipRound (v0, v1, v2, v3 XOR m)) of (v0, v1, v2, v3) \<Rightarrow> (v0 XOR m, v1, v2, v3))"

fun lastLoop :: "nat \<Rightarrow> bytes \<Rightarrow> u64 \<Rightarrow> u64" where
  "lastLoop i [] acc = acc"
| "lastLoop i (b # bs) acc = lastLoop (i + 1) bs (acc OR push_bit (i * 8) (ucast b))"

definition sipInit :: "bytes \<Rightarrow> sipState" where
  "sipInit key =
     (let k0 = le64 (take 8 key); k1 = le64 (take 8 (drop 8 key))
      in (k0 XOR 0x736f6d6570736575, k1 XOR 0x646f72616e646f6d, k0 XOR 0x6c7967656e657261, k1 XOR 0x7465646279746573))"

fun sipFinish :: "sipState \<Rightarrow> u64" where
  "sipFinish (v0, v1, v2, v3) =
     (case (sipRound ^^ 4) (v0, v1, v2 XOR 0xff, v3) of (v0, v1, v2, v3) \<Rightarrow> v0 XOR v1 XOR v2 XOR v3)"

definition SipHash24 :: "bytes \<Rightarrow> bytes \<Rightarrow> u64" where
  "SipHash24 key msg =
     (let blocks = length msg div 8;
          st = fold (\<lambda>i. sipBlock (le64 (take 8 (drop (i * 8) msg)))) [0..<blocks] (sipInit key);
          m = lastLoop 0 (drop (blocks * 8) msg) 0;
          m = m OR push_bit 56 (of_nat (length msg mod 256))
      in sipFinish (sipBlock m st))"


section \<open>Lemmas on buckets\<close>

lemma map_of_filter_key:
  "distinct (map fst xs) \<Longrightarrow>
     map_of (filter (\<lambda>(k, v). P v) xs) k = (case map_of xs k of None \<Rightarrow> None | Some v \<Rightarrow> if P v then Some v else None)"
proof (induction xs)
  case (Cons x xs)
  obtain k' v where x: "x = (k', v)" by (cases x)
  have "map_of xs k' = None" using Cons.prems x by (auto simp: map_of_eq_None_iff)
  moreover have "map_of (filter (\<lambda>(k, v). P v) xs) k' = None" using Cons.prems x by (auto simp: map_of_eq_None_iff)
  ultimately show ?case using Cons x by (auto split: option.splits)
qed simp

text \<open>The tokens a client has at time \<open>t\<close>, refilled but not written back; a client not seen has a full bucket.\<close>

definition avail :: "RateLimiter \<Rightarrow> string \<Rightarrow> time \<Rightarrow> rat" where
  "avail rl ip t =
     (case map_of (clients rl) ip of
        None \<Rightarrow> of_int (burst rl)
      | Some tb \<Rightarrow> min (of_int (burst rl)) (tokens tb + of_nat (t - lastTime tb) / of_nat second * rate rl))"

text \<open>A limiter whose buckets hold between none and \<open>burst\<close> tokens, last changed at time \<open>t\<close> or before.\<close>

definition limiter_ok :: "RateLimiter \<Rightarrow> time \<Rightarrow> bool" where
  "limiter_ok rl t \<longleftrightarrow> 1 \<le> burst rl \<and> 0 \<le> rate rl \<and> distinct (map fst (clients rl)) \<and>
     (\<forall>ip tb. map_of (clients rl) ip = Some tb \<longrightarrow> 0 \<le> tokens tb \<and> tokens tb \<le> of_int (burst rl) \<and> lastTime tb \<le> t)"

lemma second_pos: "0 < second" "(0 :: rat) < of_nat second"
  by (simp_all add: second_def)

lemma Seconds_exact: "Seconds (\<lambda>x. x) d = of_nat d / of_nat second"
proof -
  have "(of_nat d :: rat) = of_nat (d div second) * of_nat second + of_nat (d mod second)"
    by (metis div_mult_mod_eq of_nat_add of_nat_mult)
  then show ?thesis using second_pos by (simp add: Seconds_def field_simps)
qed

lemma refill_exact:
  "refill (\<lambda>x. x) now r cap tok t = min cap (tok + of_nat (now - t) / of_nat second * r)"
  by (simp add: refill_def Let_def Seconds_exact min_def)

lemma avail_nonneg: "limiter_ok rl t \<Longrightarrow> 0 \<le> avail rl ip t"
  by (auto simp: limiter_ok_def avail_def split: option.splits)

lemma avail_le_burst: "avail rl ip t \<le> of_int (burst rl)"
  by (auto simp: avail_def split: option.splits)

lemma avail_later:
  assumes "limiter_ok rl t" and "t \<le> t'"
  shows "avail rl ip t' \<le> avail rl ip t + of_nat (t' - t) / of_nat second * rate rl"
proof (cases "map_of (clients rl) ip")
  case None
  then show ?thesis using assms(1) by (simp add: avail_def limiter_ok_def)
next
  case (Some tb)
  with assms have "lastTime tb \<le> t" and r: "0 \<le> rate rl" by (auto simp: limiter_ok_def)
  with assms(2) have "t' - lastTime tb = (t - lastTime tb) + (t' - t)" by simp
  then have "(of_nat (t' - lastTime tb) :: rat) / of_nat second * rate rl =
      of_nat (t - lastTime tb) / of_nat second * rate rl + of_nat (t' - t) / of_nat second * rate rl"
    by (simp only: of_nat_add add_divide_distrib distrib_right)
  moreover have "(0 :: rat) \<le> of_nat (t' - t) / of_nat second * rate rl" using r by simp
  ultimately show ?thesis unfolding avail_def Some option.case(2) by linarith
qed

lemma limiter_ok_later: "limiter_ok rl t \<Longrightarrow> t \<le> t' \<Longrightarrow> limiter_ok rl t'"
  by (fastforce simp: limiter_ok_def)

lemma Allow_exact:
  assumes "limiter_ok rl now"
  shows "Allow (\<lambda>x. x) now rl ip =
    (1 \<le> avail rl ip now,
     rl\<lparr>clients := AList.update ip \<lparr>tokens = avail rl ip now - (if 1 \<le> avail rl ip now then 1 else 0), lastTime = now\<rparr> (clients rl)\<rparr>)"
  using assms by (auto simp: Allow_def avail_def refill_exact Let_def limiter_ok_def split: option.splits)

lemma Allow_keeps:
  assumes "limiter_ok rl now" and "Allow (\<lambda>x. x) now rl ip = (ok, rl')"
  shows "limiter_ok rl' now" and "burst rl' = burst rl" and "rate rl' = rate rl" and "cleanup rl' = cleanup rl"
    and "avail rl' ip' now = avail rl ip' now - (if ip' = ip \<and> ok then 1 else 0)"
proof -
  have e: "ok = (1 \<le> avail rl ip now)"
    "rl' = rl\<lparr>clients := AList.update ip \<lparr>tokens = avail rl ip now - (if 1 \<le> avail rl ip now then 1 else 0), lastTime = now\<rparr> (clients rl)\<rparr>"
    using assms Allow_exact [OF assms(1), of ip] by auto
  have u: "map_of (AList.update ip v xs) j = (if j = ip then Some v else map_of xs j)" for v and xs :: "(string \<times> tokenBucket) list" and j
    by (simp add: update_conv')
  show "limiter_ok rl' now"
    using assms(1) avail_nonneg [OF assms(1), of ip] avail_le_burst [of rl ip now]
    by (auto simp: e(2) limiter_ok_def u distinct_update)
  show "burst rl' = burst rl" "rate rl' = rate rl" "cleanup rl' = cleanup rl" by (simp_all add: e(2))
  show "avail rl' ip' now = avail rl ip' now - (if ip' = ip \<and> ok then 1 else 0)"
  proof (cases "ip' = ip")
    case True
    have "map_of (clients rl') ip = Some \<lparr>tokens = avail rl ip now - (if ok then 1 else 0), lastTime = now\<rparr>"
      by (simp add: e u)
    moreover have "burst rl' = burst rl" by (simp add: e(2))
    ultimately show ?thesis using True avail_le_burst [of rl ip now] by (simp add: avail_def [of rl'] min_def)
  next
    case False
    then have "map_of (clients rl') ip' = map_of (clients rl) ip'" by (simp add: e(2) u)
    moreover have "burst rl' = burst rl" "rate rl' = rate rl" by (simp_all add: e(2))
    ultimately show ?thesis using False by (simp add: avail_def split: option.split)
  qed
qed

text \<open>A bucket that the cleanup drops was full, if an idle interval refills a bucket.\<close>

lemma cleanup_keeps:
  assumes "limiter_ok rl now" and "of_int (burst rl) \<le> of_nat (cleanup rl) / of_nat second * rate rl"
  shows "limiter_ok (cleanupTick now rl) now" and "avail (cleanupTick now rl) ip now = avail rl ip now"
    and "burst (cleanupTick now rl) = burst rl" and "rate (cleanupTick now rl) = rate rl" and "cleanup (cleanupTick now rl) = cleanup rl"
proof -
  have d: "distinct (map fst (clients rl))" using assms(1) by (simp add: limiter_ok_def)
  have f: "map_of (clients (cleanupTick now rl)) j =
      (case map_of (clients rl) j of None \<Rightarrow> None | Some tb \<Rightarrow> if lastTime tb + cleanup rl < now then None else Some tb)" for j
    using map_of_filter_key [OF d, of "\<lambda>tb. \<not> lastTime tb + cleanup rl < now" j]
    by (auto simp: cleanupTick_def split: option.splits if_splits)
  show "limiter_ok (cleanupTick now rl) now"
    using assms(1) by (auto simp: limiter_ok_def f cleanupTick_def distinct_map_filter split: option.splits if_splits)
  show "burst (cleanupTick now rl) = burst rl" "rate (cleanupTick now rl) = rate rl" "cleanup (cleanupTick now rl) = cleanup rl"
    by (simp_all add: cleanupTick_def)
  show "avail (cleanupTick now rl) ip now = avail rl ip now"
  proof (cases "map_of (clients rl) ip")
    case None
    then show ?thesis by (simp add: avail_def f) (simp add: cleanupTick_def)
  next
    case (Some tb)
    show ?thesis
    proof (cases "lastTime tb + cleanup rl < now")
      case True
      have "0 \<le> tokens tb" and r: "0 \<le> rate rl" using assms(1) Some by (auto simp: limiter_ok_def)
      have "(of_nat (cleanup rl) :: rat) / of_nat second * rate rl \<le> of_nat (now - lastTime tb) / of_nat second * rate rl"
        using True r by (intro mult_right_mono divide_right_mono) auto
      with assms(2) \<open>0 \<le> tokens tb\<close> have "of_int (burst rl) \<le> tokens tb + of_nat (now - lastTime tb) / of_nat second * rate rl"
        by linarith
      then show ?thesis using Some True by (simp add: avail_def f) (simp add: cleanupTick_def min_def)
    next
      case False
      then show ?thesis using Some by (simp add: avail_def f) (simp add: cleanupTick_def)
    qed
  qed
qed


section \<open>Runs of the limiter\<close>

datatype limEvent = Req time string | Tick time

fun eventTime :: "limEvent \<Rightarrow> time" where
  "eventTime (Req t ip) = t"
| "eventTime (Tick t) = t"

text \<open>The events in order, and how many requests of one client were allowed.\<close>

fun limRun :: "(rat \<Rightarrow> rat) \<Rightarrow> string \<Rightarrow> limEvent list \<Rightarrow> RateLimiter \<Rightarrow> nat \<times> RateLimiter" where
  "limRun rnd ip [] rl = (0, rl)"
| "limRun rnd ip (Tick t # es) rl = limRun rnd ip es (cleanupTick t rl)"
| "limRun rnd ip (Req t ip' # es) rl =
     (case Allow rnd t rl ip' of (ok, rl) \<Rightarrow>
      case limRun rnd ip es rl of (n, rl) \<Rightarrow> (n + (if ok \<and> ip' = ip then 1 else 0), rl))"

lemma limRun_potential:
  assumes "limiter_ok rl t" and "of_int (burst rl) \<le> of_nat (cleanup rl) / of_nat second * rate rl"
    and "sorted (map eventTime es)" and "\<forall>e \<in> set es. t \<le> eventTime e \<and> eventTime e \<le> t1" and "t \<le> t1"
  shows "of_nat (fst (limRun (\<lambda>x. x) ip es rl)) \<le> avail rl ip t + of_nat (t1 - t) / of_nat second * rate rl"
  using assms
proof (induction es arbitrary: rl t)
  case Nil
  have "0 \<le> avail rl ip t" using Nil(1) by (rule avail_nonneg)
  moreover have "0 \<le> rate rl" using Nil(1) by (simp add: limiter_ok_def)
  ultimately show ?case by simp
next
  case (Cons e es)
  let ?t = "eventTime e"
  have le: "t \<le> ?t" "?t \<le> t1" using Cons.prems(4) by auto
  have ok: "limiter_ok rl ?t" using limiter_ok_later [OF Cons.prems(1) le(1)] .
  have rest: "sorted (map eventTime es)" "\<forall>e' \<in> set es. ?t \<le> eventTime e' \<and> eventTime e' \<le> t1"
    using Cons.prems(3,4) by auto
  have "t1 - t = (t1 - ?t) + (?t - t)" using le by simp
  then have "(of_nat (t1 - t) :: rat) / of_nat second * rate rl =
      of_nat (t1 - ?t) / of_nat second * rate rl + of_nat (?t - t) / of_nat second * rate rl"
    by (simp only: of_nat_add add_divide_distrib distrib_right)
  then have later: "avail rl ip ?t + of_nat (t1 - ?t) / of_nat second * rate rl \<le>
      avail rl ip t + of_nat (t1 - t) / of_nat second * rate rl"
    using avail_later [OF Cons.prems(1) le(1), of ip] by linarith
  show ?case
  proof (cases e)
    case (Tick u)
    note k = cleanup_keeps [OF ok Cons.prems(2)]
    have "of_nat (fst (limRun (\<lambda>x. x) ip es (cleanupTick ?t rl))) \<le>
        avail (cleanupTick ?t rl) ip ?t + of_nat (t1 - ?t) / of_nat second * rate (cleanupTick ?t rl)"
      using k Cons.prems(2) rest le by (intro Cons.IH) simp_all
    then show ?thesis using later Tick k by simp
  next
    case (Req u ip')
    obtain b rl' where a: "Allow (\<lambda>x. x) ?t rl ip' = (b, rl')" by fastforce
    note k = Allow_keeps [OF ok a]
    have "of_nat (fst (limRun (\<lambda>x. x) ip es rl')) \<le> avail rl' ip ?t + of_nat (t1 - ?t) / of_nat second * rate rl'"
      using k Cons.prems(2) rest le by (intro Cons.IH) simp_all
    then show ?thesis using later Req k(3) k(5) [of ip] a by (auto split: prod.splits)
  qed
qed

section \<open>The padded message of SipHash\<close>

lemma le64_append: "le64 (xs @ ys) = le64 xs OR push_bit (8 * length xs) (le64 ys)"
proof (induction xs)
  case (Cons x xs)
  have "le64 ((x # xs) @ ys) = ucast x OR push_bit 8 (le64 (xs @ ys))" by (simp add: le64_def)
  also have "\<dots> = (ucast x OR push_bit 8 (le64 xs)) OR push_bit (8 + 8 * length xs) (le64 ys)"
    unfolding Cons.IH by (simp add: push_bit_or or.assoc push_bit_push_bit add.commute)
  finally show ?case by (simp add: le64_def)
qed (simp add: le64_def)

lemma le64_zeros: "le64 (replicate n 0) = 0"
  by (induction n) (simp_all add: le64_def)

lemma lastLoop_le64: "lastLoop i bs acc = acc OR push_bit (i * 8) (le64 bs)"
proof (induction bs arbitrary: i acc)
  case (Cons b bs)
  have "lastLoop i (b # bs) acc = acc OR push_bit (i * 8) (ucast b) OR push_bit ((i + 1) * 8) (le64 bs)"
    using Cons.IH [of "i + 1"] by (simp add: or.assoc)
  also have "push_bit ((i + 1) * 8) (le64 bs) = push_bit (i * 8) (push_bit 8 (le64 bs))"
    by (simp add: push_bit_push_bit add.commute)
  finally show ?case by (simp add: le64_def push_bit_or or.assoc)
qed (simp add: le64_def)

text \<open>The specification pads to whole blocks: zeros, then the length in the last byte.\<close>

definition sipPad :: "bytes \<Rightarrow> bytes" where
  "sipPad msg = msg @ replicate (7 - length msg mod 8) 0 @ [of_nat (length msg)]"

fun sipBlocks :: "bytes \<Rightarrow> u64 list" where
  "sipBlocks bs = (if length bs < 8 then [] else le64 (take 8 bs) # sipBlocks (drop 8 bs))"

declare sipBlocks.simps [simp del]

definition sipReference :: "bytes \<Rightarrow> bytes \<Rightarrow> u64" where
  "sipReference key msg = sipFinish (fold sipBlock (sipBlocks (sipPad msg)) (sipInit key))"

lemma sipBlocks_conv: "sipBlocks bs = map (\<lambda>i. le64 (take 8 (drop (i * 8) bs))) [0..<length bs div 8]"
proof (induction bs rule: sipBlocks.induct)
  case (1 bs)
  show ?case
  proof (cases "length bs < 8")
    case False
    then have n: "length bs div 8 = Suc (length (drop 8 bs) div 8)" by (simp add: le_div_geq)
    have "sipBlocks bs = le64 (take 8 bs) # map (\<lambda>i. le64 (take 8 (drop (i * 8) (drop 8 bs)))) [0..<length (drop 8 bs) div 8]"
      using False 1 by (simp add: sipBlocks.simps [of bs])
    also have "\<dots> = map (\<lambda>i. le64 (take 8 (drop (i * 8) bs))) [0..<Suc (length (drop 8 bs) div 8)]"
      by (simp only: upt_conv_Cons [of 0] zero_less_Suc list.map) (simp add: map_Suc_upt [symmetric] o_def add.commute del: upt_Suc)
    finally show ?thesis using n by simp
  qed (simp add: sipBlocks.simps [of bs])
qed

lemma sipBlocks_pad:
  "sipBlocks (sipPad msg) =
     map (\<lambda>i. le64 (take 8 (drop (i * 8) msg))) [0..<length msg div 8] @
     [le64 (drop (length msg div 8 * 8) msg @ replicate (7 - length msg mod 8) 0 @ [of_nat (length msg)])]"
proof -
  let ?q = "length msg div 8" and ?r = "length msg mod 8"
  have r: "?r < 8" by simp
  have len: "length (sipPad msg) = (?q + 1) * 8" by (simp add: sipPad_def) presburger
  have "le64 (take 8 (drop (i * 8) (sipPad msg))) = le64 (take 8 (drop (i * 8) msg))" if "i < ?q" for i
  proof -
    have "i * 8 + 8 \<le> ?q * 8" using that by simp
    also have "\<dots> \<le> length msg" by simp
    finally show ?thesis by (simp add: sipPad_def)
  qed
  moreover have "take 8 (drop (?q * 8) (sipPad msg)) = drop (?q * 8) msg @ replicate (7 - ?r) 0 @ [of_nat (length msg)]"
  proof -
    have "length msg - ?q * 8 = ?r" by (simp add: minus_div_mult_eq_mod)
    then show ?thesis using r by (simp add: sipPad_def)
  qed
  moreover have "[0..<?q + 1] = [0..<?q] @ [?q]" by simp
  ultimately show ?thesis unfolding sipBlocks_conv len by simp
qed

end
