(* ===== verification/Rate_Properties.thy ===== *)
theory Rate_Properties
  imports Security_Rate
begin

text \<open>
  What the rate limiters and the cookie hash guarantee.
\<close>

lemma rounding_mono: "rounding rnd \<Longrightarrow> x \<le> y \<Longrightarrow> rnd x \<le> rnd y"
  by (simp add: rounding_def monoD)

lemma rounding_int: "rounding rnd \<Longrightarrow> \<bar>n\<bar> \<le> 2 ^ 53 \<Longrightarrow> rnd (of_int n) = of_int n"
  by (simp add: rounding_def)

lemma rounding_0_1: "rounding rnd \<Longrightarrow> rnd 0 = 0" "rounding rnd \<Longrightarrow> rnd 1 = 1"
  using rounding_int [of rnd 0] rounding_int [of rnd 1] by simp_all

lemma Seconds_nonneg: "rounding rnd \<Longrightarrow> 0 \<le> Seconds rnd d"
proof -
  assume r: "rounding rnd"
  have "rnd 0 \<le> rnd (of_nat (d mod second) / of_nat second)" by (rule rounding_mono [OF r]) simp
  then have "rnd 0 \<le> Seconds rnd d"
    using rounding_0_1(1) [OF r] unfolding Seconds_def by (intro rounding_mono [OF r]) simp
  then show ?thesis using rounding_0_1(1) [OF r] by simp
qed

lemma refill_bounds:
  assumes "rounding rnd" and "0 \<le> r" and "0 \<le> tok" and "0 \<le> cap"
  shows "0 \<le> refill rnd now r cap tok t \<and> refill rnd now r cap tok t \<le> cap"
proof -
  have z: "rnd 0 = 0" using rounding_0_1 assms(1) by blast
  have "rnd 0 \<le> rnd (Seconds rnd (now - t) * r)"
    using assms(2) Seconds_nonneg [OF assms(1)] by (intro rounding_mono [OF assms(1)]) simp
  then have "rnd 0 \<le> rnd (tok + rnd (Seconds rnd (now - t) * r))"
    using assms(3) z by (intro rounding_mono [OF assms(1)]) simp
  then show ?thesis using z assms(4) by (simp add: refill_def Let_def)
qed

text \<open>A spent token leaves no debt.\<close>

lemma spend_bounds:
  assumes "rounding rnd" and "1 \<le> t" and "t \<le> of_int b" and "b \<le> 2 ^ 53"
  shows "0 \<le> rnd (t - 1) \<and> rnd (t - 1) \<le> of_int b"
proof -
  have "1 \<le> (of_int b :: rat)" using assms(2,3) by simp
  then have b: "1 \<le> b" by simp
  have "rnd 0 \<le> rnd (t - 1)" using assms(2) by (intro rounding_mono [OF assms(1)]) simp
  moreover have "rnd (t - 1) \<le> rnd (of_int b)" using assms(3) by (intro rounding_mono [OF assms(1)]) linarith
  ultimately show ?thesis using rounding_0_1 [OF assms(1)] rounding_int [OF assms(1), of b] assms(4) b by simp
qed

definition buckets_ok :: "RateLimiter \<Rightarrow> bool" where
  "buckets_ok rl \<longleftrightarrow> 0 \<le> rate rl \<and> 1 \<le> burst rl \<and> burst rl \<le> 2 ^ 53 \<and> distinct (map fst (clients rl)) \<and>
     (\<forall>ip tb. map_of (clients rl) ip = Some tb \<longrightarrow> 0 \<le> tokens tb \<and> tokens tb \<le> of_int (burst rl))"

lemma buckets_ok_update:
  "buckets_ok rl \<Longrightarrow> 0 \<le> tok \<Longrightarrow> tok \<le> of_int (burst rl) \<Longrightarrow>
     buckets_ok (rl\<lparr>clients := AList.update i \<lparr>tokens = tok, lastTime = t\<rparr> (clients rl)\<rparr>)"
  by (auto simp: buckets_ok_def update_conv' distinct_update simp del: map_of_eq_Some_iff)

lemma buckets_ok_tokens: "buckets_ok rl \<Longrightarrow> map_of (clients rl) ip = Some tb \<Longrightarrow> 0 \<le> tokens tb \<and> tokens tb \<le> of_int (burst rl)"
  by (auto simp: buckets_ok_def simp del: map_of_eq_Some_iff)

text \<open>
  The per-client limiter keeps its invariant on a machine that rounds: in every state
  reached from a new limiter with a burst from 1 to \<open>2 ^ 53\<close> and a rate that is not negative,
  by requests at any times and cleanup ticks, every bucket holds between none and \<open>burst\<close>
  tokens.  A client that is not known is always allowed.
\<close>

theorem limiter_invariant:
  assumes "rounding rnd" and "0 \<le> r" and "1 \<le> b" and "b \<le> 2 ^ 53"
  shows "\<forall>es ip. buckets_ok (snd (limRun rnd ip es (NewRateLimiter r b))) \<and>
           (\<forall>rl now ip. map_of (clients rl) ip = None \<longrightarrow> fst (Allow rnd now rl ip))"
proof (intro allI conjI impI)
  fix es ip
  have step: "buckets_ok (snd (Allow rnd t rl i))" if ok: "buckets_ok rl" for t rl i
  proof -
    have b: "rnd (of_int (burst rl)) = of_int (burst rl)" using ok assms(1) by (simp add: buckets_ok_def rounding_int)
    show ?thesis
    proof (cases "map_of (clients rl) i")
      case None
      have "0 \<le> rnd (of_int (burst rl) - 1) \<and> rnd (of_int (burst rl) - 1) \<le> of_int (burst rl)"
        using ok by (intro spend_bounds assms(1)) (auto simp: buckets_ok_def)
      with None ok show ?thesis by (simp add: Allow_def buckets_ok_update b)
    next
      case (Some tb)
      let ?t = "refill rnd t (rate rl) (of_int (burst rl)) (tokens tb) (lastTime tb)"
      have t: "0 \<le> ?t \<and> ?t \<le> of_int (burst rl)"
        using buckets_ok_tokens [OF ok Some] ok by (intro refill_bounds assms(1)) (auto simp: buckets_ok_def)
      moreover have "1 \<le> ?t \<Longrightarrow> 0 \<le> rnd (?t - 1) \<and> rnd (?t - 1) \<le> of_int (burst rl)"
        using ok t by (intro spend_bounds assms(1)) (auto simp: buckets_ok_def)
      ultimately show ?thesis using Some ok by (simp add: Allow_def buckets_ok_update b Let_def)
    qed
  qed
  have tick: "buckets_ok (cleanupTick t rl)" if "buckets_ok rl" for t rl
    using that map_of_filter_key [of "clients rl" "\<lambda>tb. \<not> lastTime tb + cleanup rl < t"]
    by (auto simp: buckets_ok_def cleanupTick_def distinct_map_filter split: option.splits if_splits)
  have "buckets_ok (snd (limRun rnd ip es rl))" if "buckets_ok rl" for rl
    using that
  proof (induction es arbitrary: rl)
    case (Cons e es)
    show ?case
    proof (cases e)
      case (Req t i)
      then show ?thesis using Cons.IH [OF step [OF Cons.prems, of t i]] by (auto split: prod.splits)
    next
      case (Tick t)
      then show ?thesis using Cons.IH [OF tick [OF Cons.prems, of t]] by simp
    qed
  qed simp
  moreover have "buckets_ok (NewRateLimiter r b)" using assms by (simp add: buckets_ok_def NewRateLimiter_def)
  ultimately show "buckets_ok (snd (limRun rnd ip es (NewRateLimiter r b)))" by blast
next
  fix es :: "limEvent list" and rl :: RateLimiter and now ip
  assume "map_of (clients rl) ip = None"
  then show "fst (Allow rnd now rl ip)" by (simp add: Allow_def)
qed


lemma rounding_exact: "rounding (\<lambda>x. x)"
  by (simp add: rounding_def monoI)

theorem limiter_invariant_witness: "\<exists>rl. NewRateLimiter 10 20 = rl \<and> buckets_ok (snd (limRun (\<lambda>x. x) ''1.2.3.4'' [Req 0 ''1.2.3.4''] rl))"
  using limiter_invariant [OF rounding_exact, of 10 20] by (simp del: limRun.simps)

text \<open>
  C23. The rate bound.  In exact arithmetic (the code computes in float64), if the clock does not run backwards and an idle cleanup interval refills a whole
  bucket (otherwise a cleanup gives an idle client a full bucket too early), then however the requests of all clients and the cleanup ticks are interleaved
  between two instants \<open>t\<close> and \<open>t1\<close>, at most \<open>burst + rate * (t1 - t)\<close> requests of one
  client are allowed in that span.
\<close>

theorem limiter_rate_bound:
  assumes "limiter_ok rl t" and "of_int (burst rl) \<le> of_nat (cleanup rl) / of_nat second * rate rl"
    and "sorted (map eventTime es)" and "\<forall>e \<in> set es. t \<le> eventTime e \<and> eventTime e \<le> t1" and "t \<le> t1"
  shows "of_nat (fst (limRun (\<lambda>x. x) ip es rl)) \<le> of_int (burst rl) + of_nat (t1 - t) / of_nat second * rate rl"
  using limRun_potential [OF assms, of ip] avail_le_burst [of rl ip t] by linarith

theorem limiter_rate_bound_witness:
  "of_nat (fst (limRun (\<lambda>x. x) ''a'' [Req 0 ''a'', Req 0 ''a'', Tick 5, Req 10 ''b''] (NewRateLimiter 1 2))) \<le> (3 :: rat)"
proof -
  let ?rl = "NewRateLimiter 1 2"
  have "of_nat (fst (limRun (\<lambda>x. x) ''a'' [Req 0 ''a'', Req 0 ''a'', Tick 5, Req 10 ''b''] ?rl)) \<le>
      of_int (burst ?rl) + of_nat (10 - 0) / of_nat second * rate ?rl"
    by (rule limiter_rate_bound) (auto simp: limiter_ok_def NewRateLimiter_def second_def)
  also have "\<dots> \<le> 3" by (simp add: NewRateLimiter_def second_def)
  finally show ?thesis .
qed

text \<open>
  Response rate limiting on every branch.  The key does not depend on the case or the
  surrounding space of the query name, so that a client cannot escape its bucket by case.  A
  response whose key is not known is allowed; one whose key is known is allowed when the
  refilled bucket holds a token and is limited otherwise.  A limited response is counted, and
  with a positive slip ratio every \<open>slipRatio\<close>-th limited response is answered truncated and
  the others are dropped; without one all of them are dropped.
\<close>

theorem AllowResponse_branches:
  "let key = rrlKeyOf r src qname ty; res = AllowResponse rnd now r src qname ty in
   rrlKeyOf r src (ToLower qname) ty = key \<and>
   (map_of (rrlEntries r) key = None \<longrightarrow>
      fst res = RRLAllow \<and> map_of (rrlEntries (snd res)) key =
        Some \<lparr>rrlTokens = rnd (responsesPerSecond r - 1), rrlLastTime = now, slipCount = 0\<rparr>) \<and>
   (\<forall>e. map_of (rrlEntries r) key = Some e \<longrightarrow>
      (let t = refill rnd now (responsesPerSecond r) (responsesPerSecond r) (rrlTokens e) (rrlLastTime e); n = slipCount e + 1 in
       (1 \<le> t \<longrightarrow> fst res = RRLAllow \<and> map_of (rrlEntries (snd res)) key = Some (e\<lparr>rrlTokens := rnd (t - 1), rrlLastTime := now\<rparr>)) \<and>
       (t < 1 \<longrightarrow> fst res = (if 0 < slipRatio r \<and> slipRatio r dvd n then RRLSlip else RRLDrop) \<and>
          map_of (rrlEntries (snd res)) key = Some (e\<lparr>rrlTokens := t, rrlLastTime := now, slipCount := n\<rparr>)))) \<and>
   (\<forall>key'. key' \<noteq> key \<longrightarrow> map_of (rrlEntries (snd res)) key' = map_of (rrlEntries r) key')"
proof -
  have low: "dropWhile isSpace (map lowerChar s) = map lowerChar (dropWhile isSpace s)" for s
  proof -
    have "isSpace (lowerChar c) = isSpace c" for c
      by (auto simp: isSpace_def lowerChar_def Let_def)
    then show ?thesis by (simp add: dropWhile_map o_def)
  qed
  have trim: "TrimSpace (ToLower s) = ToLower (TrimSpace s)" for s
    by (simp add: TrimSpace_def ToLower_def low rev_map)
  have "normalizeRRLKeyPart (ToLower qname) n True = normalizeRRLKeyPart qname n True" for n
    unfolding normalizeRRLKeyPart_def trim Let_def by (auto simp: ToLower_def take_map)
  then have key: "rrlKeyOf r src (ToLower qname) ty = rrlKeyOf r src qname ty" by (simp add: rrlKeyOf_def)
  have u: "map_of (AList.update k v xs) j = (if j = k then Some v else map_of xs j)" for k v and xs :: "(rrlKey \<times> rrlEntry) list" and j
    by (simp add: update_conv')
  show ?thesis
    unfolding Let_def key
    by (auto simp: AllowResponse_def Let_def u dvd_eq_mod_eq_0 split: option.splits)
qed

theorem AllowResponse_branches_witness:
  "fst (AllowResponse (\<lambda>x. x) 7 (NewRRL 5 2 24 56) ''192.0.2.1'' ''a.com'' ''NOERROR'') = RRLAllow"
  using AllowResponse_branches [of "NewRRL 5 2 24 56" "''192.0.2.1''" "''a.com''" "''NOERROR''" "\<lambda>x. x" 7]
  by (simp add: Let_def NewRRL_def)

text \<open>
  \<open>SipHash24\<close> is the SipHash-2-4 of its specification: the state is fed with the 64-bit
  little-endian words of the message padded with zeros to a multiple of eight bytes, the last
  of which is the length modulo 256.  The code, which never builds the padded message, computes
  the same value.
\<close>

theorem SipHash24_reference: "SipHash24 key msg = sipReference key msg"
proof -
  let ?q = "length msg div 8" and ?r = "length msg mod 8"
  have rem: "length (drop (?q * 8) msg) = ?r" by (simp add: minus_div_mult_eq_mod)
  have "?r < 8" by simp
  then have "length (drop (?q * 8) msg) + (7 - ?r) = 7" using rem by linarith
  then have "le64 (drop (?q * 8) msg @ replicate (7 - ?r) 0 @ [of_nat (length msg)]) =
      le64 (drop (?q * 8) msg) OR push_bit 56 (le64 [of_nat (length msg)])"
    by (simp add: le64_append le64_zeros push_bit_push_bit) (simp flip: distrib_left)
  also have "le64 [of_nat (length msg)] = of_nat (length msg mod 256)"
    by (simp add: le64_def unsigned_of_nat word_of_nat_eq_iff take_bit_eq_mod)
  finally show ?thesis
    by (simp add: SipHash24_def sipReference_def sipBlocks_pad lastLoop_le64 Let_def fold_map o_def)
qed

end
