(* ===== verification/Resolver_Names.thy ===== *)
theory Resolver_Names
  imports Security_Zone Security_Rate Cache
begin

text \<open>
  The pure parts of package \<open>resolver\<close>: which name to ask (\<open>qmin.go\<close>), what an answer is
  (\<open>classify.go\<close>), what to take from it (\<open>cname.go\<close>, \<open>delegation.go\<close>, the list functions of
  \<open>resolver.go\<close>), and which names are not resolved at all or elsewhere (\<open>specialuse.go\<close>,
  \<open>forward.go\<close>).  A parser result with an error or, which does not happen, a panic is \<open>None\<close>
  of \<open>okOf\<close>; that no parser panics is shown in \<open>Dns_Properties\<close>.
\<close>

definition okOf :: "('e, 'a) outcome \<Rightarrow> 'a option" where
  "okOf m = (case m of Ret a \<Rightarrow> Some a | _ \<Rightarrow> None)"

lemma okOf_Some [simp]: "okOf m = Some a \<longleftrightarrow> m = Ret a"
  by (cases m) (simp_all add: okOf_def)

definition Contains :: "string \<Rightarrow> char \<Rightarrow> bool" where
  "Contains s c \<longleftrightarrow> c \<in> set s"

section \<open>Minimised query names (qmin.go)\<close>

definition minimizeQName :: "string \<Rightarrow> u16 \<Rightarrow> string \<Rightarrow> string \<times> u16" where
  "minimizeQName fullName qtype currentZone =
     (if fullName = [] then (fullName, qtype)
      else if qtype = TypeDS then (fullName, qtype)
      else if currentZone = [] then (last (Split dot fullName), TypeNS)
      else (let rest = TrimSuffix fullName (''.'' @ currentZone) in
            if rest = fullName then (fullName, qtype)
            else (let labels = Split dot rest in
                  if length labels \<le> 1 then (fullName, qtype)
                  else (last labels @ ''.'' @ currentZone, TypeNS))))"

section \<open>Kinds of responses (classify.go)\<close>

datatype responseType =
    responseAnswer | responseCNAME | responseDNAME | responseReferral
  | responseNXDomain | responseNoData | responseServFail

definition soaCoversName :: "string \<Rightarrow> string \<Rightarrow> bool" where
  "soaCoversName soaOwner qname =
     (let soaOwner = ToLower (TrimSuffix soaOwner ''.''); qname = ToLower (TrimSuffix qname ''.'') in
      if soaOwner = [] then True
      else if soaOwner = qname then True
      else HasSuffix qname (''.'' @ soaOwner))"

definition classifyResponse :: "Message \<Rightarrow> string \<Rightarrow> u16 \<Rightarrow> responseType" where
  "classifyResponse msg qname qtype =
     (let rcode = RCODE (msgHeader msg) in
      if rcode = RCodeNXDomain then responseNXDomain
      else if rcode = RCodeServFail \<or> rcode = RCodeRefused \<or> rcode = RCodeFormErr then responseServFail
      else
        (let hasRequestedType = list_ex (\<lambda>rr. ToLower (rrName rr) = qname \<and> rrType rr = qtype) (Answers msg);
             hasCNAME = list_ex (\<lambda>rr. ToLower (rrName rr) = qname \<and> rrType rr = TypeCNAME) (Answers msg);
             hasDNAME = list_ex (\<lambda>rr. rrType rr = TypeDNAME \<and> HasSuffix qname (''.'' @ ToLower (rrName rr))) (Answers msg);
             hasNS = list_ex (\<lambda>rr. rrType rr = TypeNS) (Authority msg);
             hasSOA = list_ex (\<lambda>rr. rrType rr = TypeSOA \<and> soaCoversName (rrName rr) qname) (Authority msg);
             fromAuthority = (if hasNS \<and> \<not> hasSOA then responseReferral
                              else if hasSOA then responseNoData
                              else responseServFail)
         in if 0 < ANCount (msgHeader msg)
            then (if \<not> AA (msgHeader msg) \<and> (hasRequestedType \<or> hasCNAME \<or> hasDNAME) then responseServFail
                  else if hasRequestedType then responseAnswer
                  else if hasCNAME then responseCNAME
                  else if hasDNAME then responseDNAME
                  else fromAuthority)
            else fromAuthority))"

section \<open>CNAME and DNAME (cname.go)\<close>

fun cnameTargetIn :: "ResourceRecord list \<Rightarrow> string \<Rightarrow> string" where
  "cnameTargetIn [] qname = []"
| "cnameTargetIn (rr # rrs) qname =
     (if rrType rr = TypeCNAME \<and> ToLower (rrName rr) = qname
      then (case okOf (ParseCNAME (rrRData rr) 0) of
              Some target \<Rightarrow> if target \<noteq> [] then ToLower target else cnameTargetIn rrs qname
            | None \<Rightarrow> cnameTargetIn rrs qname)
      else cnameTargetIn rrs qname)"

definition extractCNAMETarget :: "Message \<Rightarrow> string \<Rightarrow> string" where
  "extractCNAMETarget msg qname = cnameTargetIn (Answers msg) qname"

fun dnameTargetIn :: "ResourceRecord list \<Rightarrow> string \<Rightarrow> string" where
  "dnameTargetIn [] qname = []"
| "dnameTargetIn (rr # rrs) qname =
     (if rrType rr \<noteq> TypeDNAME then dnameTargetIn rrs qname
      else (let owner = ToLower (rrName rr) in
            if \<not> HasSuffix qname (''.'' @ owner) then dnameTargetIn rrs qname
            else (case okOf (ParseDNAME (rrRData rr) 0) of
                    None \<Rightarrow> dnameTargetIn rrs qname
                  | Some target \<Rightarrow>
                      if target = [] then dnameTargetIn rrs qname
                      else take (length qname - length owner - 1) qname @ ''.'' @ ToLower target)))"

definition extractDNAMETarget :: "Message \<Rightarrow> string \<Rightarrow> string" where
  "extractDNAMETarget msg qname = dnameTargetIn (Answers msg) qname"

text \<open>Whether a record is an RRSIG whose covered type satisfies \<open>P\<close>.\<close>

definition rrsigCovering :: "(u16 \<Rightarrow> bool) \<Rightarrow> ResourceRecord \<Rightarrow> bool" where
  "rrsigCovering P rr \<longleftrightarrow>
     rrType rr = TypeRRSIG \<and> (case okOf (ParseRRSIG (rrRData rr) 0) of Some parsed \<Rightarrow> P (TypeCovered parsed) | None \<Rightarrow> False)"

definition extractCNAMERecords :: "Message \<Rightarrow> string \<Rightarrow> ResourceRecord list" where
  "extractCNAMERecords msg qname =
     filter (\<lambda>rr. ToLower (rrName rr) = qname \<and>
                  (rrType rr = TypeCNAME \<or> rrsigCovering (\<lambda>t. t = TypeCNAME) rr)) (Answers msg)"

definition extractRRsForOwnerWithRRSIG :: "Message \<Rightarrow> string \<Rightarrow> u16 set \<Rightarrow> ResourceRecord list" where
  "extractRRsForOwnerWithRRSIG msg qname keep =
     filter (\<lambda>rr. ToLower (rrName rr) = qname \<and>
                  (rrType rr \<in> keep \<or> rrsigCovering (\<lambda>t. t \<in> keep) rr)) (Answers msg)"

section \<open>Delegations (delegation.go) and lists of name servers (resolver.go, roots.go)\<close>

record DelegationNS =
  Hostname :: string
  IPv4 :: string
  IPv6 :: string
  IPv4TTL :: u32
  IPv6TTL :: u32

record nsEntry =
  hostname :: string
  ipv4 :: string
  ipv6 :: string

record NameServer =
  nsName :: string
  nsIPv4 :: string
  nsIPv6 :: string

definition RootServers :: "NameServer list" where
  "RootServers = map (\<lambda>(n, a, b). \<lparr>nsName = n, nsIPv4 = a, nsIPv6 = b\<rparr>)
     [(''a.root-servers.net'', ''198.41.0.4'', ''2001:503:ba3e::2:30''),
      (''b.root-servers.net'', ''170.247.170.2'', ''2801:1b8:10::b''),
      (''c.root-servers.net'', ''192.33.4.12'', ''2001:500:2::c''),
      (''d.root-servers.net'', ''199.7.91.13'', ''2001:500:2d::d''),
      (''e.root-servers.net'', ''192.203.230.10'', ''2001:500:a8::e''),
      (''f.root-servers.net'', ''192.5.5.241'', ''2001:500:2f::f''),
      (''g.root-servers.net'', ''192.112.36.4'', ''2001:500:12::d0d''),
      (''h.root-servers.net'', ''198.97.190.53'', ''2001:500:1::53''),
      (''i.root-servers.net'', ''192.36.148.17'', ''2001:7fe::53''),
      (''j.root-servers.net'', ''192.58.128.30'', ''2001:503:c27::2:30''),
      (''k.root-servers.net'', ''193.0.14.129'', ''2001:7fd::1''),
      (''l.root-servers.net'', ''199.7.83.42'', ''2001:500:9f::42''),
      (''m.root-servers.net'', ''202.12.27.33'', ''2001:dc3::35'')]"

text \<open>
  \<open>extractDelegation\<close> collects the servers in a Go map and returns them in the order in
  which the map is iterated; the model keeps the order of insertion.
\<close>

fun collectNS :: "ResourceRecord list \<Rightarrow> (string \<times> DelegationNS) list \<Rightarrow> string \<Rightarrow> (string \<times> DelegationNS) list \<times> string" where
  "collectNS [] nsMap zone = (nsMap, zone)"
| "collectNS (rr # rrs) nsMap zone =
     (if rrType rr \<noteq> TypeNS then collectNS rrs nsMap zone
      else (let zone = ToLower (rrName rr) in
            case okOf (ParseNS (rrRData rr) 0) of
              None \<Rightarrow> collectNS rrs nsMap zone
            | Some n \<Rightarrow>
                if n = [] then collectNS rrs nsMap zone
                else (let n = ToLower n in
                      if map_of nsMap n = None
                      then collectNS rrs (nsMap @ [(n, \<lparr>Hostname = n, IPv4 = [], IPv6 = [], IPv4TTL = 0, IPv6TTL = 0\<rparr>)]) zone
                      else collectNS rrs nsMap zone)))"

definition glueStep :: "ResourceRecord \<Rightarrow> (string \<times> DelegationNS) list \<Rightarrow> (string \<times> DelegationNS) list" where
  "glueStep rr nsMap =
     (if rrType rr = TypeOPT then nsMap
      else (let rrName = ToLower (rrName rr) in
            case map_of nsMap rrName of
              None \<Rightarrow> nsMap
            | Some ns \<Rightarrow>
                if rrType rr = TypeA
                then (case okOf (ParseA (rrRData rr)) of
                        Some ip \<Rightarrow> AList.update rrName (ns\<lparr>IPv4 := IP_String ip, IPv4TTL := rrTTL rr\<rparr>) nsMap
                      | None \<Rightarrow> nsMap)
                else if rrType rr = TypeAAAA
                then (case okOf (ParseAAAA (rrRData rr)) of
                        Some ip \<Rightarrow> AList.update rrName (ns\<lparr>IPv6 := IP_String ip, IPv6TTL := rrTTL rr\<rparr>) nsMap
                      | None \<Rightarrow> nsMap)
                else nsMap))"

definition extractDelegation :: "Message \<Rightarrow> DelegationNS list \<times> string" where
  "extractDelegation msg =
     (case collectNS (Authority msg) [] [] of
        (nsMap, zone) \<Rightarrow> (map snd (fold glueStep (Additional msg) nsMap), zone))"

text \<open>The name servers \<open>validateReferralNS\<close> warns about.\<close>

definition suspiciousNS :: "DelegationNS list \<Rightarrow> string \<Rightarrow> string list" where
  "suspiciousNS delegations zone =
     (if zone = [] then []
      else (let zone = ToLower (TrimSuffix zone ''.'') in
            if \<not> Contains zone dot then []
            else if zone = ''arpa'' \<or> HasSuffix zone ''.arpa'' then []
            else (let parts = Split dot zone;
                      hierarchy = map (\<lambda>i. Join dot (drop i parts)) [0..<length parts];
                      related = (\<lambda>hostname. hostname = zone \<or> HasSuffix hostname (''.'' @ zone) \<or>
                        list_ex (\<lambda>parent. parent \<noteq> [] \<and> (hostname = parent \<or> HasSuffix hostname (''.'' @ parent))) hierarchy)
                  in map Hostname (filter (\<lambda>ns. let h = ToLower (TrimSuffix (Hostname ns) ''.'') in
                                                h \<noteq> [] \<and> \<not> related h) delegations))))"

definition toNameServerList :: "NameServer list \<Rightarrow> nsEntry list" where
  "toNameServerList servers = map (\<lambda>s. \<lparr>hostname = nsName s, ipv4 = nsIPv4 s, ipv6 = nsIPv6 s\<rparr>) servers"

definition delegationToNSList :: "DelegationNS list \<Rightarrow> nsEntry list" where
  "delegationToNSList delegation = map (\<lambda>d. \<lparr>hostname = Hostname d, ipv4 = IPv4 d, ipv6 = IPv6 d\<rparr>) delegation"

definition removeNSByIP :: "nsEntry list \<Rightarrow> string \<Rightarrow> nsEntry list" where
  "removeNSByIP nameservers ip = filter (\<lambda>ns. ipv4 ns \<noteq> ip \<and> ipv6 ns \<noteq> ip) nameservers"

text \<open>
  \<open>parseIPv4Bytes\<close>; the digits are not checked: \<open>int(c - '0')\<close> of any other ASCII character is
  its distance from \<open>'0'\<close>, and what overflows the 64-bit accumulator is not modelled.
\<close>

definition octetOf :: "string \<Rightarrow> int" where
  "octetOf p = foldl (\<lambda>val c. val * 10 + (int (of_char c) - 48)) 0 p"

definition parseIPv4Bytes :: "string \<Rightarrow> bytes option" where
  "parseIPv4Bytes ipStr =
     (let parts = Split dot ipStr in
      if length parts \<noteq> 4 then None
      else if list_ex (\<lambda>p. 255 < octetOf p) parts then None
      else Some (map (\<lambda>p. of_int (octetOf p)) parts))"

definition nsHasCNAMERedirect :: "string \<Rightarrow> ResourceRecord list \<Rightarrow> bool" where
  "nsHasCNAMERedirect nsHostname answers =
     (let owner = ToLower (TrimSuffix nsHostname ''.'') in
      list_ex (\<lambda>rr. rrType rr = TypeCNAME \<and> ToLower (TrimSuffix (rrName rr) ''.'') = owner) answers)"

section \<open>Special-use names (specialuse.go)\<close>

definition underName :: "string \<Rightarrow> string \<Rightarrow> bool" where
  "underName n z \<longleftrightarrow> n = z \<or> HasSuffix n (''.'' @ z)"

text \<open>Whether \<open>specialUseResponse\<close> answers NXDOMAIN itself (otherwise it returns nil).\<close>

definition specialUse :: "string \<Rightarrow> bool" where
  "specialUse name =
     (let n = ToLower (TrimSuffix name ''.'') in
      if n = [] then False
      else if underName n ''onion'' then True
      else if underName n ''invalid'' then True
      else if underName n ''test'' then True
      else if underName n ''example'' \<or> underName n ''example.com'' \<or> underName n ''example.net'' \<or> underName n ''example.org''
      then \<not> (underName n ''example.com'' \<or> underName n ''example.net'' \<or> underName n ''example.org'')
      else if underName n ''local'' then True
      else underName n ''home.arpa'')"

section \<open>Forward and stub zones (forward.go)\<close>

record ForwardZone =
  fzName :: string
  Addrs :: "string list"
  IsStub :: bool

type_synonym ForwardTable = "ForwardZone list"

definition NewForwardTable :: "ForwardZone list \<Rightarrow> ForwardTable" where
  "NewForwardTable zs = map (\<lambda>z. z\<lparr>fzName := ToLower (TrimSuffix (fzName z) ''.'')\<rparr>) zs"

definition inForwardZone :: "string \<Rightarrow> string \<Rightarrow> bool" where
  "inForwardZone qname z \<longleftrightarrow> z = qname \<or> length z < length qname \<and> HasSuffix qname (''.'' @ z)"

definition Match :: "ForwardTable option \<Rightarrow> string \<Rightarrow> ForwardZone option" where
  "Match ft qname =
     (case ft of
        None \<Rightarrow> None
      | Some zs \<Rightarrow> if zs = [] then None else longestMatch inForwardZone fzName (ToLower (TrimSuffix qname ''.'')) zs)"

end
