(* ===== verification/Resolver_Local.thy ===== *)
theory Resolver_Local
  imports Resolver_Names "HOL-Library.Multiset"
begin

text \<open>
  Locally served zones (\<open>localzone.go\<close>): the table, the lookup by zone type, and the textual
  records of the configuration.  \<open>sort.Slice\<close> is not stable, so the order of zones with equally
  many labels is not determined: the sorting function is an argument, of which the results use
  only what the library promises (\<open>slice_sort\<close>).
\<close>

record ResolveResult =
  resAnswers :: "ResourceRecord list"
  resAuthority :: "ResourceRecord list"
  resAdditional :: "ResourceRecord list"
  resRCODE :: u8
  resStatus :: string
  resError :: "string option"
  UpstreamECS :: "ECSOption option"

text \<open>\<open>&ResolveResult{RCODE: rcode}\<close>\<close>

definition resultOf :: "u8 \<Rightarrow> ResolveResult" where
  "resultOf rcode = \<lparr>resAnswers = [], resAuthority = [], resAdditional = [], resRCODE = rcode,
     resStatus = [], resError = None, UpstreamECS = None\<rparr>"

datatype LocalZoneType = LocalStatic | LocalDeny | LocalRefuse | LocalRedirect | LocalTransparent

definition ParseLocalZoneType :: "string \<Rightarrow> LocalZoneType option" where
  "ParseLocalZoneType s =
     map_of [(''static'', LocalStatic), (''deny'', LocalDeny), (''refuse'', LocalRefuse),
             (''redirect'', LocalRedirect), (''transparent'', LocalTransparent)] (ToLower s)"

record LocalRecord =
  lrName :: string
  lrType :: u16
  lrRData :: bytes
  lrTTL :: u32

record LocalZone =
  lzName :: string
  lzType :: LocalZoneType
  lzRecords :: "LocalRecord list"

type_synonym LocalZoneTable = "LocalZone list"

definition normalizeName :: "string \<Rightarrow> string" where
  "normalizeName name = ToLower (TrimSuffix name ''.'')"

definition dots :: "string \<Rightarrow> nat" where
  "dots s = count_list s dot"

definition slice_sort :: "((LocalZone \<Rightarrow> nat) \<Rightarrow> LocalZone list \<Rightarrow> LocalZone list) \<Rightarrow> bool" where
  "slice_sort srt \<longleftrightarrow> (\<forall>f zs. mset (srt f zs) = mset zs \<and> sorted_wrt (\<lambda>a b. f b \<le> f a) (srt f zs))"

definition NewLocalZoneTable ::
  "((LocalZone \<Rightarrow> nat) \<Rightarrow> LocalZone list \<Rightarrow> LocalZone list) \<Rightarrow> LocalZone list \<Rightarrow> LocalZoneTable" where
  "NewLocalZoneTable srt zs =
     srt (\<lambda>z. dots (lzName z))
       (map (\<lambda>z. z\<lparr>lzName := normalizeName (lzName z),
                    lzRecords := map (\<lambda>r. r\<lparr>lrName := normalizeName (lrName r)\<rparr>) (lzRecords z)\<rparr>) zs)"

definition inLocalZone :: "string \<Rightarrow> string \<Rightarrow> bool" where
  "inLocalZone name zn \<longleftrightarrow> name = zn \<or> HasSuffix name (''.'' @ zn)"

definition findZone :: "LocalZoneTable \<Rightarrow> string \<Rightarrow> LocalZone option" where
  "findZone t name = find (\<lambda>z. inLocalZone name (lzName z)) t"

text \<open>A record of the zone as a record of the answer.\<close>

definition answerRR :: "string \<Rightarrow> LocalRecord \<Rightarrow> ResourceRecord" where
  "answerRR name r = \<lparr>rrName = name, rrType = lrType r, rrClass = ClassIN, rrTTL = lrTTL r,
     rrRDLength = of_nat (length (lrRData r)), rrRData = lrRData r, rrRDataOffset = 0\<rparr>"

definition matchRecords :: "LocalRecord list \<Rightarrow> string \<Rightarrow> u16 \<Rightarrow> ResourceRecord list" where
  "matchRecords records name qtype =
     map (answerRR name) (filter (\<lambda>r. lrName r = name \<and> lrType r = qtype) records)"

definition lookupStatic :: "LocalZone \<Rightarrow> string \<Rightarrow> u16 \<Rightarrow> ResolveResult" where
  "lookupStatic zone name qtype =
     (let records = matchRecords (lzRecords zone) name qtype in
      if 0 < length records then (resultOf RCodeNoError)\<lparr>resAnswers := records\<rparr>
      else if list_ex (\<lambda>r. lrName r = name) (lzRecords zone) then resultOf RCodeNoError
      else resultOf RCodeNXDomain)"

definition lookupRedirect :: "LocalZone \<Rightarrow> string \<Rightarrow> u16 \<Rightarrow> ResolveResult" where
  "lookupRedirect zone name qtype =
     (let answers = map (answerRR name) (filter (\<lambda>r. lrType r = qtype) (lzRecords zone)) in
      if 0 < length answers then (resultOf RCodeNoError)\<lparr>resAnswers := answers\<rparr>
      else resultOf RCodeNoError)"

definition lookupTransparent :: "LocalZone \<Rightarrow> string \<Rightarrow> u16 \<Rightarrow> ResolveResult option" where
  "lookupTransparent zone name qtype =
     (let records = matchRecords (lzRecords zone) name qtype in
      if 0 < length records then Some ((resultOf RCodeNoError)\<lparr>resAnswers := records\<rparr>) else None)"

definition LocalLookup :: "LocalZoneTable \<Rightarrow> string \<Rightarrow> u16 \<Rightarrow> u16 \<Rightarrow> ResolveResult option" where
  "LocalLookup t name qtype qclass =
     (if qclass \<noteq> ClassIN then None
      else (let name = normalizeName name in
            case findZone t name of
              None \<Rightarrow> None
            | Some zone \<Rightarrow>
                (case lzType zone of
                   LocalStatic \<Rightarrow> Some (lookupStatic zone name qtype)
                 | LocalDeny \<Rightarrow> Some ((resultOf RCodeRefused)\<lparr>resStatus := ''local-deny''\<rparr>)
                 | LocalRefuse \<Rightarrow> Some (resultOf RCodeRefused)
                 | LocalRedirect \<Rightarrow> Some (lookupRedirect zone name qtype)
                 | LocalTransparent \<Rightarrow> lookupTransparent zone name qtype)))"

section \<open>Records of the configuration\<close>

definition stringToType :: "string \<Rightarrow> u16 option" where
  "stringToType s =
     map_of [(''A'', TypeA), (''AAAA'', TypeAAAA), (''CNAME'', TypeCNAME), (''TXT'', TypeTXT),
             (''PTR'', TypePTR), (''MX'', TypeMX)] s"

text \<open>\<open>strings.Fields\<close>, \<open>strings.Join\<close> with a blank and \<open>strings.Trim(s, "\"")\<close> on ASCII text.\<close>

function Fields :: "string \<Rightarrow> string list" where
  "Fields s =
     (let s = dropWhile isSpace s in
      if s = [] then [] else takeWhile (\<lambda>c. \<not> isSpace c) s # Fields (dropWhile (\<lambda>c. \<not> isSpace c) s))"
  by pat_completeness auto
termination
proof (relation "measure length", simp)
  fix s x
  assume x: "x = dropWhile isSpace s" and ne: "x \<noteq> []"
  from ne obtain c cs where c: "x = c # cs" by (meson neq_Nil_conv)
  then have "\<not> isSpace c" using x by (metis hd_dropWhile list.sel(1) list.distinct(1))
  then have "length (dropWhile (\<lambda>c. \<not> isSpace c) x) \<le> length cs" using c by (simp add: length_dropWhile_le)
  also have "\<dots> < length x" using c by simp
  also have "\<dots> \<le> length s" using x by (simp add: length_dropWhile_le)
  finally show "(dropWhile (\<lambda>c. \<not> isSpace c) x, s) \<in> measure length" by simp
qed

declare Fields.simps [simp del]

definition trimQuotes :: "string \<Rightarrow> string" where
  "trimQuotes s = (let q = (\<lambda>c. c = char_of (34 :: nat)) in rev (dropWhile q (rev (dropWhile q s))))"

text \<open>\<open>strconv.Atoi\<close>: an optional sign and decimal digits; the result is an \<open>int\<close> of 64 bits.\<close>

definition Atoi :: "string \<Rightarrow> int option" where
  "Atoi s =
     (let (neg, ds) = (case s of c # cs \<Rightarrow> if c = CHR ''-'' then (True, cs) else if c = CHR ''+'' then (False, cs) else (False, s)
                               | [] \<Rightarrow> (False, s))
      in if ds = [] \<or> \<not> list_all isDigit ds then None
         else (let v = (if neg then - int (decimal ds) else int (decimal ds)) in
               if - (2 ^ 63) \<le> v \<and> v < 2 ^ 63 then Some v else None))"

definition encodeNameWire :: "string \<Rightarrow> bytes" where
  "encodeNameWire name =
     (let name = TrimSuffix name ''.'' in
      if name = [] then [0]
      else concat (map (\<lambda>label. of_nat (length label) # bytes_of label) (Split dot name)) @ [0])"

function txtChunks :: "bytes \<Rightarrow> bytes" where
  "txtChunks d =
     (if 0 < length d then
        (let chunk = (if 255 < length d then take 255 d else d) in
         of_nat (length chunk) # chunk @ txtChunks (drop (length chunk) d))
      else [])"
  by pat_completeness auto
termination
  by (relation "measure length") auto

declare txtChunks.simps [simp del]

definition encodeTXT :: "string \<Rightarrow> bytes" where
  "encodeTXT s = (let buf = txtChunks (bytes_of s) in if length buf = 0 then [0] else buf)"

text \<open>\<open>None\<close> is an error, whose text is not modelled.\<close>

definition encodeRData :: "u16 \<Rightarrow> string \<Rightarrow> bytes option" where
  "encodeRData qtype s =
     (if qtype = TypeA then (case ParseIP s of None \<Rightarrow> None | Some ip \<Rightarrow> To4 ip)
      else if qtype = TypeAAAA then (case ParseIP s of None \<Rightarrow> None | Some ip \<Rightarrow> To16 ip)
      else if qtype = TypeCNAME \<or> qtype = TypePTR then Some (encodeNameWire s)
      else if qtype = TypeTXT then Some (encodeTXT (trimQuotes s))
      else if qtype = TypeMX then
        (let fields = Fields s in
         if length fields \<noteq> 2 then None
         else (case Atoi (fields ! 0) of
                 None \<Rightarrow> None
               | Some pref \<Rightarrow> if pref < 0 \<or> 65535 < pref then None
                              else Some (putUint16 (of_int pref) @ encodeNameWire (fields ! 1))))
      else None)"

definition ParseLocalRecord :: "string \<Rightarrow> LocalRecord option" where
  "ParseLocalRecord s =
     (let parts = Fields (TrimSpace s) in
      if length parts < 3 then None
      else (case stringToType (ToUpper (parts ! 1)) of
              None \<Rightarrow> None
            | Some qtype \<Rightarrow>
                (case encodeRData qtype (Join CHR '' '' (drop 2 parts)) of
                   None \<Rightarrow> None
                 | Some rdata \<Rightarrow> Some \<lparr>lrName = normalizeName (parts ! 0), lrType = qtype, lrRData = rdata, lrTTL = 3600\<rparr>)))"

end
