(* ===== verification/Resolver_Infra.thy ===== *)
theory Resolver_Infra
  imports Resolver_Names Security_Rate
begin

text \<open>
  Two stateful helpers of the resolver: the table of name-server performance
  (\<open>infracache.go\<close>) and the coalescing of equal requests (\<open>inflight.go\<close>).  Durations are
  integers of nanoseconds; the rounding of \<open>float64\<close> is the argument \<open>rnd\<close>.  The second is
  used by many goroutines at once: its operations are the steps between two points where
  another goroutine may run.
\<close>

section \<open>Name-server performance (infracache.go)\<close>

record NSInfo =
  nsiRTT :: int
  FailCount :: int
  LameZones :: "string list"
  LastUsed :: time

type_synonym InfraCache = "(string \<times> NSInfo) list"

definition NewInfraCache :: InfraCache where
  "NewInfraCache = []"

text \<open>The entry of a server, a fresh one if there is none; the callers write it back.\<close>

definition getOrCreate :: "time \<Rightarrow> InfraCache \<Rightarrow> string \<Rightarrow> NSInfo" where
  "getOrCreate now ic nsIP =
     (case map_of ic nsIP of
        Some info \<Rightarrow> info
      | None \<Rightarrow> \<lparr>nsiRTT = 0, FailCount = 0, LameZones = [], LastUsed = now\<rparr>)"

text \<open>\<open>time.Duration(float64(old)*0.7 + float64(sample)*0.3)\<close>, truncated toward zero.\<close>

definition truncate :: "rat \<Rightarrow> int" where
  "truncate x = (if 0 \<le> x then \<lfloor>x\<rfloor> else \<lceil>x\<rceil>)"

definition ewma :: "(rat \<Rightarrow> rat) \<Rightarrow> int \<Rightarrow> int \<Rightarrow> int" where
  "ewma rnd old sample =
     truncate (rnd (rnd (rnd (of_int old) * rnd (7 / 10)) + rnd (rnd (of_int sample) * rnd (3 / 10))))"

definition RecordRTT :: "(rat \<Rightarrow> rat) \<Rightarrow> time \<Rightarrow> string \<Rightarrow> int \<Rightarrow> InfraCache \<Rightarrow> InfraCache" where
  "RecordRTT rnd now nsIP rtt ic =
     (let info = (getOrCreate now ic nsIP)\<lparr>LastUsed := now\<rparr> in
      AList.update nsIP (if nsiRTT info = 0 then info\<lparr>nsiRTT := rtt\<rparr> else info\<lparr>nsiRTT := ewma rnd (nsiRTT info) rtt\<rparr>) ic)"

definition RecordFailure :: "time \<Rightarrow> string \<Rightarrow> InfraCache \<Rightarrow> InfraCache" where
  "RecordFailure now nsIP ic =
     (let info = getOrCreate now ic nsIP in AList.update nsIP (info\<lparr>LastUsed := now, FailCount := FailCount info + 1\<rparr>) ic)"

definition RecordLame :: "time \<Rightarrow> string \<Rightarrow> string \<Rightarrow> InfraCache \<Rightarrow> InfraCache" where
  "RecordLame now nsIP zone ic =
     (let info = getOrCreate now ic nsIP in
      AList.update nsIP (info\<lparr>LastUsed := now, LameZones := List.insert zone (LameZones info)\<rparr>) ic)"

definition IsLame :: "InfraCache \<Rightarrow> string \<Rightarrow> string \<Rightarrow> bool" where
  "IsLame ic nsIP zone = (case map_of ic nsIP of None \<Rightarrow> False | Some info \<Rightarrow> zone \<in> set (LameZones info))"

definition millisecond :: int where "millisecond = 1000000"

definition effectiveRTT :: "InfraCache \<Rightarrow> string \<Rightarrow> int" where
  "effectiveRTT ic nsIP =
     (case map_of ic nsIP of
        None \<Rightarrow> 100 * millisecond
      | Some info \<Rightarrow>
          (let rtt = (if nsiRTT info = 0 then 100 * millisecond else nsiRTT info)
           in rtt + FailCount info * 500 * millisecond))"

definition nsAddr :: "nsEntry \<Rightarrow> string" where
  "nsAddr ns = (if ipv4 ns = [] then ipv6 ns else ipv4 ns)"

definition SortByRTT :: "InfraCache \<Rightarrow> nsEntry list \<Rightarrow> nsEntry list" where
  "SortByRTT ic servers = sort_key (\<lambda>ns. effectiveRTT ic (nsAddr ns)) servers"

definition CleanStale :: "time \<Rightarrow> nat \<Rightarrow> InfraCache \<Rightarrow> InfraCache" where
  "CleanStale now maxIdle ic = filter (\<lambda>(ip, info). \<not> LastUsed info + maxIdle < now) ic"

definition GetRTT :: "InfraCache \<Rightarrow> string \<Rightarrow> int" where
  "GetRTT ic nsIP = (case map_of ic nsIP of Some info \<Rightarrow> nsiRTT info | None \<Rightarrow> 0)"

section \<open>Coalescing equal requests (inflight.go)\<close>

text \<open>
  A goroutine that calls \<open>do(key, fn)\<close> is at one of these points: not in \<open>do\<close>, waiting for
  another's call, running \<open>fn\<close> for its own call, between \<open>wg.Done()\<close> and the removal of the key,
  or returned with a result (the error of a recovered panic is a result, too).
\<close>

datatype 'r goroutine = Outside | Waiting nat | Running string nat | Publishing string nat | Returned 'r

record 'r inflight =
  calls :: "string \<rightharpoonup> nat"
  outcome_of :: "nat \<rightharpoonup> 'r"
  nextCall :: nat
  gos :: "nat \<Rightarrow> 'r goroutine"

definition newInflight :: "'r inflight" where
  "newInflight = \<lparr>calls = Map.empty, outcome_of = Map.empty, nextCall = 0, gos = (\<lambda>_. Outside)\<rparr>"

text \<open>The first critical section of \<open>do\<close>: join the call of the key, or start one.\<close>

definition doEnter :: "nat \<Rightarrow> string \<Rightarrow> 'r inflight \<Rightarrow> 'r inflight" where
  "doEnter g key s =
     (case calls s key of
        Some c \<Rightarrow> s\<lparr>gos := (gos s)(g := Waiting c)\<rparr>
      | None \<Rightarrow> s\<lparr>calls := (calls s)(key \<mapsto> nextCall s), nextCall := nextCall s + 1,
                   gos := (gos s)(g := Running key (nextCall s))\<rparr>)"

text \<open>\<open>fn\<close> returns, or panics and is recovered; its outcome is stored and the waiters released.\<close>

definition doFinish :: "nat \<Rightarrow> string \<Rightarrow> nat \<Rightarrow> 'r \<Rightarrow> 'r inflight \<Rightarrow> 'r inflight" where
  "doFinish g key c r s = s\<lparr>outcome_of := (outcome_of s)(c \<mapsto> r), gos := (gos s)(g := Publishing key c)\<rparr>"

text \<open>The second critical section removes the key; then the call returns its outcome.\<close>

definition doRelease :: "nat \<Rightarrow> string \<Rightarrow> 'r \<Rightarrow> 'r inflight \<Rightarrow> 'r inflight" where
  "doRelease g key r s = s\<lparr>calls := (calls s)(key := None), gos := (gos s)(g := Returned r)\<rparr>"

definition doWake :: "nat \<Rightarrow> 'r \<Rightarrow> 'r inflight \<Rightarrow> 'r inflight" where
  "doWake g r s = s\<lparr>gos := (gos s)(g := Returned r)\<rparr>"

inductive inner_step :: "'r inflight \<Rightarrow> 'r inflight \<Rightarrow> bool" where
  finish: "gos s g = Running key c \<Longrightarrow> inner_step s (doFinish g key c r s)"
| release: "gos s g = Publishing key c \<Longrightarrow> outcome_of s c = Some r \<Longrightarrow> inner_step s (doRelease g key r s)"
| wake: "gos s g = Waiting c \<Longrightarrow> outcome_of s c = Some r \<Longrightarrow> inner_step s (doWake g r s)"

inductive inflight_reach :: "'r inflight \<Rightarrow> bool" where
  start: "inflight_reach newInflight"
| enter: "inflight_reach s \<Longrightarrow> gos s g = Outside \<Longrightarrow> inflight_reach (doEnter g key s)"
| inner: "inflight_reach s \<Longrightarrow> inner_step s s' \<Longrightarrow> inflight_reach s'"

inductive_cases inner_stepE: "inner_step s s'"

definition owns :: "'r inflight \<Rightarrow> string \<Rightarrow> nat \<Rightarrow> nat \<Rightarrow> bool" where
  "owns s key c g \<longleftrightarrow> gos s g = Running key c \<or> gos s g = Publishing key c"

text \<open>
  The invariant: the key map holds exactly the calls that have an owner, a call has one owner,
  its outcome is there as soon as it is published and not before, and whoever waits waits for a
  call that has its outcome or is still running.
\<close>

definition inflight_inv :: "'r inflight \<Rightarrow> bool" where
  "inflight_inv s \<longleftrightarrow>
     (\<forall>key c g. owns s key c g \<longrightarrow> calls s key = Some c) \<and>
     (\<forall>key c. calls s key = Some c \<longrightarrow> c < nextCall s \<and> (\<exists>g. owns s key c g)) \<and>
     (\<forall>key c g key' g'. owns s key c g \<longrightarrow> owns s key' c g' \<longrightarrow> g = g') \<and>
     (\<forall>g key c. gos s g = Running key c \<longrightarrow> outcome_of s c = None) \<and>
     (\<forall>g key c. gos s g = Publishing key c \<longrightarrow> outcome_of s c \<noteq> None) \<and>
     (\<forall>g c. gos s g = Waiting c \<longrightarrow> outcome_of s c \<noteq> None \<or> (\<exists>g' key. gos s g' = Running key c)) \<and>
     (\<forall>c. nextCall s \<le> c \<longrightarrow> outcome_of s c = None)"

lemma inflight_invI:
  assumes "\<And>key c g. owns s key c g \<Longrightarrow> calls s key = Some c"
    and "\<And>key c. calls s key = Some c \<Longrightarrow> c < nextCall s \<and> (\<exists>g. owns s key c g)"
    and "\<And>key c g key' g'. owns s key c g \<Longrightarrow> owns s key' c g' \<Longrightarrow> g = g'"
    and "\<And>g key c. gos s g = Running key c \<Longrightarrow> outcome_of s c = None"
    and "\<And>g key c. gos s g = Publishing key c \<Longrightarrow> outcome_of s c \<noteq> None"
    and "\<And>g c. gos s g = Waiting c \<Longrightarrow> outcome_of s c \<noteq> None \<or> (\<exists>g' key. gos s g' = Running key c)"
    and "\<And>c. nextCall s \<le> c \<Longrightarrow> outcome_of s c = None"
  shows "inflight_inv s"
  using assms unfolding inflight_inv_def by blast

lemma inflight_invD:
  assumes "inflight_inv s"
  shows inv_owner: "owns s key c g \<Longrightarrow> calls s key = Some c"
    and inv_call: "calls s key = Some c \<Longrightarrow> c < nextCall s \<and> (\<exists>g. owns s key c g)"
    and inv_unique: "owns s key c g \<Longrightarrow> owns s key' c g' \<Longrightarrow> g = g'"
    and inv_running: "gos s g = Running key c \<Longrightarrow> outcome_of s c = None"
    and inv_published: "gos s g = Publishing key c \<Longrightarrow> outcome_of s c \<noteq> None"
    and inv_waiting: "gos s g = Waiting c \<Longrightarrow> outcome_of s c \<noteq> None \<or> (\<exists>g' key. gos s g' = Running key c)"
    and inv_fresh: "nextCall s \<le> c \<Longrightarrow> outcome_of s c = None"
  using assms unfolding inflight_inv_def by blast+

lemma inflight_inv_start: "inflight_inv newInflight"
  by (simp add: inflight_inv_def newInflight_def owns_def)

lemma owner_below: "inflight_inv s \<Longrightarrow> owns s key c g \<Longrightarrow> c < nextCall s"
  using inv_owner inv_call by blast

lemma inflight_inv_join:
  assumes inv: "inflight_inv s" and out: "gos s g = Outside" and c: "calls s key = Some c"
  shows "inflight_inv (s\<lparr>gos := (gos s)(g := Waiting c)\<rparr>)" (is "inflight_inv ?s")
proof -
  have ow: "owns ?s k d g' \<longleftrightarrow> owns s k d g'" for k d g' using out by (auto simp: owns_def)
  obtain h where h: "owns s key c h" using inv_call [OF inv c] by blast
  then have "h \<noteq> g" using out by (auto simp: owns_def)
  with h have hc: "outcome_of s c \<noteq> None \<or> (\<exists>key. gos s h = Running key c \<and> h \<noteq> g)"
    using inv_published [OF inv] by (auto simp: owns_def)
  show ?thesis
  proof (rule inflight_invI, unfold ow)
    fix g' d assume "gos ?s g' = Waiting d"
    then show "outcome_of ?s d \<noteq> None \<or> (\<exists>g' key. gos ?s g' = Running key d)"
      using inv_waiting [OF inv] hc out by (auto split: if_splits) (metis goroutine.distinct(3))+
  qed (use inv inflight_invD [OF inv] in \<open>auto split: if_splits\<close>)
qed

lemma inflight_inv_start_call:
  assumes inv: "inflight_inv s" and out: "gos s g = Outside" and none: "calls s key = None"
  shows "inflight_inv (s\<lparr>calls := (calls s)(key \<mapsto> nextCall s), nextCall := nextCall s + 1,
                   gos := (gos s)(g := Running key (nextCall s))\<rparr>)" (is "inflight_inv ?s")
proof -
  have ow: "owns ?s k d g' \<longleftrightarrow> (if g' = g then k = key \<and> d = nextCall s else owns s k d g')" for k d g'
    by (auto simp: owns_def)
  have notg: "\<not> owns s k d g" for k d using out by (simp add: owns_def)
  have nokey: "\<not> owns s key d g'" for d g' using inv_owner [OF inv] none by fastforce
  show ?thesis
  proof (rule inflight_invI, unfold ow)
    fix k d g' assume "if g' = g then k = key \<and> d = nextCall s else owns s k d g'"
    then show "calls ?s k = Some d" using nokey inv_owner [OF inv] by (auto split: if_splits)
  next
    fix k d assume "calls ?s k = Some d"
    then show "d < nextCall ?s \<and> (\<exists>g'. if g' = g then k = key \<and> d = nextCall s else owns s k d g')"
      using inv_call [OF inv, of k d] notg by (auto split: if_splits) (metis less_SucI notg)+
  next
    fix k d g' k' g'' assume "if g' = g then k = key \<and> d = nextCall s else owns s k d g'"
      "if g'' = g then k' = key \<and> d = nextCall s else owns s k' d g''"
    then show "g' = g''" using inv_unique [OF inv] by (auto split: if_splits dest: owner_below [OF inv])
  next
    fix g' d assume w: "gos ?s g' = Waiting d"
    then show "outcome_of ?s d \<noteq> None \<or> (\<exists>g' key. gos ?s g' = Running key d)"
      using inv_waiting [OF inv, of g' d] out by (auto split: if_splits) (metis goroutine.distinct(3))
  qed (use inflight_invD(4,5,7) [OF inv] in \<open>auto split: if_splits\<close>)
qed


lemma inflight_inv_enter: "inflight_inv s \<Longrightarrow> gos s g = Outside \<Longrightarrow> inflight_inv (doEnter g key s)"
  using inflight_inv_join inflight_inv_start_call by (cases "calls s key") (fastforce simp: doEnter_def)+

text \<open>A step of \<open>g\<close> that forgets no outcome and does not end a run without one keeps every wait justified.\<close>

lemma waiting_kept:
  assumes inv: "inflight_inv s" and w: "gos s g' = Waiting d"
    and run: "\<And>k. gos s g = Running k d \<Longrightarrow> outcome_of s' d \<noteq> None"
    and other: "\<And>h. h \<noteq> g \<Longrightarrow> gos s' h = gos s h" and out: "\<And>e. outcome_of s e \<noteq> None \<Longrightarrow> outcome_of s' e \<noteq> None"
  shows "outcome_of s' d \<noteq> None \<or> (\<exists>h k. gos s' h = Running k d)"
proof (cases "outcome_of s d = None")
  case True
  then obtain h k where h: "gos s h = Running k d" using inv_waiting [OF inv w] by blast
  show ?thesis
  proof (cases "h = g")
    case True
    then show ?thesis using run h by blast
  next
    case False
    then show ?thesis using other h by metis
  qed
qed (use out in blast)

lemma inflight_inv_finish:
  assumes inv: "inflight_inv s" and run: "gos s g = Running key c"
  shows "inflight_inv (doFinish g key c r s)" (is "inflight_inv ?s")
proof -
  have ow: "owns ?s k d g' \<longleftrightarrow> owns s k d g'" for k d g' using run by (auto simp: owns_def doFinish_def)
  have c: "owns s key c g" using run by (simp add: owns_def)
  show ?thesis
  proof (rule inflight_invI, unfold ow)
    fix g' k d assume "gos ?s g' = Running k d"
    then have "gos s g' = Running k d" "g' \<noteq> g" by (auto simp: doFinish_def split: if_splits)
    then show "outcome_of ?s d = None"
      using inv_running [OF inv, of g' k d] inv_unique [OF inv c, of k g'] by (auto simp: doFinish_def owns_def)
  next
    fix g' d assume "gos ?s g' = Waiting d"
    then show "outcome_of ?s d \<noteq> None \<or> (\<exists>g' key. gos ?s g' = Running key d)"
      using run by (intro waiting_kept [OF inv, of g' d g]) (auto simp: doFinish_def split: if_splits)
  next
    fix d assume "nextCall ?s \<le> d"
    then show "outcome_of ?s d = None" using inv_fresh [OF inv] owner_below [OF inv c] by (auto simp: doFinish_def)
  qed (use inflight_invD(1,2,3,5) [OF inv] in \<open>auto simp: doFinish_def split: if_splits\<close>)
qed

lemma inflight_inv_release:
  assumes inv: "inflight_inv s" and pub: "gos s g = Publishing key c"
  shows "inflight_inv (doRelease g key r s)" (is "inflight_inv ?s")
proof -
  have ow: "owns ?s k d g' \<longleftrightarrow> g' \<noteq> g \<and> owns s k d g'" for k d g' by (auto simp: owns_def doRelease_def)
  have c: "owns s key c g" using pub by (simp add: owns_def)
  show ?thesis
  proof (rule inflight_invI, unfold ow)
    fix k d g' assume "g' \<noteq> g \<and> owns s k d g'"
    then have o: "owns s k d g'" "g' \<noteq> g" by auto
    have "k \<noteq> key" using inv_owner [OF inv o(1)] inv_owner [OF inv c] inv_unique [OF inv c] o by fastforce
    then show "calls ?s k = Some d" using inv_owner [OF inv o(1)] by (simp add: doRelease_def)
  next
    fix k d assume "calls ?s k = Some d"
    then have kd: "calls s k = Some d" "k \<noteq> key" by (auto simp: doRelease_def split: if_splits)
    then obtain h where "owns s k d h" using inv_call [OF inv] by blast
    moreover have "h \<noteq> g" using kd calculation pub by (auto simp: owns_def)
    ultimately show "d < nextCall ?s \<and> (\<exists>g'. g' \<noteq> g \<and> owns s k d g')"
      using inv_call [OF inv kd(1)] by (auto simp: doRelease_def)
  next
    fix g' d assume "gos ?s g' = Waiting d"
    then show "outcome_of ?s d \<noteq> None \<or> (\<exists>g' key. gos ?s g' = Running key d)"
      using pub by (intro waiting_kept [OF inv, of g' d g]) (auto simp: doRelease_def split: if_splits)
  qed (use inflight_invD(3,4,5,7) [OF inv] in \<open>auto simp: doRelease_def split: if_splits\<close>)
qed

lemma inflight_inv_wake:
  assumes inv: "inflight_inv s" and wt: "gos s g = Waiting c"
  shows "inflight_inv (doWake g r s)" (is "inflight_inv ?s")
proof -
  have ow: "owns ?s k d g' \<longleftrightarrow> owns s k d g'" for k d g' using wt by (auto simp: owns_def doWake_def)
  show ?thesis
  proof (rule inflight_invI, unfold ow)
    fix g' d assume "gos ?s g' = Waiting d"
    then show "outcome_of ?s d \<noteq> None \<or> (\<exists>g' key. gos ?s g' = Running key d)"
      using wt by (intro waiting_kept [OF inv, of g' d g]) (auto simp: doWake_def split: if_splits)
  qed (use inflight_invD(1,2,3,4,5,7) [OF inv] in \<open>auto simp: doWake_def split: if_splits\<close>)
qed

lemma inflight_inv_inner: "inflight_inv s \<Longrightarrow> inner_step s s' \<Longrightarrow> inflight_inv s'"
  by (erule inner_stepE) (simp_all add: inflight_inv_finish inflight_inv_release inflight_inv_wake)

lemma inflight_reach_inv: "inflight_reach s \<Longrightarrow> inflight_inv s"
  by (induction rule: inflight_reach.induct) (auto intro: inflight_inv_start inflight_inv_enter inflight_inv_inner)

section \<open>Progress\<close>

text \<open>How many steps a goroutine has before it at most.\<close>

fun pending :: "'r goroutine \<Rightarrow> nat" where
  "pending Outside = 0"
| "pending (Waiting c) = 1"
| "pending (Running key c) = 2"
| "pending (Publishing key c) = 1"
| "pending (Returned r) = 0"

definition active :: "'r inflight \<Rightarrow> nat set" where
  "active s = {g. 0 < pending (gos s g)}"

definition work :: "'r inflight \<Rightarrow> nat" where
  "work s = (\<Sum>g \<in> active s. pending (gos s g))"

lemma work_alt: "finite A \<Longrightarrow> active s \<subseteq> A \<Longrightarrow> work s = (\<Sum>g \<in> A. pending (gos s g))"
  unfolding work_def by (rule sum.mono_neutral_left) (auto simp: active_def)

lemma inner_step_change:
  assumes "inner_step s s'"
  shows "\<exists>g x. gos s' = (gos s)(g := x) \<and> pending x < pending (gos s g)"
  using assms
  by (cases rule: inner_step.cases)
    (force simp: doFinish_def doRelease_def doWake_def intro: exI [of _ g for g])+

lemma inner_step_work:
  assumes "inner_step s s'" and "finite (active s)"
  shows "work s' < work s \<and> active s' \<subseteq> active s"
proof -
  obtain g x where gx: "gos s' = (gos s)(g := x)" "pending x < pending (gos s g)"
    using inner_step_change [OF assms(1)] by blast
  then have g: "gos s' = (gos s)(g := gos s' g)" "pending (gos s' g) < pending (gos s g)" by simp_all
  have other: "gos s' h = gos s h" if "h \<noteq> g" for h using g(1) that by (metis fun_upd_other)
  have "g \<in> active s" using g(2) by (simp add: active_def)
  have sub: "active s' \<subseteq> active s"
  proof
    fix h assume "h \<in> active s'"
    then show "h \<in> active s" using other [of h] g(2) by (cases "h = g") (auto simp: active_def)
  qed
  have "(\<Sum>h \<in> active s. pending (gos s' h)) < (\<Sum>h \<in> active s. pending (gos s h))"
  proof (rule sum_strict_mono_ex1 [OF assms(2)])
    show "\<forall>h \<in> active s. pending (gos s' h) \<le> pending (gos s h)"
      using other g(2) by (metis less_imp_le order_refl)
  qed (use \<open>g \<in> active s\<close> g(2) in blast)
  then show ?thesis using work_alt [OF assms(2) sub] sub by (simp add: work_def)
qed

text \<open>While a goroutine is inside \<open>do\<close>, one of the inner steps can be taken.\<close>

lemma inflight_not_stuck:
  assumes inv: "inflight_inv s" and "active s \<noteq> {}"
  shows "\<exists>s'. inner_step s s'"
proof -
  obtain g where "0 < pending (gos s g)" using assms(2) by (auto simp: active_def)
  then show ?thesis
  proof (cases "gos s g")
    case (Waiting c)
    then show ?thesis using inv_waiting [OF inv, of g c] by (auto intro: inner_step.intros)
  next
    case (Publishing key c)
    then show ?thesis using inv_published [OF inv, of g key c] by (auto intro: inner_step.intros)
  qed (auto intro: inner_step.intros)
qed

lemma inflight_drains: "inflight_inv s \<Longrightarrow> finite (active s) \<Longrightarrow> \<exists>s'. inner_step\<^sup>*\<^sup>* s s' \<and> active s' = {}"
proof (induction "work s" arbitrary: s rule: less_induct)
  case less
  show ?case
  proof (cases "active s = {}")
    case False
    then obtain s1 where s1: "inner_step s s1" using inflight_not_stuck [OF less.prems(1)] by blast
    from inner_step_work [OF s1 less.prems(2)] have w: "work s1 < work s" and f: "finite (active s1)"
      using less.prems(2) finite_subset by auto
    from less.hyps [OF w inflight_inv_inner [OF less.prems(1) s1] f] s1 show ?thesis
      by (meson converse_rtranclp_into_rtranclp)
  qed blast
qed

end
