(* ===== verification/Resolver_Properties.thy ===== *)
theory Resolver_Properties
  imports Resolver_Local Resolver_Infra
begin

text \<open>
  What the pure parts of the resolver and its coalescing of requests guarantee.
\<close>

section \<open>Zones\<close>

interpretation fwd: zone_test inForwardZone
  by unfold_locales (auto simp: inForwardZone_def zone_simps HasSuffix_iff_suffix suffix_def)

interpretation lz: zone_test inLocalZone
  by unfold_locales (auto simp: inLocalZone_def zone_simps HasSuffix_iff_suffix)

interpretation su: zone_test underName
  by unfold_locales (auto simp: underName_def zone_simps HasSuffix_iff_suffix)

lemma soaCoversName_iff:
  "soaCoversName owner qname \<longleftrightarrow>
     ToLower (TrimSuffix owner ''.'') = [] \<or> at_or_below (ToLower (TrimSuffix qname ''.'')) (ToLower (TrimSuffix owner ''.''))"
  by (auto simp: soaCoversName_def zone_simps HasSuffix_iff_suffix Let_def)

lemma HasSuffix_dot: "HasSuffix n (''.'' @ z) \<longleftrightarrow> n \<noteq> z \<and> at_or_below n z"
  by (auto simp: zone_simps HasSuffix_iff_suffix suffix_def)

section \<open>Names\<close>

lemma minimizeQName_cases:
  assumes "minimizeQName fullName qtype zone = (asked, t)"
  obtains (same) "asked = fullName" "t = qtype"
    | (root) "qtype \<noteq> TypeDS" "zone = []" "asked = last (Split dot fullName)" "t = TypeNS"
    | (one) rest where "qtype \<noteq> TypeDS" "zone \<noteq> []" "fullName = rest @ ''.'' @ zone" "asked = last (Split dot rest) @ ''.'' @ zone" "t = TypeNS"
        "1 < length (Split dot rest)"
proof (cases "fullName = [] \<or> qtype = TypeDS")
  case True
  then have "minimizeQName fullName qtype zone = (fullName, qtype)" by (auto simp: minimizeQName_def)
  with assms show thesis by (intro same) simp_all
next
  case full: False
  show thesis
  proof (cases "zone = []")
    case True
    with full have "minimizeQName fullName qtype zone = (last (Split dot fullName), TypeNS)" by (simp add: minimizeQName_def)
    with assms full True show thesis by (intro root) simp_all
  next
    case zone: False
    let ?rest = "TrimSuffix fullName (''.'' @ zone)"
    show thesis
    proof (cases "?rest = fullName \<or> length (Split dot ?rest) \<le> 1")
      case True
      with full zone have "minimizeQName fullName qtype zone = (fullName, qtype)" by (auto simp: minimizeQName_def Let_def)
      with assms show thesis by (intro same) simp_all
    next
      case False
      with full zone have m: "minimizeQName fullName qtype zone = (last (Split dot ?rest) @ ''.'' @ zone, TypeNS)"
        by (simp add: minimizeQName_def Let_def)
      have "HasSuffix fullName (''.'' @ zone)"
      proof (rule ccontr)
        assume "\<not> HasSuffix fullName (''.'' @ zone)"
        then have "?rest = fullName" unfolding TrimSuffix_def by (rule if_not_P)
        with False show False by blast
      qed
      then obtain pre where "fullName = pre @ ''.'' @ zone" unfolding HasSuffix_iff_suffix suffix_def by blast
      then have "fullName = ?rest @ ''.'' @ zone" by (metis TrimSuffix_append)
      with assms m full zone False show thesis by (intro one [of ?rest]) auto
    qed
  qed
qed

text \<open>
  Query-name minimisation.  The name that is asked of a server of \<open>zone\<close> is never
  outside the full name's ancestors, and when it is not the full question itself it is the
  ancestor with exactly one label more than the zone, asked for NS.  A DS question, and a name
  that is not below the zone, is asked as it is.
\<close>

theorem minimizeQName_one_label:
  assumes "minimizeQName fullName qtype zone = (asked, t)"
  shows "at_or_below fullName asked \<and>
    (asked = fullName \<and> t = qtype \<or>
     t = TypeNS \<and> qtype \<noteq> TypeDS \<and> (\<exists>l. Split dot asked = l # (if zone = [] then [] else Split dot zone))) \<and>
    (qtype = TypeDS \<or> zone \<noteq> [] \<and> (fullName = zone \<or> \<not> at_or_below fullName zone) \<longrightarrow> (asked, t) = (fullName, qtype))"
proof -
  consider (same) "asked = fullName" "t = qtype"
    | (root) "qtype \<noteq> TypeDS" "zone = []" "asked = last (Split dot fullName)" "t = TypeNS"
    | (one) rest where "qtype \<noteq> TypeDS" "zone \<noteq> []" "fullName = rest @ ''.'' @ zone" "asked = last (Split dot rest) @ ''.'' @ zone" "t = TypeNS"
        "1 < length (Split dot rest)"
    using assms by (rule minimizeQName_cases)
  then show ?thesis
  proof cases
    case same
    then show ?thesis by simp
  next
    case root
    have "Split dot fullName = butlast (Split dot fullName) @ [last (Split dot fullName)]" by simp
    then have "suffix [last (Split dot fullName)] (Split dot fullName)" unfolding suffix_def by (rule exI)
    moreover have "Split dot (last (Split dot fullName)) = [last (Split dot fullName)]"
      by (intro Split_no_sep Split_parts [of _ dot fullName]) simp
    ultimately have "at_or_below fullName asked" "Split dot asked = [asked]" unfolding root(3) at_or_below_def by simp_all
    then show ?thesis using root(1,2,4) by simp
  next
    case (one rest)
    have l: "Split dot (last (Split dot rest)) = [last (Split dot rest)]"
      by (intro Split_no_sep Split_parts [of _ dot rest]) simp
    have asked: "Split dot asked = last (Split dot rest) # Split dot zone"
      using one(4) l by (simp add: Split_append_dot)
    have "Split dot fullName = butlast (Split dot rest) @ Split dot asked"
      using one(3) asked append_butlast_last_id [of "Split dot rest"] by (simp add: Split_append_dot)
    then have "at_or_below fullName asked" unfolding at_or_below_def suffix_def by (rule exI)
    moreover have "at_or_below fullName zone" "fullName \<noteq> zone" unfolding one(3) by simp_all
    ultimately show ?thesis using one(1,2,5) asked by simp
  qed
qed


theorem minimizeQName_one_label_witness:
  "minimizeQName ''www.example.com'' TypeA ''com'' = (''example.com'', TypeNS) \<and> at_or_below ''www.example.com'' ''example.com''"
proof -
  have "minimizeQName ''www.example.com'' TypeA ''com'' = (''example.com'', TypeNS)" by code_simp
  with minimizeQName_one_label [OF this] show ?thesis by blast
qed

text \<open>
  Classification of responses.  An answer, a CNAME or a DNAME redirection is only ever
  seen in an authoritative response without an error code, and then the record that makes it
  one is in the answer section: of the type asked, at the name asked; a CNAME at that name; a
  DNAME whose owner is a proper ancestor of the name.  A referral has an NS record and no SOA
  that covers the name, a NODATA has an SOA whose owner is the name or an ancestor of it.
  NXDOMAIN is the response code and nothing else.
\<close>

theorem classifyResponse_justified:
  "(classifyResponse msg q t \<in> {responseAnswer, responseCNAME, responseDNAME} \<longrightarrow>
      AA (msgHeader msg) \<and> RCODE (msgHeader msg) \<notin> {RCodeNXDomain, RCodeServFail, RCodeRefused, RCodeFormErr}) \<and>
   (classifyResponse msg q t = responseAnswer \<longrightarrow> (\<exists>rr \<in> set (Answers msg). ToLower (rrName rr) = q \<and> rrType rr = t)) \<and>
   (classifyResponse msg q t = responseCNAME \<longrightarrow> (\<exists>rr \<in> set (Answers msg). ToLower (rrName rr) = q \<and> rrType rr = TypeCNAME)) \<and>
   (classifyResponse msg q t = responseDNAME \<longrightarrow>
      (\<exists>rr \<in> set (Answers msg). rrType rr = TypeDNAME \<and> q \<noteq> ToLower (rrName rr) \<and> at_or_below q (ToLower (rrName rr)))) \<and>
   (classifyResponse msg q t = responseReferral \<longrightarrow>
      (\<exists>rr \<in> set (Authority msg). rrType rr = TypeNS) \<and>
      (\<forall>rr \<in> set (Authority msg). rrType rr = TypeSOA \<longrightarrow> \<not> soaCoversName (rrName rr) q)) \<and>
   (classifyResponse msg q t = responseNoData \<longrightarrow>
      (\<exists>rr \<in> set (Authority msg). rrType rr = TypeSOA \<and>
         (ToLower (TrimSuffix (rrName rr) ''.'') = [] \<or>
          at_or_below (ToLower (TrimSuffix q ''.'')) (ToLower (TrimSuffix (rrName rr) ''.''))))) \<and>
   (classifyResponse msg q t = responseNXDomain \<longleftrightarrow> RCODE (msgHeader msg) = RCodeNXDomain)"
proof -
  let ?rc = "RCODE (msgHeader msg)"
  define hR where "hR \<longleftrightarrow> (\<exists>rr \<in> set (Answers msg). ToLower (rrName rr) = q \<and> rrType rr = t)"
  define hC where "hC \<longleftrightarrow> (\<exists>rr \<in> set (Answers msg). ToLower (rrName rr) = q \<and> rrType rr = TypeCNAME)"
  define hD where "hD \<longleftrightarrow> (\<exists>rr \<in> set (Answers msg). rrType rr = TypeDNAME \<and> q \<noteq> ToLower (rrName rr) \<and> at_or_below q (ToLower (rrName rr)))"
  define hN where "hN \<longleftrightarrow> (\<exists>rr \<in> set (Authority msg). rrType rr = TypeNS)"
  define hS where "hS \<longleftrightarrow> (\<exists>rr \<in> set (Authority msg). rrType rr = TypeSOA \<and> soaCoversName (rrName rr) q)"
  define auth where "auth = (if hN \<and> \<not> hS then responseReferral else if hS then responseNoData else responseServFail)"
  have c: "classifyResponse msg q t =
      (if ?rc = RCodeNXDomain then responseNXDomain
       else if ?rc = RCodeServFail \<or> ?rc = RCodeRefused \<or> ?rc = RCodeFormErr then responseServFail
       else if 0 < ANCount (msgHeader msg)
       then (if \<not> AA (msgHeader msg) \<and> (hR \<or> hC \<or> hD) then responseServFail
             else if hR then responseAnswer else if hC then responseCNAME else if hD then responseDNAME else auth)
       else auth)"
    unfolding classifyResponse_def Let_def auth_def hR_def hC_def hD_def hN_def hS_def HasSuffix_dot list_ex_iff by (rule refl)
  have hS': "(\<forall>rr \<in> set (Authority msg). rrType rr = TypeSOA \<longrightarrow> \<not> soaCoversName (rrName rr) q) \<longleftrightarrow> \<not> hS"
    unfolding hS_def by blast
  show ?thesis
    unfolding soaCoversName_iff [symmetric] hR_def [symmetric] hC_def [symmetric] hD_def [symmetric] hN_def [symmetric]
      hS_def [symmetric] hS' c auth_def
    by (simp split: if_split)
qed

theorem classifyResponse_justified_witness:
  "AA (msgHeader \<lparr>msgHeader = \<lparr>ID = 0, Flags = 0x8400, QDCount = 1, ANCount = 1, NSCount = 0, ARCount = 0\<rparr>, Questions = [],
      Answers = [\<lparr>rrName = ''a'', rrType = 1, rrClass = 1, rrTTL = 5, rrRDLength = 4, rrRData = [1, 2, 3, 4], rrRDataOffset = 0\<rparr>],
      Authority = [], Additional = [], msgEDNS0 = None, Raw = []\<rparr>)"
    (is "AA (msgHeader ?m)")
proof -
  have "classifyResponse ?m ''a'' 1 = responseAnswer" by code_simp
  with classifyResponse_justified [of ?m "''a''" 1] show ?thesis by simp
qed

text \<open>
  The special-use names.  \<open>specialUseResponse\<close> answers NXDOMAIN itself for exactly the
  names at or below \<open>onion\<close>, \<open>invalid\<close>, \<open>test\<close>, \<open>local\<close>, \<open>home.arpa\<close> and \<open>example\<close>, whatever
  their case and with or without the trailing dot; \<open>example.com\<close>, \<open>example.net\<close> and
  \<open>example.org\<close> are not among them.
\<close>

theorem specialUse_exact:
  "specialUse name \<longleftrightarrow>
     (\<exists>z \<in> {''onion'', ''invalid'', ''test'', ''example'', ''local'', ''home.arpa''}. at_or_below (normalizeName name) z)"
proof -
  let ?n = "normalizeName name"
  have tld: "last (Split dot n) = last (Split dot z)" if "at_or_below n z" for n z
    using that Split_not_Nil [of dot z] by (auto simp: at_or_below_def suffix_def)
  have u: "underName n z \<longleftrightarrow> at_or_below n z" if "z \<noteq> []" for n z using su.covers_labels [OF that] .
  have empty: "\<not> at_or_below [] z" if "z \<noteq> []" for z using that at_or_below_length [of "[]" z] by auto
  show ?thesis
  proof (cases "at_or_below ?n ''example.com'' \<or> at_or_below ?n ''example.net'' \<or> at_or_below ?n ''example.org''")
    case True
    then have "last (Split dot ?n) \<in> {''com'', ''net'', ''org''}" using tld by fastforce
    then have "\<not> at_or_below ?n z" if "z \<in> {''onion'', ''invalid'', ''test'', ''example'', ''local'', ''home.arpa''}" for z
      using that tld [of ?n z] by auto
    with True show ?thesis unfolding specialUse_def Let_def normalizeName_def [symmetric] by (simp add: u)
  next
    case False
    then show ?thesis unfolding specialUse_def Let_def normalizeName_def [symmetric] by (simp add: u empty)
  qed
qed


text \<open>
  The longest-suffix choice of a forward zone.  \<open>Match\<close> finds a zone exactly when one with
  a name that is not empty covers the query name (or a zone named as the empty query name), and the
  zone it finds is the closest: every other zone that covers the name covers it, too.
\<close>

theorem Match_closest:
  assumes "ft = NewForwardTable zs" and "\<forall>z \<in> set ft. fzName z \<noteq> []"
  shows "let q = ToLower (TrimSuffix qname ''.'') in
    (Match (Some ft) qname = None \<longleftrightarrow> (\<forall>z \<in> set ft. \<not> at_or_below q (fzName z))) \<and>
    (\<forall>b. Match (Some ft) qname = Some b \<longrightarrow> b \<in> set ft \<and> at_or_below q (fzName b) \<and>
       (\<forall>z \<in> set ft. at_or_below q (fzName z) \<longrightarrow> at_or_below (fzName b) (fzName z)))"
proof -
  let ?q = "ToLower (TrimSuffix qname ''.'')"
  have cov: "inForwardZone n (fzName z) \<longleftrightarrow> at_or_below n (fzName z)" if "z \<in> set ft" for n z
    using assms(2) that by (simp add: fwd.covers_labels)
  have m: "Match (Some ft) qname = longestMatch inForwardZone fzName ?q ft"
    by (cases ft) (simp_all add: Match_def longestMatch_def)
  have some: "b \<in> set ft \<and> at_or_below ?q (fzName b) \<and>
       (\<forall>z \<in> set ft. at_or_below ?q (fzName z) \<longrightarrow> at_or_below (fzName b) (fzName z))"
    if b: "longestMatch inForwardZone fzName ?q ft = Some b" for b
  proof (intro conjI ballI impI)
    show b1: "b \<in> set ft" using longestMatch_Some [OF b] by blast
    show "at_or_below ?q (fzName b)" using longestMatch_Some [OF b] cov b1 by blast
    fix z assume z: "z \<in> set ft" "at_or_below ?q (fzName z)"
    then have "inForwardZone (fzName b) (fzName z)"
      using b1 assms(2) cov by (intro fwd.longestMatch_closest [OF b]) auto
    then show "at_or_below (fzName b) (fzName z)" using cov z by blast
  qed
  show ?thesis unfolding m Let_def longestMatch_None using some cov by blast
qed

theorem Match_closest_witness:
  "\<exists>b. Match (Some (NewForwardTable [\<lparr>fzName = ''Corp.'', Addrs = [''10.0.0.1''], IsStub = False\<rparr>])) ''a.corp'' = Some b"
proof -
  let ?ft = "NewForwardTable [\<lparr>fzName = ''Corp.'', Addrs = [''10.0.0.1''], IsStub = False\<rparr>]"
  have low: "ToLower (TrimSuffix ''Corp.'' ''.'') = ''corp''" "ToLower (TrimSuffix ''a.corp'' ''.'') = ''a.corp''" by code_simp+
  have "at_or_below ''a.corp'' ''corp''" by code_simp
  with Match_closest [OF refl, of "[\<lparr>fzName = ''Corp.'', Addrs = [''10.0.0.1''], IsStub = False\<rparr>]" "''a.corp''"] low show ?thesis
    by (simp add: NewForwardTable_def Let_def)
qed

section \<open>Local zones\<close>

lemma dots_append: "dots (xs @ ys) = dots xs + dots ys"
  by (simp add: dots_def count_list_append)

lemma at_or_below_dots: "at_or_below n z \<Longrightarrow> n = z \<or> dots z < dots n"
  by (auto simp: zone_simps suffix_def dots_append) (simp add: dots_def)

lemma find_sorted_best:
  assumes "sorted_wrt (\<lambda>a b. f b \<le> (f a :: nat)) zs" and "find P zs = Some z" and "y \<in> set zs" and "P y"
  shows "z \<in> set zs \<and> P z \<and> f y \<le> f z"
  using assms by (induction zs) (auto split: if_splits simp: find_Some_iff)

text \<open>
  Local zones.  Whatever order \<open>sort.Slice\<close> gives zones with equally many labels, a lookup in class IN uses
  the closest zone that covers the name (and a zone of the table, if one covers it); without
  one, or in another class, it does not answer.  What is answered depends on the type of the
  zone: the records of the name and type, an empty answer for a name with other records and
  NXDOMAIN for others (static); a refusal (refuse, and deny with its marker); the records of the
  type at any name (redirect); the records, or nothing so that resolution goes on (transparent).
\<close>

theorem LocalLookup_closest:
  assumes "slice_sort srt" and "t = NewLocalZoneTable srt zs" and "\<forall>z \<in> set t. lzName z \<noteq> []"
  shows "let n = normalizeName name in
    (qclass \<noteq> ClassIN \<or> (\<forall>z \<in> set t. \<not> at_or_below n (lzName z)) \<longrightarrow> LocalLookup t name qtype qclass = None) \<and>
    (qclass = ClassIN \<and> (\<exists>z \<in> set t. at_or_below n (lzName z)) \<longrightarrow>
       (\<exists>z \<in> set t. at_or_below n (lzName z) \<and> (\<forall>y \<in> set t. at_or_below n (lzName y) \<longrightarrow> at_or_below (lzName z) (lzName y)) \<and>
          (let recs = filter (\<lambda>r. lrType r = qtype) (lzRecords z); own = filter (\<lambda>r. lrName r = n) recs;
               answer = (\<lambda>rs. (resultOf RCodeNoError)\<lparr>resAnswers := map (answerRR n) rs\<rparr>) in
           LocalLookup t name qtype qclass =
             (case lzType z of
                LocalStatic \<Rightarrow> Some (if own \<noteq> [] \<or> (\<exists>r \<in> set (lzRecords z). lrName r = n) then answer own else resultOf RCodeNXDomain)
              | LocalDeny \<Rightarrow> Some ((resultOf RCodeRefused)\<lparr>resStatus := ''local-deny''\<rparr>)
              | LocalRefuse \<Rightarrow> Some (resultOf RCodeRefused)
              | LocalRedirect \<Rightarrow> Some (answer recs)
              | LocalTransparent \<Rightarrow> (if own \<noteq> [] then Some (answer own) else None)))))"
proof -
  let ?n = "normalizeName name"
  have cov: "inLocalZone n (lzName z) \<longleftrightarrow> at_or_below n (lzName z)" if "z \<in> set t" for n z
    using assms(3) that by (simp add: lz.covers_labels)
  have sorted: "sorted_wrt (\<lambda>a b. dots (lzName b) \<le> dots (lzName a)) t"
    using assms(1) [unfolded slice_sort_def, rule_format, of "\<lambda>z. dots (lzName z)", THEN conjunct2]
    unfolding assms(2) NewLocalZoneTable_def by blast
  have none: "findZone t ?n = None \<longleftrightarrow> (\<forall>z \<in> set t. \<not> at_or_below ?n (lzName z))"
    unfolding findZone_def using cov by (auto simp: find_None_iff)
  have closest: "z \<in> set t \<and> at_or_below ?n (lzName z) \<and> (\<forall>y \<in> set t. at_or_below ?n (lzName y) \<longrightarrow> at_or_below (lzName z) (lzName y))"
    if z: "findZone t ?n = Some z" for z
  proof -
    have zt: "z \<in> set t" "at_or_below ?n (lzName z)"
      using z cov unfolding findZone_def by (auto simp: find_Some_iff)
    have "at_or_below (lzName z) (lzName y)" if y: "y \<in> set t" "at_or_below ?n (lzName y)" for y
    proof -
      have "dots (lzName y) \<le> dots (lzName z)"
        using find_sorted_best [OF sorted z [unfolded findZone_def] y(1)] cov y by blast
      moreover have "at_or_below (lzName z) (lzName y) \<or> at_or_below (lzName y) (lzName z)"
        using at_or_below_chain zt(2) y(2) by blast
      ultimately show ?thesis using at_or_below_dots [of "lzName y" "lzName z"] by auto
    qed
    with zt show ?thesis by blast
  qed
  have m: "matchRecords rs n qtype = map (answerRR n) (filter (\<lambda>r. lrName r = n) (filter (\<lambda>r. lrType r = qtype) rs))" for rs n
    by (simp add: matchRecords_def conj_commute)
  have val: "LocalLookup t name qtype ClassIN =
       (let recs = filter (\<lambda>r. lrType r = qtype) (lzRecords z); own = filter (\<lambda>r. lrName r = ?n) recs;
            answer = (\<lambda>rs. (resultOf RCodeNoError)\<lparr>resAnswers := map (answerRR ?n) rs\<rparr>) in
        case lzType z of
                LocalStatic \<Rightarrow> Some (if own \<noteq> [] \<or> (\<exists>r \<in> set (lzRecords z). lrName r = ?n) then answer own else resultOf RCodeNXDomain)
              | LocalDeny \<Rightarrow> Some ((resultOf RCodeRefused)\<lparr>resStatus := ''local-deny''\<rparr>)
              | LocalRefuse \<Rightarrow> Some (resultOf RCodeRefused)
              | LocalRedirect \<Rightarrow> Some (answer recs)
              | LocalTransparent \<Rightarrow> (if own \<noteq> [] then Some (answer own) else None))"
    if "findZone t ?n = Some z" for z
    using that unfolding LocalLookup_def lookupStatic_def lookupRedirect_def lookupTransparent_def m Let_def
    by (auto simp: list_ex_iff resultOf_def split: LocalZoneType.split)
  show ?thesis
  proof (cases "findZone t ?n")
    case None
    then show ?thesis using none by (simp add: LocalLookup_def Let_def)
  next
    case (Some z)
    have "qclass \<noteq> ClassIN \<Longrightarrow> LocalLookup t name qtype qclass = None" by (simp add: LocalLookup_def)
    then show ?thesis using closest [OF Some] val [OF Some] unfolding Let_def by blast
  qed
qed


definition sortDesc :: "(LocalZone \<Rightarrow> nat) \<Rightarrow> LocalZone list \<Rightarrow> LocalZone list" where
  "sortDesc f zs = rev (sort_key f zs)"

lemma sortDesc_slice_sort: "slice_sort sortDesc"
proof -
  have "sorted_wrt (\<lambda>a b. f b \<le> f a) (sortDesc f zs)" for f zs
  proof -
    have "sorted_wrt (\<lambda>a b. f a \<le> f b) (sort_key f zs)" using sorted_sort_key [of f zs] by (simp add: sorted_map)
    then show ?thesis by (simp add: sortDesc_def sorted_wrt_rev)
  qed
  then show ?thesis by (simp add: slice_sort_def sortDesc_def)
qed

theorem LocalLookup_closest_witness:
  "\<exists>t. t = NewLocalZoneTable sortDesc [\<lparr>lzName = ''corp'', lzType = LocalRefuse, lzRecords = []\<rparr>] \<and>
     LocalLookup t ''a.corp'' TypeA ClassIN = Some (resultOf RCodeRefused) \<and> LocalLookup t ''b.org'' TypeA ClassIN = None"
proof -
  let ?zs = "[\<lparr>lzName = ''corp'', lzType = LocalRefuse, lzRecords = []\<rparr>]"
  let ?t = "NewLocalZoneTable sortDesc ?zs"
  have n: "normalizeName ''corp'' = ''corp''" "normalizeName ''a.corp'' = ''a.corp''" "normalizeName ''b.org'' = ''b.org''" by code_simp+
  have t: "?t = ?zs" by (simp add: NewLocalZoneTable_def sortDesc_def n)
  have b: "at_or_below ''a.corp'' ''corp''" "\<not> at_or_below ''b.org'' ''corp''" by code_simp+
  have "LocalLookup ?t ''a.corp'' TypeA ClassIN = Some (resultOf RCodeRefused)"
    using LocalLookup_closest [OF sortDesc_slice_sort refl, of ?zs "''a.corp''" ClassIN TypeA] t n b by (simp add: Let_def)
  moreover have "LocalLookup ?t ''b.org'' TypeA ClassIN = None"
    using LocalLookup_closest [OF sortDesc_slice_sort refl, of ?zs "''b.org''" ClassIN TypeA] t n b by (simp add: Let_def)
  ultimately show ?thesis by blast
qed

text \<open>The chunks that \<open>encodeTXT\<close> writes are read back one by one.\<close>

lemma txtLoop_chunks:
  "\<exists>ps. txtLoop (pre @ txtChunks d) (length pre) acc = Ret (acc @ ps) \<and> concat ps = string_of d \<and> (\<forall>p \<in> set ps. length p \<le> 255)"
proof (induction d arbitrary: pre acc rule: txtChunks.induct)
  case (1 d)
  show ?case
  proof (cases "d = []")
    case True
    then show ?thesis by (simp add: txtChunks.simps txtLoop.simps string_of_def)
  next
    case False
    define c where "c = take 255 d"
    have c: "c \<noteq> []" "length c \<le> 255" "d = c @ drop (length c) d" using False by (auto simp: c_def min_def)
    have chunk: "(if 255 < length d then take 255 d else d) = c" by (simp add: c_def)
    have len: "unat (of_nat (length c) :: u8) = length c" using c(2) by (simp add: unsigned_of_nat take_bit_nat_eq_self)
    have e: "pre @ txtChunks d = pre @ of_nat (length c) # c @ txtChunks (drop (length c) d)"
      using False by (simp add: txtChunks.simps [of d] Let_def chunk)
    let ?pre = "pre @ of_nat (length c) # c"
    obtain ps where ps: "txtLoop (?pre @ txtChunks (drop (length c) d)) (length ?pre) (acc @ [string_of c]) = Ret ((acc @ [string_of c]) @ ps)"
      "concat ps = string_of (drop (length c) d)" "\<forall>p \<in> set ps. length p \<le> 255"
      using 1 [of c ?pre "acc @ [string_of c]"] False chunk by auto
    have "txtLoop (pre @ txtChunks d) (length pre) acc = Ret ((acc @ [string_of c]) @ ps)"
      unfolding e using ps(1) by (subst txtLoop.simps) (simp add: Let_def len nth_append)
    moreover have "concat (string_of c # ps) = string_of d" using ps(2) c(3) by (metis concat.simps(2) string_of_append)
    ultimately show ?thesis using ps(3) c(2) by (intro exI [of _ "string_of c # ps"]) auto
  qed
qed

text \<open>
  The text of a TXT record of the configuration survives: the strings that \<open>ParseTXT\<close>
  reads from what \<open>encodeTXT\<close> wrote have at most 255 bytes each and are, one after the other, the
  text, however long it is.
\<close>

theorem encodeTXT_ParseTXT:
  "\<exists>ps. ParseTXT (encodeTXT s) = Ret ps \<and> concat ps = s \<and> list_all (\<lambda>p. length p \<le> 255) ps"
proof (cases "s = []")
  case True
  have "ParseTXT [0] = Ret [[]]" by (simp add: ParseTXT_def txtLoop.simps string_of_def)
  with True show ?thesis by (simp add: encodeTXT_def txtChunks.simps bytes_of_def)
next
  case False
  then have "bytes_of s \<noteq> []" by (simp add: bytes_of_def)
  then have "txtChunks (bytes_of s) \<noteq> []" using False by (simp add: txtChunks.simps [of "bytes_of s"] Let_def)
  then have "encodeTXT s = txtChunks (bytes_of s)" by (simp add: encodeTXT_def)
  then show ?thesis using txtLoop_chunks [of "[]" "bytes_of s" "[]"] by (auto simp: ParseTXT_def list_all_iff)
qed

section \<open>Coalescing\<close>

text \<open>
  C24. Coalescing of equal requests.  In every state that any interleaving of goroutines
  reaches, at most one of them runs the function of a key, and no goroutine waits in vain: the
  call it waits for has its outcome or is running.
\<close>

theorem inflight_exclusive:
  assumes "inflight_reach s"
  shows "(gos s g = Running key c \<and> gos s g' = Running key c' \<longrightarrow> g = g' \<and> c = c') \<and>
         (gos s g = Waiting d \<longrightarrow> outcome_of s d \<noteq> None \<or> (\<exists>h k. gos s h = Running k d))"
proof -
  have inv: "inflight_inv s" using assms by (rule inflight_reach_inv)
  have "g = g' \<and> c = c'" if "gos s g = Running key c" "gos s g' = Running key c'"
  proof -
    have o: "owns s key c g" "owns s key c' g'" using that by (simp_all add: owns_def)
    have "c = c'" using inv_owner [OF inv o(1)] inv_owner [OF inv o(2)] by simp
    with inv_unique [OF inv o(1)] o(2) show ?thesis by blast
  qed
  with inv_waiting [OF inv] show ?thesis by blast
qed

definition sampleInflight :: "nat inflight" where
  "sampleInflight = doEnter 1 ''k'' (doEnter 0 ''k'' newInflight)"

lemma sampleInflight_reach: "inflight_reach sampleInflight"
proof -
  have "inflight_reach (doEnter 0 ''k'' (newInflight :: nat inflight))"
    by (rule inflight_reach.enter [OF inflight_reach.start]) (simp add: newInflight_def)
  then show ?thesis unfolding sampleInflight_def
    by (rule inflight_reach.enter) (simp add: doEnter_def newInflight_def)
qed

theorem inflight_exclusive_witness:
  "gos sampleInflight 1 = Waiting 0 \<and> (\<exists>h k. gos sampleInflight h = Running k 0)"
proof -
  have "gos sampleInflight 1 = Waiting 0" "outcome_of sampleInflight 0 = None"
    by (simp_all add: sampleInflight_def doEnter_def newInflight_def)
  with inflight_exclusive [OF sampleInflight_reach, of 1 "''x''" 0 1 0 0] show ?thesis by blast
qed

text \<open>
  C25. Progress of coalescing.  From every reachable state with finitely many goroutines
  inside \<open>do\<close>, each further step of them brings all closer to the end, a step is always
  possible, and so, if every function that runs returns or panics, all of them return.
\<close>

theorem inflight_progress:
  assumes "inflight_reach s" and "finite (active s)"
  shows "(active s \<noteq> {} \<longrightarrow> (\<exists>s'. inner_step s s')) \<and>
         (\<forall>s'. inner_step s s' \<longrightarrow> inflight_reach s' \<and> work s' < work s) \<and>
         (\<exists>s'. inner_step\<^sup>*\<^sup>* s s' \<and> active s' = {})"
  using inflight_not_stuck [OF inflight_reach_inv [OF assms(1)]] inflight_drains [OF inflight_reach_inv [OF assms(1)] assms(2)]
    inner_step_work [OF _ assms(2)] inflight_reach.inner [OF assms(1)] by blast

theorem inflight_progress_witness: "\<exists>s'. inner_step\<^sup>*\<^sup>* sampleInflight s' \<and> active s' = {}"
proof -
  have "active sampleInflight \<subseteq> {0, 1}" by (auto simp: active_def sampleInflight_def doEnter_def newInflight_def split: if_splits)
  then have "finite (active sampleInflight)" by (rule finite_subset) simp
  with inflight_progress [OF sampleInflight_reach] show ?thesis by blast
qed

end
