(* ===== verification/Resolver_Upstream.thy ===== *)
theory Resolver_Upstream
  imports Resolver_Local Resolver_Infra
begin

text \<open>
  The state of a running resolver and the exchange with other servers (\<open>upstream.go\<close>, and the
  query functions of \<open>forward.go\<close>).

  What the program reads from outside is in the record \<open>Env\<close>: the clock, the random numbers, and
  what \<open>queryUDP\<close> and \<open>queryTCP\<close> return for the bytes sent to an address (sockets are not
  modelled).  Each is a function of the number of earlier readings, so that nothing is assumed
  about how answers relate to each other.  A computation \<open>'a io\<close> maps the state to a result and
  the new state; \<open>None\<close> means that it does not return, because it runs forever or panics.
\<close>

record Env =
  clock :: "nat \<Rightarrow> time"
  randTXID :: "nat \<Rightarrow> u16 option"
  randBytes :: "nat \<Rightarrow> nat \<Rightarrow> u8"
  randIndex :: "nat \<Rightarrow> nat \<Rightarrow> nat"
  udpReply :: "nat \<Rightarrow> string \<Rightarrow> bytes \<Rightarrow> string + bytes"
  tcpReply :: "nat \<Rightarrow> string \<Rightarrow> bytes \<Rightarrow> string + bytes"
  rndFloat :: "rat \<Rightarrow> rat"

text \<open>
  The keys of a zone that the DNSSEC validator holds (\<open>dnssec/validator.go\<close>), part of the state that
  a running resolver shares.
\<close>

record dnskeyCache =
  dkKeys :: "ResourceRecord list"
  dkFetchedAt :: time
  dkTTL :: time

text \<open>
  \<open>messagesSent\<close> counts the messages that are handed to sockets; the code has no such counter (\<open>upstreamQueries\<close> is the
  one of the metrics, which is raised once for a query with all its retries), and nothing depends on it.
\<close>

record RState =
  rsCache :: Cache
  rsInfra :: InfraCache
  tick :: nat
  upstreamQueries :: nat
  upstreamErrors :: nat
  fallbackQueries :: nat
  fallbackRecoveries :: nat
  dnssecSecure :: nat
  dnssecInsecure :: nat
  dnssecBogus :: nat
  ready :: bool
  rsKeys :: "string \<rightharpoonup> dnskeyCache"
  messagesSent :: nat

type_synonym 'a io = "RState \<Rightarrow> ('a \<times> RState) option"

definition retIO :: "'a \<Rightarrow> 'a io" where
  "retIO a = (\<lambda>s. Some (a, s))"

definition bindIO :: "'a io \<Rightarrow> ('a \<Rightarrow> 'b io) \<Rightarrow> 'b io" where
  "bindIO m f = (\<lambda>s. case m s of None \<Rightarrow> None | Some (a, s') \<Rightarrow> f a s')"

definition modIO :: "(RState \<Rightarrow> RState) \<Rightarrow> unit io" where
  "modIO f = (\<lambda>s. Some ((), f s))"

text \<open>A reading from outside, a message sent with what comes back, and a panic.\<close>

definition readIO :: "(nat \<Rightarrow> 'a) \<Rightarrow> 'a io" where
  "readIO f = (\<lambda>s. Some (f (tick s), s\<lparr>tick := tick s + 1\<rparr>))"

definition sendIO :: "(nat \<Rightarrow> 'a) \<Rightarrow> 'a io" where
  "sendIO f = (\<lambda>s. Some (f (tick s), s\<lparr>tick := tick s + 1, messagesSent := messagesSent s + 1\<rparr>))"

definition panicIO :: "'a io" where
  "panicIO = (\<lambda>s. None)"

definition cacheIO :: "(Cache \<Rightarrow> Cache option) \<Rightarrow> unit io" where
  "cacheIO f = (\<lambda>s. case f (rsCache s) of None \<Rightarrow> None | Some c \<Rightarrow> Some ((), s\<lparr>rsCache := c\<rparr>))"

record ResolverConfig =
  MaxDepth :: int
  MaxCNAMEDepth :: int
  UpstreamRetries :: int
  QMinEnabled :: bool
  Caps0x20Enabled :: bool
  PreferIPv4 :: bool
  DNSSECEnabled :: bool
  DNS64Enabled :: bool
  DNS64Prefix :: IPNet
  ECSEnabled :: bool
  FallbackResolvers :: "string list"
  UpstreamUDPBufferSize :: int

section \<open>Pure parts of upstream.go\<close>

definition advertisedUDPBufferSize :: "ResolverConfig \<Rightarrow> u16" where
  "advertisedUDPBufferSize cfg =
     (let v = UpstreamUDPBufferSize cfg in if v < 512 \<or> 65535 < v then 1232 else of_int v)"

definition isLetter :: "char \<Rightarrow> bool" where
  "isLetter c \<longleftrightarrow> (let n = (of_char c :: nat) in 97 \<le> n \<and> n \<le> 122 \<or> 65 \<le> n \<and> n \<le> 90)"

definition flipCase :: "char \<Rightarrow> char" where
  "flipCase c = char_of_byte (byte_of c XOR 0x20)"

text \<open>The \<open>k\<close>-th letter is flipped if its bit of the random bytes is set, least significant bit first.\<close>

fun flipLetters :: "(nat \<Rightarrow> u8) \<Rightarrow> nat \<Rightarrow> string \<Rightarrow> string" where
  "flipLetters rb k [] = []"
| "flipLetters rb k (c # cs) =
     (if isLetter c
      then (if bit (rb (k div 8)) (k mod 8) then flipCase c else c) # flipLetters rb (k + 1) cs
      else c # flipLetters rb k cs)"

definition randomizeCase :: "(nat \<Rightarrow> u8) \<Rightarrow> string \<Rightarrow> string" where
  "randomizeCase rb name = (if name = [] \<or> name = ''.'' then name else flipLetters rb 0 name)"

definition questionMatches :: "Message \<Rightarrow> string \<Rightarrow> u16 \<Rightarrow> u16 \<Rightarrow> bool \<Rightarrow> bool" where
  "questionMatches msg name qtype qclass caseSensitive =
     (case Questions msg of
        [] \<Rightarrow> False
      | q # _ \<Rightarrow>
          (let (qn, nm) = (if caseSensitive then (TrimSuffix (qName q) ''.'', TrimSuffix name ''.'')
                           else (TrimSuffix (ToLower (qName q)) ''.'', TrimSuffix (ToLower name) ''.''))
           in \<not> (qn \<noteq> nm \<or> qType q \<noteq> qtype \<or> qClass q \<noteq> qclass)))"

fun firstOPT :: "ResourceRecord list \<Rightarrow> ResourceRecord option" where
  "firstOPT [] = None"
| "firstOPT (rr # rrs) = (if rrType rr \<noteq> TypeOPT then firstOPT rrs else Some rr)"

definition extractResponseECS :: "Message \<Rightarrow> ECSOption option" where
  "extractResponseECS msg =
     (case firstOPT (Additional msg) of
        None \<Rightarrow> None
      | Some rr \<Rightarrow>
          (case okOf (ParseOPT rr) of
             None \<Rightarrow> None
           | Some opt \<Rightarrow> (case okOf (ExtractECSFromOPT (Some opt)) of None \<Rightarrow> None | Some ecs \<Rightarrow> ecs)))"

text \<open>
  The query message.  \<open>BuildECS\<close> panics on a prefix longer than the address.  The \<open>Raw\<close> and
  \<open>EDNS0\<close> fields are nil.
\<close>

definition queryMessage ::
  "ResolverConfig \<Rightarrow> u16 \<Rightarrow> bool \<Rightarrow> string \<Rightarrow> u16 \<Rightarrow> u16 \<Rightarrow> bool \<Rightarrow> ECSOption option \<Rightarrow> Message dns" where
  "queryMessage cfg txID rd queryName qtype qclass withEDNS0 clientECS =
     (let base = \<lparr>msgHeader = \<lparr>ID = txID, Flags = Build (SetRD rd NewFlagBuilder), QDCount = 1, ANCount = 0, NSCount = 0, ARCount = 0\<rparr>,
                  Questions = [\<lparr>qName = queryName, qType = qtype, qClass = qclass\<rparr>], Answers = [], Authority = [],
                  Additional = [], msgEDNS0 = None, Raw = []\<rparr>
      in if withEDNS0 then
           (case clientECS of
              Some ecs \<Rightarrow>
                (if ECSEnabled cfg
                 then andThen (BuildECS (ecs\<lparr>ScopePrefixLen := 0\<rparr>)) (\<lambda>opt.
                      Ret (base\<lparr>Additional := [BuildOPTWithOptions (advertisedUDPBufferSize cfg) (DNSSECEnabled cfg) [opt]]\<rparr>))
                 else Ret (base\<lparr>Additional := [BuildOPT (advertisedUDPBufferSize cfg) (DNSSECEnabled cfg)]\<rparr>))
            | None \<Rightarrow> Ret (base\<lparr>Additional := [BuildOPT (advertisedUDPBufferSize cfg) (DNSSECEnabled cfg)]\<rparr>))
         else Ret base)"

section \<open>Sending a query\<close>

text \<open>\<open>Unpack\<close> and the two checks that follow it; \<open>Unpack\<close> does not panic.\<close>

definition acceptReply :: "u16 \<Rightarrow> string \<Rightarrow> u16 \<Rightarrow> u16 \<Rightarrow> bool \<Rightarrow> bytes \<Rightarrow> string + Message" where
  "acceptReply txID queryName qtype qclass caseSensitive response =
     (case okOf (Unpack response) of
        None \<Rightarrow> Inl ''unpack''
      | Some msg \<Rightarrow>
          if ID (msgHeader msg) \<noteq> txID then Inl ''transaction ID mismatch''
          else if \<not> questionMatches msg queryName qtype qclass caseSensitive then Inl ''response question mismatch''
          else Inr msg)"

text \<open>The exchange: UDP first, and TCP when the accepted reply is truncated.  A UDP reply is cut at the buffer of 4096 bytes.\<close>

definition exchange :: "Env \<Rightarrow> string \<Rightarrow> bytes \<Rightarrow> u16 \<Rightarrow> string \<Rightarrow> u16 \<Rightarrow> u16 \<Rightarrow> bool \<Rightarrow> (string + Message) io" where
  "exchange E nsIP packed txID queryName qtype qclass caseSensitive =
     bindIO (sendIO (\<lambda>n. udpReply E n nsIP packed)) (\<lambda>r.
       case r of
         Inl e \<Rightarrow> retIO (Inl e)
       | Inr response \<Rightarrow>
           (case acceptReply txID queryName qtype qclass caseSensitive (take 4096 response) of
              Inl e \<Rightarrow> retIO (Inl e)
            | Inr msg \<Rightarrow>
                if TC (msgHeader msg) then
                  bindIO (sendIO (\<lambda>n. tcpReply E n nsIP packed)) (\<lambda>r.
                    case r of
                      Inl e \<Rightarrow> retIO (Inl e)
                    | Inr response \<Rightarrow> retIO (acceptReply txID queryName qtype qclass caseSensitive response))
                else retIO (Inr msg)))"

definition sendPacked ::
  "Env \<Rightarrow> ResolverConfig \<Rightarrow> string \<Rightarrow> u16 \<Rightarrow> bool \<Rightarrow> string \<Rightarrow> u16 \<Rightarrow> u16 \<Rightarrow> bool \<Rightarrow> ECSOption option \<Rightarrow> bool \<Rightarrow> (string + Message) io" where
  "sendPacked E cfg nsIP txID rd queryName qtype qclass withEDNS0 clientECS caseSensitive =
     (case andThen (queryMessage cfg txID rd queryName qtype qclass withEDNS0 clientECS) (\<lambda>m. Pack m (replicate 4096 0)) of
        Panic \<Rightarrow> panicIO
      | Err e \<Rightarrow> retIO (Inl ''pack'')
      | Ret (_, packed) \<Rightarrow> exchange E nsIP packed txID queryName qtype qclass caseSensitive)"

definition sendQuery :: "Env \<Rightarrow> ResolverConfig \<Rightarrow> string \<Rightarrow> string \<Rightarrow> u16 \<Rightarrow> u16 \<Rightarrow> bool \<Rightarrow> ECSOption option \<Rightarrow> (string + Message) io" where
  "sendQuery E cfg nsIP name qtype qclass withEDNS0 clientECS =
     bindIO (readIO (randTXID E)) (\<lambda>t.
       case t of
         None \<Rightarrow> retIO (Inl ''txid'')
       | Some txID \<Rightarrow>
           bindIO (if Caps0x20Enabled cfg then readIO (\<lambda>n. randomizeCase (randBytes E n) name) else retIO name) (\<lambda>queryName.
             sendPacked E cfg nsIP txID False queryName qtype qclass withEDNS0 clientECS (Caps0x20Enabled cfg)))"

definition queryUpstreamOnceECS :: "Env \<Rightarrow> ResolverConfig \<Rightarrow> string \<Rightarrow> string \<Rightarrow> u16 \<Rightarrow> u16 \<Rightarrow> ECSOption option \<Rightarrow> (string + Message) io" where
  "queryUpstreamOnceECS E cfg nsIP name qtype qclass clientECS = sendQuery E cfg nsIP name qtype qclass True clientECS"

text \<open>The retry loop: \<open>k\<close> attempts are left.\<close>

fun retryLoop :: "nat \<Rightarrow> (string + Message) io \<Rightarrow> string \<Rightarrow> (string + Message) io" where
  "retryLoop 0 once lastErr = retIO (Inl lastErr)"
| "retryLoop (Suc k) once lastErr =
     bindIO once (\<lambda>r. case r of
       Inr msg \<Rightarrow> retIO (Inr msg)
     | Inl e \<Rightarrow> bindIO (modIO (\<lambda>s. s\<lparr>upstreamErrors := upstreamErrors s + 1\<rparr>)) (\<lambda>_. retryLoop k once e))"

definition retriesOf :: "ResolverConfig \<Rightarrow> nat" where
  "retriesOf cfg = (if UpstreamRetries cfg < 1 then 1 else nat (UpstreamRetries cfg))"

definition queryUpstreamECS :: "Env \<Rightarrow> ResolverConfig \<Rightarrow> string \<Rightarrow> string \<Rightarrow> u16 \<Rightarrow> u16 \<Rightarrow> ECSOption option \<Rightarrow> (string + Message) io" where
  "queryUpstreamECS E cfg nsIP name qtype qclass clientECS =
     bindIO (modIO (\<lambda>s. s\<lparr>upstreamQueries := upstreamQueries s + 1\<rparr>)) (\<lambda>_.
       retryLoop (retriesOf cfg) (queryUpstreamOnceECS E cfg nsIP name qtype qclass clientECS) [])"

definition queryUpstream :: "Env \<Rightarrow> ResolverConfig \<Rightarrow> string \<Rightarrow> string \<Rightarrow> u16 \<Rightarrow> u16 \<Rightarrow> (string + Message) io" where
  "queryUpstream E cfg nsIP name qtype qclass = queryUpstreamECS E cfg nsIP name qtype qclass None"

section \<open>Forwarded queries (forward.go)\<close>

definition sendQueryWithRDECS ::
  "Env \<Rightarrow> ResolverConfig \<Rightarrow> string \<Rightarrow> string \<Rightarrow> u16 \<Rightarrow> u16 \<Rightarrow> bool \<Rightarrow> bool \<Rightarrow> ECSOption option \<Rightarrow> (string + Message) io" where
  "sendQueryWithRDECS E cfg nsIP name qtype qclass rd withEDNS0 clientECS =
     bindIO (readIO (randTXID E)) (\<lambda>t.
       case t of
         None \<Rightarrow> retIO (Inl ''txid'')
       | Some txID \<Rightarrow> sendPacked E cfg nsIP txID rd name qtype qclass withEDNS0 clientECS False)"

definition sendForwardQueryOnceECS :: "Env \<Rightarrow> ResolverConfig \<Rightarrow> string \<Rightarrow> string \<Rightarrow> u16 \<Rightarrow> u16 \<Rightarrow> ECSOption option \<Rightarrow> (string + Message) io" where
  "sendForwardQueryOnceECS E cfg nsIP name qtype qclass clientECS =
     bindIO (sendQueryWithRDECS E cfg nsIP name qtype qclass True True clientECS) (\<lambda>r. case r of
       Inl e \<Rightarrow> retIO (Inl e)
     | Inr msg \<Rightarrow>
         if RCODE (msgHeader msg) = RCodeFormErr
         then sendQueryWithRDECS E cfg nsIP name qtype qclass True False None
         else retIO (Inr msg))"

definition sendForwardQueryECS :: "Env \<Rightarrow> ResolverConfig \<Rightarrow> string \<Rightarrow> string \<Rightarrow> u16 \<Rightarrow> u16 \<Rightarrow> ECSOption option \<Rightarrow> (string + Message) io" where
  "sendForwardQueryECS E cfg nsIP name qtype qclass clientECS =
     bindIO (modIO (\<lambda>s. s\<lparr>upstreamQueries := upstreamQueries s + 1\<rparr>)) (\<lambda>_.
       retryLoop (retriesOf cfg) (sendForwardQueryOnceECS E cfg nsIP name qtype qclass clientECS) [])"

text \<open>The result a forwarder's reply gives.\<close>

definition forwardResult :: "ResolverConfig \<Rightarrow> Message \<Rightarrow> ResolveResult" where
  "forwardResult cfg msg =
     \<lparr>resAnswers = Answers msg, resAuthority = Authority msg, resAdditional = Additional msg,
      resRCODE = RCODE (msgHeader msg),
      resStatus = (if DNSSECEnabled cfg \<and> AD (msgHeader msg) then ''secure'' else []),
      resError = None, UpstreamECS = extractResponseECS msg\<rparr>"

fun queryForwardECS :: "Env \<Rightarrow> ResolverConfig \<Rightarrow> string list \<Rightarrow> string option \<Rightarrow> string \<Rightarrow> u16 \<Rightarrow> u16 \<Rightarrow> ECSOption option \<Rightarrow> (string + ResolveResult) io" where
  "queryForwardECS E cfg [] lastErr name qtype qclass clientECS =
     (case lastErr of Some e \<Rightarrow> retIO (Inl e) | None \<Rightarrow> retIO (Inr (resultOf RCodeServFail)))"
| "queryForwardECS E cfg (addr # addrs) lastErr name qtype qclass clientECS =
     bindIO (sendForwardQueryECS E cfg addr name qtype qclass clientECS) (\<lambda>r. case r of
       Inl e \<Rightarrow> queryForwardECS E cfg addrs (Some e) name qtype qclass clientECS
     | Inr msg \<Rightarrow> retIO (Inr (forwardResult cfg msg)))"

section \<open>Fallback resolvers (fallback.go)\<close>

text \<open>The ring of fallback events and its callback are not modelled.\<close>

definition queryFallback :: "Env \<Rightarrow> ResolverConfig \<Rightarrow> string \<Rightarrow> u16 \<Rightarrow> u16 \<Rightarrow> ResolveResult option io" where
  "queryFallback E cfg name qtype qclass =
     (if FallbackResolvers cfg = [] then retIO None
      else bindIO (readIO (\<lambda>n. FallbackResolvers cfg ! (randIndex E n (length (FallbackResolvers cfg)) mod length (FallbackResolvers cfg)))) (\<lambda>addr.
           bindIO (modIO (\<lambda>s. s\<lparr>fallbackQueries := fallbackQueries s + 1\<rparr>)) (\<lambda>_.
           bindIO (sendForwardQueryOnceECS E cfg addr name qtype qclass None) (\<lambda>r. case r of
             Inl e \<Rightarrow> retIO None
           | Inr msg \<Rightarrow>
               if RCODE (msgHeader msg) = RCodeServFail then retIO None
               else bindIO (modIO (\<lambda>s. s\<lparr>fallbackRecoveries := fallbackRecoveries s + 1\<rparr>)) (\<lambda>_.
                    retIO (Some ((forwardResult cfg msg)\<lparr>UpstreamECS := None\<rparr>)))))))"

definition shouldFallback :: "string + ResolveResult option \<Rightarrow> bool" where
  "shouldFallback res =
     (case res of
        Inl e \<Rightarrow> True
      | Inr None \<Rightarrow> True
      | Inr (Some result) \<Rightarrow>
          if resError result \<noteq> None then True
          else if resRCODE result \<noteq> RCodeServFail then False
          else if resStatus result = ''bogus'' then False
          else True)"

end
