(* ===== verification/Resolver_Iter.thy ===== *)
theory Resolver_Iter
  imports Resolver_Upstream
begin

text \<open>
  The iterative resolver (\<open>resolver.go\<close>).  \<open>resolveIterativeFromInner\<close> is a loop that follows
  referrals, and it calls itself for the target of a CNAME or DNAME; here one turn of the loop is
  \<open>resolveStep\<close>, the loop with those calls is \<open>resolveLoop\<close>.  To find the address of a name server
  without glue the loop starts a new resolution; the nesting of these is not bounded in the code, so
  the depth of nesting is the argument of \<open>resolveInner\<close>, which does not return (\<open>None\<close>) when it is used up.

  The functions that ask another server are arguments: \<open>ask\<close> stands for \<open>queryUpstreamECS\<close>, which is
  what \<open>ResolveWithECS\<close> passes, and \<open>ora\<close> for \<open>resolveNSAddr\<close>.  The validator is a field of the resolver;
  it may read and change the state.
\<close>

datatype ValidationResult = Secure | Insecure | Bogus | Indeterminate

record visitedSet =
  visNS :: "string list"
  visCNAME :: "string list"

definition newVisitedSet :: visitedSet where
  "newVisitedSet = \<lparr>visNS = [], visCNAME = []\<rparr>"

definition Has :: "visitedSet \<Rightarrow> string \<Rightarrow> bool" where
  "Has v key \<longleftrightarrow> key \<in> set (visNS v)"

definition Add :: "visitedSet \<Rightarrow> string \<Rightarrow> visitedSet" where
  "Add v key = v\<lparr>visNS := List.insert key (visNS v)\<rparr>"

definition HasCNAME :: "visitedSet \<Rightarrow> string \<Rightarrow> bool" where
  "HasCNAME v name \<longleftrightarrow> ToLower name \<in> set (visCNAME v)"

definition AddCNAME :: "visitedSet \<Rightarrow> string \<Rightarrow> visitedSet" where
  "AddCNAME v name = v\<lparr>visCNAME := List.insert (ToLower name) (visCNAME v)\<rparr>"

type_synonym upstream = "string \<Rightarrow> string \<Rightarrow> u16 \<Rightarrow> u16 \<Rightarrow> ECSOption option \<Rightarrow> (string + Message) io"
type_synonym nsResolver = "string \<Rightarrow> u16 \<Rightarrow> (string + ResolveResult) io"

record Resolver =
  config :: ResolverConfig
  rootServers :: "NameServer list"
  dnssecValidator :: "(Message \<Rightarrow> string \<Rightarrow> u16 \<Rightarrow> ValidationResult io) option"
  localZones :: "LocalZoneTable option"
  forwardTable :: "ForwardTable option"
  env :: Env

section \<open>DNSSEC status\<close>

definition verdictToStatus :: "ValidationResult \<Rightarrow> string" where
  "verdictToStatus v = (case v of Secure \<Rightarrow> ''secure'' | Bogus \<Rightarrow> ''bogus'' | _ \<Rightarrow> ''insecure'')"

definition combineDNSSECStatus :: "string \<Rightarrow> string \<Rightarrow> string" where
  "combineDNSSECStatus a b =
     (if a = ''bogus'' \<or> b = ''bogus'' then ''bogus''
      else if a = ''secure'' \<and> b = ''secure'' then ''secure''
      else if a = [] then b
      else if b = [] then a
      else ''insecure'')"

definition countVerdict :: "ValidationResult \<Rightarrow> RState \<Rightarrow> RState" where
  "countVerdict v s =
     (case v of
        Secure \<Rightarrow> s\<lparr>dnssecSecure := dnssecSecure s + 1\<rparr>
      | Insecure \<Rightarrow> s\<lparr>dnssecInsecure := dnssecInsecure s + 1\<rparr>
      | Bogus \<Rightarrow> s\<lparr>dnssecBogus := dnssecBogus s + 1\<rparr>
      | Indeterminate \<Rightarrow> s)"

definition validateDenialIfEnabled :: "Resolver \<Rightarrow> Message \<Rightarrow> string \<Rightarrow> u16 \<Rightarrow> bool \<Rightarrow> string io" where
  "validateDenialIfEnabled R response name qtype skip =
     (case dnssecValidator R of
        None \<Rightarrow> retIO []
      | Some val \<Rightarrow>
          if skip then retIO []
          else bindIO (val response name qtype) (\<lambda>v.
               bindIO (modIO (countVerdict v)) (\<lambda>_. retIO (verdictToStatus v))))"

text \<open>The verdict on a CNAME or DNAME: \<open>Insecure\<close> unless validated; only \<open>Bogus\<close> is counted.\<close>

definition redirectVerdict :: "Resolver \<Rightarrow> Message \<Rightarrow> string \<Rightarrow> u16 \<Rightarrow> bool \<Rightarrow> ValidationResult io" where
  "redirectVerdict R response name t skip =
     (case dnssecValidator R of
        None \<Rightarrow> retIO Insecure
      | Some val \<Rightarrow>
          if skip then retIO Insecure
          else bindIO (val response name t) (\<lambda>v.
               if v = Bogus then bindIO (modIO (countVerdict Bogus)) (\<lambda>_. retIO Bogus) else retIO v))"

section \<open>Choosing a name server\<close>

definition firstParsed :: "(bytes \<Rightarrow> IP dns) \<Rightarrow> ResourceRecord list \<Rightarrow> IP option" where
  "firstParsed parse rrs = List.find (\<lambda>_. True) (List.map_filter (\<lambda>rr. okOf (parse (rrRData rr))) rrs)"

fun cachedAddr :: "Env \<Rightarrow> u16 \<Rightarrow> (bytes \<Rightarrow> IP dns) \<Rightarrow> nsEntry list \<Rightarrow> (string \<times> string) option io" where
  "cachedAddr E t parse [] = retIO None"
| "cachedAddr E t parse (ns # rest) =
     bindIO (readIO (clock E)) (\<lambda>now s.
       case Get now (rsCache s) (hostname ns) t ClassIN of
         (None, c) \<Rightarrow> cachedAddr E t parse rest (s\<lparr>rsCache := c\<rparr>)
       | (Some entry, c) \<Rightarrow>
           (case firstParsed parse (Records entry) of
              Some ip \<Rightarrow> Some (Some (hostname ns, IP_String ip), s\<lparr>rsCache := c\<rparr>)
            | None \<Rightarrow> cachedAddr E t parse rest (s\<lparr>rsCache := c\<rparr>)))"

definition addrFromResult :: "string \<Rightarrow> u16 \<Rightarrow> (bytes \<Rightarrow> IP dns) \<Rightarrow> string + ResolveResult \<Rightarrow> string option" where
  "addrFromResult host t parse r =
     (case r of
        Inl e \<Rightarrow> None
      | Inr result \<Rightarrow>
          if nsHasCNAMERedirect host (resAnswers result) then None
          else map_option IP_String (firstParsed parse (filter (\<lambda>rr. rrType rr = t) (resAnswers result))))"

fun resolvePass :: "nsResolver \<Rightarrow> bool \<Rightarrow> string \<Rightarrow> nsEntry list \<Rightarrow> (string \<times> string) option io" where
  "resolvePass ora inBailiwick zone [] = retIO None"
| "resolvePass ora inBailiwick zone (ns # rest) =
     (if InZone (hostname ns) zone \<noteq> inBailiwick then resolvePass ora inBailiwick zone rest
      else bindIO (ora (hostname ns) TypeA) (\<lambda>r.
           case addrFromResult (hostname ns) TypeA ParseA r of
             Some ip \<Rightarrow> retIO (Some (hostname ns, ip))
           | None \<Rightarrow>
               bindIO (ora (hostname ns) TypeAAAA) (\<lambda>r.
               case addrFromResult (hostname ns) TypeAAAA ParseAAAA r of
                 Some ip \<Rightarrow> retIO (Some (hostname ns, ip))
               | None \<Rightarrow> resolvePass ora inBailiwick zone rest)))"

text \<open>The first computation that yields an address.\<close>

fun orElseIO :: "'a option io \<Rightarrow> 'a option io \<Rightarrow> 'a option io" where
  "orElseIO m m' = bindIO m (\<lambda>r. case r of Some a \<Rightarrow> retIO (Some a) | None \<Rightarrow> m')"

definition selectAndResolveNS :: "Resolver \<Rightarrow> nsResolver \<Rightarrow> nsEntry list \<Rightarrow> string \<Rightarrow> (string + (string \<times> string)) io" where
  "selectAndResolveNS R ora nameservers currentZone = (\<lambda>s.
     let shuffled = SortByRTT (rsInfra s) nameservers in
     case List.find (\<lambda>ns. ipv4 ns \<noteq> []) shuffled of
       Some ns \<Rightarrow> Some (Inr (hostname ns, ipv4 ns), s)
     | None \<Rightarrow>
        (case (if PreferIPv4 (config R) then None else List.find (\<lambda>ns. ipv6 ns \<noteq> []) shuffled) of
           Some ns \<Rightarrow> Some (Inr (hostname ns, ipv6 ns), s)
         | None \<Rightarrow>
             bindIO (orElseIO (cachedAddr (env R) TypeA ParseA shuffled)
                    (orElseIO (cachedAddr (env R) TypeAAAA ParseAAAA shuffled)
                    (orElseIO (resolvePass ora False currentZone shuffled)
                              (resolvePass ora True currentZone shuffled)))) (\<lambda>r.
               case r of Some a \<Rightarrow> retIO (Inr a) | None \<Rightarrow> retIO (Inl ''no reachable nameserver'')) s))"

section \<open>Caching what a referral says\<close>

definition storeIO :: "Env \<Rightarrow> string \<Rightarrow> u16 \<Rightarrow> u16 \<Rightarrow> ResourceRecord list \<Rightarrow> ResourceRecord list \<Rightarrow> unit io" where
  "storeIO E name qtype qclass answers auth =
     bindIO (readIO (clock E)) (\<lambda>now. cacheIO (\<lambda>c. Store now c name qtype qclass answers auth))"

definition storeNegativeIO :: "Env \<Rightarrow> string \<Rightarrow> u16 \<Rightarrow> u16 \<Rightarrow> NegativeType \<Rightarrow> u8 \<Rightarrow> ResourceRecord list \<Rightarrow> unit io" where
  "storeNegativeIO E name qtype qclass neg rcode auth =
     bindIO (readIO (clock E)) (\<lambda>now. cacheIO (\<lambda>c. StoreNegative now c name qtype qclass neg rcode auth))"

definition cacheDelegation :: "Env \<Rightarrow> Message \<Rightarrow> string \<Rightarrow> unit io" where
  "cacheDelegation E response zone =
     (let nsAndSigs = filter (\<lambda>rr. ToLower (rrName rr) = ToLower zone \<and>
                                  (rrType rr = TypeNS \<or> rrsigCovering (\<lambda>t. t = TypeNS) rr)) (Authority response)
      in if list_ex (\<lambda>rr. rrType rr = TypeNS) nsAndSigs then storeIO E zone TypeNS ClassIN nsAndSigs [] else retIO ())"

definition glueRR :: "string \<Rightarrow> u16 \<Rightarrow> u32 \<Rightarrow> bytes \<Rightarrow> ResourceRecord" where
  "glueRR host t ttl ip = \<lparr>rrName = host, rrType = t, rrClass = ClassIN, rrTTL = ttl,
     rrRDLength = of_nat (length ip), rrRData = ip, rrRDataOffset = 0\<rparr>"

fun cacheGlue :: "Env \<Rightarrow> DelegationNS list \<Rightarrow> unit io" where
  "cacheGlue E [] = retIO ()"
| "cacheGlue E (d # ds) =
     bindIO (if IPv4 d \<noteq> [] then
               (case parseIPv4Bytes (IPv4 d) of
                  Some ip \<Rightarrow> storeIO E (Hostname d) TypeA ClassIN [glueRR (Hostname d) TypeA (IPv4TTL d) ip] []
                | None \<Rightarrow> retIO ())
             else retIO ()) (\<lambda>_.
     bindIO (if IPv6 d \<noteq> [] then
               (case ParseIP (IPv6 d) of
                  Some ip \<Rightarrow> storeIO E (Hostname d) TypeAAAA ClassIN [glueRR (Hostname d) TypeAAAA (IPv6TTL d) ip] []
                | None \<Rightarrow> retIO ())
             else retIO ()) (\<lambda>_. cacheGlue E ds))"

section \<open>One turn of the loop\<close>

text \<open>The turn ends the resolution, or the loop goes on, or it is redirected to another name.\<close>

datatype stepResult =
    Done "string + ResolveResult"
  | Continue "nsEntry list" string "string option"
  | Redirect string "ResourceRecord list" string

definition servFail :: "string option \<Rightarrow> ResolveResult" where
  "servFail err = (resultOf RCodeServFail)\<lparr>resError := err\<rparr>"

definition bogusResult :: ResolveResult where
  "bogusResult = (resultOf RCodeServFail)\<lparr>resStatus := ''bogus''\<rparr>"

text \<open>A server that failed is dropped; with none left the resolution ends.\<close>

definition dropServer :: "nsEntry list \<Rightarrow> string \<Rightarrow> string \<Rightarrow> string option \<Rightarrow> string option \<Rightarrow> stepResult" where
  "dropServer nameservers nsIP zone endErr lastErr =
     (let rest = removeNSByIP nameservers nsIP in
      if length rest = 0 then Done (Inr (servFail endErr)) else Continue rest zone lastErr)"

definition onAnswer :: "Resolver \<Rightarrow> Message \<Rightarrow> string \<Rightarrow> u16 \<Rightarrow> bool \<Rightarrow> stepResult io" where
  "onAnswer R response name qtype skip =
     (let result = \<lparr>resAnswers = Answers response, resAuthority = Authority response, resAdditional = Additional response,
                    resRCODE = RCodeNoError, resStatus = [], resError = None, UpstreamECS = extractResponseECS response\<rparr>
      in bindIO (validateDenialIfEnabled R response name qtype skip) (\<lambda>status.
         retIO (Done (Inr (if status = ''bogus'' then bogusResult else result\<lparr>resStatus := status\<rparr>)))))"

definition onCNAME :: "Resolver \<Rightarrow> Message \<Rightarrow> string \<Rightarrow> u16 \<Rightarrow> bool \<Rightarrow> visitedSet \<Rightarrow> (stepResult \<times> visitedSet) io" where
  "onCNAME R response name qclass skip visited =
     (let target = extractCNAMETarget response name in
      if target = [] then retIO (Done (Inr (servFail None)), visited)
      else if HasCNAME visited target then retIO (Done (Inr (servFail None)), visited)
      else (let visited = AddCNAME visited target in
            bindIO (redirectVerdict R response name TypeCNAME skip) (\<lambda>v.
            if v = Bogus then retIO (Done (Inr bogusResult), visited)
            else (let rrs = extractCNAMERecords response name in
                  bindIO (if 0 < length rrs then storeIO (env R) name TypeCNAME qclass rrs [] else retIO ()) (\<lambda>_.
                  retIO (Redirect target rrs (verdictToStatus v), visited))))))"

definition onDNAME :: "Resolver \<Rightarrow> Message \<Rightarrow> string \<Rightarrow> bool \<Rightarrow> visitedSet \<Rightarrow> (stepResult \<times> visitedSet) io" where
  "onDNAME R response name skip visited =
     (let target = extractDNAMETarget response name in
      if target = [] then retIO (Done (Inr (servFail None)), visited)
      else if HasCNAME visited target then retIO (Done (Inr (servFail None)), visited)
      else (let visited = AddCNAME visited target in
            bindIO (redirectVerdict R response name TypeDNAME skip) (\<lambda>v.
            if v = Bogus then retIO (Done (Inr bogusResult), visited)
            else (let rrs = filter (\<lambda>rr. rrType rr = TypeDNAME \<or> rrType rr = TypeCNAME \<or>
                                         rrsigCovering (\<lambda>t. t = TypeDNAME \<or> t = TypeCNAME) rr) (Answers response)
                  in retIO (Redirect target rrs (verdictToStatus v), visited)))))"

definition onReferral :: "Resolver \<Rightarrow> Message \<Rightarrow> string option \<Rightarrow> stepResult io" where
  "onReferral R response lastErr =
     (case extractDelegation response of
        (newNS, zone) \<Rightarrow>
          if length newNS = 0 then retIO (Done (Inr (servFail None)))
          else bindIO (cacheDelegation (env R) response zone) (\<lambda>_.
               bindIO (cacheGlue (env R) newNS) (\<lambda>_.
               retIO (Continue (delegationToNSList newNS) zone lastErr))))"

definition onNegative :: "Resolver \<Rightarrow> Message \<Rightarrow> string \<Rightarrow> u16 \<Rightarrow> u16 \<Rightarrow> NegativeType \<Rightarrow> u8 \<Rightarrow> bool \<Rightarrow> stepResult io" where
  "onNegative R response name qtype qclass neg rcode skip =
     bindIO (validateDenialIfEnabled R response name qtype skip) (\<lambda>status.
     if status = ''bogus'' then retIO (Done (Inr bogusResult))
     else bindIO (storeNegativeIO (env R) name qtype qclass neg rcode (Authority response)) (\<lambda>_.
          retIO (Done (Inr ((resultOf rcode)\<lparr>resAuthority := Authority response, resStatus := status,
                                             UpstreamECS := extractResponseECS response\<rparr>)))))"

definition handleResponse ::
  "Resolver \<Rightarrow> Message \<Rightarrow> responseType \<Rightarrow> string \<Rightarrow> u16 \<Rightarrow> u16 \<Rightarrow> visitedSet \<Rightarrow> nsEntry list \<Rightarrow> string \<Rightarrow> string \<Rightarrow> bool \<Rightarrow> string option
     \<Rightarrow> (stepResult \<times> visitedSet) io" where
  "handleResponse R response rtype name qtype qclass visited nameservers nsIP zone skip lastErr =
     (let same = (\<lambda>m. bindIO m (\<lambda>r. retIO (r, visited))) in
      case rtype of
        responseAnswer \<Rightarrow> same (onAnswer R response name qtype skip)
      | responseCNAME \<Rightarrow> onCNAME R response name qclass skip visited
      | responseDNAME \<Rightarrow> onDNAME R response name skip visited
      | responseReferral \<Rightarrow> same (onReferral R response lastErr)
      | responseNXDomain \<Rightarrow> same (onNegative R response name qtype qclass NegNXDomain RCodeNXDomain skip)
      | responseNoData \<Rightarrow> same (onNegative R response name qtype qclass NegNoData RCodeNoError skip)
      | responseServFail \<Rightarrow> same (retIO (dropServer nameservers nsIP zone None lastErr)))"

text \<open>The question with the full name, asked again when a minimised one brought no referral.\<close>

definition askFull ::
  "upstream \<Rightarrow> string \<Rightarrow> string \<Rightarrow> u16 \<Rightarrow> u16 \<Rightarrow> string \<Rightarrow> ECSOption option \<Rightarrow> (string + (Message \<times> responseType)) io" where
  "askFull ask nsIP name qtype qclass zone ecs =
     bindIO (ask nsIP name qtype qclass ecs) (\<lambda>r. case r of
       Inl e \<Rightarrow> retIO (Inl e)
     | Inr response \<Rightarrow> (let response = SanitizeBailiwick response zone in
                        retIO (Inr (response, classifyResponse response name qtype))))"

definition resolveStep ::
  "Resolver \<Rightarrow> nsResolver \<Rightarrow> upstream \<Rightarrow> string \<Rightarrow> u16 \<Rightarrow> u16 \<Rightarrow> visitedSet \<Rightarrow> nsEntry list \<Rightarrow> string \<Rightarrow> bool \<Rightarrow> ECSOption option
     \<Rightarrow> string option \<Rightarrow> (stepResult \<times> visitedSet) io" where
  "resolveStep R ora ask name qtype qclass visited nameservers zone skip ecs lastErr =
     bindIO (selectAndResolveNS R ora nameservers zone) (\<lambda>sel. case sel of
       Inl e \<Rightarrow> retIO (Done (Inr (servFail (Some e))), visited)
     | Inr (_, nsIP) \<Rightarrow>
       (let queryKey = nsIP @ ''|'' @ name @ ''|'' @ zone in
        if Has visited queryKey then retIO (Done (Inr (servFail (Some ''loop detected''))), visited)
        else (let visited = Add visited queryKey;
                  (queryName, queryType) = (if QMinEnabled (config R) then minimizeQName name qtype zone else (name, qtype)) in
          bindIO (readIO (clock (env R))) (\<lambda>queryStart.
          bindIO (ask nsIP queryName queryType qclass ecs) (\<lambda>r. case r of
            Inl e \<Rightarrow>
              bindIO (readIO (clock (env R))) (\<lambda>now.
              bindIO (modIO (\<lambda>s. s\<lparr>rsInfra := RecordFailure now nsIP (rsInfra s)\<rparr>)) (\<lambda>_.
              retIO (dropServer nameservers nsIP zone (Some e) (Some e), visited)))
          | Inr response \<Rightarrow>
              bindIO (readIO (clock (env R))) (\<lambda>now.
              bindIO (modIO (\<lambda>s. s\<lparr>rsInfra := RecordRTT (rndFloat (env R)) now nsIP (int now - int queryStart) (rsInfra s)\<rparr>)) (\<lambda>_.
              let response = SanitizeBailiwick response zone;
                  rtype = classifyResponse response queryName queryType;
                  minimized = (queryName \<noteq> name \<or> queryType \<noteq> qtype) in
              bindIO (if QMinEnabled (config R) \<and> minimized \<and> rtype \<noteq> responseReferral
                      then askFull ask nsIP name qtype qclass zone ecs
                      else retIO (Inr (response, rtype))) (\<lambda>r. case r of
                Inl e \<Rightarrow> retIO (dropServer nameservers nsIP zone (Some e) (Some e), visited)
              | Inr (response, rtype) \<Rightarrow>
                  handleResponse R response rtype name qtype qclass visited nameservers nsIP zone skip lastErr))))))))"

section \<open>The loop\<close>

definition prependRedirect :: "ResourceRecord list \<Rightarrow> string \<Rightarrow> string + ResolveResult \<Rightarrow> string + ResolveResult" where
  "prependRedirect rrs status r =
     (case r of
        Inl e \<Rightarrow> Inl e
      | Inr result \<Rightarrow> Inr (result\<lparr>resAnswers := rrs @ resAnswers result,
                                   resStatus := combineDNSSECStatus status (resStatus result)\<rparr>))"

abbreviation roots :: "Resolver \<Rightarrow> nsEntry list" where
  "roots R \<equiv> toNameServerList (rootServers R)"

lemma bindIO_cong [fundef_cong]:
  "m = m' \<Longrightarrow> (\<And>a. f a = f' a) \<Longrightarrow> bindIO m f = bindIO m' f'"
proof -
  assume "m = m'" and "\<And>a. f a = f' a"
  then have "m = m'" "f = f'" by auto
  then show ?thesis by simp
qed

function resolveLoop ::
  "Resolver \<Rightarrow> nsResolver \<Rightarrow> upstream \<Rightarrow> string \<Rightarrow> u16 \<Rightarrow> u16 \<Rightarrow> int \<Rightarrow> visitedSet \<Rightarrow> nsEntry list \<Rightarrow> string \<Rightarrow> bool \<Rightarrow> ECSOption option
     \<Rightarrow> int \<Rightarrow> string option \<Rightarrow> (string + ResolveResult) io" where
  "resolveLoop R ora ask name qtype qclass cnameDepth visited nameservers zone skip ecs depth lastErr =
     (if depth < MaxDepth (config R) then
        bindIO (resolveStep R ora ask name qtype qclass visited nameservers zone skip ecs lastErr) (\<lambda>p.
          case fst p of
            Done r \<Rightarrow> retIO r
          | Continue nameservers zone lastErr \<Rightarrow>
              resolveLoop R ora ask name qtype qclass cnameDepth (snd p) nameservers zone skip ecs (depth + 1) lastErr
          | Redirect target rrs status \<Rightarrow>
              bindIO (if MaxCNAMEDepth (config R) < cnameDepth + 1 then retIO (Inl ''CNAME chain too long'')
                      else resolveLoop R ora ask target qtype qclass (cnameDepth + 1) (snd p) (roots R) [] skip ecs 0 None)
                (\<lambda>r. retIO (prependRedirect rrs status r)))
      else retIO (Inr (servFail lastErr)))"
  by pat_completeness auto
termination
  by (relation "measures [\<lambda>(R, _, _, _, _, _, cd, _). nat (MaxCNAMEDepth (config R) + 1 - cd),
                          \<lambda>(R, _, _, _, _, _, _, _, _, _, _, _, depth, _). nat (MaxDepth (config R) - depth)]") auto

declare resolveLoop.simps [simp del]

definition resolveIterativeFromInner ::
  "Resolver \<Rightarrow> nsResolver \<Rightarrow> upstream \<Rightarrow> string \<Rightarrow> u16 \<Rightarrow> u16 \<Rightarrow> int \<Rightarrow> visitedSet \<Rightarrow> nsEntry list \<Rightarrow> string \<Rightarrow> bool \<Rightarrow> ECSOption option
     \<Rightarrow> (string + ResolveResult) io" where
  "resolveIterativeFromInner R ora ask name qtype qclass cnameDepth visited initialNS initialZone skip ecs =
     (if MaxCNAMEDepth (config R) < cnameDepth then retIO (Inl ''CNAME chain too long'')
      else resolveLoop R ora ask name qtype qclass cnameDepth visited initialNS initialZone skip ecs 0 None)"

text \<open>Nested resolutions of name-server addresses (\<open>resolveNSAddr\<close>), ask to a depth of nesting.\<close>

primrec resolveInner ::
  "nat \<Rightarrow> Resolver \<Rightarrow> upstream \<Rightarrow> string \<Rightarrow> u16 \<Rightarrow> u16 \<Rightarrow> nsEntry list \<Rightarrow> string \<Rightarrow> bool \<Rightarrow> ECSOption option \<Rightarrow> (string + ResolveResult) io" where
  "resolveInner 0 R ask name qtype qclass ns zone skip ecs = (\<lambda>s. None)"
| "resolveInner (Suc n) R ask name qtype qclass ns zone skip ecs =
     resolveIterativeFromInner R
       (\<lambda>host t. resolveInner n R ask (ToLower (TrimSuffix host ''.'')) t ClassIN (roots R) [] False None)
       ask name qtype qclass 0 newVisitedSet ns zone skip ecs"

end
