(* ===== verification/Resolver_Top.thy ===== *)
theory Resolver_Top
  imports Resolver_Iter
begin

text \<open>
  The entry points of the resolver (\<open>resolver.go\<close>, \<open>dns64.go\<close>, \<open>forward.go\<close>).  The argument \<open>n\<close>
  is the depth of nested name-server resolutions that \<open>resolveInner\<close> may use.  The coalescer is
  transparent to a single caller (its own behaviour is in the theory of \<open>inflight.go\<close>), so
  \<open>inflight.do(key, fn)\<close> is \<open>fn()\<close> here, except that it would turn a panic into an error.
\<close>

abbreviation upstreamOf :: "Resolver \<Rightarrow> upstream" where
  "upstreamOf R \<equiv> queryUpstreamECS (env R) (config R)"

text \<open>A new resolver; the validator, the local zones and the forward table are set later.\<close>

definition NewResolver :: "ResolverConfig \<Rightarrow> Env \<Rightarrow> Resolver" where
  "NewResolver cfg E = \<lparr>config = cfg, rootServers = RootServers, dnssecValidator = None, localZones = None, forwardTable = None, env = E\<rparr>"

definition SetForwardTable :: "ForwardTable \<Rightarrow> Resolver \<Rightarrow> Resolver" where
  "SetForwardTable ft R = R\<lparr>forwardTable := Some ft\<rparr>"

definition SetLocalZones :: "LocalZoneTable \<Rightarrow> Resolver \<Rightarrow> Resolver" where
  "SetLocalZones lz R = R\<lparr>localZones := Some lz\<rparr>"

definition resolveIterativeECS :: "nat \<Rightarrow> Resolver \<Rightarrow> string \<Rightarrow> u16 \<Rightarrow> u16 \<Rightarrow> ECSOption option \<Rightarrow> (string + ResolveResult) io" where
  "resolveIterativeECS n R name qtype qclass ecs = resolveInner n R (upstreamOf R) name qtype qclass (roots R) [] False ecs"

definition resolveIterative :: "nat \<Rightarrow> Resolver \<Rightarrow> string \<Rightarrow> u16 \<Rightarrow> u16 \<Rightarrow> (string + ResolveResult) io" where
  "resolveIterative n R name qtype qclass = resolveIterativeECS n R name qtype qclass None"

definition resolveStubECS :: "nat \<Rightarrow> Resolver \<Rightarrow> string \<Rightarrow> u16 \<Rightarrow> u16 \<Rightarrow> ForwardZone \<Rightarrow> ECSOption option \<Rightarrow> (string + ResolveResult) io" where
  "resolveStubECS n R name qtype qclass fz ecs =
     resolveInner n R (upstreamOf R) name qtype qclass
       (map (\<lambda>addr. \<lparr>hostname = ''stub-ns-'' @ addr, ipv4 = addr, ipv6 = []\<rparr>) (Addrs fz)) (fzName fz) False ecs"

section \<open>DNS64 (dns64.go)\<close>

text \<open>
  The number of leading ones of a canonical mask, and its length in bits; \<open>(0, 0)\<close> for one
  that is not canonical.  A \<open>/96\<close> network whose address had not 16 bytes would make
  \<open>SynthesizeAAAA\<close> panic; \<open>ParseCIDR\<close> makes none, and the model answers \<open>None\<close>.
\<close>

definition maskBits :: "bytes \<Rightarrow> bool list" where
  "maskBits m = concat (map (\<lambda>b. map (\<lambda>i. bit b (7 - i)) [0..<8]) m)"

definition maskSize :: "bytes \<Rightarrow> nat \<times> nat" where
  "maskSize m =
     (let bs = maskBits m; ones = length (takeWhile id bs) in
      if list_ex id (drop ones bs) then (0, 0) else (ones, length bs))"

definition SynthesizeAAAA :: "IP \<Rightarrow> IPNet \<Rightarrow> IP option" where
  "SynthesizeAAAA addr pfx =
     (case To4 addr of
        None \<Rightarrow> None
      | Some v4 \<Rightarrow>
          if maskSize (netMask pfx) \<noteq> (96, 128) then None
          else (case To16 (netIP pfx) of None \<Rightarrow> None | Some p \<Rightarrow> Some (take 12 p @ v4)))"

definition ParseDNS64Prefix :: "string \<Rightarrow> IPNet option" where
  "ParseDNS64Prefix text = map_option snd (ParseCIDR text)"

definition synthRecord :: "IPNet \<Rightarrow> ResourceRecord \<Rightarrow> ResourceRecord option" where
  "synthRecord pfx rr =
     (if rrType rr \<noteq> TypeA then None
      else (case okOf (ParseA (rrRData rr)) of
              None \<Rightarrow> None
            | Some v4 \<Rightarrow>
                (case SynthesizeAAAA v4 pfx of
                   None \<Rightarrow> None
                 | Some synth \<Rightarrow> Some \<lparr>rrName = rrName rr, rrType = TypeAAAA, rrClass = rrClass rr, rrTTL = rrTTL rr,
                                        rrRDLength = 16, rrRData = synth, rrRDataOffset = 0\<rparr>)))"

definition dns64Synthesize :: "nat \<Rightarrow> Resolver \<Rightarrow> string \<Rightarrow> u16 \<Rightarrow> ResolveResult \<Rightarrow> IPNet \<Rightarrow> (string + ResolveResult) io" where
  "dns64Synthesize n R name qclass original pfx =
     bindIO (resolveIterative n R name TypeA qclass) (\<lambda>r. case r of
       Inl e \<Rightarrow> retIO (Inr original)
     | Inr aResult \<Rightarrow>
         if resRCODE aResult \<noteq> RCodeNoError \<or> length (resAnswers aResult) = 0 then retIO (Inr original)
         else (let synth = List.map_filter (synthRecord pfx) (resAnswers aResult) in
               if length synth = 0 then retIO (Inr original)
               else retIO (Inr ((resultOf RCodeNoError)\<lparr>resAnswers := synth, resAuthority := resAuthority aResult\<rparr>))))"

section \<open>ResolveWithECS\<close>

text \<open>Resolution proper: forward zone, stub zone or iteration from the roots.\<close>

definition resolvePrimary :: "nat \<Rightarrow> Resolver \<Rightarrow> string \<Rightarrow> u16 \<Rightarrow> u16 \<Rightarrow> ECSOption option \<Rightarrow> (string + ResolveResult) io" where
  "resolvePrimary n R name qtype qclass ecs =
     (case Match (forwardTable R) name of
        Some fz \<Rightarrow>
          if \<not> IsStub fz then queryForwardECS (env R) (config R) (Addrs fz) None name qtype qclass ecs
          else resolveStubECS n R name qtype qclass fz ecs
      | None \<Rightarrow> resolveIterativeECS n R name qtype qclass ecs)"

definition ResolveWithECS :: "nat \<Rightarrow> Resolver \<Rightarrow> string \<Rightarrow> u16 \<Rightarrow> u16 \<Rightarrow> ECSOption option \<Rightarrow> (string + ResolveResult) io" where
  "ResolveWithECS n R name qtype qclass ecs =
     (let name = ToLower (TrimSuffix name ''.'') in
      case (case localZones R of None \<Rightarrow> None | Some t \<Rightarrow> LocalLookup t name qtype qclass) of
        Some result \<Rightarrow> retIO (Inr result)
      | None \<Rightarrow>
          if specialUse name then retIO (Inr (resultOf RCodeNXDomain))
          else bindIO (resolvePrimary n R name qtype qclass ecs) (\<lambda>r.
            case r of
              Inr result \<Rightarrow>
                (if qtype = TypeAAAA \<and> resRCODE result = RCodeNoError \<and> length (resAnswers result) = 0 \<and> DNS64Enabled (config R)
                 then dns64Synthesize n R name qclass result (DNS64Prefix (config R))
                 else if shouldFallback (Inr (Some result))
                 then bindIO (queryFallback (env R) (config R) name qtype qclass) (\<lambda>fb.
                        case fb of Some fbResult \<Rightarrow> retIO (Inr fbResult) | None \<Rightarrow> retIO r)
                 else retIO r)
            | Inl e \<Rightarrow>
                bindIO (queryFallback (env R) (config R) name qtype qclass) (\<lambda>fb.
                  case fb of Some fbResult \<Rightarrow> retIO (Inr fbResult) | None \<Rightarrow> retIO r)))"

definition Resolve :: "nat \<Rightarrow> Resolver \<Rightarrow> string \<Rightarrow> u16 \<Rightarrow> u16 \<Rightarrow> (string + ResolveResult) io" where
  "Resolve n R name qtype qclass = ResolveWithECS n R name qtype qclass None"

section \<open>Queries of the validator and priming\<close>

definition dnssecMessage :: "string \<Rightarrow> u16 \<Rightarrow> u16 \<Rightarrow> u8 \<Rightarrow> ResourceRecord list \<Rightarrow> ResourceRecord list \<Rightarrow> ResourceRecord list \<Rightarrow> Message" where
  "dnssecMessage name qtype qclass rcode an au ad =
     \<lparr>msgHeader = \<lparr>ID = 0, Flags = Build (SetRCODE rcode (SetRA True (SetQR True NewFlagBuilder))), QDCount = 0, ANCount = 0, NSCount = 0, ARCount = 0\<rparr>,
      Questions = [\<lparr>qName = name, qType = qtype, qClass = qclass\<rparr>], Answers = an, Authority = au, Additional = ad, msgEDNS0 = None, Raw = []\<rparr>"

definition QueryDNSSEC :: "nat \<Rightarrow> Resolver \<Rightarrow> string \<Rightarrow> u16 \<Rightarrow> u16 \<Rightarrow> (string + Message) io" where
  "QueryDNSSEC n R name qtype qclass =
     (let nm = ToLower (TrimSuffix name ''.'') in
      bindIO (readIO (clock (env R))) (\<lambda>now s.
      case Get now (rsCache s) nm qtype qclass of
        (Some entry, c) \<Rightarrow> Some (Inr (dnssecMessage nm qtype qclass (entRCODE entry) (Records entry) (entAuthority entry) []), s\<lparr>rsCache := c\<rparr>)
      | (None, c) \<Rightarrow>
          bindIO (resolveInner n R (upstreamOf R) nm qtype qclass (roots R) [] True None) (\<lambda>r. case r of
            Inl e \<Rightarrow> retIO (Inl e)
          | Inr result \<Rightarrow>
              bindIO (if resRCODE result = RCodeNoError \<and> 0 < length (resAnswers result)
                      then storeIO (env R) nm qtype qclass (resAnswers result) (resAuthority result) else retIO ()) (\<lambda>_.
              retIO (Inr (dnssecMessage nm qtype qclass (resRCODE result) (resAnswers result) (resAuthority result) (resAdditional result)))))
            (s\<lparr>rsCache := c\<rparr>)))"

text \<open>\<open>PrimeRootHints\<close>: three attempts at a random root server; the pause between them is not modelled.\<close>

fun primeLoop :: "Resolver \<Rightarrow> nat \<Rightarrow> string option io" where
  "primeLoop R 0 = bindIO (modIO (\<lambda>s. s\<lparr>ready := True\<rparr>)) (\<lambda>_. retIO (Some ''root hint priming failed after 3 attempts''))"
| "primeLoop R (Suc k) =
     (if rootServers R = [] then panicIO
      else bindIO (readIO (\<lambda>n. rootServers R ! (randIndex (env R) n (length (rootServers R)) mod length (rootServers R)))) (\<lambda>ns.
           bindIO (queryUpstream (env R) (config R) (nsIPv4 ns) ''.'' TypeNS ClassIN) (\<lambda>r. case r of
             Inl e \<Rightarrow> primeLoop R k
           | Inr response \<Rightarrow>
               bindIO (if 0 < length (Answers response)
                       then storeIO (env R) ''.'' TypeNS ClassIN (Answers response) (Authority response) else retIO ()) (\<lambda>_.
               bindIO (modIO (\<lambda>s. s\<lparr>ready := True\<rparr>)) (\<lambda>_. retIO None)))))"

definition PrimeRootHints :: "Resolver \<Rightarrow> string option io" where
  "PrimeRootHints R = primeLoop R 3"

end
