(* ===== verification/Resolver_Logic.thy ===== *)
theory Resolver_Logic
  imports Resolver_Top Cache_Inv
begin

text \<open>
  Rules for computations of the resolver, in two forms: \<open>total m Q\<close> says that from every state
  with a sound cache \<open>m\<close> returns, with a result in \<open>Q\<close> and a sound cache; \<open>post m Q\<close> that whenever
  \<open>m\<close> returns, its result is in \<open>Q\<close>.
\<close>

definition total :: "'a io \<Rightarrow> ('a \<Rightarrow> bool) \<Rightarrow> bool" where
  "total m Q \<longleftrightarrow> (\<forall>s. cache_inv (rsCache s) \<longrightarrow> (\<exists>a s'. m s = Some (a, s') \<and> cache_inv (rsCache s') \<and> Q a))"

definition post :: "'a io \<Rightarrow> ('a \<Rightarrow> bool) \<Rightarrow> bool" where
  "post m Q \<longleftrightarrow> (\<forall>s a s'. m s = Some (a, s') \<longrightarrow> Q a)"

named_theorems total_rules
named_theorems post_rules

lemma total_ret [total_rules]: "Q a \<Longrightarrow> total (retIO a) Q"
  by (simp add: total_def retIO_def)

lemma total_bind: "total m P \<Longrightarrow> (\<And>a. P a \<Longrightarrow> total (f a) Q) \<Longrightarrow> total (bindIO m f) Q"
  unfolding total_def bindIO_def by (metis (no_types, lifting) case_prod_conv option.simps(5))

lemma total_bind_any [total_rules]: "total m (\<lambda>_. True) \<Longrightarrow> (\<And>a. total (f a) Q) \<Longrightarrow> total (bindIO m f) Q"
  by (rule total_bind) auto

lemma total_mod [total_rules]: "(\<And>s. rsCache (f s) = rsCache s) \<Longrightarrow> Q () \<Longrightarrow> total (modIO f) Q"
  by (simp add: total_def modIO_def)

lemma total_read [total_rules]: "(\<And>n. Q (f n)) \<Longrightarrow> total (readIO f) Q"
  by (simp add: total_def readIO_def)

lemma total_send [total_rules]: "(\<And>n. Q (f n)) \<Longrightarrow> total (sendIO f) Q"
  by (simp add: total_def sendIO_def)

lemma total_if [total_rules]: "(b \<Longrightarrow> total m Q) \<Longrightarrow> (\<not> b \<Longrightarrow> total m' Q) \<Longrightarrow> total (if b then m else m') Q"
  by simp

lemma total_option [total_rules]: "(x = None \<Longrightarrow> total m Q) \<Longrightarrow> (\<And>a. x = Some a \<Longrightarrow> total (f a) Q) \<Longrightarrow> total (case x of None \<Rightarrow> m | Some a \<Rightarrow> f a) Q"
  by (cases x) simp_all

lemma total_sum [total_rules]: "(\<And>a. x = Inl a \<Longrightarrow> total (f a) Q) \<Longrightarrow> (\<And>a. x = Inr a \<Longrightarrow> total (g a) Q) \<Longrightarrow> total (case x of Inl a \<Rightarrow> f a | Inr a \<Rightarrow> g a) Q"
  by (cases x) simp_all

lemma total_prod [total_rules]: "(\<And>a b. x = (a, b) \<Longrightarrow> total (f a b) Q) \<Longrightarrow> total (case x of (a, b) \<Rightarrow> f a b) Q"
  by (cases x) simp_all

lemma total_weaken: "total m P \<Longrightarrow> (\<And>a. P a \<Longrightarrow> Q a) \<Longrightarrow> total m Q"
  unfolding total_def by blast

lemma total_cache:
  assumes "\<And>c. cache_inv c \<Longrightarrow> \<exists>now. stores now c (f c)"
  shows "total (cacheIO f) (\<lambda>_. True)"
  unfolding total_def cacheIO_def
proof (intro allI impI)
  fix s :: RState assume inv: "cache_inv (rsCache s)"
  with assms obtain now where "stores now (rsCache s) (f (rsCache s))" by blast
  from stores_returns [OF inv this]
  show "\<exists>a s'. (case f (rsCache s) of None \<Rightarrow> None | Some c \<Rightarrow> Some ((), s\<lparr>rsCache := c\<rparr>)) = Some (a, s') \<and>
      cache_inv (rsCache s') \<and> True" by fastforce
qed

lemma total_store [total_rules]: "total (storeIO E name t c an au) (\<lambda>_. True)"
  unfolding storeIO_def by (rule total_bind_any; (rule total_read total_cache)?; blast intro: stores_all)

lemma total_storeNegative [total_rules]: "total (storeNegativeIO E name t c neg rc au) (\<lambda>_. True)"
  unfolding storeNegativeIO_def by (rule total_bind_any; (rule total_read total_cache)?; blast intro: stores_all)

lemma total_cachedAddr [total_rules]: "total (cachedAddr E t parse ns) (\<lambda>_. True)"
proof (induction ns)
  case (Cons n ns)
  show ?case
  proof (simp only: cachedAddr.simps, rule total_bind_any)
    fix now
    show "total (\<lambda>s. case Get now (rsCache s) (hostname n) t ClassIN of
         (None, c) \<Rightarrow> cachedAddr E t parse ns (s\<lparr>rsCache := c\<rparr>)
       | (Some entry, c) \<Rightarrow>
           (case firstParsed parse (Records entry) of
              Some ip \<Rightarrow> Some (Some (hostname n, IP_String ip), s\<lparr>rsCache := c\<rparr>)
            | None \<Rightarrow> cachedAddr E t parse ns (s\<lparr>rsCache := c\<rparr>))) (\<lambda>_. True)"
      unfolding total_def
    proof (intro allI impI)
      fix s :: RState assume inv: "cache_inv (rsCache s)"
      obtain e c where g: "Get now (rsCache s) (hostname n) t ClassIN = (e, c)" by fastforce
      with Get_inv [OF inv] have "cache_inv c" by (metis snd_conv)
      then show "\<exists>a s'. (case Get now (rsCache s) (hostname n) t ClassIN of
         (None, c) \<Rightarrow> cachedAddr E t parse ns (s\<lparr>rsCache := c\<rparr>)
       | (Some entry, c) \<Rightarrow>
           (case firstParsed parse (Records entry) of
              Some ip \<Rightarrow> Some (Some (hostname n, IP_String ip), s\<lparr>rsCache := c\<rparr>)
            | None \<Rightarrow> cachedAddr E t parse ns (s\<lparr>rsCache := c\<rparr>))) = Some (a, s') \<and> cache_inv (rsCache s') \<and> True"
        using Cons by (cases e) (auto simp: g total_def split: option.split)
    qed
  qed (rule total_read, simp)
qed (simp add: total_ret)

section \<open>Termination of the exchange with a server\<close>

text \<open>The subnet a query may carry: one that \<open>BuildECS\<close> encodes without a panic.\<close>

definition ecs_sendable :: "ECSOption option \<Rightarrow> bool" where
  "ecs_sendable ecs = (case ecs of None \<Rightarrow> True | Some e \<Rightarrow> BuildECS (e\<lparr>ScopePrefixLen := 0\<rparr>) \<noteq> Panic)"

lemma ecs_sendable_None [simp]: "ecs_sendable None"
  by (simp add: ecs_sendable_def)

lemma queryMessage_no_panic: "ecs_sendable ecs \<Longrightarrow> queryMessage cfg tx rd n t c e0 ecs \<noteq> Panic"
  by (cases "BuildECS ((the ecs)\<lparr>ScopePrefixLen := 0\<rparr>)")
     (auto simp: queryMessage_def Let_def ecs_sendable_def outcome_simps split: option.splits)

lemma total_exchange [total_rules]: "total (exchange E ns p tx n t c cs) (\<lambda>_. True)"
  unfolding exchange_def by (intro total_rules TrueI)

lemma total_sendPacked:
  assumes "ecs_sendable ecs"
  shows "total (sendPacked E cfg ns tx rd n t c e0 ecs cs) (\<lambda>_. True)"
proof (cases "andThen (queryMessage cfg tx rd n t c e0 ecs) (\<lambda>m. Pack m (replicate 4096 0))")
  case Panic
  with queryMessage_no_panic [OF assms] Pack_no_panic_lemma show ?thesis
    by (cases "queryMessage cfg tx rd n t c e0 ecs") (auto simp: outcome_simps)
qed (auto simp: sendPacked_def intro: total_rules)

lemma total_sendQuery: "ecs_sendable ecs \<Longrightarrow> total (sendQuery E cfg ns n t c e0 ecs) (\<lambda>_. True)"
  unfolding sendQuery_def by (intro total_rules total_sendPacked TrueI)

lemma total_sendQueryWithRDECS: "ecs_sendable ecs \<Longrightarrow> total (sendQueryWithRDECS E cfg ns n t c rd e0 ecs) (\<lambda>_. True)"
  unfolding sendQueryWithRDECS_def by (intro total_rules total_sendPacked TrueI)

lemma total_retryLoop: "total once (\<lambda>_. True) \<Longrightarrow> total (retryLoop k once e) (\<lambda>_. True)"
  by (induction k arbitrary: e) (auto intro!: total_rules)

lemma total_queryUpstreamECS: "ecs_sendable ecs \<Longrightarrow> total (queryUpstreamECS E cfg ns n t c ecs) (\<lambda>_. True)"
  unfolding queryUpstreamECS_def queryUpstreamOnceECS_def
  by (rule total_bind_any) (auto intro!: total_mod total_retryLoop total_sendQuery)

lemma total_sendForwardOnce: "ecs_sendable ecs \<Longrightarrow> total (sendForwardQueryOnceECS E cfg ns n t c ecs) (\<lambda>_. True)"
  unfolding sendForwardQueryOnceECS_def by (intro total_rules total_sendQueryWithRDECS TrueI) simp_all

lemma total_queryForwardECS: "ecs_sendable ecs \<Longrightarrow> total (queryForwardECS E cfg addrs e n t c ecs) (\<lambda>_. True)"
proof (induction addrs arbitrary: e)
  case (Cons a addrs)
  then show ?case
    by (auto simp: sendForwardQueryECS_def intro!: total_rules total_retryLoop total_sendForwardOnce)
qed (auto split: option.split intro: total_rules)

lemma total_queryFallback: "total (queryFallback E cfg n t c) (\<lambda>_. True)"
  unfolding queryFallback_def by (intro total_rules total_sendForwardOnce TrueI) simp_all

section \<open>Termination of the iterative resolution\<close>

text \<open>What the loop needs of the functions it calls: that they return.\<close>

definition asks :: "upstream \<Rightarrow> ECSOption option \<Rightarrow> bool" where
  "asks ask ecs \<longleftrightarrow> (\<forall>ns n t c. total (ask ns n t c ecs) (\<lambda>_. True))"

definition validates :: "Resolver \<Rightarrow> bool" where
  "validates R \<longleftrightarrow> (\<forall>val m n t. dnssecValidator R = Some val \<longrightarrow> total (val m n t) (\<lambda>_. True))"

definition finds_servers :: "nsResolver \<Rightarrow> bool" where
  "finds_servers ora \<longleftrightarrow> (\<forall>host t. total (ora host t) (\<lambda>_. True))"

lemma asksD: "asks ask ecs \<Longrightarrow> total (ask ns n t c ecs) (\<lambda>_. True)"
  by (simp add: asks_def)

lemma finds_serversD: "finds_servers ora \<Longrightarrow> total (ora host t) (\<lambda>_. True)"
  by (simp add: finds_servers_def)

lemma total_count [total_rules]: "total (modIO (countVerdict v)) (\<lambda>_. True)"
  by (rule total_mod) (simp_all add: countVerdict_def split: ValidationResult.split)

lemma total_validateDenial [total_rules]: "validates R \<Longrightarrow> total (validateDenialIfEnabled R m n t skip) (\<lambda>_. True)"
  unfolding validateDenialIfEnabled_def
  by (cases "dnssecValidator R") (auto simp: validates_def intro!: total_rules)

lemma total_redirectVerdict [total_rules]: "validates R \<Longrightarrow> total (redirectVerdict R m n t skip) (\<lambda>_. True)"
  unfolding redirectVerdict_def
  by (cases "dnssecValidator R") (auto simp: validates_def intro!: total_rules)

lemma total_resolvePass [total_rules]: "finds_servers ora \<Longrightarrow> total (resolvePass ora b z ns) (\<lambda>_. True)"
proof (induction ns)
  case (Cons x ns)
  note found = finds_serversD [OF Cons.prems]
  show ?case unfolding resolvePass.simps by (intro total_rules found Cons TrueI)
qed (simp add: total_ret)

lemma total_orElse [total_rules]: "total m (\<lambda>_. True) \<Longrightarrow> total m' (\<lambda>_. True) \<Longrightarrow> total (orElseIO m m') (\<lambda>_. True)"
  by (auto intro!: total_rules)

lemma totalD: "total m Q \<Longrightarrow> cache_inv (rsCache s) \<Longrightarrow> \<exists>a s'. m s = Some (a, s') \<and> cache_inv (rsCache s') \<and> Q a"
  by (simp add: total_def)

lemma total_select [total_rules]: "finds_servers ora \<Longrightarrow> total (selectAndResolveNS R ora ns z) (\<lambda>_. True)"
  unfolding total_def
proof (intro allI impI)
  fix s :: RState assume fs: "finds_servers ora" and inv: "cache_inv (rsCache s)"
  let ?sh = "SortByRTT (rsInfra s) ns"
  have "total (bindIO (orElseIO (cachedAddr (env R) TypeA ParseA ?sh)
                    (orElseIO (cachedAddr (env R) TypeAAAA ParseAAAA ?sh)
                    (orElseIO (resolvePass ora False z ?sh)
                              (resolvePass ora True z ?sh)))) (\<lambda>r.
               case r of Some a \<Rightarrow> retIO (Inr a) | None \<Rightarrow> retIO (Inl ''no reachable nameserver''))) (\<lambda>_. True)"
    by (intro total_rules fs TrueI)
  from totalD [OF this inv] inv show "\<exists>a s'. selectAndResolveNS R ora ns z s = Some (a, s') \<and> cache_inv (rsCache s') \<and> True"
    by (auto simp: selectAndResolveNS_def Let_def split: option.split)
qed

lemma total_cacheDelegation [total_rules]: "total (cacheDelegation E m z) (\<lambda>_. True)"
  unfolding cacheDelegation_def Let_def by (intro total_rules TrueI)

lemma total_cacheGlue [total_rules]: "total (cacheGlue E ds) (\<lambda>_. True)"
  by (induction ds) (auto intro!: total_rules)

lemma total_onAnswer [total_rules]: "validates R \<Longrightarrow> total (onAnswer R m n t skip) (\<lambda>_. True)"
  unfolding onAnswer_def Let_def by (intro total_rules TrueI)

lemma total_onCNAME [total_rules]: "validates R \<Longrightarrow> total (onCNAME R m n c skip vis) (\<lambda>_. True)"
  unfolding onCNAME_def Let_def by (intro total_rules TrueI)

lemma total_onDNAME [total_rules]: "validates R \<Longrightarrow> total (onDNAME R m n skip vis) (\<lambda>_. True)"
  unfolding onDNAME_def Let_def by (intro total_rules TrueI)

lemma total_onReferral [total_rules]: "total (onReferral R m e) (\<lambda>_. True)"
  unfolding onReferral_def by (intro total_rules TrueI)

lemma total_onNegative [total_rules]: "validates R \<Longrightarrow> total (onNegative R m n t c neg rc skip) (\<lambda>_. True)"
  unfolding onNegative_def by (intro total_rules TrueI)

lemma total_handleResponse [total_rules]:
  "validates R \<Longrightarrow> total (handleResponse R m rt n t c vis ns ip z skip e) (\<lambda>_. True)"
  unfolding handleResponse_def Let_def
  by (cases rt; simp only: responseType.case; intro total_rules TrueI)

lemma total_stepResult [total_rules]:
  "(\<And>r. x = Done r \<Longrightarrow> total (f r) Q) \<Longrightarrow> (\<And>ns z e. x = Continue ns z e \<Longrightarrow> total (g ns z e) Q) \<Longrightarrow>
   (\<And>n rrs st. x = Redirect n rrs st \<Longrightarrow> total (h n rrs st) Q) \<Longrightarrow>
   total (case x of Done r \<Rightarrow> f r | Continue ns z e \<Rightarrow> g ns z e | Redirect n rrs st \<Rightarrow> h n rrs st) Q"
  by (cases x) simp_all

lemma total_resolveStep:
  assumes "validates R" "finds_servers ora" "asks ask ecs"
  shows "total (resolveStep R ora ask n t c vis ns z skip ecs e) (\<lambda>_. True)"
proof -
  note asked = asksD [OF assms(3)]
  show ?thesis unfolding resolveStep_def askFull_def Let_def by (intro total_rules asked assms TrueI) simp_all
qed

lemma total_resolveLoop:
  assumes "validates R" "finds_servers ora" "asks ask ecs"
  shows "total (resolveLoop R ora ask n t c cd vis ns z skip ecs d e) (\<lambda>_. True)"
  using assms
proof (induction R ora ask n t c cd vis ns z skip ecs d e rule: resolveLoop.induct)
  case (1 R ora ask n t c cd vis ns z skip ecs d e)
  note step = total_resolveStep [OF "1.prems"]
  show ?case
    unfolding resolveLoop.simps [of R ora ask n t c cd vis ns z skip ecs d e]
    by (intro total_rules step TrueI) (simp_all add: "1.IH" "1.prems")
qed

lemma total_iterative:
  "validates R \<Longrightarrow> finds_servers ora \<Longrightarrow> asks ask ecs \<Longrightarrow>
   total (resolveIterativeFromInner R ora ask n t c cd vis ns z skip ecs) (\<lambda>_. True)"
  unfolding resolveIterativeFromInner_def by (intro total_rules total_resolveLoop TrueI)

end
