(* ===== verification/Resolver_Samples.thy ===== *)
theory Resolver_Samples
  imports Resolver_Top Dns_RoundTrip Cache_Properties
begin

text \<open>
  A small concrete network, on which the theorems about the resolver are instantiated: one root
  server, which gives the same reply to every query.
\<close>

definition sample_config :: ResolverConfig where
  "sample_config = \<lparr>MaxDepth = 30, MaxCNAMEDepth = 10, UpstreamRetries = 3, QMinEnabled = False, Caps0x20Enabled = False,
     PreferIPv4 = True, DNSSECEnabled = True, DNS64Enabled = False, DNS64Prefix = \<lparr>netIP = [], netMask = []\<rparr>,
     ECSEnabled = False, FallbackResolvers = [''192.0.2.53''], UpstreamUDPBufferSize = 1232\<rparr>"

definition sample_env :: "bytes \<Rightarrow> Env" where
  "sample_env reply = \<lparr>clock = (\<lambda>_. 100), randTXID = (\<lambda>_. Some 7), randBytes = (\<lambda>_ _. 0), randIndex = (\<lambda>_ _. 0),
     udpReply = (\<lambda>_ _ _. Inr reply), tcpReply = (\<lambda>_ _ _. Inl ''refused''), rndFloat = id\<rparr>"

definition sample_state :: RState where
  "sample_state = \<lparr>rsCache = NewCacheWithStale 1000 5 3600 60 False 30, rsInfra = NewInfraCache, tick = 0, upstreamQueries = 0,
     upstreamErrors = 0, fallbackQueries = 0, fallbackRecoveries = 0, dnssecSecure = 0, dnssecInsecure = 0, dnssecBogus = 0, ready = True, rsKeys = Map.empty, messagesSent = 0\<rparr>"

definition sample_resolver :: "bytes \<Rightarrow> (Message \<Rightarrow> string \<Rightarrow> u16 \<Rightarrow> ValidationResult io) option \<Rightarrow> Resolver" where
  "sample_resolver reply val =
     \<lparr>config = sample_config, rootServers = [\<lparr>nsName = ''a.root-servers.net'', nsIPv4 = ''198.41.0.4'', nsIPv6 = []\<rparr>],
      dnssecValidator = val, localZones = None, forwardTable = None, env = sample_env reply\<rparr>"

lemma sample_simps [simp]:
  "MaxDepth sample_config = 30" "MaxCNAMEDepth sample_config = 10" "UpstreamRetries sample_config = 3"
  "\<not> QMinEnabled sample_config" "\<not> Caps0x20Enabled sample_config" "PreferIPv4 sample_config"
  "randTXID (sample_env b) k = Some 7" "udpReply (sample_env b) k ip q = Inr b" "clock (sample_env b) k = 100"
  "config (sample_resolver b v) = sample_config" "env (sample_resolver b v) = sample_env b"
  "forwardTable (sample_resolver b v) = None" "localZones (sample_resolver b v) = None" "dnssecValidator (sample_resolver b v) = v"
  "toNameServerList (rootServers (sample_resolver b v)) = [\<lparr>hostname = ''a.root-servers.net'', ipv4 = ''198.41.0.4'', ipv6 = []\<rparr>]"
  "cache_inv (rsCache sample_state)"
  by (simp_all add: sample_config_def sample_env_def sample_resolver_def toNameServerList_def sample_state_def)

lemma SortByRTT_single [simp]: "SortByRTT i [x] = [x]"
  by (simp add: SortByRTT_def)

text \<open>The question sent for the name \<open>a\<close>.\<close>

definition sample_question :: Message where
  "sample_question = \<lparr>msgHeader = \<lparr>ID = 7, Flags = 0, QDCount = 1, ANCount = 0, NSCount = 0, ARCount = 0\<rparr>,
     Questions = [\<lparr>qName = ''a'', qType = TypeA, qClass = ClassIN\<rparr>],
     Answers = [], Authority = [], Additional = [BuildOPT 1232 True], msgEDNS0 = None, Raw = []\<rparr>"

lemma sample_packed:
  "\<exists>bs. andThen (queryMessage sample_config 7 False ''a'' TypeA ClassIN True None) (\<lambda>m. Pack m (replicate 4096 0))
    = Ret (updateCounts sample_question, bs)"
proof -
  have "queryMessage sample_config 7 False ''a'' TypeA ClassIN True None = Ret sample_question"
    by code_simp
  moreover have "wf_message sample_question" "message_size sample_question \<le> 4096"
    by (simp_all add: wf_message_def wf_rr_def wf_rdata_def sample_question_def valid_name_def valid_labels_def
        message_size_def rr_size_def valid_label_def BuildOPT_def splitLabels_def TrimSuffix_def HasSuffix_def)
  ultimately show ?thesis
    using Pack_returns_lemma [of sample_question "replicate 4096 0"] by (auto simp: outcome_simps)
qed

lemma sample_sendQuery:
  assumes "acceptReply 7 ''a'' TypeA ClassIN False reply = Inr msg" "length reply \<le> 4096" "\<not> TC (msgHeader msg)"
  shows "sendQuery (sample_env reply) sample_config ip ''a'' TypeA ClassIN True None s = Some (Inr msg, s\<lparr>tick := tick s + 2, messagesSent := messagesSent s + 1\<rparr>)"
proof -
  from sample_packed obtain bs where "andThen (queryMessage sample_config 7 False ''a'' TypeA ClassIN True None) (\<lambda>m. Pack m (replicate 4096 0))
    = Ret (updateCounts sample_question, bs)" by blast
  with assms show ?thesis
    by (simp add: sendQuery_def sendPacked_def exchange_def bindIO_def readIO_def sendIO_def retIO_def)
qed

lemma sample_query:
  assumes "acceptReply 7 ''a'' TypeA ClassIN False reply = Inr msg" "length reply \<le> 4096" "\<not> TC (msgHeader msg)"
  shows "queryUpstreamECS (sample_env reply) sample_config ip ''a'' TypeA ClassIN None s
    = Some (Inr msg, s\<lparr>upstreamQueries := upstreamQueries s + 1, tick := tick s + 2, messagesSent := messagesSent s + 1\<rparr>)"
  by (simp add: queryUpstreamECS_def queryUpstreamOnceECS_def bindIO_def modIO_def retriesOf_def
      numeral_3_eq_3 retIO_def sample_sendQuery [OF assms])

lemmas sample_run = bindIO_def retIO_def readIO_def modIO_def resolveIterativeECS_def resolveIterativeFromInner_def
  resolveStep_def selectAndResolveNS_def handleResponse_def Has_def newVisitedSet_def

section \<open>A reply that denies the name, and a validator that finds it bogus\<close>

definition nx_reply :: bytes where
  "nx_reply = [0, 7, 0x84, 3, 0, 1, 0, 0, 0, 0, 0, 0, 1, 97, 0, 0, 1, 0, 1]"

definition nx_message :: Message where
  "nx_message = \<lparr>msgHeader = \<lparr>ID = 7, Flags = 0x8403, QDCount = 1, ANCount = 0, NSCount = 0, ARCount = 0\<rparr>,
     Questions = [\<lparr>qName = ''a'', qType = TypeA, qClass = ClassIN\<rparr>],
     Answers = [], Authority = [], Additional = [], msgEDNS0 = None, Raw = nx_reply\<rparr>"

lemma nx_accepted:
  "acceptReply 7 ''a'' TypeA ClassIN False nx_reply = Inr nx_message" "length nx_reply \<le> 4096" "\<not> TC (msgHeader nx_message)"
  "classifyResponse (SanitizeBailiwick nx_message []) ''a'' TypeA = responseNXDomain"
  by code_simp+

definition bogus_resolver :: Resolver where
  "bogus_resolver = sample_resolver nx_reply (Some (\<lambda>_ _ _. retIO Bogus))"

lemma bogus_resolution: "\<exists>s'. resolvePrimary 1 bogus_resolver ''a'' TypeA ClassIN None sample_state = Some (Inr bogusResult, s')"
  by (simp add: bogus_resolver_def resolvePrimary_def Match_def sample_run resolveLoop.simps
      sample_query [OF nx_accepted(1-3)] nx_accepted(4) onNegative_def validateDenialIfEnabled_def verdictToStatus_def countVerdict_def)

section \<open>A delegation whose only name server lies below itself, without glue\<close>

text \<open>Every reply refers \<open>a\<close> to the server \<open>a\<close>, and says nothing of its address.\<close>

definition loop_reply :: bytes where
  "loop_reply = [0, 7, 0x80, 0, 0, 1, 0, 0, 0, 1, 0, 0, 1, 97, 0, 0, 1, 0, 1, 1, 97, 0, 0, 2, 0, 1, 0, 0, 0, 0, 0, 3, 1, 97, 0]"

definition loop_message :: Message where
  "loop_message = \<lparr>msgHeader = \<lparr>ID = 7, Flags = 0x8000, QDCount = 1, ANCount = 0, NSCount = 1, ARCount = 0\<rparr>,
     Questions = [\<lparr>qName = ''a'', qType = TypeA, qClass = ClassIN\<rparr>],
     Answers = [], Authority = [\<lparr>rrName = ''a'', rrType = TypeNS, rrClass = ClassIN, rrTTL = 0, rrRDLength = 3,
                                 rrRData = [1, 97, 0], rrRDataOffset = 32\<rparr>], Additional = [], msgEDNS0 = None, Raw = loop_reply\<rparr>"

lemma loop_accepted:
  "acceptReply 7 ''a'' TypeA ClassIN False loop_reply = Inr loop_message" "length loop_reply \<le> 4096" "\<not> TC (msgHeader loop_message)"
  "SanitizeBailiwick loop_message [] = loop_message" "classifyResponse loop_message ''a'' TypeA = responseReferral"
  by code_simp+

definition loop_resolver :: Resolver where
  "loop_resolver = sample_resolver loop_reply None"

lemma loop_delegation:
  "extractDelegation loop_message = ([\<lparr>Hostname = ''a'', IPv4 = [], IPv6 = [], IPv4TTL = 0, IPv6TTL = 0\<rparr>], ''a'')"
  by code_simp

abbreviation empty_cache :: "RState \<Rightarrow> bool" where
  "empty_cache s \<equiv> (\<forall>k. findEntry (rsCache s) k = None)"

lemma empty_sample: "empty_cache sample_state"
  by (simp add: sample_state_def findEntry_def NewCacheWithStale_def resetEntries_def)

lemma loop_first_turn:
  assumes "empty_cache s" and "SanitizeBailiwick loop_message z = loop_message"
  shows "\<exists>s' vis. resolveStep loop_resolver ora (upstreamOf loop_resolver) ''a'' TypeA ClassIN newVisitedSet (roots loop_resolver) z False None None s
    = Some ((Continue [\<lparr>hostname = ''a'', ipv4 = [], ipv6 = []\<rparr>] ''a'' None, vis), s') \<and> empty_cache s'"
proof -
  have "Store 100 c n TypeNS ClassIN (Authority loop_message) [] = Some c" for c n
    by (simp add: Store_def StoreWithStatus_def extractTTL_def loop_message_def sanitizeWireTTL_def)
  moreover have "filter (\<lambda>rr. ToLower (rrName rr) = ToLower ''a'' \<and> (rrType rr = TypeNS \<or> rrsigCovering (\<lambda>t. t = TypeNS) rr))
      (Authority loop_message) = Authority loop_message" "list_ex (\<lambda>rr. rrType rr = TypeNS) (Authority loop_message)"
    by (simp_all add: loop_message_def)
  ultimately have "cacheDelegation (sample_env loop_reply) loop_message ''a'' st = Some ((), st\<lparr>tick := tick st + 1\<rparr>)" for st
    by (simp add: cacheDelegation_def storeIO_def cacheIO_def bindIO_def readIO_def)
  with assms show ?thesis
    unfolding loop_resolver_def
    by (simp add: sample_run sample_query [OF loop_accepted(1-3)] loop_accepted(5) onReferral_def loop_delegation
        delegationToNSList_def)
qed

end
