(* ===== verification/Resolver_Iter_Properties.thy ===== *)
theory Resolver_Iter_Properties
  imports Resolver_Logic Resolver_Samples
begin

text \<open>
  Properties of the iterative resolution and of the entry points of the resolver: it returns, it is
  bounded, which replies it accepts, and what a DNSSEC verdict does to the result.
\<close>

section \<open>Rules for partial correctness\<close>

lemma post_ret [post_rules]: "Q a \<Longrightarrow> post (retIO a) Q"
  by (simp add: post_def retIO_def)

lemma post_bind: "post m P \<Longrightarrow> (\<And>a. P a \<Longrightarrow> post (f a) Q) \<Longrightarrow> post (bindIO m f) Q"
  unfolding post_def bindIO_def by (fastforce split: option.splits)

lemma post_True [post_rules]: "post m (\<lambda>_. True)"
  by (simp add: post_def)

lemma post_bind_any [post_rules]: "(\<And>a. post (f a) Q) \<Longrightarrow> post (bindIO m f) Q"
  by (rule post_bind [OF post_True])

lemma post_panic [post_rules]: "post panicIO Q"
  by (simp add: post_def panicIO_def)

lemma post_if [post_rules]: "(b \<Longrightarrow> post m Q) \<Longrightarrow> (\<not> b \<Longrightarrow> post m' Q) \<Longrightarrow> post (if b then m else m') Q"
  by simp

lemma post_option [post_rules]: "(x = None \<Longrightarrow> post m Q) \<Longrightarrow> (\<And>a. x = Some a \<Longrightarrow> post (f a) Q) \<Longrightarrow> post (case x of None \<Rightarrow> m | Some a \<Rightarrow> f a) Q"
  by (cases x) simp_all

lemma post_sum [post_rules]: "(\<And>a. x = Inl a \<Longrightarrow> post (f a) Q) \<Longrightarrow> (\<And>a. x = Inr a \<Longrightarrow> post (g a) Q) \<Longrightarrow> post (case x of Inl a \<Rightarrow> f a | Inr a \<Rightarrow> g a) Q"
  by (cases x) simp_all

lemma post_prod [post_rules]: "(\<And>a b. x = (a, b) \<Longrightarrow> post (f a b) Q) \<Longrightarrow> post (case x of (a, b) \<Rightarrow> f a b) Q"
  by (cases x) simp_all

lemma post_stepResult [post_rules]:
  "(\<And>r. x = Done r \<Longrightarrow> post (f r) Q) \<Longrightarrow> (\<And>ns z e. x = Continue ns z e \<Longrightarrow> post (g ns z e) Q) \<Longrightarrow>
   (\<And>n rrs st. x = Redirect n rrs st \<Longrightarrow> post (h n rrs st) Q) \<Longrightarrow>
   post (case x of Done r \<Rightarrow> f r | Continue ns z e \<Rightarrow> g ns z e | Redirect n rrs st \<Rightarrow> h n rrs st) Q"
  by (cases x) simp_all

lemma postD: "post m Q \<Longrightarrow> m s = Some (a, s') \<Longrightarrow> Q a"
  by (auto simp: post_def)

section \<open>The verdict of the validator\<close>

definition bogus_fails :: "string + ResolveResult \<Rightarrow> bool" where
  "bogus_fails r = (case r of Inl _ \<Rightarrow> True | Inr res \<Rightarrow> resStatus res = ''bogus'' \<longrightarrow> resRCODE res = RCodeServFail \<and> resError res = None)"

fun step_bogus_fails :: "stepResult \<Rightarrow> bool" where
  "step_bogus_fails (Done r) = bogus_fails r"
| "step_bogus_fails (Continue _ _ _) = True"
| "step_bogus_fails (Redirect _ _ status) = (status \<noteq> ''bogus'')"

lemma verdict_not_bogus: "v \<noteq> Bogus \<Longrightarrow> verdictToStatus v \<noteq> ''bogus''"
  by (cases v) (simp_all add: verdictToStatus_def)

lemmas bogus_simps = bogus_fails_def resultOf_def bogusResult_def servFail_def dropServer_def Let_def

lemma post_handleResponse_bogus:
  "post (handleResponse R m rt n t c vis ns ip z skip e) (\<lambda>p. step_bogus_fails (fst p))"
proof -
  have "post (onAnswer R m n t skip) step_bogus_fails"
    unfolding onAnswer_def Let_def by (intro post_rules) (simp add: bogus_simps)
  moreover have "post (onCNAME R m n c skip vis) (\<lambda>p. step_bogus_fails (fst p))"
    unfolding onCNAME_def Let_def by (intro post_rules) (simp_all add: bogus_simps verdict_not_bogus)
  moreover have "post (onDNAME R m n skip vis) (\<lambda>p. step_bogus_fails (fst p))"
    unfolding onDNAME_def Let_def by (intro post_rules) (simp_all add: bogus_simps verdict_not_bogus)
  moreover have "post (onReferral R m e) step_bogus_fails"
    unfolding onReferral_def by (intro post_rules) (simp_all add: bogus_simps)
  moreover have "post (onNegative R m n t c neg rc skip) step_bogus_fails" for neg rc
    unfolding onNegative_def by (intro post_rules) (simp_all add: bogus_simps)
  moreover have "post (retIO (dropServer ns ip z None e)) step_bogus_fails"
    by (intro post_rules) (simp add: bogus_simps)
  moreover have "post k step_bogus_fails \<Longrightarrow> post (bindIO k (\<lambda>r. retIO (r, vis))) (\<lambda>p. step_bogus_fails (fst p))" for k
    by (erule post_bind) (simp add: post_ret)
  ultimately show ?thesis
    unfolding handleResponse_def Let_def by (cases rt) simp_all
qed

lemma post_resolveStep_bogus:
  "post (resolveStep R ora ask n t c vis ns z skip ecs e) (\<lambda>p. step_bogus_fails (fst p))"
  unfolding resolveStep_def Let_def
  by (intro post_rules post_handleResponse_bogus) (simp_all add: bogus_simps)

lemma prependRedirect_bogus: "bogus_fails r \<Longrightarrow> status \<noteq> ''bogus'' \<Longrightarrow> bogus_fails (prependRedirect rrs status r)"
  by (auto simp: bogus_fails_def prependRedirect_def combineDNSSECStatus_def split: sum.splits if_splits)

lemma post_resolveLoop_bogus: "post (resolveLoop R ora ask n t c cd vis ns z skip ecs d e) bogus_fails"
proof (induction R ora ask n t c cd vis ns z skip ecs d e rule: resolveLoop.induct)
  case (1 R ora ask n t c cd vis ns z skip ecs d e)
  show ?case
    unfolding resolveLoop.simps [of R ora ask n t c cd vis ns z skip ecs d e]
  proof (rule post_if)
    assume d: "d < MaxDepth (config R)"
    show "post (bindIO (resolveStep R ora ask n t c vis ns z skip ecs e) (\<lambda>p.
          case fst p of
            Done r \<Rightarrow> retIO r
          | Continue nameservers zone lastErr \<Rightarrow>
              resolveLoop R ora ask n t c cd (snd p) nameservers zone skip ecs (d + 1) lastErr
          | Redirect target rrs status \<Rightarrow>
              bindIO (if MaxCNAMEDepth (config R) < cd + 1 then retIO (Inl ''CNAME chain too long'')
                      else resolveLoop R ora ask target t c (cd + 1) (snd p) (roots R) [] skip ecs 0 None)
                (\<lambda>r. retIO (prependRedirect rrs status r)))) bogus_fails"
    proof (rule post_bind [OF post_resolveStep_bogus], rule post_stepResult, goal_cases)
      case (3 p target rrs status)
      have "post (if MaxCNAMEDepth (config R) < cd + 1 then retIO (Inl ''CNAME chain too long'')
                      else resolveLoop R ora ask target t c (cd + 1) (snd p) (roots R) [] skip ecs 0 None) bogus_fails"
        by (intro post_rules 1(2) [OF d 3(2)]) (auto simp: bogus_fails_def)
      from this show ?case
        by (rule post_bind) (use 3 in \<open>auto intro!: post_ret prependRedirect_bogus\<close>)
    qed (auto intro!: post_ret 1(1) [OF d])
  qed (auto intro!: post_ret simp: bogus_simps)
qed

text \<open>
  C9. A bogus verdict is final: whatever the configuration and the network, a result whose
  validation failed (status \<open>bogus\<close>) has RCODE SERVFAIL, \<open>ResolveWithECS\<close> returns it as it is, and it does so
  in the state in which validation ended, so no fallback resolver and no DNS64 synthesis replaces it.
\<close>

theorem bogus_is_final:
  assumes "name' = ToLower (TrimSuffix name ''.'')"
    and "(case localZones R of None \<Rightarrow> None | Some t \<Rightarrow> LocalLookup t name' qtype qclass) = None" and "\<not> specialUse name'"
    and prim: "resolvePrimary n R name' qtype qclass ecs s = Some (Inr result, s')" and bogus: "resStatus result = ''bogus''"
  shows "ResolveWithECS n R name qtype qclass ecs s = Some (Inr result, s') \<and> resRCODE result = RCodeServFail"
proof -
  have forward: "post (queryForwardECS (env R) (config R) addrs e nm t c x) bogus_fails" for addrs e nm t c x
  proof (induction addrs arbitrary: e)
    case (Cons a addrs)
    show ?case unfolding queryForwardECS.simps
      by (intro post_rules Cons) (simp add: bogus_fails_def forwardResult_def)
  qed (auto split: option.split intro!: post_ret simp: bogus_simps)
  have inner: "post (resolveInner k R ask nm t c ns z skip x) bogus_fails" for k ask nm t c ns z skip x
  proof (cases k)
    case (Suc j)
    then show ?thesis
      unfolding Suc resolveInner.simps resolveIterativeFromInner_def
      by (intro post_rules post_resolveLoop_bogus) (simp add: bogus_fails_def)
  qed (simp add: post_def)
  have "post (resolvePrimary n R name' qtype qclass ecs) bogus_fails"
    unfolding resolvePrimary_def resolveStubECS_def resolveIterativeECS_def by (intro post_rules forward inner)
  from postD [OF this prim] bogus have fails: "resRCODE result = RCodeServFail" "resError result = None"
    by (simp_all add: bogus_fails_def)
  then show ?thesis
    unfolding ResolveWithECS_def Let_def assms(1) [symmetric]
    using assms(2-) by (simp add: bindIO_def shouldFallback_def retIO_def)
qed

theorem bogus_is_final_witness:
  "\<exists>s'. ResolveWithECS 1 bogus_resolver ''a.'' TypeA ClassIN None sample_state = Some (Inr bogusResult, s') \<and>
     resRCODE bogusResult = RCodeServFail"
proof -
  from bogus_resolution obtain s' where prim: "resolvePrimary 1 bogus_resolver ''a'' TypeA ClassIN None sample_state = Some (Inr bogusResult, s')"
    by blast
  have name: "''a'' = ToLower (TrimSuffix ''a.'' ''.'')" "\<not> specialUse ''a''" by code_simp+
  have zones: "(case localZones bogus_resolver of None \<Rightarrow> None | Some t \<Rightarrow> LocalLookup t ''a'' TypeA ClassIN) = None"
    by (simp add: bogus_resolver_def)
  from bogus_is_final [OF name(1) zones name(2) prim] show ?thesis by (simp add: bogusResult_def)
qed

section \<open>Accepted replies\<close>

lemma lowerChar_flipCase:
  assumes "isLetter c"
  shows "lowerChar (flipCase c) = lowerChar c"
proof -
  define k :: nat where "k = of_char c"
  have c: "c = char_of k" by (simp add: k_def)
  from assms have "k \<in> set [65..<91] \<or> k \<in> set [97..<123]"
    unfolding isLetter_def Let_def k_def [symmetric] set_upt atLeastLessThan_iff by linarith
  then show ?thesis
    unfolding c upt_rec_numeral by (auto simp: flipCase_def lowerChar_def byte_of_def char_of_byte_def)
qed


lemma ToLower_flipLetters [simp]: "ToLower (flipLetters rb k s) = ToLower s"
  by (induction rb k s rule: flipLetters.induct) (auto simp: ToLower_def lowerChar_flipCase)

lemma ToLower_randomizeCase: "ToLower (randomizeCase rb s) = ToLower s"
  by (simp add: randomizeCase_def)

text \<open>What a reply has to satisfy.\<close>

definition answers_query :: "Message \<Rightarrow> u16 \<Rightarrow> string \<Rightarrow> u16 \<Rightarrow> u16 \<Rightarrow> bool \<Rightarrow> bool" where
  "answers_query msg txID queryName qtype qclass caseSensitive \<longleftrightarrow>
     ID (msgHeader msg) = txID \<and> Questions msg \<noteq> [] \<and>
     qType (hd (Questions msg)) = qtype \<and> qClass (hd (Questions msg)) = qclass \<and>
     TrimSuffix (ToLower (qName (hd (Questions msg)))) ''.'' = TrimSuffix (ToLower queryName) ''.'' \<and>
     (caseSensitive \<longrightarrow> TrimSuffix (qName (hd (Questions msg))) ''.'' = TrimSuffix queryName ''.'')"

lemma ToLower_TrimSuffix_dot: "TrimSuffix (ToLower s) ''.'' = ToLower (TrimSuffix s ''.'')"
proof (cases s rule: rev_cases)
  case (snoc xs x)
  then show ?thesis by (cases "x = dot") (auto simp: TrimSuffix_def HasSuffix_def ToLower_def lowerChar_eq_dot [THEN iffD2])
qed (simp add: TrimSuffix_def HasSuffix_def)

lemma acceptReply_answers: "acceptReply tx n t c cs b = Inr msg \<Longrightarrow> answers_query msg tx n t c cs"
  by (auto simp: acceptReply_def questionMatches_def answers_query_def ToLower_TrimSuffix_dot split: option.splits if_splits list.splits)

lemma post_exchange:
  "post (exchange E ns p tx n t c cs) (\<lambda>r. case r of Inl e \<Rightarrow> True | Inr msg \<Rightarrow> answers_query msg tx n t c cs)"
  unfolding exchange_def
  by (intro post_rules) (auto dest: acceptReply_answers split: sum.split)

lemma post_sendPacked:
  "post (sendPacked E cfg ns tx rd n t c e0 ecs cs) (\<lambda>r. case r of Inl e \<Rightarrow> True | Inr msg \<Rightarrow> answers_query msg tx n t c cs)"
  unfolding sendPacked_def
  by (cases "andThen (queryMessage cfg tx rd n t c e0 ecs) (\<lambda>m. Pack m (replicate 4096 0))")
     (auto simp: post_exchange intro!: post_rules)

text \<open>
  C5. A reply that \<open>sendQuery\<close> accepts, over UDP or over TCP after a truncated reply, carries the random transaction ID drawn for this
  query and repeats its question: the type, the class and the name, the name without regard to case,
  and with 0x20 encoding enabled with exactly the random capitalisation that was sent.
\<close>

theorem sendQuery_accepts:
  assumes "sendQuery E cfg nsIP name qtype qclass withEDNS0 ecs s = Some (Inr msg, s')"
  shows "randTXID E (tick s) = Some (ID (msgHeader msg)) \<and>
    (\<exists>q rest. Questions msg = q # rest \<and> qType q = qtype \<and> qClass q = qclass \<and>
       TrimSuffix (ToLower (qName q)) ''.'' = TrimSuffix (ToLower name) ''.'' \<and>
       (Caps0x20Enabled cfg \<longrightarrow>
          TrimSuffix (qName q) ''.'' = TrimSuffix (randomizeCase (randBytes E (tick s + 1)) name) ''.''))"
proof -
  let ?qn = "if Caps0x20Enabled cfg then randomizeCase (randBytes E (tick s + 1)) name else name"
  from assms obtain tx s1 where tx: "randTXID E (tick s) = Some tx"
    and sent: "sendPacked E cfg nsIP tx False ?qn qtype qclass withEDNS0 ecs (Caps0x20Enabled cfg) s1 = Some (Inr msg, s')"
    by (auto simp: sendQuery_def bindIO_def readIO_def retIO_def split: option.splits if_splits)
  from postD [OF post_sendPacked sent] have "answers_query msg tx ?qn qtype qclass (Caps0x20Enabled cfg)" by simp
  with tx show ?thesis
    by (cases "Questions msg") (auto simp: answers_query_def ToLower_randomizeCase)
qed

theorem sendQuery_accepts_witness:
  "ID (msgHeader nx_message) = 7 \<and> TrimSuffix (ToLower (qName (hd (Questions nx_message)))) ''.'' = TrimSuffix (ToLower ''a'') ''.''"
  using sendQuery_accepts [OF sample_sendQuery [OF nx_accepted(1-3), of "''198.41.0.4''" sample_state]] by auto

section \<open>How many messages a resolution sends\<close>

definition queries_within :: "nat \<Rightarrow> 'a io \<Rightarrow> bool" where
  "queries_within k m \<longleftrightarrow> (\<forall>s a s'. m s = Some (a, s') \<longrightarrow> messagesSent s' \<le> messagesSent s + k)"

named_theorems within_rules

lemma within_ret [within_rules]: "queries_within k (retIO a)"
  by (simp add: queries_within_def retIO_def)

lemma within_panic [within_rules]: "queries_within k panicIO"
  by (simp add: queries_within_def panicIO_def)

lemma within_read [within_rules]: "queries_within k (readIO f)"
  by (simp add: queries_within_def readIO_def)

lemma within_mod [within_rules]: "(\<And>s. messagesSent (f s) = messagesSent s) \<Longrightarrow> queries_within k (modIO f)"
  by (simp add: queries_within_def modIO_def)

lemma within_cache [within_rules]: "queries_within k (cacheIO f)"
  by (auto simp: queries_within_def cacheIO_def split: option.splits)

lemma within_bind: "queries_within j m \<Longrightarrow> (\<And>a. queries_within k (f a)) \<Longrightarrow> queries_within (j + k) (bindIO m f)"
  unfolding queries_within_def bindIO_def by (fastforce split: option.splits)

lemma within_quiet_bind [within_rules]: "queries_within 0 m \<Longrightarrow> (\<And>a. queries_within k (f a)) \<Longrightarrow> queries_within k (bindIO m f)"
  by (rule within_bind [of 0, simplified])

lemma within_bind_quiet: "queries_within k m \<Longrightarrow> (\<And>a. queries_within 0 (f a)) \<Longrightarrow> queries_within k (bindIO m f)"
  by (rule within_bind [of _ _ 0, simplified])

lemma within_mono: "queries_within j m \<Longrightarrow> j \<le> k \<Longrightarrow> queries_within k m"
  unfolding queries_within_def by (meson add_left_mono order_trans)

lemma within_if [within_rules]: "(b \<Longrightarrow> queries_within k m) \<Longrightarrow> (\<not> b \<Longrightarrow> queries_within k m') \<Longrightarrow> queries_within k (if b then m else m')"
  by simp

lemma within_option [within_rules]: "(x = None \<Longrightarrow> queries_within k m) \<Longrightarrow> (\<And>a. x = Some a \<Longrightarrow> queries_within k (f a)) \<Longrightarrow> queries_within k (case x of None \<Rightarrow> m | Some a \<Rightarrow> f a)"
  by (cases x) simp_all

lemma within_sum [within_rules]: "(\<And>a. x = Inl a \<Longrightarrow> queries_within k (f a)) \<Longrightarrow> (\<And>a. x = Inr a \<Longrightarrow> queries_within k (g a)) \<Longrightarrow> queries_within k (case x of Inl a \<Rightarrow> f a | Inr a \<Rightarrow> g a)"
  by (cases x) simp_all

lemma within_prod [within_rules]: "(\<And>a b. x = (a, b) \<Longrightarrow> queries_within k (f a b)) \<Longrightarrow> queries_within k (case x of (a, b) \<Rightarrow> f a b)"
  by (cases x) simp_all

lemma within_outcome [within_rules]:
  "queries_within k m \<Longrightarrow> (\<And>e. queries_within k (f e)) \<Longrightarrow> (\<And>a. queries_within k (g a)) \<Longrightarrow>
   queries_within k (case x of Panic \<Rightarrow> m | Err e \<Rightarrow> f e | Ret a \<Rightarrow> g a)"
  by (cases x) simp_all

lemma within_send: "queries_within 1 (sendIO f)"
  by (simp add: queries_within_def sendIO_def)

text \<open>One attempt: a datagram, and a message over TCP when the reply is truncated.\<close>

lemma within_sendQuery: "queries_within 2 (sendQuery E cfg ns n t c e0 ecs)"
proof -
  have again: "queries_within 1 (bindIO (sendIO f) (\<lambda>r. case r of Inl e \<Rightarrow> retIO (Inl e) | Inr x \<Rightarrow> retIO (g x)))" for f and g :: "bytes \<Rightarrow> string + Message"
    by (rule within_bind_quiet [OF within_send]) (intro within_rules)
  have first: "queries_within 2 (bindIO (sendIO f) g)" if "\<And>r. queries_within 1 (g r)" for f and g :: "string + bytes \<Rightarrow> (string + Message) io"
    using within_bind [OF within_send that] by (simp add: numeral_2_eq_2)
  have "queries_within 2 (exchange E ns packed tx qn t c cs)" for packed tx qn cs
    unfolding exchange_def by (intro first again within_rules)
  then show ?thesis
    unfolding sendQuery_def sendPacked_def by (intro within_rules)
qed

lemma within_retryLoop: "queries_within k once \<Longrightarrow> queries_within (j * k) (retryLoop j once e)"
proof (induction j arbitrary: e)
  case (Suc j)
  have "queries_within (k + j * k) (retryLoop (Suc j) once e)"
    unfolding retryLoop.simps by (rule within_bind [OF Suc.prems]) (intro within_rules Suc; simp)
  then show ?case by simp
qed (simp add: within_ret)

text \<open>The messages of one query: each attempt may be repeated over TCP.\<close>

definition perQuery :: "ResolverConfig \<Rightarrow> nat" where
  "perQuery cfg = 2 * retriesOf cfg"

lemma within_queryUpstreamECS: "queries_within (perQuery cfg) (queryUpstreamECS E cfg ns n t c ecs)"
  unfolding queryUpstreamECS_def queryUpstreamOnceECS_def perQuery_def mult.commute [of 2]
  by (intro within_quiet_bind within_mod within_retryLoop within_sendQuery) simp

text \<open>What the validator and the nested resolutions of name-server addresses send is not counted: they are taken to send nothing.\<close>

definition quiet_validator :: "Resolver \<Rightarrow> bool" where
  "quiet_validator R \<longleftrightarrow> (\<forall>val m n t. dnssecValidator R = Some val \<longrightarrow> queries_within 0 (val m n t))"

definition quiet_servers :: "nsResolver \<Rightarrow> bool" where
  "quiet_servers ora \<longleftrightarrow> (\<forall>host t. queries_within 0 (ora host t))"

lemma within_validateDenial [within_rules]: "quiet_validator R \<Longrightarrow> queries_within 0 (validateDenialIfEnabled R m n t skip)"
  unfolding validateDenialIfEnabled_def
  by (cases "dnssecValidator R") (auto simp: quiet_validator_def countVerdict_def intro!: within_rules split: ValidationResult.split)

lemma within_redirectVerdict [within_rules]: "quiet_validator R \<Longrightarrow> queries_within 0 (redirectVerdict R m n t skip)"
  unfolding redirectVerdict_def
  by (cases "dnssecValidator R") (auto simp: quiet_validator_def countVerdict_def intro!: within_rules split: ValidationResult.split)

lemma within_resolvePass [within_rules]: "quiet_servers ora \<Longrightarrow> queries_within 0 (resolvePass ora b z ns)"
proof (induction ns)
  case (Cons x ns)
  then have quiet: "queries_within 0 (ora host t)" for host t by (simp add: quiet_servers_def)
  show ?case unfolding resolvePass.simps by (intro within_rules quiet Cons)
qed (simp add: within_ret)

lemma within_orElse [within_rules]: "queries_within 0 m \<Longrightarrow> queries_within 0 m' \<Longrightarrow> queries_within 0 (orElseIO m m')"
  by (auto intro!: within_rules)

lemma within_cachedAddr [within_rules]: "queries_within 0 (cachedAddr E t parse ns)"
proof (induction ns)
  case (Cons x ns)
  then show ?case
    unfolding cachedAddr.simps
    by (intro within_quiet_bind within_read) (fastforce simp: queries_within_def split: prod.splits option.splits)
qed (simp add: within_ret)

lemma within_select [within_rules]: 
  assumes "quiet_servers ora"
  shows "queries_within 0 (selectAndResolveNS R ora ns z)"
proof -
  have "queries_within 0 (bindIO (orElseIO (cachedAddr (env R) TypeA ParseA sh)
                    (orElseIO (cachedAddr (env R) TypeAAAA ParseAAAA sh)
                    (orElseIO (resolvePass ora False z sh)
                              (resolvePass ora True z sh)))) (\<lambda>r.
               case r of Some a \<Rightarrow> retIO (Inr a) | None \<Rightarrow> retIO (Inl ''no reachable nameserver'')))" for sh
    by (intro within_rules assms)
  then show ?thesis
    unfolding queries_within_def selectAndResolveNS_def Let_def by (auto split: option.splits)
qed

lemma within_store [within_rules]: "queries_within 0 (storeIO E n t c an au)"
  unfolding storeIO_def by (intro within_rules)

lemma within_storeNegative [within_rules]: "queries_within 0 (storeNegativeIO E n t c neg rc au)"
  unfolding storeNegativeIO_def by (intro within_rules)

lemma within_cacheGlue [within_rules]: "queries_within 0 (cacheGlue E ds)"
  by (induction ds) (auto intro!: within_rules)

lemma within_handleResponse:
  "quiet_validator R \<Longrightarrow> queries_within 0 (handleResponse R m rt n t c vis ns ip z skip e)"
  unfolding handleResponse_def onAnswer_def onCNAME_def onDNAME_def onReferral_def onNegative_def cacheDelegation_def Let_def
  by (cases rt; simp only: responseType.case; intro within_rules)

lemma within_askFull: "queries_within (perQuery cfg) (askFull (queryUpstreamECS E cfg) ns n t c z ecs)"
  unfolding askFull_def Let_def
  by (rule within_bind_quiet [OF within_queryUpstreamECS]) (intro within_rules)

lemma within_resolveStep:
  assumes "quiet_validator R" "quiet_servers ora"
  shows "queries_within (2 * perQuery cfg) (resolveStep R ora (queryUpstreamECS E cfg) n t c vis ns z skip ecs e)"
proof -
  have ask: "queries_within (2 * perQuery cfg) (bindIO (queryUpstreamECS E cfg ip n' t' c ecs) f)"
    if "\<And>r. queries_within (perQuery cfg) (f r)" for ip n' t' and f :: "string + Message \<Rightarrow> (stepResult \<times> visitedSet) io"
    using within_bind [OF within_queryUpstreamECS that] by (simp add: mult_2)
  have full: "queries_within (perQuery cfg) (bindIO (if b then askFull (queryUpstreamECS E cfg) ip n t c z ecs else retIO r) f)"
    if "\<And>r. queries_within 0 (f r)" for b ip r and f :: "string + (Message \<times> responseType) \<Rightarrow> (stepResult \<times> visitedSet) io"
    by (rule within_bind_quiet [OF _ that]) (intro within_if within_askFull within_ret)
  have mods: "queries_within 0 (modIO (\<lambda>s. s\<lparr>rsInfra := g s\<rparr>))" for g by (rule within_mod) simp
  show ?thesis
    unfolding resolveStep_def Let_def
    by (intro ask full within_rules within_handleResponse assms mods)
qed

text \<open>The bound: two queries a turn, each of at most \<open>perQuery\<close> messages, \<open>MaxDepth\<close> turns for each name of a chain of at most \<open>MaxCNAMEDepth\<close> redirections.\<close>

definition query_bound :: "Resolver \<Rightarrow> int \<Rightarrow> int \<Rightarrow> nat" where
  "query_bound R cnameDepth depth =
     2 * perQuery (config R) * (nat (MaxDepth (config R) - depth) + nat (MaxCNAMEDepth (config R) - cnameDepth) * nat (MaxDepth (config R)))"

lemma within_resolveLoop:
  assumes "quiet_validator R" "quiet_servers ora" "ask = queryUpstreamECS E (config R)"
  shows "queries_within (query_bound R cd d) (resolveLoop R ora ask n t c cd vis ns z skip ecs d e)"
  using assms
proof (induction R ora ask n t c cd vis ns z skip ecs d e rule: resolveLoop.induct)
  case (1 R ora ask n t c cd vis ns z skip ecs d e)
  note step = within_resolveStep [OF "1.prems"(1,2), of "config R" E, folded "1.prems"(3)]
  show ?case
    unfolding resolveLoop.simps [of R ora ask n t c cd vis ns z skip ecs d e]
  proof (rule within_if)
    assume d: "d < MaxDepth (config R)"
    then have "nat (MaxDepth (config R) - d) = Suc (nat (MaxDepth (config R) - (d + 1)))" by linarith
    then have sum: "query_bound R cd d = 2 * perQuery (config R) + query_bound R cd (d + 1)"
      by (simp add: query_bound_def)
    show "queries_within (query_bound R cd d) (bindIO (resolveStep R ora ask n t c vis ns z skip ecs e) (\<lambda>p.
          case fst p of
            Done r \<Rightarrow> retIO r
          | Continue nameservers zone lastErr \<Rightarrow>
              resolveLoop R ora ask n t c cd (snd p) nameservers zone skip ecs (d + 1) lastErr
          | Redirect target rrs status \<Rightarrow>
              bindIO (if MaxCNAMEDepth (config R) < cd + 1 then retIO (Inl ''CNAME chain too long'')
                      else resolveLoop R ora ask target t c (cd + 1) (snd p) (roots R) [] skip ecs 0 None)
                (\<lambda>r. retIO (prependRedirect rrs status r))))"
      unfolding sum
    proof (rule within_bind [OF step])
      fix p :: "stepResult \<times> visitedSet"
      show "queries_within (query_bound R cd (d + 1)) (case fst p of
            Done r \<Rightarrow> retIO r
          | Continue nameservers zone lastErr \<Rightarrow>
              resolveLoop R ora ask n t c cd (snd p) nameservers zone skip ecs (d + 1) lastErr
          | Redirect target rrs status \<Rightarrow>
              bindIO (if MaxCNAMEDepth (config R) < cd + 1 then retIO (Inl ''CNAME chain too long'')
                      else resolveLoop R ora ask target t c (cd + 1) (snd p) (roots R) [] skip ecs 0 None)
                (\<lambda>r. retIO (prependRedirect rrs status r)))"
      proof (cases "fst p")
        case (Redirect target rrs status)
        have le: "query_bound R (cd + 1) 0 \<le> query_bound R cd (d + 1)" if "\<not> MaxCNAMEDepth (config R) < cd + 1"
        proof -
          from that have "nat (MaxCNAMEDepth (config R) - cd) = Suc (nat (MaxCNAMEDepth (config R) - (cd + 1)))" by linarith
          then show ?thesis by (simp add: query_bound_def)
        qed
        show ?thesis
          unfolding Redirect stepResult.case
          by (intro within_bind_quiet within_rules within_mono [OF "1.IH"(2) [OF d Redirect] le] "1.prems") auto
      next
        case (Continue ns' z' e')
        show ?thesis unfolding Continue stepResult.case by (rule "1.IH"(1) [OF d Continue "1.prems"])
      qed (simp add: within_ret)
    qed
  qed (rule within_ret)
qed

text \<open>
  C10. A resolution is bounded in the messages it sends, repetitions and TCP included: if the
  validator and the nested resolutions of name-server addresses send nothing,
  \<open>resolveIterativeFromInner\<close> sends at most two queries per turn (the minimised and the full name),
  \<open>MaxDepth\<close> turns per name, for the name asked and each redirection that \<open>MaxCNAMEDepth\<close>
  still allows; each query is tried at most \<open>UpstreamRetries\<close> times (once, when that is below one), and each try sends a datagram and, after a
  truncated reply, the same query over TCP, whatever the servers answer.
\<close>

theorem resolution_query_bound:
  assumes "quiet_validator R" "quiet_servers ora"
    and "resolveIterativeFromInner R ora (queryUpstreamECS (env R) (config R)) name qtype qclass cnameDepth visited ns zone skip ecs s = Some (r, s')"
  shows "messagesSent s' \<le> messagesSent s +
    2 * (2 * retriesOf (config R)) * nat (MaxDepth (config R)) * nat (MaxCNAMEDepth (config R) - cnameDepth + 1)"
proof (cases "MaxCNAMEDepth (config R) < cnameDepth")
  case False
  have loop: "queries_within (query_bound R cnameDepth 0)
      (resolveLoop R ora (queryUpstreamECS (env R) (config R)) name qtype qclass cnameDepth visited ns zone skip ecs 0 None)"
    by (rule within_resolveLoop [OF assms(1,2) refl])
  from False have "nat (MaxCNAMEDepth (config R) - cnameDepth + 1) = Suc (nat (MaxCNAMEDepth (config R) - cnameDepth))" by linarith
  then have "query_bound R cnameDepth 0 =
      2 * (2 * retriesOf (config R)) * nat (MaxDepth (config R)) * nat (MaxCNAMEDepth (config R) - cnameDepth + 1)"
    by (simp add: query_bound_def perQuery_def algebra_simps)
  with loop assms(3) False show ?thesis
    by (auto simp: queries_within_def resolveIterativeFromInner_def)
qed (use assms(3) in \<open>simp add: resolveIterativeFromInner_def retIO_def\<close>)

lemma sample_quiet: "quiet_validator (sample_resolver b None)" "quiet_servers (\<lambda>_ _. retIO (Inl e))"
  by (simp_all add: quiet_validator_def quiet_servers_def within_ret)

lemma sample_total: "validates (sample_resolver b None)" "finds_servers (\<lambda>_ _. retIO (Inl e))"
  by (simp_all add: validates_def finds_servers_def total_ret)

theorem resolution_query_bound_witness:
  "\<exists>r s'. resolveIterativeFromInner loop_resolver (\<lambda>_ _. retIO (Inl ''unknown'')) (upstreamOf loop_resolver) ''a'' TypeA ClassIN 0 newVisitedSet
      (roots loop_resolver) [] False None sample_state = Some (r, s') \<and> messagesSent s' \<le> 3960"
proof -
  have "asks (upstreamOf loop_resolver) None" by (simp add: asks_def total_queryUpstreamECS)
  then obtain r s' where run: "resolveIterativeFromInner loop_resolver (\<lambda>_ _. retIO (Inl ''unknown'')) (upstreamOf loop_resolver) ''a'' TypeA ClassIN 0 newVisitedSet
      (roots loop_resolver) [] False None sample_state = Some (r, s')"
    using totalD [OF total_iterative [OF sample_total]] sample_simps(16) unfolding loop_resolver_def by blast
  from resolution_query_bound [OF sample_quiet(1) [of loop_reply, folded loop_resolver_def] sample_quiet(2) run]
  have "messagesSent s' \<le> 3960" by (simp add: loop_resolver_def sample_state_def retriesOf_def)
  with run show ?thesis by blast
qed

section \<open>Termination\<close>

text \<open>
  C2. \<open>resolveIterativeFromInner\<close> returns a result or an error, for every question, every list
  of servers and every behaviour of the network, and leaves the cache sound, if the validator returns
  and the resolutions of name-server addresses that it starts return; the retries, the TCP exchange and every
  store in the cache are included.
\<close>

theorem resolution_returns:
  assumes "validates R" "finds_servers ora" "ecs_sendable ecs" "cache_inv (rsCache s)"
  shows "\<exists>r s'. resolveIterativeFromInner R ora (queryUpstreamECS (env R) (config R)) name qtype qclass cnameDepth visited ns zone skip ecs s
      = Some (r, s') \<and> cache_inv (rsCache s')"
proof -
  have "asks (queryUpstreamECS (env R) (config R)) ecs"
    using assms(3) by (simp add: asks_def total_queryUpstreamECS)
  from totalD [OF total_iterative [OF assms(1,2) this] assms(4)] show ?thesis by blast
qed

theorem resolution_returns_witness:
  "\<exists>r s'. resolveIterativeFromInner loop_resolver (\<lambda>_ _. retIO (Inl ''unknown'')) (upstreamOf loop_resolver) ''a'' TypeA ClassIN 0 newVisitedSet
      (roots loop_resolver) [] False None sample_state = Some (r, s') \<and> cache_inv (rsCache s')"
  unfolding loop_resolver_def by (rule resolution_returns [OF sample_total]) simp_all

section \<open>Referrals\<close>

lemma collectNS_zone:
  "collectNS rrs m z = (m', z') \<Longrightarrow> (m' = m \<and> z' = z) \<or> (\<exists>rr \<in> set rrs. rrType rr = TypeNS \<and> z' = ToLower (rrName rr))"
proof (induction rrs arbitrary: m z)
  case (Cons rr rrs)
  show ?case
  proof (cases "rrType rr = TypeNS")
    case True
    then obtain m1 where "collectNS rrs m1 (ToLower (rrName rr)) = (m', z')"
      using Cons.prems by (auto simp: Let_def split: if_splits option.splits)
    from Cons.IH [OF this] True show ?thesis by auto
  qed (use Cons in auto)
qed simp

lemma glueStep_Nil: "fold glueStep rrs [] = []"
  by (induction rrs) (auto simp: glueStep_def Let_def)

definition descends :: "string \<Rightarrow> stepResult \<Rightarrow> bool" where
  "descends zone r = (case r of Continue _ z' _ \<Rightarrow> z' = zone \<or> zone = [] \<or> at_or_below z' (ToLower zone) | _ \<Rightarrow> True)"

lemma referral_zone:
  assumes "extractDelegation (SanitizeBailiwick m zone) = (ds, z')" and "ds \<noteq> []" and "zone \<noteq> []"
  shows "at_or_below z' (ToLower zone)"
proof -
  obtain nm where c: "collectNS (filterInZone (Authority m) (ToLower zone)) [] [] = (nm, z')"
      and nm: "ds = map snd (fold glueStep (Additional (SanitizeBailiwick m zone)) nm)"
    using assms(1) by (auto simp: extractDelegation_def SanitizeBailiwick_def Let_def split: prod.splits)
  with assms(2) have "nm \<noteq> []" using glueStep_Nil by auto
  moreover have "ToLower zone \<noteq> []" using assms(3) by (simp add: ToLower_def)
  ultimately show ?thesis
    using collectNS_zone [OF c] by (auto simp: filterInZone_def bw.covers_labels)
qed

lemma post_handleResponse_descends:
  "post (handleResponse R (SanitizeBailiwick m z) rt n t c vis ns ip z skip e) (\<lambda>p. descends z (fst p))"
proof -
  have "post (onReferral R (SanitizeBailiwick m z) e) (descends z)"
    unfolding onReferral_def
    by (intro post_rules) (auto simp: descends_def dest: referral_zone)
  moreover have "post (onAnswer R r n t skip) (descends z)" for r
    unfolding onAnswer_def Let_def by (intro post_rules) (simp add: descends_def)
  moreover have "post (onCNAME R r n c skip vis) (\<lambda>p. descends z (fst p))" for r
    unfolding onCNAME_def Let_def by (intro post_rules) (simp_all add: descends_def)
  moreover have "post (onDNAME R r n skip vis) (\<lambda>p. descends z (fst p))" for r
    unfolding onDNAME_def Let_def by (intro post_rules) (simp_all add: descends_def)
  moreover have "post (onNegative R r n t c neg rc skip) (descends z)" for r neg rc
    unfolding onNegative_def by (intro post_rules) (simp_all add: descends_def)
  moreover have "post (retIO (dropServer ns ip z None e)) (descends z)"
    by (intro post_rules) (simp add: descends_def dropServer_def Let_def)
  moreover have "post k (descends z) \<Longrightarrow> post (bindIO k (\<lambda>r. retIO (r, vis))) (\<lambda>p. descends z (fst p))" for k
    by (erule post_bind) (simp add: post_ret)
  ultimately show ?thesis
    unfolding handleResponse_def Let_def by (cases rt) simp_all
qed

lemma post_askFull: "post (askFull ask ip n t c z ecs) (\<lambda>r. case r of Inl _ \<Rightarrow> True | Inr (resp, _) \<Rightarrow> \<exists>m. resp = SanitizeBailiwick m z)"
  unfolding askFull_def Let_def by (intro post_rules) auto

lemma post_resolveStep_descends:
  "post (resolveStep R ora ask n t c vis ns z skip ecs e) (\<lambda>p. descends z (fst p))"
proof -
  have full: "post (bindIO (if b then askFull ask ip n t c z ecs else retIO (Inr (SanitizeBailiwick m z, rt))) f) Q"
    if "\<And>r. (case r of Inl _ \<Rightarrow> True | Inr (resp, _) \<Rightarrow> \<exists>m. resp = SanitizeBailiwick m z) \<Longrightarrow> post (f r) Q"
    for b ip m rt and f :: "string + Message \<times> responseType \<Rightarrow> (stepResult \<times> visitedSet) io" and Q
    by (rule post_bind [OF _ that]) (auto intro!: post_askFull post_ret)
  show ?thesis
    unfolding resolveStep_def Let_def
    by (intro full post_rules)
       (auto simp: descends_def dropServer_def Let_def intro!: post_ret post_handleResponse_descends [unfolded descends_def] split: sum.split)
qed

text \<open>
  C11. Referrals go down the tree: when a turn of the loop goes on, the zone it is in is unchanged (a
  server failed and another is tried), or the zone of the referral is, as a sequence of labels, at or below the zone whose server gave it, so a
  server cannot hand the resolution to a zone outside its own.
\<close>

theorem referrals_descend:
  assumes "resolveStep R ora ask name qtype qclass visited ns zone skip ecs lastErr s = Some ((Continue ns' zone' err, visited'), s')"
  shows "zone' = zone \<or> zone = [] \<or> at_or_below zone' (ToLower zone)"
  using postD [OF post_resolveStep_descends assms] by (simp add: descends_def)

theorem referrals_descend_witness:
  "\<exists>s' vis. resolveStep loop_resolver (\<lambda>_ _. retIO (Inl ''unknown'')) (upstreamOf loop_resolver) ''a'' TypeA ClassIN newVisitedSet (roots loop_resolver) ''a'' False None None
      sample_state = Some ((Continue [\<lparr>hostname = ''a'', ipv4 = [], ipv6 = []\<rparr>] ''a'' None, vis), s')
     \<and> at_or_below ''a'' (ToLower ''a'')"
proof -
  have clean: "SanitizeBailiwick loop_message ''a'' = loop_message" and below: "at_or_below ''a'' (ToLower ''a'')" by code_simp+
  obtain s' vis where turn: "resolveStep loop_resolver (\<lambda>_ _. retIO (Inl ''unknown'')) (upstreamOf loop_resolver) ''a'' TypeA ClassIN newVisitedSet (roots loop_resolver) ''a'' False None None
      sample_state = Some ((Continue [\<lparr>hostname = ''a'', ipv4 = [], ipv6 = []\<rparr>] ''a'' None, vis), s')"
    using loop_first_turn [OF empty_sample clean] by blast
  from referrals_descend [OF turn] turn below show ?thesis by blast
qed

end
