(* ===== verification/Resolver_Glueless.thy ===== *)
theory Resolver_Glueless
  imports Resolver_Iter_Properties
begin

text \<open>
  Delegations without an address (\<open>resolver.go\<close>, \<open>resolveNSAddr\<close>): the address of a name server is
  found by a resolution of its own, started with a fresh set of visited servers and with no bound on how deep such
  resolutions nest.  \<open>maintains I m Q\<close> says that \<open>m\<close> keeps the invariant \<open>I\<close> of the
  state and that its result, when it returns, is in \<open>Q\<close>; a computation that never returns is one for which
  \<open>Q\<close> can be empty.
\<close>

section \<open>Computations under an invariant of the state\<close>

definition maintains :: "(RState \<Rightarrow> bool) \<Rightarrow> 'a io \<Rightarrow> ('a \<Rightarrow> bool) \<Rightarrow> bool" where
  "maintains I m Q \<longleftrightarrow> (\<forall>s a s'. I s \<longrightarrow> m s = Some (a, s') \<longrightarrow> I s' \<and> Q a)"

named_theorems maintains_rules

lemma maintains_ret [maintains_rules]: "Q a \<Longrightarrow> maintains I (retIO a) Q"
  by (simp add: maintains_def retIO_def)

lemma maintains_panic [maintains_rules]: "maintains I panicIO Q"
  by (simp add: maintains_def panicIO_def)

lemma maintains_bind: "maintains I m P \<Longrightarrow> (\<And>a. P a \<Longrightarrow> maintains I (f a) Q) \<Longrightarrow> maintains I (bindIO m f) Q"
  unfolding maintains_def
proof (intro allI impI)
  fix s b s' assume m: "\<forall>s a s'. I s \<longrightarrow> m s = Some (a, s') \<longrightarrow> I s' \<and> P a"
    and f: "\<And>a. P a \<Longrightarrow> \<forall>s b s'. I s \<longrightarrow> f a s = Some (b, s') \<longrightarrow> I s' \<and> Q b"
    and s: "I s" "bindIO m f s = Some (b, s')"
  from s(2) obtain a s1 where run: "m s = Some (a, s1)" "f a s1 = Some (b, s')"
    by (auto simp: bindIO_def split: option.splits prod.splits)
  from m s(1) run(1) have "I s1" "P a" by simp_all
  from f [OF this(2)] this(1) run(2) show "I s' \<and> Q b" by simp
qed

lemma maintains_bind_any [maintains_rules]: "maintains I m (\<lambda>_. True) \<Longrightarrow> (\<And>a. maintains I (f a) Q) \<Longrightarrow> maintains I (bindIO m f) Q"
  by (rule maintains_bind) auto

lemma maintains_bind_ret: "maintains I (f a) Q \<Longrightarrow> maintains I (bindIO (retIO a) f) Q"
  by (rule maintains_bind [where P = "\<lambda>b. b = a"]) (auto simp: maintains_ret)

lemma maintains_never: "maintains I m (\<lambda>_. False) \<Longrightarrow> maintains I (bindIO m f) Q"
  by (rule maintains_bind [where P = "\<lambda>_. False"]) auto

lemma maintains_if [maintains_rules]: "(b \<Longrightarrow> maintains I m Q) \<Longrightarrow> (\<not> b \<Longrightarrow> maintains I m' Q) \<Longrightarrow> maintains I (if b then m else m') Q"
  by simp

lemma maintains_option [maintains_rules]: "(x = None \<Longrightarrow> maintains I m Q) \<Longrightarrow> (\<And>a. x = Some a \<Longrightarrow> maintains I (f a) Q) \<Longrightarrow> maintains I (case x of None \<Rightarrow> m | Some a \<Rightarrow> f a) Q"
  by (cases x) simp_all

lemma maintains_sum [maintains_rules]: "(\<And>a. x = Inl a \<Longrightarrow> maintains I (f a) Q) \<Longrightarrow> (\<And>a. x = Inr a \<Longrightarrow> maintains I (g a) Q) \<Longrightarrow> maintains I (case x of Inl a \<Rightarrow> f a | Inr a \<Rightarrow> g a) Q"
  by (cases x) simp_all

lemma maintains_outcome [maintains_rules]:
  "maintains I m Q \<Longrightarrow> (\<And>e. maintains I (f e) Q) \<Longrightarrow> (\<And>a. maintains I (g a) Q) \<Longrightarrow>
   maintains I (case x of Panic \<Rightarrow> m | Err e \<Rightarrow> f e | Ret a \<Rightarrow> g a) Q"
  by (cases x) simp_all

lemma maintains_prod [maintains_rules]: "(\<And>a b. x = (a, b) \<Longrightarrow> maintains I (f a b) Q) \<Longrightarrow> maintains I (case x of (a, b) \<Rightarrow> f a b) Q"
  by (cases x) simp_all

lemma maintains_post: "maintains I m (\<lambda>_. True) \<Longrightarrow> post m Q \<Longrightarrow> maintains I m Q"
  unfolding maintains_def post_def by blast

lemma maintains_None: "maintains I m (\<lambda>_. False) \<Longrightarrow> I s \<Longrightarrow> m s = None"
  unfolding maintains_def by (cases "m s") auto

section \<open>A cache without an address of the server\<close>

definition lacks_address :: "string \<Rightarrow> RState \<Rightarrow> bool" where
  "lacks_address host s \<longleftrightarrow> cache_inv (rsCache s) \<and>
     (\<forall>k e. findEntry (rsCache s) k = Some e \<longrightarrow> keyType k \<noteq> 0 \<and> (keyName k = host \<longrightarrow> keyType k \<noteq> TypeA \<and> keyType k \<noteq> TypeAAAA))"

lemma lacks_same: "rsCache s' = rsCache s \<Longrightarrow> lacks_address h s' = lacks_address h s"
  by (simp add: lacks_address_def)

lemma maintains_read [maintains_rules]: "(\<And>n. Q (f n)) \<Longrightarrow> maintains (lacks_address h) (readIO f) Q"
  by (auto simp: maintains_def readIO_def lacks_address_def)

lemma maintains_send [maintains_rules]: "(\<And>n. Q (f n)) \<Longrightarrow> maintains (lacks_address h) (sendIO f) Q"
  by (auto simp: maintains_def sendIO_def lacks_address_def)

lemma maintains_mod [maintains_rules]: "(\<And>s. rsCache (f s) = rsCache s) \<Longrightarrow> Q () \<Longrightarrow> maintains (lacks_address h) (modIO f) Q"
  by (auto simp: maintains_def modIO_def lacks_address_def)

lemma maintains_read_bind: "(\<And>a. maintains (lacks_address h) (f a) Q) \<Longrightarrow> maintains (lacks_address h) (bindIO (readIO g) f) Q"
  by (intro maintains_bind_any maintains_read TrueI)

lemma maintains_mod_bind:
  "(\<And>s. rsCache (g s) = rsCache s) \<Longrightarrow> maintains (lacks_address h) (f ()) Q \<Longrightarrow> maintains (lacks_address h) (bindIO (modIO g) f) Q"
  by (rule maintains_bind_any) (auto intro: maintains_mod)

lemma maintains_retryLoop: "maintains (lacks_address h) once (\<lambda>_. True) \<Longrightarrow> maintains (lacks_address h) (retryLoop j once e) (\<lambda>_. True)"
  by (induction j arbitrary: e) (auto intro!: maintains_rules)

lemma maintains_queryUpstreamECS: "maintains (lacks_address h) (queryUpstreamECS E cfg ip n t c ecs) (\<lambda>_. True)"
  unfolding queryUpstreamECS_def queryUpstreamOnceECS_def sendQuery_def sendPacked_def exchange_def
  by (intro maintains_bind_any maintains_mod maintains_retryLoop maintains_rules) simp_all

text \<open>A delegation is stored under the type NS, and so brings no address.\<close>

lemma maintains_storeNS: "maintains (lacks_address h) (storeIO E z TypeNS ClassIN an au) (\<lambda>_. True)"
proof -
  have "lacks_address h (s\<lparr>rsCache := c\<rparr>)"
    if l: "lacks_address h s" and st: "Store now (rsCache s) z TypeNS ClassIN an au = Some c" for s now c
  proof (cases "c = rsCache s")
    case False
    let ?k = "mkKey (ToLower z) TypeNS ClassIN []"
    from l have inv: "cache_inv (rsCache s)" by (simp add: lacks_address_def)
    let ?e = "(newEntry now (rsCache s) (clampTTL (rsCache s) (extractTTL (rsCache s) an)))\<lparr>Records := cloneRRs an,
      entAuthority := cloneRRs au, DNSSECStatus := []\<rparr>"
    have e: "storable (rsCache s) ?k ?e" "storeLocked now (rsCache s) ?k ?e = Some c"
      using st False by (auto simp: Store_def StoreWithStatus_def Let_def newEntry_def split: if_splits
          intro!: storable_new [OF _ clamp_limits(1)])
    from storeLocked_ok [OF inv e(1), of now] e(2)
    have "cache_inv c" and old: "\<And>k v. findEntry c k = Some v \<Longrightarrow> k = ?k \<or> findEntry (rsCache s) k = Some v" by auto
    with l show ?thesis unfolding lacks_address_def by (auto dest!: old)
  qed (use l in simp)
  then have "maintains (lacks_address h) (cacheIO (\<lambda>c. Store now c z TypeNS ClassIN an au)) (\<lambda>_. True)" for now
    by (auto simp: maintains_def cacheIO_def split: option.splits)
  then show ?thesis
    unfolding storeIO_def by (intro maintains_bind_any maintains_read TrueI)
qed

lemma lacks_Get:
  assumes "lacks_address h s" "ToLower h = h" "t = TypeA \<or> t = TypeAAAA"
  shows "\<exists>c. Get now (rsCache s) h t ClassIN = (None, c) \<and> lacks_address h (s\<lparr>rsCache := c\<rparr>)"
proof -
  obtain r c where g: "Get now (rsCache s) h t ClassIN = (r, c)" by fastforce
  have "r = None"
  proof (cases r)
    case (Some e)
    then have "fst (Get now (rsCache s) h t ClassIN) = Some e" by (simp add: g)
    from Get_hit [OF this] obtain k e0 where "findEntry (rsCache s) k = Some e0" "k = mkKey h t ClassIN [] \<or> keyType k = 0"
      using assms(2) by auto
    with assms(1,3) show ?thesis by (auto simp: lacks_address_def)
  qed
  moreover have "cache_inv c" using Get_inv [of "rsCache s" now h t ClassIN] assms(1) by (simp add: g lacks_address_def)
  moreover have "\<exists>e. findEntry (rsCache s) k = Some e" if "findEntry c k = Some e'" for k e'
    using Get_find [of now "rsCache s" h t ClassIN k e'] that by (auto simp: g)
  ultimately show ?thesis using assms(1) by (auto simp: g lacks_address_def)
qed

lemma maintains_cachedAddr:
  assumes "ToLower h = h" "t = TypeA \<or> t = TypeAAAA"
  shows "maintains (lacks_address h) (cachedAddr E t parse [\<lparr>hostname = h, ipv4 = x, ipv6 = y\<rparr>]) (\<lambda>r. r = None)"
proof -
  have "lacks_address h s' \<and> r = None"
    if "lacks_address h s" "cachedAddr E t parse [\<lparr>hostname = h, ipv4 = x, ipv6 = y\<rparr>] s = Some (r, s')" for s r s'
  proof -
    have "lacks_address h (s\<lparr>tick := tick s + 1\<rparr>)" using that(1) by (simp add: lacks_address_def)
    from lacks_Get [OF this assms, of "clock E (tick s)"] that(2) show ?thesis
      by (auto simp: bindIO_def readIO_def retIO_def)
  qed
  then show ?thesis unfolding maintains_def by blast
qed

section \<open>The two turns of the loop\<close>

text \<open>The name that the resolver asks the root servers for, and a reply that refers it to the server \<open>host\<close> without an address.\<close>

definition firstQuery :: "Resolver \<Rightarrow> string \<Rightarrow> string \<times> u16" where
  "firstQuery R host = (if QMinEnabled (config R) then minimizeQName host TypeA [] else (host, TypeA))"

definition refers_to_itself :: "Resolver \<Rightarrow> string \<Rightarrow> Message \<Rightarrow> bool" where
  "refers_to_itself R host m \<longleftrightarrow>
     classifyResponse (SanitizeBailiwick m []) (fst (firstQuery R host)) (snd (firstQuery R host)) = responseReferral \<and>
     (\<exists>zone t4 t6. extractDelegation (SanitizeBailiwick m []) = ([\<lparr>Hostname = host, IPv4 = [], IPv6 = [], IPv4TTL = t4, IPv6TTL = t6\<rparr>], zone))"

lemma maintains_onReferral:
  assumes "extractDelegation m = ([\<lparr>Hostname = h, IPv4 = [], IPv6 = [], IPv4TTL = t4, IPv6TTL = t6\<rparr>], zone)"
  shows "maintains (lacks_address h) (onReferral R m e) (\<lambda>r. r = Continue [\<lparr>hostname = h, ipv4 = [], ipv6 = []\<rparr>] zone e)"
  unfolding onReferral_def cacheDelegation_def assms Let_def
  by (auto simp: delegationToNSList_def intro!: maintains_rules maintains_storeNS)

lemma select_root:
  assumes "\<exists>ns \<in> set servers. ipv4 ns \<noteq> []"
  shows "maintains I (selectAndResolveNS R ora servers z) (\<lambda>r. \<exists>host ip. r = Inr (host, ip))"
proof -
  have "List.find (\<lambda>ns. ipv4 ns \<noteq> []) (SortByRTT i servers) \<noteq> None" for i
    using assms by (auto simp: find_None_iff SortByRTT_def)
  then have first: "\<exists>ns. List.find (\<lambda>ns. ipv4 ns \<noteq> []) (SortByRTT i servers) = Some ns" for i by blast
  show ?thesis
    unfolding maintains_def
  proof (intro allI impI)
    fix s r s' assume "I s" "selectAndResolveNS R ora servers z s = Some (r, s')"
    with first [of "rsInfra s"] show "I s' \<and> (\<exists>host ip. r = Inr (host, ip))"
      by (auto simp: selectAndResolveNS_def Let_def)
  qed
qed

lemma first_turn:
  assumes "\<And>ip. post (queryUpstreamECS (env R) (config R) ip (fst (firstQuery R h)) (snd (firstQuery R h)) ClassIN None)
      (\<lambda>r. \<exists>m. r = Inr m \<and> refers_to_itself R h m)"
    and "\<exists>ns \<in> set (roots R). ipv4 ns \<noteq> []"
  shows "maintains (lacks_address h) (resolveStep R ora (upstreamOf R) h TypeA ClassIN newVisitedSet (roots R) [] False None None)
    (\<lambda>p. \<exists>zone. fst p = Continue [\<lparr>hostname = h, ipv4 = [], ipv6 = []\<rparr>] zone None)"
proof -
  obtain qn qt where q: "firstQuery R h = (qn, qt)" by fastforce
  have reply: "maintains (lacks_address h) (handleResponse R (SanitizeBailiwick m []) rt h TypeA ClassIN vis ns ip [] False None)
      (\<lambda>p. \<exists>zone. fst p = Continue [\<lparr>hostname = h, ipv4 = [], ipv6 = []\<rparr>] zone None)"
    if "refers_to_itself R h m" "rt = responseReferral" for m rt vis ns ip
    using that unfolding refers_to_itself_def handleResponse_def Let_def
    by (auto intro!: maintains_bind [OF maintains_onReferral] maintains_ret)
  have ask: "maintains (lacks_address h) (queryUpstreamECS (env R) (config R) ip qn qt ClassIN None) (\<lambda>r. \<exists>m. r = Inr m \<and> refers_to_itself R h m)" for ip
    using maintains_post [OF maintains_queryUpstreamECS assms(1)] by (simp add: q)
  have referral: "classifyResponse (SanitizeBailiwick m []) qn qt = responseReferral" if "refers_to_itself R h m" for m
    using that by (simp add: refers_to_itself_def q)
  show ?thesis
    unfolding resolveStep_def Let_def firstQuery_def [symmetric]
    by (rule maintains_bind [OF select_root [OF assms(2)]], clarsimp simp: Has_def newVisitedSet_def q,
        rule maintains_read_bind, rule maintains_bind [OF ask], clarsimp simp: referral,
        rule maintains_read_bind, rule maintains_mod_bind)
       (auto simp: referral intro!: reply maintains_bind_ret)
qed

lemma second_turn:
  assumes "ToLower h = h" "maintains (lacks_address h) (ora h TypeA) (\<lambda>_. False)"
  shows "maintains (lacks_address h) (resolveStep R ora ask h TypeA ClassIN vis [\<lparr>hostname = h, ipv4 = [], ipv6 = []\<rparr>] zone False None None) (\<lambda>_. False)"
proof -
  let ?ns = "[\<lparr>hostname = h, ipv4 = [], ipv6 = []\<rparr>]"
  have none: "maintains (lacks_address h) (bindIO m (\<lambda>r. case r of Some a \<Rightarrow> retIO (Some a) | None \<Rightarrow> m')) Q"
    if "maintains (lacks_address h) m (\<lambda>r. r = None)" "maintains (lacks_address h) m' Q" for m m' :: "(string \<times> string) option io" and Q
    using that by (auto intro!: maintains_bind)
  have pass: "maintains (lacks_address h) (resolvePass ora b zone ?ns) (\<lambda>_. False)" if "InZone h zone = b" for b
    using that by (simp add: maintains_never assms(2))
  have skipped: "maintains (lacks_address h) (resolvePass ora (\<not> InZone h zone) zone ?ns) (\<lambda>r. r = None)"
    by (simp add: maintains_ret)
  have both: "maintains (lacks_address h) (orElseIO (resolvePass ora False zone ?ns) (resolvePass ora True zone ?ns)) (\<lambda>_. False)"
  proof (cases "InZone h zone")
    case True
    with skipped show ?thesis unfolding orElseIO.simps by (intro none pass) simp_all
  next
    case False
    then show ?thesis unfolding orElseIO.simps by (intro maintains_never pass) simp
  qed
  have "maintains (lacks_address h) (selectAndResolveNS R ora ?ns zone) (\<lambda>_. False)"
    unfolding maintains_def
  proof (intro allI impI)
    fix s r s' assume s: "lacks_address h s" "selectAndResolveNS R ora ?ns zone s = Some (r, s')"
    have "maintains (lacks_address h) (orElseIO (cachedAddr (env R) TypeA ParseA ?ns) (orElseIO (cachedAddr (env R) TypeAAAA ParseAAAA ?ns)
        (orElseIO (resolvePass ora False zone ?ns) (resolvePass ora True zone ?ns)))) (\<lambda>_. False)"
      unfolding orElseIO.simps [of "cachedAddr _ _ _ _"] by (intro none maintains_cachedAddr both assms(1)) simp_all
    note dead = maintains_None [OF maintains_never [OF this] s(1)]
    have "selectAndResolveNS R ora ?ns zone s = None"
      by (cases "PreferIPv4 (config R)") (simp_all add: selectAndResolveNS_def Let_def dead del: orElseIO.simps cachedAddr.simps resolvePass.simps)
    with s(2) show "lacks_address h s' \<and> False" by simp
  qed
  then show ?thesis unfolding resolveStep_def by (rule maintains_never)
qed

text \<open>
  C26. Nested resolutions are not bounded.  Take a resolver with any configuration that lets it follow a referral, a name
  \<open>h\<close>, in lower case and without a final dot, and a network in which every server that is asked what the resolver asks the root servers about
  \<open>h\<close> (the name itself, or the minimised one) answers with a referral to the single name server \<open>h\<close>, without an address.
  As long as the cache has no address of \<open>h\<close> and no denial, the resolution of the address of \<open>h\<close>
  starts a resolution of the same name, and so on: it does not return, whatever depth of nesting is allowed.  It is the nesting, not a crash: with
  any answer to the nested resolution the same iteration returns.
\<close>

theorem glueless_delegation_diverges:
  assumes "\<And>ip. post (queryUpstreamECS (env R) (config R) ip (fst (firstQuery R h)) (snd (firstQuery R h)) ClassIN None)
      (\<lambda>r. \<exists>m. r = Inr m \<and> refers_to_itself R h m)"
    and "\<exists>ns \<in> set (roots R). ipv4 ns \<noteq> []" "ToLower h = h" "TrimSuffix h ''.'' = h"
    and "2 \<le> MaxDepth (config R)" "0 \<le> MaxCNAMEDepth (config R)" "validates R" "lacks_address h s"
  shows "resolveIterativeECS n R h TypeA ClassIN None s = None \<and>
    (\<forall>ora. finds_servers ora \<longrightarrow>
       (\<exists>r s'. resolveIterativeFromInner R ora (queryUpstreamECS (env R) (config R)) h TypeA ClassIN 0 newVisitedSet (roots R) [] False None s = Some (r, s')))"
proof
  have "maintains (lacks_address h) (resolveInner n R (upstreamOf R) h TypeA ClassIN (roots R) [] False None) (\<lambda>_. False)"
  proof (induction n)
    case (Suc n)
    let ?ora = "\<lambda>host t. resolveInner n R (upstreamOf R) (ToLower (TrimSuffix host ''.'')) t ClassIN (roots R) [] False None"
    have nested: "maintains (lacks_address h) (?ora h TypeA) (\<lambda>_. False)" using Suc assms(3,4) by simp
    have again: "maintains (lacks_address h) (resolveLoop R ?ora (upstreamOf R) h TypeA ClassIN 0 vis [\<lparr>hostname = h, ipv4 = [], ipv6 = []\<rparr>] zone False None 1 None) (\<lambda>_. False)" for vis zone
      using assms(5) by (subst resolveLoop.simps) (auto intro!: maintains_never second_turn assms(3) nested)
    show ?case
      unfolding resolveInner.simps resolveIterativeFromInner_def
      using assms(5,6) by (subst resolveLoop.simps) (auto intro!: maintains_bind [OF first_turn [OF assms(1,2)]] again)
  qed (simp add: maintains_def)
  then show "resolveIterativeECS n R h TypeA ClassIN None s = None"
    unfolding resolveIterativeECS_def using assms(8) by (rule maintains_None)
  have "asks (upstreamOf R) None" by (simp add: asks_def total_queryUpstreamECS)
  then show "\<forall>ora. finds_servers ora \<longrightarrow>
       (\<exists>r s'. resolveIterativeFromInner R ora (queryUpstreamECS (env R) (config R)) h TypeA ClassIN 0 newVisitedSet (roots R) [] False None s = Some (r, s'))"
    using totalD [OF total_iterative [OF assms(7)]] assms(8) unfolding lacks_address_def by blast
qed

lemma loop_network:
  "post (queryUpstreamECS (env loop_resolver) (config loop_resolver) ip (fst (firstQuery loop_resolver ''a'')) (snd (firstQuery loop_resolver ''a'')) ClassIN None)
     (\<lambda>r. \<exists>m. r = Inr m \<and> refers_to_itself loop_resolver ''a'' m)"
proof -
  have "firstQuery loop_resolver ''a'' = (''a'', TypeA)" by (simp add: firstQuery_def loop_resolver_def)
  then show ?thesis
    using sample_query [OF loop_accepted(1-3)] loop_accepted(4,5) loop_delegation
    by (simp add: post_def refers_to_itself_def) (simp add: loop_resolver_def)
qed

theorem glueless_delegation_diverges_witness:
  "resolveIterativeECS 100 loop_resolver ''a'' TypeA ClassIN None sample_state = None \<and>
   (\<exists>r s'. resolveIterativeFromInner loop_resolver (\<lambda>_ _. retIO (Inl ''unknown'')) (queryUpstreamECS (env loop_resolver) (config loop_resolver)) ''a'' TypeA ClassIN 0
      newVisitedSet (roots loop_resolver) [] False None sample_state = Some (r, s'))"
proof -
  have "lacks_address ''a'' sample_state" using empty_sample by (simp add: lacks_address_def)
  moreover have "ToLower ''a'' = ''a''" "TrimSuffix ''a'' ''.'' = ''a''" by code_simp+
  ultimately show ?thesis
    using glueless_delegation_diverges [OF loop_network] sample_total unfolding loop_resolver_def by simp
qed

end
