(* ===== verification/Server_Build.thy ===== *)
theory Server_Build
  imports Resolver_Upstream Security_Zone Security_Rate
begin

text \<open>
  The parts of \<open>server/handler.go\<close> that build replies: errors, cached and fresh answers, the blocked
  answer, truncation, cookies, client subnet and extended errors.  Everything here is a
  function of the handler's settings; the handler itself is in the next theory.

  The buffers of \<open>internal/pool\<close> have 4096 bytes.  What an earlier user left in one is overwritten up to
  the length of the packed message, so the model packs into zeros.
\<close>

record Blocklist =
  IsBlocked :: "string \<Rightarrow> bool"
  BlockingMode :: string
  CustomIP :: string

record MainHandler =
  hAcl :: "ACL option"
  noCacheNets :: "IPNet list"
  privateFilter :: bool
  blocklist :: "Blocklist option"
  cookiesEnabled :: bool
  cookieSecret :: bytes
  hEcsEnabled :: bool
  ecsMaxPrefix :: int
  ecsMaxPrefixV6 :: int
  downstreamUDPBufferSize :: int

text \<open>The limiters of \<open>NewMainHandler\<close> are in the state of the handler; a nil access list is \<open>None\<close>.\<close>

definition NewMainHandler :: "ACL option \<Rightarrow> MainHandler" where
  "NewMainHandler acl = \<lparr>hAcl = acl, noCacheNets = [], privateFilter = False, blocklist = None, cookiesEnabled = False,
     cookieSecret = [], hEcsEnabled = False, ecsMaxPrefix = 0, ecsMaxPrefixV6 = 0, downstreamUDPBufferSize = 0\<rparr>"

definition SetPrivateFilter :: "bool \<Rightarrow> MainHandler \<Rightarrow> MainHandler" where
  "SetPrivateFilter enabled h = h\<lparr>privateFilter := enabled\<rparr>"

definition SetBlocklist :: "Blocklist \<Rightarrow> MainHandler \<Rightarrow> MainHandler" where
  "SetBlocklist bl h = h\<lparr>blocklist := Some bl\<rparr>"

definition SetDownstreamUDPBufferSize :: "int \<Rightarrow> MainHandler \<Rightarrow> MainHandler" where
  "SetDownstreamUDPBufferSize sz h = h\<lparr>downstreamUDPBufferSize := sz\<rparr>"

definition SetECSPrefixes :: "bool \<Rightarrow> int \<Rightarrow> int \<Rightarrow> MainHandler \<Rightarrow> MainHandler" where
  "SetECSPrefixes enabled v4 v6 h = h\<lparr>hEcsEnabled := enabled, ecsMaxPrefix := v4, ecsMaxPrefixV6 := v6\<rparr>"

definition SetECS :: "bool \<Rightarrow> int \<Rightarrow> MainHandler \<Rightarrow> MainHandler" where
  "SetECS enabled maxPrefix h = SetECSPrefixes enabled maxPrefix 0 h"

text \<open>\<open>rand.Read\<close> is the argument: the secret it filled, or its error.\<close>

definition EnableCookies :: "bytes option \<Rightarrow> MainHandler \<Rightarrow> bool \<times> MainHandler" where
  "EnableCookies r h =
     (case r of
        None \<Rightarrow> (False, h\<lparr>cookiesEnabled := False, cookieSecret := []\<rparr>)
      | Some secret \<Rightarrow> (True, h\<lparr>cookiesEnabled := True, cookieSecret := secret\<rparr>))"

definition EnableCookiesWithSecret :: "bytes \<Rightarrow> MainHandler \<Rightarrow> MainHandler" where
  "EnableCookiesWithSecret secret h = h\<lparr>cookiesEnabled := True, cookieSecret := secret\<rparr>"

section \<open>Client subnet\<close>

definition buildOutboundECS :: "MainHandler \<Rightarrow> EDNS0 option \<Rightarrow> ECSOption option" where
  "buildOutboundECS h opt =
     (if \<not> hEcsEnabled h \<or> opt = None then None
      else (case okOf (ExtractECSFromOPT opt) of
              None \<Rightarrow> None
            | Some None \<Rightarrow> None
            | Some (Some clientECS) \<Rightarrow>
                if SourcePrefixLen clientECS = 0 then Some (clientECS\<lparr>ScopePrefixLen := 0\<rparr>)
                else if IsReservedIP (ecsAddress clientECS) then None
                else (let maxV4 = (if ecsMaxPrefix h \<le> 0 \<or> 32 < ecsMaxPrefix h then 24 else ecsMaxPrefix h);
                          maxV6 = (if ecsMaxPrefixV6 h \<le> 0 \<or> 128 < ecsMaxPrefixV6 h then 56 else ecsMaxPrefixV6 h);
                          src = SourcePrefixLen clientECS;
                          cap = (\<lambda>mx. if mx < int (unat src) then of_int mx else src);
                          out = (\<lambda>src. Some \<lparr>Family = Family clientECS, SourcePrefixLen = src, ScopePrefixLen = 0,
                                             ecsAddress = TruncateIP (ecsAddress clientECS) src\<rparr>)
                      in if Family clientECS = 1 then out (cap maxV4)
                         else if Family clientECS = 2 then out (cap maxV6)
                         else None)))"

definition CacheKey :: "ECSOption option \<Rightarrow> string" where
  "CacheKey ecs =
     (case ecs of
        None \<Rightarrow> []
      | Some e \<Rightarrow>
          if SourcePrefixLen e = 0 then []
          else IP_String (TruncateIP (ecsAddress e) (SourcePrefixLen e)) @ ''/'' @ showNat (unat (SourcePrefixLen e)))"

definition chooseCacheECSKey :: "ECSOption option \<Rightarrow> ECSOption option \<Rightarrow> string" where
  "chooseCacheECSKey outboundECS upstreamECS =
     (case (outboundECS, upstreamECS) of
        (Some out, Some upst) \<Rightarrow>
          if ScopePrefixLen upst = 0 then []
          else CacheKey (Some \<lparr>Family = Family out, SourcePrefixLen = ScopePrefixLen upst, ScopePrefixLen = 0,
                               ecsAddress = TruncateIP (ecsAddress out) (ScopePrefixLen upst)\<rparr>)
      | _ \<Rightarrow> [])"

definition advertisedSize :: "MainHandler \<Rightarrow> u16" where
  "advertisedSize h = (let v = downstreamUDPBufferSize h in if v < 512 \<or> 65535 < v then 1232 else of_int v)"

section \<open>Cookies\<close>

definition parseIPBytes :: "string \<Rightarrow> bytes" where
  "parseIPBytes ipStr =
     (case ParseIP ipStr of
        None \<Rightarrow> bytes_of ipStr
      | Some ip \<Rightarrow> (case To4 ip of Some v4 \<Rightarrow> v4 | None \<Rightarrow> (case To16 ip of Some v6 \<Rightarrow> v6 | None \<Rightarrow> [])))"

text \<open>\<open>copy(key[:], secret)\<close> into an array of 16 bytes; \<open>PutUint64\<close> in little-endian order.\<close>

definition putUint64LE :: "u64 \<Rightarrow> bytes" where
  "putUint64LE v = map (\<lambda>i. ucast (drop_bit (8 * i) v)) [0..<8]"

definition generateServerCookieAt :: "MainHandler \<Rightarrow> bytes \<Rightarrow> string \<Rightarrow> u32 \<Rightarrow> bytes" where
  "generateServerCookieAt h clientCookie clientIP timestamp =
     (let hdr = [1, 0, 0, 0] @ putUint32 timestamp;
          msg = clientCookie @ hdr @ parseIPBytes clientIP;
          key = padCopy 16 (cookieSecret h)
      in hdr @ putUint64LE (SipHash24 key msg))"

text \<open>\<open>binary.BigEndian.Uint16\<close> and \<open>Uint32\<close> of a slice of that length.\<close>

fun be16 :: "bytes \<Rightarrow> u16" where
  "be16 (b0 # b1 # _) = getUint16 b0 b1"
| "be16 _ = 0"

fun be32 :: "bytes \<Rightarrow> u32" where
  "be32 (b0 # b1 # b2 # b3 # _) = getUint32 b0 b1 b2 b3"
| "be32 _ = 0"

definition validateServerCookie :: "MainHandler \<Rightarrow> u32 \<Rightarrow> bytes \<Rightarrow> bytes \<Rightarrow> string \<Rightarrow> bool" where
  "validateServerCookie h now clientCookie serverCookie clientIP =
     (if length serverCookie \<noteq> 16 \<or> serverCookie ! 0 \<noteq> 1 then False
      else (let timestamp = be32 (take 4 (drop 4 serverCookie)) in
            if timestamp < now \<and> 3600 < now - timestamp then False
            else if now < timestamp \<and> 300 < timestamp - now then False
            else serverCookie = generateServerCookieAt h clientCookie clientIP timestamp))"

section \<open>Options added to a reply\<close>

text \<open>
  An option is appended to the first OPT record of the additional section; if there is none, one is made
  with the size \<open>size\<close>.
\<close>

fun appendToOPT :: "EDNSOption \<Rightarrow> ResourceRecord list \<Rightarrow> ResourceRecord list option" where
  "appendToOPT opt [] = None"
| "appendToOPT opt (rr # rrs) =
     (if rrType rr \<noteq> TypeOPT then map_option (\<lambda>rrs. rr # rrs) (appendToOPT opt rrs)
      else (let rd = rrRData rr @ optBytes opt in Some (rr\<lparr>rrRData := rd, rrRDLength := of_nat (length rd)\<rparr> # rrs)))"

definition addOption :: "u16 \<Rightarrow> EDNSOption \<Rightarrow> Message \<Rightarrow> Message" where
  "addOption sz opt msg =
     msg\<lparr>Additional := (case appendToOPT opt (Additional msg) of
                          Some rrs \<Rightarrow> rrs
                        | None \<Rightarrow> Additional msg @ [BuildOPTWithOptions sz False [opt]])\<rparr>"

definition packToOwnedBytes :: "Message \<Rightarrow> bytes dns" where
  "packToOwnedBytes msg = andThen (Pack msg (replicate 4096 0)) (\<lambda>(_, packed). Ret packed)"

text \<open>The original bytes when the message cannot be parsed or packed again.\<close>

definition orElseBytes :: "bytes dns \<Rightarrow> bytes \<Rightarrow> bytes dns" where
  "orElseBytes r resp = (case r of Ret b \<Rightarrow> Ret b | Err e \<Rightarrow> Ret resp | Panic \<Rightarrow> Panic)"

definition appendECSToResponse :: "bytes \<Rightarrow> ECSOption option \<Rightarrow> bytes dns" where
  "appendECSToResponse resp ecs =
     (case ecs of
        None \<Rightarrow> Ret resp
      | Some e \<Rightarrow>
          orElseBytes (andThen (Unpack resp) (\<lambda>msg.
                       andThen (BuildECS e) (\<lambda>opt.
                       packToOwnedBytes (addOption 1232 opt msg)))) resp)"

definition addEDEToResponse :: "MainHandler \<Rightarrow> Message \<Rightarrow> u16 \<Rightarrow> string \<Rightarrow> Message" where
  "addEDEToResponse h resp code txt = addOption (advertisedSize h) (BuildEDEOption code txt) resp"

definition addEDEToRawResponse :: "MainHandler \<Rightarrow> bytes \<Rightarrow> u16 \<Rightarrow> string \<Rightarrow> bytes dns" where
  "addEDEToRawResponse h resp code txt =
     orElseBytes (andThen (Unpack resp) (\<lambda>msg. packToOwnedBytes (addEDEToResponse h msg code txt))) resp"

definition clientCookieOf :: "EDNS0 \<Rightarrow> bytes \<times> bytes" where
  "clientCookieOf edns =
     (case List.find (\<lambda>opt. optCode opt = EDNSOptionCodeCookie) (Options edns) of
        None \<Rightarrow> ([], [])
      | Some opt \<Rightarrow> ParseCookieOption (optData opt))"

definition cookieOption :: "MainHandler \<Rightarrow> u32 \<Rightarrow> bytes \<Rightarrow> string \<Rightarrow> EDNSOption" where
  "cookieOption h now clientCookie clientIP =
     \<lparr>optCode = EDNSOptionCodeCookie, optData = clientCookie @ generateServerCookieAt h clientCookie clientIP now\<rparr>"

definition addCookieToResponse :: "MainHandler \<Rightarrow> u32 \<Rightarrow> bytes \<Rightarrow> EDNS0 \<Rightarrow> string \<Rightarrow> bytes dns" where
  "addCookieToResponse h now resp edns clientIP =
     (let clientCookie = fst (clientCookieOf edns) in
      if length clientCookie \<noteq> 8 then Ret resp
      else orElseBytes (andThen (Unpack resp) (\<lambda>msg.
             packToOwnedBytes (addOption (advertisedSize h) (cookieOption h now clientCookie clientIP) msg))) resp)"

section \<open>Error replies\<close>

text \<open>
  The end of the question section: \<open>k\<close> questions from offset \<open>off\<close>, and whether every name decoded.
\<close>

fun skipQuestions :: "bytes \<Rightarrow> nat \<Rightarrow> nat \<Rightarrow> nat \<times> bool" where
  "skipQuestions q 0 off = (off, True)"
| "skipQuestions q (Suc k) off =
     (if off < length q then
        (case okOf (DecodeName q off) of None \<Rightarrow> (off, False) | Some (_, n) \<Rightarrow> skipQuestions q k (n + 4))
      else (off, True))"

definition errorFlags :: "u16 \<Rightarrow> u8 \<Rightarrow> u16" where
  "errorFlags flags rcode = ((flags OR 0x8000 OR 0x80) AND 0xFFF0) OR ucast rcode"

text \<open>\<open>buf[:offset]\<close> panics when the questions end beyond the 4096 bytes of the pooled buffer.\<close>

definition buildError :: "bytes \<Rightarrow> u8 \<Rightarrow> bytes dns" where
  "buildError query rcode =
     (if length query < 12
      then Ret ([0, 0] @ putUint16 (Build (SetRCODE rcode (SetRA True (SetQR True NewFlagBuilder)))) @ replicate 8 0)
      else (let hdr = take 2 query @ putUint16 (errorFlags (be16 (take 2 (drop 2 query))) rcode)
                      @ take 2 (drop 4 query) @ replicate 6 0;
                qdcount = be16 (take 2 (drop 4 query));
                (offset, ok) = skipQuestions query (unat qdcount) 12;
                offset = (if length query < offset then length query else offset)
            in if \<not> ok then Ret hdr
               else if 4096 < offset then Panic
               else Ret (hdr @ take (offset - 12) (drop 12 query))))"

definition setFlags :: "(u16 \<Rightarrow> u16) \<Rightarrow> bytes \<Rightarrow> bytes" where
  "setFlags f resp = take 2 resp @ putUint16 (f (be16 (take 2 (drop 2 resp)))) @ drop 4 resp"

definition buildSlipResponse :: "bytes \<Rightarrow> bytes dns" where
  "buildSlipResponse query =
     andThen (buildError query RCodeNoError) (\<lambda>resp.
       Ret (if 4 \<le> length resp then setFlags (\<lambda>f. f OR 0x200) resp else resp))"

text \<open>A reply that cannot be unpacked is sent without the option.\<close>

definition withExtRCODE :: "bytes \<Rightarrow> ResourceRecord \<Rightarrow> bytes dns" where
  "withExtRCODE resp opt =
     (case Unpack resp of
        Panic \<Rightarrow> Panic
      | Err e \<Rightarrow> Ret resp
      | Ret msg \<Rightarrow> packToOwnedBytes (msg\<lparr>Additional := Additional msg @ [opt\<lparr>rrTTL := push_bit 24 1\<rparr>]\<rparr>))"

definition buildBadCookieResponse :: "MainHandler \<Rightarrow> u32 \<Rightarrow> bytes \<Rightarrow> bytes \<Rightarrow> string \<Rightarrow> bytes dns" where
  "buildBadCookieResponse h now query clientCookie clientIP =
     andThen (buildError query (RCodeBadCookie AND 0x0F)) (\<lambda>resp.
       withExtRCODE resp (BuildOPTWithOptions (advertisedSize h) False
         (if length clientCookie = 8 then [cookieOption h now clientCookie clientIP] else [])))"

definition buildBadVersResponse :: "MainHandler \<Rightarrow> bytes \<Rightarrow> bytes dns" where
  "buildBadVersResponse h query =
     andThen (buildError query RCodeNoError) (\<lambda>resp. withExtRCODE resp (BuildOPT (advertisedSize h) False))"

definition buildErrorWithEDE :: "MainHandler \<Rightarrow> bytes \<Rightarrow> u8 \<Rightarrow> u16 \<Rightarrow> string \<Rightarrow> bytes dns" where
  "buildErrorWithEDE h query rcode code txt =
     andThen (buildError query rcode) (\<lambda>resp. addEDEToRawResponse h resp code txt)"

section \<open>Answers\<close>

definition clientWantsDNSSEC :: "Message \<Rightarrow> bool" where
  "clientWantsDNSSEC query = (case msgEDNS0 query of None \<Rightarrow> False | Some e \<Rightarrow> DOFlag e)"

definition isDNSSECRRType :: "u16 \<Rightarrow> bool" where
  "isDNSSECRRType t \<longleftrightarrow> t = TypeRRSIG \<or> t = TypeDNSKEY \<or> t = TypeDS \<or> t = TypeNSEC \<or> t = TypeNSEC3 \<or> t = TypeNSEC3PARAM"

definition stripDNSSECRRs :: "ResourceRecord list \<Rightarrow> u16 \<Rightarrow> ResourceRecord list" where
  "stripDNSSECRRs rrs qtype = filter (\<lambda>rr. \<not> (isDNSSECRRType (rrType rr) \<and> rrType rr \<noteq> qtype)) rrs"

definition effectiveSize :: "MainHandler \<Rightarrow> Message \<Rightarrow> nat" where
  "effectiveSize h query =
     (let maxSize = (case msgEDNS0 query of
                       None \<Rightarrow> 512
                     | Some e \<Rightarrow> if 512 \<le> unat (UDPSize e) then unat (UDPSize e) else 512);
          ceiling = unat (advertisedSize h)
      in if ceiling < maxSize then ceiling else maxSize)"

text \<open>Only called with a packed message, which has a header.\<close>

definition maybeTruncateUDP :: "MainHandler \<Rightarrow> bytes \<Rightarrow> Message \<Rightarrow> bytes" where
  "maybeTruncateUDP h packed query =
     (let maxSize = effectiveSize h query in
      if length packed \<le> maxSize then packed
      else (let packed = take 2 packed @ putUint16 (be16 (take 2 (drop 2 packed)) OR 0x200)
                         @ take 2 (drop 4 packed) @ replicate 6 0 @ drop 12 packed;
                qdcount = be16 (take 2 (drop 4 packed));
                qEnd = fst (skipQuestions packed (unat qdcount) 12)
            in if maxSize < qEnd then take 4 packed @ [0, 0] @ take 6 (drop 6 packed)
               else take qEnd packed))"

text \<open>The header and the OPT record that the three answers share.\<close>

definition questionType :: "Message \<Rightarrow> u16" where
  "questionType query = (case Questions query of [] \<Rightarrow> 0 | q # _ \<Rightarrow> qType q)"

definition optFor :: "MainHandler \<Rightarrow> Message \<Rightarrow> ResourceRecord list" where
  "optFor h query = (case msgEDNS0 query of None \<Rightarrow> [] | Some e \<Rightarrow> [BuildOPT (advertisedSize h) (DOFlag e)])"

definition replyHeader :: "Message \<Rightarrow> bool \<Rightarrow> u8 \<Rightarrow> Header" where
  "replyHeader query ad rcode =
     \<lparr>ID = ID (msgHeader query),
      Flags = Build (SetRCODE rcode (SetCD (CD (msgHeader query)) (SetAD ad (SetRA True
                (SetRD (RD (msgHeader query)) (SetQR True NewFlagBuilder)))))),
      QDCount = 0, ANCount = 0, NSCount = 0, ARCount = 0\<rparr>"

definition plainHeader :: "Message \<Rightarrow> u8 \<Rightarrow> Header" where
  "plainHeader query rcode =
     \<lparr>ID = ID (msgHeader query),
      Flags = Build (SetRCODE rcode (SetRA True (SetRD (RD (msgHeader query)) (SetQR True NewFlagBuilder)))),
      QDCount = 0, ANCount = 0, NSCount = 0, ARCount = 0\<rparr>"

definition cacheMessage :: "MainHandler \<Rightarrow> Message \<Rightarrow> Entry \<Rightarrow> Message" where
  "cacheMessage h query entry =
     (let strip = (\<lambda>rrs. if clientWantsDNSSEC query then rrs else stripDNSSECRRs rrs (questionType query)) in
      \<lparr>msgHeader = replyHeader query (DNSSECStatus entry = ''secure'' \<and> \<not> CD (msgHeader query)) (entRCODE entry),
       Questions = Questions query, Answers = strip (Records entry), Authority = strip (entAuthority entry),
       Additional = optFor h query, msgEDNS0 = None, Raw = []\<rparr>)"

definition buildCacheResponse :: "MainHandler \<Rightarrow> Message \<Rightarrow> Entry \<Rightarrow> bytes dns" where
  "buildCacheResponse h query entry =
     andThen (packToOwnedBytes (cacheMessage h query entry)) (\<lambda>packed. Ret (maybeTruncateUDP h packed query))"

definition buildCacheResponseECS :: "MainHandler \<Rightarrow> Message \<Rightarrow> Entry \<Rightarrow> ECSOption option \<Rightarrow> bytes dns" where
  "buildCacheResponseECS h query entry outboundECS =
     andThen (buildCacheResponse h query entry) (\<lambda>resp.
       case outboundECS of
         None \<Rightarrow> Ret resp
       | Some out \<Rightarrow> appendECSToResponse resp (Some (out\<lparr>ScopePrefixLen := ECSScope entry\<rparr>)))"

definition buildMinimalANYResponse :: "MainHandler \<Rightarrow> Message \<Rightarrow> Question \<Rightarrow> bytes dns" where
  "buildMinimalANYResponse h query q =
     (let cpu = bytes_of ''RFC8482'';
          rdata = of_nat (length cpu) # cpu @ [0];
          resp = \<lparr>msgHeader = plainHeader query RCodeNoError, Questions = Questions query,
                  Answers = [\<lparr>rrName = qName q, rrType = TypeHINFO, rrClass = ClassIN, rrTTL = 0,
                              rrRDLength = of_nat (length rdata), rrRData = rdata, rrRDataOffset = 0\<rparr>],
                  Authority = [], Additional = optFor h query, msgEDNS0 = None, Raw = []\<rparr>
      in andThen (packToOwnedBytes resp) (\<lambda>packed. Ret (maybeTruncateUDP h packed query)))"

definition responseMessage :: "MainHandler \<Rightarrow> Message \<Rightarrow> ResolveResult \<Rightarrow> Message" where
  "responseMessage h query result =
     (let answers = (if privateFilter h then FilterPrivateAddresses (resAnswers result) else resAnswers result);
          strip = (\<lambda>rrs. if clientWantsDNSSEC query then rrs else stripDNSSECRRs rrs (questionType query)) in
      \<lparr>msgHeader = replyHeader query (resStatus result = ''secure'' \<and> \<not> CD (msgHeader query)) (resRCODE result),
       Questions = Questions query, Answers = strip answers, Authority = strip (resAuthority result),
       Additional = strip (resAdditional result) @ optFor h query, msgEDNS0 = None, Raw = []\<rparr>)"

definition buildResponse :: "MainHandler \<Rightarrow> Message \<Rightarrow> ResolveResult \<Rightarrow> bytes dns" where
  "buildResponse h query result =
     andThen (packToOwnedBytes (responseMessage h query result)) (\<lambda>packed. Ret (maybeTruncateUDP h packed query))"

section \<open>The blocked answer\<close>

definition addressRR :: "Question \<Rightarrow> u16 \<Rightarrow> bytes \<Rightarrow> ResourceRecord" where
  "addressRR q t ip = \<lparr>rrName = qName q, rrType = t, rrClass = ClassIN, rrTTL = 0,
     rrRDLength = of_nat (length ip), rrRData = ip, rrRDataOffset = 0\<rparr>"

definition blockedMessage :: "MainHandler \<Rightarrow> Message \<Rightarrow> Question \<Rightarrow> Message" where
  "blockedMessage h query q =
     (let reply = (\<lambda>rcode answers. \<lparr>msgHeader = plainHeader query rcode, Questions = Questions query,
                     Answers = answers, Authority = [], Additional = [], msgEDNS0 = None, Raw = []\<rparr>);
          mode = (case blocklist h of None \<Rightarrow> ''nxdomain'' | Some b \<Rightarrow> BlockingMode b) in
      if mode = ''null_ip'' then
        reply RCodeNoError
          (if qType q = TypeA then [addressRR q TypeA [0, 0, 0, 0]]
           else if qType q = TypeAAAA then [addressRR q TypeAAAA (replicate 16 0)] else [])
      else if mode = ''custom_ip'' then
        (let customIP = (case blocklist h of None \<Rightarrow> ''0.0.0.0'' | Some b \<Rightarrow> CustomIP b) in
         case ParseIP customIP of
           None \<Rightarrow> reply RCodeNXDomain []
         | Some ip \<Rightarrow>
             if qType q = TypeA
             then (case To4 ip of Some v4 \<Rightarrow> reply RCodeNoError [addressRR q TypeA v4] | None \<Rightarrow> reply RCodeNXDomain [])
             else reply RCodeNXDomain [])
      else reply RCodeNXDomain [])"

definition buildBlockedResponse :: "MainHandler \<Rightarrow> Message \<Rightarrow> Question \<Rightarrow> bytes dns" where
  "buildBlockedResponse h query q = packToOwnedBytes (blockedMessage h query q)"

section \<open>Clients that bypass the cache\<close>

definition SetNoCacheClients :: "string list \<Rightarrow> MainHandler \<Rightarrow> MainHandler" where
  "SetNoCacheClients cidrs h =
     h\<lparr>noCacheNets := noCacheNets h @ List.map_filter (\<lambda>c.
         let c = (if \<not> Contains c (CHR ''/'') then (if Contains c (CHR '':'') then c @ ''/128'' else c @ ''/32'') else c)
         in map_option snd (ParseCIDR c)) cidrs\<rparr>"

definition shouldBypassCache :: "MainHandler \<Rightarrow> string \<Rightarrow> bool" where
  "shouldBypassCache h clientIP =
     (if noCacheNets h = [] then False
      else (case ParseIP clientIP of None \<Rightarrow> False | Some ip \<Rightarrow> list_ex (\<lambda>n. netContains n ip) (noCacheNets h)))"

section \<open>The client's address\<close>

text \<open>\<open>net.SplitHostPort\<close>: the host, or \<open>None\<close> for an error.\<close>

definition SplitHostPort :: "string \<Rightarrow> string option" where
  "SplitHostPort hp =
     (if \<not> Contains hp (CHR '':'') then None
      else (let port = rev (takeWhile (\<lambda>c. c \<noteq> CHR '':'') (rev hp));
                i = length hp - length port - 1 in
            if hp ! 0 = CHR ''['' then
              (let e = length (takeWhile (\<lambda>c. c \<noteq> CHR '']'') hp) in
               if e = length hp then None
               else if e + 1 \<noteq> i then None
               else if Contains (drop 1 hp) (CHR ''['') \<or> Contains (drop (e + 1) hp) (CHR '']'') then None
               else Some (take (e - 1) (drop 1 hp)))
            else (let host = take i hp in
                  if Contains host (CHR '':'') then None
                  else if Contains hp (CHR ''['') \<or> Contains hp (CHR '']'') then None
                  else Some host)))"

definition extractIP :: "string option \<Rightarrow> string" where
  "extractIP addr =
     (case addr of
        None \<Rightarrow> []
      | Some a \<Rightarrow> (case SplitHostPort a of
                      Some host \<Rightarrow> host
                    | None \<Rightarrow> rev (dropWhile (\<lambda>c. c = CHR '':'') (rev a))))"

end
