(* ===== verification/Server_Handler.thy ===== *)
theory Server_Handler
  imports Server_Build Resolver_Top
begin

text \<open>
  \<open>MainHandler.Handle\<close> of \<open>server/handler.go\<close>.  The state \<open>HState\<close> is the state of the resolver,
  the two rate limiters, the counters of \<open>metrics\<close> that the handler increments and the calls of the
  \<open>OnQuery\<close> callback, less their durations.  Logging and the histogram of durations are left out.

  A computation is a function of the state; \<open>None\<close> is a panic, or a resolution that does not return.
  The result of \<open>Handle\<close> is an error (\<open>Inl\<close>), no reply (\<open>Inr None\<close>) or a reply.
\<close>

section \<open>Tables (dns/types.go)\<close>

definition TypeToString :: "u16 \<Rightarrow> string" where
  "TypeToString t =
     (case map_of [(TypeA, ''A''), (TypeNS, ''NS''), (TypeCNAME, ''CNAME''), (TypeSOA, ''SOA''), (TypeHINFO, ''HINFO''),
                   (TypePTR, ''PTR''), (TypeMX, ''MX''), (TypeTXT, ''TXT''), (TypeAAAA, ''AAAA''), (TypeSRV, ''SRV''),
                   (TypeDNAME, ''DNAME''), (TypeOPT, ''OPT''), (TypeDS, ''DS''), (TypeRRSIG, ''RRSIG''), (TypeNSEC, ''NSEC''),
                   (TypeDNSKEY, ''DNSKEY''), (TypeNSEC3, ''NSEC3''), (TypeNSEC3PARAM, ''NSEC3PARAM''), (TypeANY, ''ANY'')] t of
        Some s \<Rightarrow> s | None \<Rightarrow> [])"

definition RCodeToString :: "u8 \<Rightarrow> string" where
  "RCodeToString c =
     (case map_of [(RCodeNoError, ''NOERROR''), (RCodeFormErr, ''FORMERR''), (RCodeServFail, ''SERVFAIL''), (RCodeNXDomain, ''NXDOMAIN''),
                   (RCodeNotImp, ''NOTIMP''), (RCodeRefused, ''REFUSED''), (RCodeBadCookie, ''BADCOOKIE'')] c of
        Some s \<Rightarrow> s | None \<Rightarrow> [])"

section \<open>State\<close>

record HState =
  rstate :: RState
  limiter :: "RateLimiter option"
  rrl :: "RRL option"
  mQueries :: "string \<Rightarrow> nat"
  mResponses :: "string \<Rightarrow> nat"
  cacheHits :: nat
  cacheMisses :: nat
  rateLimited :: nat
  blockedQueries :: nat
  onQuery :: "(string \<times> string \<times> string \<times> string \<times> bool) list"

type_synonym 'a hio = "HState \<Rightarrow> ('a \<times> HState) option"
type_synonym reply = "string + bytes option"

definition retH :: "'a \<Rightarrow> 'a hio" where
  "retH a = (\<lambda>s. Some (a, s))"

definition bindH :: "'a hio \<Rightarrow> ('a \<Rightarrow> 'b hio) \<Rightarrow> 'b hio" where
  "bindH m f = (\<lambda>s. case m s of None \<Rightarrow> None | Some (a, s') \<Rightarrow> f a s')"

definition modH :: "(HState \<Rightarrow> HState) \<Rightarrow> unit hio" where
  "modH f = (\<lambda>s. Some ((), f s))"

text \<open>A computation of the resolver, and one that may panic.\<close>

definition liftR :: "'a io \<Rightarrow> 'a hio" where
  "liftR m = (\<lambda>s. case m (rstate s) of None \<Rightarrow> None | Some (a, r) \<Rightarrow> Some (a, s\<lparr>rstate := r\<rparr>))"

definition tryH :: "'a dns \<Rightarrow> 'a option hio" where
  "tryH r = (\<lambda>s. case r of Ret a \<Rightarrow> Some (Some a, s) | Err e \<Rightarrow> Some (None, s) | Panic \<Rightarrow> None)"

definition outH :: "bytes dns \<Rightarrow> reply hio" where
  "outH r = bindH (tryH r) (\<lambda>x. case x of Some b \<Rightarrow> retH (Inr (Some b)) | None \<Rightarrow> retH (Inl ''pack''))"

definition incResponses :: "string \<Rightarrow> unit hio" where
  "incResponses k = modH (\<lambda>s. s\<lparr>mResponses := (mResponses s)(k := mResponses s k + 1)\<rparr>)"

definition incQueries :: "string \<Rightarrow> unit hio" where
  "incQueries k = modH (\<lambda>s. s\<lparr>mQueries := (mQueries s)(k := mQueries s k + 1)\<rparr>)"

definition callOnQuery :: "string \<Rightarrow> string \<Rightarrow> string \<Rightarrow> string \<Rightarrow> bool \<Rightarrow> unit hio" where
  "callOnQuery client qname qtype rcode cached = modH (\<lambda>s. s\<lparr>onQuery := (client, qname, qtype, rcode, cached) # onQuery s\<rparr>)"

definition nowH :: "Resolver \<Rightarrow> time hio" where
  "nowH R = liftR (readIO (clock (env R)))"

definition nowFunc :: "Resolver \<Rightarrow> u32 hio" where
  "nowFunc R = bindH (nowH R) (\<lambda>t. retH (of_nat (t div second)))"

definition getIO :: "(time \<Rightarrow> Cache \<Rightarrow> Entry option \<times> Cache) \<Rightarrow> Resolver \<Rightarrow> Entry option hio" where
  "getIO get R = bindH (nowH R) (\<lambda>now. liftR (\<lambda>s. case get now (rsCache s) of (e, c) \<Rightarrow> Some (e, s\<lparr>rsCache := c\<rparr>)))"

definition putIO :: "(time \<Rightarrow> Cache \<Rightarrow> Cache option) \<Rightarrow> Resolver \<Rightarrow> unit hio" where
  "putIO put R = bindH (nowH R) (\<lambda>now. liftR (cacheIO (put now)))"

section \<open>Rate limits\<close>

definition limiterAllow :: "Resolver \<Rightarrow> string \<Rightarrow> bool hio" where
  "limiterAllow R clientIP =
     bindH (nowH R) (\<lambda>now s.
       case limiter s of
         None \<Rightarrow> Some (True, s)
       | Some l \<Rightarrow> (case Allow (rndFloat (env R)) now l clientIP of (ok, l') \<Rightarrow> Some (ok, s\<lparr>limiter := Some l'\<rparr>)))"

definition rrlAction :: "Resolver \<Rightarrow> string \<Rightarrow> string \<Rightarrow> string \<Rightarrow> RRLAction hio" where
  "rrlAction R clientIP qname rcode =
     bindH (nowH R) (\<lambda>now s.
       case rrl s of
         None \<Rightarrow> Some (RRLAllow, s)
       | Some r \<Rightarrow> (case AllowResponse (rndFloat (env R)) now r clientIP qname rcode of (a, r') \<Rightarrow> Some (a, s\<lparr>rrl := Some r'\<rparr>)))"

definition limitReply :: "Resolver \<Rightarrow> bytes \<Rightarrow> string \<Rightarrow> string \<Rightarrow> string \<Rightarrow> bytes \<Rightarrow> reply hio" where
  "limitReply R query clientIP qname rcode resp =
     bindH (rrlAction R clientIP qname rcode) (\<lambda>action.
       case action of
         RRLDrop \<Rightarrow> retH (Inr None)
       | RRLSlip \<Rightarrow> outH (buildSlipResponse query)
       | RRLAllow \<Rightarrow> retH (Inr (Some resp)))"

section \<open>Storing a result\<close>

definition storeResult :: "MainHandler \<Rightarrow> Resolver \<Rightarrow> Question \<Rightarrow> ECSOption option \<Rightarrow> ResolveResult \<Rightarrow> unit hio" where
  "storeResult h R q outboundECS result =
     (let ecsKey = chooseCacheECSKey outboundECS (UpstreamECS result);
          ecsScope = (case UpstreamECS result of None \<Rightarrow> 0 | Some e \<Rightarrow> ScopePrefixLen e) in
      if resRCODE result = RCodeNoError \<and> 0 < length (resAnswers result) then
        (let answers = (if privateFilter h then FilterPrivateAddresses (resAnswers result) else resAnswers result) in
         putIO (\<lambda>now c. if ecsKey = []
                        then StoreWithStatus now c (qName q) (qType q) (qClass q) answers (resAuthority result) (resStatus result)
                        else StoreWithECSStatus now c (qName q) (qType q) (qClass q) ecsKey ecsScope answers (resAuthority result) (resStatus result)) R)
      else if resRCODE result = RCodeNXDomain then
        putIO (\<lambda>now c. StoreNegative now c (qName q) (qType q) (qClass q) NegNXDomain (resRCODE result) (resAuthority result)) R
      else if resRCODE result = RCodeNoError \<and> length (resAnswers result) = 0 then
        putIO (\<lambda>now c. StoreNegative now c (qName q) (qType q) (qClass q) NegNoData (resRCODE result) (resAuthority result)) R
      else if resRCODE result = RCodeServFail then
        putIO (\<lambda>now c. StoreFailure now c (qName q) (qType q) (qClass q) DefaultFailureTTL) R
      else retH ())"

section \<open>Handle\<close>

abbreviation EDECodeBlocked :: u16 where "EDECodeBlocked \<equiv> 15"
abbreviation EDECodeStaleAnswer :: u16 where "EDECodeStaleAnswer \<equiv> 3"
abbreviation EDECodeDNSSECBogus :: u16 where "EDECodeDNSSECBogus \<equiv> 6"
abbreviation EDECodeNoReachableAuthority :: u16 where "EDECodeNoReachableAuthority \<equiv> 22"
abbreviation EDECodeNetworkError :: u16 where "EDECodeNetworkError \<equiv> 23"

text \<open>The reply to a resolved query: response, client subnet, extended error, cookie, rate limit.\<close>

definition replyResolved ::
  "MainHandler \<Rightarrow> Resolver \<Rightarrow> bytes \<Rightarrow> string \<Rightarrow> Message \<Rightarrow> Question \<Rightarrow> ECSOption option \<Rightarrow> string \<Rightarrow> ResolveResult \<Rightarrow> reply hio" where
  "replyResolved h R query clientIP msg q outboundECS rcodeStr result =
     bindH (tryH (buildResponse h msg result)) (\<lambda>r. case r of
       None \<Rightarrow> retH (Inl ''pack'')
     | Some resp \<Rightarrow>
       bindH (tryH (case outboundECS of
                      None \<Rightarrow> Ret resp
                    | Some out \<Rightarrow> appendECSToResponse resp
                        (Some (out\<lparr>ScopePrefixLen := (case UpstreamECS result of None \<Rightarrow> 0 | Some e \<Rightarrow> ScopePrefixLen e)\<rparr>)))) (\<lambda>r. case r of
         None \<Rightarrow> retH (Inl ''pack'')
       | Some resp \<Rightarrow>
         bindH (tryH (if resRCODE result = RCodeServFail \<and> msgEDNS0 msg \<noteq> None
                      then addEDEToRawResponse h resp EDECodeNoReachableAuthority [] else Ret resp)) (\<lambda>r. case r of
           None \<Rightarrow> retH (Inl ''pack'')
         | Some resp \<Rightarrow>
           bindH (nowFunc R) (\<lambda>now.
           bindH (tryH (case msgEDNS0 msg of
                          Some e \<Rightarrow> if cookiesEnabled h then addCookieToResponse h now resp e clientIP else Ret resp
                        | None \<Rightarrow> Ret resp)) (\<lambda>r. case r of
             None \<Rightarrow> retH (Inl ''pack'')
           | Some resp \<Rightarrow> limitReply R query clientIP (qName q) rcodeStr resp)))))"

definition finishResolved ::
  "MainHandler \<Rightarrow> Resolver \<Rightarrow> bytes \<Rightarrow> string \<Rightarrow> Message \<Rightarrow> Question \<Rightarrow> string \<Rightarrow> bool \<Rightarrow> ECSOption option \<Rightarrow> ResolveResult \<Rightarrow> reply hio" where
  "finishResolved h R query clientIP msg q qtypeStr bypass outboundECS result =
     (let rcodeStr = (if RCodeToString (resRCODE result) = [] then ''UNKNOWN'' else RCodeToString (resRCODE result)) in
      bindH (if bypass then retH () else storeResult h R q outboundECS result) (\<lambda>_.
      bindH (incResponses rcodeStr) (\<lambda>_.
      bindH (callOnQuery clientIP (qName q) qtypeStr rcodeStr False) (\<lambda>_.
      replyResolved h R query clientIP msg q outboundECS rcodeStr result))))"

text \<open>
  After a failed resolution: an expired entry, the bogus answer with its extended error, or the error.
  \<open>None\<close> means that the handler goes on with the result.
\<close>

definition serveStaleReply :: "MainHandler \<Rightarrow> Resolver \<Rightarrow> string \<Rightarrow> Message \<Rightarrow> Question \<Rightarrow> string \<Rightarrow> reply option hio" where
  "serveStaleReply h R clientIP msg q qtypeStr =
     bindH (getIO (\<lambda>now c. (GetStale now c (qName q) (qType q) (qClass q), c)) R) (\<lambda>e. case e of
       None \<Rightarrow> retH None
     | Some entry \<Rightarrow>
       bindH (tryH (buildCacheResponse h msg entry)) (\<lambda>r. case r of
         None \<Rightarrow> retH None
       | Some resp \<Rightarrow>
         bindH (tryH (if msgEDNS0 msg \<noteq> None then addEDEToRawResponse h resp EDECodeStaleAnswer ''serve-stale'' else Ret resp)) (\<lambda>r.
         bindH (incResponses ''NOERROR'') (\<lambda>_.
         bindH (callOnQuery clientIP (qName q) qtypeStr ''NOERROR'' True) (\<lambda>_.
         retH (Some (Inr (Some (case r of Some b \<Rightarrow> b | None \<Rightarrow> resp)))))))))"

definition afterFailure ::
  "MainHandler \<Rightarrow> Resolver \<Rightarrow> bytes \<Rightarrow> string \<Rightarrow> Message \<Rightarrow> Question \<Rightarrow> string \<Rightarrow> bool \<Rightarrow> string + ResolveResult \<Rightarrow> reply option hio" where
  "afterFailure h R query clientIP msg q qtypeStr bypass res =
     bindH (serveStaleReply h R clientIP msg q qtypeStr) (\<lambda>stale. case stale of
       Some r \<Rightarrow> retH (Some r)
     | None \<Rightarrow>
       (case res of
          Inr result \<Rightarrow>
            if resStatus result = ''bogus'' \<and> msgEDNS0 msg \<noteq> None then
              bindH (tryH (buildErrorWithEDE h query RCodeServFail EDECodeDNSSECBogus ''DNSSEC validation failure'')) (\<lambda>r. case r of
                Some resp \<Rightarrow> bindH (incResponses ''SERVFAIL'') (\<lambda>_. retH (Some (Inr (Some resp))))
              | None \<Rightarrow> retH None)
            else retH None
        | Inl err \<Rightarrow>
            bindH (incResponses ''SERVFAIL'') (\<lambda>_.
            bindH (if bypass then retH ()
                   else putIO (\<lambda>now c. StoreFailure now c (qName q) (qType q) (qClass q) DefaultFailureTTL) R) (\<lambda>_.
            bindH (if msgEDNS0 msg \<noteq> None then tryH (buildErrorWithEDE h query RCodeServFail EDECodeNetworkError err) else retH None) (\<lambda>r. case r of
              Some resp \<Rightarrow> retH (Some (Inr (Some resp)))
            | None \<Rightarrow> bindH (outH (buildError query RCodeServFail)) (\<lambda>r. retH (Some r)))))))"

definition resolveQuery ::
  "nat \<Rightarrow> MainHandler \<Rightarrow> Resolver \<Rightarrow> bytes \<Rightarrow> string \<Rightarrow> Message \<Rightarrow> Question \<Rightarrow> string \<Rightarrow> bool \<Rightarrow> ECSOption option \<Rightarrow> reply hio" where
  "resolveQuery n h R query clientIP msg q qtypeStr bypass outboundECS =
     bindH (modH (\<lambda>s. s\<lparr>cacheMisses := cacheMisses s + 1\<rparr>)) (\<lambda>_.
     bindH (liftR (ResolveWithECS n R (qName q) (qType q) (qClass q) outboundECS)) (\<lambda>res.
     bindH (if (case res of Inl _ \<Rightarrow> True | Inr result \<Rightarrow> resRCODE result = RCodeServFail)
            then afterFailure h R query clientIP msg q qtypeStr bypass res else retH None) (\<lambda>early.
     case (early, res) of
       (Some r, _) \<Rightarrow> retH r
     | (None, Inr result) \<Rightarrow> finishResolved h R query clientIP msg q qtypeStr bypass outboundECS result
     | (None, Inl err) \<Rightarrow> (\<lambda>s. None))))"

definition cacheReply ::
  "MainHandler \<Rightarrow> Resolver \<Rightarrow> bytes \<Rightarrow> string \<Rightarrow> Message \<Rightarrow> Question \<Rightarrow> string \<Rightarrow> ECSOption option \<Rightarrow> reply option hio" where
  "cacheReply h R query clientIP msg q qtypeStr outboundECS =
     bindH (getIO (\<lambda>now c. Get now c (qName q) (qType q) (qClass q)) R) (\<lambda>e.
     bindH (if e = None \<and> outboundECS \<noteq> None
            then getIO (\<lambda>now c. GetWithECS now c (qName q) (qType q) (qClass q) (CacheKey outboundECS)) R else retH e) (\<lambda>e. case e of
       None \<Rightarrow> retH None
     | Some entry \<Rightarrow>
       bindH (modH (\<lambda>s. s\<lparr>cacheHits := cacheHits s + 1\<rparr>)) (\<lambda>_.
       bindH (tryH (buildCacheResponseECS h msg entry outboundECS)) (\<lambda>r. case r of
         None \<Rightarrow> retH None
       | Some resp \<Rightarrow>
         (let rcode = (if RCodeToString (entRCODE entry) = [] then ''NOERROR'' else RCodeToString (entRCODE entry)) in
          bindH (callOnQuery clientIP (qName q) qtypeStr rcode True) (\<lambda>_.
          bindH (limitReply R query clientIP (qName q) rcode resp) (\<lambda>r. retH (Some r))))))))"

text \<open>The query, once it is known to be one question with a valid cookie.\<close>

definition handleQuestion :: "nat \<Rightarrow> MainHandler \<Rightarrow> Resolver \<Rightarrow> bytes \<Rightarrow> string \<Rightarrow> Message \<Rightarrow> Question \<Rightarrow> reply hio" where
  "handleQuestion n h R query clientIP msg q =
     (let qtypeStr = (if TypeToString (qType q) = [] then ''OTHER'' else TypeToString (qType q)) in
      bindH (incQueries qtypeStr) (\<lambda>_.
      if (case hAcl h of None \<Rightarrow> False | Some acl \<Rightarrow> \<not> CheckWithZone acl clientIP (qName q)) then
        bindH (incResponses ''REFUSED'') (\<lambda>_. outH (buildError query RCodeRefused))
      else if (case blocklist h of None \<Rightarrow> False | Some b \<Rightarrow> IsBlocked b (qName q)) then
        bindH (modH (\<lambda>s. s\<lparr>blockedQueries := blockedQueries s + 1\<rparr>)) (\<lambda>_.
        bindH (tryH (andThen (buildBlockedResponse h msg q) (\<lambda>resp.
                       if msgEDNS0 msg \<noteq> None then addEDEToRawResponse h resp EDECodeBlocked ''blocked'' else Ret resp))) (\<lambda>r. case r of
          None \<Rightarrow> retH (Inl ''pack'')
        | Some resp \<Rightarrow>
            bindH (incResponses ''BLOCKED'') (\<lambda>_.
            bindH (callOnQuery clientIP (qName q) qtypeStr ''BLOCKED'' True) (\<lambda>_. retH (Inr (Some resp))))))
      else if qType q = TypeANY then
        bindH (tryH (buildMinimalANYResponse h msg q)) (\<lambda>r. case r of
          None \<Rightarrow> retH (Inl ''pack'')
        | Some resp \<Rightarrow>
            bindH (incResponses ''NOERROR'') (\<lambda>_.
            bindH (callOnQuery clientIP (qName q) qtypeStr ''NOERROR'' False) (\<lambda>_. retH (Inr (Some resp)))))
      else (let bypass = shouldBypassCache h clientIP; outboundECS = buildOutboundECS h (msgEDNS0 msg) in
            bindH (if bypass then retH None else cacheReply h R query clientIP msg q qtypeStr outboundECS) (\<lambda>cached. case cached of
              Some r \<Rightarrow> retH r
            | None \<Rightarrow> resolveQuery n h R query clientIP msg q qtypeStr bypass outboundECS))))"

definition countOPT :: "Message \<Rightarrow> nat" where
  "countOPT msg = length (filter (\<lambda>rr. rrType rr = TypeOPT) (Additional msg))"

definition handleMessage :: "nat \<Rightarrow> MainHandler \<Rightarrow> Resolver \<Rightarrow> bytes \<Rightarrow> string \<Rightarrow> Message \<Rightarrow> reply hio" where
  "handleMessage n h R query clientIP msg =
     (let refuse = (\<lambda>k rcode. bindH (incResponses k) (\<lambda>_. outH (buildError query rcode))) in
      if QR (msgHeader msg) then retH (Inl ''received response as query'')
      else if Opcode (msgHeader msg) \<noteq> OpcodeQuery then refuse ''NOTIMP'' RCodeNotImp
      else if length (Questions msg) \<noteq> 1 then refuse ''FORMERR'' RCodeFormErr
      else if 1 < countOPT msg then refuse ''FORMERR'' RCodeFormErr
      else if (case msgEDNS0 msg of None \<Rightarrow> False | Some e \<Rightarrow> Version e \<noteq> 0) then
        bindH (incResponses ''BADVERS'') (\<lambda>_. outH (buildBadVersResponse h query))
      else bindH (nowFunc R) (\<lambda>now.
        let (clientCookie, serverCookie) = (case msgEDNS0 msg of
               Some e \<Rightarrow> if cookiesEnabled h then clientCookieOf e else ([], []) | None \<Rightarrow> ([], [])) in
        if length clientCookie = 8 \<and> length serverCookie = 16 \<and> \<not> validateServerCookie h now clientCookie serverCookie clientIP then
          bindH (incResponses ''BADCOOKIE'') (\<lambda>_.
          bindH (nowFunc R) (\<lambda>now. outH (buildBadCookieResponse h now query clientCookie clientIP)))
        else handleQuestion n h R query clientIP msg (hd (Questions msg))))"

definition Handle :: "nat \<Rightarrow> MainHandler \<Rightarrow> Resolver \<Rightarrow> bytes \<Rightarrow> string option \<Rightarrow> reply hio" where
  "Handle n h R query clientAddr =
     (let clientIP = extractIP clientAddr in
      if (case hAcl h of None \<Rightarrow> False | Some acl \<Rightarrow> \<not> Check acl clientIP) then outH (buildError query RCodeRefused)
      else bindH (limiterAllow R clientIP) (\<lambda>ok.
        if \<not> ok then
          bindH (modH (\<lambda>s. s\<lparr>rateLimited := rateLimited s + 1\<rparr>)) (\<lambda>_.
          bindH (incResponses ''REFUSED'') (\<lambda>_. outH (buildError query RCodeRefused)))
        else (case Unpack query of
                Panic \<Rightarrow> (\<lambda>s. None)
              | Err e \<Rightarrow> bindH (incResponses ''FORMERR'') (\<lambda>_. outH (buildError query RCodeFormErr))
              | Ret msg \<Rightarrow> handleMessage n h R query clientIP msg)))"

end
