(* ===== verification/Dns_Cut.thy ===== *)
theory Dns_Cut
  imports Dns_RoundTrip
begin

text \<open>
  What the bytes of a packed message have in common with those of the same message without its records: the
  question section ends at the same offset and is the same bytes, whatever the header.  This is what the truncation of replies
  (\<open>server/handler.go\<close>) relies on.
\<close>

section \<open>Writing does not look at what was written before\<close>

lemma patch_patch:
  "p + length v \<le> q \<Longrightarrow> q + length b \<le> length (wbuf w) \<Longrightarrow> patch q b (patch p v w) = patch p v (patch q b w)"
  by (simp add: patch_def copyAt_copyAt)

lemma commutes_packRData [commutes_intros]: "commutes p v (\<lambda>w. packRData w rr)"
proof (rule commutesI)
  fix w assume w: "patchable p v w"
  have eq: "packRData x rr = andThen (writeUint16 x 0) (\<lambda>w0. if rrRData rr = [] then Ret (patch (woffset x) (putUint16 0) w0)
     else andThen (packRDataBody w0 (rrType rr) (rrRData rr)) (\<lambda>w'. Ret (patch (woffset x) (putUint16 (of_nat (woffset w' - woffset w0))) w')))" for x
    unfolding packRData_def Let_def patch_def ..
  have c0: "commutes p v (\<lambda>w. writeUint16 w 0)" unfolding write_as_bytes by (rule commutes_writeBytes)
  have off: "p + length v \<le> woffset w" using w by (simp add: patchable_def)
  have fit: "woffset w + 2 \<le> length (wbuf w') \<and> patchable p v w'"
    if "writeUint16 w 0 = Ret w0" "packRDataBody w0 (rrType rr) (rrRData rr) = Ret w' \<or> w' = w0" for w0 w'
  proof -
    have w0: "patchable p v w0" "woffset w0 = woffset w + 2" using commutesD(2) [OF c0 w that(1)] that(1)
      by (auto simp: writeUint16_def split: if_splits)
    then have "patchable 0 (replicate (woffset w0) 0) w0" by (simp add: patchable_def)
    note r = commutesD(2) [OF commutes_packRDataBody this] commutesD(2) [OF commutes_packRDataBody w0(1)]
    from that(2) show ?thesis
    proof
      assume "packRDataBody w0 (rrType rr) (rrRData rr) = Ret w'"
      from r [OF this] w0(2) show ?thesis by (simp add: patchable_def)
    qed (use w0 in \<open>simp add: patchable_def\<close>)
  qed
  show "packRData (patch p v w) rr = mapRet (patch p v) (packRData w rr)"
  proof (cases "writeUint16 w 0")
    case (Ret w0)
    note w0 = Ret commutesD(1) [OF c0 w]
    note p0 = commutesD(2) [OF c0 w Ret]
    show ?thesis
    proof (cases "rrRData rr = []")
      case True
      with w0 off fit [OF Ret, of w0] show ?thesis by (simp add: eq patch_patch)
    next
      case False
      with w0 off fit [OF Ret] commutesD(1) [OF commutes_packRDataBody p0] show ?thesis
        by (cases "packRDataBody w0 (rrType rr) (rrRData rr)") (simp_all add: eq patch_patch)
    qed
  qed (simp_all add: eq commutesD(1) [OF c0 w])
  show "packRData w rr = Ret w' \<Longrightarrow> patchable p v w'" for w'
    using fit off by (auto simp: eq outcome_simps patchable_def patch_def split: if_splits)
qed

lemma commutes_u16 [commutes_intros]: "commutes p v (\<lambda>w. writeUint16 w x)" and commutes_u32 [commutes_intros]: "commutes p v (\<lambda>w. writeUint32 w y)"
  by (simp_all add: write_as_bytes commutes_writeBytes)

lemma commutes_packRRs [commutes_intros]: "commutes p v (\<lambda>w. packRRs w rrs)"
proof (induction rrs)
  case (Cons rr rrs)
  then show ?case unfolding packRRs.simps by (intro commutes_intros)
qed (simp add: commutes_intros)

lemma commutes_packQuestions [commutes_intros]: "commutes p v (\<lambda>w. packQuestions w qs)"
proof (induction qs)
  case (Cons q qs)
  then show ?case unfolding packQuestions.simps by (intro commutes_intros)
qed (simp add: commutes_intros)

text \<open>So what was written stays.\<close>

lemma commutes_prefix:
  assumes "commutes 0 (written w) f" and "wf_writer w" and "f w = Ret w'"
  shows "\<exists>bs. written w' = written w @ bs" and "wf_writer w'"
proof -
  have p: "patchable 0 (written w) w" using assms(2) by (simp add: patchable_def wf_writer_def)
  have "patch 0 (written w) w = w" using assms(2) by (cases w) (simp add: patch_def copyAt_def written_def wf_writer_def)
  with commutesD [OF assms(1) p] assms(3) have "patch 0 (written w) w' = w'" and p': "patchable 0 (written w) w'" by auto
  then have "wbuf w' = written w @ drop (woffset w) (wbuf w')"
    using assms(2) by (cases w') (simp add: patch_def copyAt_def)
  then have "written w' = take (woffset w') (written w @ drop (woffset w) (wbuf w'))" by (metis written_def)
  with p' show "\<exists>bs. written w' = written w @ bs" by (simp add: patchable_def)
  from p' show "wf_writer w'" by (simp add: patchable_def wf_writer_def)
qed

section \<open>The header and the questions of a packed message\<close>

lemma Header_Pack_new:
  assumes "12 \<le> length buf"
  shows "Header_Pack h (newWireWriter buf) = Ret \<lparr>wbuf = header_bytes h @ drop 12 buf, woffset = 12, compressed = Map.empty\<rparr>"
proof -
  from assms obtain b0 b1 b2 b3 b4 b5 b6 b7 b8 b9 b10 b11 rest
    where "buf = b0 # b1 # b2 # b3 # b4 # b5 # b6 # b7 # b8 # b9 # b10 # b11 # rest"
    by (auto simp: numeral_eq_Suc Suc_le_length_iff)
  then show ?thesis
    by (simp add: Header_Pack_def newWireWriter_def writeUint16_def putUint16_def copyAt_def header_bytes_def)
qed

lemma Header_Pack_length: "Header_Pack h (newWireWriter buf) = Ret w \<Longrightarrow> 12 \<le> length buf"
  using Header_Pack_Ret(2,3,5) [of h "newWireWriter buf" w] by (auto simp: wf_writer_def newWireWriter_def)

definition questions_only :: "Header \<Rightarrow> Message \<Rightarrow> Message" where
  "questions_only h m = m\<lparr>msgHeader := h, Answers := [], Authority := [], Additional := []\<rparr>"

lemma Pack_cut:
  assumes "Pack m buf = Ret (m', packed)" and "list_all (\<lambda>q. valid_name (qName q)) (Questions m)"
  obtains k where "12 \<le> k" "k \<le> 12 + sum_list (map (\<lambda>q. length (wireName (splitLabels (qName q))) + 4) (Questions m))"
    "packed = header_bytes (msgHeader m') @ drop 12 packed"
    "\<forall>h. unpackQuestions (header_bytes h @ drop 12 packed) 12 (length (Questions m)) = Ret (Questions m, k)"
    "\<forall>h. Pack (questions_only h m) buf = Ret (updateCounts (questions_only h m),
        header_bytes (msgHeader (updateCounts (questions_only h m))) @ take (k - 12) (drop 12 packed))"
proof -
  from assms(1) obtain w1 w2 w3 w4 w5 where w1: "Header_Pack (msgHeader m') (newWireWriter buf) = Ret w1" and w2: "packQuestions w1 (Questions m) = Ret w2"
    and w3: "packRRs w2 (Answers m) = Ret w3" and w4: "packRRs w3 (Authority m) = Ret w4"
    and w5: "packRRs w4 (Additional m) = Ret w5" and bs: "packed = written w5" by (rule Pack_steps)
  note len = Header_Pack_length [OF w1]
  let ?w = "\<lambda>h. \<lparr>wbuf = header_bytes h @ drop 12 buf, woffset = 12, compressed = Map.empty\<rparr> :: wireWriter"
  have w1': "w1 = ?w (msgHeader m')" using w1 Header_Pack_new [OF len] by simp
  have s: "sound (?w h)" for h
    using len by (simp add: sound_def wf_writer_def table_ok_def compressionOffset_def)
  have patched: "patch 0 (header_bytes h) w1 = ?w h" "patchable 0 (header_bytes h) w1" for h
    using len by (simp_all add: w1' patch_def copyAt_def patchable_def)
  have same: "packQuestions (?w h) (Questions m) = Ret (patch 0 (header_bytes h) w2)" "patchable 0 (header_bytes h) w2" for h
    using commutesD [OF commutes_packQuestions patched(2)] w2 patched(1) by auto
  have q: "extends (?w h) (patch 0 (header_bytes h) w2)"
    "unpackQuestions (written (patch 0 (header_bytes h) w2) @ post) 12 (length (Questions m)) = Ret (Questions m, woffset w2)" for h post
    using packQuestions_reads_back [OF same(1) s assms(2)] by simp_all
  have off: "12 \<le> woffset w2" "woffset w2 \<le> length (wbuf w2)" using same(2) by (simp_all add: patchable_def)
  have cut: "written (patch 0 (header_bytes h) w2) = header_bytes h @ take (woffset w2 - 12) (drop 12 (wbuf w2))" for h
    using off by (simp add: written_def patch_def copyAt_def take_drop)
  have v: "wf_writer w2" using off(2) by (simp add: wf_writer_def)
  note v3 = commutes_prefix [OF commutes_packRRs v w3]
  note v4 = commutes_prefix [OF commutes_packRRs v3(2) w4]
  note v5 = commutes_prefix [OF commutes_packRRs v4(2) w5]
  from v3(1) v4(1) v5(1) obtain x where x: "packed = written w2 @ x" unfolding bs by (metis append.assoc)
  have "written w2 = take 12 (wbuf w2) @ take (woffset w2 - 12) (drop 12 (wbuf w2))"
    using off(1) by (metis le_add_diff_inverse take_add written_def)
  moreover have "patch 0 (header_bytes (msgHeader m')) w2 = w2"
    using same(1) [of "msgHeader m'"] w2 by (simp add: w1')
  ultimately have w2h: "written w2 = header_bytes (msgHeader m') @ take (woffset w2 - 12) (drop 12 (wbuf w2))"
    using cut [of "msgHeader m'"] by simp
  have rest: "drop 12 packed = take (woffset w2 - 12) (drop 12 (wbuf w2)) @ x"
    using off by (simp add: x w2h)
  let ?n = "sum_list (map (\<lambda>q. length (wireName (splitLabels (qName q))) + 4) (Questions m))"
  have "length (wbuf w2) = length buf" using q(1) [of "msgHeader m'"] len patched off same(2)
    by (simp add: extends_def)
  then have size: "woffset w2 \<le> 12 + ?n"
    using spec [OF needs_packQuestions [OF assms(2), unfolded needs_def], of w1] off(2) w2 len
    by (cases "12 + ?n \<le> length buf") (auto simp: w1')
  show ?thesis
  proof (rule that [of "woffset w2"])
    show "packed = header_bytes (msgHeader m') @ drop 12 packed" by (simp add: x w2h)
    show "\<forall>h. unpackQuestions (header_bytes h @ drop 12 packed) 12 (length (Questions m)) = Ret (Questions m, woffset w2)"
      using q(2) [where post = x] by (simp add: cut rest)
    show "\<forall>h. Pack (questions_only h m) buf = Ret (updateCounts (questions_only h m),
        header_bytes (msgHeader (updateCounts (questions_only h m))) @ take (woffset w2 - 12) (drop 12 packed))"
      using off by (simp add: Pack_def Let_def Header_Pack_new [OF len] same(1) updateCounts_def questions_only_def cut rest)
  qed (use off size in simp_all)
qed

end
