(* ===== verification/Server_Properties.thy ===== *)
theory Server_Properties
  imports Server_Handler Resolver_Logic Resolver_Samples Dns_Properties Dns_Cut
begin

text \<open>
  Properties of the query handler: it returns, what an error reply holds, how large a reply is, when a
  cookie is valid, and which queries never reach the resolver.
\<close>

section \<open>No reply panics\<close>

definition safe :: "'a dns \<Rightarrow> bool" where
  "safe r \<longleftrightarrow> r \<noteq> Panic"

named_theorems safe_rules

lemma safe_Ret [safe_rules]: "safe (Ret a)"
  by (simp add: safe_def)

lemma safe_andThen [safe_rules]: "safe m \<Longrightarrow> (\<And>a. safe (f a)) \<Longrightarrow> safe (andThen m f)"
  by (cases m) (simp_all add: safe_def outcome_simps)

lemma safe_orElse [safe_rules]: "safe r \<Longrightarrow> safe (orElseBytes r b)"
  by (cases r) (simp_all add: safe_def orElseBytes_def)

lemma safe_if [safe_rules]: "(b \<Longrightarrow> safe m) \<Longrightarrow> (\<not> b \<Longrightarrow> safe m') \<Longrightarrow> safe (if b then m else m')"
  by simp

lemma safe_option [safe_rules]: "(x = None \<Longrightarrow> safe m) \<Longrightarrow> (\<And>a. x = Some a \<Longrightarrow> safe (f a)) \<Longrightarrow> safe (case x of None \<Rightarrow> m | Some a \<Rightarrow> f a)"
  by (cases x) simp_all

lemma safe_Unpack [safe_rules]: "safe (Unpack b)"
  by (simp add: safe_def Unpack_no_panic_lemma)

lemma safe_pack [safe_rules]: "safe (packToOwnedBytes m)"
  using Pack_no_panic_lemma by (cases "Pack m (replicate 4096 0)") (auto simp: safe_def packToOwnedBytes_def outcome_simps)

lemma safe_withExtRCODE [safe_rules]: "safe (withExtRCODE resp opt)"
  using safe_Unpack [of resp] safe_pack by (cases "Unpack resp") (auto simp: withExtRCODE_def safe_def)

lemma safe_addEDE [safe_rules]: "safe (addEDEToRawResponse h resp c t)"
  unfolding addEDEToRawResponse_def by (intro safe_rules)

lemma safe_buildError: "length query \<le> 4096 \<Longrightarrow> safe (buildError query rcode)"
  by (auto simp: safe_def buildError_def Let_def split: prod.split)

lemma safe_slip: "length query \<le> 4096 \<Longrightarrow> safe (buildSlipResponse query)"
  unfolding buildSlipResponse_def by (intro safe_rules safe_buildError)

lemma safe_builders [safe_rules]:
  "safe (buildCacheResponse h m e)" "safe (buildMinimalANYResponse h m q)" "safe (buildResponse h m r)" "safe (buildBlockedResponse h m q)"
  unfolding buildCacheResponse_def buildMinimalANYResponse_def buildResponse_def buildBlockedResponse_def Let_def
  by (intro safe_rules)+

lemma safe_cookie [safe_rules]: "safe (addCookieToResponse h now resp e ip)"
  unfolding addCookieToResponse_def Let_def by (intro safe_rules)

section \<open>The client subnet that is forwarded\<close>

definition ecs_wf :: "ECSOption \<Rightarrow> bool" where
  "ecs_wf e \<longleftrightarrow> (Family e = 1 \<and> length (ecsAddress e) = 4 \<and> unat (SourcePrefixLen e) \<le> 32) \<or>
     (Family e = 2 \<and> length (ecsAddress e) \<in> {4, 16} \<and> unat (SourcePrefixLen e) \<le> 128)"

lemma safe_BuildECS:
  assumes "ecs_wf e"
  shows "safe (BuildECS (e\<lparr>ScopePrefixLen := k\<rparr>))"
proof -
  from assms have "(unat (SourcePrefixLen e) + 7) div 8 \<le> (if Family e = 1 then 4 else 16)"
    by (auto simp: ecs_wf_def)
  with assms show ?thesis
    by (auto simp: safe_def BuildECS_def Let_def outcome_simps ecs_wf_def goSlice_def To16_length
        dest!: To4_length To16_length split: option.splits if_splits)
qed

lemma ecs_wf_sendable: "ecs_wf e \<Longrightarrow> ecs_sendable (Some e)"
  using safe_BuildECS [of e 0] by (simp add: ecs_sendable_def safe_def)

lemma ParseECS_wf: "ParseECS d = Ret e \<Longrightarrow> ecs_wf e"
  by (auto simp: ParseECS_def outcome_simps ecs_wf_def padCopy_def not_less word_le_nat_alt split: if_splits)

lemma ecsFirst_wf: "ecsFirst os = Ret (Some e) \<Longrightarrow> ecs_wf e"
  by (induction os) (auto simp: outcome_simps split: if_splits dest: ParseECS_wf)

lemma length_TruncateIP: "length (TruncateIP ip k) \<in> {4, 16}"
  by (auto simp: TruncateIP_def Let_def To4_length To16_length split: option.split)

lemma unat_of_int_small: "0 < x \<Longrightarrow> x \<le> 128 \<Longrightarrow> unat (of_int x :: u8) = nat x"
  by (simp add: unat_eq_nat_uint uint_word_of_int)

lemma length_TruncateIP4: "length ip = 4 \<Longrightarrow> length (TruncateIP ip k) = 4"
  by (simp add: TruncateIP_def Let_def To4_def)

definition capPrefix :: "int \<Rightarrow> u8 \<Rightarrow> u8" where
  "capPrefix mx src = (if mx < int (unat src) then of_int mx else src)"

lemma capPrefix_bound: "0 < mx \<Longrightarrow> mx \<le> m \<Longrightarrow> m \<le> 128 \<Longrightarrow> unat (capPrefix mx src) \<le> nat m"
  using unat_of_int_small [of mx] by (auto simp only: capPrefix_def split: if_split)

lemma ecs_wf_capped:
  assumes "ecs_wf c" "0 < mx" "mx \<le> (if Family c = 1 then 32 else 128)"
  shows "ecs_wf \<lparr>Family = Family c, SourcePrefixLen = capPrefix mx (SourcePrefixLen c), ScopePrefixLen = 0,
    ecsAddress = TruncateIP (ecsAddress c) (capPrefix mx (SourcePrefixLen c))\<rparr>"
  using assms capPrefix_bound [of mx 32 "SourcePrefixLen c"] capPrefix_bound [of mx 128 "SourcePrefixLen c"]
    length_TruncateIP [of "ecsAddress c" "capPrefix mx (SourcePrefixLen c)"]
    length_TruncateIP4 [of "ecsAddress c" "capPrefix mx (SourcePrefixLen c)"]
  unfolding ecs_wf_def by (cases "Family c = 1") simp_all

lemma buildOutboundECS_wf:
  assumes "buildOutboundECS h opt = Some e"
  shows "ecs_wf e"
proof -
  define v4 where "v4 = (if ecsMaxPrefix h \<le> 0 \<or> 32 < ecsMaxPrefix h then 24 else ecsMaxPrefix h)"
  define v6 where "v6 = (if ecsMaxPrefixV6 h \<le> 0 \<or> 128 < ecsMaxPrefixV6 h then 56 else ecsMaxPrefixV6 h)"
  from assms obtain o' c where o': "opt = Some o'" and c: "ecsFirst (Options o') = Ret (Some c)"
    by (auto simp: buildOutboundECS_def ExtractECSFromOPT_def split: if_splits option.splits)
  have wf: "ecs_wf c" by (rule ecsFirst_wf [OF c])
  let ?out = "\<lambda>mx. \<lparr>Family = Family c, SourcePrefixLen = capPrefix mx (SourcePrefixLen c), ScopePrefixLen = 0,
    ecsAddress = TruncateIP (ecsAddress c) (capPrefix mx (SourcePrefixLen c))\<rparr>"
  have some: "okOf (Ret (Some c)) = Some (Some c)" by simp
  have "e = c\<lparr>ScopePrefixLen := 0\<rparr> \<or> Family c = 1 \<and> e = ?out v4 \<or> Family c = 2 \<and> e = ?out v6"
    using assms
    unfolding o' buildOutboundECS_def ExtractECSFromOPT_def option.case c some Let_def
      v4_def [symmetric] v6_def [symmetric] capPrefix_def [symmetric]
    by (simp only: split: if_split_asm) auto
  moreover have "ecs_wf (c\<lparr>ScopePrefixLen := 0\<rparr>)" using wf by (simp add: ecs_wf_def)
  moreover have "0 < v4" "v4 \<le> 32" "0 < v6" "v6 \<le> 128" by (auto simp: v4_def v6_def)
  ultimately show ?thesis using ecs_wf_capped [OF wf, of v4] ecs_wf_capped [OF wf, of v6] by auto
qed

lemma safe_appendECS: "ecs_wf e \<Longrightarrow> safe (appendECSToResponse resp (Some (e\<lparr>ScopePrefixLen := k\<rparr>)))"
  unfolding appendECSToResponse_def option.case by (intro safe_rules safe_BuildECS)

lemma safe_cacheECS: "(\<And>e. out = Some e \<Longrightarrow> ecs_wf e) \<Longrightarrow> safe (buildCacheResponseECS h m en out)"
  unfolding buildCacheResponseECS_def by (intro safe_rules safe_appendECS)

section \<open>The handler returns\<close>

definition runs :: "'a hio \<Rightarrow> bool" where
  "runs m \<longleftrightarrow> (\<forall>s. cache_inv (rsCache (rstate s)) \<longrightarrow> (\<exists>a s'. m s = Some (a, s') \<and> cache_inv (rsCache (rstate s'))))"

named_theorems ret_rules

lemma runs_ret [ret_rules]: "runs (retH a)"
  by (simp add: runs_def retH_def)

lemma runs_bind [ret_rules]: "runs m \<Longrightarrow> (\<And>a. runs (f a)) \<Longrightarrow> runs (bindH m f)"
  unfolding runs_def bindH_def by (metis (no_types, lifting) case_prod_conv option.simps(5))

lemma runs_mod [ret_rules]: "(\<And>s. rstate (f s) = rstate s) \<Longrightarrow> runs (modH f)"
  by (simp add: runs_def modH_def)

lemma runs_lift: "total m (\<lambda>_. True) \<Longrightarrow> runs (liftR m)"
  unfolding runs_def total_def liftR_def by fastforce

lemma runs_try [ret_rules]: "safe r \<Longrightarrow> runs (tryH r)"
  by (cases r) (simp_all add: safe_def runs_def tryH_def)

lemma runs_if [ret_rules]: "(b \<Longrightarrow> runs m) \<Longrightarrow> (\<not> b \<Longrightarrow> runs m') \<Longrightarrow> runs (if b then m else m')"
  by simp

lemma runs_option [ret_rules]: "(x = None \<Longrightarrow> runs m) \<Longrightarrow> (\<And>a. x = Some a \<Longrightarrow> runs (f a)) \<Longrightarrow> runs (case x of None \<Rightarrow> m | Some a \<Rightarrow> f a)"
  by (cases x) simp_all

lemma runs_sum [ret_rules]: "(\<And>a. x = Inl a \<Longrightarrow> runs (f a)) \<Longrightarrow> (\<And>a. x = Inr a \<Longrightarrow> runs (g a)) \<Longrightarrow> runs (case x of Inl a \<Rightarrow> f a | Inr a \<Rightarrow> g a)"
  by (cases x) simp_all

lemma runs_prod [ret_rules]: "(\<And>a b. x = (a, b) \<Longrightarrow> runs (f a b)) \<Longrightarrow> runs (case x of (a, b) \<Rightarrow> f a b)"
  by (cases x) simp_all

lemma runs_action [ret_rules]: "runs m \<Longrightarrow> runs m1 \<Longrightarrow> runs m2 \<Longrightarrow> runs (case x of RRLAllow \<Rightarrow> m | RRLDrop \<Rightarrow> m1 | RRLSlip \<Rightarrow> m2)"
  by (cases x) simp_all

lemma runs_out [ret_rules]: "safe r \<Longrightarrow> runs (outH r)"
  unfolding outH_def by (intro ret_rules)

lemma runs_now [ret_rules]: "runs (nowH R)"
  unfolding nowH_def by (intro runs_lift total_read) simp

lemma runs_nowFunc [ret_rules]: "runs (nowFunc R)"
  unfolding nowFunc_def by (intro ret_rules)

lemma runs_inc [ret_rules]: "runs (incResponses k)" "runs (incQueries k)" "runs (callOnQuery a b c d e)"
  unfolding incResponses_def incQueries_def callOnQuery_def by (intro ret_rules; simp)+

lemma runs_get: 
  assumes "\<And>now c. cache_inv c \<Longrightarrow> cache_inv (snd (get now c))"
  shows "runs (getIO get R)"
  unfolding getIO_def
proof (intro ret_rules runs_lift)
  fix now
  show "total (\<lambda>s. case get now (rsCache s) of (e, c) \<Rightarrow> Some (e, s\<lparr>rsCache := c\<rparr>)) (\<lambda>_. True)"
    unfolding total_def
  proof (intro allI impI)
    fix s :: RState assume "cache_inv (rsCache s)"
    from assms [OF this, of now]
    show "\<exists>a s'. (case get now (rsCache s) of (e, c) \<Rightarrow> Some (e, s\<lparr>rsCache := c\<rparr>)) = Some (a, s') \<and> cache_inv (rsCache s') \<and> True"
      by (auto split: prod.split)
  qed
qed

lemma runs_put: "(\<And>now c. \<exists>now'. stores now' c (put now c)) \<Longrightarrow> runs (putIO put R)"
  unfolding putIO_def by (intro ret_rules runs_lift total_cache)

lemma runs_limiter [ret_rules]: "runs (limiterAllow R ip)"
  unfolding limiterAllow_def by (intro ret_rules) (auto simp: runs_def split: option.split prod.split)

lemma runs_rrl [ret_rules]: "runs (rrlAction R ip qn rc)"
  unfolding rrlAction_def by (intro ret_rules) (auto simp: runs_def split: option.split prod.split)

lemma runs_limitReply: "length query \<le> 4096 \<Longrightarrow> runs (limitReply R query ip qn rc resp)"
  unfolding limitReply_def by (intro ret_rules safe_slip)

lemma runs_storeResult [ret_rules]: "runs (storeResult h R q out result)"
  unfolding storeResult_def Let_def
  by (intro ret_rules runs_put) (auto intro: stores_all)

lemma runs_failure [ret_rules]: "runs (putIO (\<lambda>now c. StoreFailure now c n t cl ttl) R)"
  by (intro runs_put) (auto intro: stores_all)

lemma runs_replyResolved:
  assumes "length query \<le> 4096" and "\<And>e. out = Some e \<Longrightarrow> ecs_wf e"
  shows "runs (replyResolved h R query ip msg q out rc result)"
  unfolding replyResolved_def
  by (intro ret_rules safe_rules safe_appendECS runs_limitReply assms)

lemma runs_finish:
  assumes "length query \<le> 4096" and "\<And>e. out = Some e \<Longrightarrow> ecs_wf e"
  shows "runs (finishResolved h R query ip msg q qt byp out result)"
  unfolding finishResolved_def Let_def by (intro ret_rules runs_replyResolved assms)

lemma runs_stale [ret_rules]: "runs (serveStaleReply h R ip msg q qt)"
  unfolding serveStaleReply_def by (intro ret_rules safe_rules runs_get) simp

lemma runs_afterFailure: "length query \<le> 4096 \<Longrightarrow> runs (afterFailure h R query ip msg q qt byp res)"
  unfolding afterFailure_def buildErrorWithEDE_def
  by (intro ret_rules safe_rules safe_buildError)

lemma runs_cacheReply:
  assumes "length query \<le> 4096" and "\<And>e. out = Some e \<Longrightarrow> ecs_wf e"
  shows "runs (cacheReply h R query ip msg q qt out)"
  unfolding cacheReply_def Let_def
  by (intro ret_rules runs_limitReply safe_cacheECS runs_get assms) (simp_all add: Get_inv GetWithECS_inv)

definition yields :: "'a hio \<Rightarrow> ('a \<Rightarrow> bool) \<Rightarrow> bool" where
  "yields m P \<longleftrightarrow> (\<forall>s a s'. m s = Some (a, s') \<longrightarrow> P a)"

lemma yields_ret: "P a \<Longrightarrow> yields (retH a) P"
  by (simp add: yields_def retH_def)

lemma yields_bind: "(\<And>a. yields (f a) P) \<Longrightarrow> yields (bindH m f) P"
  unfolding yields_def bindH_def by (fastforce split: option.splits)

lemma runs_bind_yields: "runs m \<Longrightarrow> yields m P \<Longrightarrow> (\<And>a. P a \<Longrightarrow> runs (f a)) \<Longrightarrow> runs (bindH m f)"
  unfolding runs_def yields_def bindH_def by (metis (no_types, lifting) case_prod_conv option.simps(5))

lemma afterFailure_error: "yields (afterFailure h R query ip msg q qt byp (Inl err)) (\<lambda>r. r \<noteq> None)"
  unfolding afterFailure_def
  by (auto intro!: yields_bind yields_ret split: option.split)

lemma runs_resolveQuery:
  assumes small: "length query \<le> 4096" and wf: "\<And>e. out = Some e \<Longrightarrow> ecs_wf e"
    and res: "total (ResolveWithECS n R (qName q) (qType q) (qClass q) out) (\<lambda>_. True)"
  shows "runs (resolveQuery n h R query ip msg q qt byp out)"
proof -
  have "runs (bindH (if (case res of Inl _ \<Rightarrow> True | Inr result \<Rightarrow> resRCODE result = RCodeServFail)
            then afterFailure h R query ip msg q qt byp res else retH None) (\<lambda>early.
     case (early, res) of
       (Some r, _) \<Rightarrow> retH r
     | (None, Inr result) \<Rightarrow> finishResolved h R query ip msg q qt byp out result
     | (None, Inl err) \<Rightarrow> (\<lambda>s. None)))" for res
  proof (cases res)
    case (Inl err)
    have "runs (bindH (afterFailure h R query ip msg q qt byp (Inl err)) (\<lambda>early.
       case (early, Inl err) of (Some r, _) \<Rightarrow> retH r
       | (None, Inr result) \<Rightarrow> finishResolved h R query ip msg q qt byp out result
       | (None, Inl err) \<Rightarrow> (\<lambda>s. None)))"
      by (rule runs_bind_yields [OF runs_afterFailure [OF small] afterFailure_error])
         (auto intro: runs_ret)
    with Inl show ?thesis by simp
  next
    case (Inr result)
    show ?thesis
      unfolding Inr by (intro ret_rules runs_afterFailure small)
        (auto split: option.split intro!: ret_rules runs_finish [OF small wf])
  qed
  note rest = this
  show ?thesis
    unfolding resolveQuery_def
    by (rule runs_bind [OF runs_mod runs_bind [OF runs_lift [OF res] rest]]) simp
qed

text \<open>The resolver returns, for every question and every subnet that \<open>BuildECS\<close> can encode.\<close>

definition resolves :: "nat \<Rightarrow> Resolver \<Rightarrow> bool" where
  "resolves n R \<longleftrightarrow> (\<forall>name t c ecs. ecs_sendable ecs \<longrightarrow> total (ResolveWithECS n R name t c ecs) (\<lambda>_. True))"

lemma runs_handleQuestion:
  assumes small: "length query \<le> 4096" and res: "resolves n R"
  shows "runs (handleQuestion n h R query ip msg q)"
proof -
  let ?out = "buildOutboundECS h (msgEDNS0 msg)"
  have wf: "ecs_wf e" if "?out = Some e" for e by (rule buildOutboundECS_wf [OF that])
  have "ecs_sendable ?out" by (cases ?out) (simp_all add: ecs_wf_sendable wf)
  then have "total (ResolveWithECS n R (qName q) (qType q) (qClass q) ?out) (\<lambda>_. True)"
    using res by (simp add: resolves_def)
  note rq = runs_resolveQuery [OF small wf this]
  show ?thesis
    unfolding handleQuestion_def Let_def
    by (intro ret_rules safe_rules safe_buildError small runs_cacheReply [OF small wf] rq) simp_all
qed

lemma runs_handleMessage:
  assumes "length query \<le> 4096" and "resolves n R"
  shows "runs (handleMessage n h R query ip msg)"
  unfolding handleMessage_def Let_def buildBadVersResponse_def buildBadCookieResponse_def
  by (intro ret_rules safe_rules safe_buildError runs_handleQuestion assms)

lemma runs_Handle:
  assumes "length query \<le> 4096" and "resolves n R"
  shows "runs (Handle n h R query addr)"
proof (cases "Unpack query")
  case Panic
  then show ?thesis using Unpack_no_panic_lemma by blast
next
  case (Err e)
  show ?thesis unfolding Handle_def Let_def Err outcome.case
    by (intro ret_rules safe_buildError assms) simp_all
next
  case (Ret msg)
  show ?thesis unfolding Handle_def Let_def Ret outcome.case
    by (intro ret_rules safe_buildError runs_handleMessage assms) simp_all
qed

text \<open>
  C3. The handler survives every query: for every byte string of at most 4096 bytes (a UDP datagram has at most
  that), every client, every setting of the handler, every state with a sound cache and every behaviour of the network, \<open>Handle\<close> returns and leaves the
  cache sound, if the resolver returns.  No slice of the reply path is out of range, whatever cookie, client subnet or
  EDNS options the query carries.
\<close>

theorem Handle_returns:
  assumes "length query \<le> 4096" and "resolves n R" and "cache_inv (rsCache (rstate s))"
  shows "\<exists>r s'. Handle n h R query addr s = Some (r, s') \<and> cache_inv (rsCache (rstate s'))"
  using runs_Handle [OF assms(1,2)] assms(3) by (auto simp: runs_def)

text \<open>A resolver whose servers never answer.\<close>

definition dead_env :: Env where
  "dead_env = (sample_env [])\<lparr>udpReply := (\<lambda>_ _ _. Inl ''timeout'')\<rparr>"

definition dead_resolver :: Resolver where
  "dead_resolver = (sample_resolver [] None)\<lparr>env := dead_env\<rparr>"

lemma dead_exchange: "total (exchange dead_env ns p tx n t c cs) isl"
  unfolding exchange_def
  by (rule total_bind [where P = "\<lambda>r. r = Inl ''timeout''"]) (auto simp: dead_env_def intro!: total_send total_ret)

lemma dead_sendPacked:
  assumes "ecs_sendable ecs"
  shows "total (sendPacked dead_env cfg ns tx rd n t c e0 ecs cs) isl"
proof (cases "andThen (queryMessage cfg tx rd n t c e0 ecs) (\<lambda>m. Pack m (replicate 4096 0))")
  case Panic
  with queryMessage_no_panic [OF assms] Pack_no_panic_lemma show ?thesis
    by (cases "queryMessage cfg tx rd n t c e0 ecs") (auto simp: outcome_simps)
qed (auto simp: sendPacked_def dead_exchange intro!: total_ret)

lemma dead_sendQuery: "ecs_sendable ecs \<Longrightarrow> total (sendQuery dead_env cfg ns n t c e0 ecs) isl"
  unfolding sendQuery_def by (intro total_bind_any total_option total_read total_if total_ret dead_sendPacked) simp_all

lemma dead_retry: "total once isl \<Longrightarrow> total (retryLoop k once e) isl"
proof (induction k arbitrary: e)
  case (Suc k)
  show ?case unfolding retryLoop.simps
    by (rule total_bind [OF Suc.prems]) (auto intro!: total_rules Suc split: sum.splits)
qed (simp add: total_ret)

lemma dead_query: "ecs_sendable ecs \<Longrightarrow> total (queryUpstreamECS dead_env cfg ns n t c ecs) isl"
  unfolding queryUpstreamECS_def queryUpstreamOnceECS_def
  by (rule total_bind_any [OF total_mod]) (simp_all add: dead_retry dead_sendQuery)

lemma dead_simps [simp]: "config dead_resolver = sample_config" "env dead_resolver = dead_env" "forwardTable dead_resolver = None"
  "localZones dead_resolver = None" "DNS64Enabled sample_config = False"
  "toNameServerList (rootServers dead_resolver) = [\<lparr>hostname = ''a.root-servers.net'', ipv4 = ''198.41.0.4'', ipv6 = []\<rparr>]"
  by (simp_all add: dead_resolver_def sample_resolver_def toNameServerList_def sample_config_def)

lemma dead_select: "total (selectAndResolveNS dead_resolver ora [\<lparr>hostname = hn, ipv4 = ''198.41.0.4'', ipv6 = []\<rparr>] z)
    (\<lambda>r. r = Inr (hn, ''198.41.0.4''))"
  by (simp add: selectAndResolveNS_def total_def)

lemma dead_step:
  assumes "ecs_sendable ecs"
  shows "total (resolveStep dead_resolver ora (upstreamOf dead_resolver) n t c vis (roots dead_resolver) z skip ecs e) (\<lambda>p. \<exists>r. fst p = Done r)"
proof -
  let ?Q = "\<lambda>p :: stepResult \<times> visitedSet. \<exists>r. fst p = Done r"
  have drop: "\<exists>r. dropServer [\<lparr>hostname = hn, ipv4 = ''198.41.0.4'', ipv6 = []\<rparr>] ''198.41.0.4'' z a b = Done r" for a b hn
    by (simp add: dropServer_def Let_def removeNSByIP_def)
  show ?thesis
    unfolding resolveStep_def dead_simps
    by (rule total_bind [OF dead_select])
       (auto simp: drop Let_def dead_query assms split: sum.splits intro!: total_ret total_bind_any [OF total_read] total_bind [OF dead_query [OF assms]] total_bind_any [OF total_mod])
qed

lemma dead_loop:
  assumes "ecs_sendable ecs"
  shows "total (resolveLoop dead_resolver ora (upstreamOf dead_resolver) n t c cd vis (roots dead_resolver) z skip ecs d e) (\<lambda>_. True)"
proof (subst resolveLoop.simps, rule total_if)
  show "total (bindIO (resolveStep dead_resolver ora (upstreamOf dead_resolver) n t c vis (roots dead_resolver) z skip ecs e) (\<lambda>p.
          case fst p of Done r \<Rightarrow> retIO r
          | Continue ns z e \<Rightarrow> resolveLoop dead_resolver ora (upstreamOf dead_resolver) n t c cd (snd p) ns z skip ecs (d + 1) e
          | Redirect target rrs status \<Rightarrow>
              bindIO (if MaxCNAMEDepth (config dead_resolver) < cd + 1 then retIO (Inl ''CNAME chain too long'')
                      else resolveLoop dead_resolver ora (upstreamOf dead_resolver) target t c (cd + 1) (snd p) (roots dead_resolver) [] skip ecs 0 None)
                (\<lambda>r. retIO (prependRedirect rrs status r)))) (\<lambda>_. True)"
    by (rule total_bind [OF dead_step [OF assms]]) (auto intro: total_ret)
qed (rule total_ret, rule TrueI)

lemma dead_resolves: "resolves 1 dead_resolver"
proof -
  have "total (resolveInner 1 dead_resolver (upstreamOf dead_resolver) name t c (roots dead_resolver) [] False ecs) (\<lambda>_. True)"
    if "ecs_sendable ecs" for name t c ecs
    unfolding One_nat_def resolveInner.simps resolveIterativeFromInner_def by (intro total_if total_ret dead_loop that TrueI)
  then have "total (resolvePrimary 1 dead_resolver name t c ecs) (\<lambda>_. True)" if "ecs_sendable ecs" for name t c ecs
    using that by (simp add: resolvePrimary_def Match_def resolveIterativeECS_def)
  then show ?thesis
    unfolding resolves_def ResolveWithECS_def Let_def dead_simps option.case
    by (auto simp: total_queryFallback split: sum.split intro!: total_ret total_bind_any total_option)
qed

definition sample_hstate :: HState where
  "sample_hstate = \<lparr>rstate = sample_state, limiter = None, rrl = None, mQueries = (\<lambda>_. 0), mResponses = (\<lambda>_. 0), cacheHits = 0,
     cacheMisses = 0, rateLimited = 0, blockedQueries = 0, onQuery = []\<rparr>"

lemma sample_query_small: "length sample_query \<le> 4096" and sample_hstate_inv: "cache_inv (rsCache (rstate sample_hstate))"
  by (simp_all add: sample_query_def sample_hstate_def)

theorem Handle_returns_witness: "\<exists>r s'. Handle 1 (NewMainHandler None) dead_resolver sample_query None sample_hstate = Some (r, s')"
  using Handle_returns [OF sample_query_small dead_resolves sample_hstate_inv] by blast

section \<open>A query that is too long\<close>

text \<open>A header that announces 1024 questions, and 1024 questions for the root with type and class 0.\<close>

definition long_header :: Header where
  "long_header = \<lparr>ID = 0, Flags = 0, QDCount = 1024, ANCount = 0, NSCount = 0, ARCount = 0\<rparr>"

definition long_query :: bytes where
  "long_query = header_bytes long_header @ replicate 5120 0"

lemma length_long_query: "length long_query = 5132"
  by (simp add: long_query_def)

lemma long_query_zero: "12 \<le> i \<Longrightarrow> i < 5132 \<Longrightarrow> long_query ! i = 0"
  by (simp add: long_query_def nth_append)

lemma long_query_name: "12 \<le> i \<Longrightarrow> i < 5132 \<Longrightarrow> DecodeName long_query i = Ret ([], i + 1)"
  by (simp add: DecodeName_def decodeLoop.simps length_long_query long_query_zero outcome_simps goIndex_def)

lemma long_query_skip: "12 \<le> i \<Longrightarrow> i + 5 * k \<le> 5132 \<Longrightarrow> skipQuestions long_query k i = (i + 5 * k, True)"
proof (induction k arbitrary: i)
  case (Suc k)
  then have "skipQuestions long_query k (i + 5) = (i + 5 + 5 * k, True)" by simp
  with Suc.prems show ?case by (simp add: length_long_query long_query_name okOf_def add.commute)
qed simp

lemma long_query_qdcount: "be16 (take 2 (drop 4 long_query)) = 1024"
  by (simp add: long_query_def long_header_def header_bytes_def putUint16_def getUint16_def)

lemma long_query_error: "buildError long_query rcode = Panic"
  using long_query_skip [of 12 1024]
  by (simp add: buildError_def length_long_query long_query_qdcount Let_def)

lemma long_query_unpack:
  assumes "Unpack long_query = Ret msg"
  shows "msgHeader msg = long_header \<and> length (Questions msg) = 1024"
proof -
  have "Header_Unpack (newWireReader long_query) = Ret (long_header, (newWireReader long_query)\<lparr>roffset := 12\<rparr>)"
    by (rule Header_Unpack_header_bytes) (simp_all add: newWireReader_def long_query_def)
  with assms show ?thesis
    by (auto simp: Unpack_def outcome_simps length_long_query long_header_def dest!: unpackQuestions_Ret)
qed

text \<open>
  The bound on the length of a query is needed.  \<open>buildError\<close> copies the question section into a pooled buffer
  of 4096 bytes and slices the buffer at its end, so a query of 5132 bytes with 1024 questions makes \<open>Handle\<close> panic, for every handler,
  every client and every state: all ways through the handler end in an error reply.
\<close>

theorem long_query_panics: "Handle n h R long_query addr s = None"
proof -
  have out: "outH (buildError long_query rcode) s = None" for rcode s
    by (simp add: outH_def tryH_def bindH_def long_query_error)
  have refuse: "bindH (incResponses k) (\<lambda>_. outH (buildError long_query rcode)) s = None" for k rcode s
    by (simp add: bindH_def incResponses_def modH_def out)
  have msg: "handleMessage n h R long_query ip msg s = None" if "Unpack long_query = Ret msg" for msg ip s
    using long_query_unpack [OF that] refuse
    by (simp add: handleMessage_def Let_def long_header_def QR_def Opcode_def)
  show ?thesis
    using Unpack_no_panic_lemma [of long_query]
    by (cases "Unpack long_query")
       (auto simp: Handle_def Let_def out bindH_def incResponses_def modH_def msg split: option.split prod.split)
qed

section \<open>Error replies\<close>

lemma be_put [simp]: "be16 (putUint16 v) = v" "be32 (putUint32 u) = u"
  by (simp_all add: putUint16_def putUint32_def get_putUint16 get_putUint32)

lemma Unpack_header:
  assumes "Unpack query = Ret msg"
  shows "query = header_bytes (msgHeader msg) @ drop 12 query" and "12 \<le> length query"
    and "\<exists>k. unpackQuestions query 12 (unat (QDCount (msgHeader msg))) = Ret (Questions msg, k)"
proof -
  from assms show len: "12 \<le> length query" by (auto simp: Unpack_def split: if_splits)
  let ?h = "\<lparr>ID = be16 query, Flags = be16 (drop 2 query), QDCount = be16 (drop 4 query), ANCount = be16 (drop 6 query),
    NSCount = be16 (drop 8 query), ARCount = be16 (drop 10 query)\<rparr>"
  from len obtain b0 b1 b2 b3 b4 b5 b6 b7 b8 b9 b10 b11 rest
    where q: "query = b0 # b1 # b2 # b3 # b4 # b5 # b6 # b7 # b8 # b9 # b10 # b11 # rest"
    by (auto simp: numeral_eq_Suc Suc_le_length_iff)
  then have split: "query = header_bytes ?h @ drop 12 query"
    by (simp add: header_bytes_def put_getUint16)
  have "Header_Unpack (newWireReader query) = Ret (?h, (newWireReader query)\<lparr>roffset := 12\<rparr>)"
    by (rule Header_Unpack_header_bytes [where post = "drop 12 query"]) (use split in \<open>simp_all add: newWireReader_def\<close>)
  with assms have "msgHeader msg = ?h" and k: "\<exists>k. unpackQuestions query 12 (unat (QDCount (msgHeader msg))) = Ret (Questions msg, k)"
    by (auto simp: Unpack_def outcome_simps split: if_splits)
  with split show "query = header_bytes (msgHeader msg) @ drop 12 query" by metis
  show "\<exists>k. unpackQuestions query 12 (unat (QDCount (msgHeader msg))) = Ret (Questions msg, k)" by (rule k)
qed

lemma skipQuestions_end:
  "unpackQuestions buf off n = Ret (qs, e) \<Longrightarrow> skipQuestions buf n off = (e, True)"
proof (induction n arbitrary: off qs)
  case (Suc n)
  then obtain q o1 qs' where q: "UnpackQuestion buf off = Ret (q, o1)" and qs: "unpackQuestions buf o1 n = Ret (qs', e)"
    by (auto simp: outcome_simps)
  from q obtain nm k where nm: "DecodeName buf off = Ret (nm, k)" and o1: "o1 = k + 4"
    by (auto simp: UnpackQuestion_def outcome_simps read_Ret_iff)
  from UnpackQuestion_bounds [OF q] have "off < length buf" by auto
  with Suc.IH [OF qs] show ?case by (simp add: nm o1 okOf_def)
qed simp


definition errorHeader :: "Header \<Rightarrow> u8 \<Rightarrow> Header" where
  "errorHeader h rcode = h\<lparr>Flags := errorFlags (Flags h) rcode, ANCount := 0, NSCount := 0, ARCount := 0\<rparr>"

lemma bit_errorFlags: "bit (errorFlags f rcode) n \<longleftrightarrow> (n = 15 \<or> n = 7 \<or> n < 16 \<and> 4 \<le> n \<and> bit f n \<or> bit rcode n)"
proof -
  have masks: "(0x8000 :: u16) = push_bit 15 1" "(0x80 :: u16) = push_bit 7 1" "(0xFFF0 :: u16) = NOT 15"
    by simp_all
  show ?thesis
    unfolding errorFlags_def masks bit_or_iff bit_and_iff bit_not_iff bit_15 bit_push_bit_iff bit_unsigned_iff
    by (auto simp: bit_simps dest: bit_imp_le_length)
qed

lemma small_bits: "rcode < 16 \<Longrightarrow> bit (rcode :: u8) n \<Longrightarrow> n < 4"
proof -
  assume "rcode < 16" "bit rcode n"
  from \<open>rcode < 16\<close> have "rcode AND mask 4 = rcode" by (simp add: mask_eq_iff word_less_def)
  with \<open>bit rcode n\<close> have "bit (rcode AND mask 4) n" by simp
  then show "n < 4" by (simp add: bit_and_iff bit_mask_iff)
qed

lemma errorHeader_fields:
  assumes "rcode < 16"
  shows "QR (errorHeader h rcode)" "RA (errorHeader h rcode)" "RCODE (errorHeader h rcode) = rcode"
    "Opcode (errorHeader h rcode) = Opcode h" "RD (errorHeader h rcode) = RD h" "CD (errorHeader h rcode) = CD h"
proof -
  note high = small_bits [OF assms]
  show "QR (errorHeader h rcode)" "RA (errorHeader h rcode)" "RD (errorHeader h rcode) = RD h" "CD (errorHeader h rcode) = CD h"
    using high [of 8] high [of 4] by (auto simp: flag_bits errorHeader_def bit_errorFlags)
  show "RCODE (errorHeader h rcode) = rcode"
    by (rule bit_word_eqI) (use high in \<open>auto simp: bit_RCODE errorHeader_def bit_errorFlags\<close>)
  show "Opcode (errorHeader h rcode) = Opcode h"
    by (rule bit_word_eqI) (auto simp: bit_Opcode errorHeader_def bit_errorFlags dest: high)
qed

lemma buildError_bytes:
  assumes "Unpack query = Ret msg" and "length query \<le> 4096"
  shows "\<exists>k. unpackQuestions query 12 (unat (QDCount (msgHeader msg))) = Ret (Questions msg, k) \<and>
    buildError query rcode = Ret (header_bytes (errorHeader (msgHeader msg) rcode) @ take (k - 12) (drop 12 query))"
proof -
  from Unpack_header(3) [OF assms(1)] obtain k
    where k: "unpackQuestions query 12 (unat (QDCount (msgHeader msg))) = Ret (Questions msg, k)" by blast
  obtain a b c d e f where h: "msgHeader msg = \<lparr>ID = a, Flags = b, QDCount = c, ANCount = d, NSCount = e, ARCount = f\<rparr>"
    by (cases "msgHeader msg") 
  have q: "query = header_bytes (msgHeader msg) @ drop 12 query" by (rule Unpack_header(1) [OF assms(1)])
  have bytes: "take 2 query = putUint16 a" "take 2 (drop 2 query) = putUint16 b" "take 2 (drop 4 query) = putUint16 c"
    by (subst q, simp add: h header_bytes_def)+
  have "buildError query rcode = Ret (putUint16 a @ putUint16 (errorFlags b rcode) @ putUint16 c @ replicate 6 0
     @ take (k - 12) (drop 12 query))"
    using skipQuestions_end [OF k] Unpack_header(2) [OF assms(1)] assms(2)
    by (simp add: buildError_def bytes h Let_def)
  with k show ?thesis by (simp add: h errorHeader_def header_bytes_def numeral_eq_Suc putUint16_def)
qed

text \<open>
  An error reply is the query's own question under a new header: for every query that parses and fits the
  pooled buffer, and every response code below 16, \<open>buildError\<close> returns a message with the query's identifier, opcode, RD and CD,
  with QR and RA set, with that response code, the query's number of questions and three empty sections, followed
  by exactly the bytes of the query's question section.
\<close>

theorem buildError_echoes:
  assumes "Unpack query = Ret msg" and "length query \<le> 4096" and "rcode < 16"
  shows "\<exists>k h. unpackQuestions query 12 (unat (QDCount (msgHeader msg))) = Ret (Questions msg, k) \<and>
    buildError query rcode = Ret (header_bytes h @ take (k - 12) (drop 12 query)) \<and>
    ID h = ID (msgHeader msg) \<and> Opcode h = Opcode (msgHeader msg) \<and> RD h = RD (msgHeader msg) \<and> CD h = CD (msgHeader msg) \<and>
    QR h \<and> RA h \<and> RCODE h = rcode \<and> QDCount h = QDCount (msgHeader msg) \<and> ANCount h = 0 \<and> NSCount h = 0 \<and> ARCount h = 0"
proof -
  from buildError_bytes [OF assms(1,2), of rcode] obtain k
    where "unpackQuestions query 12 (unat (QDCount (msgHeader msg))) = Ret (Questions msg, k)"
      "buildError query rcode = Ret (header_bytes (errorHeader (msgHeader msg) rcode) @ take (k - 12) (drop 12 query))" by blast
  then show ?thesis
    by (intro exI [of _ k] exI [of _ "errorHeader (msgHeader msg) rcode"]) (simp add: errorHeader_fields [OF assms(3)], simp add: errorHeader_def)
qed

lemma nx_unpacks: "Unpack nx_reply = Ret nx_message"
  using nx_accepted(1) by (simp add: acceptReply_def split: outcome.splits if_splits option.splits)

theorem buildError_echoes_witness:
  "\<exists>k h. buildError nx_reply RCodeServFail = Ret (header_bytes h @ take (k - 12) (drop 12 nx_reply)) \<and>
     ID h = ID (msgHeader nx_message) \<and> QR h \<and> RCODE h = RCodeServFail"
  using buildError_echoes [OF nx_unpacks nx_accepted(2), of RCodeServFail] by auto

section \<open>Cookies\<close>

lemma length_generate: "length (generateServerCookieAt h cc ip ts) = 16"
  by (simp add: generateServerCookieAt_def Let_def putUint32_def putUint64LE_def)

lemma cookie_timestamp: "be32 (take 4 (drop 4 (generateServerCookieAt h cc ip ts))) = ts"
  by (simp add: generateServerCookieAt_def Let_def putUint32_def get_putUint32)

text \<open>
  A server cookie is accepted exactly when this handler made it for this client cookie and this client at
  some time \<open>ts\<close>, and that time is at most one hour before and at most five minutes after the clock; the differences
  do not wrap, since each is taken in the direction in which it is positive.
\<close>

theorem validateServerCookie_iff:
  "validateServerCookie h now clientCookie serverCookie ip \<longleftrightarrow>
     (\<exists>ts. serverCookie = generateServerCookieAt h clientCookie ip ts \<and>
           unat now \<le> unat ts + 3600 \<and> unat ts \<le> unat now + 300)"
proof -
  have diff: "unat (a - b) = unat a - unat b" if "b < a" for a b :: u32
    using that by (simp add: unat_sub less_imp_le)
  have window: "(ts < now \<and> 3600 < now - ts) = (unat ts + 3600 < unat now)"
    "(now < ts \<and> 300 < ts - now) = (unat now + 300 < unat ts)" for ts
    using diff [of ts now] diff [of now ts] by (auto simp: word_less_nat_alt)
  have version: "generateServerCookieAt h clientCookie ip ts ! 0 = 1" for ts
    by (simp add: generateServerCookieAt_def Let_def)
  show ?thesis
    by (auto simp: validateServerCookie_def Let_def window cookie_timestamp length_generate version not_less)
qed

section \<open>The size of a reply\<close>

lemma effectiveSize_bounds:
  "512 \<le> effectiveSize h query"
  "effectiveSize h query \<le> (case msgEDNS0 query of None \<Rightarrow> 512 | Some e \<Rightarrow> max 512 (unat (UDPSize e)))"
  "effectiveSize h query \<le> unat (advertisedSize h)"
proof -
  have cast: "unat (of_int v :: u16) = nat v" if "512 \<le> v" "v \<le> 65535" for v :: int
    using that by (simp add: unat_eq_nat_uint uint_word_of_int)
  have "512 \<le> unat (advertisedSize h)"
    by (simp add: advertisedSize_def Let_def not_less cast le_nat_iff)
  then show "512 \<le> effectiveSize h query"
    "effectiveSize h query \<le> (case msgEDNS0 query of None \<Rightarrow> 512 | Some e \<Rightarrow> max 512 (unat (UDPSize e)))"
    "effectiveSize h query \<le> unat (advertisedSize h)"
    by (auto simp: effectiveSize_def Let_def split: option.split)
qed

lemma skipQuestions_ge: "off \<le> fst (skipQuestions q k off)"
proof (induction k arbitrary: off)
  case (Suc k)
  have "off < n" if "DecodeName q off = Ret (nm, n)" for nm n
    using DecodeName_bounds [OF that] by simp
  moreover have "n + 4 \<le> fst (skipQuestions q k (n + 4))" for n by (rule Suc.IH)
  ultimately show ?case by (auto simp: okOf_def split: outcome.split option.splits) (meson add_leD1 less_imp_le order_trans)
qed simp

text \<open>The header of a reply that was cut: TC, and no records.\<close>

definition cut_header :: "bytes \<Rightarrow> bytes \<Rightarrow> bool" where
  "cut_header packed r \<longleftrightarrow> take 2 r = take 2 packed \<and> take 2 (drop 2 r) = putUint16 (be16 (take 2 (drop 2 packed)) OR 0x200) \<and>
     take 6 (drop 6 r) = replicate 6 0"

lemma maybeTruncateUDP_fits:
  "length (maybeTruncateUDP h packed query) \<le> effectiveSize h query"
  "length packed \<le> effectiveSize h query \<Longrightarrow> maybeTruncateUDP h packed query = packed"
  "effectiveSize h query < length packed \<Longrightarrow> cut_header packed (maybeTruncateUDP h packed query)"
proof -
  let ?cut = "take 2 packed @ putUint16 (be16 (take 2 (drop 2 packed)) OR 0x200) @ take 2 (drop 4 packed) @ replicate 6 0 @ drop 12 packed"
  let ?q = "fst (skipQuestions ?cut (unat (be16 (take 2 (drop 4 ?cut)))) 12)"
  have q: "12 \<le> ?q" by (rule skipQuestions_ge)
  show same: "maybeTruncateUDP h packed query = packed" if "length packed \<le> effectiveSize h query"
    using that by (simp add: maybeTruncateUDP_def)
  have r: "maybeTruncateUDP h packed query = (if effectiveSize h query < ?q then take 4 ?cut @ [0, 0] @ take 6 (drop 6 ?cut) else take ?q ?cut)"
    if "effectiveSize h query < length packed"
    using that unfolding maybeTruncateUDP_def Let_def by simp
  show "cut_header packed (maybeTruncateUDP h packed query)" if "effectiveSize h query < length packed"
    using q that effectiveSize_bounds(1) [of h query] by (simp add: r cut_header_def)
  show "length (maybeTruncateUDP h packed query) \<le> effectiveSize h query"
    using effectiveSize_bounds(1) [of h query] same r by (cases "length packed \<le> effectiveSize h query") auto
qed

text \<open>The message that a long reply is cut to: the same header with TC, the questions, and no records.\<close>

definition truncated :: "Message \<Rightarrow> Message" where
  "truncated m = questions_only ((msgHeader m)\<lparr>Flags := Flags (msgHeader m) OR 0x200\<rparr>) m"

lemma length_wireName_Join: "ls \<noteq> [] \<Longrightarrow> length (wireName ls) = length (Join dot ls) + 2"
  by (induction ls rule: induct_list012) (simp_all add: wireName_def wireLabel_def Join_Cons)

lemma valid_name_length: "valid_name n \<Longrightarrow> length (wireName (splitLabels n)) \<le> 257"
  by (cases "splitLabels n = []") (simp add: wireName_def, auto simp: valid_name_def valid_labels_def length_wireName_Join)

lemma truncated_bytes:
  assumes "packToOwnedBytes m = Ret packed" and "Questions m = [q]" "valid_name (qName q)" and "effectiveSize h query < length packed"
  shows "packToOwnedBytes (truncated m) = Ret (maybeTruncateUDP h packed query)"
proof -
  from assms(1) obtain m' where pack: "Pack m (replicate 4096 0) = Ret (m', packed)"
    by (auto simp: packToOwnedBytes_def outcome_simps)
  then have m': "m' = updateCounts m" by (rule Pack_steps)
  let ?t = "(msgHeader m)\<lparr>Flags := Flags (msgHeader m) OR 0x200\<rparr>"
  let ?h = "msgHeader (updateCounts (questions_only ?t m))"
  have names: "list_all (\<lambda>q. valid_name (qName q)) (Questions m)" using assms(2,3) by simp
  obtain k where k1: "12 \<le> k" and k2: "k \<le> 12 + sum_list (map (\<lambda>q. length (wireName (splitLabels (qName q))) + 4) (Questions m))"
    and k3: "packed = header_bytes (msgHeader m') @ drop 12 packed"
    and k4: "\<forall>h. unpackQuestions (header_bytes h @ drop 12 packed) 12 (length (Questions m)) = Ret (Questions m, k)"
    and k5: "\<forall>h. Pack (questions_only h m) (replicate 4096 0) = Ret (updateCounts (questions_only h m),
        header_bytes (msgHeader (updateCounts (questions_only h m))) @ take (k - 12) (drop 12 packed))"
    by (rule Pack_cut [OF pack names])
  have k2': "k \<le> length (wireName (splitLabels (qName q))) + 16" using k2 by (simp add: assms(2))
  have k4': "unpackQuestions (header_bytes ?h @ drop 12 packed) 12 1 = Ret ([q], k)" using spec [OF k4, of ?h] by (simp add: assms(2))
  have cut: "take 2 packed @ putUint16 (be16 (take 2 (drop 2 packed)) OR 0x200) @ take 2 (drop 4 packed) @ replicate 6 0 @ drop 12 packed
      = header_bytes ?h @ drop 12 packed"
  proof -
    obtain a b c d e f where h: "msgHeader m = \<lparr>ID = a, Flags = b, QDCount = c, ANCount = d, NSCount = e, ARCount = f\<rparr>"
      by (cases "msgHeader m")
    have zero: "replicate 6 0 = putUint16 0 @ putUint16 0 @ putUint16 0" by (simp add: putUint16_def numeral_eq_Suc)
    have "take 2 packed = putUint16 a" "take 2 (drop 2 packed) = putUint16 b" "take 2 (drop 4 packed) = putUint16 1"
      by (subst k3, simp add: m' h updateCounts_def header_bytes_def assms(2))+
    then show ?thesis by (simp add: h zero updateCounts_def questions_only_def header_bytes_def assms(2))
  qed
  have "be16 (take 2 (drop 4 (header_bytes ?h @ drop 12 packed))) = 1"
    by (simp add: header_bytes_def updateCounts_def questions_only_def assms(2))
  moreover have "k \<le> effectiveSize h query"
    using k2' valid_name_length [OF assms(3)] effectiveSize_bounds(1) [of h query] by simp
  ultimately have "maybeTruncateUDP h packed query = take k (header_bytes ?h @ drop 12 packed)"
    using assms(4) skipQuestions_end [OF k4'] unfolding maybeTruncateUDP_def Let_def cut by (simp add: not_le)
  with k1 spec [OF k5, of ?t] show ?thesis
    by (simp add: truncated_def packToOwnedBytes_def)
qed

text \<open>
  C12. What \<open>buildResponse\<close> makes of a resolved answer fits: it has at most the bytes the client advertised, at most the server's own
  ceiling, and where a client advertises less than 512 bytes or nothing, at most 512.  A message within the limit is sent as it was packed, with
  all its records.  A longer one is cut: TC is set and the three record counts are 0, so that no client takes a partial answer for a whole one; and for
  a query with one question, whose name is one that can be written, the reply is, byte for byte, the packed message with the same header and TC, that
  question and nothing else, and it parses as such.  Options that the handler appends afterwards are not counted in this size.
\<close>

theorem buildResponse_fits:
  assumes "buildResponse h query result = Ret r"
  shows "length r \<le> effectiveSize h query \<and> 512 \<le> effectiveSize h query \<and>
    effectiveSize h query \<le> (case msgEDNS0 query of None \<Rightarrow> 512 | Some e \<Rightarrow> max 512 (unat (UDPSize e))) \<and>
    effectiveSize h query \<le> unat (advertisedSize h) \<and>
    (\<exists>packed. packToOwnedBytes (responseMessage h query result) = Ret packed \<and>
       (if length packed \<le> effectiveSize h query then r = packed
        else cut_header packed r \<and>
          (\<forall>q. Questions query = [q] \<and> valid_name (qName q) \<longrightarrow>
             packToOwnedBytes (truncated (responseMessage h query result)) = Ret r \<and>
             (\<exists>m. Unpack r = Ret m \<and> TC (msgHeader m) \<and> Questions m = [q] \<and> Answers m = [] \<and> Authority m = [] \<and> Additional m = []))))"
proof -
  from assms obtain packed where pk: "packToOwnedBytes (responseMessage h query result) = Ret packed" and r: "r = maybeTruncateUDP h packed query"
    by (auto simp: buildResponse_def outcome_simps)
  note fits = maybeTruncateUDP_fits [where h = h and packed = packed and query = query]
  have "packToOwnedBytes (truncated (responseMessage h query result)) = Ret r \<and>
      (\<exists>m. Unpack r = Ret m \<and> TC (msgHeader m) \<and> Questions m = [q] \<and> Answers m = [] \<and> Authority m = [] \<and> Additional m = [])"
    if big: "\<not> length packed \<le> effectiveSize h query" and q: "Questions query = [q]" "valid_name (qName q)" for q
  proof
    have qs: "Questions (responseMessage h query result) = [q]" using q(1) by (simp add: responseMessage_def Let_def)
    show cut: "packToOwnedBytes (truncated (responseMessage h query result)) = Ret r"
      unfolding r by (rule truncated_bytes [OF pk qs q(2)]) (use big in simp)
    then obtain m' where p: "Pack (truncated (responseMessage h query result)) (replicate 4096 0) = Ret (m', r)"
      by (auto simp: packToOwnedBytes_def outcome_simps)
    have "wf_message (truncated (responseMessage h query result))"
      using qs q(2) by (simp add: wf_message_def truncated_def questions_only_def)
    from Unpack_Pack_lemma [OF p this] obtain m where m: "Unpack r = Ret m" "msgHeader m = msgHeader m'" "Questions m = [q]"
        "Answers m = []" "Authority m = []" "Additional m = []"
      using qs by (auto simp: truncated_def questions_only_def)
    moreover from p have "m' = updateCounts (truncated (responseMessage h query result))" by (rule Pack_steps)
    then have "TC (msgHeader m')"
      by (simp add: updateCounts_def truncated_def questions_only_def flag_bits bit_or_iff)
    ultimately show "\<exists>m. Unpack r = Ret m \<and> TC (msgHeader m) \<and> Questions m = [q] \<and> Answers m = [] \<and> Authority m = [] \<and> Additional m = []"
      by auto
  qed
  with pk r fits effectiveSize_bounds [of h query] show ?thesis
    by (intro conjI exI [of _ packed]) (simp_all add: not_le)
qed

text \<open>An answer of 520 bytes of text, which does not fit into 512 bytes.\<close>

definition long_result :: ResolveResult where
  "long_result = (resultOf RCodeNoError)\<lparr>resAnswers := [\<lparr>rrName = ''a'', rrType = TypeTXT, rrClass = ClassIN, rrTTL = 60, rrRDLength = 520,
     rrRData = replicate 520 0, rrRDataOffset = 0\<rparr>]\<rparr>"

lemma long_packed: "\<exists>b. packToOwnedBytes (responseMessage (NewMainHandler None) nx_message long_result) = Ret b \<and> 512 < length b"
proof -
  let ?rr = "\<lparr>rrName = ''a'', rrType = TypeTXT, rrClass = ClassIN, rrTTL = 60, rrRDLength = 520, rrRData = replicate 520 0, rrRDataOffset = 0\<rparr>"
  let ?m = "responseMessage (NewMainHandler None) nx_message long_result"
  have m: "Questions ?m = [\<lparr>qName = ''a'', qType = TypeA, qClass = ClassIN\<rparr>]" "Answers ?m = [?rr]" "Authority ?m = []" "Additional ?m = []"
    by (simp_all add: responseMessage_def Let_def nx_message_def long_result_def resultOf_def NewMainHandler_def clientWantsDNSSEC_def
        stripDNSSECRRs_def isDNSSECRRType_def FilterPrivateAddresses_def optFor_def)
  have name: "valid_name ''a''" "length (wireName (splitLabels ''a'')) = 3"
    by (simp_all add: valid_name_def valid_labels_def valid_label_def splitLabels_def TrimSuffix_def HasSuffix_def wireName_def wireLabel_def)
  have "wf_message ?m" "message_size ?m \<le> 4096"
    using name by (simp_all add: wf_message_def message_size_def m wf_rr_def wf_rdata_def rr_size_def)
  then obtain b where b: "Pack ?m (replicate 4096 0) = Ret (updateCounts ?m, b)"
    using Pack_returns_lemma [of ?m "replicate 4096 0"] by auto
  from Unpack_Pack_lemma [OF b \<open>wf_message ?m\<close>] obtain u where u: "Unpack b = Ret u" "msgHeader u = msgHeader (updateCounts ?m)"
      "map strip (Answers u) = [strip ?rr]" by (auto simp: m)
  have "unat (ANCount (msgHeader u)) = 1" by (simp add: u(2) updateCounts_def m)
  with u(1) obtain o1 o2 where "unpackRRs b o1 1 = Ret (Answers u, o2)"
    by (auto simp: Unpack_def outcome_simps split: if_splits)
  then obtain rr where rr: "UnpackRR b o1 = Ret (rr, o2)" "Answers u = [rr]" by (auto simp: outcome_simps)
  with u(3) have "rrType rr = TypeTXT" "rrRData rr = replicate 520 0"
    by (simp_all add: strip_def) (metis ResourceRecord.select_convs ResourceRecord.surjective ResourceRecord.update_convs(7))+
  with UnpackRR_Ret [OF rr(1)] have "520 \<le> length b"
    by (auto simp: unpackRData_def copyRData_def outcome_simps dest!: arg_cong [where f = length])
  with b show ?thesis by (auto simp: packToOwnedBytes_def)
qed

theorem buildResponse_fits_witness:
  "\<exists>r m. buildResponse (NewMainHandler None) nx_message long_result = Ret r \<and> length r \<le> 512 \<and>
     Unpack r = Ret m \<and> TC (msgHeader m) \<and> Questions m = Questions nx_message \<and> Answers m = []"
proof -
  obtain b where b: "packToOwnedBytes (responseMessage (NewMainHandler None) nx_message long_result) = Ret b" "512 < length b"
    using long_packed by blast
  then obtain r where r: "buildResponse (NewMainHandler None) nx_message long_result = Ret r"
    by (simp add: buildResponse_def)
  have q: "Questions nx_message = [\<lparr>qName = ''a'', qType = TypeA, qClass = ClassIN\<rparr>]" "valid_name ''a''"
    by (simp_all add: nx_message_def valid_name_def valid_labels_def valid_label_def splitLabels_def TrimSuffix_def HasSuffix_def)
  have size: "msgEDNS0 nx_message = None" by (simp add: nx_message_def)
  from buildResponse_fits [OF r] b q size show ?thesis using r by auto
qed

section \<open>Queries that do not reach the resolver\<close>

text \<open>The resolver's state is left as it was, but for the number of readings that were taken of the environment.\<close>

definition quiet :: "'a hio \<Rightarrow> bool" where
  "quiet m \<longleftrightarrow> (\<forall>s a s'. m s = Some (a, s') \<longrightarrow> rstate s' = (rstate s)\<lparr>tick := tick (rstate s')\<rparr>)"

named_theorems quiet_rules

lemma tick_trans: "r1 = r\<lparr>tick := a\<rparr> \<Longrightarrow> r2 = r1\<lparr>tick := b\<rparr> \<Longrightarrow> r2 = r\<lparr>tick := b\<rparr>"
  for r :: RState
  by simp

lemma quiet_bind [quiet_rules]: "quiet m \<Longrightarrow> (\<And>a. quiet (f a)) \<Longrightarrow> quiet (bindH m f)"
  unfolding quiet_def bindH_def
proof (intro allI impI, goal_cases)
  case (1 s b s')
  then obtain a s1 where "m s = Some (a, s1)" "f a s1 = Some (b, s')" by (auto split: option.splits)
  with 1(1,2) have "rstate s1 = (rstate s)\<lparr>tick := tick (rstate s1)\<rparr>" "rstate s' = (rstate s1)\<lparr>tick := tick (rstate s')\<rparr>" by blast+
  then show ?case by (rule tick_trans)
qed

lemma quiet_ret [quiet_rules]: "quiet (retH a)"
  unfolding quiet_def retH_def by (auto)

lemma quiet_mod [quiet_rules]: "(\<And>s. rstate (f s) = rstate s) \<Longrightarrow> quiet (modH f)"
  unfolding quiet_def modH_def by (auto)

lemma quiet_try [quiet_rules]: "quiet (tryH r)"
  unfolding quiet_def tryH_def by (cases r) (auto)

lemma quiet_if [quiet_rules]: "(b \<Longrightarrow> quiet m) \<Longrightarrow> (\<not> b \<Longrightarrow> quiet m') \<Longrightarrow> quiet (if b then m else m')"
  by simp

lemma quiet_option [quiet_rules]: "quiet m \<Longrightarrow> (\<And>a. quiet (f a)) \<Longrightarrow> quiet (case x of None \<Rightarrow> m | Some a \<Rightarrow> f a)"
  by (cases x) simp_all

lemma quiet_prod [quiet_rules]: "(\<And>a b. quiet (f a b)) \<Longrightarrow> quiet (case x of (a, b) \<Rightarrow> f a b)"
  by (cases x) simp_all

lemma quiet_out [quiet_rules]: "quiet (outH r)"
  unfolding outH_def by (intro quiet_rules)

lemma quiet_now [quiet_rules]: "quiet (nowH R)" "quiet (nowFunc R)"
proof -
  show "quiet (nowH R)" by (auto simp: quiet_def nowH_def liftR_def readIO_def)
  then show "quiet (nowFunc R)" unfolding nowFunc_def by (intro quiet_rules)
qed

lemma quiet_inc [quiet_rules]: "quiet (incResponses k)" "quiet (incQueries k)" "quiet (callOnQuery a b c d e)"
  unfolding incResponses_def incQueries_def callOnQuery_def by (intro quiet_rules; simp)+

lemma quiet_limiter [quiet_rules]: "quiet (limiterAllow R ip)"
  unfolding limiterAllow_def
  by (intro quiet_rules) (auto simp: quiet_def split: option.splits prod.splits)

definition denied :: "MainHandler \<Rightarrow> string \<Rightarrow> Question \<Rightarrow> bool" where
  "denied h ip q \<longleftrightarrow>
     (case hAcl h of None \<Rightarrow> False | Some acl \<Rightarrow> \<not> CheckWithZone acl ip (qName q)) \<or>
     (case blocklist h of None \<Rightarrow> False | Some b \<Rightarrow> IsBlocked b (qName q)) \<or> qType q = TypeANY"

lemma quiet_handleQuestion: "denied h ip q \<Longrightarrow> quiet (handleQuestion n h R query ip msg q)"
  unfolding handleQuestion_def Let_def denied_def by (intro quiet_rules) auto

lemma quiet_handleMessage:
  assumes "\<And>q. Questions msg = [q] \<Longrightarrow> denied h ip q"
  shows "quiet (handleMessage n h R query ip msg)"
proof -
  have "quiet (handleQuestion n h R query ip msg (hd (Questions msg)))" if "length (Questions msg) = 1"
    using that assms by (auto simp: length_Suc_conv intro!: quiet_handleQuestion)
  then show ?thesis unfolding handleMessage_def Let_def by (intro quiet_rules) auto
qed

text \<open>
  C4. A query that policy refuses does not reach the resolver.  Unless a query parses to a single question, for a name the
  access list allows this client and the blocklist does not block, and of a type other than ANY, \<open>Handle\<close> sends no query upstream,
  reads and writes no cache entry and changes no statistic of the resolver: its state is the same up to the number of clock
  readings.
\<close>

theorem denied_not_resolved:
  assumes "\<And>msg q. Unpack query = Ret msg \<Longrightarrow> Questions msg = [q] \<Longrightarrow> denied h (extractIP addr) q"
    and "Handle n h R query addr s = Some (r, s')"
  shows "rstate s' = (rstate s)\<lparr>tick := tick (rstate s')\<rparr>"
proof -
  have "quiet (Handle n h R query addr)"
  proof (cases "Unpack query")
    case (Ret msg)
    show ?thesis unfolding Handle_def Let_def Ret outcome.case
      by (intro quiet_rules quiet_handleMessage assms(1) [OF Ret]) simp_all
  next
    case (Err e)
    show ?thesis unfolding Handle_def Let_def Err outcome.case by (intro quiet_rules) simp_all
  next
    case Panic
    with Unpack_no_panic_lemma show ?thesis by blast
  qed
  with assms(2) show ?thesis by (simp only: quiet_def)
qed

definition block_all :: MainHandler where
  "block_all = SetBlocklist \<lparr>IsBlocked = (\<lambda>_. True), BlockingMode = ''nxdomain'', CustomIP = []\<rparr> (NewMainHandler None)"

theorem denied_not_resolved_witness:
  "\<exists>r s'. Handle 1 block_all dead_resolver sample_query None sample_hstate = Some (r, s') \<and>
     rsCache (rstate s') = rsCache sample_state \<and> upstreamQueries (rstate s') = upstreamQueries sample_state"
proof -
  obtain r s' where r: "Handle 1 block_all dead_resolver sample_query None sample_hstate = Some (r, s')"
    using runs_Handle [OF sample_query_small dead_resolves] sample_hstate_inv unfolding runs_def by blast
  have "denied block_all ip q" for ip q by (simp add: denied_def block_all_def SetBlocklist_def)
  from denied_not_resolved [OF this r] have "rstate s' = sample_state\<lparr>tick := tick (rstate s')\<rparr>" by (simp add: sample_hstate_def)
  then have "rsCache (rstate s') = rsCache (sample_state\<lparr>tick := tick (rstate s')\<rparr>)"
    "upstreamQueries (rstate s') = upstreamQueries (sample_state\<lparr>tick := tick (rstate s')\<rparr>)" by (rule arg_cong)+
  then show ?thesis using r by auto
qed

section \<open>What a client is told about validation\<close>

lemma AD_replyHeader [simp]: "AD (replyHeader query ad rcode) = ad" "CD (replyHeader query ad rcode) = CD (msgHeader query)"
  "QR (replyHeader query ad rcode)" "RA (replyHeader query ad rcode)" "ID (replyHeader query ad rcode) = ID (msgHeader query)"
  by (simp_all add: replyHeader_def flag_bits flag_bit_simps)

text \<open>
  The AD bit says "validated" only when it was: in the reply to a resolved query and in the reply from the cache AD is
  set exactly if the result was secure and the client did not disable checking, and a client that did not ask for DNSSEC records (no EDNS,
  or DO clear) gets none in any section, except records of the very type it asked for.
\<close>

theorem validated_bit:
  "AD (msgHeader (responseMessage h query result)) = (resStatus result = ''secure'' \<and> \<not> CD (msgHeader query)) \<and>
   AD (msgHeader (cacheMessage h query entry)) = (DNSSECStatus entry = ''secure'' \<and> \<not> CD (msgHeader query)) \<and>
   (clientWantsDNSSEC query \<or>
     list_all (\<lambda>rr. rrType rr = questionType query \<or> rrType rr = TypeOPT \<or> isDNSSECRRType (rrType rr) = False)
       (Answers (responseMessage h query result) @ Authority (responseMessage h query result) @ Additional (responseMessage h query result) @
        Answers (cacheMessage h query entry) @ Authority (cacheMessage h query entry) @ Additional (cacheMessage h query entry)))"
  by (auto simp: responseMessage_def cacheMessage_def Let_def stripDNSSECRRs_def list_all_iff optFor_def BuildOPT_def split: option.split)

end
