(* ===== verification/Dnssec_Names.thy ===== *)
theory Dnssec_Names
  imports Zone_Names "HOL-Library.Char_ord" "HOL-Library.List_Lexorder"
begin

text \<open>
  Names as the validator compares them: the canonical order of RFC 4034, 6.1 with its helpers
  (\<open>dnssec/nsec.go\<close>), the wire form of \<open>dnssec/verify.go\<close>, and the names of the zones on the way from
  the root (\<open>dnssec/validator.go\<close>).  The reference for the order is the lexicographic order of the library
  on the labels read from the right.
\<close>

section \<open>Canonical names (nsec.go)\<close>

definition canonicalName :: "string \<Rightarrow> string" where
  "canonicalName name = ToLower (TrimSuffix name ''.'')"

definition canonicalLabels :: "string \<Rightarrow> string list" where
  "canonicalLabels name = (let name = canonicalName name in if name = [] then [] else Split dot name)"

text \<open>The bytes before the shorter end, and then the lengths.\<close>

fun compareLabelBytes :: "string \<Rightarrow> string \<Rightarrow> int" where
  "compareLabelBytes [] [] = 0"
| "compareLabelBytes [] (b # bs) = -1"
| "compareLabelBytes (a # as) [] = 1"
| "compareLabelBytes (a # as) (b # bs) =
     (if byte_of a < byte_of b then -1 else if byte_of b < byte_of a then 1 else compareLabelBytes as bs)"

text \<open>The loop of \<open>canonicalCompareName\<close>, over the labels from the last to the first.\<close>

fun compareFromRight :: "string list \<Rightarrow> string list \<Rightarrow> int" where
  "compareFromRight [] [] = 0"
| "compareFromRight [] (b # bs) = -1"
| "compareFromRight (a # as) [] = 1"
| "compareFromRight (a # as) (b # bs) =
     (let c = compareLabelBytes a b in if c \<noteq> 0 then c else compareFromRight as bs)"

definition canonicalCompareName :: "string \<Rightarrow> string \<Rightarrow> int" where
  "canonicalCompareName a b = compareFromRight (rev (canonicalLabels a)) (rev (canonicalLabels b))"

definition labelCount :: "string \<Rightarrow> nat" where
  "labelCount name = (if name = [] then 0 else length (filter (\<lambda>c. c = dot) name) + 1)"

fun matchedFromRight :: "string list \<Rightarrow> string list \<Rightarrow> nat" where
  "matchedFromRight (a # as) (b # bs) = (if a = b then Suc (matchedFromRight as bs) else 0)"
| "matchedFromRight _ _ = 0"

definition commonAncestor :: "string \<Rightarrow> string \<Rightarrow> string" where
  "commonAncestor a b =
     (let aLabels = canonicalLabels a; matched = matchedFromRight (rev aLabels) (rev (canonicalLabels b)) in
      if matched = 0 then [] else Join dot (drop (length aLabels - matched) aLabels))"

definition closestEncloser :: "string \<Rightarrow> string \<Rightarrow> string \<Rightarrow> string" where
  "closestEncloser qname owner next =
     (let a = commonAncestor qname owner; b = commonAncestor qname next in
      if labelCount b \<le> labelCount a then a else b)"

definition nsecCoversName :: "string \<Rightarrow> string \<Rightarrow> string \<Rightarrow> bool" where
  "nsecCoversName owner next qname =
     (let cmpOwner = canonicalCompareName qname owner; cmpNext = canonicalCompareName qname next in
      if canonicalCompareName owner next < 0 then 0 < cmpOwner \<and> cmpNext < 0
      else 0 < cmpOwner \<or> cmpNext < 0)"

section \<open>The wire form (verify.go)\<close>

definition labelsWire :: "string list \<Rightarrow> bytes" where
  "labelsWire ls = concat (map (\<lambda>l. of_nat (length l) # bytes_of l) ls) @ [0]"

definition canonicalNameWire :: "string \<Rightarrow> bytes" where
  "canonicalNameWire name =
     (let name = ToLower (TrimSuffix name ''.'') in
      if name = [] then [0] else labelsWire (Split dot name))"

definition canonicalWildcardOwner :: "string \<Rightarrow> u8 \<Rightarrow> string" where
  "canonicalWildcardOwner rrName signedLabels =
     (if signedLabels = 0 then rrName
      else (let trimmed = TrimSuffix rrName ''.'' in
            if trimmed = [] then rrName
            else (let labels = Split dot trimmed in
                  if of_nat (length labels) \<le> signedLabels then rrName
                  else ''*.'' @ Join dot (drop (length labels - unat signedLabels) labels))))"

section \<open>Zones (validator.go)\<close>

definition dnssecNormalizeName :: "string \<Rightarrow> string" where
  "dnssecNormalizeName name = (if name = [] \<or> name = ''.'' then ''.'' else if \<not> HasSuffix name ''.'' then name @ ''.'' else name)"

definition buildZoneChain :: "string \<Rightarrow> string list" where
  "buildZoneChain zone =
     (let zone = dnssecNormalizeName zone in
      if zone = ''.'' then [''.'']
      else (let labels = Split dot (TrimSuffix zone ''.'') in
            ''.'' # map (\<lambda>i. Join dot (drop i labels) @ ''.'') (rev [0..<length labels])))"

definition isInBailiwick :: "string \<Rightarrow> string \<Rightarrow> bool" where
  "isInBailiwick qname signer =
     (let q = ToLower (dnssecNormalizeName qname); s = ToLower (dnssecNormalizeName signer) in
      if s = ''.'' then True else if q = s then True else HasSuffix q (''.'' @ s))"

section \<open>The canonical order\<close>

lemma byte_less_iff: "byte_of a < byte_of b \<longleftrightarrow> a < b"
  by (simp add: less_char_def word_less_nat_alt unat_byte_of)

lemma compareLabelBytes_order:
  "(compareLabelBytes a b < 0 \<longleftrightarrow> a < b) \<and> (compareLabelBytes a b = 0 \<longleftrightarrow> a = b) \<and> (0 < compareLabelBytes a b \<longleftrightarrow> b < a)"
  by (induction a b rule: compareLabelBytes.induct) (auto simp: byte_less_iff)

lemma compareFromRight_order:
  "(compareFromRight a b < 0 \<longleftrightarrow> a < b) \<and> (compareFromRight a b = 0 \<longleftrightarrow> a = b) \<and> (0 < compareFromRight a b \<longleftrightarrow> b < a)"
  by (induction a b rule: compareFromRight.induct)
     (use compareLabelBytes_order in \<open>auto simp: Let_def\<close>)

definition canonicalKey :: "string \<Rightarrow> string list" where
  "canonicalKey name = rev (canonicalLabels name)"

lemma canonicalCompareName_order:
  "canonicalCompareName a b < 0 \<longleftrightarrow> canonicalKey a < canonicalKey b"
  "canonicalCompareName a b = 0 \<longleftrightarrow> canonicalKey a = canonicalKey b"
  "0 < canonicalCompareName a b \<longleftrightarrow> canonicalKey b < canonicalKey a"
  using compareFromRight_order [of "canonicalKey a" "canonicalKey b"] by (simp_all add: canonicalCompareName_def canonicalKey_def)

end
