(* ===== verification/Dnssec_Verify.thy ===== *)
theory Dnssec_Verify
  imports Dnssec_Names Dns_Message Dns_RData "HOL-Library.Multiset"
begin

text \<open>
  Signatures and delegation digests: \<open>dnssec/verify.go\<close>, \<open>dnssec/ds.go\<close> and \<open>dnssec/trustanchor.go\<close>.

  The hash functions and the signature schemes of the packages \<open>crypto/\<close> are fields of the record
  \<open>Crypto\<close>: every definition takes it as its first argument and nothing is assumed of its fields.  What the
  sources do themselves, the bytes that are hashed and signed and the decoding of keys and
  signatures, is written out.
\<close>

section \<open>Algorithms (dns/dnssec_algorithms.go)\<close>

abbreviation AlgRSASHA1 :: u8 where "AlgRSASHA1 \<equiv> 5"
abbreviation AlgRSASHA256 :: u8 where "AlgRSASHA256 \<equiv> 8"
abbreviation AlgRSASHA512 :: u8 where "AlgRSASHA512 \<equiv> 10"
abbreviation AlgECDSAP256 :: u8 where "AlgECDSAP256 \<equiv> 13"
abbreviation AlgECDSAP384 :: u8 where "AlgECDSAP384 \<equiv> 14"
abbreviation AlgED25519 :: u8 where "AlgED25519 \<equiv> 15"
abbreviation DigestSHA1 :: u8 where "DigestSHA1 \<equiv> 1"
abbreviation DigestSHA256 :: u8 where "DigestSHA256 \<equiv> 2"
abbreviation DigestSHA384 :: u8 where "DigestSHA384 \<equiv> 4"

datatype dnssec_error =
    errInvalidRSAKey | errInvalidECDSAKey | errUnsupportedAlg | errVerifyFailed | errEmptyRRSet | errNoSignature | errInvalidKeyLength

datatype cryptoHash = SHA1 | SHA256 | SHA384 | SHA512 | NoHash
datatype curve = P256 | P384

record rsaPublicKey =
  rsaN :: nat
  rsaE :: nat

record ecdsaPublicKey =
  ecCurve :: curve
  ecX :: nat
  ecY :: nat

record Crypto =
  hashSum :: "cryptoHash \<Rightarrow> bytes \<Rightarrow> bytes"
  verifyPKCS1v15 :: "rsaPublicKey \<Rightarrow> cryptoHash \<Rightarrow> bytes \<Rightarrow> bytes \<Rightarrow> bool"
  isOnCurve :: "curve \<Rightarrow> nat \<Rightarrow> nat \<Rightarrow> bool"
  ecdsaVerify :: "ecdsaPublicKey \<Rightarrow> bytes \<Rightarrow> nat \<Rightarrow> nat \<Rightarrow> bool"
  ed25519Verify :: "bytes \<Rightarrow> bytes \<Rightarrow> bytes \<Rightarrow> bool"

section \<open>Canonical RDATA\<close>

definition lowerByte :: "u8 \<Rightarrow> u8" where
  "lowerByte c = (if 65 \<le> c \<and> c \<le> 90 then c + 32 else c)"

text \<open>The loop of \<open>lowercaseWireName\<close>: label by label; \<open>None\<close> when the bytes are not a plain name.\<close>

function lowerLoop :: "bytes \<Rightarrow> nat \<Rightarrow> bytes option" where
  "lowerLoop out i =
     (if length out \<le> i then None
      else (let l = out ! i in
            if l AND 0xC0 \<noteq> 0 then None
            else if l = 0 then Some out
            else if 63 < unat l \<or> length out < i + 1 + unat l then None
            else lowerLoop (take (i + 1) out @ map lowerByte (take (unat l) (drop (i + 1) out)) @ drop (i + 1 + unat l) out)
                   (i + 1 + unat l)))"
  by pat_completeness auto
termination
  by (relation "measure (\<lambda>(out, i). length out - i)") auto

declare lowerLoop.simps [simp del]

definition lowercaseWireName :: "bytes \<Rightarrow> nat \<Rightarrow> bytes option" where
  "lowercaseWireName rdata start = (if length rdata < start then None else lowerLoop rdata start)"

function scanWireNameEnd :: "bytes \<Rightarrow> nat \<Rightarrow> nat option" where
  "scanWireNameEnd rdata i =
     (if length rdata \<le> i then None
      else (let l = rdata ! i in
            if l AND 0xC0 \<noteq> 0 then None
            else if l = 0 then Some (i + 1)
            else if 63 < unat l \<or> length rdata < i + 1 + unat l then None
            else scanWireNameEnd rdata (i + 1 + unat l)))"
  by pat_completeness auto
termination
  by (relation "measure (\<lambda>(rdata, i). length rdata - i)") auto

declare scanWireNameEnd.simps [simp del]

definition orElse :: "'a option \<Rightarrow> 'a \<Rightarrow> 'a" where
  "orElse x d = (case x of Some a \<Rightarrow> a | None \<Rightarrow> d)"

definition canonicalRData :: "bytes \<Rightarrow> u16 \<Rightarrow> bytes" where
  "canonicalRData rdata rrtype =
     (if rrtype = TypeCNAME \<or> rrtype = TypeNS \<or> rrtype = TypePTR \<or> rrtype = TypeDNAME then
        orElse (lowercaseWireName rdata 0) rdata
      else if rrtype = TypeMX then
        (if length rdata < 3 then rdata else orElse (lowercaseWireName rdata 2) rdata)
      else if rrtype = TypeSRV then
        (if length rdata < 7 then rdata else orElse (lowercaseWireName rdata 6) rdata)
      else if rrtype = TypeSOA then
        (case lowercaseWireName rdata 0 of
           None \<Rightarrow> rdata
         | Some out \<Rightarrow>
             (case scanWireNameEnd out 0 of
                None \<Rightarrow> rdata
              | Some mnameEnd \<Rightarrow> orElse (lowercaseWireName out mnameEnd) out))
      else if rrtype = TypeRRSIG then
        (if length rdata < 19 then rdata else orElse (lowercaseWireName rdata 18) rdata)
      else if rrtype = TypeNSEC then orElse (lowercaseWireName rdata 0) rdata
      else rdata)"

section \<open>The signed data\<close>

definition rrWire :: "RRSIGRecord \<Rightarrow> ResourceRecord \<Rightarrow> bytes" where
  "rrWire rrsig rr =
     (let canonRData = canonicalRData (rrRData rr) (TypeCovered rrsig) in
      canonicalNameWire (canonicalWildcardOwner (rrName rr) (sigLabels rrsig))
      @ putUint16 (rrType rr) @ putUint16 (rrClass rr) @ putUint32 (sigOrigTTL rrsig) @ putUint16 (of_nat (length canonRData))
      @ canonRData)"

text \<open>\<open>sort.Slice\<close> with \<open>bytes.Compare\<close>: equal elements are equal byte strings, so its result is \<open>sort\<close>.\<close>

definition canonicalRRSetWire :: "ResourceRecord list \<Rightarrow> RRSIGRecord \<Rightarrow> bytes" where
  "canonicalRRSetWire rrset rrsig =
     concat (sort (map (rrWire rrsig) (filter (\<lambda>rr. rrType rr = TypeCovered rrsig) rrset)))"

definition buildSignedData :: "ResourceRecord list \<Rightarrow> RRSIGRecord \<Rightarrow> bytes" where
  "buildSignedData rrset rrsig =
     putUint16 (TypeCovered rrsig) @ [sigAlgorithm rrsig, sigLabels rrsig] @ putUint32 (sigOrigTTL rrsig)
     @ putUint32 (Expiration rrsig) @ putUint32 (Inception rrsig) @ putUint16 (sigKeyTag rrsig)
     @ canonicalNameWire (SignerName rrsig) @ canonicalRRSetWire rrset rrsig"

section \<open>Keys and signatures\<close>

definition hashForAlgorithm :: "u8 \<Rightarrow> dnssec_error + cryptoHash" where
  "hashForAlgorithm algorithm =
     (if algorithm = AlgRSASHA1 then Inr SHA1
      else if algorithm = AlgRSASHA256 \<or> algorithm = AlgECDSAP256 then Inr SHA256
      else if algorithm = AlgECDSAP384 then Inr SHA384
      else if algorithm = AlgRSASHA512 then Inr SHA512
      else if algorithm = AlgED25519 then Inr NoHash
      else Inl errUnsupportedAlg)"

text \<open>\<open>big.Int.SetBytes\<close>\<close>

definition SetBytes :: "bytes \<Rightarrow> nat" where
  "SetBytes bs = foldl (\<lambda>v b. v * 256 + unat b) 0 bs"

definition parseRSAPublicKey :: "bytes \<Rightarrow> dnssec_error + rsaPublicKey" where
  "parseRSAPublicKey keyData =
     (if length keyData < 3 then Inl errInvalidRSAKey
      else if keyData ! 0 = 0 \<and> length keyData < 4 then Inl errInvalidRSAKey
      else (let (expLen, offset) = (if keyData ! 0 = 0 then (unat (getUint16 (keyData ! 1) (keyData ! 2)), 3) else (unat (keyData ! 0), 1)) in
            if length keyData \<le> offset + expLen then Inl errInvalidRSAKey
            else (let ex = SetBytes (take expLen (drop offset keyData)); modulus = SetBytes (drop (offset + expLen) keyData) in
                  if 2 ^ 31 - 1 < ex then Inl errInvalidRSAKey
                  else Inr \<lparr>rsaN = modulus, rsaE = ex\<rparr>)))"

definition parseECDSAPublicKey :: "Crypto \<Rightarrow> bytes \<Rightarrow> u8 \<Rightarrow> dnssec_error + ecdsaPublicKey" where
  "parseECDSAPublicKey C keyData algorithm =
     (let parse = (\<lambda>crv coordLen.
            if length keyData \<noteq> coordLen * 2 then Inl errInvalidECDSAKey
            else (let x = SetBytes (take coordLen keyData); y = SetBytes (drop coordLen keyData) in
                  if \<not> isOnCurve C crv x y then Inl errInvalidECDSAKey else Inr \<lparr>ecCurve = crv, ecX = x, ecY = y\<rparr>)) in
      if algorithm = AlgECDSAP256 then parse P256 32
      else if algorithm = AlgECDSAP384 then parse P384 48
      else Inl errUnsupportedAlg)"

text \<open>The error that is returned; \<open>None\<close> is nil.\<close>

definition verifyRSA :: "Crypto \<Rightarrow> bytes \<Rightarrow> bytes \<Rightarrow> bytes \<Rightarrow> u8 \<Rightarrow> dnssec_error option" where
  "verifyRSA C signedData signature keyData algorithm =
     (case parseRSAPublicKey keyData of
        Inl e \<Rightarrow> Some e
      | Inr pubKey \<Rightarrow>
          (case hashForAlgorithm algorithm of
             Inl e \<Rightarrow> Some e
           | Inr hashAlg \<Rightarrow>
               if verifyPKCS1v15 C pubKey hashAlg (hashSum C hashAlg signedData) signature then None else Some errVerifyFailed))"

definition verifyECDSA :: "Crypto \<Rightarrow> bytes \<Rightarrow> bytes \<Rightarrow> bytes \<Rightarrow> u8 \<Rightarrow> dnssec_error option" where
  "verifyECDSA C signedData signature keyData algorithm =
     (case parseECDSAPublicKey C keyData algorithm of
        Inl e \<Rightarrow> Some e
      | Inr pubKey \<Rightarrow>
          (let hashAlg = (case hashForAlgorithm algorithm of Inr h \<Rightarrow> h | Inl _ \<Rightarrow> NoHash);
               coordLen = (if algorithm = AlgECDSAP384 then 48 else 32) in
           if length signature \<noteq> coordLen * 2 then Some errVerifyFailed
           else if \<not> ecdsaVerify C pubKey (hashSum C hashAlg signedData) (SetBytes (take coordLen signature)) (SetBytes (drop coordLen signature))
           then Some errVerifyFailed else None))"

definition verifyED25519 :: "Crypto \<Rightarrow> bytes \<Rightarrow> bytes \<Rightarrow> bytes \<Rightarrow> dnssec_error option" where
  "verifyED25519 C signedData signature keyData =
     (if length keyData \<noteq> 32 then Some errInvalidKeyLength
      else if length signature \<noteq> 64 then Some errVerifyFailed
      else if \<not> ed25519Verify C keyData signedData signature then Some errVerifyFailed
      else None)"

definition VerifyRRSIG :: "Crypto \<Rightarrow> ResourceRecord list \<Rightarrow> RRSIGRecord \<Rightarrow> DNSKEYRecord \<Rightarrow> dnssec_error option" where
  "VerifyRRSIG C rrset rrsig dnskey =
     (if length rrset = 0 then Some errEmptyRRSet
      else if length (Signature rrsig) = 0 then Some errNoSignature
      else (let signedData = buildSignedData rrset rrsig; alg = sigAlgorithm rrsig in
            if alg = AlgRSASHA1 \<or> alg = AlgRSASHA256 \<or> alg = AlgRSASHA512
            then verifyRSA C signedData (Signature rrsig) (PublicKey dnskey) alg
            else if alg = AlgECDSAP256 \<or> alg = AlgECDSAP384
            then verifyECDSA C signedData (Signature rrsig) (PublicKey dnskey) alg
            else if alg = AlgED25519 then verifyED25519 C signedData (Signature rrsig) (PublicKey dnskey)
            else Some errUnsupportedAlg))"

section \<open>Delegation digests (ds.go, trustanchor.go)\<close>

definition VerifyDS :: "Crypto \<Rightarrow> DNSKEYRecord \<Rightarrow> DSRecord \<Rightarrow> string \<Rightarrow> bool" where
  "VerifyDS C dnskey ds ownerName =
     (if KeyTag dnskey \<noteq> dsKeyTag ds then False
      else if keyAlgorithm dnskey \<noteq> dsAlgorithm ds then False
      else (let digestInput = canonicalNameWire ownerName
                  @ putUint16 (keyFlags dnskey) @ [keyProtocol dnskey, keyAlgorithm dnskey] @ PublicKey dnskey in
            if dsDigestType ds = DigestSHA1 then hashSum C SHA1 digestInput = dsDigest ds
            else if dsDigestType ds = DigestSHA256 then hashSum C SHA256 digestInput = dsDigest ds
            else if dsDigestType ds = DigestSHA384 then hashSum C SHA384 digestInput = dsDigest ds
            else False))"

definition RootDSRecords :: "DSRecord list" where
  "RootDSRecords =
    [\<lparr>dsKeyTag = 20326, dsAlgorithm = AlgRSASHA256, dsDigestType = DigestSHA256,
      dsDigest = [0xE0, 0x6D, 0x44, 0xB8, 0x0B, 0x8F, 0x1D, 0x39, 0xA9, 0x5C, 0x0B, 0x0D, 0x7C, 0x65, 0xD0, 0x84,
                  0x58, 0xE8, 0x80, 0x40, 0x9B, 0xBC, 0x68, 0x34, 0x57, 0x10, 0x42, 0x37, 0xC7, 0xF8, 0xEC, 0x8D]\<rparr>,
     \<lparr>dsKeyTag = 38696, dsAlgorithm = AlgRSASHA256, dsDigestType = DigestSHA256,
      dsDigest = [0x68, 0x3D, 0x2D, 0x0A, 0xCB, 0x8C, 0x9B, 0x71, 0x2A, 0x19, 0x48, 0xB2, 0x7F, 0x74, 0x12, 0x19,
                  0x29, 0x8D, 0x0A, 0x45, 0x0D, 0x61, 0x2C, 0x48, 0x3A, 0xF4, 0x44, 0xA4, 0xC0, 0xFB, 0x2B, 0x16]\<rparr>]"

section \<open>Lemmas\<close>

lemma lowerLoop_length: "lowerLoop out i = Some r \<Longrightarrow> length r = length out"
proof (induction out i rule: lowerLoop.induct)
  case (1 out i)
  show ?case
  proof (cases "length out \<le> i \<or> out ! i AND 0xC0 \<noteq> 0 \<or> out ! i = 0 \<or> 63 < unat (out ! i) \<or> length out < i + 1 + unat (out ! i)")
    case True
    with 1(2) show ?thesis by (subst (asm) lowerLoop.simps) (simp add: Let_def split: if_splits)
  next
    case False
    with 1(1) [OF _ refl] 1(2) show ?thesis
      by (subst (asm) (2) lowerLoop.simps) (auto simp: Let_def not_less min_def)
  qed
qed

lemma lowercaseWireName_length: "lowercaseWireName rd k = Some r \<Longrightarrow> length r = length rd"
  by (auto simp: lowercaseWireName_def lowerLoop_length split: if_splits)

lemma orElse_lowercase_length [simp]: "length (orElse (lowercaseWireName rd k) rd) = length rd"
  by (cases "lowercaseWireName rd k") (simp_all add: orElse_def lowercaseWireName_length)

lemma canonicalRData_length: "length (canonicalRData rd t) = length rd"
  unfolding canonicalRData_def
  by (simp add: lowercaseWireName_length split: option.split)

lemma lowerByte_of: "lowerByte (byte_of c) = byte_of (lowerChar c)"
proof -
  have "65 \<le> byte_of c \<and> byte_of c \<le> 90 \<longleftrightarrow> 65 \<le> (of_char c :: nat) \<and> (of_char c :: nat) \<le> 90"
    by (simp add: word_le_nat_alt unat_byte_of)
  then show ?thesis by (auto simp: lowerByte_def lowerChar_def Let_def byte_of_def)
qed

text \<open>The order of the records does not matter.\<close>

lemma canonicalRRSetWire_mset: "mset rrs = mset rrs' \<Longrightarrow> canonicalRRSetWire rrs sig = canonicalRRSetWire rrs' sig"
  unfolding canonicalRRSetWire_def
  by (intro arg_cong [where f = concat] properties_for_sort) simp_all

end
