(* ===== verification/Dnssec_Denial.thy ===== *)
theory Dnssec_Denial
  imports Dnssec_Verify Security_Rate
begin

text \<open>
  Proofs that a name or a type does not exist: \<open>dnssec/nsec.go\<close> and \<open>dnssec/nsec3.go\<close>, with the
  base32 coding of \<open>encoding/base32\<close> that the hashed owner names use.
\<close>

section \<open>NSEC (nsec.go)\<close>

record NSECRecordWithOwner =
  nsecRecord :: NSECRecord
  nsecOwnerName :: string

definition nsecHasType :: "NSECRecord \<Rightarrow> u16 \<Rightarrow> bool" where
  "nsecHasType rec rrtype = list_ex (\<lambda>t. t = rrtype) (nsecTypes rec)"

text \<open>A parent-side record at a delegation: NS without SOA.\<close>

definition delegationNSEC :: "NSECRecord \<Rightarrow> bool" where
  "delegationNSEC r \<longleftrightarrow> nsecHasType r TypeNS \<and> \<not> nsecHasType r TypeSOA"

definition provesNoData :: "string \<Rightarrow> u16 \<Rightarrow> NSECRecordWithOwner \<Rightarrow> bool" where
  "provesNoData qname qtype n \<longleftrightarrow>
     canonicalName (nsecOwnerName n) = qname \<and> \<not> nsecHasType (nsecRecord n) qtype \<and> \<not> nsecHasType (nsecRecord n) TypeCNAME \<and>
     \<not> delegationNSEC (nsecRecord n)"

definition compactDenial :: "string \<Rightarrow> NSECRecordWithOwner \<Rightarrow> bool" where
  "compactDenial qname n \<longleftrightarrow>
     canonicalName (nsecOwnerName n) = qname \<and> \<not> nsecHasType (nsecRecord n) TypeCNAME \<and> \<not> nsecHasType (nsecRecord n) TypeDNAME \<and>
     \<not> delegationNSEC (nsecRecord n)"

definition recordCovers :: "string \<Rightarrow> NSECRecordWithOwner \<Rightarrow> bool" where
  "recordCovers name n = nsecCoversName (canonicalName (nsecOwnerName n)) (canonicalName (NextDomainName (nsecRecord n))) name"

definition wildcardOf :: "string \<Rightarrow> string" where
  "wildcardOf ce = (if ce \<noteq> [] then ''*.'' @ ce else ''*'')"

definition wildcardDenied :: "string \<Rightarrow> u16 \<Rightarrow> NSECRecordWithOwner \<Rightarrow> bool" where
  "wildcardDenied wildcard qtype n \<longleftrightarrow>
     recordCovers wildcard n \<or>
     canonicalName (nsecOwnerName n) = wildcard \<and> \<not> nsecHasType (nsecRecord n) qtype \<and> \<not> nsecHasType (nsecRecord n) TypeCNAME"

text \<open>The error is \<open>None\<close> in the first result: there are no records.\<close>

definition VerifyNSECDenial :: "string \<Rightarrow> u16 \<Rightarrow> u8 \<Rightarrow> NSECRecordWithOwner list \<Rightarrow> bool option" where
  "VerifyNSECDenial qname qtype rcode records =
     (if length records = 0 then None
      else (let qname = canonicalName qname in
            if list_ex (provesNoData qname qtype) records then Some True
            else if rcode \<noteq> RCodeNXDomain then Some False
            else if list_ex (compactDenial qname) records then Some True
            else (case List.find (recordCovers qname) records of
                    None \<Rightarrow> Some False
                  | Some n \<Rightarrow>
                      (let ce = closestEncloser qname (canonicalName (nsecOwnerName n)) (canonicalName (NextDomainName (nsecRecord n))) in
                       Some (list_ex (wildcardDenied (wildcardOf ce) qtype) records)))))"

section \<open>Base 32, extended hex alphabet, no padding\<close>

definition base32Digit :: "nat \<Rightarrow> char" where
  "base32Digit d = (if d < 10 then char_of (48 + d) else char_of (55 + d))"

definition base32Val :: "char \<Rightarrow> nat option" where
  "base32Val c = (let n = (of_char c :: nat) in
     if 48 \<le> n \<and> n \<le> 57 then Some (n - 48) else if 65 \<le> n \<and> n \<le> 86 then Some (n - 55) else None)"

text \<open>Groups of five bits, most significant first; the last group is filled with zeros on the right.\<close>

definition bitsOf :: "nat \<Rightarrow> nat \<Rightarrow> bool list" where
  "bitsOf w v = map (\<lambda>i. bit v (w - 1 - i)) [0..<w]"

definition valOf :: "bool list \<Rightarrow> nat" where
  "valOf bs = foldl (\<lambda>v b. 2 * v + of_bool b) 0 bs"

function chunks :: "nat \<Rightarrow> 'a list \<Rightarrow> 'a list list" where
  "chunks k xs = (if k = 0 \<or> xs = [] then [] else take k xs # chunks k (drop k xs))"
  by pat_completeness auto
termination by (relation "measure (\<lambda>(k, xs). length xs)") auto

declare chunks.simps [simp del]

definition padTo :: "nat \<Rightarrow> bool list \<Rightarrow> bool list" where
  "padTo k bs = bs @ replicate (k - length bs) False"

definition EncodeBase32 :: "bytes \<Rightarrow> string" where
  "EncodeBase32 h = map (\<lambda>g. base32Digit (valOf (padTo 5 g))) (chunks 5 (concat (map (\<lambda>b. bitsOf 8 (unat b)) h)))"

text \<open>
  \<open>DecodeString\<close> without padding: returns and newlines are dropped first; a foreign character is an error; a
  last group of one, three or six characters, for which the decoder has no case, yields nothing.
\<close>

definition DecodeBase32 :: "string \<Rightarrow> bytes option" where
  "DecodeBase32 s =
     (let s = filter (\<lambda>c. of_char c \<noteq> (13 :: nat) \<and> of_char c \<noteq> (10 :: nat)) s in
      if list_ex (\<lambda>c. base32Val c = None) s then None
      else (let r = length s mod 8;
                s = (if r = 1 \<or> r = 3 \<or> r = 6 then take (length s - r) s else s);
                bits = concat (map (\<lambda>c. bitsOf 5 (the (base32Val c))) s) in
            Some (map (\<lambda>g. of_nat (valOf g)) (chunks 8 (take (8 * (length bits div 8)) bits)))))"

section \<open>NSEC3 (nsec3.go)\<close>

datatype nsec3_error = errUnsupportedHashAlg | errTooManyIterations | errNoNSEC3Records

abbreviation MaxNSEC3Iterations :: u16 where "MaxNSEC3Iterations \<equiv> 100"

definition nameToWire :: "string \<Rightarrow> bytes" where
  "nameToWire name = (if name = ''.'' then [0] else labelsWire (Split dot (TrimSuffix name ''.'')))"

fun iterateHash :: "(bytes \<Rightarrow> bytes) \<Rightarrow> bytes \<Rightarrow> nat \<Rightarrow> bytes \<Rightarrow> bytes" where
  "iterateHash H salt 0 hash = hash"
| "iterateHash H salt (Suc k) hash = iterateHash H salt k (H (hash @ salt))"

definition withDot :: "string \<Rightarrow> string" where
  "withDot name = (let name = ToLower name in if \<not> HasSuffix name ''.'' then name @ ''.'' else name)"

definition ComputeNSEC3Hash :: "Crypto \<Rightarrow> string \<Rightarrow> u8 \<Rightarrow> u16 \<Rightarrow> bytes \<Rightarrow> nsec3_error + bytes" where
  "ComputeNSEC3Hash C name algorithm iterations salt =
     (if algorithm \<noteq> 1 then Inl errUnsupportedHashAlg
      else if MaxNSEC3Iterations < iterations then Inl errTooManyIterations
      else Inr (iterateHash (hashSum C SHA1) salt (unat iterations) (hashSum C SHA1 (nameToWire (withDot name) @ salt))))"

definition NSEC3HashToString :: "bytes \<Rightarrow> string" where
  "NSEC3HashToString hash = ToUpper (EncodeBase32 hash)"

definition nsec3StringToHash :: "string \<Rightarrow> bytes option" where
  "nsec3StringToHash s = DecodeBase32 (ToUpper s)"

fun compareHashes :: "bytes \<Rightarrow> bytes \<Rightarrow> int" where
  "compareHashes [] [] = 0"
| "compareHashes [] (b # bs) = -1"
| "compareHashes (a # as) [] = 1"
| "compareHashes (a # as) (b # bs) = (if a < b then -1 else if b < a then 1 else compareHashes as bs)"

definition coversHashFull :: "bytes \<Rightarrow> bytes \<Rightarrow> bytes \<Rightarrow> bool" where
  "coversHashFull ownerHash nextHash hash =
     (let cmpOwner = compareHashes hash ownerHash; cmpNext = compareHashes hash nextHash in
      if compareHashes ownerHash nextHash < 0 then 0 < cmpOwner \<and> cmpNext < 0
      else 0 < cmpOwner \<or> cmpNext < 0)"

record NSEC3RecordWithOwner =
  nsec3Record :: NSEC3Record
  OwnerHash :: bytes

definition VerifyNSEC3DenialFull :: "Crypto \<Rightarrow> string \<Rightarrow> NSEC3RecordWithOwner list \<Rightarrow> nsec3_error + bool" where
  "VerifyNSEC3DenialFull C qname records =
     (case records of
        [] \<Rightarrow> Inl errNoNSEC3Records
      | r # _ \<Rightarrow>
          (let rec = nsec3Record r in
           if MaxNSEC3Iterations < Iterations rec then Inl errTooManyIterations
           else (case ComputeNSEC3Hash C qname (HashAlgorithm rec) (Iterations rec) (Salt rec) of
                   Inl e \<Rightarrow> Inl e
                 | Inr qnameHash \<Rightarrow>
                     Inr (list_ex (\<lambda>n. coversHashFull (OwnerHash n) (NextHash (nsec3Record n)) qnameHash) records))))"

subsection \<open>The variants without owner hashes\<close>

definition hashInRange :: "bytes \<Rightarrow> NSEC3Record \<Rightarrow> bool" where
  "hashInRange hash nsec3 = (compareHashes hash (NextHash nsec3) \<noteq> 0)"

definition coversHash :: "NSEC3Record \<Rightarrow> bytes \<Rightarrow> bool" where
  "coversHash nsec3 hash = (compareHashes hash (NextHash nsec3) \<noteq> 0 \<and> hashInRange hash nsec3)"

definition VerifyNSEC3Denial :: "Crypto \<Rightarrow> string \<Rightarrow> NSEC3Record list \<Rightarrow> nsec3_error + bool" where
  "VerifyNSEC3Denial C qname records =
     (case records of
        [] \<Rightarrow> Inl errNoNSEC3Records
      | rec # _ \<Rightarrow>
          if MaxNSEC3Iterations < Iterations rec then Inl errTooManyIterations
          else (case ComputeNSEC3Hash C qname (HashAlgorithm rec) (Iterations rec) (Salt rec) of
                  Inl e \<Rightarrow> Inl e
                | Inr qnameHash \<Rightarrow> Inr (list_ex (\<lambda>n. coversHash n qnameHash) records)))"

text \<open>
  The first loop of \<open>VerifyClosestEncloser\<close> only computes hashes, which fail alike for every name: it is its error.
  The second goes up one label at a time; \<open>IndexByte\<close> finds the dot of a name that ends in one.
\<close>

function closestLoop :: "Crypto \<Rightarrow> NSEC3Record list \<Rightarrow> NSEC3Record \<Rightarrow> string \<Rightarrow> nsec3_error + string" where
  "closestLoop C records rec candidate =
     (case IndexByte candidate dot of
        None \<Rightarrow> Inr ''.''
      | Some i \<Rightarrow>
          (let parent = drop (i + 1) candidate in
           if parent = [] then Inr ''.''
           else (case ComputeNSEC3Hash C parent (HashAlgorithm rec) (Iterations rec) (Salt rec) of
                   Inl e \<Rightarrow> Inl e
                 | Inr parentHash \<Rightarrow>
                     if \<not> list_ex (\<lambda>n. coversHash n parentHash) records then Inr parent
                     else closestLoop C records rec parent)))"
  by pat_completeness auto
termination
  by (relation "measure (\<lambda>(C, records, rec, candidate). length candidate)") auto

declare closestLoop.simps [simp del]

definition VerifyClosestEncloser :: "Crypto \<Rightarrow> string \<Rightarrow> NSEC3Record list \<Rightarrow> nsec3_error + string" where
  "VerifyClosestEncloser C qname records =
     (case records of
        [] \<Rightarrow> Inl errNoNSEC3Records
      | rec # _ \<Rightarrow>
          if MaxNSEC3Iterations < Iterations rec then Inl errTooManyIterations
          else (case ComputeNSEC3Hash C (withDot qname) (HashAlgorithm rec) (Iterations rec) (Salt rec) of
                  Inl e \<Rightarrow> Inl e
                | Inr _ \<Rightarrow> closestLoop C records rec (withDot qname)))"

definition HasType :: "NSEC3Record \<Rightarrow> u16 \<Rightarrow> bool" where
  "HasType nsec3 rrtype = list_ex (\<lambda>t. t = rrtype) (nsec3Types nsec3)"

end
