(* ===== verification/Dnssec_Validator.thy ===== *)
theory Dnssec_Validator
  imports Dnssec_Denial Resolver_Top
begin

text \<open>
  The validator (\<open>dnssec/validator.go\<close>).  It runs in the state of the resolver, which holds its key cache,
  and asks for keys through \<open>querier\<close>; \<open>EnableDNSSEC\<close> of the resolver makes that \<open>QueryDNSSEC\<close>.

  The sharing of concurrent fetches (\<open>inflightDNSKEY\<close>, \<open>inflightDS\<close>) is left out: here one
  validation runs at a time, and the goroutine that fetches is always the first.  Texts of errors and of
  the diagnostic steps are shortened.
\<close>

record Validator =
  vCrypto :: Crypto
  querier :: "string \<Rightarrow> u16 \<Rightarrow> u16 \<Rightarrow> (string + Message) io"
  trustAnchors :: "DSRecord list"
  allowSHA1 :: bool
  vClock :: "nat \<Rightarrow> time"

definition NewValidator :: "Crypto \<Rightarrow> (nat \<Rightarrow> time) \<Rightarrow> (string \<Rightarrow> u16 \<Rightarrow> u16 \<Rightarrow> (string + Message) io) \<Rightarrow> Validator" where
  "NewValidator C clk q = \<lparr>vCrypto = C, querier = q, trustAnchors = RootDSRecords, allowSHA1 = False, vClock = clk\<rparr>"

definition AllowSHA1 :: "bool \<Rightarrow> Validator \<Rightarrow> Validator" where
  "AllowSHA1 b v = v\<lparr>allowSHA1 := b\<rparr>"

definition isWeakRRSIGAlg :: "Validator \<Rightarrow> u8 \<Rightarrow> bool" where
  "isWeakRRSIGAlg v alg = (if allowSHA1 v then False else alg = AlgRSASHA1)"

definition isUnsupportedRRSIGAlg :: "u8 \<Rightarrow> bool" where
  "isUnsupportedRRSIGAlg alg \<longleftrightarrow>
     \<not> (alg = AlgRSASHA1 \<or> alg = AlgRSASHA256 \<or> alg = AlgRSASHA512 \<or> alg = AlgECDSAP256 \<or> alg = AlgECDSAP384 \<or> alg = AlgED25519)"

definition isWeakDSDigest :: "Validator \<Rightarrow> u8 \<Rightarrow> bool" where
  "isWeakDSDigest v d = (if allowSHA1 v then False else d = DigestSHA1)"

section \<open>Fetching keys and digests\<close>

definition freshKeys :: "Validator \<Rightarrow> string \<Rightarrow> ResourceRecord list option io" where
  "freshKeys v zone = (\<lambda>s.
     case rsKeys s zone of
       None \<Rightarrow> Some (None, s)
     | Some c \<Rightarrow>
         bindIO (readIO (vClock v)) (\<lambda>now.
           retIO (if int now - int (dkFetchedAt c) < int (dkTTL c) then Some (dkKeys c) else None)) s)"

definition minKeyTTL :: "ResourceRecord list \<Rightarrow> u32" where
  "minKeyTTL keys = fold (\<lambda>rr m. if 0 < rrTTL rr \<and> rrTTL rr < m then rrTTL rr else m) keys 3600"

definition keyCacheTTL :: "ResourceRecord list \<Rightarrow> time" where
  "keyCacheTTL keys = (let ttl = unat (minKeyTTL keys) * second in if length keys = 0 \<and> 60 * second < ttl then 60 * second else ttl)"

definition queryKeys :: "Validator \<Rightarrow> string \<Rightarrow> (string + ResourceRecord list) io" where
  "queryKeys v zone =
     bindIO (querier v zone TypeDNSKEY ClassIN) (\<lambda>r. case r of
       Inl e \<Rightarrow> retIO (Inl e)
     | Inr resp \<Rightarrow>
         (let rcode = RCODE (msgHeader resp) in
          if rcode = RCodeServFail \<or> rcode = RCodeRefused then retIO (Inl ''DNSKEY query returned rcode'')
          else (let keys = filter (\<lambda>rr. rrType rr = TypeDNSKEY) (Answers resp) in
                bindIO (readIO (vClock v)) (\<lambda>now.
                bindIO (modIO (\<lambda>s. s\<lparr>rsKeys := (rsKeys s)(zone \<mapsto> \<lparr>dkKeys = keys, dkFetchedAt = now, dkTTL = keyCacheTTL keys\<rparr>)\<rparr>)) (\<lambda>_.
                retIO (Inr keys))))))"

definition fetchDNSKEYs :: "Validator \<Rightarrow> string \<Rightarrow> (string + ResourceRecord list) io" where
  "fetchDNSKEYs v zone =
     (let normalized = dnssecNormalizeName zone in
      bindIO (freshKeys v normalized) (\<lambda>c. case c of
        Some keys \<Rightarrow> retIO (Inr keys)
      | None \<Rightarrow> bindIO (freshKeys v normalized) (\<lambda>c. case c of
          Some keys \<Rightarrow> retIO (Inr keys)
        | None \<Rightarrow> queryKeys v normalized)))"

definition fetchDS :: "Validator \<Rightarrow> string \<Rightarrow> (string + DSRecord list) io" where
  "fetchDS v zone =
     bindIO (querier v (dnssecNormalizeName zone) TypeDS ClassIN) (\<lambda>r. case r of
       Inl e \<Rightarrow> retIO (Inl e)
     | Inr resp \<Rightarrow>
         (let rcode = RCODE (msgHeader resp) in
          if rcode = RCodeServFail \<or> rcode = RCodeRefused then retIO (Inl ''DS query returned rcode'')
          else retIO (Inr (List.map_filter (\<lambda>rr. if rrType rr = TypeDS then okOf (ParseDS (rrRData rr)) else None) (Answers resp)))))"

section \<open>The chain of trust\<close>

definition parsedKeys :: "ResourceRecord list \<Rightarrow> DNSKEYRecord list" where
  "parsedKeys rrs = List.map_filter (\<lambda>rr. okOf (ParseDNSKEY (rrRData rr))) rrs"

text \<open>\<open>verifyDNSKEYWithDS\<close> and \<open>verifyAgainstTrustAnchors\<close> are the same loops, over different digests.\<close>

definition matchesDS :: "Validator \<Rightarrow> ResourceRecord list \<Rightarrow> DSRecord list \<Rightarrow> string \<Rightarrow> bool" where
  "matchesDS v dnskeys dsRecords ownerName =
     list_ex (\<lambda>k. IsKSK k \<and> list_ex (\<lambda>ds. \<not> isWeakDSDigest v (dsDigestType ds) \<and> VerifyDS (vCrypto v) k ds ownerName) dsRecords)
       (parsedKeys dnskeys)"

definition verifyAgainstTrustAnchors :: "Validator \<Rightarrow> string \<Rightarrow> ResourceRecord list \<Rightarrow> bool" where
  "verifyAgainstTrustAnchors v zone dnskeys = matchesDS v dnskeys (trustAnchors v) zone"

definition verifyDNSKEYWithDS :: "Validator \<Rightarrow> ResourceRecord list \<Rightarrow> DSRecord list \<Rightarrow> string \<Rightarrow> bool" where
  "verifyDNSKEYWithDS v dnskeys dsRecords ownerName = matchesDS v dnskeys dsRecords ownerName"

fun chainLoop :: "Validator \<Rightarrow> bool \<Rightarrow> string list \<Rightarrow> ValidationResult io" where
  "chainLoop v isRoot [] = retIO Secure"
| "chainLoop v isRoot (zone # zs) =
     bindIO (fetchDNSKEYs v zone) (\<lambda>r. case r of
       Inl e \<Rightarrow> retIO Indeterminate
     | Inr zoneKeys \<Rightarrow>
         if isRoot then
           (if \<not> verifyAgainstTrustAnchors v zone zoneKeys then retIO Bogus else chainLoop v False zs)
         else
           bindIO (fetchDS v zone) (\<lambda>r. case r of
             Inl e \<Rightarrow> retIO Indeterminate
           | Inr dsRecords \<Rightarrow>
               if length dsRecords = 0 then retIO Insecure
               else if \<not> list_ex (\<lambda>ds. \<not> isWeakDSDigest v (dsDigestType ds)) dsRecords then retIO Insecure
               else if \<not> verifyDNSKEYWithDS v zoneKeys dsRecords zone then retIO Bogus
               else chainLoop v False zs))"

definition validateTrustChain :: "Validator \<Rightarrow> string \<Rightarrow> ValidationResult io" where
  "validateTrustChain v zone = chainLoop v True (buildZoneChain zone)"

section \<open>One signature\<close>

definition findMatchingDNSKEY :: "ResourceRecord list \<Rightarrow> u16 \<Rightarrow> u8 \<Rightarrow> DNSKEYRecord option" where
  "findMatchingDNSKEY dnskeys keyTag algorithm = List.find (\<lambda>k. KeyTag k = keyTag \<and> keyAlgorithm k = algorithm) (parsedKeys dnskeys)"

definition ownerKey :: "string \<Rightarrow> string" where
  "ownerKey owner = ToLower (TrimSuffix owner ''.'')"

definition filterRRSet :: "ResourceRecord list \<Rightarrow> u16 \<Rightarrow> ResourceRecord list" where
  "filterRRSet rrs rrtype = filter (\<lambda>rr. rrType rr = rrtype) rrs"

definition filterRRSetByOwner :: "ResourceRecord list \<Rightarrow> u16 \<Rightarrow> string \<Rightarrow> ResourceRecord list" where
  "filterRRSetByOwner rrs rrtype owner =
     (let allOfType = filter (\<lambda>rr. rrType rr = rrtype) rrs;
          exact = filter (\<lambda>rr. ownerKey (rrName rr) = ownerKey owner) allOfType in
      if 0 < length exact then exact
      else if length (remdups (map (\<lambda>rr. ownerKey (rrName rr)) allOfType)) = 1 then allOfType
      else [])"

record rrsigWithOwner =
  rsig :: RRSIGRecord
  rsOwner :: string

text \<open>
  What the loops over the signatures of a response find for one of them, in the order of the checks.  The two
  loops of the source make the same checks; \<open>nowI\<close> is the clock, which one reads once and the other each time.
\<close>

datatype sigOutcome =
    SkipWeak | SkipUnsupported | NoRRset | NotYet | Expired | OutOfBailiwick | NoDNSKEY | NoMatchingKey | VerifyFailed
  | VerifyOk (okRRset: "ResourceRecord list")

definition checkSig :: "Validator \<Rightarrow> int io \<Rightarrow> string \<Rightarrow> ResourceRecord list \<Rightarrow> rrsigWithOwner \<Rightarrow> sigOutcome io" where
  "checkSig v nowI qname rrs rs =
     (let rrsig = rsig rs in
      if isWeakRRSIGAlg v (sigAlgorithm rrsig) then retIO SkipWeak
      else if isUnsupportedRRSIGAlg (sigAlgorithm rrsig) then retIO SkipUnsupported
      else (let rrset = filterRRSetByOwner rrs (TypeCovered rrsig) (rsOwner rs) in
            if length rrset = 0 then retIO NoRRset
            else bindIO nowI (\<lambda>nowI.
              if nowI + 60 < int (unat (Inception rrsig)) then retIO NotYet
              else if int (unat (Expiration rrsig)) + 60 < nowI then retIO Expired
              else (let signerZone = dnssecNormalizeName (SignerName rrsig) in
                    if \<not> isInBailiwick qname signerZone then retIO OutOfBailiwick
                    else bindIO (fetchDNSKEYs v signerZone) (\<lambda>r. case r of
                      Inl e \<Rightarrow> retIO NoDNSKEY
                    | Inr dnskeys \<Rightarrow>
                        (case findMatchingDNSKEY dnskeys (sigKeyTag rrsig) (sigAlgorithm rrsig) of
                           None \<Rightarrow> retIO NoMatchingKey
                         | Some matchingKey \<Rightarrow>
                             (case VerifyRRSIG (vCrypto v) rrset rrsig matchingKey of
                                Some e \<Rightarrow> retIO VerifyFailed
                              | None \<Rightarrow> retIO (VerifyOk rrset))))))))"

definition isUsable :: "sigOutcome \<Rightarrow> bool" where
  "isUsable x \<longleftrightarrow> x \<noteq> SkipWeak \<and> x \<noteq> SkipUnsupported"

definition isBogusSig :: "sigOutcome \<Rightarrow> bool" where
  "isBogusSig x \<longleftrightarrow> x = NotYet \<or> x = Expired \<or> x = OutOfBailiwick \<or> x = VerifyFailed"

definition isIndeterminateSig :: "sigOutcome \<Rightarrow> bool" where
  "isIndeterminateSig x \<longleftrightarrow> x = NoDNSKEY \<or> x = NoMatchingKey"

definition nowUnix :: "Validator \<Rightarrow> int io" where
  "nowUnix v = bindIO (readIO (vClock v)) (\<lambda>t. retIO (int (t div second)))"

section \<open>Positive answers\<close>

definition ValidationResult_String :: "ValidationResult \<Rightarrow> string" where
  "ValidationResult_String v =
     (case v of Secure \<Rightarrow> ''Secure'' | Insecure \<Rightarrow> ''Insecure'' | Bogus \<Rightarrow> ''Bogus'' | Indeterminate \<Rightarrow> ''Indeterminate'')"

record ValidationStep =
  Stage :: string
  stSigner :: string
  stOwner :: string
  stKeyTag :: u16
  stAlgorithm :: u8
  stTypeCovered :: u16
  stLabels :: u8
  Outcome :: string

definition plainStep :: "string \<Rightarrow> string \<Rightarrow> ValidationStep" where
  "plainStep stage outcome = \<lparr>Stage = stage, stSigner = [], stOwner = [], stKeyTag = 0, stAlgorithm = 0, stTypeCovered = 0, stLabels = 0, Outcome = outcome\<rparr>"

definition sigStep :: "rrsigWithOwner \<Rightarrow> string \<Rightarrow> string \<Rightarrow> ValidationStep" where
  "sigStep rs stage outcome =
     \<lparr>Stage = stage, stSigner = dnssecNormalizeName (SignerName (rsig rs)), stOwner = rsOwner rs, stKeyTag = sigKeyTag (rsig rs),
      stAlgorithm = sigAlgorithm (rsig rs), stTypeCovered = TypeCovered (rsig rs), stLabels = sigLabels (rsig rs), Outcome = outcome\<rparr>"

definition verdictToOutcome :: "ValidationResult \<Rightarrow> string" where
  "verdictToOutcome v = (case v of Secure \<Rightarrow> ''ok'' | Insecure \<Rightarrow> ''insecure'' | Bogus \<Rightarrow> ''bogus'' | Indeterminate \<Rightarrow> ''indeterminate'')"

definition outcomeStep :: "rrsigWithOwner \<Rightarrow> sigOutcome \<Rightarrow> ValidationStep" where
  "outcomeStep rs x =
     (case x of
        SkipWeak \<Rightarrow> sigStep rs ''skip-weak'' ''skipped''
      | SkipUnsupported \<Rightarrow> sigStep rs ''skip-unsupported'' ''skipped''
      | NoRRset \<Rightarrow> sigStep rs ''no-rrset'' ''skipped''
      | NotYet \<Rightarrow> sigStep rs ''not-yet'' ''bogus''
      | Expired \<Rightarrow> sigStep rs ''expired'' ''bogus''
      | OutOfBailiwick \<Rightarrow> sigStep rs ''out-of-bailiwick'' ''bogus''
      | NoDNSKEY \<Rightarrow> sigStep rs ''no-dnskey'' ''indeterminate''
      | NoMatchingKey \<Rightarrow> sigStep rs ''no-matching-key'' ''indeterminate''
      | VerifyFailed \<Rightarrow> sigStep rs ''verify-failed'' ''bogus''
      | VerifyOk _ \<Rightarrow> sigStep rs ''verify-ok'' ''ok'')"

text \<open>The loop stops at the first signature that verifies; the chain of trust of its signer is the verdict.\<close>

fun answerLoop :: "Validator \<Rightarrow> int io \<Rightarrow> string \<Rightarrow> ResourceRecord list \<Rightarrow> rrsigWithOwner list \<Rightarrow> bool \<Rightarrow> bool
    \<Rightarrow> (ValidationResult \<times> ValidationStep list) io" where
  "answerLoop v nowI qname rrs [] usable sawBogus =
     retIO (if \<not> usable then Insecure else if sawBogus then Bogus else Indeterminate, [])"
| "answerLoop v nowI qname rrs (rs # rss) usable sawBogus =
     bindIO (checkSig v nowI qname rrs rs) (\<lambda>x. case x of
       VerifyOk _ \<Rightarrow>
         bindIO (validateTrustChain v (dnssecNormalizeName (SignerName (rsig rs)))) (\<lambda>result.
         retIO (result, [outcomeStep rs x, sigStep rs ''trust-chain'' (verdictToOutcome result)]))
     | _ \<Rightarrow>
         bindIO (answerLoop v nowI qname rrs rss (usable \<or> isUsable x) (sawBogus \<or> isBogusSig x)) (\<lambda>(result, steps).
         retIO (result, outcomeStep rs x # steps)))"

definition sigsOf :: "ResourceRecord list \<Rightarrow> rrsigWithOwner list" where
  "sigsOf rrs = List.map_filter (\<lambda>rr. if rrType rr = TypeRRSIG
     then map_option (\<lambda>p. \<lparr>rsig = p, rsOwner = rrName rr\<rparr>) (okOf (ParseRRSIG (rrRData rr) 0)) else None) rrs"

definition validateAnswer :: "Validator \<Rightarrow> Message \<Rightarrow> string \<Rightarrow> (ValidationResult \<times> ValidationStep list) io" where
  "validateAnswer v response qname =
     (let rrsigs = sigsOf (Answers response);
          answerRRs = filter (\<lambda>rr. rrType rr \<noteq> TypeRRSIG) (Answers response);
          unparsed = filter (\<lambda>rr. rrType rr = TypeRRSIG \<and> okOf (ParseRRSIG (rrRData rr) 0) = None) (Answers response);
          steps = map (\<lambda>_. plainStep ''parse-rrsig'' ''skipped'') unparsed in
      if length rrsigs = 0 then retIO (Insecure, steps @ [plainStep ''no-rrsigs'' ''insecure''])
      else bindIO (nowUnix v) (\<lambda>nowI.
           bindIO (answerLoop v (retIO nowI) qname answerRRs rrsigs False False) (\<lambda>(result, more).
           retIO (result, steps @ more))))"

section \<open>Denials\<close>

definition nsec3OwnerHashFromName :: "string \<Rightarrow> bytes option" where
  "nsec3OwnerHashFromName name =
     (let trimmed = TrimSuffix name ''.'' in
      if trimmed = [] then None else nsec3StringToHash (takeWhile (\<lambda>c. c \<noteq> dot) trimmed))"

definition nsec3sOf :: "ResourceRecord list \<Rightarrow> (NSEC3RecordWithOwner \<times> string) list" where
  "nsec3sOf rrs = List.map_filter (\<lambda>rr. if rrType rr = TypeNSEC3
     then (case okOf (ParseNSEC3 (rrRData rr)) of
             None \<Rightarrow> None
           | Some p \<Rightarrow> map_option (\<lambda>h. (\<lparr>nsec3Record = p, OwnerHash = h\<rparr>, rrName rr)) (nsec3OwnerHashFromName (rrName rr)))
     else None) rrs"

definition nsecsOf :: "ResourceRecord list \<Rightarrow> NSECRecordWithOwner list" where
  "nsecsOf rrs = List.map_filter (\<lambda>rr. if rrType rr = TypeNSEC
     then map_option (\<lambda>p. \<lparr>nsecRecord = p, nsecOwnerName = rrName rr\<rparr>) (okOf (ParseNSEC (rrRData rr) 0)) else None) rrs"

definition coversDenial :: "rrsigWithOwner \<Rightarrow> bool" where
  "coversDenial rs \<longleftrightarrow> TypeCovered (rsig rs) = TypeNSEC3 \<or> TypeCovered (rsig rs) = TypeNSEC \<or> TypeCovered (rsig rs) = TypeSOA"

text \<open>The keys of \<open>authenticRRsets\<close>: owner and type of the records that a signature verified.\<close>

type_synonym authSet = "(string \<times> u16) set"

record denialState =
  dsUsable :: bool
  dsBogus :: bool
  dsIndet :: bool
  dsAuth :: authSet

definition noteSig :: "rrsigWithOwner \<Rightarrow> sigOutcome \<Rightarrow> denialState \<Rightarrow> denialState" where
  "noteSig rs x d =
     \<lparr>dsUsable = dsUsable d \<or> isUsable x, dsBogus = dsBogus d \<or> isBogusSig x, dsIndet = dsIndet d \<or> isIndeterminateSig x,
      dsAuth = dsAuth d \<union> (case x of
        VerifyOk rrset \<Rightarrow> (\<lambda>rr. (ownerKey (rrName rr), TypeCovered (rsig rs))) ` set rrset | _ \<Rightarrow> {})\<rparr>"

fun denialLoop :: "Validator \<Rightarrow> string \<Rightarrow> ResourceRecord list \<Rightarrow> rrsigWithOwner list \<Rightarrow> denialState \<Rightarrow> denialState io" where
  "denialLoop v qname rrs [] d = retIO d"
| "denialLoop v qname rrs (rs # rss) d =
     (if \<not> coversDenial rs then denialLoop v qname rrs rss d
      else bindIO (checkSig v (nowUnix v) qname rrs rs) (\<lambda>x. denialLoop v qname rrs rss (noteSig rs x d)))"

definition nsecVerdict :: "string \<Rightarrow> u16 \<Rightarrow> u8 \<Rightarrow> NSECRecordWithOwner list \<Rightarrow> ValidationResult" where
  "nsecVerdict qname qtype rcode verifiedNSECs =
     (if 0 < length verifiedNSECs then
        (case VerifyNSECDenial qname qtype rcode verifiedNSECs of
           None \<Rightarrow> Indeterminate | Some denied \<Rightarrow> if denied then Secure else Bogus)
      else Bogus)"

definition denialVerdict :: "Crypto \<Rightarrow> Message \<Rightarrow> string \<Rightarrow> u16 \<Rightarrow> authSet \<Rightarrow> ValidationResult" where
  "denialVerdict C response qname qtype auth =
     (let verifiedNSEC3s = map fst (filter (\<lambda>n. (ownerKey (snd n), TypeNSEC3) \<in> auth) (nsec3sOf (Authority response)));
          verifiedNSECs = filter (\<lambda>n. (ownerKey (nsecOwnerName n), TypeNSEC) \<in> auth) (nsecsOf (Authority response));
          nsec = nsecVerdict qname qtype (RCODE (msgHeader response)) verifiedNSECs in
      if 0 < length verifiedNSEC3s then
        (case VerifyNSEC3DenialFull C qname verifiedNSEC3s of
           Inl e \<Rightarrow> Indeterminate
         | Inr denied \<Rightarrow> if denied then Secure else nsec)
      else nsec)"

definition validateDenialResponse :: "Validator \<Rightarrow> Message \<Rightarrow> string \<Rightarrow> u16 \<Rightarrow> ValidationResult io" where
  "validateDenialResponse v response qname qtype =
     (let rrsigs = sigsOf (Authority response) in
      if length rrsigs = 0 then retIO Insecure
      else bindIO (denialLoop v qname (Authority response) rrsigs \<lparr>dsUsable = False, dsBogus = False, dsIndet = False, dsAuth = {}\<rparr>) (\<lambda>d.
        retIO (if \<not> dsUsable d then Insecure
               else if dsAuth d = {} then (if dsBogus d then Bogus else if dsIndet d then Indeterminate else Bogus)
               else denialVerdict (vCrypto v) response qname qtype (dsAuth d))))"

section \<open>The entry points\<close>

definition isDenial :: "Message \<Rightarrow> bool" where
  "isDenial response \<longleftrightarrow>
     RCODE (msgHeader response) = RCodeNXDomain \<or> (RCODE (msgHeader response) = RCodeNoError \<and> length (Answers response) = 0)"

text \<open>A response that is nil is never passed; \<open>collect\<close> only decides whether the steps are kept.\<close>

definition validateResponseImpl :: "Validator \<Rightarrow> Message \<Rightarrow> string \<Rightarrow> u16 \<Rightarrow> bool \<Rightarrow> (ValidationResult \<times> ValidationStep list) io" where
  "validateResponseImpl v response qname qtype collect =
     bindIO (if isDenial response then
               bindIO (validateDenialResponse v response qname qtype) (\<lambda>verdict.
                 retIO (verdict, [plainStep ''denial'' (verdictToOutcome verdict)]))
             else if length (Answers response) = 0 then retIO (Insecure, [])
             else validateAnswer v response qname)
       (\<lambda>(result, steps). retIO (result, if collect then steps else []))"

definition ValidateResponse :: "Validator \<Rightarrow> Message \<Rightarrow> string \<Rightarrow> u16 \<Rightarrow> ValidationResult io" where
  "ValidateResponse v response qname qtype =
     bindIO (validateResponseImpl v response qname qtype False) (\<lambda>(verdict, _). retIO verdict)"

definition ValidateResponseDetailed :: "Validator \<Rightarrow> Message \<Rightarrow> string \<Rightarrow> u16 \<Rightarrow> (ValidationResult \<times> ValidationStep list) io" where
  "ValidateResponseDetailed v response qname qtype = validateResponseImpl v response qname qtype True"

text \<open>
  \<open>EnableDNSSEC\<close> and \<open>SetDNSSECAllowSHA1\<close> of the resolver: the querier of the validator is the resolver itself.
  \<open>QueryDNSSEC\<close> skips validation of its own answer, but the addresses of name servers that it has to look up on the way are
  validated, so the two call each other; as for \<open>resolveInner\<close>, the argument \<open>n\<close> bounds the nesting, and at 0 the call does not return.
\<close>

primrec EnableDNSSEC :: "nat \<Rightarrow> Crypto \<Rightarrow> bool \<Rightarrow> Resolver \<Rightarrow> Resolver" where
  "EnableDNSSEC 0 C allow1 R = R\<lparr>dnssecValidator := Some (\<lambda>_ _ _. panicIO)\<rparr>"
| "EnableDNSSEC (Suc n) C allow1 R =
     R\<lparr>dnssecValidator := Some (ValidateResponse
         (AllowSHA1 allow1 (NewValidator C (clock (env R)) (QueryDNSSEC n (EnableDNSSEC n C allow1 R)))))\<rparr>"

end
