(* ===== verification/Dnssec_Properties.thy ===== *)
theory Dnssec_Properties
  imports Dnssec_Validator Resolver_Logic Resolver_Iter_Properties
begin

text \<open>
  Properties of the validator: when an answer counts as secure, what the proofs of non-existence establish,
  that validation returns, and the forms in which names and records are signed.
\<close>

section \<open>Validation returns\<close>

lemma total_fresh [total_rules]: "total (freshKeys v z) (\<lambda>_. True)"
  unfolding freshKeys_def total_def bindIO_def readIO_def retIO_def by (auto split: option.split)

definition answers :: "Validator \<Rightarrow> bool" where
  "answers v \<longleftrightarrow> (\<forall>n t c. total (querier v n t c) (\<lambda>_. True))"

lemma total_querier: "answers v \<Longrightarrow> total (querier v n t c) (\<lambda>_. True)"
  by (simp add: answers_def)

lemma total_queryKeys [total_rules]: "answers v \<Longrightarrow> total (queryKeys v z) (\<lambda>_. True)"
  unfolding queryKeys_def Let_def by (intro total_rules total_querier) simp_all

lemma total_fetchDNSKEYs [total_rules]: "answers v \<Longrightarrow> total (fetchDNSKEYs v z) (\<lambda>_. True)"
  unfolding fetchDNSKEYs_def Let_def by (intro total_rules) simp_all

lemma total_fetchDS [total_rules]: "answers v \<Longrightarrow> total (fetchDS v z) (\<lambda>_. True)"
  unfolding fetchDS_def Let_def by (intro total_rules total_querier) simp_all

lemma total_chainLoop [total_rules]: "answers v \<Longrightarrow> total (chainLoop v b zs) (\<lambda>_. True)"
proof (induction zs arbitrary: b)
  case (Cons z zs)
  show ?case unfolding chainLoop.simps by (intro total_rules Cons) simp_all
qed (simp add: total_ret)

lemma total_nowUnix [total_rules]: "total (nowUnix v) (\<lambda>_. True)"
  unfolding nowUnix_def by (intro total_rules) simp_all

lemma total_checkSig [total_rules]: "answers v \<Longrightarrow> total nowI (\<lambda>_. True) \<Longrightarrow> total (checkSig v nowI q rrs rs) (\<lambda>_. True)"
  unfolding checkSig_def Let_def by (intro total_rules) simp_all

lemma total_denialLoop [total_rules]: "answers v \<Longrightarrow> total (denialLoop v q rrs rss d) (\<lambda>_. True)"
proof (induction rss arbitrary: d)
  case (Cons rs rss)
  then show ?case by (auto intro!: total_rules)
qed (simp add: total_ret)

lemma total_answerLoop:
  assumes "answers v" "total nowI (\<lambda>_. True)"
  shows "total (answerLoop v nowI q rrs rss u b) (\<lambda>_. True)"
proof (induction rss arbitrary: u b)
  case (Cons rs rss)
  have "total (validateTrustChain v z) (\<lambda>_. True)" for z
    unfolding validateTrustChain_def by (rule total_chainLoop [OF assms(1)])
  then show ?case unfolding answerLoop.simps
    by (intro total_bind_any [OF total_checkSig [OF assms]])
       (auto split: sigOutcome.split intro!: total_rules Cons)
qed (simp add: total_ret)

lemma total_ValidateResponse: "answers v \<Longrightarrow> total (ValidateResponse v m q t) (\<lambda>_. True)"
  unfolding ValidateResponse_def validateResponseImpl_def validateDenialResponse_def validateAnswer_def Let_def
  by (intro total_rules total_answerLoop) simp_all

section \<open>Denials\<close>

lemma anchors_fields:
  "vClock (v\<lparr>trustAnchors := a\<rparr>) = vClock v" "querier (v\<lparr>trustAnchors := a\<rparr>) = querier v"
  "vCrypto (v\<lparr>trustAnchors := a\<rparr>) = vCrypto v" "isWeakRRSIGAlg (v\<lparr>trustAnchors := a\<rparr>) = isWeakRRSIGAlg v"
  by (simp_all add: fun_eq_iff isWeakRRSIGAlg_def)

lemma fetchDNSKEYs_anchors: "fetchDNSKEYs (v\<lparr>trustAnchors := a\<rparr>) = fetchDNSKEYs v" "nowUnix (v\<lparr>trustAnchors := a\<rparr>) = nowUnix v"
  unfolding fun_eq_iff fetchDNSKEYs_def freshKeys_def queryKeys_def nowUnix_def anchors_fields by blast+

lemma checkSig_anchors: "checkSig (v\<lparr>trustAnchors := a\<rparr>) = checkSig v"
  unfolding fun_eq_iff checkSig_def fetchDNSKEYs_anchors anchors_fields by blast

lemma denialLoop_anchors: "denialLoop (v\<lparr>trustAnchors := a\<rparr>) q rrs rss d = denialLoop v q rrs rss d"
  by (induction rss arbitrary: d) (simp_all add: checkSig_anchors fetchDNSKEYs_anchors)

text \<open>
  C13. A denial is accepted without a chain of trust: the verdict on a negative response is the same for every set of trust anchors.
  The signatures on the NSEC and NSEC3 records are checked with whatever keys the signer's zone returns; that these keys
  are authentic, which \<open>validateTrustChain\<close> checks for positive answers, is never asked.
\<close>

theorem denial_ignores_anchors:
  assumes "isDenial response"
  shows "ValidateResponse (v\<lparr>trustAnchors := a\<rparr>) response qname qtype = ValidateResponse v response qname qtype"
  using assms
  unfolding ValidateResponse_def validateResponseImpl_def validateDenialResponse_def denialLoop_anchors anchors_fields by simp

text \<open>
  The shortcut for compact denial does not look at the type that was asked for: a genuine NSEC record of a name that has
  records of the type asked for, and neither CNAME nor DNAME, is accepted as proof for a response that says the name does not exist.
\<close>

theorem existing_name_denied:
  assumes "canonicalName owner = canonicalName qname" and "qtype \<in> set types"
    and "TypeCNAME \<notin> set types" and "TypeDNAME \<notin> set types" and "TypeNS \<notin> set types"
  shows "VerifyNSECDenial qname qtype RCodeNXDomain
    [\<lparr>nsecRecord = \<lparr>NextDomainName = next, nsecTypes = types\<rparr>, nsecOwnerName = owner\<rparr>] = Some True"
  using assms
  by (auto simp: VerifyNSECDenial_def provesNoData_def compactDenial_def delegationNSEC_def nsecHasType_def list_ex_iff)

section \<open>What makes an answer secure\<close>

text \<open>
  Where keys come from.  \<open>K z keys\<close> says that \<open>keys\<close> is a key set of the zone \<open>z\<close> and \<open>D z dss\<close> that \<open>dss\<close> are the digests that its
  parent gives: the key cache holds, and the querier brings, no others.
\<close>

type_synonym keySource = "string \<Rightarrow> ResourceRecord list \<Rightarrow> bool"
type_synonym digestSource = "string \<Rightarrow> DSRecord list \<Rightarrow> bool"

definition keys_known :: "keySource \<Rightarrow> RState \<Rightarrow> bool" where
  "keys_known K s \<longleftrightarrow> (\<forall>z c. rsKeys s z = Some c \<longrightarrow> K z (dkKeys c))"

definition keysIn :: "Message \<Rightarrow> ResourceRecord list" where
  "keysIn m = filter (\<lambda>rr. rrType rr = TypeDNSKEY) (Answers m)"

definition digestsIn :: "Message \<Rightarrow> DSRecord list" where
  "digestsIn m = List.map_filter (\<lambda>rr. if rrType rr = TypeDS then okOf (ParseDS (rrRData rr)) else None) (Answers m)"

definition brings :: "keySource \<Rightarrow> digestSource \<Rightarrow> Validator \<Rightarrow> bool" where
  "brings K D v \<longleftrightarrow>
     (\<forall>z t s r s'. keys_known K s \<and> querier v z t ClassIN s = Some (r, s') \<longrightarrow>
        keys_known K s' \<and> (\<forall>m. r = Inr m \<longrightarrow> (t = TypeDNSKEY \<longrightarrow> K z (keysIn m)) \<and> (t = TypeDS \<longrightarrow> D z (digestsIn m))))"

text \<open>A computation that keeps the key cache within \<open>K\<close>, and its result.\<close>

definition keeps :: "keySource \<Rightarrow> 'a io \<Rightarrow> ('a \<Rightarrow> bool) \<Rightarrow> bool" where
  "keeps K m Q \<longleftrightarrow> (\<forall>s a s'. keys_known K s \<longrightarrow> m s = Some (a, s') \<longrightarrow> keys_known K s' \<and> Q a)"

named_theorems keeps_rules

lemma keeps_bind: "keeps K m P \<Longrightarrow> (\<And>a. P a \<Longrightarrow> keeps K (f a) Q) \<Longrightarrow> keeps K (bindIO m f) Q"
  unfolding keeps_def bindIO_def
proof (intro allI impI, goal_cases)
  case (1 s b s')
  from 1(4) obtain a s1 where a: "m s = Some (a, s1)" "f a s1 = Some (b, s')" by (auto split: option.splits)
  from 1(1) a(1) 1(3) have "keys_known K s1" "P a" by blast+
  with 1(2) a(2) show ?case by blast
qed

lemma keeps_ret [keeps_rules]: "Q a \<Longrightarrow> keeps K (retIO a) Q"
  by (simp add: keeps_def retIO_def)

lemma keeps_if [keeps_rules]: "(b \<Longrightarrow> keeps K m Q) \<Longrightarrow> (\<not> b \<Longrightarrow> keeps K m' Q) \<Longrightarrow> keeps K (if b then m else m') Q"
  by simp

lemma keeps_sum [keeps_rules]:
  "(\<And>a. x = Inl a \<Longrightarrow> keeps K (f a) Q) \<Longrightarrow> (\<And>a. x = Inr a \<Longrightarrow> keeps K (g a) Q) \<Longrightarrow> keeps K (case x of Inl a \<Rightarrow> f a | Inr a \<Rightarrow> g a) Q"
  by (cases x) simp_all

lemma keeps_option [keeps_rules]:
  "(x = None \<Longrightarrow> keeps K m Q) \<Longrightarrow> (\<And>a. x = Some a \<Longrightarrow> keeps K (f a) Q) \<Longrightarrow> keeps K (case x of None \<Rightarrow> m | Some a \<Rightarrow> f a) Q"
  by (cases x) simp_all

lemma keeps_prod [keeps_rules]: "(\<And>a b. x = (a, b) \<Longrightarrow> keeps K (f a b) Q) \<Longrightarrow> keeps K (case x of (a, b) \<Rightarrow> f a b) Q"
  by (cases x) simp_all

lemma keeps_read: "(\<And>n. Q (f n)) \<Longrightarrow> keeps K (readIO f) Q"
  by (simp add: keeps_def readIO_def keys_known_def)

lemma keeps_weaken: "keeps K m P \<Longrightarrow> (\<And>a. P a \<Longrightarrow> Q a) \<Longrightarrow> keeps K m Q"
  unfolding keeps_def by blast

lemma keeps_now: "keeps K (nowUnix v) (\<lambda>now. \<exists>k. now = int (vClock v k div second))"
  unfolding nowUnix_def by (rule keeps_bind [OF keeps_read [where Q = "\<lambda>t. \<exists>k. t = vClock v k"]]) (auto intro: keeps_ret)

lemma keeps_fresh: "keeps K (freshKeys v z) (\<lambda>r. \<forall>keys. r = Some keys \<longrightarrow> K z keys)"
  unfolding keeps_def freshKeys_def bindIO_def readIO_def retIO_def keys_known_def by (auto split: option.splits if_splits)

lemma keeps_querier: "brings K D v \<Longrightarrow> keeps K (querier v z TypeDNSKEY ClassIN) (\<lambda>r. \<forall>m. r = Inr m \<longrightarrow> K z (keysIn m))"
  "brings K D v \<Longrightarrow> keeps K (querier v z TypeDS ClassIN) (\<lambda>r. \<forall>m. r = Inr m \<longrightarrow> D z (digestsIn m))"
  unfolding brings_def keeps_def by blast+

lemma keeps_queryKeys:
  assumes "brings K D v"
  shows "keeps K (queryKeys v z) (\<lambda>r. \<forall>keys. r = Inr keys \<longrightarrow> K z keys)"
proof -
  have store: "keeps K (modIO (\<lambda>s. s\<lparr>rsKeys := (rsKeys s)(z \<mapsto> \<lparr>dkKeys = keys, dkFetchedAt = now, dkTTL = t\<rparr>)\<rparr>)) (\<lambda>_. True)" if "K z keys" for keys now t
    using that by (auto simp: keeps_def modIO_def keys_known_def)
  show ?thesis
    unfolding queryKeys_def Let_def
    by (rule keeps_bind [OF keeps_querier(1) [OF assms]])
       (auto simp: keysIn_def intro!: keeps_rules keeps_bind [OF keeps_read [where Q = "\<lambda>_. True"]] keeps_bind [OF store])
qed

lemma keeps_keys:
  assumes "brings K D v"
  shows "keeps K (fetchDNSKEYs v z) (\<lambda>r. \<forall>keys. r = Inr keys \<longrightarrow> K (dnssecNormalizeName z) keys)"
  unfolding fetchDNSKEYs_def Let_def
  by (intro keeps_bind [OF keeps_fresh] keeps_rules keeps_queryKeys [OF assms]) auto

lemma keeps_ds:
  assumes "brings K D v"
  shows "keeps K (fetchDS v z) (\<lambda>r. \<forall>dss. r = Inr dss \<longrightarrow> D (dnssecNormalizeName z) dss)"
  unfolding fetchDS_def Let_def
  by (intro keeps_bind [OF keeps_querier(2) [OF assms]] keeps_rules) (auto simp: digestsIn_def)

text \<open>A zone of whose keys one is vouched for by the trust anchors or by the digests in its parent.\<close>

definition trusted_zone :: "keySource \<Rightarrow> digestSource \<Rightarrow> Validator \<Rightarrow> bool \<Rightarrow> string \<Rightarrow> bool" where
  "trusted_zone K D v isRoot z \<longleftrightarrow>
     (\<exists>keys. K (dnssecNormalizeName z) keys \<and>
        (if isRoot then matchesDS v keys (trustAnchors v) z else (\<exists>dss. D (dnssecNormalizeName z) dss \<and> matchesDS v keys dss z)))"

fun trusted_chain :: "keySource \<Rightarrow> digestSource \<Rightarrow> Validator \<Rightarrow> bool \<Rightarrow> string list \<Rightarrow> bool" where
  "trusted_chain K D v isRoot [] = True"
| "trusted_chain K D v isRoot (z # zs) = (trusted_zone K D v isRoot z \<and> trusted_chain K D v False zs)"

lemma keeps_chainLoop:
  assumes "brings K D v"
  shows "keeps K (chainLoop v b zs) (\<lambda>r. r = Secure \<longrightarrow> trusted_chain K D v b zs)"
proof (induction zs arbitrary: b)
  case (Cons z zs)
  have rest: "keeps K (chainLoop v False zs) (\<lambda>r. r = Secure \<longrightarrow> trusted_chain K D v b (z # zs))" if "trusted_zone K D v b z"
    by (rule keeps_weaken [OF Cons [of False]]) (use that in simp)
  have child: "keeps K (bindIO (fetchDS v z) (\<lambda>r. case r of
             Inl e \<Rightarrow> retIO Indeterminate
           | Inr dsRecords \<Rightarrow>
               if length dsRecords = 0 then retIO Insecure
               else if \<not> list_ex (\<lambda>ds. \<not> isWeakDSDigest v (dsDigestType ds)) dsRecords then retIO Insecure
               else if \<not> verifyDNSKEYWithDS v keys dsRecords z then retIO Bogus
               else chainLoop v False zs)) (\<lambda>r. r = Secure \<longrightarrow> trusted_chain K D v b (z # zs))"
    if "\<not> b" "K (dnssecNormalizeName z) keys" for keys
    by (intro keeps_bind [OF keeps_ds [OF assms]] keeps_rules rest)
       (use that in \<open>auto simp: trusted_zone_def verifyDNSKEYWithDS_def\<close>)
  show ?case unfolding chainLoop.simps
    by (intro keeps_bind [OF keeps_keys [OF assms]] keeps_rules rest child)
       (auto simp: trusted_zone_def verifyAgainstTrustAnchors_def)
qed (simp add: keeps_ret)

text \<open>A signature that passed every check, over \<open>rrset\<close>.\<close>

definition good_signature :: "keySource \<Rightarrow> Validator \<Rightarrow> string \<Rightarrow> ResourceRecord list \<Rightarrow> rrsigWithOwner \<Rightarrow> ResourceRecord list \<Rightarrow> bool" where
  "good_signature K v qname rrs rs rrset \<longleftrightarrow>
     rrset = filterRRSetByOwner rrs (TypeCovered (rsig rs)) (rsOwner rs) \<and> rrset \<noteq> [] \<and>
     \<not> isWeakRRSIGAlg v (sigAlgorithm (rsig rs)) \<and> \<not> isUnsupportedRRSIGAlg (sigAlgorithm (rsig rs)) \<and>
     isInBailiwick qname (dnssecNormalizeName (SignerName (rsig rs))) \<and>
     (\<exists>k. let now = int (vClock v k div second) in
        int (unat (Inception (rsig rs))) \<le> now + 60 \<and> now \<le> int (unat (Expiration (rsig rs))) + 60) \<and>
     (\<exists>keys key. K (dnssecNormalizeName (dnssecNormalizeName (SignerName (rsig rs)))) keys \<and> key \<in> set (parsedKeys keys) \<and>
        KeyTag key = sigKeyTag (rsig rs) \<and> keyAlgorithm key = sigAlgorithm (rsig rs) \<and>
        VerifyRRSIG (vCrypto v) rrset (rsig rs) key = None)"

lemma find_Some: "List.find P xs = Some x \<Longrightarrow> x \<in> set xs \<and> P x"
  by (induction xs) (auto split: if_splits)

lemma keeps_checkSig:
  assumes "brings K D v" and "keeps K nowI (\<lambda>now. \<exists>k. now = int (vClock v k div second))"
  shows "keeps K (checkSig v nowI qname rrs rs) (\<lambda>x. \<forall>rrset. x = VerifyOk rrset \<longrightarrow> good_signature K v qname rrs rs rrset)"
  unfolding checkSig_def Let_def
  by (intro keeps_rules keeps_bind [OF assms(2)] keeps_bind [OF keeps_keys [OF assms(1)]])
     (auto simp: good_signature_def findMatchingDNSKEY_def Let_def not_less dest!: find_Some)

text \<open>Some signature of the answers is good, and its signer is at the end of a chain of trust.\<close>

definition vouched :: "keySource \<Rightarrow> digestSource \<Rightarrow> Validator \<Rightarrow> string \<Rightarrow> ResourceRecord list \<Rightarrow> rrsigWithOwner list \<Rightarrow> bool" where
  "vouched K D v qname rrs rss \<longleftrightarrow> (\<exists>rs\<in>set rss. \<exists>rrset. good_signature K v qname rrs rs rrset \<and>
     trusted_chain K D v True (buildZoneChain (dnssecNormalizeName (SignerName (rsig rs)))))"

lemma keeps_answerLoop:
  assumes "brings K D v" and "keeps K nowI (\<lambda>now. \<exists>k. now = int (vClock v k div second))"
  shows "keeps K (answerLoop v nowI qname rrs rss u b) (\<lambda>r. fst r = Secure \<longrightarrow> vouched K D v qname rrs rss)"
proof (induction rss arbitrary: u b)
  case (Cons rs rss)
  have rest: "keeps K (bindIO (answerLoop v nowI qname rrs rss u b) (\<lambda>(result, steps). retIO (result, st # steps)))
    (\<lambda>r. fst r = Secure \<longrightarrow> vouched K D v qname rrs (rs # rss))" for st u b
    by (rule keeps_bind [OF Cons]) (auto simp: vouched_def intro!: keeps_ret)
  have chain: "keeps K (validateTrustChain v z) (\<lambda>r. r = Secure \<longrightarrow> trusted_chain K D v True (buildZoneChain z))" for z
    unfolding validateTrustChain_def by (rule keeps_chainLoop [OF assms(1)])
  show ?case unfolding answerLoop.simps
  proof (rule keeps_bind [OF keeps_checkSig [OF assms]])
    fix x assume x: "\<forall>rrset. x = VerifyOk rrset \<longrightarrow> good_signature K v qname rrs rs rrset"
    show "keeps K (case x of
       VerifyOk _ \<Rightarrow>
         bindIO (validateTrustChain v (dnssecNormalizeName (SignerName (rsig rs)))) (\<lambda>result.
         retIO (result, [outcomeStep rs x, sigStep rs ''trust-chain'' (verdictToOutcome result)]))
     | _ \<Rightarrow> bindIO (answerLoop v nowI qname rrs rss (u \<or> isUsable x) (b \<or> isBogusSig x)) (\<lambda>(result, steps).
         retIO (result, outcomeStep rs x # steps))) (\<lambda>r. fst r = Secure \<longrightarrow> vouched K D v qname rrs (rs # rss))"
    proof (cases x)
      case (VerifyOk rrset)
      with x show ?thesis by (auto simp: vouched_def intro!: keeps_bind [OF chain] keeps_ret)
    qed (simp_all only: sigOutcome.case rest)
  qed
qed (simp add: keeps_ret)

text \<open>
  C6. An answer counts as secure only with a signature and a chain of trust.  Let \<open>K\<close> and \<open>D\<close> be the key sets and digests that the key cache holds
  at the start and that queries bring for a zone.  If \<open>ValidateResponse\<close> says Secure for a positive response, then some RRSIG in its answer
  section has a supported algorithm, is within its validity period by the clock (sixty seconds of tolerance), names a signer at or above the name asked for,
  and verifies the RRset it covers under a key, with its tag and algorithm, of a key set in \<open>K\<close> of the signer; and for every zone from the root down to the
  signer there is a key set in \<open>K\<close> with a key-signing key that a trust anchor, or a digest in \<open>D\<close> for the zone, matches.  Where \<open>K\<close> has one key set
  for each zone, the signature is by a key of the very set that is vouched for.  That the key set is signed by the key that matches is not
  checked (\<open>added_key_trusted\<close>).
\<close>

theorem secure_answer:
  assumes "keys_known K s" and "brings K D v"
    and "ValidateResponse v response qname qtype s = Some (Secure, s')" and "\<not> isDenial response"
  shows "\<exists>rs\<in>set (sigsOf (Answers response)). \<exists>rrset.
    good_signature K v qname (filter (\<lambda>rr. rrType rr \<noteq> TypeRRSIG) (Answers response)) rs rrset \<and>
    trusted_chain K D v True (buildZoneChain (dnssecNormalizeName (SignerName (rsig rs))))"
proof -
  let ?rrs = "filter (\<lambda>rr. rrType rr \<noteq> TypeRRSIG) (Answers response)" and ?rss = "sigsOf (Answers response)"
  let ?P = "vouched K D v qname ?rrs ?rss"
  have loop: "keeps K (answerLoop v (retIO t) qname ?rrs ?rss u b) (\<lambda>r. fst r = Secure \<longrightarrow> ?P)"
    if "\<exists>k. t = int (vClock v k div second)" for t u b
    by (rule keeps_answerLoop [OF assms(2)]) (use that in \<open>simp add: keeps_ret\<close>)
  have "keeps K (validateAnswer v response qname) (\<lambda>r. fst r = Secure \<longrightarrow> ?P)"
    unfolding validateAnswer_def Let_def
    by (intro keeps_rules keeps_bind [OF keeps_now] keeps_bind [OF loop]) (auto intro: keeps_ret)
  then have "keeps K (validateResponseImpl v response qname qtype False) (\<lambda>r. fst r = Secure \<longrightarrow> ?P)"
    unfolding validateResponseImpl_def using assms(4)
    by (intro keeps_bind [where P = "\<lambda>r. fst r = Secure \<longrightarrow> ?P"]) (auto intro!: keeps_rules)
  then have "keeps K (ValidateResponse v response qname qtype) (\<lambda>r. r = Secure \<longrightarrow> ?P)"
    unfolding ValidateResponse_def by (rule keeps_bind) (auto intro: keeps_ret)
  with assms(1,3) have ?P unfolding keeps_def by blast
  then show ?thesis unfolding vouched_def .
qed

section \<open>What the validator does not check\<close>

lemma filterRRSetByOwner_other: "rrType rr \<noteq> t \<Longrightarrow> filterRRSetByOwner (rr # rrs) t owner = filterRRSetByOwner rrs t owner"
  by (simp add: filterRRSetByOwner_def)

lemma answerLoop_other:
  assumes "\<And>rs. rs \<in> set rss \<Longrightarrow> TypeCovered (rsig rs) \<noteq> rrType rr"
  shows "answerLoop v nowI qname (rr # rrs) rss u b = answerLoop v nowI qname rrs rss u b"
  using assms
proof (induction rss arbitrary: u b)
  case (Cons rs rss)
  from Cons.prems have same: "filterRRSetByOwner (rr # rrs) (TypeCovered (rsig rs)) (rsOwner rs) = filterRRSetByOwner rrs (TypeCovered (rsig rs)) (rsOwner rs)"
    by (intro filterRRSetByOwner_other) (metis list.set_intros(1))
  have chk: "checkSig v nowI qname (rr # rrs) rs = checkSig v nowI qname rrs rs"
    unfolding checkSig_def Let_def same by (rule refl)
  have rest: "answerLoop v nowI qname (rr # rrs) rss u b = answerLoop v nowI qname rrs rss u b" for u b
    by (rule Cons.IH) (use Cons.prems in auto)
  show ?case unfolding answerLoop.simps chk rest by (rule refl)
qed simp

lemma denialVerdict_answers: "denialVerdict C (response\<lparr>Answers := an\<rparr>) = denialVerdict C response"
  by (intro ext) (simp add: denialVerdict_def)

text \<open>
  Records without a signature do not change the verdict: adding to a positive response any record whose type no signature of the response
  covers, the very record that was asked for included, leaves the verdict as it was.  A response that holds a forged address and,
  beside it, one genuinely signed set of the zone is secure.
\<close>

theorem unsigned_records_ignored:
  assumes "\<And>rs. rs \<in> set (sigsOf (Answers response)) \<Longrightarrow> TypeCovered (rsig rs) \<noteq> rrType rr"
    and "rrType rr \<noteq> TypeRRSIG" and "Answers response \<noteq> []"
  shows "ValidateResponse v (response\<lparr>Answers := rr # Answers response\<rparr>) qname qtype = ValidateResponse v response qname qtype"
proof (cases "RCODE (msgHeader response) = RCodeNXDomain")
  case True
  then have "isDenial (response\<lparr>Answers := rr # Answers response\<rparr>)" "isDenial response" by (simp_all add: isDenial_def)
  moreover have au: "Authority (response\<lparr>Answers := rr # Answers response\<rparr>) = Authority response" by simp
  have "validateDenialResponse v (response\<lparr>Answers := rr # Answers response\<rparr>) = validateDenialResponse v response"
    unfolding fun_eq_iff validateDenialResponse_def denialVerdict_answers au by blast
  ultimately show ?thesis by (simp add: ValidateResponse_def validateResponseImpl_def)
next
  case False
  then have "\<not> isDenial (response\<lparr>Answers := rr # Answers response\<rparr>)" "\<not> isDenial response"
    using assms(3) by (simp_all add: isDenial_def)
  moreover have "sigsOf (rr # Answers response) = sigsOf (Answers response)"
    using assms(2) by (simp add: sigsOf_def map_filter_simps)
  ultimately show ?thesis
    using assms(2,3) by (simp add: ValidateResponse_def validateResponseImpl_def validateAnswer_def Let_def answerLoop_other [OF assms(1)])
qed

text \<open>
  The signature over a zone's keys is not checked: if a key set matches the digests of the zone, so does the set with any record added, and the key in the added
  record is then used for every signature that carries its tag and algorithm.  Whoever can add a key to the answer of a DNSKEY query can sign for the zone.
\<close>

theorem added_key_trusted:
  assumes "verifyDNSKEYWithDS v keys dss zone" and "ParseDNSKEY (rrRData rr) = Ret k"
    and "findMatchingDNSKEY keys (KeyTag k) (keyAlgorithm k) = None"
  shows "verifyDNSKEYWithDS v (keys @ [rr]) dss zone \<and> findMatchingDNSKEY (keys @ [rr]) (KeyTag k) (keyAlgorithm k) = Some k"
proof -
  have "parsedKeys (keys @ [rr]) = parsedKeys keys @ [k]"
    using assms(2) by (simp add: parsedKeys_def map_filter_def okOf_def)
  moreover have "List.find P (xs @ [k]) = (case List.find P xs of Some x \<Rightarrow> Some x | None \<Rightarrow> if P k then Some k else None)" for P and xs :: "DNSKEYRecord list"
    by (induction xs) auto
  ultimately show ?thesis
    using assms by (simp add: verifyDNSKEYWithDS_def matchesDS_def findMatchingDNSKEY_def)
qed

section \<open>Canonical order\<close>

text \<open>
  \<open>canonicalCompareName\<close> is the canonical order of names: its sign is that of the lexicographic comparison of the labels read from the right,
  in lower case, where a label is compared byte by byte and a shorter one comes first (RFC 4034, 6.1).  Two names compare equal exactly if they have the
  same labels.
\<close>

theorem canonicalCompareName_lexicographic:
  "sgn (canonicalCompareName a b) =
     (if rev (canonicalLabels a) < rev (canonicalLabels b) then -1 else if canonicalLabels a = canonicalLabels b then 0 else 1)"
  using canonicalCompareName_order [of a b] by (auto simp: canonicalKey_def sgn_if)

section \<open>NSEC proofs\<close>

text \<open>
  A zone as a set of names with their types, and the NSEC record that a signer makes for one of its names: the types of the owner, and the next
  name of the zone in canonical order, which for the last name is the first.
\<close>

definition next_name :: "string set \<Rightarrow> string \<Rightarrow> string \<Rightarrow> bool" where
  "next_name names owner nxt \<longleftrightarrow> owner \<in> names \<and> nxt \<in> names \<and>
     (if canonicalKey owner < canonicalKey nxt
      then (\<forall>z\<in>names. \<not> (canonicalKey owner < canonicalKey z \<and> canonicalKey z < canonicalKey nxt))
      else (\<forall>z\<in>names. canonicalKey z \<le> canonicalKey owner \<and> canonicalKey nxt \<le> canonicalKey z))"

definition nsec_of_zone :: "string set \<Rightarrow> (string \<Rightarrow> u16 set) \<Rightarrow> NSECRecordWithOwner \<Rightarrow> bool" where
  "nsec_of_zone names types n \<longleftrightarrow>
     next_name names (canonicalName (nsecOwnerName n)) (canonicalName (NextDomainName (nsecRecord n))) \<and>
     set (nsecTypes (nsecRecord n)) = types (canonicalName (nsecOwnerName n))"

lemma recordCovers_sound:
  assumes "nsec_of_zone names types n" and "recordCovers q n"
  shows "q \<notin> names"
proof
  assume "q \<in> names"
  with assms show False
    unfolding nsec_of_zone_def next_name_def recordCovers_def nsecCoversName_def Let_def canonicalCompareName_order
    by (auto split: if_splits dest!: bspec [of names _ q] simp: not_less)
qed

lemma nsecHasType_iff: "nsecHasType r t \<longleftrightarrow> t \<in> set (nsecTypes r)"
  by (auto simp: nsecHasType_def list_ex_iff)

text \<open>
  C7. The NSEC proofs are sound for the records of a properly signed zone.  If \<open>VerifyNSECDenial\<close> accepts such records for a response that is not NXDOMAIN,
  then the name is in the zone and has neither the type asked for nor a CNAME.  If it accepts them for NXDOMAIN and none of them is the NSEC record of the name itself,
  then the name is not in the zone, and the wildcard at the closest encloser that a covering record shows either is not in the zone or does not
  have the type.
\<close>

theorem nsec_denial_sound:
  assumes "VerifyNSECDenial qname qtype rcode records = Some True"
    and "\<And>n. n \<in> set records \<Longrightarrow> nsec_of_zone names types n"
    and "\<And>n. rcode = RCodeNXDomain \<Longrightarrow> n \<in> set records \<Longrightarrow> canonicalName (nsecOwnerName n) \<noteq> canonicalName qname"
  shows "if rcode = RCodeNXDomain
    then canonicalName qname \<notin> names \<and> (\<exists>n w. n \<in> set records \<and> recordCovers (canonicalName qname) n \<and>
      w = wildcardOf (closestEncloser (canonicalName qname) (canonicalName (nsecOwnerName n)) (canonicalName (NextDomainName (nsecRecord n)))) \<and>
      (w \<notin> names \<or> qtype \<notin> types w))
    else canonicalName qname \<in> names \<and> qtype \<notin> types (canonicalName qname) \<and> TypeCNAME \<notin> types (canonicalName qname)"
proof (cases "rcode = RCodeNXDomain")
  case False
  with assms(1) obtain n where n: "n \<in> set records" "provesNoData (canonicalName qname) qtype n"
    by (auto simp: VerifyNSECDenial_def Let_def list_ex_iff split: if_splits)
  from assms(2) [OF n(1)] n(2) False show ?thesis
    by (auto simp: provesNoData_def nsec_of_zone_def next_name_def nsecHasType_iff)
next
  case True
  let ?q = "canonicalName qname"
  have "\<not> list_ex (provesNoData ?q qtype) records" "\<not> list_ex (compactDenial ?q) records"
    using assms(3) [OF True] by (auto simp: list_ex_iff provesNoData_def compactDenial_def)
  with assms(1) True obtain n where find: "List.find (recordCovers ?q) records = Some n"
    and wild: "list_ex (wildcardDenied (wildcardOf (closestEncloser ?q (canonicalName (nsecOwnerName n)) (canonicalName (NextDomainName (nsecRecord n))))) qtype) records"
    by (auto simp: VerifyNSECDenial_def Let_def split: if_splits option.splits)
  from find_Some [OF find] have n: "n \<in> set records" "recordCovers ?q n" by auto
  from wild obtain w m where w: "w = wildcardOf (closestEncloser ?q (canonicalName (nsecOwnerName n)) (canonicalName (NextDomainName (nsecRecord n))))"
    and m: "m \<in> set records" "wildcardDenied w qtype m" by (auto simp: list_ex_iff)
  have "w \<notin> names \<or> qtype \<notin> types w"
    using m(2) recordCovers_sound [OF assms(2) [OF m(1)], of w] assms(2) [OF m(1)]
    by (auto simp: wildcardDenied_def nsec_of_zone_def nsecHasType_iff)
  with n w recordCovers_sound [OF assms(2) [OF n(1)] n(2)] True show ?thesis by auto
qed

section \<open>The signed form of a set\<close>

text \<open>RFC 4034, 6.3: the records of a set in the order of their canonical RDATA.\<close>

definition rfcRRSetWire :: "ResourceRecord list \<Rightarrow> RRSIGRecord \<Rightarrow> bytes" where
  "rfcRRSetWire rrset rrsig =
     concat (map (rrWire rrsig) (sort_key (\<lambda>rr. canonicalRData (rrRData rr) (TypeCovered rrsig)) (filter (\<lambda>rr. rrType rr = TypeCovered rrsig) rrset)))"

lemma append_mono: "xs \<le> ys \<Longrightarrow> pre @ xs \<le> pre @ (ys :: u8 list)"
  by (induction pre) simp_all

text \<open>
  The bytes that are hashed for a signature are those of RFC 4034 when all records of the set have RDATA of the same length: the sort of the whole wire forms is
  then the sort by canonical RDATA.
\<close>

theorem canonicalRRSetWire_rfc:
  assumes "\<And>rr. rr \<in> set rrset \<Longrightarrow> rrName rr = owner \<and> rrClass rr = c \<and> length (rrRData rr) = l"
  shows "canonicalRRSetWire rrset rrsig = rfcRRSetWire rrset rrsig"
proof -
  define f where "f rr = canonicalRData (rrRData rr) (TypeCovered rrsig)" for rr :: ResourceRecord
  define xs where "xs = filter (\<lambda>rr. rrType rr = TypeCovered rrsig) rrset"
  obtain pre where pre: "rrWire rrsig rr = pre @ f rr" if "rr \<in> set xs" for rr
    by (rule that [of "canonicalNameWire (canonicalWildcardOwner owner (sigLabels rrsig)) @ putUint16 (TypeCovered rrsig) @ putUint16 c
        @ putUint32 (sigOrigTTL rrsig) @ putUint16 (of_nat l)"])
       (use assms in \<open>auto simp: rrWire_def xs_def f_def canonicalRData_length\<close>)
  have "sort (map (rrWire rrsig) xs) = map (rrWire rrsig) (sort_key f xs)"
  proof (rule properties_for_sort)
    have "sorted (map (\<lambda>rr. pre @ f rr) (sort_key f xs))"
      using sorted_sort_key [of f xs] by (simp add: sorted_map sorted_wrt_mono_rel [OF append_mono])
    moreover have "map (rrWire rrsig) (sort_key f xs) = map (\<lambda>rr. pre @ f rr) (sort_key f xs)"
      by (rule map_cong) (simp_all add: pre)
    ultimately show "sorted (map (rrWire rrsig) (sort_key f xs))" by (simp only:)
  qed simp
  then show ?thesis by (simp add: canonicalRRSetWire_def rfcRRSetWire_def xs_def f_def [abs_def])
qed

definition short_rr :: "u8 list \<Rightarrow> ResourceRecord" where
  "short_rr rd = \<lparr>rrName = ''a'', rrType = TypeTXT, rrClass = ClassIN, rrTTL = 60, rrRDLength = of_nat (length rd), rrRData = rd, rrRDataOffset = 0\<rparr>"

definition txt_sig :: RRSIGRecord where
  "txt_sig = \<lparr>TypeCovered = TypeTXT, sigAlgorithm = AlgED25519, sigLabels = 1, sigOrigTTL = 60, Expiration = 0, Inception = 0, sigKeyTag = 0,
     SignerName = [], Signature = []\<rparr>"

theorem canonicalRRSetWire_rfc_witness:
  "canonicalRRSetWire [short_rr [1, 98], short_rr [1, 97]] txt_sig = rfcRRSetWire [short_rr [1, 98], short_rr [1, 97]] txt_sig"
  by (rule canonicalRRSetWire_rfc [of _ "''a''" ClassIN 2]) (auto simp: short_rr_def)

definition mx_rr :: "u8 list \<Rightarrow> ResourceRecord" where
  "mx_rr rd = (short_rr rd)\<lparr>rrType := TypeMX\<rparr>"

text \<open>
  It is not when the lengths differ: the length of the RDATA precedes it in the sorted wire form.  Of two MX records, preference 10 with a longer host name
  and preference 20 with a shorter one, the code hashes the second first, and the signatures of such a set do not verify.
\<close>

theorem mixed_lengths_misordered:
  "canonicalRRSetWire [mx_rr [0, 10, 2, 97, 97, 0], mx_rr [0, 20, 1, 97, 0]] (txt_sig\<lparr>TypeCovered := TypeMX\<rparr>)
     \<noteq> rfcRRSetWire [mx_rr [0, 10, 2, 97, 97, 0], mx_rr [0, 20, 1, 97, 0]] (txt_sig\<lparr>TypeCovered := TypeMX\<rparr>)"
  by code_simp

section \<open>Witnesses\<close>

text \<open>A key, a set signed with it and a validator that trusts it; the primitives of this instance accept everything.\<close>

definition open_crypto :: Crypto where
  "open_crypto = \<lparr>hashSum = (\<lambda>_ _. [7]), verifyPKCS1v15 = (\<lambda>_ _ _ _. True), isOnCurve = (\<lambda>_ _ _. True), ecdsaVerify = (\<lambda>_ _ _ _. True),
     ed25519Verify = (\<lambda>_ _ _. True)\<rparr>"

definition root_key_rdata :: bytes where
  "root_key_rdata = [1, 1, 3, 15] @ replicate 32 0"

definition root_key_rr :: ResourceRecord where
  "root_key_rr = \<lparr>rrName = [], rrType = TypeDNSKEY, rrClass = ClassIN, rrTTL = 60, rrRDLength = 36, rrRData = root_key_rdata, rrRDataOffset = 0\<rparr>"

definition keys_message :: Message where
  "keys_message = \<lparr>msgHeader = \<lparr>ID = 0, Flags = 0x8400, QDCount = 0, ANCount = 1, NSCount = 0, ARCount = 0\<rparr>, Questions = [],
     Answers = [root_key_rr], Authority = [], Additional = [], msgEDNS0 = None, Raw = []\<rparr>"

definition root_validator :: Validator where
  "root_validator = \<lparr>vCrypto = open_crypto, querier = (\<lambda>_ _ _. retIO (Inr keys_message)),
     trustAnchors = [\<lparr>dsKeyTag = 1040, dsAlgorithm = 15, dsDigestType = DigestSHA256, dsDigest = [7]\<rparr>], allowSHA1 = False, vClock = (\<lambda>_. 0)\<rparr>"

definition signed_message :: Message where
  "signed_message = keys_message\<lparr>Answers :=
     [\<lparr>rrName = ''a'', rrType = TypeA, rrClass = ClassIN, rrTTL = 60, rrRDLength = 4, rrRData = [192, 0, 2, 1], rrRDataOffset = 0\<rparr>,
      \<lparr>rrName = ''a'', rrType = TypeRRSIG, rrClass = ClassIN, rrTTL = 60, rrRDLength = 83,
       rrRData = [0, 1, 15, 1, 0, 0, 0, 60, 0, 0, 0, 60, 0, 0, 0, 0, 4, 16, 0] @ replicate 64 1, rrRDataOffset = 0\<rparr>]\<rparr>"

lemma root_key_tag: "KeyTag \<lparr>keyFlags = 257, keyProtocol = 3, keyAlgorithm = 15, PublicKey = replicate 32 0\<rparr> = 1040"
  by code_simp

lemma root_key_parse: "ParseDNSKEY root_key_rdata = Ret \<lparr>keyFlags = 257, keyProtocol = 3, keyAlgorithm = 15, PublicKey = replicate 32 0\<rparr>"
  by code_simp

lemma signed_message_sig: "sigsOf (Answers signed_message) = [\<lparr>rsig = \<lparr>TypeCovered = TypeA, sigAlgorithm = 15, sigLabels = 1, sigOrigTTL = 60, Expiration = 60,
    Inception = 0, sigKeyTag = 1040, SignerName = [], Signature = replicate 64 1\<rparr>, rsOwner = ''a''\<rparr>]"
  by code_simp

definition signed_rr :: ResourceRecord where
  "signed_rr = \<lparr>rrName = ''a'', rrType = TypeA, rrClass = ClassIN, rrTTL = 60, rrRDLength = 4, rrRData = [192, 0, 2, 1], rrRDataOffset = 0\<rparr>"

lemma root_parsed: "parsedKeys [root_key_rr] = [\<lparr>keyFlags = 257, keyProtocol = 3, keyAlgorithm = 15, PublicKey = replicate 32 0\<rparr>]"
  by (simp add: parsedKeys_def map_filter_simps root_key_rr_def root_key_parse okOf_def)

lemma root_names: "dnssecNormalizeName [] = ''.''" "dnssecNormalizeName ''.'' = ''.''" "buildZoneChain ''.'' = [''.'']" "isInBailiwick ''a'' ''.''"
  by code_simp+

lemma root_fetch:
  "rsKeys s ''.'' = None \<Longrightarrow> \<exists>s'. fetchDNSKEYs root_validator ''.'' s = Some (Inr [root_key_rr], s') \<and>
     rsKeys s' ''.'' = Some \<lparr>dkKeys = [root_key_rr], dkFetchedAt = 0, dkTTL = 60 * second\<rparr>"
  "rsKeys s ''.'' = Some \<lparr>dkKeys = [root_key_rr], dkFetchedAt = 0, dkTTL = 60 * second\<rparr> \<Longrightarrow>
     \<exists>s'. fetchDNSKEYs root_validator ''.'' s = Some (Inr [root_key_rr], s')"
proof -
  have fields: "querier root_validator = (\<lambda>_ _ _. retIO (Inr keys_message))" "vClock root_validator = (\<lambda>_. 0)"
    by (simp_all add: root_validator_def)
  have keys: "filter (\<lambda>rr. rrType rr = TypeDNSKEY) (Answers keys_message) = [root_key_rr]" "keyCacheTTL [root_key_rr] = 60 * second"
    "RCODE (msgHeader keys_message) = 0"
    by (simp add: keys_message_def root_key_rr_def, simp add: keyCacheTTL_def minKeyTTL_def root_key_rr_def, code_simp)
  show "rsKeys s ''.'' = None \<Longrightarrow> \<exists>s'. fetchDNSKEYs root_validator ''.'' s = Some (Inr [root_key_rr], s') \<and>
     rsKeys s' ''.'' = Some \<lparr>dkKeys = [root_key_rr], dkFetchedAt = 0, dkTTL = 60 * second\<rparr>"
    by (simp add: fetchDNSKEYs_def root_names freshKeys_def queryKeys_def bindIO_def retIO_def readIO_def modIO_def fields keys Let_def)
  show "rsKeys s ''.'' = Some \<lparr>dkKeys = [root_key_rr], dkFetchedAt = 0, dkTTL = 60 * second\<rparr> \<Longrightarrow>
     \<exists>s'. fetchDNSKEYs root_validator ''.'' s = Some (Inr [root_key_rr], s')"
    by (simp add: fetchDNSKEYs_def root_names freshKeys_def bindIO_def retIO_def readIO_def fields second_def Let_def)
qed

lemma root_matches: "matchesDS root_validator [root_key_rr] (trustAnchors root_validator) ''.''"
  by (simp add: matchesDS_def root_parsed IsKSK_def root_validator_def VerifyDS_def root_key_tag isWeakDSDigest_def open_crypto_def)

lemma signed_message_secure: "\<exists>s'. ValidateResponse root_validator signed_message ''a'' TypeA sample_state = Some (Secure, s')"
proof -
  have nd: "\<not> isDenial signed_message" "Answers signed_message \<noteq> []" by code_simp+
  have rrset: "filterRRSetByOwner (filter (\<lambda>rr. rrType rr \<noteq> TypeRRSIG) (Answers signed_message)) TypeA ''a'' = [signed_rr]" by code_simp
  have verify: "VerifyRRSIG open_crypto [signed_rr] \<lparr>TypeCovered = TypeA, sigAlgorithm = 15, sigLabels = 1, sigOrigTTL = 60, Expiration = 60,
    Inception = 0, sigKeyTag = 1040, SignerName = [], Signature = replicate 64 1\<rparr> \<lparr>keyFlags = 257, keyProtocol = 3, keyAlgorithm = 15, PublicKey = replicate 32 0\<rparr> = None"
    by (simp add: VerifyRRSIG_def Let_def verifyED25519_def open_crypto_def)
  have weak: "\<not> isWeakRRSIGAlg root_validator 15" "\<not> isUnsupportedRRSIGAlg 15" "vCrypto root_validator = open_crypto" "vClock root_validator = (\<lambda>_. 0)"
    by (simp_all add: isWeakRRSIGAlg_def root_validator_def isUnsupportedRRSIGAlg_def)
  have "rsKeys (sample_state\<lparr>tick := k\<rparr>) ''.'' = None" for k by (simp add: sample_state_def)
  from root_fetch(1) [OF this] obtain g where g: "fetchDNSKEYs root_validator ''.'' (sample_state\<lparr>tick := k\<rparr>) = Some (Inr [root_key_rr], g k)"
    "rsKeys (g k) ''.'' = Some \<lparr>dkKeys = [root_key_rr], dkFetchedAt = 0, dkTTL = 60 * second\<rparr>" for k by metis
  from root_fetch(2) [OF g(2)] obtain h where h: "fetchDNSKEYs root_validator ''.'' (g k) = Some (Inr [root_key_rr], h k)" for k by metis
  show ?thesis
    using nd
    by (simp add: ValidateResponse_def validateResponseImpl_def validateAnswer_def Let_def signed_message_sig bindIO_def retIO_def nowUnix_def readIO_def weak
        checkSig_def rrset root_names g h findMatchingDNSKEY_def root_parsed root_key_tag verify validateTrustChain_def verifyAgainstTrustAnchors_def root_matches)
qed

theorem secure_answer_witness:
  "\<exists>rs\<in>set (sigsOf (Answers signed_message)). \<exists>rrset.
    good_signature (\<lambda>_ keys. keys = [root_key_rr]) root_validator ''a'' (filter (\<lambda>rr. rrType rr \<noteq> TypeRRSIG) (Answers signed_message)) rs rrset \<and>
    trusted_chain (\<lambda>_ keys. keys = [root_key_rr]) (\<lambda>_ dss. dss = []) root_validator True (buildZoneChain (dnssecNormalizeName (SignerName (rsig rs))))"
proof -
  let ?K = "\<lambda>_ keys. keys = [root_key_rr]" and ?D = "\<lambda>_ dss. dss = []"
  obtain s' where "ValidateResponse root_validator signed_message ''a'' TypeA sample_state = Some (Secure, s')"
    using signed_message_secure by blast
  moreover have "\<not> isDenial signed_message" by code_simp
  moreover have "keys_known ?K sample_state" by (simp add: keys_known_def sample_state_def)
  moreover have "keysIn keys_message = [root_key_rr]" "digestsIn keys_message = []" by code_simp+
  then have "brings ?K ?D root_validator" by (auto simp: brings_def root_validator_def retIO_def)
  ultimately show ?thesis using secure_answer [of ?K sample_state ?D root_validator signed_message "''a''" TypeA s'] by blast
qed

theorem unsigned_records_ignored_witness:
  "\<exists>s'. ValidateResponse root_validator (signed_message\<lparr>Answers := short_rr [1, 98] # Answers signed_message\<rparr>) ''a'' TypeTXT sample_state = Some (Secure, s')"
proof -
  have "ValidateResponse root_validator (signed_message\<lparr>Answers := short_rr [1, 98] # Answers signed_message\<rparr>) ''a'' TypeTXT
    = ValidateResponse root_validator signed_message ''a'' TypeTXT"
    by (rule unsigned_records_ignored) (simp_all add: signed_message_sig short_rr_def, simp add: signed_message_def)
  moreover have "ValidateResponse root_validator signed_message ''a'' TypeTXT = ValidateResponse root_validator signed_message ''a'' TypeA"
  proof -
    have "\<not> isDenial signed_message" by code_simp
    then show ?thesis by (simp add: ValidateResponse_def validateResponseImpl_def)
  qed
  ultimately show ?thesis using signed_message_secure by simp
qed

definition forged_key_rr :: ResourceRecord where
  "forged_key_rr = root_key_rr\<lparr>rrRData := [1, 0, 3, 15] @ replicate 32 5\<rparr>"

lemma forged_key_parse: "ParseDNSKEY (rrRData forged_key_rr) = Ret \<lparr>keyFlags = 256, keyProtocol = 3, keyAlgorithm = 15, PublicKey = replicate 32 5\<rparr>"
  "KeyTag \<lparr>keyFlags = 256, keyProtocol = 3, keyAlgorithm = 15, PublicKey = replicate 32 5\<rparr> \<noteq> 1040"
  by code_simp+

theorem added_key_trusted_witness:
  "verifyDNSKEYWithDS root_validator [root_key_rr, forged_key_rr] (trustAnchors root_validator) ''.''"
  using added_key_trusted [of root_validator "[root_key_rr]" "trustAnchors root_validator" "''.''" forged_key_rr, OF _ forged_key_parse(1)]
    root_matches forged_key_parse(2)
  by (auto simp: verifyDNSKEYWithDS_def findMatchingDNSKEY_def root_parsed root_key_tag)

theorem denial_ignores_anchors_witness:
  "ValidateResponse (root_validator\<lparr>trustAnchors := []\<rparr>) nx_message ''a'' TypeA = ValidateResponse root_validator nx_message ''a'' TypeA"
proof -
  have "isDenial nx_message" by code_simp
  then show ?thesis by (rule denial_ignores_anchors)
qed

theorem existing_name_denied_witness:
  "VerifyNSECDenial ''www.example.com'' TypeA RCodeNXDomain
    [\<lparr>nsecRecord = \<lparr>NextDomainName = ''xyz.example.com'', nsecTypes = [TypeA, TypeRRSIG, TypeNSEC]\<rparr>, nsecOwnerName = ''www.example.com.''\<rparr>] = Some True"
  by (rule existing_name_denied) (simp_all, code_simp)

definition gap_record :: "string \<Rightarrow> string \<Rightarrow> NSECRecordWithOwner" where
  "gap_record owner nxt = \<lparr>nsecRecord = \<lparr>NextDomainName = nxt, nsecTypes = [TypeA]\<rparr>, nsecOwnerName = owner\<rparr>"

lemma gap_keys: "canonicalKey ''a'' = [''a'']" "canonicalKey ''c'' = [''c'']" "canonicalName ''a'' = ''a''" "canonicalName ''c'' = ''c''" "canonicalName ''b'' = ''b''"
  "VerifyNSECDenial ''b'' TypeA RCodeNXDomain [gap_record ''a'' ''c'', gap_record ''c'' ''a''] = Some True"
  by code_simp+

theorem nsec_denial_sound_witness:
  "''b'' \<notin> {''a'', ''c''} \<and> (\<exists>n w. n \<in> set [gap_record ''a'' ''c'', gap_record ''c'' ''a''] \<and> recordCovers ''b'' n \<and>
      w = wildcardOf (closestEncloser ''b'' (canonicalName (nsecOwnerName n)) (canonicalName (NextDomainName (nsecRecord n)))) \<and> w \<notin> {''a'', ''c''})"
proof -
  have zone: "nsec_of_zone {''a'', ''c''} (\<lambda>_. {TypeA}) n" and own: "canonicalName (nsecOwnerName n) \<noteq> canonicalName ''b''"
    if "n \<in> set [gap_record ''a'' ''c'', gap_record ''c'' ''a'']" for n
    using that by (auto simp: gap_record_def nsec_of_zone_def next_name_def gap_keys less_char_def)
  show ?thesis using nsec_denial_sound [OF gap_keys(6) zone own] by (simp only: gap_keys(5) if_True singleton_iff simp_thms)
qed

section \<open>The resolver with its validator\<close>

lemma total_QueryDNSSEC:
  assumes "\<And>name t c. total (resolveInner n R (upstreamOf R) name t c (roots R) [] True None) (\<lambda>_. True)"
  shows "total (QueryDNSSEC n R name t c) (\<lambda>_. True)"
  unfolding QueryDNSSEC_def Let_def
proof (rule total_bind_any [OF total_read])
  show True ..
next
  fix now :: time
  let ?nm = "ToLower (TrimSuffix name ''.'')"
  let ?miss = "bindIO (resolveInner n R (upstreamOf R) ?nm t c (roots R) [] True None) (\<lambda>r. case r of
            Inl e \<Rightarrow> retIO (Inl e)
          | Inr result \<Rightarrow>
              bindIO (if resRCODE result = RCodeNoError \<and> 0 < length (resAnswers result)
                      then storeIO (env R) ?nm t c (resAnswers result) (resAuthority result) else retIO ()) (\<lambda>_.
              retIO (Inr (dnssecMessage ?nm t c (resRCODE result) (resAnswers result) (resAuthority result) (resAdditional result)))))"
  have "total ?miss (\<lambda>_. True)" by (intro total_rules assms) simp_all
  note miss = totalD [OF this]
  show "total (\<lambda>s. case Get now (rsCache s) ?nm t c of
        (Some entry, c') \<Rightarrow> Some (Inr (dnssecMessage ?nm t c (entRCODE entry) (Records entry) (entAuthority entry) []), s\<lparr>rsCache := c'\<rparr>)
      | (None, c') \<Rightarrow> ?miss (s\<lparr>rsCache := c'\<rparr>)) (\<lambda>_. True)"
    unfolding total_def
  proof (intro allI impI)
    fix s :: RState assume "cache_inv (rsCache s)"
    from Get_inv [OF this, of now ?nm t c] miss [of "s\<lparr>rsCache := snd (Get now (rsCache s) ?nm t c)\<rparr>"]
    show "\<exists>a s'. (case Get now (rsCache s) ?nm t c of
        (Some entry, c') \<Rightarrow> Some (Inr (dnssecMessage ?nm t c (entRCODE entry) (Records entry) (entAuthority entry) []), s\<lparr>rsCache := c'\<rparr>)
      | (None, c') \<Rightarrow> ?miss (s\<lparr>rsCache := c'\<rparr>)) = Some (a, s') \<and> cache_inv (rsCache s') \<and> True"
      by (auto split: prod.split option.split)
  qed
qed

text \<open>The validator of a resolver returns when its resolutions do, one level of nesting further down.\<close>

lemma validates_EnableDNSSEC:
  assumes "\<And>name t c. total (resolveInner n (EnableDNSSEC n C b R) (upstreamOf (EnableDNSSEC n C b R)) name t c
    (roots (EnableDNSSEC n C b R)) [] True None) (\<lambda>_. True)"
  shows "validates (EnableDNSSEC (Suc n) C b R)"
  using total_QueryDNSSEC [OF assms] total_ValidateResponse by (simp add: validates_def answers_def AllowSHA1_def NewValidator_def)

end
