(* ===== verification/Blocklist.thy ===== *)
theory Blocklist
  imports Resolver_Local Zone_Names
begin

text \<open>
  Blocklists (\<open>blocklist/parser.go\<close>, \<open>matcher.go\<close>, \<open>rpz.go\<close> and \<open>manager.go\<close>): parsers of the list formats, the two
  matchers and the manager that rebuilds them.  A Go map to \<open>struct{}\<close> is a set.  The downloads of the manager are a
  parameter, a function from the URL to an error or a status and a body.
\<close>

section \<open>Lines\<close>

text \<open>
  \<open>bufio.Scanner\<close> with its default split: lines without the newline and one carriage return before it, no empty last
  line.  A line of 65536 bytes or more stops the scan with an error.
\<close>

abbreviation newline :: char where "newline \<equiv> char_of (10 :: nat)"

definition rawLines :: "string \<Rightarrow> string list" where
  "rawLines s = (let ls = Split newline s in if last ls = [] then butlast ls else ls)"

definition dropCR :: "string \<Rightarrow> string" where
  "dropCR l = (if l \<noteq> [] \<and> last l = char_of (13 :: nat) then butlast l else l)"

definition scanLines :: "string \<Rightarrow> string list" where
  "scanLines s = map dropCR (takeWhile (\<lambda>l. length l < 65536) (rawLines s))"

definition scanError :: "string \<Rightarrow> bool" where
  "scanError s = list_ex (\<lambda>l. 65536 \<le> length l) (rawLines s)"

definition stripComment :: "string \<Rightarrow> string" where
  "stripComment line = (case IndexByte line CHR ''#'' of None \<Rightarrow> line | Some i \<Rightarrow> TrimSpace (take i line))"

section \<open>List formats (parser.go)\<close>

definition skipDomains :: "string list" where
  "skipDomains = [''localhost'', ''localhost.localdomain'', ''local'', ''broadcasthost'', ''ip6-localhost'', ''ip6-loopback'', ''ip6-localnet'',
     ''ip6-mcastprefix'', ''ip6-allnodes'', ''ip6-allrouters'', ''ip6-allhosts'']"

definition commentLine :: "string \<Rightarrow> bool" where
  "commentLine line \<longleftrightarrow> line = [] \<or> hd line = CHR ''#'' \<or> hd line = CHR ''!''"

definition hostsLine :: "string \<Rightarrow> string option" where
  "hostsLine text =
     (let line = TrimSpace text in
      if commentLine line then None
      else (let line = stripComment line in
            if line = [] then None
            else (let fields = Fields line in
                  if length fields < 2 then None
                  else if fields ! 0 \<noteq> ''0.0.0.0'' \<and> fields ! 0 \<noteq> ''127.0.0.1'' then None
                  else (let domain = ToLower (fields ! 1) in if domain \<in> set skipDomains then None else Some domain))))"

definition ParseHostsFile :: "string \<Rightarrow> string list" where
  "ParseHostsFile s = List.map_filter hostsLine (scanLines s)"

definition domainLine :: "string \<Rightarrow> string option" where
  "domainLine text =
     (let line = TrimSpace text in
      if commentLine line then None
      else (let line = stripComment line in if line = [] then None else Some (ToLower line)))"

definition ParseDomainList :: "string \<Rightarrow> string list" where
  "ParseDomainList s = List.map_filter domainLine (scanLines s)"

definition HasPrefix :: "string \<Rightarrow> string \<Rightarrow> bool" where
  "HasPrefix s p \<longleftrightarrow> take (length p) s = p"

text \<open>\<open>line[2 : len(line)-1]\<close>: a line with the prefix of two bytes and the suffix of another byte has three.\<close>

definition abpLine :: "string \<Rightarrow> string option" where
  "abpLine text =
     (let line = TrimSpace text in
      if commentLine line then None
      else if HasPrefix line ''['' then None
      else if \<not> HasPrefix line ''||'' then None
      else if \<not> HasSuffix line ''^'' then None
      else (let domain = ToLower (take (length line - 3) (drop 2 line)) in
            if domain = [] then None
            else if list_ex (\<lambda>c. c = CHR ''/'' \<or> c = CHR ''*'') domain then None
            else Some domain))"

definition ParseABP :: "string \<Rightarrow> string list" where
  "ParseABP s = List.map_filter abpLine (scanLines s)"

section \<open>The matcher (matcher.go)\<close>

definition normalize :: "string \<Rightarrow> string" where
  "normalize domain = TrimSuffix (ToLower domain) ''.''"

record Matcher =
  exact :: "string set"
  wildcards :: "string set"
  whitelist :: "string set"
  wildcardWhitelist :: "string set"

definition NewMatcher :: Matcher where
  "NewMatcher = \<lparr>exact = {}, wildcards = {}, whitelist = {}, wildcardWhitelist = {}\<rparr>"

text \<open>The walk up the labels: the first name on the way, from the domain itself, that is among the keys.\<close>

function walkUp :: "(string \<Rightarrow> 'a option) \<Rightarrow> string \<Rightarrow> 'a option" where
  "walkUp f d =
     (case f d of
        Some a \<Rightarrow> Some a
      | None \<Rightarrow> (case IndexByte d dot of None \<Rightarrow> None | Some idx \<Rightarrow> walkUp f (drop (idx + 1) d)))"
  by pat_completeness auto
termination
  by (relation "measure (\<lambda>(f, d). length d)") (auto dest: IndexByte_Some)

declare walkUp.simps [simp del]

definition inSet :: "string set \<Rightarrow> string \<Rightarrow> unit option" where
  "inSet S d = (if d \<in> S then Some () else None)"

definition MatchDomain :: "Matcher \<Rightarrow> string \<Rightarrow> bool" where
  "MatchDomain m domain =
     (let domain = normalize domain in
      if domain = [] then False
      else if domain \<in> whitelist m then False
      else if walkUp (inSet (wildcardWhitelist m)) domain \<noteq> None then False
      else if domain \<in> exact m then True
      else walkUp (inSet (wildcards m)) domain \<noteq> None)"

definition AddExact :: "string \<Rightarrow> Matcher \<Rightarrow> Matcher" where
  "AddExact domain m = (let domain = normalize domain in if domain = [] then m else m\<lparr>exact := insert domain (exact m)\<rparr>)"

definition AddWildcard :: "string \<Rightarrow> Matcher \<Rightarrow> Matcher" where
  "AddWildcard domain m = (let domain = normalize domain in if domain = [] then m else m\<lparr>wildcards := insert domain (wildcards m)\<rparr>)"

definition AddWhitelist :: "string \<Rightarrow> Matcher \<Rightarrow> Matcher" where
  "AddWhitelist domain m = (let domain = normalize domain in if domain = [] then m else m\<lparr>whitelist := insert domain (whitelist m)\<rparr>)"

definition AddWildcardWhitelist :: "string \<Rightarrow> Matcher \<Rightarrow> Matcher" where
  "AddWildcardWhitelist domain m =
     (let domain = normalize domain in if domain = [] then m else m\<lparr>wildcardWhitelist := insert domain (wildcardWhitelist m)\<rparr>)"

definition RemoveDomain :: "string \<Rightarrow> Matcher \<Rightarrow> Matcher" where
  "RemoveDomain domain m =
     (let domain = normalize domain in
      if domain = [] then m else m\<lparr>exact := exact m - {domain}, wildcards := wildcards m - {domain}\<rparr>)"

definition ResetMatcher :: "Matcher \<Rightarrow> Matcher" where
  "ResetMatcher m = NewMatcher"

definition MatcherStats :: "Matcher \<Rightarrow> nat \<times> nat \<times> nat" where
  "MatcherStats m = (card (exact m), card (wildcards m), card (whitelist m) + card (wildcardWhitelist m))"

section \<open>Response policy zones (rpz.go)\<close>

datatype RPZActionType = RPZActionNXDomain | RPZActionNODATA | RPZActionPassthru | RPZActionDrop | RPZActionLocalA | RPZActionLocalAAAA

record RPZAction =
  actType :: RPZActionType
  actIP :: "IP option"

record RPZRule =
  ruleName :: string
  IsWildcard :: bool
  ruleAction :: RPZAction

definition isNumeric :: "string \<Rightarrow> bool" where
  "isNumeric s \<longleftrightarrow> s \<noteq> [] \<and> list_all isDigit s"

definition isClass :: "string \<Rightarrow> bool" where
  "isClass s \<longleftrightarrow> (let upper = ToUpper s in upper = ''IN'' \<or> upper = ''CH'' \<or> upper = ''HS'' \<or> upper = ''ANY'')"

definition rpzAction :: "string \<Rightarrow> string \<Rightarrow> RPZAction option" where
  "rpzAction rrtype rdata =
     (if rrtype = ''CNAME'' then
        (let rdata = TrimSuffix rdata ''.'' in
         if rdata = [] then Some \<lparr>actType = RPZActionNXDomain, actIP = None\<rparr>
         else if rdata = ''*'' then Some \<lparr>actType = RPZActionNODATA, actIP = None\<rparr>
         else if rdata = ''rpz-passthru'' then Some \<lparr>actType = RPZActionPassthru, actIP = None\<rparr>
         else if rdata = ''rpz-drop'' then Some \<lparr>actType = RPZActionDrop, actIP = None\<rparr>
         else None)
      else if rrtype = ''A'' then
        (if rdata = [] then None
         else (case ParseIP rdata of
                 None \<Rightarrow> None
               | Some ip \<Rightarrow> map_option (\<lambda>ipv4. \<lparr>actType = RPZActionLocalA, actIP = Some ipv4\<rparr>) (To4 ip)))
      else if rrtype = ''AAAA'' then
        (if rdata = [] then None
         else map_option (\<lambda>ip. \<lparr>actType = RPZActionLocalAAAA, actIP = To16 ip\<rparr>) (ParseIP rdata))
      else None)"

definition rpzLine :: "string \<Rightarrow> RPZRule option" where
  "rpzLine text =
     (let line = TrimSpace text in
      if line = [] \<or> hd line = CHR '';'' \<or> hd line = CHR ''#'' \<or> hd line = CHR ''$'' then None
      else (let fields = Fields line in
            if length fields < 3 then None
            else (let own = ToLower (TrimSuffix (fields ! 0) ''.'') in
                  if own = [] then None
                  else (let isWildcard = HasPrefix own ''*.'';
                            own = (if isWildcard then drop 2 own else own);
                            idx = 1;
                            idx = (if idx < length fields \<and> isNumeric (fields ! idx) then idx + 1 else idx);
                            idx = (if idx < length fields \<and> isClass (fields ! idx) then idx + 1 else idx) in
                        if length fields + 1 \<le> idx + 1 then None
                        else (let rrtype = ToUpper (fields ! idx);
                                  rdata = (if idx + 1 < length fields then ToLower (fields ! (idx + 1)) else []) in
                              map_option (\<lambda>a. \<lparr>ruleName = own, IsWildcard = isWildcard, ruleAction = a\<rparr>) (rpzAction rrtype rdata))))))"

text \<open>The rules, and whether \<open>scanner.Err()\<close> is nil.\<close>

definition ParseRPZ :: "string \<Rightarrow> RPZRule list \<times> bool" where
  "ParseRPZ s = (List.map_filter rpzLine (scanLines s), \<not> scanError s)"

record RPZMatcher =
  rpzExact :: "string \<rightharpoonup> RPZAction"
  rpzWildcards :: "string \<rightharpoonup> RPZAction"
  exactPassthru :: "string set"
  wildcardPassthru :: "string set"

definition NewRPZMatcher :: RPZMatcher where
  "NewRPZMatcher = \<lparr>rpzExact = Map.empty, rpzWildcards = Map.empty, exactPassthru = {}, wildcardPassthru = {}\<rparr>"

definition AddRule :: "RPZRule \<Rightarrow> RPZMatcher \<Rightarrow> RPZMatcher" where
  "AddRule rule m =
     (let name = normalize (ruleName rule) in
      if name = [] then m
      else if actType (ruleAction rule) = RPZActionPassthru then
        (if IsWildcard rule then m\<lparr>wildcardPassthru := insert name (wildcardPassthru m)\<rparr>
         else m\<lparr>exactPassthru := insert name (exactPassthru m)\<rparr>)
      else if IsWildcard rule then m\<lparr>rpzWildcards := (rpzWildcards m)(name \<mapsto> ruleAction rule)\<rparr>
      else m\<lparr>rpzExact := (rpzExact m)(name \<mapsto> ruleAction rule)\<rparr>)"

definition RPZMatch :: "RPZMatcher \<Rightarrow> string \<Rightarrow> RPZAction option" where
  "RPZMatch m qname =
     (let qname = normalize qname in
      if qname = [] then None
      else if qname \<in> exactPassthru m then None
      else if walkUp (inSet (wildcardPassthru m)) qname \<noteq> None then None
      else (case rpzExact m qname of
              Some action \<Rightarrow> Some action
            | None \<Rightarrow> walkUp (rpzWildcards m) qname))"

definition RPZStats :: "RPZMatcher \<Rightarrow> nat \<times> nat \<times> nat" where
  "RPZStats m = (card (dom (rpzExact m)), card (dom (rpzWildcards m)), card (exactPassthru m) + card (wildcardPassthru m))"

end
