(* ===== verification/Blocklist_Manager.thy ===== *)
theory Blocklist_Manager
  imports Blocklist Server_Build
begin

text \<open>
  The manager of \<open>blocklist/manager.go\<close>.  \<open>get\<close> stands for \<open>httpClient.Get\<close>: an error, or the status and the body that
  reading it yields; \<open>clk i\<close> is the clock when the \<open>i\<close>-th source has been loaded.  The goroutine of \<open>Start\<close> only repeats
  \<open>RefreshAll\<close>.  The sources are pointers that a refresh updates in place; here the list of sources holds their contents.
\<close>

unbundle bit_operations_syntax

record ListSource =
  srcURL :: string
  srcFormat :: string
  srcEnabled :: bool
  LastUpdate :: time
  RuleCount :: nat
  srcError :: string

record ManagerConfig =
  cfgLists :: "(string \<times> string) list"
  cfgWhitelist :: "string list"
  cfgBlockingMode :: string
  cfgCustomIP :: string
  cfgRefreshInterval :: int

record Manager =
  mMatcher :: Matcher
  mRPZ :: RPZMatcher
  sources :: "ListSource list"
  customBlocks :: "string set"
  customAllows :: "string set"
  mBlockingMode :: string
  mCustomIP :: string
  refreshInterval :: int
  blockedTotal :: nat

definition NewManager :: "ManagerConfig \<Rightarrow> Manager" where
  "NewManager cfg =
     \<lparr>mMatcher = NewMatcher, mRPZ = NewRPZMatcher,
      sources = map (\<lambda>(u, f). \<lparr>srcURL = u, srcFormat = f, srcEnabled = True, LastUpdate = 0, RuleCount = 0, srcError = []\<rparr>) (cfgLists cfg),
      customBlocks = {}, customAllows = (\<lambda>d. ToLower (TrimSuffix d ''.'')) ` set (cfgWhitelist cfg),
      mBlockingMode = (if cfgBlockingMode cfg = [] then ''nxdomain'' else cfgBlockingMode cfg), mCustomIP = cfgCustomIP cfg,
      refreshInterval = (if cfgRefreshInterval cfg \<le> 0 then 24 * 3600 * int second else cfgRefreshInterval cfg), blockedTotal = 0\<rparr>"

text \<open>
  The predicates of \<open>net.IP\<close> that mark internal addresses: \<open>IsLoopback\<close>, \<open>IsPrivate\<close>, \<open>IsLinkLocalUnicast\<close>,
  \<open>IsMulticast\<close> (which includes the link-local and the interface-local one) and \<open>IsUnspecified\<close>.  Each looks at the
  4-byte form where there is one.
\<close>

definition internalIP :: "IP \<Rightarrow> bool" where
  "internalIP ip =
     (case To4 ip of
        Some v \<Rightarrow>
          v ! 0 = 127 \<or>
          v ! 0 = 10 \<or> v ! 0 = 172 \<and> v ! 1 AND 0xF0 = 16 \<or> v ! 0 = 192 \<and> v ! 1 = 168 \<or>
          v ! 0 = 169 \<and> v ! 1 = 254 \<or>
          v ! 0 AND 0xF0 = 0xE0 \<or>
          v = [0, 0, 0, 0]
      | None \<Rightarrow>
          length ip = 16 \<and>
          (ip = replicate 15 0 @ [1] \<or>
           ip ! 0 AND 0xFE = 0xFC \<or>
           ip ! 0 = 0xFE \<and> ip ! 1 AND 0xC0 = 0x80 \<or>
           ip ! 0 = 0xFF \<or>
           ip = replicate 16 0))"

text \<open>The guard against redirects to internal addresses; \<open>lookup\<close> stands for \<open>net.LookupIP\<close>.\<close>

definition blocklistCheckRedirect :: "(string \<Rightarrow> string + IP list) \<Rightarrow> nat \<Rightarrow> string \<Rightarrow> string \<Rightarrow> string option" where
  "blocklistCheckRedirect lookup via scheme host =
     (if 5 \<le> via then Some ''too many redirects (>5)''
      else if ToLower scheme \<noteq> ''https'' \<and> ToLower scheme \<noteq> ''http'' then Some ''blocked redirect to disallowed scheme''
      else (case lookup host of
              Inl e \<Rightarrow> Some (''redirect host: '' @ e)
            | Inr ips \<Rightarrow> if list_ex internalIP ips then Some ''blocked redirect to internal address'' else None))"

definition IsBlockedBy :: "Manager \<Rightarrow> string \<Rightarrow> bool" where
  "IsBlockedBy mgr domain \<longleftrightarrow> RPZMatch (mRPZ mgr) domain \<noteq> None \<or> MatchDomain (mMatcher mgr) domain"

definition ManagerIsBlocked :: "Manager \<Rightarrow> string \<Rightarrow> bool \<times> Manager" where
  "ManagerIsBlocked mgr domain =
     (if RPZMatch (mRPZ mgr) domain \<noteq> None then (True, mgr\<lparr>blockedTotal := blockedTotal mgr + 1\<rparr>)
      else if MatchDomain (mMatcher mgr) domain then (True, mgr\<lparr>blockedTotal := blockedTotal mgr + 1\<rparr>)
      else (False, mgr))"

definition ManagerRPZAction :: "Manager \<Rightarrow> string \<Rightarrow> RPZAction option" where
  "ManagerRPZAction mgr domain = RPZMatch (mRPZ mgr) domain"

text \<open>\<open>LimitReader\<close> at 50 MB; a status other than 200 is an error.\<close>

definition bodyOf :: "string + (nat \<times> string) \<Rightarrow> string + string" where
  "bodyOf r = (case r of Inl e \<Rightarrow> Inl (''HTTP GET: '' @ e) | Inr (status, body) \<Rightarrow> if status \<noteq> 200 then Inl ''unexpected status'' else Inr (take 52428800 body))"

definition downloadAndParse :: "(string \<Rightarrow> string + (nat \<times> string)) \<Rightarrow> string \<Rightarrow> string \<Rightarrow> string + string list" where
  "downloadAndParse get url format =
     (case bodyOf (get url) of
        Inl e \<Rightarrow> Inl e
      | Inr limited \<Rightarrow>
          (let f = ToLower format in
           if f = ''hosts'' then Inr (ParseHostsFile limited)
           else if f = ''domains'' then Inr (ParseDomainList limited)
           else if f = ''abp'' then Inr (ParseABP limited)
           else Inl ''unknown list format''))"

definition downloadAndParseRPZ :: "(string \<Rightarrow> string + (nat \<times> string)) \<Rightarrow> string \<Rightarrow> string + RPZRule list" where
  "downloadAndParseRPZ get url =
     (case bodyOf (get url) of
        Inl e \<Rightarrow> Inl e
      | Inr limited \<Rightarrow> (case ParseRPZ limited of (rules, ok) \<Rightarrow> if ok then Inr rules else Inl ''token too long''))"

definition loaded :: "time \<Rightarrow> nat \<Rightarrow> ListSource \<Rightarrow> ListSource" where
  "loaded now n src = src\<lparr>LastUpdate := now, RuleCount := n, srcError := []\<rparr>"

text \<open>One source of the loop of \<open>RefreshAll\<close>: the matchers under construction and the updated source.\<close>

definition refreshSource ::
  "(string \<Rightarrow> string + (nat \<times> string)) \<Rightarrow> time \<Rightarrow> ListSource \<Rightarrow> Matcher \<times> RPZMatcher \<Rightarrow> ListSource \<times> Matcher \<times> RPZMatcher" where
  "refreshSource get now src ms =
     (case ms of (m, r) \<Rightarrow>
       if \<not> srcEnabled src then (src, m, r)
       else if ToLower (srcFormat src) = ''rpz'' then
         (case downloadAndParseRPZ get (srcURL src) of
            Inl e \<Rightarrow> (src\<lparr>srcError := e\<rparr>, m, r)
          | Inr rules \<Rightarrow> (loaded now (length rules) src, m, fold AddRule rules r))
       else
         (case downloadAndParse get (srcURL src) (srcFormat src) of
            Inl e \<Rightarrow> (src\<lparr>srcError := e\<rparr>, m, r)
          | Inr domains \<Rightarrow> (loaded now (length domains) src, fold AddExact domains m, r)))"

fun refreshLoop ::
  "(string \<Rightarrow> string + (nat \<times> string)) \<Rightarrow> (nat \<Rightarrow> time) \<Rightarrow> nat \<Rightarrow> ListSource list \<Rightarrow> Matcher \<times> RPZMatcher \<Rightarrow> ListSource list \<times> Matcher \<times> RPZMatcher" where
  "refreshLoop get clk i [] ms = ([], ms)"
| "refreshLoop get clk i (src # srcs) ms =
     (case refreshSource get (clk i) src ms of (src', ms') \<Rightarrow>
        (case refreshLoop get clk (i + 1) srcs ms' of (srcs', ms'') \<Rightarrow> (src' # srcs', ms'')))"

text \<open>The rules of the users; the order of a Go map does not matter, since every rule adds one name to a set.\<close>

definition addCustom :: "string set \<Rightarrow> string set \<Rightarrow> Matcher \<Rightarrow> Matcher" where
  "addCustom blocks allows m =
     m\<lparr>exact := exact m \<union> (normalize ` blocks - {[]}), whitelist := whitelist m \<union> (normalize ` allows - {[]})\<rparr>"

definition RefreshAll :: "(string \<Rightarrow> string + (nat \<times> string)) \<Rightarrow> (nat \<Rightarrow> time) \<Rightarrow> Manager \<Rightarrow> Manager" where
  "RefreshAll get clk mgr =
     (case refreshLoop get clk 0 (sources mgr) (NewMatcher, NewRPZMatcher) of (srcs, newMatcher, newRPZMatcher) \<Rightarrow>
        mgr\<lparr>sources := srcs, mMatcher := addCustom (customBlocks mgr) (customAllows mgr) newMatcher, mRPZ := newRPZMatcher\<rparr>)"

text \<open>\<open>Start\<close> refreshes once and then at every tick until it is cancelled; \<open>clk n\<close> is the clock of the \<open>n\<close>-th refresh.\<close>

fun StartManager :: "(nat \<Rightarrow> string \<Rightarrow> string + (nat \<times> string)) \<Rightarrow> (nat \<Rightarrow> nat \<Rightarrow> time) \<Rightarrow> nat \<Rightarrow> Manager \<Rightarrow> Manager" where
  "StartManager get clk 0 mgr = RefreshAll (get 0) (clk 0) mgr"
| "StartManager get clk (Suc n) mgr = RefreshAll (get (Suc n)) (clk (Suc n)) (StartManager get clk n mgr)"

fun enableFirst :: "string \<Rightarrow> string \<Rightarrow> ListSource list \<Rightarrow> ListSource list option" where
  "enableFirst url format [] = None"
| "enableFirst url format (s # ss) =
     (if srcURL s = url then Some (s\<lparr>srcFormat := format, srcEnabled := True\<rparr> # ss)
      else map_option (\<lambda>ss. s # ss) (enableFirst url format ss))"

definition AddList :: "string \<Rightarrow> string \<Rightarrow> Manager \<Rightarrow> Manager" where
  "AddList url format mgr =
     (case enableFirst url format (sources mgr) of
        Some ss \<Rightarrow> mgr\<lparr>sources := ss\<rparr>
      | None \<Rightarrow> mgr\<lparr>sources := sources mgr @
          [\<lparr>srcURL = url, srcFormat = format, srcEnabled = True, LastUpdate = 0, RuleCount = 0, srcError = []\<rparr>]\<rparr>)"

fun removeFirst :: "string \<Rightarrow> ListSource list \<Rightarrow> ListSource list" where
  "removeFirst url [] = []"
| "removeFirst url (s # ss) = (if srcURL s = url then ss else s # removeFirst url ss)"

definition RemoveList :: "string \<Rightarrow> Manager \<Rightarrow> Manager" where
  "RemoveList url mgr = mgr\<lparr>sources := removeFirst url (sources mgr)\<rparr>"

definition BlockDomain :: "string \<Rightarrow> Manager \<Rightarrow> Manager" where
  "BlockDomain domain mgr =
     (let domain = normalize domain in
      if domain = [] then mgr
      else mgr\<lparr>customBlocks := insert domain (customBlocks mgr), mMatcher := AddExact domain (mMatcher mgr)\<rparr>)"

definition UnblockDomain :: "string \<Rightarrow> Manager \<Rightarrow> Manager" where
  "UnblockDomain domain mgr =
     (let domain = normalize domain in
      if domain = [] then mgr
      else mgr\<lparr>customAllows := insert domain (customAllows mgr), customBlocks := customBlocks mgr - {domain},
               mMatcher := RemoveDomain domain (AddWhitelist domain (mMatcher mgr))\<rparr>)"

definition CheckDomain :: "Manager \<Rightarrow> string \<Rightarrow> bool" where
  "CheckDomain mgr domain = MatchDomain (mMatcher mgr) domain"

record BlocklistStats =
  stEnabled :: bool
  TotalRules :: nat
  ListCount :: nat
  BlockedTotal :: nat
  CustomBlocks :: nat
  CustomAllows :: nat
  stBlockingMode :: string

definition ManagerStats :: "Manager \<Rightarrow> BlocklistStats" where
  "ManagerStats mgr =
     (case MatcherStats (mMatcher mgr) of (ex, wild, wl) \<Rightarrow>
       \<lparr>stEnabled = (0 < length (sources mgr) \<or> 0 < card (customBlocks mgr)), TotalRules = ex + wild,
        ListCount = length (filter srcEnabled (sources mgr)), BlockedTotal = blockedTotal mgr, CustomBlocks = card (customBlocks mgr),
        CustomAllows = card (customAllows mgr), stBlockingMode = mBlockingMode mgr\<rparr>)"

definition BlockedDomains :: "Manager \<Rightarrow> string set \<times> string set" where
  "BlockedDomains mgr = (customBlocks mgr, customAllows mgr)"

definition Sources :: "Manager \<Rightarrow> ListSource list" where
  "Sources mgr = sources mgr"

text \<open>What the handler sees of a manager.\<close>

definition blocklistOf :: "Manager \<Rightarrow> Blocklist" where
  "blocklistOf mgr = \<lparr>IsBlocked = (\<lambda>d. fst (ManagerIsBlocked mgr d)), BlockingMode = mBlockingMode mgr, CustomIP = mCustomIP mgr\<rparr>"

end
