(* ===== verification/Blocklist_Properties.thy ===== *)
theory Blocklist_Properties
  imports Blocklist_Manager Server_Properties
begin

text \<open>
  Properties of the blocklist: which names a matcher blocks, what a refresh puts into it, how the rules of
  the users combine, and that the handler refuses what the manager blocks.
\<close>

section \<open>The walk up the labels\<close>

lemma at_or_below_step:
  assumes "IndexByte d dot = Some i"
  shows "at_or_below d w \<longleftrightarrow> w = d \<or> at_or_below (drop (i + 1) d) w"
proof -
  from IndexByte_Some_split [OF assms] have d: "Split dot d = take i d # Split dot (drop (i + 1) d)"
    by (metis Suc_eq_plus1 Split_append_sep)
  have "Split dot w = Split dot d \<longleftrightarrow> w = d" by (auto dest: Split_inj)
  then show ?thesis unfolding at_or_below_def d suffix_Cons by (auto simp: d)
qed

lemma at_or_below_single: "IndexByte d dot = None \<Longrightarrow> at_or_below d w \<longleftrightarrow> w = d"
  by (auto simp: IndexByte_None_iff at_or_below_iff suffix_def)

text \<open>The walk finds the value of the longest name at or above the domain that has one.\<close>

lemma walkUp_Some:
  "walkUp f d = Some a \<longleftrightarrow> (\<exists>w. at_or_below d w \<and> f w = Some a \<and> (\<forall>w'. at_or_below d w' \<and> length w < length w' \<longrightarrow> f w' = None))"
proof (induction f d rule: walkUp.induct)
  case (1 f d)
  show ?case
  proof (cases "f d")
    case (Some b)
    have "walkUp f d = Some b" by (subst walkUp.simps) (simp add: Some)
    moreover have "w = d" if "at_or_below d w" "f w = Some a" "\<forall>w'. at_or_below d w' \<and> length w < length w' \<longrightarrow> f w' = None" for w
    proof (rule ccontr)
      assume "w \<noteq> d"
      with that(1) have "length w < length d" by (auto simp: at_or_below_iff suffix_def)
      with that(3) Some show False by (auto dest: spec [of _ d])
    qed
    moreover have "f w' = None" if "at_or_below d w' \<and> length d < length w'" for w'
      using that at_or_below_length [of d w'] by simp
    ultimately show ?thesis using Some by (metis at_or_below_refl)
  next
    case None
    show ?thesis
    proof (cases "IndexByte d dot")
      case none: None
      have "walkUp f d = None" by (subst walkUp.simps) (simp add: None none)
      then show ?thesis using None by (auto simp: at_or_below_single [OF none])
    next
      case (Some i)
      have "walkUp f d = walkUp f (drop (i + 1) d)" by (subst walkUp.simps) (simp add: None Some)
      also have "walkUp f (drop (i + 1) d) = Some a \<longleftrightarrow> (\<exists>w. at_or_below (drop (i + 1) d) w \<and> f w = Some a \<and>
          (\<forall>w'. at_or_below (drop (i + 1) d) w' \<and> length w < length w' \<longrightarrow> f w' = None))"
        by (rule 1 [OF None Some])
      finally show ?thesis using None by (auto simp: at_or_below_step [OF Some])
    qed
  qed
qed

lemma walkUp_None: "walkUp f d = None \<longleftrightarrow> (\<forall>w. at_or_below d w \<longrightarrow> f w = None)"
proof (induction f d rule: walkUp.induct)
  case (1 f d)
  show ?case
  proof (cases "f d")
    case (Some b)
    then have "walkUp f d \<noteq> None" by (subst walkUp.simps) simp
    with Some show ?thesis by (metis at_or_below_refl option.distinct(1))
  next
    case None
    show ?thesis
    proof (cases "IndexByte d dot")
      case none: None
      have "walkUp f d = None" by (subst walkUp.simps) (simp add: None none)
      then show ?thesis using None by (simp add: at_or_below_single [OF none])
    next
      case (Some i)
      have "walkUp f d = walkUp f (drop (i + 1) d)" by (subst walkUp.simps) (simp add: None Some)
      then show ?thesis using 1 [OF None Some] None by (auto simp: at_or_below_step [OF Some])
    qed
  qed
qed

lemma walkUp_set: "walkUp (inSet S) d \<noteq> None \<longleftrightarrow> (\<exists>w\<in>S. at_or_below d w)"
  by (auto simp: walkUp_None inSet_def split: if_splits)

text \<open>The walk as a test whether a name is in a zone, like the others of the sources.\<close>

interpretation walk: zone_test "\<lambda>name zone. walkUp (inSet {zone}) name \<noteq> None"
  by unfold_locales (simp only: walkUp_set bex_simps singleton_iff, blast)

text \<open>
  The matcher blocks exactly what its rules say: a name, in lower case and without its last dot, is blocked if it is not empty, is not whitelisted and not at or below a
  name whitelisted with its subdomains, and is blocked itself or at or below a name blocked with its subdomains.  Names are compared
  by whole labels.
\<close>

theorem MatchDomain_iff:
  "MatchDomain m domain \<longleftrightarrow> (let d = normalize domain in
     d \<noteq> [] \<and> d \<notin> whitelist m \<and> (\<nexists>w. w \<in> wildcardWhitelist m \<and> at_or_below d w) \<and>
     (d \<in> exact m \<or> (\<exists>w. w \<in> wildcards m \<and> at_or_below d w)))"
  using walkUp_set [of "wildcardWhitelist m" "normalize domain"] walkUp_set [of "wildcards m" "normalize domain"]
  by (auto simp: MatchDomain_def Let_def)

section \<open>A refresh\<close>

text \<open>The names on the lists that a refresh can load.\<close>

definition listedBy :: "(string \<Rightarrow> string + (nat \<times> string)) \<Rightarrow> ListSource \<Rightarrow> string set" where
  "listedBy get src =
     (if srcEnabled src \<and> ToLower (srcFormat src) \<noteq> ''rpz''
      then (case downloadAndParse get (srcURL src) (srcFormat src) of Inr domains \<Rightarrow> normalize ` set domains | Inl _ \<Rightarrow> {}) else {})"

definition listed :: "(string \<Rightarrow> string + (nat \<times> string)) \<Rightarrow> ListSource list \<Rightarrow> string set" where
  "listed get srcs = (\<Union>src\<in>set srcs. listedBy get src)"

lemma fold_AddExact: "fold AddExact ds m = m\<lparr>exact := exact m \<union> (normalize ` set ds - {[]})\<rparr>"
proof (induction ds arbitrary: m)
  case (Cons d ds)
  have "insert (normalize d) (exact m \<union> (normalize ` set ds - {[]})) = exact m \<union> (insert (normalize d) (normalize ` set ds) - {[]})" if "normalize d \<noteq> []"
    using that by auto
  then show ?case by (simp add: Cons AddExact_def [of d m] Let_def)
qed simp

lemma refreshLoop_matcher:
  "fst (snd (refreshLoop get clk i srcs (m, r))) = m\<lparr>exact := exact m \<union> (listed get srcs - {[]})\<rparr>"
proof (induction srcs arbitrary: i m r)
  case Nil
  show ?case by (simp add: listed_def)
next
  case (Cons src srcs)
  obtain src' m' r' where step: "refreshSource get (clk i) src (m, r) = (src', m', r')" by (metis prod_cases3)
  have m': "m' = m\<lparr>exact := exact m \<union> (listedBy get src - {[]})\<rparr>"
    using step by (auto simp: refreshSource_def listedBy_def fold_AddExact split: if_splits sum.splits)
  have "fst (snd (refreshLoop get clk i (src # srcs) (m, r))) = fst (snd (refreshLoop get clk (i + 1) srcs (m', r')))"
    by (simp add: step split: prod.split)
  also have "\<dots> = m\<lparr>exact := exact m \<union> (listedBy get src - {[]}) \<union> (listed get srcs - {[]})\<rparr>"
    by (simp add: Cons.IH m')
  also have "exact m \<union> (listedBy get src - {[]}) \<union> (listed get srcs - {[]}) = exact m \<union> (listed get (src # srcs) - {[]})"
    by (auto simp: listed_def)
  finally show ?case .
qed

lemma RefreshAll_matches_lemma:
  "CheckDomain (RefreshAll get clk mgr) domain \<longleftrightarrow>
     normalize domain \<noteq> [] \<and> normalize domain \<notin> normalize ` customAllows mgr \<and>
     normalize domain \<in> listed get (sources mgr) \<union> normalize ` customBlocks mgr"
proof -
  obtain srcs m r where loop: "refreshLoop get clk 0 (sources mgr) (NewMatcher, NewRPZMatcher) = (srcs, m, r)" by (metis prod_cases3)
  with refreshLoop_matcher [of get clk 0 "sources mgr" NewMatcher NewRPZMatcher]
  have "m = NewMatcher\<lparr>exact := listed get (sources mgr) - {[]}\<rparr>" by (simp add: NewMatcher_def)
  with loop walkUp_set [of "{}"] show ?thesis
    by (auto simp: CheckDomain_def RefreshAll_def MatchDomain_def addCustom_def NewMatcher_def Let_def)
qed

text \<open>
  C15. A refresh replaces the rules: afterwards a name is matched exactly if it is on a list that is enabled and could be loaded, or was blocked by a user, and no
  user has allowed it.  The rules of a list that could not be loaded are gone, and a list blocks only the names on it, not those below them.
\<close>

theorem RefreshAll_matches:
  "CheckDomain (RefreshAll get clk mgr) domain \<longleftrightarrow>
     normalize domain \<noteq> [] \<and> normalize domain \<notin> normalize ` customAllows mgr \<and>
     normalize domain \<in> listed get (sources mgr) \<union> normalize ` customBlocks mgr"
  by (rule RefreshAll_matches_lemma)

section \<open>Rules of the users\<close>

text \<open>
  Blocking does not undo an exemption: once a user has allowed a name (one without a second final dot), blocking it again has no effect, now or after any refresh, since the
  exemption stays and the whitelist is checked first.
\<close>

theorem block_after_unblock_ineffective:
  assumes "normalize (normalize domain) = normalize domain"
  shows "CheckDomain (BlockDomain domain (UnblockDomain domain mgr)) domain = False \<and>
   CheckDomain (RefreshAll get clk (BlockDomain domain (UnblockDomain domain mgr))) domain = False"
proof (cases "normalize domain = []")
  case True
  then show ?thesis by (simp add: RefreshAll_matches_lemma) (simp add: CheckDomain_def MatchDomain_def)
next
  case False
  let ?mgr = "BlockDomain domain (UnblockDomain domain mgr)"
  have allow: "normalize domain \<in> customAllows ?mgr" "normalize domain \<in> whitelist (mMatcher ?mgr)"
    using False by (simp_all add: BlockDomain_def UnblockDomain_def Let_def assms AddWhitelist_def AddExact_def RemoveDomain_def)
  from imageI [OF allow(1), of normalize] have "normalize domain \<in> normalize ` customAllows ?mgr" by (simp only: assms)
  moreover from allow(2) have "\<not> CheckDomain ?mgr domain" by (auto simp: CheckDomain_def MatchDomain_def Let_def)
  ultimately show ?thesis by (simp only: RefreshAll_matches_lemma) simp
qed

definition empty_config :: ManagerConfig where
  "empty_config = \<lparr>cfgLists = [], cfgWhitelist = [], cfgBlockingMode = [], cfgCustomIP = [], cfgRefreshInterval = 0\<rparr>"

lemma sample_domain: "normalize ''ads.example.com'' = ''ads.example.com''" "normalize ''ADS.example.com.'' = ''ads.example.com''"
  by code_simp+

theorem block_after_unblock_ineffective_witness:
  "CheckDomain (BlockDomain ''ads.example.com'' (UnblockDomain ''ads.example.com'' (NewManager empty_config))) ''ads.example.com'' = False"
proof -
  have "normalize (normalize ''ads.example.com'') = normalize ''ads.example.com''" by (simp only: sample_domain)
  from block_after_unblock_ineffective [OF this] show ?thesis by blast
qed

section \<open>The handler\<close>

lemma ManagerIsBlocked_iff: "fst (ManagerIsBlocked mgr d) \<longleftrightarrow> IsBlockedBy mgr d"
  by (auto simp: ManagerIsBlocked_def IsBlockedBy_def)

text \<open>What the blocking mode says about a question: a response code and the records of the answer.\<close>

definition blockedAnswer :: "string \<Rightarrow> string \<Rightarrow> Question \<Rightarrow> u8 \<times> ResourceRecord list" where
  "blockedAnswer mode custom q =
     (if mode = ''null_ip'' then
        (RCodeNoError, if qType q = TypeA then [addressRR q TypeA [0, 0, 0, 0]]
                       else if qType q = TypeAAAA then [addressRR q TypeAAAA (replicate 16 0)] else [])
      else if mode = ''custom_ip'' \<and> qType q = TypeA then
        (case Option.bind (ParseIP custom) To4 of Some v4 \<Rightarrow> (RCodeNoError, [addressRR q TypeA v4]) | None \<Rightarrow> (RCodeNXDomain, []))
      else (RCodeNXDomain, []))"

lemma blockedMessage_blockedAnswer:
  "blockedMessage (SetBlocklist b h) msg q =
     \<lparr>msgHeader = plainHeader msg (fst (blockedAnswer (BlockingMode b) (CustomIP b) q)), Questions = Questions msg,
      Answers = snd (blockedAnswer (BlockingMode b) (CustomIP b) q), Authority = [], Additional = [], msgEDNS0 = None, Raw = []\<rparr>"
  by (simp add: blockedMessage_def SetBlocklist_def blockedAnswer_def Let_def split: option.split)

lemma blockedAnswer_rrs:
  assumes "valid_name (qName q)"
  shows "list_all wf_rr (snd (blockedAnswer mode custom q)) \<and> length (snd (blockedAnswer mode custom q)) \<le> 1 \<and>
    sum_list (map rr_size (snd (blockedAnswer mode custom q))) \<le> 300"
proof -
  have "wf_rr (addressRR q t ip)" if "t = TypeA \<or> t = TypeAAAA" for t ip
    using that assms by (auto simp: wf_rr_def addressRR_def wf_rdata_def)
  moreover have "rr_size (addressRR q t ip) \<le> 300" if "length ip \<le> 16" for t ip
    using that valid_name_length [OF assms] by (simp add: rr_size_def addressRR_def)
  moreover have "length v4 \<le> 16" if "To4 ip = Some v4" for ip v4
    using that by (auto simp: To4_def split: if_splits)
  ultimately show ?thesis by (auto simp: blockedAnswer_def split: option.split bind_splits)
qed

lemma plain_flags:
  assumes "rcode < 16" "Flags h = Flags (plainHeader msg rcode)"
  shows "QR h" "RCODE h = rcode"
proof -
  show "QR h" using assms(2) by (simp add: plainHeader_def flag_bits flag_bit_simps)
  show "RCODE h = rcode"
    by (rule bit_word_eqI) (use small_bits [OF assms(1)] in \<open>auto simp: assms(2) plainHeader_def flag_bit_simps\<close>)
qed

text \<open>A small message is packed, and unpacks to the same header, questions and records.\<close>

lemma small_message:
  assumes "wf_message m" "message_size m \<le> 4096"
  shows "\<exists>b u. packToOwnedBytes m = Ret b \<and> Unpack b = Ret u \<and> msgHeader u = msgHeader (updateCounts m) \<and> Questions u = Questions m \<and>
    map strip (Answers u) = map strip (Answers m) \<and> map strip (Authority u) = map strip (Authority m) \<and>
    map strip (Additional u) = map strip (Additional m)"
proof -
  obtain b where b: "Pack m (replicate 4096 0) = Ret (updateCounts m, b)"
    using Pack_returns_lemma [OF assms(1), of "replicate 4096 0"] assms(2) by auto
  from Unpack_Pack_lemma [OF this assms(1)] b show ?thesis by (auto simp: packToOwnedBytes_def)
qed

lemma wf_rr_strip: "wf_rr (strip rr) = wf_rr rr" "rr_size (strip rr) = rr_size rr"
  by (simp_all add: wf_rr_def strip_def rr_size_def)

lemma map_strip_wf:
  assumes "map strip xs = map strip ys"
  shows "list_all wf_rr xs = list_all wf_rr ys" "map rr_size xs = map rr_size ys" "length xs = length ys"
proof -
  have "list_all wf_rr (map strip zs) = list_all wf_rr zs" "map rr_size (map strip zs) = map rr_size zs" for zs
    by (induction zs) (simp_all add: wf_rr_strip)
  with assms show "list_all wf_rr xs = list_all wf_rr ys" "map rr_size xs = map rr_size ys" by metis+
  show "length xs = length ys" using assms by (metis length_map)
qed

text \<open>The reply to a blocked question, with the extended error for a client that uses EDNS.\<close>

lemma blocked_reply:
  assumes "Questions msg = [q]" "valid_name (qName q)"
  shows "\<exists>b m. andThen (buildBlockedResponse (SetBlocklist bl h) msg q) (\<lambda>resp.
        if msgEDNS0 msg \<noteq> None then addEDEToRawResponse h' resp EDECodeBlocked ''blocked'' else Ret resp) = Ret b \<and>
      Unpack b = Ret m \<and> ID (msgHeader m) = ID (msgHeader msg) \<and> QR (msgHeader m) \<and> Questions m = [q] \<and>
      RCODE (msgHeader m) = fst (blockedAnswer (BlockingMode bl) (CustomIP bl) q) \<and>
      map strip (Answers m) = snd (blockedAnswer (BlockingMode bl) (CustomIP bl) q)"
proof -
  let ?a = "blockedAnswer (BlockingMode bl) (CustomIP bl) q"
  let ?m0 = "blockedMessage (SetBlocklist bl h) msg q"
  note rrs = blockedAnswer_rrs [OF assms(2), of "BlockingMode bl" "CustomIP bl"]
  have m0: "Questions ?m0 = [q]" "Answers ?m0 = snd ?a" "Authority ?m0 = []" "Additional ?m0 = []" "msgHeader ?m0 = plainHeader msg (fst ?a)"
    by (simp_all add: blockedMessage_blockedAnswer assms(1))
  have "wf_message ?m0" "message_size ?m0 \<le> 573"
    using rrs assms(2) valid_name_length [OF assms(2)] by (simp_all add: wf_message_def message_size_def m0)
  then obtain b0 u0 where u0: "packToOwnedBytes ?m0 = Ret b0" "Unpack b0 = Ret u0" "msgHeader u0 = msgHeader (updateCounts ?m0)"
      "Questions u0 = [q]" "map strip (Answers u0) = map strip (snd ?a)" "Authority u0 = []" "Additional u0 = []"
    using small_message [of ?m0] by (auto simp: m0)
  have code: "fst ?a < 16" by (simp add: blockedAnswer_def split: option.split)
  have plain: "map strip (snd ?a) = snd ?a"
    by (simp add: blockedAnswer_def strip_def addressRR_def split: option.split)
  have fields: "ID (msgHeader u) = ID (msgHeader msg) \<and> QR (msgHeader u) \<and> RCODE (msgHeader u) = fst ?a"
    if "ID (msgHeader u) = ID (msgHeader u0)" "Flags (msgHeader u) = Flags (msgHeader u0)" for u
    using that plain_flags [OF code, of "msgHeader u" msg] by (simp add: u0(3) updateCounts_def m0) (simp add: plainHeader_def)
  show ?thesis
  proof (cases "msgEDNS0 msg = None")
    case True
    then show ?thesis using u0 fields [of u0] plain by (simp add: buildBlockedResponse_def)
  next
    case False
    let ?m1 = "addEDEToResponse h' u0 EDECodeBlocked ''blocked''"
    let ?opt = "BuildOPTWithOptions (advertisedSize h') False [BuildEDEOption EDECodeBlocked ''blocked'']"
    have m1: "?m1 = u0\<lparr>Additional := [?opt]\<rparr>" by (simp add: addEDEToResponse_def addOption_def u0(7))
    have root: "valid_name []" "length (wireName (splitLabels [])) = 1"
      by (simp_all add: valid_name_def valid_labels_def splitLabels_def TrimSuffix_def HasSuffix_def wireName_def)
    have "wf_rr ?opt" "rr_size ?opt \<le> 100"
      using root by (simp_all add: BuildOPTWithOptions_def BuildOPT_def BuildEDEOption_def Let_def wf_rr_def wf_rdata_def rr_size_def)
    then have "wf_message ?m1" "message_size ?m1 \<le> 4096"
      using rrs assms(2) valid_name_length [OF assms(2)] map_strip_wf [OF u0(5)] u0(4,6)
      by (simp_all add: m1 wf_message_def message_size_def)
    from small_message [OF this] obtain b u where u: "packToOwnedBytes ?m1 = Ret b" "Unpack b = Ret u" "msgHeader u = msgHeader (updateCounts ?m1)"
        "Questions u = [q]" "map strip (Answers u) = map strip (snd ?a)"
      using u0(4,5) by (auto simp: m1)
    have "ID (msgHeader u) = ID (msgHeader u0)" "Flags (msgHeader u) = Flags (msgHeader u0)" by (simp_all add: u(3) m1 updateCounts_def)
    from fields [OF this] u plain u0(1,2) False show ?thesis
      by (simp add: buildBlockedResponse_def addEDEToRawResponse_def orElseBytes_def)
  qed
qed

text \<open>A question that gets as far as the blocklist.\<close>

definition admitted :: "MainHandler \<Rightarrow> string \<Rightarrow> Message \<Rightarrow> Question \<Rightarrow> bool" where
  "admitted h ip msg q \<longleftrightarrow> \<not> QR (msgHeader msg) \<and> Opcode (msgHeader msg) = OpcodeQuery \<and> Questions msg = [q] \<and> countOPT msg \<le> 1 \<and>
     (case msgEDNS0 msg of None \<Rightarrow> True | Some e \<Rightarrow> Version e = 0 \<and> (cookiesEnabled h \<longrightarrow> length (snd (clientCookieOf e)) \<noteq> 16)) \<and>
     (case hAcl h of None \<Rightarrow> True | Some acl \<Rightarrow> Check acl ip \<and> CheckWithZone acl ip (qName q))"

lemma limiter_counts: "limiterAllow R ip s = Some (ok, s1) \<Longrightarrow> blockedQueries s1 = blockedQueries s"
  by (auto simp: limiterAllow_def bindH_def nowH_def liftR_def readIO_def split: option.splits prod.splits)

lemma blocked_question:
  assumes "Questions msg = [q]" "valid_name (qName q)" "IsBlocked bl (qName q)"
    and "case hAcl h of None \<Rightarrow> True | Some acl \<Rightarrow> CheckWithZone acl ip (qName q)"
  shows "\<exists>b m s'. handleQuestion n (SetBlocklist bl h) R query ip msg q s = Some (Inr (Some b), s') \<and> blockedQueries s' = blockedQueries s + 1 \<and>
      Unpack b = Ret m \<and> ID (msgHeader m) = ID (msgHeader msg) \<and> QR (msgHeader m) \<and> Questions m = [q] \<and>
      RCODE (msgHeader m) = fst (blockedAnswer (BlockingMode bl) (CustomIP bl) q) \<and>
      map strip (Answers m) = snd (blockedAnswer (BlockingMode bl) (CustomIP bl) q)"
proof -
  obtain b m where b: "andThen (buildBlockedResponse (SetBlocklist bl h) msg q) (\<lambda>resp.
        if msgEDNS0 msg \<noteq> None then addEDEToRawResponse (SetBlocklist bl h) resp EDECodeBlocked ''blocked'' else Ret resp) = Ret b"
      and m: "Unpack b = Ret m \<and> ID (msgHeader m) = ID (msgHeader msg) \<and> QR (msgHeader m) \<and> Questions m = [q] \<and>
      RCODE (msgHeader m) = fst (blockedAnswer (BlockingMode bl) (CustomIP bl) q) \<and>
      map strip (Answers m) = snd (blockedAnswer (BlockingMode bl) (CustomIP bl) q)"
    using blocked_reply [OF assms(1,2), of bl h "SetBlocklist bl h"] by blast
  have fields: "hAcl (SetBlocklist bl h) = hAcl h" "blocklist (SetBlocklist bl h) = Some bl" by (simp_all add: SetBlocklist_def)
  have "\<exists>s'. handleQuestion n (SetBlocklist bl h) R query ip msg q s = Some (Inr (Some b), s') \<and> blockedQueries s' = blockedQueries s + 1"
    using assms(3,4) unfolding handleQuestion_def Let_def b fields
    by (auto simp: bindH_def modH_def incQueries_def incResponses_def callOnQuery_def tryH_def retH_def split: option.splits)
  with m show ?thesis by blast
qed

text \<open>
  C14. The handler answers what a user blocks from the blocking mode.  Take a manager in which \<open>BlockDomain\<close> was called for a name that is not exempt, a handler that uses it, and a
  query that parses to one ordinary question (not a response, opcode QUERY, at most one OPT record, EDNS version 0, no server cookie to check) for that name, in any capitalisation and with or without the final dot, from a client that the access
  list and the rate limiter let in.  Then \<open>Handle\<close> returns a reply with the query's identifier and question, whose response code and records are those of the blocking
  mode (NXDOMAIN, the null address or the address that was configured), counts one blocked query, and leaves the resolver as it was, up to the number of clock readings.
\<close>

theorem blocked_domain_denied:
  assumes "Unpack query = Ret msg" and "admitted h (extractIP addr) msg q" and "limiterAllow R (extractIP addr) s = Some (True, s1)" and "valid_name (qName q)"
    and "normalize (qName q) = normalize domain" and "normalize domain \<noteq> []" and "normalize (normalize domain) = normalize domain"
    and "normalize domain \<notin> whitelist (mMatcher mgr)" and "wildcardWhitelist (mMatcher mgr) = {}"
  shows "\<exists>b m s'. Handle n (SetBlocklist (blocklistOf (BlockDomain domain mgr)) h) R query addr s = Some (Inr (Some b), s') \<and>
      Unpack b = Ret m \<and> ID (msgHeader m) = ID (msgHeader msg) \<and> QR (msgHeader m) \<and> Questions m = [q] \<and>
      RCODE (msgHeader m) = fst (blockedAnswer (mBlockingMode mgr) (mCustomIP mgr) q) \<and>
      map strip (Answers m) = snd (blockedAnswer (mBlockingMode mgr) (mCustomIP mgr) q) \<and>
      blockedQueries s' = blockedQueries s + 1 \<and> rstate s' = (rstate s)\<lparr>tick := tick (rstate s')\<rparr>"
proof -
  let ?bl = "blocklistOf (BlockDomain domain mgr)"
  let ?h = "SetBlocklist ?bl h"
  have "MatchDomain (mMatcher (BlockDomain domain mgr)) (qName q)"
    using assms(5-9) walkUp_set [of "{}"] by (simp add: MatchDomain_def BlockDomain_def AddExact_def Let_def)
  then have blocked: "IsBlocked ?bl (qName q)" by (simp add: blocklistOf_def ManagerIsBlocked_iff IsBlockedBy_def)
  have mode: "BlockingMode ?bl = mBlockingMode mgr" "CustomIP ?bl = mCustomIP mgr" by (simp_all add: blocklistOf_def BlockDomain_def Let_def)
  note adm = assms(2) [unfolded admitted_def]
  have qs: "Questions msg = [q]" using adm by simp
  obtain now s2 where now: "nowFunc R s1 = Some (now, s2)" "blockedQueries s2 = blockedQueries s1"
    by (auto simp: nowFunc_def nowH_def liftR_def readIO_def bindH_def retH_def)
  have "case hAcl h of None \<Rightarrow> True | Some acl \<Rightarrow> CheckWithZone acl (extractIP addr) (qName q)"
    using adm by (auto split: option.splits)
  from blocked_question [OF qs assms(4) blocked this, of n R query s2] mode
  obtain b m s' where run: "handleQuestion n ?h R query (extractIP addr) msg q s2 = Some (Inr (Some b), s')" "blockedQueries s' = blockedQueries s2 + 1"
    and m: "Unpack b = Ret m \<and> ID (msgHeader m) = ID (msgHeader msg) \<and> QR (msgHeader m) \<and> Questions m = [q] \<and>
      RCODE (msgHeader m) = fst (blockedAnswer (mBlockingMode mgr) (mCustomIP mgr) q) \<and>
      map strip (Answers m) = snd (blockedAnswer (mBlockingMode mgr) (mCustomIP mgr) q)" by auto
  have fields: "hAcl ?h = hAcl h" "cookiesEnabled ?h = cookiesEnabled h" by (simp_all add: SetBlocklist_def)
  have "handleMessage n ?h R query (extractIP addr) msg s1 = Some (Inr (Some b), s')"
    using adm now run by (auto simp: handleMessage_def Let_def bindH_def fields split: option.splits prod.splits)
  then have handle: "Handle n ?h R query addr s = Some (Inr (Some b), s')"
    using adm assms(1,3) by (auto simp: Handle_def Let_def fields bindH_def split: option.splits)
  have "denied ?h (extractIP addr) q'" if "Questions msg = [q']" for q'
    using that qs blocked by (simp add: denied_def SetBlocklist_def)
  from quiet_handleMessage [OF this] have "quiet (Handle n ?h R query addr)"
    unfolding Handle_def Let_def assms(1) outcome.case by (intro quiet_rules) simp_all
  with handle have "rstate s' = (rstate s)\<lparr>tick := tick (rstate s')\<rparr>" by (simp only: quiet_def)
  with handle m run(2) now(2) limiter_counts [OF assms(3)] show ?thesis by auto
qed

definition ads_query :: bytes where
  "ads_query = [0, 9, 1, 0, 0, 1, 0, 0, 0, 0, 0, 0, 3, 65, 68, 83, 7, 101, 120, 97, 109, 112, 108, 101, 3, 99, 111, 109, 0, 0, 1, 0, 1]"

definition ads_message :: Message where
  "ads_message = \<lparr>msgHeader = \<lparr>ID = 9, Flags = 0x100, QDCount = 1, ANCount = 0, NSCount = 0, ARCount = 0\<rparr>,
     Questions = [\<lparr>qName = ''ADS.example.com'', qType = TypeA, qClass = ClassIN\<rparr>],
     Answers = [], Authority = [], Additional = [], msgEDNS0 = None, Raw = ads_query\<rparr>"

lemma ads_facts: "Unpack ads_query = Ret ads_message" "normalize ''ADS.example.com'' = ''ads.example.com''" "extractIP None = []"
  "\<not> QR (msgHeader ads_message)" "Opcode (msgHeader ads_message) = OpcodeQuery" "countOPT ads_message = 0"
  by code_simp+

lemma ads_name: "valid_name ''ADS.example.com''"
  by (simp add: valid_name_def valid_labels_def valid_label_def splitLabels_def TrimSuffix_def HasSuffix_def)

theorem blocked_domain_denied_witness:
  "\<exists>b m s'. Handle 1 (SetBlocklist (blocklistOf (BlockDomain ''ads.example.com'' (NewManager empty_config))) (NewMainHandler None))
       dead_resolver ads_query None sample_hstate = Some (Inr (Some b), s') \<and>
     Unpack b = Ret m \<and> RCODE (msgHeader m) = RCodeNXDomain \<and> Answers m = [] \<and> blockedQueries s' = 1"
proof -
  let ?q = "\<lparr>qName = ''ADS.example.com'', qType = TypeA, qClass = ClassIN\<rparr>"
  obtain s1 where "limiterAllow dead_resolver (extractIP None) sample_hstate = Some (True, s1)"
    by (simp add: limiterAllow_def sample_hstate_def bindH_def nowH_def liftR_def readIO_def)
  moreover have "admitted (NewMainHandler None) (extractIP None) ads_message ?q"
    using ads_facts(4-6) by (simp add: admitted_def ads_message_def NewMainHandler_def)
  moreover have "fst (blockedAnswer (mBlockingMode (NewManager empty_config)) (mCustomIP (NewManager empty_config)) ?q) = RCodeNXDomain"
    "snd (blockedAnswer (mBlockingMode (NewManager empty_config)) (mCustomIP (NewManager empty_config)) ?q) = []"
    by (simp_all add: blockedAnswer_def NewManager_def empty_config_def)
  moreover have "blockedQueries sample_hstate = 0" by (simp add: sample_hstate_def)
  ultimately show ?thesis
    using blocked_domain_denied [OF ads_facts(1), of "NewMainHandler None" None ?q dead_resolver sample_hstate s1 "''ads.example.com''" "NewManager empty_config" 1]
      ads_name ads_facts(2) sample_domain(1)
    by (auto simp: NewManager_def NewMatcher_def)
qed

section \<open>Reading a list\<close>

text \<open>A name as it may stand on a line of its own.\<close>

definition plain_domain :: "string \<Rightarrow> bool" where
  "plain_domain d \<longleftrightarrow> d \<noteq> [] \<and> length d < 65536 \<and> ToLower d = d \<and> (\<forall>c\<in>set d. \<not> isSpace c \<and> c \<noteq> CHR ''#'') \<and> hd d \<noteq> CHR ''!''"

lemma rawLines_lines: "\<forall>d\<in>set ds. newline \<notin> set d \<Longrightarrow> rawLines (concat (map (\<lambda>d. d @ [newline]) ds)) = ds"
proof -
  assume ds: "\<forall>d\<in>set ds. newline \<notin> set d"
  have "Split newline (concat (map (\<lambda>d. d @ [newline]) ds)) = ds @ [[]]"
    using ds by (induction ds) (simp_all add: Split_append_sep)
  then show ?thesis by (simp add: rawLines_def)
qed

lemma domainLine_plain:
  assumes "plain_domain d"
  shows "domainLine (dropCR d) = Some d"
proof -
  have space: "\<forall>c\<in>set d. \<not> isSpace c" using assms by (auto simp: plain_domain_def)
  have "isSpace (char_of (13 :: nat))" by code_simp
  with assms space have "dropCR d = d" by (metis dropCR_def last_in_set)
  moreover have "IndexByte d CHR ''#'' = None" using assms by (auto simp: IndexByte_None_iff plain_domain_def)
  moreover have "\<not> commentLine d" using assms by (cases d) (auto simp: commentLine_def plain_domain_def)
  ultimately show ?thesis using assms by (simp add: domainLine_def TrimSpace_plain [OF space] stripComment_def plain_domain_def)
qed

text \<open>
  A list of plain names, one on each line, is read back as it was written.
\<close>

theorem ParseDomainList_lines:
  assumes "\<And>d. d \<in> set ds \<Longrightarrow> plain_domain d"
  shows "ParseDomainList (concat (map (\<lambda>d. d @ [newline]) ds)) = ds"
proof -
  have nl: "isSpace newline" by code_simp
  with assms have "\<forall>d\<in>set ds. newline \<notin> set d" by (metis plain_domain_def)
  moreover have "takeWhile (\<lambda>l. length l < 65536) ds = ds" using assms by (auto simp: takeWhile_eq_all_conv plain_domain_def)
  ultimately have "scanLines (concat (map (\<lambda>d. d @ [newline]) ds)) = map dropCR ds" by (simp only: scanLines_def rawLines_lines)
  moreover have "List.map_filter domainLine (map dropCR ds) = ds"
    using assms by (induction ds) (simp_all add: map_filter_simps domainLine_plain)
  ultimately show ?thesis by (simp only: ParseDomainList_def)
qed

lemma plain_sample: "plain_domain ''ads.test''" "plain_domain ''b.test''"
  unfolding plain_domain_def ToLower_def lowerChar_def isSpace_def Let_def by simp_all

theorem ParseDomainList_lines_witness:
  "ParseDomainList (concat (map (\<lambda>d. d @ [newline]) [''ads.test'', ''b.test''])) = [''ads.test'', ''b.test'']"
proof (rule ParseDomainList_lines)
  fix d
  assume "d \<in> set [''ads.test'', ''b.test'']"
  then have "d = ''ads.test'' \<or> d = ''b.test''" by (simp only: list.set insert_iff empty_iff simp_thms)
  then show "plain_domain d" using plain_sample by (elim disjE) (simp_all only:)
qed

end
