(* ===== verification/Server_Listen.thy ===== *)
theory Server_Listen
  imports Server_Handler
begin

text \<open>
  The listeners of package \<open>server\<close> (\<open>tcp.go\<close>, \<open>dot.go\<close>, \<open>udp.go\<close>) and the client side of the same framing in
  \<open>resolver/upstream.go\<close>.  A listener is given the handler it calls as a parameter, as the code is given a \<open>Handler\<close>.

  A connection is the bytes the peer sends before it closes the connection or a deadline passes, and the number of
  bytes that can be written to it before a write fails.  Both are arbitrary, so every way a connection may break is covered.
  The accept loops and the semaphores that bound the number of goroutines are left out.
\<close>

type_synonym 's handler = "bytes \<Rightarrow> string option \<Rightarrow> 's \<Rightarrow> (reply \<times> 's) option"

section \<open>Connections\<close>

record Conn =
  input :: bytes
  writable :: nat
  sent :: bytes
  remote :: "string option"

text \<open>\<open>io.ReadFull\<close>.\<close>

definition readFull :: "nat \<Rightarrow> Conn \<Rightarrow> bytes option \<times> Conn" where
  "readFull n c =
     (if n \<le> length (input c) then (Some (take n (input c)), c\<lparr>input := drop n (input c)\<rparr>) else (None, c\<lparr>input := []\<rparr>))"

definition connWrite :: "bytes \<Rightarrow> Conn \<Rightarrow> bool \<times> Conn" where
  "connWrite p c = (length p \<le> writable c, c\<lparr>writable := writable c - length p, sent := sent c @ take (writable c) p\<rparr>)"

text \<open>How a goroutine ends: it returns, it panics and recovers, or its panic ends the process.\<close>

datatype 'a run = Completed 'a | Recovered Conn | Crashed

section \<open>TCP and TLS (tcp.go, dot.go)\<close>

text \<open>
  \<open>Panicked\<close> is the end of the loop for a handler whose value is \<open>None\<close>: one that panics, or one whose resolution does not return; in the second
  case the connection would hang and not be closed.
\<close>

datatype 's loopEnd = Return Conn 's | Panicked Conn

fun pipelineLoop :: "'s handler \<Rightarrow> nat \<Rightarrow> Conn \<Rightarrow> 's \<Rightarrow> 's loopEnd" where
  "pipelineLoop H 0 c s = Return c s"
| "pipelineLoop H (Suc i) c s =
     (case readFull 2 c of
        (None, c) \<Rightarrow> Return c s
      | (Some lb, c) \<Rightarrow>
          (let len = unat (be16 lb) in
           if len < 12 then Return c s
           else (case readFull len c of
                   (None, c) \<Rightarrow> Return c s
                 | (Some query, c) \<Rightarrow>
                     (case H query (remote c) s of
                        None \<Rightarrow> Panicked c
                      | Some (Inl err, s) \<Rightarrow> Return c s
                      | Some (Inr None, s) \<Rightarrow> Return c s
                      | Some (Inr (Some response), s) \<Rightarrow>
                          (case connWrite (putUint16 (of_nat (length response))) c of
                             (False, c) \<Rightarrow> Return c s
                           | (True, c) \<Rightarrow>
                               (case connWrite response c of
                                  (False, c) \<Rightarrow> Return c s
                                | (True, c) \<Rightarrow> pipelineLoop H i c s))))))"

definition handleTCP :: "'s handler \<Rightarrow> nat \<Rightarrow> Conn \<Rightarrow> 's \<Rightarrow> (Conn \<times> 's) run" where
  "handleTCP H pipelineMax c s =
     (case pipelineLoop H pipelineMax c s of Return c s \<Rightarrow> Completed (c, s) | Panicked c \<Rightarrow> Recovered c)"

text \<open>\<open>handleDoT\<close> has the same loop and no deferred \<open>recover\<close>.\<close>

definition handleDoT :: "'s handler \<Rightarrow> nat \<Rightarrow> Conn \<Rightarrow> 's \<Rightarrow> (Conn \<times> 's) run" where
  "handleDoT H pipelineMax c s =
     (case pipelineLoop H pipelineMax c s of Return c s \<Rightarrow> Completed (c, s) | Panicked c \<Rightarrow> Crashed)"

definition WithPipelineMax :: "int \<Rightarrow> nat \<Rightarrow> nat" where
  "WithPipelineMax n pipelineMax = (if 0 < n then nat n else pipelineMax)"

section \<open>UDP (udp.go)\<close>

text \<open>\<open>Serve\<close> reads into a pooled buffer of 4096 bytes; what does not fit of a datagram is lost.\<close>

definition readFrom :: "bytes \<Rightarrow> bytes" where
  "readFrom datagram = take 4096 datagram"

text \<open>The datagrams that \<open>handleUDP\<close> writes back.\<close>

definition handleUDP :: "'s handler \<Rightarrow> bytes \<Rightarrow> string option \<Rightarrow> 's \<Rightarrow> (bytes list \<times> 's) run" where
  "handleUDP H query clientAddr s =
     (case H query clientAddr s of
        None \<Rightarrow> Recovered \<lparr>input = [], writable = 0, sent = [], remote = clientAddr\<rparr>
      | Some (Inl err, s) \<Rightarrow> Completed ([], s)
      | Some (Inr None, s) \<Rightarrow> Completed ([], s)
      | Some (Inr (Some response), s) \<Rightarrow> Completed ([response], s))"

definition serveUDP :: "'s handler \<Rightarrow> bytes \<Rightarrow> string option \<Rightarrow> 's \<Rightarrow> (bytes list \<times> 's) run" where
  "serveUDP H datagram clientAddr s = handleUDP H (readFrom datagram) clientAddr s"

section \<open>The client of a TCP exchange (resolver/upstream.go)\<close>

text \<open>
  \<open>peer\<close> is what the server does with a connection: from the bytes written to it to the bytes that can be read from it.  The two
  writes of the query may fail.
\<close>

definition tcpFrame :: "bytes \<Rightarrow> bytes" where
  "tcpFrame m = putUint16 (of_nat (length m)) @ m"

definition queryTCP :: "(bytes \<Rightarrow> bytes) \<Rightarrow> nat \<Rightarrow> bytes \<Rightarrow> string + bytes" where
  "queryTCP peer k query =
     (case connWrite (putUint16 (of_nat (length query))) \<lparr>input = [], writable = k, sent = [], remote = None\<rparr> of
        (False, c) \<Rightarrow> Inl ''write''
      | (True, c) \<Rightarrow>
          (case connWrite query c of
             (False, c) \<Rightarrow> Inl ''write''
           | (True, c) \<Rightarrow>
               (case readFull 2 (c\<lparr>input := peer (sent c)\<rparr>) of
                  (None, c) \<Rightarrow> Inl ''read''
                | (Some lb, c) \<Rightarrow>
                    (case readFull (unat (be16 lb)) c of
                       (None, c) \<Rightarrow> Inl ''read''
                     | (Some resp, c) \<Rightarrow> Inr resp))))"

end
