(* ===== verification/Server_Listen_Properties.thy ===== *)
theory Server_Listen_Properties
  imports Server_Listen Server_Properties
begin

text \<open>
  Properties of the listeners.  What they need of a handler is the locale \<open>dns_handler\<close>; \<open>MainHandler.Handle\<close> is an
  instance of it.
\<close>

section \<open>Framing\<close>

lemma readFull_frame:
  assumes "input c = tcpFrame m @ rest" and "length m < 65536"
  shows "readFull 2 c = (Some (putUint16 (of_nat (length m))), c\<lparr>input := m @ rest\<rparr>)"
    and "readFull (unat (be16 (putUint16 (of_nat (length m))))) (c\<lparr>input := m @ rest\<rparr>) = (Some m, c\<lparr>input := rest\<rparr>)"
  using assms by (simp_all add: readFull_def tcpFrame_def unat_of_nat_u16)

lemma length_tcpFrame [simp]: "length (tcpFrame m) = length m + 2"
  by (simp add: tcpFrame_def)

lemma connWrite_fits: "length p \<le> writable c \<Longrightarrow> connWrite p c = (True, c\<lparr>writable := writable c - length p, sent := sent c @ p\<rparr>)"
  by (simp add: connWrite_def)

lemma connWrite_frame:
  assumes "length r + 2 \<le> writable c"
  shows "(case connWrite (putUint16 (of_nat (length r))) c of
            (False, c) \<Rightarrow> Return c s
          | (True, c) \<Rightarrow> (case connWrite r c of (False, c) \<Rightarrow> Return c s | (True, c) \<Rightarrow> L c)) =
         L (c\<lparr>writable := writable c - 2 - length r, sent := sent c @ tcpFrame r\<rparr>)"
  using assms by (simp add: connWrite_fits tcpFrame_def)

lemma pipelineLoop_frame:
  assumes "input c = tcpFrame q @ rest" and "12 \<le> length q" and "length q < 65536"
  shows "pipelineLoop H (Suc i) c s =
     (case H q (remote c) s of
        None \<Rightarrow> Panicked (c\<lparr>input := rest\<rparr>)
      | Some (Inl err, s) \<Rightarrow> Return (c\<lparr>input := rest\<rparr>) s
      | Some (Inr None, s) \<Rightarrow> Return (c\<lparr>input := rest\<rparr>) s
      | Some (Inr (Some r), s) \<Rightarrow>
          (case connWrite (putUint16 (of_nat (length r))) (c\<lparr>input := rest\<rparr>) of
             (False, c) \<Rightarrow> Return c s
           | (True, c) \<Rightarrow> (case connWrite r c of (False, c) \<Rightarrow> Return c s | (True, c) \<Rightarrow> pipelineLoop H i c s)))"
  using assms readFull_frame [OF assms(1,3)] by (simp add: Let_def unat_of_nat_u16)

section \<open>The interface of a handler\<close>

locale dns_handler =
  fixes H :: "'s handler" and ok :: "'s \<Rightarrow> bool"
  assumes answers: "length q \<le> 4096 \<Longrightarrow> ok s \<Longrightarrow> \<exists>r s'. H q addr s = Some (r, s') \<and> ok s'"
begin

lemma udp_completes:
  assumes "ok s"
  shows "\<exists>out s'. serveUDP H d addr s = Completed (out, s') \<and> ok s' \<and> length out \<le> 1"
proof -
  have "length (readFrom d) \<le> 4096" by (simp add: readFrom_def)
  from answers [OF this assms] obtain r s' where "H (readFrom d) addr s = Some (r, s')" "ok s'" by blast
  then show ?thesis by (auto simp: serveUDP_def handleUDP_def split: sum.split option.split)
qed

text \<open>A client that sends at most 4096 bytes cannot make a stream listener panic.\<close>

lemma short_stream_completes:
  "length (input c) \<le> 4096 \<Longrightarrow> ok s \<Longrightarrow> \<exists>c' s'. pipelineLoop H i c s = Return c' s' \<and> ok s'"
proof (induction i arbitrary: c s)
  case (Suc i)
  have next_turn: "\<exists>c' s'. pipelineLoop H i c1 s1 = Return c' s' \<and> ok s'"
    if "ok s1" "length (input c1) \<le> length (input c)" for c1 s1
    using Suc.IH [OF _ that(1)] that(2) Suc.prems(1) by simp
  show ?case
  proof (cases "2 \<le> length (input c) \<and> 12 \<le> unat (be16 (take 2 (input c))) \<and> unat (be16 (take 2 (input c))) + 2 \<le> length (input c)")
    case True
    let ?c = "c\<lparr>input := drop (unat (be16 (take 2 (input c)))) (drop 2 (input c))\<rparr>"
    let ?q = "take (unat (be16 (take 2 (input c)))) (drop 2 (input c))"
    have "length ?q \<le> 4096" using Suc.prems(1) by simp
    from answers [OF this Suc.prems(2)] obtain r s1 where r: "H ?q (remote c) s = Some (r, s1)" "ok s1" by blast
    have "2 \<le> length (input c)" "unat (be16 (take 2 (input c))) \<le> length (input c) - 2" "\<not> unat (be16 (take 2 (input c))) < 12"
      using True by auto
    then have "pipelineLoop H (Suc i) c s = (case r of Inl e \<Rightarrow> Return ?c s1 | Inr None \<Rightarrow> Return ?c s1
        | Inr (Some resp) \<Rightarrow> (case connWrite (putUint16 (of_nat (length resp))) ?c of (False, c) \<Rightarrow> Return c s1
            | (True, c) \<Rightarrow> (case connWrite resp c of (False, c) \<Rightarrow> Return c s1 | (True, c) \<Rightarrow> pipelineLoop H i c s1)))"
      using r(1) by (simp add: readFull_def Let_def del: be_put split: sum.split option.split)
    then show ?thesis using r(2) by (auto simp: connWrite_def split: sum.split option.split bool.split intro!: next_turn)
  next
    case False
    then have "pipelineLoop H (Suc i) c s \<in> {Return (c\<lparr>input := []\<rparr>) s, Return (c\<lparr>input := drop 2 (input c)\<rparr>) s}"
      by (auto simp: readFull_def Let_def)
    with Suc.prems(2) show ?thesis by auto
  qed
qed simp

end

interpretation handler: dns_handler "Handle n h R" "\<lambda>s. resolves n R \<and> cache_inv (rsCache (rstate s))" for n h R
proof
  fix q :: bytes and addr and s :: HState
  assume "length q \<le> 4096" "resolves n R \<and> cache_inv (rsCache (rstate s))"
  then show "\<exists>r s'. Handle n h R q addr s = Some (r, s') \<and> resolves n R \<and> cache_inv (rsCache (rstate s'))"
    using runs_Handle by (auto simp: runs_def)
qed

section \<open>Datagrams\<close>

text \<open>
  C27. No datagram stops the UDP listener: whatever its bytes and its length, the handler returns, at most one datagram is
  sent back and the cache stays sound, if the resolver returns.
\<close>

theorem udp_survives:
  assumes "resolves n R" and "cache_inv (rsCache (rstate s))"
  shows "\<exists>out s'. serveUDP (Handle n h R) d addr s = Completed (out, s') \<and> length out \<le> 1 \<and> cache_inv (rsCache (rstate s'))"
  using handler.udp_completes [of n R s h d addr] assms by blast

theorem udp_survives_witness:
  "\<exists>out s'. serveUDP (Handle 1 (NewMainHandler None) dead_resolver) (replicate 9000 0) None sample_hstate = Completed (out, s') \<and> length out \<le> 1"
  using udp_survives [OF dead_resolves sample_hstate_inv] by blast

section \<open>Streams\<close>

text \<open>
  C28. A query of 5132 bytes that arrives over TLS ends the process: the handler panics and \<open>handleDoT\<close> does not
  recover, for every handler, state and client.  Over TCP the same query only closes the connection.
\<close>

theorem dot_query_crashes:
  "handleDoT (Handle n h R) (Suc p) \<lparr>input = tcpFrame long_query @ rest, writable = k, sent = out, remote = addr\<rparr> s = Crashed \<and>
   handleTCP (Handle n h R) (Suc p) \<lparr>input = tcpFrame long_query @ rest, writable = k, sent = out, remote = addr\<rparr> s =
     Recovered \<lparr>input = rest, writable = k, sent = out, remote = addr\<rparr>"
  unfolding handleDoT_def handleTCP_def
  by (subst (1 2) pipelineLoop_frame [where q = long_query and rest = rest]) (simp_all add: length_long_query long_query_panics)

text \<open>The replies to a sequence of queries, where the handler replies to each.\<close>

fun repliesTo :: "'s handler \<Rightarrow> string option \<Rightarrow> bytes list \<Rightarrow> 's \<Rightarrow> (bytes list \<times> 's) option" where
  "repliesTo H addr [] s = Some ([], s)"
| "repliesTo H addr (q # qs) s =
     (case H q addr s of
        Some (Inr (Some r), s) \<Rightarrow> map_option (\<lambda>(rs, s). (r # rs, s)) (repliesTo H addr qs s)
      | _ \<Rightarrow> None)"

lemma pipelineLoop_frames:
  assumes "length qs \<le> i" and "\<forall>q\<in>set qs. 12 \<le> length q \<and> length q < 65536"
    and "repliesTo H (remote c) qs s = Some (rs, s')" and "\<forall>r\<in>set rs. length r < 65536"
    and "input c = concat (map tcpFrame qs)" and "length (concat (map tcpFrame rs)) \<le> writable c"
  shows "\<exists>c'. pipelineLoop H i c s = Return c' s' \<and> sent c' = sent c @ concat (map tcpFrame rs)"
  using assms
proof (induction qs arbitrary: i c s rs)
  case Nil
  then show ?case by (cases i) (auto simp: readFull_def)
next
  case (Cons q qs)
  then obtain j where i: "i = Suc j" by (cases i) auto
  from Cons.prems(3) obtain r s1 rs1 where r: "H q (remote c) s = Some (Inr (Some r), s1)"
    and rs1: "repliesTo H (remote c) qs s1 = Some (rs1, s')" and rs: "rs = r # rs1"
    by (auto split: option.splits sum.splits)
  let ?c = "c\<lparr>input := concat (map tcpFrame qs), writable := writable c - 2 - length r, sent := sent c @ tcpFrame r\<rparr>"
  have "pipelineLoop H i c s = pipelineLoop H j ?c s1"
    using Cons.prems(2,5,6) r unfolding i rs
    by (subst pipelineLoop_frame [where q = q and rest = "concat (map tcpFrame qs)"]) (simp_all add: connWrite_frame)
  moreover have "\<exists>c'. pipelineLoop H j ?c s1 = Return c' s' \<and> sent c' = sent ?c @ concat (map tcpFrame rs1)"
    by (rule Cons.IH) (use Cons.prems rs1 in \<open>auto simp: i rs\<close>)
  ultimately show ?case by (simp add: rs)
qed

text \<open>
  C29. Pipelining: a client that sends up to \<open>pipelineMax\<close> queries in one stream gets the replies that the handler gives to them one
  after another, each with its length in front, in the order of the queries and with nothing between them.
\<close>

theorem tcp_pipeline:
  assumes "length qs \<le> pipelineMax" and "\<forall>q\<in>set qs. 12 \<le> length q \<and> length q < 65536"
    and "repliesTo H addr qs s = Some (rs, s')" and "\<forall>r\<in>set rs. length r < 65536"
    and "length (concat (map tcpFrame rs)) \<le> k"
  shows "\<exists>c. handleTCP H pipelineMax \<lparr>input = concat (map tcpFrame qs), writable = k, sent = [], remote = addr\<rparr> s = Completed (c, s') \<and>
             sent c = concat (map tcpFrame rs)"
  using pipelineLoop_frames [of qs pipelineMax H "\<lparr>input = concat (map tcpFrame qs), writable = k, sent = [], remote = addr\<rparr>" s rs s'] assms
  by (auto simp: handleTCP_def)

text \<open>A handler that sends every query back, and counts the queries.\<close>

definition echo :: "nat handler" where
  "echo q addr s = Some (Inr (Some q), s + 1)"

theorem tcp_pipeline_witness:
  "\<exists>c. handleTCP echo 100 \<lparr>input = concat (map tcpFrame [replicate 12 1, replicate 13 2]), writable = 29, sent = [], remote = None\<rparr> 0 = Completed (c, 2) \<and>
       sent c = concat (map tcpFrame [replicate 12 1, replicate 13 2])"
  by (rule tcp_pipeline) (simp_all add: echo_def)

text \<open>What the peer of a TCP exchange reads when the server runs this handler.\<close>

definition tcpServer :: "'s handler \<Rightarrow> nat \<Rightarrow> nat \<Rightarrow> string option \<Rightarrow> 's \<Rightarrow> bytes \<Rightarrow> bytes" where
  "tcpServer H pipelineMax k addr s w =
     (case handleTCP H pipelineMax \<lparr>input = w, writable = k, sent = [], remote = addr\<rparr> s of
        Completed (c, _) \<Rightarrow> sent c | Recovered c \<Rightarrow> sent c | Crashed \<Rightarrow> [])"

text \<open>
  The two ends of the framing agree: \<open>queryTCP\<close> of a resolver that talks to this server gets exactly the reply of the
  handler to its query.
\<close>

theorem queryTCP_handleTCP:
  assumes "12 \<le> length q" and "length q < 65536" and "H q addr s = Some (Inr (Some r), s')" and "length r < 65536"
    and "length q + 2 \<le> m" and "length r + 2 \<le> k"
  shows "queryTCP (tcpServer H (Suc p) k addr s) m q = Inr r"
proof -
  let ?c = "\<lparr>input = tcpFrame q, writable = k, sent = [], remote = addr\<rparr>"
  have "pipelineLoop H (Suc p) ?c s = pipelineLoop H p \<lparr>input = [], writable = k - 2 - length r, sent = tcpFrame r, remote = addr\<rparr> s'"
    using assms by (subst pipelineLoop_frame [where q = q and rest = "[]"]) (simp_all add: connWrite_frame)
  moreover have "\<exists>c'. pipelineLoop H p c s = Return c' s \<and> sent c' = sent c" if "input c = []" for c and s :: 'a
    using that by (cases p) (simp_all add: readFull_def)
  ultimately have "\<exists>c'. handleTCP H (Suc p) ?c s = Completed (c', s') \<and> sent c' = tcpFrame r"
    by (metis (no_types, lifting) Conn.select_convs(1,3) handleTCP_def loopEnd.simps(5))
  then have "tcpServer H (Suc p) k addr s (putUint16 (word_of_nat (length q)) @ q) = tcpFrame r"
    by (auto simp: tcpServer_def tcpFrame_def)
  moreover have "length (putUint16 (word_of_nat (length r))) = 2" by simp
  ultimately show ?thesis using assms(2,4,5)
    by (simp add: queryTCP_def connWrite_fits readFull_def unat_of_nat_u16 tcpFrame_def)
qed

theorem queryTCP_handleTCP_witness: "queryTCP (tcpServer echo (Suc 0) 14 None 0) 14 (replicate 12 1) = Inr (replicate 12 1)"
  by (rule queryTCP_handleTCP) (simp_all add: echo_def)

end
