(* ===== verification/Base64.thy ===== *)
theory Base64
  imports Prelude
begin

text \<open>
  \<open>base64.RawURLEncoding\<close> of the Go library: the URL alphabet without padding.  The decoder skips line breaks and
  ignores the bits after the last byte, as the library does outside its strict mode.
\<close>

definition b64Char :: "nat \<Rightarrow> char" where
  "b64Char n =
     (if n < 26 then char_of (65 + n)
      else if n < 52 then char_of (71 + n)
      else if n < 62 then char_of (n - 4)
      else if n = 62 then CHR ''-'' else CHR ''_'')"

definition b64Val :: "char \<Rightarrow> nat option" where
  "b64Val c =
     (let n = (of_char c :: nat) in
      if 65 \<le> n \<and> n \<le> 90 then Some (n - 65)
      else if 97 \<le> n \<and> n \<le> 122 then Some (n - 71)
      else if 48 \<le> n \<and> n \<le> 57 then Some (n + 4)
      else if c = CHR ''-'' then Some 62
      else if c = CHR ''_'' then Some 63
      else None)"

fun b64Groups :: "bytes \<Rightarrow> nat list" where
  "b64Groups [] = []"
| "b64Groups [a] = [unat a div 4, (unat a mod 4) * 16]"
| "b64Groups [a, b] = [unat a div 4, (unat a mod 4) * 16 + unat b div 16, (unat b mod 16) * 4]"
| "b64Groups (a # b # c # rest) =
     unat a div 4 # ((unat a mod 4) * 16 + unat b div 16) # ((unat b mod 16) * 4 + unat c div 64) # (unat c mod 64) # b64Groups rest"

definition b64Encode :: "bytes \<Rightarrow> string" where
  "b64Encode bs = map b64Char (b64Groups bs)"

text \<open>A single digit at the end is an error.\<close>

fun b64Bytes :: "nat list \<Rightarrow> bytes option" where
  "b64Bytes [] = Some []"
| "b64Bytes [w] = None"
| "b64Bytes [w, x] = Some [of_nat (w * 4 + x div 16)]"
| "b64Bytes [w, x, y] = Some [of_nat (w * 4 + x div 16), of_nat ((x mod 16) * 16 + y div 4)]"
| "b64Bytes (w # x # y # z # rest) =
     map_option (\<lambda>bs. of_nat (w * 4 + x div 16) # of_nat ((x mod 16) * 16 + y div 4) # of_nat ((y mod 4) * 64 + z) # bs) (b64Bytes rest)"

definition isLineBreak :: "char \<Rightarrow> bool" where
  "isLineBreak c \<longleftrightarrow> c = char_of (10 :: nat) \<or> c = char_of (13 :: nat)"

definition b64Decode :: "string \<Rightarrow> bytes option" where
  "b64Decode s =
     (let cs = filter (\<lambda>c. \<not> isLineBreak c) s in
      if list_all (\<lambda>c. b64Val c \<noteq> None) cs then b64Bytes (map (the \<circ> b64Val) cs) else None)"

section \<open>Round trip\<close>

lemma b64Val_Char: "n < 64 \<Longrightarrow> b64Val (b64Char n) = Some n"
  by (auto simp: b64Val_def b64Char_def Let_def)

lemma b64Char_not_break: "\<not> isLineBreak (b64Char n)"
proof -
  have "of_char (b64Char n) \<noteq> (10 :: nat) \<and> of_char (b64Char n) \<noteq> (13 :: nat)"
    by (auto simp: b64Char_def)
  then show ?thesis by (auto simp: isLineBreak_def)
qed

lemma digit_bounds:
  fixes a :: u8
  shows "unat a div 4 < 64" "unat a div 16 < 16" "unat a div 64 < 4" "unat a mod 4 < 4" "unat a mod 16 < 16" "unat a mod 64 < 64"
proof -
  have "unat a < 256" using unsigned_less [of a] by simp
  then show "unat a div 4 < 64" "unat a div 16 < 16" "unat a div 64 < 4" by (simp_all add: less_mult_imp_div_less)
qed simp_all

lemma digit_parts:
  "y < 16 \<Longrightarrow> (x * 16 + y) div 16 = (x :: nat)" "y < 16 \<Longrightarrow> (x * 16 + y) mod 16 = y"
  "y < 4 \<Longrightarrow> (x * 4 + y) div 4 = x" "y < 4 \<Longrightarrow> (x * 4 + y) mod 4 = y"
  by simp_all

lemma digit_join:
  fixes a :: u8
  shows "of_nat (unat a div 4 * 4 + unat a mod 4) = a" "of_nat (unat a div 16 * 16 + unat a mod 16) = a"
    "of_nat (unat a div 64 * 64 + unat a mod 64) = a"
  unfolding div_mult_mod_eq by simp_all

lemma digit_sums:
  "x < 4 \<Longrightarrow> y < 16 \<Longrightarrow> x * 16 + y < (64 :: nat)" "x < 16 \<Longrightarrow> y < 4 \<Longrightarrow> x * 4 + y < (64 :: nat)"
  by linarith+

lemma b64Groups_less: "list_all (\<lambda>n. n < 64) (b64Groups bs)"
proof (induction bs rule: b64Groups.induct)
  case (2 a)
  show ?case using digit_sums(1) [OF digit_bounds(4) [of a], of 0] by (simp add: digit_bounds)
next
  case (3 a b)
  show ?case using digit_sums(2) [OF digit_bounds(5) [of b], of 0] by (simp add: digit_bounds digit_sums)
qed (simp_all add: digit_bounds digit_sums)

lemma b64Bytes_Groups: "b64Bytes (b64Groups bs) = Some bs"
proof (induction bs rule: b64Groups.induct)
  case (2 a)
  show ?case using digit_parts(1) [of 0 "unat a mod 4"] by (simp add: digit_join)
next
  case (3 a b)
  show ?case using digit_parts(3) [of 0 "unat b mod 16"] by (simp add: digit_bounds digit_parts digit_join)
next
  case (4 a b c rest)
  then show ?case by (simp only: b64Groups.simps b64Bytes.simps option.map digit_bounds digit_parts digit_join)
qed simp

lemma b64Decode_Encode: "b64Decode (b64Encode bs) = Some bs"
proof -
  have f: "filter (\<lambda>c. \<not> isLineBreak c) (b64Encode bs) = b64Encode bs"
    by (simp add: b64Encode_def b64Char_not_break filter_id_conv)
  have v: "\<forall>n\<in>set (b64Groups bs). b64Val (b64Char n) = Some n"
    using b64Groups_less [of bs] by (auto simp: list_all_iff b64Val_Char)
  then have "list_all (\<lambda>c. b64Val c \<noteq> None) (b64Encode bs)" by (simp add: b64Encode_def list_all_iff)
  moreover have "map (the \<circ> b64Val) (b64Encode bs) = b64Groups bs"
    using v by (simp add: b64Encode_def map_idI)
  ultimately show ?thesis unfolding b64Decode_def f Let_def by (simp add: b64Bytes_Groups)
qed

end
