(* ===== verification/Web_Doh.thy ===== *)
theory Web_Doh
  imports Base64 Server_Listen
begin

text \<open>
  DNS over HTTPS (\<open>web/api_doh.go\<close>).  A request is the parts of \<open>http.Request\<close> that the code reads: the method, the
  decoded query parameter \<open>dns\<close>, the content type, the body (\<open>None\<close> when reading it fails) and the remote address.
\<close>

record DohRequest =
  reqMethod :: string
  dnsParam :: string
  contentType :: string
  reqBody :: "bytes option"
  RemoteAddr :: string

record HttpResponse =
  status :: nat
  maxAge :: "u32 option"
  respBody :: bytes

definition httpError :: "string \<Rightarrow> nat \<Rightarrow> HttpResponse" where
  "httpError text code = \<lparr>status = code, maxAge = None, respBody = bytes_of text @ [10]\<rparr>"

section \<open>The query\<close>

datatype doh_error = UnsupportedMediaType string | BadRequest string

definition dohDecodeGet :: "DohRequest \<Rightarrow> doh_error + bytes" where
  "dohDecodeGet r =
     (if dnsParam r = [] then Inl (BadRequest ''missing 'dns' query parameter'')
      else (case b64Decode (dnsParam r) of
              None \<Rightarrow> Inl (BadRequest ''invalid base64url encoding'')
            | Some query \<Rightarrow> Inr query))"

definition dohDecodePost :: "DohRequest \<Rightarrow> doh_error + bytes" where
  "dohDecodePost r =
     (if contentType r \<noteq> ''application/dns-message'' then Inl (UnsupportedMediaType (contentType r))
      else (case reqBody r of
              None \<Rightarrow> Inl (BadRequest ''failed to read request body'')
            | Some body \<Rightarrow> Inr (take 65536 body)))"

section \<open>The client's address\<close>

definition portOf :: "string \<Rightarrow> string" where
  "portOf hp = rev (takeWhile (\<lambda>c. c \<noteq> CHR '':'') (rev hp))"

definition JoinHostPort :: "string \<Rightarrow> string \<Rightarrow> string" where
  "JoinHostPort host port =
     (if Contains host (CHR '':'') then ''['' @ host @ '']:'' @ port else host @ '':'' @ port)"

text \<open>
  \<open>net.TCPAddr\<close> as its \<open>String\<close>.  An address that does not parse becomes 127.0.0.1, port 0.  The port of a remote
  address is decimal; what \<open>Sscanf\<close> reads of it are its leading digits.
\<close>

definition dohClientAddr :: "DohRequest \<Rightarrow> string" where
  "dohClientAddr r =
     (let (host, port) = (case SplitHostPort (RemoteAddr r) of
                            Some host \<Rightarrow> (host, portOf (RemoteAddr r))
                          | None \<Rightarrow> (RemoteAddr r, ''0'')) in
      case ParseIP host of
        None \<Rightarrow> JoinHostPort ''127.0.0.1'' ''0''
      | Some ip \<Rightarrow> JoinHostPort (IP_String ip) (showNat (decimal (takeWhile isDigit port))))"

section \<open>The minimum TTL\<close>

text \<open>\<open>None\<close> for the offset -1.\<close>

function skipDNSName :: "bytes \<Rightarrow> nat \<Rightarrow> nat option" where
  "skipDNSName buf offset =
     (if length buf \<le> offset then None
      else (let len = buf ! offset in
            if len = 0 then Some (offset + 1)
            else if len AND 0xC0 = 0xC0 then Some (offset + 2)
            else skipDNSName buf (offset + 1 + unat len)))"
  by pat_completeness auto
termination
  by (relation "measure (\<lambda>(buf, offset). length buf - offset)") auto

declare skipDNSName.simps [simp del]

fun dohQuestions :: "bytes \<Rightarrow> nat \<Rightarrow> nat \<Rightarrow> nat option" where
  "dohQuestions response 0 offset = Some offset"
| "dohQuestions response (Suc k) offset =
     (case skipDNSName response offset of
        None \<Rightarrow> None
      | Some offset \<Rightarrow> if length response < offset + 4 then None else dohQuestions response k (offset + 4))"

text \<open>One turn of the loop over the answers: the TTL and the end of the record, \<open>None\<close> for \<open>break\<close>.\<close>

definition dohRecord :: "bytes \<Rightarrow> nat \<Rightarrow> (u32 \<times> nat) option" where
  "dohRecord response offset =
     (case skipDNSName response offset of
        None \<Rightarrow> None
      | Some offset \<Rightarrow>
          if length response < offset + 10 then None
          else (let ttl = be32 (take 4 (drop (offset + 4) response));
                    rdlen = be16 (take 2 (drop (offset + 8) response));
                    offset = offset + 10 + unat rdlen in
                if length response < offset then None else Some (ttl, offset)))"

fun dohAnswers :: "bytes \<Rightarrow> nat \<Rightarrow> nat \<Rightarrow> u32 \<Rightarrow> bool \<Rightarrow> u32" where
  "dohAnswers response 0 offset m first = m"
| "dohAnswers response (Suc k) offset m first =
     (case dohRecord response offset of
        None \<Rightarrow> m
      | Some (ttl, offset) \<Rightarrow>
          if first \<or> ttl < m then dohAnswers response k offset ttl False
          else dohAnswers response k offset m first)"

definition dohMinTTL :: "bytes \<Rightarrow> u32" where
  "dohMinTTL response =
     (if length response < 12 then 0
      else (let anCount = be16 (take 2 (drop 6 response)) in
            if anCount = 0 then 0
            else (let qdCount = be16 (take 2 (drop 4 response)) in
                  case dohQuestions response (unat qdCount) 12 of
                    None \<Rightarrow> 0
                  | Some offset \<Rightarrow> dohAnswers response (unat anCount) offset 0 True)))"

section \<open>The endpoint\<close>

text \<open>
  \<open>dohHandler\<close> is \<open>None\<close> when DNS over HTTPS is off.  The HTTP server of the library recovers from a panic of the handler and
  closes the connection; this is the result \<open>None\<close>.
\<close>

definition handleDoH :: "'s handler option \<Rightarrow> DohRequest \<Rightarrow> 's \<Rightarrow> (HttpResponse \<times> 's) option" where
  "handleDoH dohHandler r s =
     (case dohHandler of
        None \<Rightarrow> Some (httpError ''DoH not enabled'' 404, s)
      | Some H \<Rightarrow>
          if reqMethod r \<noteq> ''GET'' \<and> reqMethod r \<noteq> ''POST'' then Some (httpError ''method not allowed'' 405, s)
          else (case (if reqMethod r = ''GET'' then dohDecodeGet r else dohDecodePost r) of
                  Inl (UnsupportedMediaType ct) \<Rightarrow> Some (httpError (''unsupported content type: '' @ ct) 415, s)
                | Inl (BadRequest e) \<Rightarrow> Some (httpError e 400, s)
                | Inr query \<Rightarrow>
                    if length query < 12 then Some (httpError ''dns message too short'' 400, s)
                    else (case H query (Some (dohClientAddr r)) s of
                            None \<Rightarrow> None
                          | Some (Inl e, s) \<Rightarrow> Some (httpError ''internal server error'' 500, s)
                          | Some (Inr None, s) \<Rightarrow> Some (httpError ''no response'' 500, s)
                          | Some (Inr (Some response), s) \<Rightarrow>
                              Some (\<lparr>status = 200, maxAge = Some (dohMinTTL response), respBody = response\<rparr>, s))))"

end
