(* ===== verification/Web_Doh_Properties.thy ===== *)
theory Web_Doh_Properties
  imports Web_Doh Server_Listen_Properties
begin

text \<open>
  Properties of the HTTPS endpoint: the lifetime it gives to a reply is that of its answers, and the client gets the reply of
  the handler.
\<close>

lemma skipDNSName_name_at: "name_at msg off ls k e \<Longrightarrow> skipDNSName msg off = Some e"
proof (induction rule: name_at.induct)
  case (root off msg)
  then show ?case by (subst skipDNSName.simps) simp
next
  case (label off msg l ls k e)
  have "msg ! off AND 0xC0 \<noteq> 0xC0" by (rule label_byte_small) (simp add: label.hyps)
  moreover have "msg ! off \<noteq> 0" using label.hyps(2,3) by auto
  ultimately show ?case using label.hyps(1,2) label.IH by (subst skipDNSName.simps) (simp add: Let_def)
next
  case (pointer off msg ls k e')
  then have "msg ! off \<noteq> 0" by auto
  with pointer show ?case by (subst skipDNSName.simps) (simp add: Let_def)
qed

lemma skipDNSName_DecodeName: "DecodeName msg off = Ret (s, e) \<Longrightarrow> skipDNSName msg off = Some e"
  by (auto simp: DecodeName_iff skipDNSName_name_at)

lemma be_at:
  "i + 2 \<le> length b \<Longrightarrow> be16 (take 2 (drop i b)) = getUint16 (b ! i) (b ! (i + 1))"
  "i + 4 \<le> length b \<Longrightarrow> be32 (take 4 (drop i b)) = getUint32 (b ! i) (b ! (i + 1)) (b ! (i + 2)) (b ! (i + 3))"
  by (simp_all add: numeral_eq_Suc take_Suc_conv_app_nth Cons_nth_drop_Suc [symmetric])

lemma dohRecord_UnpackRR: "UnpackRR msg off = Ret (rr, e) \<Longrightarrow> dohRecord msg off = Some (rrTTL rr, e)"
  by (auto simp: UnpackRR_def dohRecord_def outcome_simps read_Ret_iff remaining_less_uint Let_def be_at add.assoc
      dest!: skipDNSName_DecodeName split: if_splits)
    (simp_all add: numeral_eq_Suc)

lemma dohQuestions_unpack: "unpackQuestions buf off n = Ret (qs, e) \<Longrightarrow> dohQuestions buf n off = Some e"
proof (induction n arbitrary: off qs)
  case (Suc n)
  then obtain q o1 qs' where q: "UnpackQuestion buf off = Ret (q, o1)" and qs: "unpackQuestions buf o1 n = Ret (qs', e)"
    by (auto simp: outcome_simps split: prod.splits)
  from q have "\<exists>o2. skipDNSName buf off = Some o2 \<and> o1 = o2 + 4 \<and> o1 \<le> length buf"
    by (auto simp: UnpackQuestion_def outcome_simps read_Ret_iff dest!: skipDNSName_DecodeName)
  with Suc.IH [OF qs] show ?case by auto
qed simp

lemma Min_insert_min: "finite S \<Longrightarrow> Min (insert (min a m) S) = Min (insert m (insert a S))"
  for a :: "'a :: linorder"
  by (cases "S = {}") (simp_all add: min.left_commute min.assoc min.commute)

lemma dohAnswers_unpack:
  "unpackRRs buf off n = Ret (rrs, e) \<Longrightarrow> dohAnswers buf n off m False = Min (insert m (rrTTL ` set rrs))"
proof (induction n arbitrary: off rrs m)
  case (Suc n)
  then obtain rr o1 rrs' where rr: "UnpackRR buf off = Ret (rr, o1)" and rest: "unpackRRs buf o1 n = Ret (rrs', e)"
    and rrs: "rrs = rr # rrs'"
    by (auto simp: outcome_simps split: prod.splits)
  have "dohAnswers buf (Suc n) off m False = Min (insert (min (rrTTL rr) m) (rrTTL ` set rrs'))"
    using Suc.IH [OF rest] by (cases "rrTTL rr < m") (simp_all add: dohRecord_UnpackRR [OF rr] min_absorb1 min_absorb2 del: Min_insert)
  also have "\<dots> = Min (insert m (rrTTL ` set rrs))"
    by (simp only: rrs Min_insert_min finite_imageI finite_set list.simps(15) image_insert)
  finally show ?case .
qed auto

lemma Unpack_answers:
  assumes "Unpack query = Ret msg"
  shows "\<exists>k e. unpackQuestions query 12 (unat (QDCount (msgHeader msg))) = Ret (Questions msg, k) \<and>
     unpackRRs query k (unat (ANCount (msgHeader msg))) = Ret (Answers msg, e)"
proof -
  note q = Unpack_header [OF assms]
  have "Header_Unpack (newWireReader query) = Ret (msgHeader msg, (newWireReader query)\<lparr>roffset := 12\<rparr>)"
    by (rule Header_Unpack_header_bytes [where post = "drop 12 query"]) (use q(1) in \<open>simp_all add: newWireReader_def\<close>)
  with assms show ?thesis by (cases msg) (auto simp: Unpack_def outcome_simps newWireReader_def split: if_splits)
qed

lemma header_counts:
  assumes "query = header_bytes h @ rest"
  shows "be16 (take 2 (drop 4 query)) = QDCount h" "be16 (take 2 (drop 6 query)) = ANCount h"
  by (simp_all add: assms header_bytes_def putUint16_def get_putUint16)

lemma dohMinTTL_lemma:
  assumes "Unpack response = Ret msg"
  shows "dohMinTTL response = (if Answers msg = [] then 0 else Min (rrTTL ` set (Answers msg)))"
proof -
  obtain k e where k: "unpackQuestions response 12 (unat (QDCount (msgHeader msg))) = Ret (Questions msg, k)"
    and e: "unpackRRs response k (unat (ANCount (msgHeader msg))) = Ret (Answers msg, e)"
    using Unpack_answers [OF assms] by blast
  note counts = header_counts [OF Unpack_header(1) [OF assms]]
  have len: "\<not> length response < 12" using Unpack_header(2) [OF assms] by simp
  show ?thesis
  proof (cases "Answers msg")
    case Nil
    then have "ANCount (msgHeader msg) = 0" using unpackRRs_Ret [OF e] by (simp add: unat_eq_0)
    then show ?thesis using Nil by (simp add: dohMinTTL_def counts Let_def)
  next
    case (Cons rr rrs)
    then obtain n where n: "unat (ANCount (msgHeader msg)) = Suc n" using unpackRRs_Ret [OF e] by (metis length_Cons)
    then have "ANCount (msgHeader msg) \<noteq> 0" by auto
    then have "dohMinTTL response = dohAnswers response (Suc n) k 0 True"
      using len by (simp add: dohMinTTL_def counts Let_def dohQuestions_unpack [OF k] n)
    moreover obtain o1 where "UnpackRR response k = Ret (rr, o1)" "unpackRRs response o1 n = Ret (rrs, e)"
      using e n Cons by (auto simp: outcome_simps split: prod.splits)
    ultimately show ?thesis using Cons by (simp add: dohRecord_UnpackRR dohAnswers_unpack)
  qed
qed

text \<open>
  The lifetime of a reply: for every message that parses, \<open>dohMinTTL\<close>, which walks over the bytes without parsing
  them, gives the least TTL of the answer records, and 0 where there is none.
\<close>

theorem dohMinTTL_Min:
  assumes "Unpack response = Ret msg"
  shows "dohMinTTL response = (if Answers msg = [] then 0 else Min (rrTTL ` set (Answers msg)))"
  using assms by (rule dohMinTTL_lemma)

text \<open>A reply with two addresses of the root, for 60 and for 5 seconds.\<close>

definition ttl_reply :: bytes where
  "ttl_reply = [0, 7, 0x84, 0, 0, 0, 0, 2, 0, 0, 0, 0,
     0, 0, 1, 0, 1, 0, 0, 0, 60, 0, 4, 1, 2, 3, 4, 0, 0, 1, 0, 1, 0, 0, 0, 5, 0, 4, 1, 2, 3, 5]"

definition root_address :: "u32 \<Rightarrow> u8 \<Rightarrow> nat \<Rightarrow> ResourceRecord" where
  "root_address ttl b off = \<lparr>rrName = [], rrType = 1, rrClass = 1, rrTTL = ttl, rrRDLength = 4, rrRData = [1, 2, 3, b], rrRDataOffset = off\<rparr>"

definition ttl_message :: Message where
  "ttl_message = \<lparr>msgHeader = \<lparr>ID = 7, Flags = 0x8400, QDCount = 0, ANCount = 2, NSCount = 0, ARCount = 0\<rparr>,
     Questions = [], Answers = [root_address 60 4 23, root_address 5 5 38], Authority = [], Additional = [], msgEDNS0 = None, Raw = ttl_reply\<rparr>"

lemma ttl_unpacks: "Unpack ttl_reply = Ret ttl_message"
  by code_simp

theorem dohMinTTL_Min_witness: "dohMinTTL ttl_reply = 5"
  using dohMinTTL_Min [OF ttl_unpacks] by (simp add: ttl_message_def root_address_def)

text \<open>
  C31. A client that sends a query by GET, encoded in base64, gets the reply of the handler to exactly that query, with the lifetime of the
  answers, and the handler sees the client's address.
\<close>

theorem doh_get:
  assumes "12 \<le> length q" and "H q (Some (dohClientAddr r)) s = Some (Inr (Some resp), s')" and "Unpack resp = Ret msg"
  shows "handleDoH (Some H) (r\<lparr>reqMethod := ''GET'', dnsParam := b64Encode q\<rparr>) s =
     Some (\<lparr>status = 200, maxAge = Some (if Answers msg = [] then 0 else Min (rrTTL ` set (Answers msg))), respBody = resp\<rparr>, s')"
proof -
  have "b64Encode q \<noteq> []" using assms(1) by (cases q rule: b64Groups.cases) (auto simp: b64Encode_def)
  moreover have addr: "RemoteAddr (r\<lparr>reqMethod := m, dnsParam := p\<rparr>) = RemoteAddr r" for m p by simp
  have "dohClientAddr (r\<lparr>reqMethod := m, dnsParam := p\<rparr>) = dohClientAddr r" for m p
    unfolding dohClientAddr_def addr by (rule refl)
  ultimately show ?thesis using assms(1,2) dohMinTTL_lemma [OF assms(3)]
    by (simp add: handleDoH_def dohDecodeGet_def b64Decode_Encode)
qed

text \<open>A handler that gives one reply to all queries, and a request.\<close>

definition constantly :: "bytes \<Rightarrow> nat handler" where
  "constantly resp q addr n = Some (Inr (Some resp), Suc n)"

definition doh_request :: DohRequest where
  "doh_request = \<lparr>reqMethod = [], dnsParam = [], contentType = [], reqBody = None, RemoteAddr = ''192.0.2.1:5353''\<rparr>"

theorem doh_get_witness:
  "handleDoH (Some (constantly ttl_reply)) (doh_request\<lparr>reqMethod := ''GET'', dnsParam := b64Encode (replicate 12 0)\<rparr>) 0 =
   Some (\<lparr>status = 200, maxAge = Some 5, respBody = ttl_reply\<rparr>, 1)"
proof -
  have "constantly ttl_reply (replicate 12 0) (Some (dohClientAddr doh_request)) 0 = Some (Inr (Some ttl_reply), 1)"
    by (simp add: constantly_def)
  from doh_get [where H = "constantly ttl_reply", OF _ this ttl_unpacks] show ?thesis by (simp add: ttl_message_def root_address_def)
qed

end
