(* ===== verification/Web_Login.thy ===== *)
theory Web_Login
  imports Server_Build
begin

text \<open>
  The limiter of failed logins (\<open>web/login_limiter.go\<close>).  Times are nanoseconds; a zero \<open>time.Time\<close> is \<open>None\<close>.
  The comparison \<open>t.After(now.Add(-d))\<close> is \<open>now < t + d\<close>.
\<close>

abbreviation loginMaxFailures :: nat where "loginMaxFailures \<equiv> 5"
abbreviation loginFailureWindow :: nat where "loginFailureWindow \<equiv> 60 * second"
abbreviation loginLockoutFor :: nat where "loginLockoutFor \<equiv> 60 * second"
abbreviation loginIdleEvict :: nat where "loginIdleEvict \<equiv> 15 * 60 * second"

record loginEntry =
  failures :: "time list"
  lockedUntil :: "time option"
  lastSeen :: time

record loginLimiter =
  loginEntries :: "string \<rightharpoonup> loginEntry"
  maxFailures :: nat
  failureWindow :: nat
  lockoutFor :: nat

definition newLoginLimiter :: loginLimiter where
  "newLoginLimiter =
     \<lparr>loginEntries = Map.empty, maxFailures = loginMaxFailures, failureWindow = loginFailureWindow, lockoutFor = loginLockoutFor\<rparr>"

definition retryAfterDuration :: "nat \<Rightarrow> nat" where
  "retryAfterDuration d =
     (if d = 0 then second
      else (let rounded = d div second * second;
                rounded = (if rounded < d then rounded + second else rounded) in
            if rounded < second then second else rounded))"

definition touchLocked :: "loginLimiter \<Rightarrow> string \<Rightarrow> time \<Rightarrow> loginEntry" where
  "touchLocked l ip now =
     (let e = (case loginEntries l ip of None \<Rightarrow> \<lparr>failures = [], lockedUntil = None, lastSeen = 0\<rparr> | Some e \<Rightarrow> e) in
      e\<lparr>lastSeen := now, failures := filter (\<lambda>t. now < t + failureWindow l) (failures e)\<rparr>)"

definition putEntry :: "string \<Rightarrow> loginEntry \<Rightarrow> loginLimiter \<Rightarrow> loginLimiter" where
  "putEntry ip e l = l\<lparr>loginEntries := (loginEntries l)(ip \<mapsto> e)\<rparr>"

definition allowLogin :: "loginLimiter \<Rightarrow> string \<Rightarrow> time \<Rightarrow> (bool \<times> nat) \<times> loginLimiter" where
  "allowLogin l ip now =
     (let e = touchLocked l ip now in
      case lockedUntil e of
        None \<Rightarrow> ((True, 0), putEntry ip e l)
      | Some u \<Rightarrow>
          if now < u then ((False, retryAfterDuration (u - now)), putEntry ip e l)
          else ((True, 0), putEntry ip (e\<lparr>lockedUntil := None, failures := []\<rparr>) l))"

definition recordFailure :: "string \<Rightarrow> time \<Rightarrow> loginLimiter \<Rightarrow> loginLimiter" where
  "recordFailure ip now l =
     (let e = touchLocked l ip now in
      if (case lockedUntil e of None \<Rightarrow> False | Some u \<Rightarrow> now < u) then putEntry ip e l
      else (let e = e\<lparr>failures := failures e @ [now]\<rparr> in
            putEntry ip (if maxFailures l \<le> length (failures e) then e\<lparr>lockedUntil := Some (now + lockoutFor l)\<rparr> else e) l))"

definition recordSuccess :: "string \<Rightarrow> loginLimiter \<Rightarrow> loginLimiter" where
  "recordSuccess ip l = l\<lparr>loginEntries := (loginEntries l)(ip := None)\<rparr>"

definition idleEntry :: "time \<Rightarrow> loginEntry \<Rightarrow> bool" where
  "idleEntry now e \<longleftrightarrow> lastSeen e + loginIdleEvict < now \<and>
     (case lockedUntil e of None \<Rightarrow> True | Some u \<Rightarrow> u + loginIdleEvict < now)"

definition evictIdle :: "time \<Rightarrow> loginLimiter \<Rightarrow> loginLimiter" where
  "evictIdle now l =
     l\<lparr>loginEntries := (\<lambda>ip. case loginEntries l ip of None \<Rightarrow> None | Some e \<Rightarrow> if idleEntry now e then None else Some e)\<rparr>"

text \<open>The key of a client: its address without port and zone.\<close>

definition loginClientIP :: "string \<Rightarrow> string" where
  "loginClientIP addr =
     (if addr = [] then ''unknown''
      else (let host = (case SplitHostPort addr of None \<Rightarrow> addr | Some h \<Rightarrow> h);
                host = TrimSpace (takeWhile (\<lambda>c. c \<noteq> CHR ''%'') host) in
            if host = [] then ''unknown''
            else (case ParseIP host of None \<Rightarrow> host | Some ip \<Rightarrow> IP_String ip)))"

end
