(* ===== verification/Web_Auth.thy ===== *)
theory Web_Auth
  imports Base64 Web_Login Blocklist
begin

text \<open>
  Authentication of the dashboard: the tokens, the login, the change of the password (\<open>web/auth.go\<close>), the middleware
  (\<open>web/middleware.go\<close>) and the first setup (\<open>web/api_setup.go\<close>).

  The cryptography, JSON and bcrypt are parameters, the record \<open>Lib\<close>: the MAC of HMAC-SHA256, the JSON texts of the two
  structures of a token, the bodies of the requests, the comparison of a password with a hash, and the hash of a password.
\<close>

record jwtPayload =
  Sub :: string
  Iat :: int
  Exp :: int
  Jti :: string

record jwtHeader =
  Alg :: string
  Typ :: string

record Lib =
  hmacSHA256 :: "bytes \<Rightarrow> bytes \<Rightarrow> bytes"
  marshalPayload :: "jwtPayload \<Rightarrow> bytes"
  unmarshalPayload :: "bytes \<Rightarrow> jwtPayload option"
  unmarshalHeader :: "bytes \<Rightarrow> jwtHeader option"
  decodePair :: "bytes \<Rightarrow> (string \<times> string) option"
  bcryptMatches :: "string \<Rightarrow> string \<Rightarrow> bool"
  bcryptHash :: "string \<Rightarrow> string option"
  dummyBcryptHash :: string

section \<open>Tokens (auth.go)\<close>

definition headerJSON :: bytes where
  "headerJSON = bytes_of ''{\"alg\":\"HS256\",\"typ\":\"JWT\"}''"

definition jwtHeaderB64 :: string where
  "jwtHeaderB64 = b64Encode headerJSON"

text \<open>\<open>jti\<close> are the 16 random bytes, \<open>None\<close> when the source of randomness fails; \<open>now\<close> are seconds.\<close>

definition generateJWT :: "Lib \<Rightarrow> string \<Rightarrow> bytes \<Rightarrow> int \<Rightarrow> bytes option \<Rightarrow> string + string" where
  "generateJWT lib username secret now jti =
     (case jti of
        None \<Rightarrow> Inl ''failed to generate jti''
      | Some jtiBytes \<Rightarrow>
          (let payload = \<lparr>Sub = username, Iat = now, Exp = now + 86400, Jti = b64Encode jtiBytes\<rparr>;
               payloadB64 = b64Encode (marshalPayload lib payload);
               signingInput = jwtHeaderB64 @ ''.'' @ payloadB64;
               sig = hmacSHA256 lib secret (bytes_of signingInput) in
           Inr (signingInput @ ''.'' @ b64Encode sig)))"

text \<open>\<open>strings.SplitN(s, ".", 3)\<close>: at most two cuts, the last part keeps its dots.\<close>

fun SplitN :: "string \<Rightarrow> char \<Rightarrow> nat \<Rightarrow> string list" where
  "SplitN s c 0 = []"
| "SplitN s c (Suc 0) = [s]"
| "SplitN s c (Suc (Suc n)) =
     (case IndexByte s c of None \<Rightarrow> [s] | Some i \<Rightarrow> take i s # SplitN (drop (i + 1) s) c (Suc n))"

definition validateJWT :: "Lib \<Rightarrow> string \<Rightarrow> bytes \<Rightarrow> string set \<Rightarrow> int \<Rightarrow> string + string" where
  "validateJWT lib tokenStr secret revokedTokens now =
     (case SplitN tokenStr (CHR ''.'') 3 of
        [p0, p1, p2] \<Rightarrow>
          (case b64Decode p0 of
             None \<Rightarrow> Inl ''invalid header encoding''
           | Some hj \<Rightarrow>
               (case unmarshalHeader lib hj of
                  None \<Rightarrow> Inl ''invalid header JSON''
                | Some hdr \<Rightarrow>
                    if Alg hdr \<noteq> ''HS256'' then Inl ''unsupported algorithm''
                    else if Typ hdr \<noteq> [] \<and> Typ hdr \<noteq> ''JWT'' then Inl ''unsupported token type''
                    else (case b64Decode p2 of
                            None \<Rightarrow> Inl ''invalid signature encoding''
                          | Some actualSig \<Rightarrow>
                              if hmacSHA256 lib secret (bytes_of (p0 @ ''.'' @ p1)) \<noteq> actualSig then Inl ''invalid signature''
                              else (case b64Decode p1 of
                                      None \<Rightarrow> Inl ''invalid payload encoding''
                                    | Some pj \<Rightarrow>
                                        (case unmarshalPayload lib pj of
                                           None \<Rightarrow> Inl ''invalid payload''
                                         | Some payload \<Rightarrow>
                                             if Exp payload < now then Inl ''token expired''
                                             else if Sub payload = [] then Inl ''missing subject claim''
                                             else if Jti payload = [] then Inl ''missing jti claim''
                                             else if Jti payload \<in> revokedTokens then Inl ''token has been revoked''
                                             else Inr (Sub payload))))))
      | _ \<Rightarrow> Inl ''invalid token format'')"

section \<open>Passwords\<close>

definition MinPasswordLength :: nat where "MinPasswordLength = 8"

definition ValidatePassword :: "string \<Rightarrow> bool" where
  "ValidatePassword password \<longleftrightarrow> MinPasswordLength \<le> length password"

definition HashPassword :: "Lib \<Rightarrow> string \<Rightarrow> string option" where
  "HashPassword lib password = (if ValidatePassword password then bcryptHash lib password else None)"

section \<open>The server\<close>

record Admin =
  authUser :: string
  authHash :: string
  jwtSecret :: bytes
  revokedTokens :: "string set"
  setupDone :: bool
  adminLimiter :: "loginLimiter option"

text \<open>The parts of a request that the code reads; \<open>wsUpgrade\<close> and \<open>connection\<close> are the headers of an upgrade.\<close>

record Request =
  httpMethod :: string
  authorization :: string
  wsUpgrade :: string
  connection :: string
  tokenParam :: string
  remoteAddr :: string
  body :: bytes

datatype response = Json nat "(string \<times> string) list"

definition errorJson :: "nat \<Rightarrow> string \<Rightarrow> response" where
  "errorJson code e = Json code [(''error'', e)]"

text \<open>
  \<open>handleLogin\<close>: \<open>t1\<close> is the clock when the limiter is asked, \<open>t2\<close> when the result is recorded.  The limiter is changed by
  the question already.
\<close>

definition handleLogin :: "Lib \<Rightarrow> time \<Rightarrow> time \<Rightarrow> bytes option \<Rightarrow> Request \<Rightarrow> Admin \<Rightarrow> response \<times> Admin" where
  "handleLogin lib t1 t2 jti r s =
     (if httpMethod r \<noteq> ''POST'' then (errorJson 405 ''method not allowed'', s)
      else (let clientIP = loginClientIP (remoteAddr r);
                (allowed, s) = (case adminLimiter s of
                                  None \<Rightarrow> (True, s)
                                | Some l \<Rightarrow> (case allowLogin l clientIP t1 of ((ok, _), l) \<Rightarrow> (ok, s\<lparr>adminLimiter := Some l\<rparr>))) in
            if \<not> allowed then (errorJson 429 ''too many failed login attempts; try again later'', s)
            else (case decodePair lib (body r) of
                    None \<Rightarrow> (errorJson 400 ''invalid request body'', s)
                  | Some (username, password) \<Rightarrow>
                      if authUser s = [] then (errorJson 400 ''authentication not configured'', s)
                      else (let userMatch = (username = authUser s);
                                hashToCheck = (if \<not> userMatch \<or> authHash s = [] then dummyBcryptHash lib else authHash s);
                                passMatch = bcryptMatches lib hashToCheck password in
                            if \<not> userMatch \<or> \<not> passMatch
                            then (errorJson 401 ''invalid credentials'', s\<lparr>adminLimiter := map_option (recordFailure clientIP t2) (adminLimiter s)\<rparr>)
                            else (case generateJWT lib username (jwtSecret s) (int (t2 div second)) jti of
                                    Inl e \<Rightarrow> (errorJson 500 ''failed to generate token'', s)
                                  | Inr token \<Rightarrow>
                                      (Json 200 [(''token'', token), (''username'', username)],
                                       s\<lparr>adminLimiter := map_option (recordSuccess clientIP) (adminLimiter s)\<rparr>))))))"

text \<open>
  \<open>handleChangePassword\<close>: \<open>newSecret\<close> are the 32 random bytes, \<open>saved\<close> whether the configuration file could be rewritten.
\<close>

definition handleChangePassword :: "Lib \<Rightarrow> bytes option \<Rightarrow> bool \<Rightarrow> Request \<Rightarrow> Admin \<Rightarrow> response \<times> Admin" where
  "handleChangePassword lib newSecret saved r s =
     (if httpMethod r \<noteq> ''POST'' then (errorJson 405 ''method not allowed'', s)
      else (case decodePair lib (body r) of
              None \<Rightarrow> (errorJson 400 ''invalid request body'', s)
            | Some (current, new) \<Rightarrow>
                if \<not> bcryptMatches lib (authHash s) current then (errorJson 401 ''current password is incorrect'', s)
                else if \<not> ValidatePassword new then (errorJson 400 ''password too short'', s)
                else (case HashPassword lib new of
                        None \<Rightarrow> (errorJson 500 ''failed to hash password'', s)
                      | Some newHash \<Rightarrow>
                          (case newSecret of
                             None \<Rightarrow> (errorJson 500 ''failed to rotate session secret; password not changed'', s)
                           | Some secret \<Rightarrow>
                               (Json 200 [(''status'', if saved then ''ok'' else ''partial'')],
                                s\<lparr>jwtSecret := secret, revokedTokens := {}, authHash := newHash\<rparr>)))))"

text \<open>The text of the configuration file with the new hash: the first line that holds the field is replaced, with its indentation.\<close>

definition isBlank :: "char \<Rightarrow> bool" where
  "isBlank c \<longleftrightarrow> c = CHR '' '' \<or> c = char_of (9 :: nat)"

definition isHashLine :: "string \<Rightarrow> bool" where
  "isHashLine line \<longleftrightarrow> HasPrefix (TrimSpace line) ''password_hash:''"

fun replaceHash :: "string \<Rightarrow> string list \<Rightarrow> string list option" where
  "replaceHash newHash [] = None"
| "replaceHash newHash (line # lines) =
     (if isHashLine line then Some ((takeWhile isBlank line @ ''password_hash: '' @ newHash) # lines)
      else map_option (\<lambda>ls. line # ls) (replaceHash newHash lines))"

definition updatePasswordText :: "string \<Rightarrow> string \<Rightarrow> string option" where
  "updatePasswordText newHash text =
     map_option (\<lambda>ls. let updated = Join newline ls in if HasSuffix updated [newline] then updated else updated @ [newline])
       (replaceHash newHash (Split newline text))"

section \<open>The middleware (middleware.go)\<close>

definition EqualFold :: "string \<Rightarrow> string \<Rightarrow> bool" where
  "EqualFold s t \<longleftrightarrow> ToLower s = ToLower t"

definition isWebSocketUpgrade :: "Request \<Rightarrow> bool" where
  "isWebSocketUpgrade r \<longleftrightarrow> EqualFold (wsUpgrade r) ''websocket'' \<and>
     list_ex (\<lambda>tok. EqualFold (TrimSpace tok) ''Upgrade'') (Split (CHR '','') (connection r))"

definition bearerToken :: "Request \<Rightarrow> string" where
  "bearerToken r =
     (let token = (if HasPrefix (authorization r) ''Bearer '' then drop 7 (authorization r) else []) in
      if token = [] \<and> isWebSocketUpgrade r then tokenParam r else token)"

text \<open>\<open>next\<close> is the protected handler; it is given the name of the user, if there is one.\<close>

definition requireAuth :: "Lib \<Rightarrow> int \<Rightarrow> (string option \<Rightarrow> Request \<Rightarrow> Admin \<Rightarrow> response \<times> Admin) \<Rightarrow> Request \<Rightarrow> Admin \<Rightarrow> response \<times> Admin" where
  "requireAuth lib now next r s =
     (if authUser s = [] then next None r s
      else (let token = bearerToken r in
            if token = [] then (errorJson 401 ''missing authentication token'', s)
            else (case validateJWT lib token (jwtSecret s) (revokedTokens s) now of
                    Inl e \<Rightarrow> (errorJson 401 ''invalid or expired token'', s)
                  | Inr username \<Rightarrow> next (Some username) r s)))"

definition handleMe :: "string option \<Rightarrow> Request \<Rightarrow> Admin \<Rightarrow> response \<times> Admin" where
  "handleMe user r s =
     (case user of
        None \<Rightarrow> (errorJson 401 ''not authenticated'', s)
      | Some u \<Rightarrow> if u = [] then (errorJson 401 ''not authenticated'', s) else (Json 200 [(''username'', u)], s))"

section \<open>Setup (api_setup.go)\<close>

definition handleSetupStatus :: "Request \<Rightarrow> Admin \<Rightarrow> response \<times> Admin" where
  "handleSetupStatus r s =
     (if httpMethod r \<noteq> ''GET'' then (errorJson 405 ''method not allowed'', s)
      else (Json 200 [(''setup_required'', if setupDone s then ''false'' else ''true'')], s))"

text \<open>
  Of the request only the credentials matter here; \<open>exists\<close> is whether a configuration file with contents is there, \<open>write\<close> writes it.
\<close>

definition handleSetupComplete :: "Lib \<Rightarrow> bool \<Rightarrow> (string \<Rightarrow> string \<Rightarrow> bool) \<Rightarrow> Request \<Rightarrow> Admin \<Rightarrow> response \<times> Admin" where
  "handleSetupComplete lib exists write r s =
     (if httpMethod r \<noteq> ''POST'' then (errorJson 405 ''method not allowed'', s)
      else if setupDone s then (errorJson 409 ''setup already completed'', s)
      else (case decodePair lib (body r) of
              None \<Rightarrow> (errorJson 400 ''invalid request body'', s)
            | Some (username, password) \<Rightarrow>
                (case (if password \<noteq> [] then HashPassword lib password else Some []) of
                   None \<Rightarrow> (errorJson 500 ''failed to hash password'', s)
                 | Some passwordHash \<Rightarrow>
                     if exists then (errorJson 409 ''config already exists; refusing to overwrite'', s)
                     else if \<not> write username passwordHash then (errorJson 500 ''failed to write config'', s)
                     else (Json 200 [(''status'', ''setup complete'')], s\<lparr>setupDone := True\<rparr>))))"

text \<open>\<open>NewAdminServer\<close>: the parts of its result that concern authentication; \<open>secret\<close> are the random bytes.\<close>

definition NewAdminServer :: "string \<Rightarrow> string \<Rightarrow> bytes option \<Rightarrow> Admin option" where
  "NewAdminServer user hash secret =
     map_option (\<lambda>k. \<lparr>authUser = user, authHash = hash, jwtSecret = k, revokedTokens = {}, setupDone = (user \<noteq> [] \<and> hash \<noteq> []),
                      adminLimiter = Some newLoginLimiter\<rparr>) secret"

end
