(* ===== verification/Web_Login_Properties.thy ===== *)
theory Web_Login_Properties
  imports Web_Login
begin

text \<open>
  The limiter of logins bounds the guesses of a client whose requests come one after another, and does not bound those that
  come together.
\<close>

section \<open>Runs\<close>

text \<open>
  What the requests and the cleanup do with the limiter: a wrong password, checked from \<open>t1\<close> to \<open>t2\<close>, a right one, a request
  without a password, and a sweep.  A request that is refused checks no password.
\<close>

datatype loginEvent = Guess string time time | Right string time time | Ask string time | Sweep time

fun stepLogin :: "loginEvent \<Rightarrow> loginLimiter \<Rightarrow> loginLimiter \<times> (string \<times> time) list" where
  "stepLogin (Guess ip t1 t2) l =
     (case allowLogin l ip t1 of ((ok, _), l) \<Rightarrow> if ok then (recordFailure ip t2 l, [(ip, t2)]) else (l, []))"
| "stepLogin (Right ip t1 t2) l =
     (case allowLogin l ip t1 of ((ok, _), l) \<Rightarrow> (if ok then recordSuccess ip l else l, []))"
| "stepLogin (Ask ip t) l = (snd (allowLogin l ip t), [])"
| "stepLogin (Sweep t) l = (evictIdle t l, [])"

fun runLogin :: "loginEvent list \<Rightarrow> loginLimiter \<Rightarrow> (string \<times> time) list" where
  "runLogin [] l = []"
| "runLogin (ev # evs) l = (case stepLogin ev l of (l, g) \<Rightarrow> g @ runLogin evs l)"

text \<open>One request after another.\<close>

fun inOrder :: "time \<Rightarrow> loginEvent list \<Rightarrow> bool" where
  "inOrder T [] = True"
| "inOrder T (Guess ip t1 t2 # evs) = (T \<le> t1 \<and> t1 \<le> t2 \<and> inOrder t2 evs)"
| "inOrder T (Right ip t1 t2 # evs) = (T \<le> t1 \<and> t1 \<le> t2 \<and> inOrder t2 evs)"
| "inOrder T (Ask ip t # evs) = (T \<le> t \<and> inOrder t evs)"
| "inOrder T (Sweep t # evs) = (T \<le> t \<and> inOrder t evs)"

definition guessesOf :: "string \<Rightarrow> (string \<times> time) list \<Rightarrow> time list" where
  "guessesOf ip g = map snd (filter (\<lambda>(i, t). i = ip) g)"

definition neverRight :: "string \<Rightarrow> loginEvent list \<Rightarrow> bool" where
  "neverRight ip evs \<longleftrightarrow> list_all (\<lambda>ev. case ev of Right i _ _ \<Rightarrow> i \<noteq> ip | _ \<Rightarrow> True) evs"

section \<open>The invariant of a client\<close>

definition spaced :: "nat \<Rightarrow> nat \<Rightarrow> time list \<Rightarrow> bool" where
  "spaced W M F \<longleftrightarrow> (\<forall>i. i + M < length F \<longrightarrow> F ! i + W \<le> F ! (i + M))"

text \<open>
  \<open>F\<close> are the guesses so far, \<open>e\<close> the entry of the client and \<open>T\<close> the time: the guesses that the entry has forgotten are older
  than the window, and a lockout outlasts the window from every guess on.
\<close>

definition tracked :: "loginLimiter \<Rightarrow> time \<Rightarrow> time list \<Rightarrow> loginEntry option \<Rightarrow> bool" where
  "tracked l T F eo \<longleftrightarrow> sorted F \<and> (\<forall>f\<in>set F. f \<le> T) \<and> spaced (failureWindow l) (maxFailures l) F \<and>
     (case eo of
        None \<Rightarrow> \<forall>f\<in>set F. f + failureWindow l \<le> T
      | Some e \<Rightarrow>
          (\<exists>G. F = G @ failures e \<and> (\<forall>g\<in>set G. g + failureWindow l \<le> T)) \<and> lastSeen e \<le> T \<and> (\<forall>f\<in>set F. f \<le> lastSeen e) \<and>
          (case lockedUntil e of
             None \<Rightarrow> length (failures e) < maxFailures l
           | Some u \<Rightarrow> \<forall>f\<in>set F. f + lockoutFor l \<le> u))"

definition login_ok :: "loginLimiter \<Rightarrow> bool" where
  "login_ok l \<longleftrightarrow> 0 < maxFailures l \<and> failureWindow l \<le> lockoutFor l \<and> failureWindow l \<le> loginIdleEvict"

lemma filter_late:
  "sorted fs \<Longrightarrow> \<exists>G. fs = G @ filter (\<lambda>t. now < t + W) fs \<and> (\<forall>g\<in>set G. g + W \<le> now)" for fs :: "nat list"
proof (induction fs)
  case (Cons a fs)
  show ?case
  proof (cases "now < a + W")
    case True
    with Cons.prems have "filter (\<lambda>t. now < t + W) (a # fs) = a # fs" by (auto simp: filter_id_conv)
    then show ?thesis by simp
  next
    case False
    from Cons obtain G where "fs = G @ filter (\<lambda>t. now < t + W) fs" "\<forall>g\<in>set G. g + W \<le> now" by auto
    then show ?thesis using False by (intro exI [of _ "a # G"]) auto
  qed
qed simp

lemma tracked_mono: "tracked l T F eo \<Longrightarrow> T \<le> T' \<Longrightarrow> tracked l T' F eo"
  by (fastforce simp: tracked_def split: option.splits)

text \<open>Looking the entry up keeps the invariant.\<close>

lemma tracked_touch:
  assumes "tracked l T F (loginEntries l ip)" and "T \<le> now" and "login_ok l"
  shows "tracked l now F (Some (touchLocked l ip now))"
proof (cases "loginEntries l ip")
  case None
  then show ?thesis using assms by (fastforce simp: tracked_def touchLocked_def login_ok_def)
next
  case (Some e)
  with assms(1) obtain G where F: "sorted F" "F = G @ failures e" "\<forall>g\<in>set G. g + failureWindow l \<le> T"
    by (auto simp: tracked_def)
  then have "sorted (failures e)" by (simp add: sorted_append)
  then obtain G' where G': "failures e = G' @ filter (\<lambda>t. now < t + failureWindow l) (failures e)" "\<forall>g\<in>set G'. g + failureWindow l \<le> now"
    using filter_late by blast
  have "F = (G @ G') @ failures (touchLocked l ip now)" using F(2) G'(1) by (simp add: touchLocked_def Some)
  moreover have "\<forall>g\<in>set (G @ G'). g + failureWindow l \<le> now" using F(3) G'(2) assms(2) by auto
  moreover have "length (failures (touchLocked l ip now)) \<le> length (failures e)" by (simp add: touchLocked_def Some)
  moreover have "lockedUntil (touchLocked l ip now) = lockedUntil e" "lastSeen (touchLocked l ip now) = now"
    by (simp_all add: touchLocked_def Some)
  ultimately show ?thesis using assms(1,2) Some unfolding tracked_def
    by (auto split: option.splits intro: order_trans le_less_trans)
qed

lemma spaced_snoc:
  assumes "spaced W M (G @ fs)" and "\<forall>g\<in>set G. g + W \<le> t" and "length fs < M"
  shows "spaced W M ((G @ fs) @ [t])"
  unfolding spaced_def
proof (intro allI impI)
  fix i
  assume i: "i + M < length ((G @ fs) @ [t])"
  show "((G @ fs) @ [t]) ! i + W \<le> ((G @ fs) @ [t]) ! (i + M)"
  proof (cases "i + M < length (G @ fs)")
    case True
    then have "(G @ fs) ! i + W \<le> (G @ fs) ! (i + M)" using assms(1) by (simp only: spaced_def)
    moreover have "((G @ fs) @ [t]) ! i = (G @ fs) ! i" "((G @ fs) @ [t]) ! (i + M) = (G @ fs) ! (i + M)"
      using True by (auto simp only: nth_append_left)
    ultimately show ?thesis by (simp only:)
  next
    case False
    then have "i + M = length (G @ fs)" using i by simp
    moreover from this assms(3) have "i < length G" by simp
    ultimately show ?thesis using assms(2) by (simp add: nth_append)
  qed
qed

lemma limiter_settings [simp]:
  "maxFailures (putEntry ip e l) = maxFailures l" "failureWindow (putEntry ip e l) = failureWindow l"
  "lockoutFor (putEntry ip e l) = lockoutFor l" "loginEntries (putEntry ip e l) = (loginEntries l)(ip \<mapsto> e)"
  by (simp_all add: putEntry_def)

lemma tracked_cong:
  assumes "maxFailures l' = maxFailures l" and "failureWindow l' = failureWindow l" and "lockoutFor l' = lockoutFor l"
  shows "tracked l' T F eo = tracked l T F eo"
  unfolding tracked_def assms by (rule refl)

lemma tracked_allow:
  assumes "tracked l T F (loginEntries l ip)" and "T \<le> now" and "login_ok l" and "allowLogin l ip now = ((ok, d), l')"
  shows "tracked l now F (loginEntries l' ip) \<and> (ok \<longrightarrow> (\<exists>e. loginEntries l' ip = Some e \<and> lockedUntil e = None))"
proof -
  note t = tracked_touch [OF assms(1-3)]
  show ?thesis
  proof (cases "lockedUntil (touchLocked l ip now)")
    case None
    with t assms(4) show ?thesis by (auto simp: allowLogin_def Let_def)
  next
    case (Some u)
    have "tracked l now F (Some ((touchLocked l ip now)\<lparr>lockedUntil := None, failures := []\<rparr>))" if "\<not> now < u"
    proof -
      have "\<forall>f\<in>set F. f + failureWindow l \<le> now" using t Some that assms(3) by (fastforce simp: tracked_def login_ok_def)
      with t assms(3) show ?thesis by (auto simp: tracked_def login_ok_def)
    qed
    with t Some assms(4) show ?thesis by (auto simp: allowLogin_def Let_def split: if_splits)
  qed
qed

lemma tracked_failure:
  assumes "tracked l T F (loginEntries l ip)" and "T \<le> now" and "login_ok l" and "loginEntries l ip = Some e" and "lockedUntil e = None"
  shows "tracked l now (F @ [now]) (loginEntries (recordFailure ip now l) ip)"
proof -
  let ?e = "touchLocked l ip now"
  note t = tracked_touch [OF assms(1-3)]
  have free: "lockedUntil ?e = None" "lastSeen ?e = now" using assms(4,5) by (simp_all add: touchLocked_def)
  with t obtain G where G: "F = G @ failures ?e" "\<forall>g\<in>set G. g + failureWindow l \<le> now" "length (failures ?e) < maxFailures l"
    by (auto simp: tracked_def)
  have "spaced (failureWindow l) (maxFailures l) (F @ [now])"
    using t G spaced_snoc [of "failureWindow l" "maxFailures l" G "failures ?e" now] by (simp add: tracked_def)
  moreover have "sorted (F @ [now])" using t by (auto simp: tracked_def sorted_append)
  moreover have "\<exists>G. F @ [now] = G @ failures ?e @ [now] \<and> (\<forall>g\<in>set G. g + failureWindow l \<le> now)" using G by auto
  ultimately show ?thesis using t free
    by (auto simp: recordFailure_def Let_def tracked_def)
qed

text \<open>The other clients and the cleanup.\<close>

lemma other_client:
  "i \<noteq> ip \<Longrightarrow> loginEntries (snd (allowLogin l i t)) ip = loginEntries l ip"
  "i \<noteq> ip \<Longrightarrow> loginEntries (recordFailure i t l) ip = loginEntries l ip"
  "i \<noteq> ip \<Longrightarrow> loginEntries (recordSuccess i l) ip = loginEntries l ip"
  by (simp_all add: allowLogin_def recordFailure_def recordSuccess_def Let_def split: option.split)

lemma step_settings:
  "maxFailures (snd (allowLogin l i t)) = maxFailures l \<and> failureWindow (snd (allowLogin l i t)) = failureWindow l \<and> lockoutFor (snd (allowLogin l i t)) = lockoutFor l"
  "maxFailures (recordFailure i t l) = maxFailures l \<and> failureWindow (recordFailure i t l) = failureWindow l \<and> lockoutFor (recordFailure i t l) = lockoutFor l"
  "maxFailures (recordSuccess i l) = maxFailures l \<and> failureWindow (recordSuccess i l) = failureWindow l \<and> lockoutFor (recordSuccess i l) = lockoutFor l"
  "maxFailures (evictIdle t l) = maxFailures l \<and> failureWindow (evictIdle t l) = failureWindow l \<and> lockoutFor (evictIdle t l) = lockoutFor l"
  by (simp_all add: allowLogin_def recordFailure_def recordSuccess_def evictIdle_def Let_def split: option.split)

lemma tracked_evict:
  assumes "tracked l T F (loginEntries l ip)" and "T \<le> now" and "login_ok l"
  shows "tracked l now F (loginEntries (evictIdle now l) ip)"
proof (cases "\<exists>e. loginEntries l ip = Some e \<and> idleEntry now e")
  case True
  then obtain e where e: "loginEntries l ip = Some e" "idleEntry now e" by blast
  with assms(1) have "\<forall>f\<in>set F. f \<le> lastSeen e" by (simp add: tracked_def)
  then have "\<forall>f\<in>set F. f + failureWindow l \<le> now" using e(2) assms(3) by (fastforce simp: idleEntry_def login_ok_def)
  with e tracked_mono [OF assms(1,2)] show ?thesis by (auto simp: evictIdle_def tracked_def)
next
  case False
  then have "loginEntries (evictIdle now l) ip = loginEntries l ip" by (auto simp: evictIdle_def split: option.split)
  then show ?thesis using tracked_mono [OF assms(1,2)] by simp
qed

lemma tracked_step:
  assumes "tracked l T F (loginEntries l ip)" and "login_ok l" and "inOrder T (ev # evs)" and "neverRight ip [ev]"
    and "stepLogin ev l = (l', g)"
  shows "\<exists>T'. tracked l' T' (F @ guessesOf ip g) (loginEntries l' ip) \<and> login_ok l' \<and> inOrder T' evs \<and>
     maxFailures l' = maxFailures l \<and> failureWindow l' = failureWindow l"
proof (cases ev)
  case (Guess i t1 t2)
  with assms(3) have le: "T \<le> t1" "t1 \<le> t2" "inOrder t2 evs" by auto
  obtain ok d l1 where a: "allowLogin l i t1 = ((ok, d), l1)" by (metis prod.exhaust)
  have l1: "login_ok l1" "maxFailures l1 = maxFailures l" "failureWindow l1 = failureWindow l" "lockoutFor l1 = lockoutFor l"
    using step_settings(1) [of l i t1] assms(2) by (simp_all add: a login_ok_def)
  have l2: "login_ok l'" "maxFailures l' = maxFailures l" "failureWindow l' = failureWindow l" "lockoutFor l' = lockoutFor l"
    using assms(5) l1 step_settings(2) [of i t2 l1] by (auto simp: Guess a login_ok_def split: if_splits)
  have "tracked l t2 (F @ guessesOf ip g) (loginEntries l' ip)"
  proof (cases "i = ip")
    case True
    note t = tracked_allow [OF assms(1) le(1) assms(2), of ok d l1]
    show ?thesis
    proof (cases ok)
      case ok: True
      with t a True obtain e where e: "loginEntries l1 ip = Some e" "lockedUntil e = None" by auto
      have "tracked l1 t1 F (loginEntries l1 ip)" using t a True tracked_cong [OF l1(2-4)] by simp
      from tracked_failure [OF this le(2) l1(1) e] show ?thesis
        using assms(5) ok a unfolding Guess True tracked_cong [OF l1(2-4)] by (auto simp: guessesOf_def)
    next
      case False
      with t a True assms(5) le(2) show ?thesis by (auto simp: Guess guessesOf_def intro: tracked_mono)
    qed
  next
    case False
    have "loginEntries l1 ip = loginEntries l ip" using other_client(1) [OF False, of l t1] by (simp add: a)
    then have "loginEntries l' ip = loginEntries l ip" "guessesOf ip g = []"
      using assms(5) False other_client(2) [OF False] by (auto simp: Guess a guessesOf_def split: if_splits)
    with tracked_mono [OF assms(1)] le show ?thesis by simp
  qed
  with l2 le(3) tracked_cong [OF l2(2-4)] show ?thesis by auto
next
  case (Right i t1 t2)
  with assms(3,4) have le: "T \<le> t1" "t1 \<le> t2" "inOrder t2 evs" and i: "i \<noteq> ip" by (auto simp: neverRight_def)
  obtain ok d l1 where a: "allowLogin l i t1 = ((ok, d), l1)" by (metis prod.exhaust)
  have l2: "login_ok l'" "maxFailures l' = maxFailures l" "failureWindow l' = failureWindow l" "lockoutFor l' = lockoutFor l"
    using assms(2,5) step_settings(1) [of l i t1] step_settings(3) [of i l1] by (auto simp: Right a login_ok_def split: if_splits)
  have "loginEntries l1 ip = loginEntries l ip" using other_client(1) [OF i, of l t1] by (simp add: a)
  then have "loginEntries l' ip = loginEntries l ip" "guessesOf ip g = []"
    using assms(5) other_client(3) [OF i] by (auto simp: Right a guessesOf_def split: if_splits)
  with tracked_mono [OF assms(1), of t2] le l2 tracked_cong [OF l2(2-4)] show ?thesis by auto
next
  case (Ask i t)
  with assms(3) have le: "T \<le> t" "inOrder t evs" by auto
  obtain ok d where a: "allowLogin l i t = ((ok, d), l')" using assms(5) by (auto simp: Ask prod_eq_iff)
  have l2: "login_ok l'" "maxFailures l' = maxFailures l" "failureWindow l' = failureWindow l" "lockoutFor l' = lockoutFor l"
    using assms(2) step_settings(1) [of l i t] by (auto simp: a login_ok_def)
  have "tracked l t F (loginEntries l' ip)"
  proof (cases "i = ip")
    case True
    with tracked_allow [OF assms(1) le(1) assms(2)] a show ?thesis by blast
  next
    case False
    with other_client(1) [OF False, of l t] tracked_mono [OF assms(1) le(1)] show ?thesis by (simp add: a)
  qed
  with l2 le(2) tracked_cong [OF l2(2-4)] assms(5) show ?thesis by (auto simp: Ask guessesOf_def)
next
  case (Sweep t)
  with assms(3) have le: "T \<le> t" "inOrder t evs" by auto
  have l2: "login_ok l'" "maxFailures l' = maxFailures l" "failureWindow l' = failureWindow l" "lockoutFor l' = lockoutFor l"
    using assms(2,5) step_settings(4) [of t l] by (auto simp: Sweep login_ok_def)
  from tracked_evict [OF assms(1) le(1) assms(2)] l2 le(2) tracked_cong [OF l2(2-4)] assms(5)
  show ?thesis by (auto simp: Sweep guessesOf_def)
qed

lemma runLogin_spaced:
  "tracked l T F (loginEntries l ip) \<Longrightarrow> login_ok l \<Longrightarrow> inOrder T evs \<Longrightarrow> neverRight ip evs \<Longrightarrow>
     spaced (failureWindow l) (maxFailures l) (F @ guessesOf ip (runLogin evs l))"
proof (induction evs arbitrary: l T F)
  case Nil
  then show ?case by (simp add: guessesOf_def tracked_def)
next
  case (Cons ev evs)
  obtain l' g where s: "stepLogin ev l = (l', g)" by (metis prod.exhaust)
  from Cons.prems(4) have right: "neverRight ip [ev]" "neverRight ip evs" by (simp_all add: neverRight_def)
  from tracked_step [OF Cons.prems(1-3) right(1) s] obtain T' where
    "tracked l' T' (F @ guessesOf ip g) (loginEntries l' ip)" "login_ok l'" "inOrder T' evs"
    and eq: "maxFailures l' = maxFailures l" "failureWindow l' = failureWindow l" by blast
  from Cons.IH [OF this(1-3) right(2)] show ?case by (simp add: s eq guessesOf_def)
qed

lemma runLogin_guess_bound:
  assumes "inOrder 0 evs" and "neverRight ip evs" and "i + 5 < length (guessesOf ip (runLogin evs newLoginLimiter))"
  shows "guessesOf ip (runLogin evs newLoginLimiter) ! i + 60 * second \<le> guessesOf ip (runLogin evs newLoginLimiter) ! (i + 5)"
proof -
  have "login_ok newLoginLimiter" by (simp add: login_ok_def newLoginLimiter_def)
  moreover have "tracked newLoginLimiter 0 [] (loginEntries newLoginLimiter ip)"
    by (simp add: tracked_def newLoginLimiter_def spaced_def)
  ultimately have "spaced (60 * second) 5 ([] @ guessesOf ip (runLogin evs newLoginLimiter))"
    using runLogin_spaced [of newLoginLimiter 0 "[]" ip evs] assms(1,2) by (simp add: newLoginLimiter_def)
  then show ?thesis using assms(3) by (simp add: spaced_def)
qed

section \<open>Requests that come together\<close>

text \<open>\<open>n\<close> requests whose passwords are all being checked before the first failure is recorded.\<close>

fun allowAll :: "nat \<Rightarrow> string \<Rightarrow> time \<Rightarrow> loginLimiter \<Rightarrow> nat" where
  "allowAll 0 ip now l = 0"
| "allowAll (Suc n) ip now l = (case allowLogin l ip now of ((ok, _), l) \<Rightarrow> (if ok then 1 else 0) + allowAll n ip now l)"

text \<open>
  Requests that come together are not bounded: while the password of the first is being checked, every
  further request of the client is admitted.
\<close>

theorem login_parallel_unbounded: "allowAll n ip now newLoginLimiter = n"
proof -
  have "lockedUntil (touchLocked l ip now) = None" if "\<forall>e. loginEntries l ip = Some e \<longrightarrow> lockedUntil e = None" for l
    using that by (auto simp: touchLocked_def Let_def split: option.split)
  then have "allowAll n ip now l = n" if "\<forall>e. loginEntries l ip = Some e \<longrightarrow> lockedUntil e = None" for l
    using that by (induction n arbitrary: l) (simp_all add: allowLogin_def Let_def)
  then show ?thesis by (simp add: newLoginLimiter_def)
qed

end
