(* ===== verification/Web_Auth_Properties.thy ===== *)
theory Web_Auth_Properties
  imports Web_Auth Web_Login_Properties
begin

text \<open>
  Properties of the authentication: tokens, the guard of the protected routes, the change of the password, the number
  of guesses, and the state of the server after its setup.
\<close>

section \<open>Tokens\<close>

lemma b64Char_not_dot: "b64Char n \<noteq> CHR ''.''"
proof
  assume "b64Char n = CHR ''.''"
  then have "(of_char (b64Char n) :: nat) = 46" by simp
  then show False by (auto simp: b64Char_def split: if_splits)
qed

lemma b64Encode_no_dot: "CHR ''.'' \<notin> set (b64Encode bs)"
  using b64Char_not_dot by (auto simp: b64Encode_def dest: sym)

lemma b64Encode_Nil: "b64Encode bs = [] \<longleftrightarrow> bs = []"
  by (cases bs rule: b64Groups.cases) (simp_all add: b64Encode_def)

lemma SplitN_token:
  assumes "CHR ''.'' \<notin> set a" and "CHR ''.'' \<notin> set b"
  shows "SplitN (a @ ''.'' @ b @ ''.'' @ c) (CHR ''.'') 3 = [a, b, c]"
  using assms by (simp add: numeral_eq_Suc IndexByte_sep)

text \<open>A token as the server accepts it: its three parts, the header, the MAC and the payload.\<close>

definition authentic :: "Lib \<Rightarrow> bytes \<Rightarrow> string set \<Rightarrow> int \<Rightarrow> string \<Rightarrow> string \<Rightarrow> bool" where
  "authentic lib secret revoked now token user \<longleftrightarrow>
     (\<exists>p0 p1 p2 hj hdr pj payload.
        SplitN token (CHR ''.'') 3 = [p0, p1, p2] \<and>
        b64Decode p0 = Some hj \<and> unmarshalHeader lib hj = Some hdr \<and> Alg hdr = ''HS256'' \<and>
        b64Decode p2 = Some (hmacSHA256 lib secret (bytes_of (p0 @ ''.'' @ p1))) \<and>
        b64Decode p1 = Some pj \<and> unmarshalPayload lib pj = Some payload \<and>
        now \<le> Exp payload \<and> Sub payload = user \<and> user \<noteq> [] \<and> Jti payload \<notin> revoked)"

lemma validateJWT_authentic: "validateJWT lib token secret revoked now = Inr user \<Longrightarrow> authentic lib secret revoked now token user"
  unfolding validateJWT_def authentic_def
  by (auto split: list.splits option.splits if_splits)

text \<open>
  A token is accepted for 24 hours: what \<open>generateJWT\<close> makes for a user, \<open>validateJWT\<close> accepts and gives the name back, until
  86400 seconds later, if the token is not revoked and JSON texts are read back as they were written.
\<close>

theorem validate_generate:
  assumes "unmarshalHeader lib headerJSON = Some \<lparr>Alg = ''HS256'', Typ = ''JWT''\<rparr>"
    and "unmarshalPayload lib (marshalPayload lib \<lparr>Sub = user, Iat = now, Exp = now + 86400, Jti = b64Encode jti\<rparr>) =
           Some \<lparr>Sub = user, Iat = now, Exp = now + 86400, Jti = b64Encode jti\<rparr>"
    and "user \<noteq> []" and "jti \<noteq> []" and "b64Encode jti \<notin> revoked" and "later \<le> now + 86400"
  shows "\<exists>token. generateJWT lib user secret now (Some jti) = Inr token \<and> validateJWT lib token secret revoked later = Inr user"
proof -
  let ?payload = "b64Encode (marshalPayload lib \<lparr>Sub = user, Iat = now, Exp = now + 86400, Jti = b64Encode jti\<rparr>)"
  have "SplitN (jwtHeaderB64 @ ''.'' @ ?payload @ ''.'' @ c) (CHR ''.'') 3 = [jwtHeaderB64, ?payload, c]" for c
    by (intro SplitN_token) (simp_all add: jwtHeaderB64_def b64Encode_no_dot)
  then show ?thesis using assms
    by (simp add: generateJWT_def validateJWT_def Let_def b64Decode_Encode jwtHeaderB64_def b64Encode_Nil)
qed

text \<open>A library for examples: a MAC that is the key in front of the text, one payload.\<close>

definition sample_payload :: jwtPayload where
  "sample_payload = \<lparr>Sub = ''admin'', Iat = 1000, Exp = 87400, Jti = b64Encode [1]\<rparr>"

definition sample_lib :: Lib where
  "sample_lib =
     \<lparr>hmacSHA256 = (\<lambda>k m. k @ m), marshalPayload = (\<lambda>_. [123, 125]), unmarshalPayload = (\<lambda>_. Some sample_payload),
      unmarshalHeader = (\<lambda>_. Some \<lparr>Alg = ''HS256'', Typ = ''JWT''\<rparr>), decodePair = (\<lambda>b. Some (''admin'', string_of b)),
      bcryptMatches = (\<lambda>h p. h = p), bcryptHash = (\<lambda>p. Some p), dummyBcryptHash = ''-''\<rparr>"

theorem validate_generate_witness:
  "\<exists>token. generateJWT sample_lib ''admin'' [7] 1000 (Some [1]) = Inr token \<and> validateJWT sample_lib token [7] {} 87400 = Inr ''admin''"
  by (rule validate_generate) (simp_all add: sample_lib_def sample_payload_def)

section \<open>Protected routes\<close>

text \<open>
  C32. The guard of the protected routes: once a user is configured, the handler behind \<open>requireAuth\<close> runs only for a
  request whose token carries the MAC of its own text under the secret of the server, has not expired and is not
  revoked, and it is given the user that the token names; every other request is answered with 401 and changes nothing.
\<close>

theorem requireAuth_guard:
  assumes "authUser s \<noteq> []"
  shows "(\<exists>user. authentic lib (jwtSecret s) (revokedTokens s) now (bearerToken r) user \<and> requireAuth lib now next r s = next (Some user) r s) \<or>
     (\<exists>e. requireAuth lib now next r s = (errorJson 401 e, s))"
  using assms validateJWT_authentic [of lib "bearerToken r" "jwtSecret s" "revokedTokens s" now]
  by (auto simp: requireAuth_def Let_def split: sum.split)

definition sample_admin :: Admin where
  "sample_admin = \<lparr>authUser = ''admin'', authHash = ''password'', jwtSecret = [7], revokedTokens = {}, setupDone = True, adminLimiter = Some newLoginLimiter\<rparr>"

definition sample_request :: Request where
  "sample_request = \<lparr>httpMethod = ''POST'', authorization = [], wsUpgrade = [], connection = [], tokenParam = [], remoteAddr = [], body = []\<rparr>"

theorem requireAuth_guard_witness:
  "(\<exists>user. authentic sample_lib [7] {} 0 (bearerToken sample_request) user \<and>
      requireAuth sample_lib 0 handleMe sample_request sample_admin = handleMe (Some user) sample_request sample_admin) \<or>
   (\<exists>e. requireAuth sample_lib 0 handleMe sample_request sample_admin = (errorJson 401 e, sample_admin))"
  using requireAuth_guard [of sample_admin sample_lib 0 sample_request handleMe] by (simp add: sample_admin_def)

text \<open>The text of a token that its MAC is taken of.\<close>

definition tokenText :: "string \<Rightarrow> bytes" where
  "tokenText token = (case SplitN token (CHR ''.'') 3 of [p0, p1, p2] \<Rightarrow> bytes_of (p0 @ ''.'' @ p1) | _ \<Rightarrow> [])"

lemma authentic_mac:
  assumes "authentic lib secret revoked now token user" "authentic lib secret' revoked' now' token user'"
  shows "hmacSHA256 lib secret (tokenText token) = hmacSHA256 lib secret' (tokenText token)"
  using assms by (auto simp: authentic_def tokenText_def)

lemma handleChangePassword_cases:
  assumes "handleChangePassword lib newSecret saved q s = (resp, s')"
  shows "s' = s \<and> (\<forall>a. resp \<noteq> Json 200 a) \<or>
    (\<exists>secret current new. newSecret = Some secret \<and> decodePair lib (body q) = Some (current, new) \<and> bcryptMatches lib (authHash s) current \<and>
       ValidatePassword new \<and> HashPassword lib new = Some (authHash s') \<and> jwtSecret s' = secret \<and> revokedTokens s' = {} \<and> authUser s' = authUser s \<and>
       (\<exists>a. resp = Json 200 a))"
  using assms by (auto simp: handleChangePassword_def errorJson_def split: if_splits option.splits)

text \<open>
  C34. Changing the password ends the sessions.  A request to change the password either changes nothing and is answered with an error, or gave the current
  password, and then the server has the hash of the new one and the new secret.  From then on every protected request is refused with 401 unless its token carries the MAC of its text under the new
  secret; and a token that was accepted before is accepted again only if the MACs of its text under the old and the new secret are the same.
\<close>

theorem change_password_ends_sessions:
  assumes "handleChangePassword lib newSecret saved q s = (resp, s')" and "authUser s \<noteq> []"
  shows "s' = s \<and> (\<forall>a. resp \<noteq> Json 200 a) \<or>
    (\<exists>secret current new. newSecret = Some secret \<and> decodePair lib (body q) = Some (current, new) \<and> bcryptMatches lib (authHash s) current \<and>
       HashPassword lib new = Some (authHash s') \<and>
       (\<forall>later next r. (\<exists>e. requireAuth lib later next r s' = (errorJson 401 e, s')) \<or>
          (\<exists>user. authentic lib secret {} later (bearerToken r) user \<and> requireAuth lib later next r s' = next (Some user) r s' \<and>
             (\<forall>now old. validateJWT lib (bearerToken r) (jwtSecret s) (revokedTokens s) now = Inr old \<longrightarrow>
                hmacSHA256 lib secret (tokenText (bearerToken r)) = hmacSHA256 lib (jwtSecret s) (tokenText (bearerToken r))))))"
proof -
  from handleChangePassword_cases [OF assms(1)] show ?thesis
  proof (elim disjE exE conjE)
    fix secret current new assume c: "newSecret = Some secret" "decodePair lib (body q) = Some (current, new)" "bcryptMatches lib (authHash s) current"
      "HashPassword lib new = Some (authHash s')" "jwtSecret s' = secret" "revokedTokens s' = {}" "authUser s' = authUser s"
    have mac: "hmacSHA256 lib secret (tokenText token) = hmacSHA256 lib (jwtSecret s) (tokenText token)"
      if "authentic lib secret {} later token user" "validateJWT lib token (jwtSecret s) (revokedTokens s) now = Inr old" for later token user now old
      by (rule authentic_mac [OF that(1) validateJWT_authentic [OF that(2)]])
    have "(\<exists>e. requireAuth lib later next r s' = (errorJson 401 e, s')) \<or>
          (\<exists>user. authentic lib secret {} later (bearerToken r) user \<and> requireAuth lib later next r s' = next (Some user) r s')" for later "next" r
      using assms(2) c(5-7) validateJWT_authentic [of lib "bearerToken r" secret "{}" later]
      by (auto simp: requireAuth_def Let_def split: sum.split)
    then have "(\<exists>e. requireAuth lib later next r s' = (errorJson 401 e, s')) \<or>
          (\<exists>user. authentic lib secret {} later (bearerToken r) user \<and> requireAuth lib later next r s' = next (Some user) r s' \<and>
             (\<forall>now old. validateJWT lib (bearerToken r) (jwtSecret s) (revokedTokens s) now = Inr old \<longrightarrow>
                hmacSHA256 lib secret (tokenText (bearerToken r)) = hmacSHA256 lib (jwtSecret s) (tokenText (bearerToken r))))" for later "next" r
      using mac by blast
    with c(1-4) show ?thesis by blast
  qed simp
qed

text \<open>A request with a token of the old secret.\<close>

definition sample_token :: string where
  "sample_token = jwtHeaderB64 @ ''.'' @ b64Encode [123, 125] @ ''.'' @ b64Encode (7 # bytes_of (jwtHeaderB64 @ ''.'' @ b64Encode [123, 125]))"

lemma sample_token_valid: "validateJWT sample_lib sample_token [7] {} 1000 = Inr ''admin''"
proof -
  have "SplitN sample_token (CHR ''.'') 3 = [jwtHeaderB64, b64Encode [123, 125], b64Encode (7 # bytes_of (jwtHeaderB64 @ ''.'' @ b64Encode [123, 125]))]"
    unfolding sample_token_def by (intro SplitN_token) (simp_all add: jwtHeaderB64_def b64Encode_no_dot)
  then show ?thesis
    by (simp add: validateJWT_def b64Decode_Encode jwtHeaderB64_def sample_lib_def sample_payload_def b64Encode_Nil)
qed

definition token_request :: Request where
  "token_request = sample_request\<lparr>authorization := ''Bearer '' @ sample_token, body := bytes_of ''password''\<rparr>"

lemma token_request_bearer: "bearerToken token_request = sample_token"
proof -
  have "sample_token \<noteq> []" by (simp add: sample_token_def)
  then show ?thesis by (simp add: bearerToken_def token_request_def HasPrefix_def Let_def)
qed

definition pair_lib :: Lib where
  "pair_lib = sample_lib\<lparr>decodePair := (\<lambda>_. Some (''password'', ''longer password''))\<rparr>"

lemma validateJWT_pair_lib: "validateJWT pair_lib = validateJWT sample_lib"
proof -
  have "hmacSHA256 pair_lib = hmacSHA256 sample_lib" "unmarshalHeader pair_lib = unmarshalHeader sample_lib"
    "unmarshalPayload pair_lib = unmarshalPayload sample_lib" by (simp_all add: pair_lib_def)
  then show ?thesis unfolding validateJWT_def [abs_def] by (simp only:)
qed

theorem change_password_ends_sessions_witness:
  "validateJWT pair_lib (bearerToken token_request) (jwtSecret sample_admin) (revokedTokens sample_admin) 1000 = Inr ''admin'' \<and>
   (\<exists>e. requireAuth pair_lib 1000 handleMe token_request (snd (handleChangePassword pair_lib (Some [8]) True token_request sample_admin)) =
     (errorJson 401 e, snd (handleChangePassword pair_lib (Some [8]) True token_request sample_admin)))"
proof -
  let ?s = "snd (handleChangePassword pair_lib (Some [8]) True token_request sample_admin)"
  have run: "handleChangePassword pair_lib (Some [8]) True token_request sample_admin = (Json 200 [(''status'', ''ok'')], ?s)"
    by (simp add: handleChangePassword_def pair_lib_def sample_lib_def token_request_def sample_request_def sample_admin_def
        ValidatePassword_def HashPassword_def MinPasswordLength_def)
  have old: "validateJWT pair_lib (bearerToken token_request) (jwtSecret sample_admin) (revokedTokens sample_admin) 1000 = Inr ''admin''"
    using sample_token_valid by (simp add: token_request_bearer sample_admin_def validateJWT_pair_lib)
  have "hmacSHA256 pair_lib [8] m \<noteq> hmacSHA256 pair_lib (jwtSecret sample_admin) m" for m
    by (simp add: sample_admin_def pair_lib_def sample_lib_def)
  moreover have "authUser sample_admin \<noteq> []" by (simp add: sample_admin_def)
  ultimately show ?thesis using change_password_ends_sessions [OF run] old by blast
qed

section \<open>Guesses\<close>

text \<open>What the server receives: a login with its times and random bytes, or a cleanup.\<close>

datatype adminEvent = Login time time "bytes option" Request | Clean time

fun serveLogins :: "Lib \<Rightarrow> adminEvent list \<Rightarrow> Admin \<Rightarrow> (string \<times> time \<times> response) list" where
  "serveLogins lib [] s = []"
| "serveLogins lib (Login t1 t2 jti r # evs) s =
     (case handleLogin lib t1 t2 jti r s of (resp, s) \<Rightarrow> (loginClientIP (remoteAddr r), t2, resp) # serveLogins lib evs s)"
| "serveLogins lib (Clean t # evs) s = serveLogins lib evs (s\<lparr>adminLimiter := map_option (evictIdle t) (adminLimiter s)\<rparr>)"

text \<open>The times at which a client was told that its password is wrong.\<close>

definition wrongGuesses :: "string \<Rightarrow> (string \<times> time \<times> response) list \<Rightarrow> time list" where
  "wrongGuesses ip tr = map (fst \<circ> snd) (filter (\<lambda>(i, t, resp). i = ip \<and> resp = errorJson 401 ''invalid credentials'') tr)"

fun oneByOne :: "time \<Rightarrow> adminEvent list \<Rightarrow> bool" where
  "oneByOne T [] = True"
| "oneByOne T (Login t1 t2 jti r # evs) = (T \<le> t1 \<and> t1 \<le> t2 \<and> oneByOne t2 evs)"
| "oneByOne T (Clean t # evs) = (T \<le> t \<and> oneByOne t evs)"

definition neverLetIn :: "string \<Rightarrow> (string \<times> time \<times> response) list \<Rightarrow> bool" where
  "neverLetIn ip tr \<longleftrightarrow> list_all (\<lambda>(i, t, resp). case resp of Json code _ \<Rightarrow> i = ip \<longrightarrow> code \<noteq> 200) tr"

text \<open>Every request acts on the limiter as one of the events of \<open>stepLogin\<close>.\<close>

lemma handleLogin_event:
  assumes "adminLimiter s = Some l" and "handleLogin lib t1 t2 jti r s = (resp, s')"
  shows "s' = s \<and> resp = errorJson 405 ''method not allowed'' \<or>
     (\<exists>ev l' g. stepLogin ev l = (l', g) \<and> adminLimiter s' = Some l' \<and>
        guessesOf ip g = (if loginClientIP (remoteAddr r) = ip \<and> resp = errorJson 401 ''invalid credentials'' then [t2] else []) \<and>
        ((\<exists>a. resp = Json 200 a) \<and> ev = Right (loginClientIP (remoteAddr r)) t1 t2 \<or>
         ev = Guess (loginClientIP (remoteAddr r)) t1 t2 \<or> ev = Ask (loginClientIP (remoteAddr r)) t1))"
proof (cases "httpMethod r = ''POST''")
  case True
  let ?ip = "loginClientIP (remoteAddr r)"
  obtain ok d l1 where a: "allowLogin l ?ip t1 = ((ok, d), l1)" by (metis prod.exhaust)
  have step: "stepLogin (Ask ?ip t1) l = (l1, [])" "ok \<Longrightarrow> stepLogin (Guess ?ip t1 t2) l = (recordFailure ?ip t2 l1, [(?ip, t2)])"
    "ok \<Longrightarrow> stepLogin (Right ?ip t1 t2) l = (recordSuccess ?ip l1, [])" by (simp_all add: a)
  have "adminLimiter s' = Some l1 \<and> resp \<noteq> errorJson 401 ''invalid credentials'' \<or>
      ok \<and> adminLimiter s' = Some (recordFailure ?ip t2 l1) \<and> resp = errorJson 401 ''invalid credentials'' \<or>
      ok \<and> adminLimiter s' = Some (recordSuccess ?ip l1) \<and> (\<exists>a. resp = Json 200 a)"
    using assms True a by (auto simp: handleLogin_def Let_def errorJson_def split: if_splits option.splits prod.splits sum.splits)
  then show ?thesis
  proof (elim disjE conjE)
    assume "adminLimiter s' = Some l1" "resp \<noteq> errorJson 401 ''invalid credentials''"
    with step(1) show ?thesis by (auto simp: guessesOf_def intro!: disjI2 exI [of _ "Ask ?ip t1"])
  next
    assume "ok" "adminLimiter s' = Some (recordFailure ?ip t2 l1)" "resp = errorJson 401 ''invalid credentials''"
    with step(2) show ?thesis by (intro disjI2 exI [of _ "Guess ?ip t1 t2"]) (auto simp: guessesOf_def)
  next
    assume "ok" "adminLimiter s' = Some (recordSuccess ?ip l1)" "\<exists>a. resp = Json 200 a"
    with step(3) show ?thesis by (intro disjI2 exI [of _ "Right ?ip t1 t2"]) (auto simp: guessesOf_def errorJson_def)
  qed
qed (use assms in \<open>simp add: handleLogin_def\<close>)

lemma inOrder_mono: "inOrder T' evs \<Longrightarrow> T \<le> T' \<Longrightarrow> inOrder T evs"
  by (cases "(T', evs)" rule: inOrder.cases) auto

text \<open>A request as the events it stands for, in front of any others.\<close>

lemma handleLogin_events:
  assumes "adminLimiter s = Some l" and "handleLogin lib t1 t2 jti r s = (resp, s')" and "T \<le> t1" and "t1 \<le> t2"
    and "neverLetIn ip [(loginClientIP (remoteAddr r), t2, resp)]"
  shows "\<exists>evs l'. adminLimiter s' = Some l' \<and> neverRight ip evs \<and> (\<forall>levs. inOrder t2 levs \<longrightarrow> inOrder T (evs @ levs)) \<and>
     (\<forall>levs. guessesOf ip (runLogin (evs @ levs) l) = wrongGuesses ip [(loginClientIP (remoteAddr r), t2, resp)] @ guessesOf ip (runLogin levs l'))"
  using handleLogin_event [OF assms(1,2), of ip]
proof (rule disjE)
  assume "s' = s \<and> resp = errorJson 405 ''method not allowed''"
  with assms show ?thesis
    by (intro exI [of _ "[]"] exI [of _ l]) (auto simp: neverRight_def wrongGuesses_def errorJson_def intro: inOrder_mono)
next
  assume "\<exists>ev l' g. stepLogin ev l = (l', g) \<and> adminLimiter s' = Some l' \<and>
    guessesOf ip g = (if loginClientIP (remoteAddr r) = ip \<and> resp = errorJson 401 ''invalid credentials'' then [t2] else []) \<and>
    ((\<exists>a. resp = Json 200 a) \<and> ev = Right (loginClientIP (remoteAddr r)) t1 t2 \<or>
      ev = Guess (loginClientIP (remoteAddr r)) t1 t2 \<or> ev = Ask (loginClientIP (remoteAddr r)) t1)"
  then obtain ev l' g where ev: "stepLogin ev l = (l', g)" "adminLimiter s' = Some l'"
    "guessesOf ip g = (if loginClientIP (remoteAddr r) = ip \<and> resp = errorJson 401 ''invalid credentials'' then [t2] else [])"
    and kind: "(\<exists>a. resp = Json 200 a) \<and> ev = Right (loginClientIP (remoteAddr r)) t1 t2 \<or>
      ev = Guess (loginClientIP (remoteAddr r)) t1 t2 \<or> ev = Ask (loginClientIP (remoteAddr r)) t1" by blast
  have "neverRight ip [ev]" using kind assms(5) by (auto simp: neverRight_def neverLetIn_def)
  moreover have "inOrder T ([ev] @ levs)" if "inOrder t2 levs" for levs
    using kind assms(3,4) that inOrder_mono [OF that assms(4)] by auto
  moreover have "guessesOf ip (runLogin ([ev] @ levs) l) =
      wrongGuesses ip [(loginClientIP (remoteAddr r), t2, resp)] @ guessesOf ip (runLogin levs l')" for levs
    using ev(1,3) by (simp add: guessesOf_def wrongGuesses_def)
  ultimately show ?thesis using ev(2) by blast
qed

lemma serveLogins_events:
  "adminLimiter s = Some l \<Longrightarrow> oneByOne T evs \<Longrightarrow> neverLetIn ip (serveLogins lib evs s) \<Longrightarrow>
     \<exists>levs. inOrder T levs \<and> neverRight ip levs \<and> guessesOf ip (runLogin levs l) = wrongGuesses ip (serveLogins lib evs s)"
proof (induction evs arbitrary: s l T)
  case Nil
  show ?case by (intro exI [of _ "[]"]) (simp add: neverRight_def guessesOf_def wrongGuesses_def)
next
  case (Cons e evs)
  show ?case
  proof (cases e)
    case (Login t1 t2 jti r)
    obtain resp s' where h: "handleLogin lib t1 t2 jti r s = (resp, s')" by (metis prod.exhaust)
    have le: "T \<le> t1" "t1 \<le> t2" "oneByOne t2 evs" using Cons.prems(2) by (simp_all add: Login)
    have never: "neverLetIn ip [(loginClientIP (remoteAddr r), t2, resp)]" "neverLetIn ip (serveLogins lib evs s')"
      using Cons.prems(3) by (simp_all add: Login h neverLetIn_def)
    from handleLogin_events [OF Cons.prems(1) h le(1,2) never(1)] obtain evs1 l' where 1: "adminLimiter s' = Some l'" "neverRight ip evs1"
      "inOrder t2 levs \<Longrightarrow> inOrder T (evs1 @ levs)"
      "guessesOf ip (runLogin (evs1 @ levs) l) = wrongGuesses ip [(loginClientIP (remoteAddr r), t2, resp)] @ guessesOf ip (runLogin levs l')" for levs
      by blast
    from Cons.IH [OF 1(1) le(3) never(2)] obtain levs where "inOrder t2 levs" "neverRight ip levs"
      "guessesOf ip (runLogin levs l') = wrongGuesses ip (serveLogins lib evs s')" by auto
    with 1 show ?thesis by (intro exI [of _ "evs1 @ levs"]) (simp add: Login h neverRight_def wrongGuesses_def)
  next
    case (Clean t)
    let ?s = "s\<lparr>adminLimiter := Some (evictIdle t l)\<rparr>"
    have "adminLimiter ?s = Some (evictIdle t l)" "oneByOne t evs" "neverLetIn ip (serveLogins lib evs ?s)"
      using Cons.prems by (simp_all add: Clean)
    from Cons.IH [OF this] obtain levs where levs: "inOrder t levs" "neverRight ip levs"
      "guessesOf ip (runLogin levs (evictIdle t l)) = wrongGuesses ip (serveLogins lib evs ?s)" by auto
    then show ?thesis using Cons.prems(1,2) by (intro exI [of _ "Sweep t # levs"]) (simp add: Clean neverRight_def)
  qed
qed

text \<open>
  C35. Guessing is bounded, when the login requests of all clients are served one after another and none of this client's succeeds (a login that succeeds clears
  the count): of the wrong passwords that \<open>handleLogin\<close> checks for the client, each sixth comes at least 60 seconds after the first of the six,
  whatever logins of other clients and evictions of idle entries come in between.
\<close>

theorem login_guess_bound:
  assumes "adminLimiter s = Some newLoginLimiter" and "oneByOne 0 evs" and "neverLetIn ip (serveLogins lib evs s)"
    and "i + 5 < length (wrongGuesses ip (serveLogins lib evs s))"
  shows "wrongGuesses ip (serveLogins lib evs s) ! i + 60 * second \<le> wrongGuesses ip (serveLogins lib evs s) ! (i + 5)"
  using serveLogins_events [OF assms(1-3)] runLogin_guess_bound assms(4) by metis

text \<open>Six requests with a wrong password.\<close>

definition six_logins :: "adminEvent list" where
  "six_logins = map (\<lambda>t. Login t t None sample_request) [1, 2, 3, 4, 5, 5 + 60 * second]"

lemma six_logins_served:
  "serveLogins sample_lib six_logins sample_admin =
     map (\<lambda>t. (''unknown'', t, errorJson 401 ''invalid credentials'')) [1, 2, 3, 4, 5, 5 + 60 * second]"
  by (simp add: six_logins_def handleLogin_def sample_request_def sample_lib_def sample_admin_def loginClientIP_def string_of_def
      newLoginLimiter_def allowLogin_def recordFailure_def touchLocked_def putEntry_def Let_def second_def)

theorem login_guess_bound_witness:
  "wrongGuesses ''unknown'' (serveLogins sample_lib six_logins sample_admin) ! 0 + 60 * second \<le>
     wrongGuesses ''unknown'' (serveLogins sample_lib six_logins sample_admin) ! (0 + 5)"
proof (rule login_guess_bound)
  show "oneByOne 0 six_logins" by (simp add: six_logins_def)
  show "neverLetIn ''unknown'' (serveLogins sample_lib six_logins sample_admin)"
    by (simp add: six_logins_served neverLetIn_def errorJson_def)
  show "adminLimiter sample_admin = Some newLoginLimiter" by (simp add: sample_admin_def)
qed (simp add: six_logins_served wrongGuesses_def)

section \<open>Setup\<close>

text \<open>
  The setup does not protect the server that is running: whatever user and password are set up, the protected routes
  stay open to everybody, and nobody can log in, until the server is started again.
\<close>

theorem setup_leaves_open:
  "case NewAdminServer [] [] (Some secret) of
     None \<Rightarrow> False
   | Some s \<Rightarrow>
       requireAuth lib now next r (snd (handleSetupComplete lib exists write q s)) =
         next None r (snd (handleSetupComplete lib exists write q s)) \<and>
       (\<exists>code e. fst (handleLogin lib t1 t2 jti r (snd (handleSetupComplete lib exists write q s))) = errorJson code e)"
proof -
  obtain s where s: "NewAdminServer [] [] (Some secret) = Some s" "authUser s = []" by (simp add: NewAdminServer_def)
  have "authUser (snd (handleSetupComplete lib exists write q s)) = []"
    using s(2) by (auto simp: handleSetupComplete_def split: option.split)
  moreover have "\<exists>code e. fst (handleLogin lib t1 t2 jti r s') = errorJson code e" if "authUser s' = []" for s'
    using that by (auto simp: handleLogin_def Let_def split: option.split prod.split)
  ultimately show ?thesis by (simp add: s(1) requireAuth_def)
qed

end
