(* ===== verification/Web_Stats.thy ===== *)
theory Web_Stats
  imports Complex_Main Cache_Entry
begin

text \<open>
  What the dashboard keeps of the queries: the ring buffer of the last queries (\<open>web/querylog.go\<close>), the leaderboards
  (\<open>web/toptracker.go\<close>), the time series (\<open>web/timeseries.go\<close>) and \<open>RecordQuery\<close> (\<open>web/server.go\<close>), which the handler calls for
  every query.  Locks are left out.  Counters are natural numbers and latencies rational ones.
\<close>

section \<open>The query log (querylog.go)\<close>

record QueryEntry =
  entryID :: nat
  ClientNum :: nat
  Timestamp :: time
  entryClient :: string
  entryQName :: string
  entryQType :: string
  entryRCode :: string
  entryCached :: bool
  DurationMs :: rat
  entryBlocked :: bool

text \<open>\<open>subs\<close> are the contents of the channels of the subscribers, each of 128 entries.\<close>

record QueryLog =
  ring :: "QueryEntry list"
  head :: nat
  ringCount :: nat
  capacity :: nat
  subs :: "nat \<rightharpoonup> QueryEntry list"
  nextSub :: nat

definition zeroEntry :: QueryEntry where
  "zeroEntry = \<lparr>entryID = 0, ClientNum = 0, Timestamp = 0, entryClient = [], entryQName = [], entryQType = [], entryRCode = [],
     entryCached = False, DurationMs = 0, entryBlocked = False\<rparr>"

definition NewQueryLog :: "int \<Rightarrow> QueryLog" where
  "NewQueryLog n =
     (let c = (if n \<le> 0 then 1000 else nat n) in
      \<lparr>ring = replicate c zeroEntry, head = 0, ringCount = 0, capacity = c, subs = Map.empty, nextSub = 0\<rparr>)"

definition offer :: "QueryEntry \<Rightarrow> QueryEntry list \<Rightarrow> QueryEntry list" where
  "offer e ch = (if length ch < 128 then ch @ [e] else ch)"

definition RecordEntry :: "QueryEntry \<Rightarrow> QueryLog \<Rightarrow> QueryLog" where
  "RecordEntry e ql =
     ql\<lparr>ring := (ring ql)[head ql := e], head := (head ql + 1) mod capacity ql,
        ringCount := (if ringCount ql < capacity ql then ringCount ql + 1 else ringCount ql),
        subs := (\<lambda>id. map_option (offer e) (subs ql id))\<rparr>"

definition Recent :: "QueryLog \<Rightarrow> int \<Rightarrow> QueryEntry list" where
  "Recent ql n =
     (let n = (if int (ringCount ql) < n then int (ringCount ql) else n) in
      if n \<le> 0 then []
      else map (\<lambda>i. ring ql ! nat ((int (head ql) - n + int i + int (capacity ql)) mod int (capacity ql))) [0..<nat n])"

definition Subscribe :: "QueryLog \<Rightarrow> nat \<times> QueryLog" where
  "Subscribe ql = (let id = nextSub ql + 1 in (id, ql\<lparr>nextSub := id, subs := (subs ql)(id \<mapsto> [])\<rparr>))"

definition Unsubscribe :: "nat \<Rightarrow> QueryLog \<Rightarrow> QueryLog" where
  "Unsubscribe n ql = ql\<lparr>subs := (subs ql)(n := None)\<rparr>"

section \<open>Leaderboards (toptracker.go)\<close>

text \<open>
  The counts are an association list in the order in which Go happens to walk over the map.  \<open>desc\<close> stands for \<open>sort.Slice\<close>, which puts
  the entries in descending order of their counts and leaves the order of equal ones open.
\<close>

type_synonym TopEntry = "string \<times> nat"

record TopTracker =
  counts :: "TopEntry list"
  topLimit :: nat

definition NewTopTracker :: "int \<Rightarrow> TopTracker" where
  "NewTopTracker n = \<lparr>counts = [], topLimit = (if n \<le> 0 then 20 else nat n)\<rparr>"

fun bump :: "string \<Rightarrow> TopEntry list \<Rightarrow> TopEntry list" where
  "bump key [] = [(key, 1)]"
| "bump key ((k, c) # rest) = (if k = key then (k, c + 1) # rest else (k, c) # bump key rest)"

definition prune :: "(TopEntry list \<Rightarrow> TopEntry list) \<Rightarrow> TopTracker \<Rightarrow> TopTracker" where
  "prune desc t = t\<lparr>counts := take (topLimit t * 2) (desc (counts t))\<rparr>"

definition Inc :: "(TopEntry list \<Rightarrow> TopEntry list) \<Rightarrow> string \<Rightarrow> TopTracker \<Rightarrow> TopTracker" where
  "Inc desc key t =
     (let t = t\<lparr>counts := bump key (counts t)\<rparr> in if topLimit t * 10 < length (counts t) then prune desc t else t)"

definition TopPage :: "(TopEntry list \<Rightarrow> TopEntry list) \<Rightarrow> TopTracker \<Rightarrow> int \<Rightarrow> int \<Rightarrow> TopEntry list \<times> nat" where
  "TopPage desc t limit offset =
     (let limit = (if limit \<le> 0 then topLimit t else nat limit);
          offset = nat offset;
          entries = desc (counts t);
          total = length entries in
      if total \<le> offset then ([], total) else (take limit (drop offset entries), total))"

definition Top :: "(TopEntry list \<Rightarrow> TopEntry list) \<Rightarrow> TopTracker \<Rightarrow> int \<Rightarrow> TopEntry list" where
  "Top desc t n = fst (TopPage desc t n 0)"

section \<open>Time series (timeseries.go)\<close>

text \<open>
  A bucket starts at a whole second, so that its time is the same before and after it is formatted as text; it is kept as the
  number of seconds.
\<close>

definition maxBuckets :: nat where "maxBuckets = 86400"

record Bucket =
  bucketTime :: nat
  bQueries :: nat
  bHits :: nat
  bMisses :: nat
  bErrors :: nat
  AvgLatencyMs :: rat
  CacheHitRatio :: rat
  bFallbackQueries :: nat
  bFallbackRecoveries :: nat

record activeBucket =
  acTime :: nat
  acQueries :: nat
  acHits :: nat
  acMisses :: nat
  acErrors :: nat
  totalLatency :: rat
  acFallbackQueries :: nat
  acFallbackRecoveries :: nat

record TimeSeries =
  buckets :: "Bucket list"
  current :: "activeBucket option"

definition NewTimeSeriesAggregator :: TimeSeries where
  "NewTimeSeriesAggregator = \<lparr>buckets = [], current = None\<rparr>"

definition newActive :: "nat \<Rightarrow> activeBucket" where
  "newActive t = \<lparr>acTime = t, acQueries = 0, acHits = 0, acMisses = 0, acErrors = 0, totalLatency = 0, acFallbackQueries = 0, acFallbackRecoveries = 0\<rparr>"

definition emptyBucket :: "nat \<Rightarrow> Bucket" where
  "emptyBucket t = \<lparr>bucketTime = t, bQueries = 0, bHits = 0, bMisses = 0, bErrors = 0, AvgLatencyMs = 0, CacheHitRatio = 0,
     bFallbackQueries = 0, bFallbackRecoveries = 0\<rparr>"

definition closeBucket :: "activeBucket \<Rightarrow> Bucket" where
  "closeBucket a =
     \<lparr>bucketTime = acTime a, bQueries = acQueries a, bHits = acHits a, bMisses = acMisses a, bErrors = acErrors a,
      AvgLatencyMs = totalLatency a / of_nat (acQueries a), CacheHitRatio = 0,
      bFallbackQueries = acFallbackQueries a, bFallbackRecoveries = acFallbackRecoveries a\<rparr>"

definition flushCurrent :: "TimeSeries \<Rightarrow> TimeSeries" where
  "flushCurrent ts =
     (let bs = (case current ts of
                  None \<Rightarrow> buckets ts
                | Some a \<Rightarrow> buckets ts @ [if acQueries a = 0 then emptyBucket (acTime a) else closeBucket a]) in
      ts\<lparr>buckets := drop (length bs - maxBuckets) bs\<rparr>)"

definition rotate :: "time \<Rightarrow> TimeSeries \<Rightarrow> TimeSeries" where
  "rotate now ts =
     (let bucketStart = now div second in
      case current ts of
        None \<Rightarrow> ts\<lparr>current := Some (newActive bucketStart)\<rparr>
      | Some a \<Rightarrow> if bucketStart = acTime a then ts else (flushCurrent ts)\<lparr>current := Some (newActive bucketStart)\<rparr>)"

definition RecordSeries :: "time \<Rightarrow> bool \<Rightarrow> rat \<Rightarrow> bool \<Rightarrow> TimeSeries \<Rightarrow> TimeSeries" where
  "RecordSeries now cached latencyMs isError ts =
     (let ts = rotate now ts in
      ts\<lparr>current := map_option (\<lambda>a. a\<lparr>acQueries := acQueries a + 1, totalLatency := totalLatency a + latencyMs,
           acHits := acHits a + (if cached then 1 else 0), acMisses := acMisses a + (if cached then 0 else 1),
           acErrors := acErrors a + (if isError then 1 else 0)\<rparr>) (current ts)\<rparr>)"

definition RecordFallback :: "time \<Rightarrow> nat \<Rightarrow> nat \<Rightarrow> TimeSeries \<Rightarrow> TimeSeries" where
  "RecordFallback now query recovery ts =
     (let ts = rotate now ts in
      ts\<lparr>current := map_option (\<lambda>a. a\<lparr>acFallbackQueries := acFallbackQueries a + query, acFallbackRecoveries := acFallbackRecoveries a + recovery\<rparr>) (current ts)\<rparr>)"

text \<open>\<open>!t.Before(now.Add(-window))\<close> is \<open>now \<le> t + window\<close>, in nanoseconds.\<close>

definition inWindow :: "time \<Rightarrow> nat \<Rightarrow> nat \<Rightarrow> bool" where
  "inWindow now window t \<longleftrightarrow> now \<le> t * second + window"

definition Snapshot :: "time \<Rightarrow> nat \<Rightarrow> TimeSeries \<Rightarrow> Bucket list \<times> TimeSeries" where
  "Snapshot now window ts =
     (let ts = rotate now ts in
      (filter (\<lambda>b. inWindow now window (bucketTime b)) (buckets ts) @
       (case current ts of
          None \<Rightarrow> []
        | Some a \<Rightarrow> if 0 < acQueries a \<and> inWindow now window (acTime a) then [closeBucket a] else []), ts))"

record seriesAcc =
  accStart :: nat
  accQueries :: nat
  accHits :: nat
  accMisses :: nat
  accErrors :: nat
  accLatency :: rat
  accFallbackQueries :: nat
  accFallbackRecoveries :: nat

definition newAcc :: "nat \<Rightarrow> seriesAcc" where
  "newAcc t = \<lparr>accStart = t, accQueries = 0, accHits = 0, accMisses = 0, accErrors = 0, accLatency = 0, accFallbackQueries = 0, accFallbackRecoveries = 0\<rparr>"

definition addTo :: "Bucket \<Rightarrow> seriesAcc \<Rightarrow> seriesAcc" where
  "addTo b g =
     g\<lparr>accQueries := accQueries g + bQueries b, accHits := accHits g + bHits b, accMisses := accMisses g + bMisses b,
       accErrors := accErrors g + bErrors b, accLatency := accLatency g + AvgLatencyMs b * of_nat (bQueries b),
       accFallbackQueries := accFallbackQueries g + bFallbackQueries b, accFallbackRecoveries := accFallbackRecoveries g + bFallbackRecoveries b\<rparr>"

text \<open>The groups are built from the front; the last one is open.\<close>

definition addGroup :: "nat \<Rightarrow> Bucket \<Rightarrow> seriesAcc list \<Rightarrow> seriesAcc list" where
  "addGroup intervalSec b groups =
     (let groupStart = bucketTime b - bucketTime b mod intervalSec;
          groups = (if groups = [] \<or> accStart (last groups) \<noteq> groupStart then groups @ [newAcc groupStart] else groups) in
      butlast groups @ [addTo b (last groups)])"

definition hitRatio :: "nat \<Rightarrow> nat \<Rightarrow> rat" where
  "hitRatio hits misses = (if 0 < hits + misses then of_nat hits / of_nat (hits + misses) else 0)"

definition closeGroup :: "seriesAcc \<Rightarrow> Bucket" where
  "closeGroup g =
     \<lparr>bucketTime = accStart g, bQueries = accQueries g, bHits = accHits g, bMisses = accMisses g, bErrors = accErrors g,
      AvgLatencyMs = (if 0 < accQueries g then accLatency g / of_nat (accQueries g) else 0),
      CacheHitRatio = hitRatio (accHits g) (accMisses g),
      bFallbackQueries = accFallbackQueries g, bFallbackRecoveries = accFallbackRecoveries g\<rparr>"

definition withRatio :: "Bucket \<Rightarrow> Bucket" where
  "withRatio b = (if 0 < bHits b + bMisses b then b\<lparr>CacheHitRatio := hitRatio (bHits b) (bMisses b)\<rparr> else b)"

definition SnapshotAggregated :: "time \<Rightarrow> nat \<Rightarrow> nat \<Rightarrow> TimeSeries \<Rightarrow> Bucket list \<times> TimeSeries" where
  "SnapshotAggregated now window interval ts =
     (case Snapshot now window ts of (raw, ts) \<Rightarrow>
        (if raw = [] \<or> interval \<le> second then map withRatio raw
         else map closeGroup (fold (addGroup (interval div second)) raw []), ts))"

section \<open>Recording a query (server.go)\<close>

record clientEntry =
  clientCount :: nat
  lastAccess :: time

record Dashboard =
  queryLog :: QueryLog
  timeSeries :: TimeSeries
  nextID :: nat
  topClients :: TopTracker
  topDomains :: TopTracker
  clientQueryNum :: "string \<rightharpoonup> clientEntry"
  clientCleanupInterval :: nat

definition NewDashboard :: "int \<Rightarrow> int \<Rightarrow> int \<Rightarrow> Dashboard" where
  "NewDashboard bufSize clients domains =
     \<lparr>queryLog = NewQueryLog (if bufSize \<le> 0 then 1000 else bufSize), timeSeries = NewTimeSeriesAggregator, nextID = 0,
      topClients = NewTopTracker (max 1000 clients), topDomains = NewTopTracker (max 1000 domains),
      clientQueryNum = Map.empty, clientCleanupInterval = 5 * 60 * second\<rparr>"

definition RecordQuery :: "(TopEntry list \<Rightarrow> TopEntry list) \<Rightarrow> time \<Rightarrow> string \<Rightarrow> string \<Rightarrow> string \<Rightarrow> string \<Rightarrow> bool \<Rightarrow> rat \<Rightarrow> Dashboard \<Rightarrow> Dashboard" where
  "RecordQuery desc now client qname qtype rcode cached durationMs d =
     (let id = nextID d + 1;
          n = (case clientQueryNum d client of None \<Rightarrow> 0 | Some e \<Rightarrow> clientCount e) + 1;
          e = \<lparr>entryID = id, ClientNum = n, Timestamp = now, entryClient = client, entryQName = qname, entryQType = qtype, entryRCode = rcode,
               entryCached = cached, DurationMs = durationMs, entryBlocked = (rcode = ''BLOCKED'')\<rparr>;
          isError = (rcode = ''SERVFAIL'' \<or> rcode = ''FORMERR'' \<or> rcode = ''REFUSED'') in
      d\<lparr>nextID := id, topClients := Inc desc client (topClients d), topDomains := Inc desc qname (topDomains d),
        clientQueryNum := (clientQueryNum d)(client \<mapsto> \<lparr>clientCount = n, lastAccess = now\<rparr>),
        queryLog := RecordEntry e (queryLog d), timeSeries := RecordSeries now cached durationMs isError (timeSeries d)\<rparr>)"

definition cleanupStaleClients :: "time \<Rightarrow> Dashboard \<Rightarrow> Dashboard" where
  "cleanupStaleClients now d =
     d\<lparr>clientQueryNum := (\<lambda>ip. case clientQueryNum d ip of
          None \<Rightarrow> None
        | Some e \<Rightarrow> if lastAccess e + clientCleanupInterval d * 2 < now then None else Some e)\<rparr>"

end
