(* ===== verification/Last_Events.thy ===== *)
theory Last_Events
  imports Prelude
begin

text \<open>
  Buffers that keep the last events: the interface between the ring buffers of the sources (the query log of the
  dashboard, the fallback events of the metrics) and what is shown of them.  \<open>inv n s\<close> says that \<open>s\<close> is a state of the
  buffer after \<open>n\<close> events; \<open>limit\<close> is the number of events for which the buffer keeps its promise.
\<close>

lemma drop_last_idem:
  assumes k: "k = length xs - c"
  shows "drop (length (drop k xs @ ys) - c) (drop k xs @ ys) = drop (length (xs @ ys) - c) (xs @ ys)"
proof -
  have "drop k xs @ ys = drop k (xs @ ys)" by (simp add: k)
  moreover have "length (drop k (xs @ ys)) - c + k = length (xs @ ys) - c" by (auto simp: k)
  ultimately show ?thesis by (simp only: drop_drop)
qed

locale last_events =
  fixes inv :: "nat \<Rightarrow> 's \<Rightarrow> bool" and add :: "'e \<Rightarrow> 's \<Rightarrow> 's" and view :: "'s \<Rightarrow> 'e list" and cap :: nat and limit :: nat
  assumes inv_add: "inv n s \<Longrightarrow> n < limit \<Longrightarrow> inv (Suc n) (add e s)"
    and view_add: "inv n s \<Longrightarrow> n < limit \<Longrightarrow> view (add e s) = drop (Suc (length (view s)) - cap) (view s @ [e])"
begin

lemma view_fold:
  assumes "inv n s" and "n + length es \<le> limit" and "length (view s) \<le> cap"
  shows "view (fold add es s) = drop (length (view s @ es) - cap) (view s @ es)"
  using assms
proof (induction es arbitrary: n s)
  case (Cons e es)
  have v: "view (add e s) = drop (Suc (length (view s)) - cap) (view s @ [e])" using Cons.prems by (intro view_add [of n]) auto
  have "view (fold add es (add e s)) = drop (length (view (add e s) @ es) - cap) (view (add e s) @ es)"
    using Cons.prems inv_add [of n s e] by (intro Cons.IH [of "Suc n"]) (auto simp: v)
  also have "\<dots> = drop (length ((view s @ [e]) @ es) - cap) ((view s @ [e]) @ es)"
    using drop_last_idem [OF refl, of "view s @ [e]" cap es] by (simp add: v)
  finally show ?case by simp
qed simp

lemma view_last: "inv 0 s \<Longrightarrow> view s = [] \<Longrightarrow> length es \<le> limit \<Longrightarrow> view (fold add es s) = drop (length es - cap) es"
  using view_fold [of 0 s es] by simp

end

end
