(* ===== verification/Web_Stats_Properties.thy ===== *)
theory Web_Stats_Properties
  imports Web_Stats Last_Events "HOL-Library.Multiset"
begin

text \<open>
  The ring buffer refines a list, the leaderboards stay small and never count too much, and the aggregation of the time
  series loses no query, while fallback events of quiet seconds are lost.
\<close>

section \<open>The ring buffer\<close>

definition holds :: "QueryLog \<Rightarrow> QueryEntry list \<Rightarrow> bool" where
  "holds ql L \<longleftrightarrow> 0 < capacity ql \<and> length (ring ql) = capacity ql \<and> head ql = length L mod capacity ql \<and>
     ringCount ql = min (capacity ql) (length L) \<and>
     (\<forall>j < length L. length L \<le> j + capacity ql \<longrightarrow> ring ql ! (j mod capacity ql) = L ! j)"

lemma holds_new: "holds (NewQueryLog n) []"
  by (simp add: holds_def NewQueryLog_def Let_def)

lemma mod_apart:
  assumes "j < m" and "m < j + c"
  shows "j mod c \<noteq> m mod (c :: nat)"
proof
  assume "j mod c = m mod c"
  then have "c dvd m - j" using assms(1) mod_eq_dvd_iff_nat [of j m c] by simp
  then show False using assms by (auto dest: dvd_imp_le)
qed

lemma holds_RecordEntry:
  assumes "holds ql L"
  shows "holds (RecordEntry e ql) (L @ [e])"
proof -
  let ?c = "capacity ql"
  note h = assms [unfolded holds_def]
  have "(ring ql)[length L mod ?c := e] ! (j mod ?c) = (L @ [e]) ! j" if "j < length (L @ [e])" "length (L @ [e]) \<le> j + ?c" for j
  proof (cases "j = length L")
    case True
    then show ?thesis using h by simp
  next
    case False
    then have "j < length L" "length L < j + ?c" using that by auto
    then show ?thesis using h mod_apart [of j "length L" ?c] by (simp add: nth_append)
  qed
  then show ?thesis using h by (auto simp: holds_def RecordEntry_def mod_Suc_eq)
qed

lemma holds_fold: "holds ql L \<Longrightarrow> holds (fold RecordEntry es ql) (L @ es)"
  by (induction es arbitrary: ql L) (use holds_RecordEntry in fastforce)+

lemma Recent_holds:
  assumes "holds ql L"
  shows "Recent ql n = drop (length L - min (nat n) (min (capacity ql) (length L))) L"
proof -
  note h = assms [unfolded holds_def]
  let ?c = "capacity ql" and ?k = "min (nat n) (min (capacity ql) (length L))"
  have idx: "nat ((int (length L mod ?c) - int ?k + int i + int ?c) mod int ?c) = (length L - ?k + i) mod ?c" for i
  proof -
    have "(int (length L mod ?c) - int ?k + int i + int ?c) mod int ?c = (int (length L) mod int ?c + (int i - int ?k)) mod int ?c"
    proof -
      have "int (length L mod ?c) - int ?k + int i + int ?c = (int (length L) mod int ?c + (int i - int ?k)) + int ?c" by (simp add: zmod_int)
      then show ?thesis by (simp only: mod_add_self2)
    qed
    also have "\<dots> = (int (length L) + (int i - int ?k)) mod int ?c" by (rule mod_add_left_eq)
    also have "int (length L) + (int i - int ?k) = int (length L - ?k + i)" by (simp add: of_nat_diff)
    finally show ?thesis by (simp only: nat_int flip: zmod_int)
  qed
  have "Recent ql n = map (\<lambda>i. ring ql ! ((length L - ?k + i) mod ?c)) [0..<?k]"
  proof (cases "n \<le> 0")
    case True
    then show ?thesis by (simp add: Recent_def Let_def)
  next
    case False
    then have "(if int (ringCount ql) < n then int (ringCount ql) else n) = int ?k" using h by auto
    then show ?thesis using h False idx by (simp add: Recent_def Let_def)
  qed
  also have "\<dots> = map (\<lambda>i. L ! (length L - ?k + i)) [0..<?k]"
    using h by (intro map_cong refl) auto
  also have "\<dots> = drop (length L - ?k) L"
    by (rule nth_equalityI) auto
  finally show ?thesis .
qed

text \<open>The query log as a buffer of the last events.\<close>

interpretation qlog: last_events "\<lambda>n ql. capacity ql = c \<and> (\<exists>L. holds ql L \<and> length L = n)" RecordEntry "\<lambda>ql. Recent ql (int c)" c limit
  for c limit
proof
  fix n ql e
  assume "capacity ql = c \<and> (\<exists>L. holds ql L \<and> length L = n)"
  then obtain L where L: "holds ql L" "length L = n" "capacity ql = c" by blast
  have r: "holds (RecordEntry e ql) (L @ [e])" "capacity (RecordEntry e ql) = c" using holds_RecordEntry [OF L(1)] L(3) by (simp_all add: RecordEntry_def)
  then show "capacity (RecordEntry e ql) = c \<and> (\<exists>L'. holds (RecordEntry e ql) L' \<and> length L' = Suc n)" using L(2) by auto
  have v: "length L - min (nat (int c)) (min c (length L)) = length L - c" for L :: "QueryEntry list" by auto
  show "Recent (RecordEntry e ql) (int c) = drop (Suc (length (Recent ql (int c))) - c) (Recent ql (int c) @ [e])"
    using drop_last_idem [of "length L - c" L c "[e]"] unfolding Recent_holds [OF L(1)] Recent_holds [OF r(1)] L(3) r(2) v by simp
qed

text \<open>
  The ring buffer is the list of the last queries: after any queries have been recorded, \<open>Recent\<close> gives the last \<open>n\<close> of
  them, as many as there are and as the buffer holds, in the order in which they were recorded.
\<close>

theorem Recent_last:
  "Recent (fold RecordEntry es (NewQueryLog cap)) n =
     (let c = if cap \<le> 0 then 1000 else nat cap in drop (length es - min (nat n) (min c (length es))) es)"
proof -
  have "capacity (fold RecordEntry es ql) = capacity ql" for ql
    by (induction es arbitrary: ql) (simp_all add: RecordEntry_def)
  then have "capacity (fold RecordEntry es (NewQueryLog cap)) = (if cap \<le> 0 then 1000 else nat cap)"
    by (simp add: NewQueryLog_def Let_def)
  then show ?thesis using Recent_holds [OF holds_fold [OF holds_new [of cap], of es], of n] by (simp add: Let_def)
qed

section \<open>Leaderboards\<close>

lemma bump_keys: "fst ` set (bump k xs) = insert k (fst ` set xs)"
  by (induction k xs rule: bump.induct) auto

lemma bump_distinct: "distinct (map fst xs) \<Longrightarrow> distinct (map fst (bump k xs))"
proof (induction k xs rule: bump.induct)
  case (2 key k c rest)
  then show ?case using bump_keys [of key rest] by auto
qed simp

lemma bump_count: "(k', c) \<in> set (bump k xs) \<Longrightarrow> distinct (map fst xs) \<Longrightarrow>
   (k', c) \<in> set xs \<and> k' \<noteq> k \<or> k' = k \<and> c = 1 \<and> k \<notin> fst ` set xs \<or> k' = k \<and> (\<exists>c'. (k, c') \<in> set xs \<and> c = c' + 1)"
  by (induction k xs rule: bump.induct) (auto simp: rev_image_eqI split: if_splits)

lemma length_bump: "length (bump k xs) \<le> length xs + 1"
  by (induction k xs rule: bump.induct) auto

definition tally :: "string list \<Rightarrow> TopTracker \<Rightarrow> bool" where
  "tally ks t \<longleftrightarrow> 0 < topLimit t \<and> length (counts t) \<le> topLimit t * 10 \<and> distinct (map fst (counts t)) \<and>
     (\<forall>(k, c)\<in>set (counts t). c \<le> count_list ks k)"

lemma tally_Inc:
  assumes "tally ks t" and desc: "\<And>xs. mset (desc xs) = mset xs"
  shows "tally (ks @ [k]) (Inc desc k t)" and "topLimit (Inc desc k t) = topLimit t"
proof -
  note t = assms(1) [unfolded tally_def]
  let ?b = "bump k (counts t)"
  have d: "distinct (map fst ?b)" using t bump_distinct by blast
  have c: "c \<le> count_list (ks @ [k]) k'" if "(k', c) \<in> set ?b" for k' c
    using bump_count [OF that] t by fastforce
  have dm: "distinct (map fst (take m (desc ?b)))" for m
  proof -
    have "mset (map fst (desc ?b)) = mset (map fst ?b)" by (simp add: desc)
    then have "distinct (map fst (desc ?b))" using d by (metis mset_eq_imp_distinct_iff)
    then show ?thesis by (metis distinct_take take_map)
  qed
  have "set (desc ?b) = set ?b" using desc by (metis mset_eq_setD)
  then have dc: "c \<le> count_list (ks @ [k]) k'" if "(k', c) \<in> set (take m (desc ?b))" for m k' c
    using that c by (metis in_set_takeD)
  show "tally (ks @ [k]) (Inc desc k t)"
    using t d c dm dc by (auto simp: tally_def Inc_def prune_def Let_def)
  show "topLimit (Inc desc k t) = topLimit t" by (simp add: Inc_def prune_def Let_def)
qed

text \<open>
  Leaderboards are bounded and honest: after any sequence of keys, at most ten times the limit are kept, each once, and
  none is credited with more than it occurred, however entries are pruned.
\<close>

theorem leaderboard_bounded:
  assumes "\<And>xs. mset (desc xs) = mset xs"
  shows "length (counts (fold (Inc desc) ks (NewTopTracker n))) \<le> (if n \<le> 0 then 20 else nat n) * 10 \<and>
     distinct (map fst (counts (fold (Inc desc) ks (NewTopTracker n)))) \<and>
     (\<forall>(k, c)\<in>set (counts (fold (Inc desc) ks (NewTopTracker n))). c \<le> count_list ks k)"
proof -
  have "tally (ks0 @ ks) (fold (Inc desc) ks t) \<and> topLimit (fold (Inc desc) ks t) = topLimit t" if "tally ks0 t" for ks0 t
    using that
  proof (induction ks arbitrary: ks0 t)
    case (Cons k ks)
    from Cons.IH [OF tally_Inc(1) [OF Cons.prems assms, of k]] show ?case using tally_Inc(2) [OF Cons.prems assms, of k] by simp
  qed simp
  moreover have "tally [] (NewTopTracker n)" by (simp add: tally_def NewTopTracker_def)
  ultimately show ?thesis by (fastforce simp: tally_def NewTopTracker_def)
qed

definition byCount :: "TopEntry list \<Rightarrow> TopEntry list" where
  "byCount xs = rev (sort_key snd xs)"

theorem leaderboard_bounded_witness:
  "length (counts (fold (Inc byCount) [''a'', ''b'', ''a''] (NewTopTracker 5))) \<le> 50"
  using leaderboard_bounded [of byCount "[''a'', ''b'', ''a'']" 5] by (simp add: byCount_def)

section \<open>Time series\<close>

text \<open>A counter of the groups that starts at 0 and adds up the counter of the buckets.\<close>

definition adds_up :: "(seriesAcc \<Rightarrow> nat) \<Rightarrow> (Bucket \<Rightarrow> nat) \<Rightarrow> bool" where
  "adds_up f v \<longleftrightarrow> (\<forall>t. f (newAcc t) = 0) \<and> (\<forall>b g. f (addTo b g) = f g + v b)"

lemma sum_addGroup:
  assumes "adds_up f v"
  shows "sum_list (map f (addGroup i b gs)) = sum_list (map f gs) + v b"
proof (cases gs rule: rev_cases)
  case Nil
  then show ?thesis using assms by (simp add: addGroup_def adds_up_def)
next
  case (snoc hs g)
  have "butlast (hs @ [g, x]) = hs @ [g]" for x by (simp add: butlast_append)
  then show ?thesis using assms by (simp add: snoc addGroup_def adds_up_def Let_def)
qed

lemma sum_groups:
  assumes "adds_up f v"
  shows "sum_list (map f (fold (addGroup i) bs gs)) = sum_list (map f gs) + sum_list (map v bs)"
  by (induction bs arbitrary: gs) (simp_all add: sum_addGroup [OF assms])

lemma counters_add_up:
  "adds_up accQueries bQueries" "adds_up accHits bHits" "adds_up accErrors bErrors" "adds_up accFallbackQueries bFallbackQueries"
  by (simp_all add: adds_up_def newAcc_def addTo_def)

text \<open>
  Aggregation loses nothing: over every window and every interval, the buckets of \<open>SnapshotAggregated\<close> add up to the same
  numbers of queries, cache hits, errors and fallback queries as the seconds they are made of.
\<close>

theorem aggregation_conserves:
  "(\<lambda>bs. (sum_list (map bQueries bs), sum_list (map bHits bs), sum_list (map bErrors bs), sum_list (map bFallbackQueries bs)))
     (fst (SnapshotAggregated now window interval ts)) =
   (\<lambda>bs. (sum_list (map bQueries bs), sum_list (map bHits bs), sum_list (map bErrors bs), sum_list (map bFallbackQueries bs)))
     (fst (Snapshot now window ts))"
proof -
  obtain raw ts' where s: "Snapshot now window ts = (raw, ts')" by (metis prod.exhaust)
  have ratio: "bQueries (withRatio b) = bQueries b" "bHits (withRatio b) = bHits b" "bErrors (withRatio b) = bErrors b"
    "bFallbackQueries (withRatio b) = bFallbackQueries b" for b by (simp_all add: withRatio_def)
  have close: "bQueries (closeGroup g) = accQueries g" "bHits (closeGroup g) = accHits g" "bErrors (closeGroup g) = accErrors g"
    "bFallbackQueries (closeGroup g) = accFallbackQueries g" for g by (simp_all add: closeGroup_def)
  show ?thesis by (simp add: SnapshotAggregated_def s o_def ratio close counters_add_up [THEN sum_groups])
qed

text \<open>
  Fallback events of a second without queries are lost: no snapshot, at any time and of any window, shows them.
\<close>

theorem quiet_fallback_lost:
  "sum_list (map bFallbackQueries (fst (Snapshot later window (RecordFallback now q r NewTimeSeriesAggregator)))) = 0"
  by (simp add: Snapshot_def RecordFallback_def rotate_def NewTimeSeriesAggregator_def newActive_def flushCurrent_def emptyBucket_def
      maxBuckets_def Let_def)

end
