(* ===== verification/Config_Yaml.thy ===== *)
theory Config_Yaml
  imports Blocklist
begin

text \<open>
  The reader of configuration files (\<open>config/yaml.go\<close>): a loop over the lines of the file, whose state is the values
  read so far, the stack of section names, the key to which array items belong and the indentation of the last key.  The
  map of the values is an association list with distinct keys; where the code ranges over it, the order is a parameter.
\<close>

section \<open>Cutting characters off strings\<close>

definition TrimLeft :: "(char \<Rightarrow> bool) \<Rightarrow> string \<Rightarrow> string" where
  "TrimLeft cutset s = dropWhile cutset s"

definition TrimRight :: "(char \<Rightarrow> bool) \<Rightarrow> string \<Rightarrow> string" where
  "TrimRight cutset s = rev (dropWhile cutset (rev s))"

definition Trim :: "(char \<Rightarrow> bool) \<Rightarrow> string \<Rightarrow> string" where
  "Trim cutset s = TrimRight cutset (TrimLeft cutset s)"

definition quoteMark :: "char \<Rightarrow> bool" where
  "quoteMark c \<longleftrightarrow> c = char_of (34 :: nat) \<or> c = char_of (39 :: nat)"

definition lineEnd :: "char \<Rightarrow> bool" where
  "lineEnd c \<longleftrightarrow> c = CHR '' '' \<or> c = char_of (9 :: nat) \<or> c = char_of (13 :: nat)"

text \<open>The three bytes of the byte order mark in UTF-8.\<close>

definition bom :: string where
  "bom = [char_of (0xEF :: nat), char_of (0xBB :: nat), char_of (0xBF :: nat)]"

section \<open>The loop over the lines\<close>

type_synonym Values = "(string \<times> string) list"

record yamlState =
  yamlResult :: Values
  sections :: "string list"
  lastKey :: string
  prevIndent :: int

text \<open>A key below the open sections.\<close>

definition sectionKey :: "string list \<Rightarrow> string \<Rightarrow> string" where
  "sectionKey secs key = (if secs \<noteq> [] then Join dot secs @ ''.'' @ key else key)"

text \<open>What the loop does with the content of a line, after sections have been closed: an array item, a key, or nothing.\<close>

definition yamlItem :: "string \<Rightarrow> yamlState \<Rightarrow> yamlState" where
  "yamlItem content st =
     (let value = Trim quoteMark (TrimSpace (drop 2 content)) in
      if lastKey st \<noteq> [] \<and> value \<noteq> [] then
        (case map_of (yamlResult st) (lastKey st) of
           Some existing \<Rightarrow>
             if existing \<noteq> [] then st\<lparr>yamlResult := AList.update (lastKey st) (existing @ '','' @ value) (yamlResult st)\<rparr>
             else st\<lparr>yamlResult := AList.update (lastKey st) value (yamlResult st)\<rparr>
         | None \<Rightarrow> st\<lparr>yamlResult := AList.update (lastKey st) value (yamlResult st)\<rparr>)
      else st)"

definition yamlKey :: "int \<Rightarrow> string \<Rightarrow> yamlState \<Rightarrow> yamlState" where
  "yamlKey indent content st =
     (case IndexByte content (CHR '':'') of
        None \<Rightarrow> st
      | Some i \<Rightarrow>
          (let key = TrimSpace (take i content);
               value = Trim quoteMark (TrimSpace (drop (i + 1) content));
               fullKey = sectionKey (sections st) key in
           if value = [] then
             \<lparr>yamlResult = AList.update fullKey [] (yamlResult st), sections = sections st @ [key], lastKey = fullKey, prevIndent = indent\<rparr>
           else st\<lparr>yamlResult := AList.update fullKey value (yamlResult st), lastKey := fullKey, prevIndent := indent\<rparr>))"

definition yamlLine :: "string \<Rightarrow> yamlState \<Rightarrow> yamlState" where
  "yamlLine line st =
     (let line = (case IndexByte line (CHR ''#'') of None \<Rightarrow> line | Some idx \<Rightarrow> take idx line);
          trimmed = TrimRight lineEnd line in
      if trimmed = [] then st
      else (let indent = length line - length (TrimLeft (\<lambda>c. c = CHR '' '') line);
                content = TrimSpace trimmed;
                st = (if int indent \<le> prevIndent st \<and> sections st \<noteq> [] then st\<lparr>sections := take (indent div 2) (sections st)\<rparr> else st) in
            if HasPrefix content ''- '' then yamlItem content st else yamlKey (int indent) content st))"

definition yamlStart :: yamlState where
  "yamlStart = \<lparr>yamlResult = [], sections = [], lastKey = [], prevIndent = -1\<rparr>"

definition TrimPrefix :: "string \<Rightarrow> string \<Rightarrow> string" where
  "TrimPrefix s p = (if HasPrefix s p then drop (length p) s else s)"

definition parseYAML :: "string \<Rightarrow> Values" where
  "parseYAML data =
     yamlResult (fold yamlLine (case Split newline data of [] \<Rightarrow> [] | l # ls \<Rightarrow> TrimPrefix l bom # ls) yamlStart)"

section \<open>The keys are distinct\<close>

lemma yamlItem_distinct: "distinct (map fst (yamlResult st)) \<Longrightarrow> distinct (map fst (yamlResult (yamlItem c st)))"
  by (simp add: yamlItem_def Let_def distinct_update split: option.split)

lemma yamlKey_distinct: "distinct (map fst (yamlResult st)) \<Longrightarrow> distinct (map fst (yamlResult (yamlKey i c st)))"
  by (simp add: yamlKey_def Let_def distinct_update split: option.split)

lemma yamlLine_distinct: "distinct (map fst (yamlResult st)) \<Longrightarrow> distinct (map fst (yamlResult (yamlLine l st)))"
  by (simp add: yamlLine_def Let_def yamlItem_distinct yamlKey_distinct)

lemma parseYAML_distinct: "distinct (map fst (parseYAML data))"
proof -
  have "distinct (map fst (yamlResult (fold yamlLine ls st)))" if "distinct (map fst (yamlResult st))" for ls st
    using that by (induction ls arbitrary: st) (simp_all add: yamlLine_distinct)
  then show ?thesis by (simp add: parseYAML_def yamlStart_def)
qed

end
