(* ===== verification/Config.thy ===== *)
theory Config
  imports Config_Yaml "HOL-Library.List_Lexorder" "HOL-Library.Char_ord"
begin

text \<open>
  The configuration (\<open>config/config.go\<close>, \<open>config/defaults.go\<close>): its records, the defaults, what a file and the
  environment change of them, and the validation.  The fields carry the name of their section, because field names are
  global.  A duration is an integer of nanoseconds, an \<open>int\<close> an integer in the range that \<open>strconv.Atoi\<close> yields.
  A \<open>float64\<close> is a rational number, an infinity or NaN; \<open>strconv.ParseFloat\<close> is the argument \<open>pf\<close>.
\<close>

section \<open>Records\<close>

datatype float64 = Finite rat | PosInf | NegInf | NaN

text \<open>The comparison \<open>x <= 0\<close>, which is false for NaN.\<close>

definition notPositive :: "float64 \<Rightarrow> bool" where
  "notPositive x = (case x of Finite r \<Rightarrow> r \<le> 0 | PosInf \<Rightarrow> False | NegInf \<Rightarrow> True | NaN \<Rightarrow> False)"

record ServerConfig =
  serverListenAddr :: string
  serverMetricsAddr :: string
  serverMaxUDPSize :: int
  serverTCPTimeout :: int
  serverMaxTCPConns :: int
  serverMaxUDPWorkers :: int
  serverGracefulPeriod :: int
  serverTCPPipelineMax :: int
  serverTCPIdleTimeout :: int
  serverDoTEnabled :: bool
  serverDoTListenAddr :: string
  serverTLSCertFile :: string
  serverTLSKeyFile :: string

record ResolverCfg =
  resolverMaxDepth :: int
  resolverMaxCNAMEDepth :: int
  resolverUpstreamTimeout :: int
  resolverUpstreamRetries :: int
  resolverQMinEnabled :: bool
  resolverCaps0x20Enabled :: bool
  resolverPreferIPv4 :: bool
  resolverDNSSECEnabled :: bool
  resolverDNSSECAllowSHA1 :: bool
  resolverHardenBelowNXDomain :: bool
  resolverRootHintsRefresh :: int
  resolverECSEnabled :: bool
  resolverECSMaxPrefix :: int
  resolverECSMaxPrefixV6 :: int
  resolverDNS64Enabled :: bool
  resolverDNS64Prefix :: string
  resolverFallbackResolvers :: "string list"
  resolverUpstreamUDPBufferSize :: int

record CacheConfig =
  cacheMaxEntries :: int
  cacheMinTTL :: u32
  cacheMaxTTL :: u32
  cacheNegMaxTTL :: u32
  cacheSweepInterval :: int
  cacheServeStale :: bool
  cacheStaleTTL :: u32
  cacheNoCacheClients :: "string list"
  cachePrefetch :: bool

record RateLimitConfig =
  rateLimitEnabled :: bool
  rateLimitRate :: float64
  rateLimitBurst :: int

record RRLConfig =
  rrlEnabled :: bool
  rrlResponsesPerSecond :: float64
  rrlSlipRatio :: int
  rrlIPv4Prefix :: int
  rrlIPv6Prefix :: int

record SecurityConfig =
  securityRateLimit :: RateLimitConfig
  securityRRL :: RRLConfig
  securityPrivateAddressFilter :: bool
  securityDNSCookies :: bool

record LoggingConfig =
  loggingLevel :: string
  loggingFormat :: string

record ACLZoneConfig =
  aclZoneName :: string
  aclZoneAllow :: "string list"
  aclZoneDeny :: "string list"

record ACLConfig =
  aclConfigAllow :: "string list"
  aclConfigDeny :: "string list"
  aclConfigZones :: "ACLZoneConfig list"

record WebDashboardConfig =
  dashboardPanelOrder :: "string list"
  dashboardHiddenPanels :: "string list"

record WebAuthConfig =
  webAuthUsername :: string
  webAuthPasswordHash :: string

record WebConfig =
  webEnabled :: bool
  webAddr :: string
  webQueryLogBuffer :: int
  webTopClientsLimit :: int
  webTopDomainsLimit :: int
  webAlertErrorThreshold :: float64
  webAlertLatencyMs :: int
  webAutoUpdate :: bool
  webUpdateCheckInterval :: int
  webDashboard :: WebDashboardConfig
  webAuth :: WebAuthConfig
  webDoHEnabled :: bool
  webDoH3Enabled :: bool
  webTLSEnabled :: bool
  webTLSCertFile :: string
  webTLSKeyFile :: string
  webAutoTLS :: bool
  webAutoTLSDomain :: string
  webAutoTLSEmail :: string
  webAutoTLSCacheDir :: string
  webAutoTLSStaging :: bool

record DaemonConfig =
  daemonEnabled :: bool
  daemonPIDFile :: string

record ZabbixConfig =
  zabbixEnabled :: bool
  zabbixAddr :: string

record BlocklistEntry =
  listURL :: string
  listFormat :: string

record BlocklistConfig =
  blocklistEnabled :: bool
  blocklistLists :: "BlocklistEntry list"
  blocklistRefreshInterval :: int
  blocklistBlockingMode :: string
  blocklistCustomIP :: string
  blocklistWhitelist :: "string list"

record ClusterPeerConfig =
  peerName :: string
  peerEnabled :: bool
  peerAPIBase :: string
  peerAPIToken :: string
  peerSyncFields :: "string list"

record ClusterActionConfig =
  actionFanoutCacheFlush :: bool
  actionFanoutBlocklistRefresh :: bool

record ClusterSyncConfig =
  syncMode :: string
  syncPushOnSave :: bool
  syncPullInterval :: int

record ClusterConfig =
  clusterEnabled :: bool
  clusterRole :: string
  clusterNodeID :: string
  clusterSharedFields :: "string list"
  clusterPeers :: "ClusterPeerConfig list"
  clusterActions :: ClusterActionConfig
  clusterSync :: ClusterSyncConfig

record LocalZoneConfig =
  localName :: string
  localType :: string
  localData :: "string list"

record ForwardZoneConfig =
  forwardName :: string
  forwardAddrs :: "string list"

record StubZoneConfig =
  stubName :: string
  stubAddrs :: "string list"

record Config =
  cfgServer :: ServerConfig
  cfgResolver :: ResolverCfg
  cfgCache :: CacheConfig
  cfgSecurity :: SecurityConfig
  cfgLogging :: LoggingConfig
  cfgACL :: ACLConfig
  cfgWeb :: WebConfig
  cfgDaemon :: DaemonConfig
  cfgZabbix :: ZabbixConfig
  cfgBlocklist :: BlocklistConfig
  cfgCluster :: ClusterConfig
  cfgLocalZones :: "LocalZoneConfig list"
  cfgForwardZones :: "ForwardZoneConfig list"
  cfgStubZones :: "StubZoneConfig list"

section \<open>Defaults\<close>

definition defaultConfig :: Config where
  "defaultConfig =
     \<lparr>cfgServer =
        \<lparr>serverListenAddr = '':53'', serverMetricsAddr = ''127.0.0.1:9153'', serverMaxUDPSize = 1232, serverTCPTimeout = 10 * int second,
         serverMaxTCPConns = 256, serverMaxUDPWorkers = 10000, serverGracefulPeriod = 5 * int second, serverTCPPipelineMax = 100,
         serverTCPIdleTimeout = 5 * int second, serverDoTEnabled = False, serverDoTListenAddr = '':853'', serverTLSCertFile = [],
         serverTLSKeyFile = []\<rparr>,
      cfgResolver =
        \<lparr>resolverMaxDepth = 30, resolverMaxCNAMEDepth = 10, resolverUpstreamTimeout = 2 * int second, resolverUpstreamRetries = 3,
         resolverQMinEnabled = True, resolverCaps0x20Enabled = False, resolverPreferIPv4 = True, resolverDNSSECEnabled = True,
         resolverDNSSECAllowSHA1 = False, resolverHardenBelowNXDomain = True, resolverRootHintsRefresh = 12 * 3600 * int second,
         resolverECSEnabled = False, resolverECSMaxPrefix = 24, resolverECSMaxPrefixV6 = 56, resolverDNS64Enabled = False,
         resolverDNS64Prefix = ''64:ff9b::/96'', resolverFallbackResolvers = [], resolverUpstreamUDPBufferSize = 1232\<rparr>,
      cfgCache =
        \<lparr>cacheMaxEntries = 100000, cacheMinTTL = 5, cacheMaxTTL = 86400, cacheNegMaxTTL = 3600, cacheSweepInterval = 60 * int second,
         cacheServeStale = False, cacheStaleTTL = 30, cacheNoCacheClients = [], cachePrefetch = True\<rparr>,
      cfgSecurity =
        \<lparr>securityRateLimit = \<lparr>rateLimitEnabled = True, rateLimitRate = Finite 50, rateLimitBurst = 100\<rparr>,
         securityRRL = \<lparr>rrlEnabled = True, rrlResponsesPerSecond = Finite 5, rrlSlipRatio = 2, rrlIPv4Prefix = 24, rrlIPv6Prefix = 56\<rparr>,
         securityPrivateAddressFilter = False, securityDNSCookies = False\<rparr>,
      cfgLogging = \<lparr>loggingLevel = ''info'', loggingFormat = ''json''\<rparr>,
      cfgACL = \<lparr>aclConfigAllow = [], aclConfigDeny = [], aclConfigZones = []\<rparr>,
      cfgWeb =
        \<lparr>webEnabled = True, webAddr = ''127.0.0.1:9153'', webQueryLogBuffer = 1000, webTopClientsLimit = 2000, webTopDomainsLimit = 2000,
         webAlertErrorThreshold = Finite 5, webAlertLatencyMs = 250, webAutoUpdate = True, webUpdateCheckInterval = 24 * 3600 * int second,
         webDashboard = \<lparr>dashboardPanelOrder = [], dashboardHiddenPanels = []\<rparr>,
         webAuth = \<lparr>webAuthUsername = [], webAuthPasswordHash = []\<rparr>,
         webDoHEnabled = False, webDoH3Enabled = False, webTLSEnabled = False, webTLSCertFile = [], webTLSKeyFile = [], webAutoTLS = False,
         webAutoTLSDomain = [], webAutoTLSEmail = [], webAutoTLSCacheDir = ''certs'', webAutoTLSStaging = False\<rparr>,
      cfgDaemon = \<lparr>daemonEnabled = False, daemonPIDFile = ''/var/run/labyrinth.pid''\<rparr>,
      cfgZabbix = \<lparr>zabbixEnabled = False, zabbixAddr = []\<rparr>,
      cfgBlocklist =
        \<lparr>blocklistEnabled = False, blocklistLists = [], blocklistRefreshInterval = 24 * 3600 * int second, blocklistBlockingMode = ''nxdomain'',
         blocklistCustomIP = [], blocklistWhitelist = []\<rparr>,
      cfgCluster =
        \<lparr>clusterEnabled = False, clusterRole = ''standalone'', clusterNodeID = ''node-1'', clusterSharedFields = [], clusterPeers = [],
         clusterActions = \<lparr>actionFanoutCacheFlush = False, actionFanoutBlocklistRefresh = False\<rparr>,
         clusterSync = \<lparr>syncMode = ''off'', syncPushOnSave = False, syncPullInterval = 30 * int second\<rparr>\<rparr>,
      cfgLocalZones = [], cfgForwardZones = [], cfgStubZones = []\<rparr>"

section \<open>Reading values\<close>

definition firstConfigValue :: "Values \<Rightarrow> string list \<Rightarrow> string option" where
  "firstConfigValue v keys = (case List.map_filter (map_of v) keys of [] \<Rightarrow> None | s # _ \<Rightarrow> Some s)"

definition parseBool :: "string \<Rightarrow> bool" where
  "parseBool s = (let s = ToLower (TrimSpace s) in s = ''true'' \<or> s = ''yes'' \<or> s = ''1'')"

definition parseCSVList :: "string \<Rightarrow> string list" where
  "parseCSVList s = filter (\<lambda>item. item \<noteq> []) (map TrimSpace (Split (CHR '','') s))"

definition parseBlocklistEntries :: "string \<Rightarrow> BlocklistEntry list" where
  "parseBlocklistEntries s =
     List.map_filter
       (\<lambda>item. let item = TrimSpace item in
          if item = [] then None
          else (case IndexByte item (CHR ''|'') of
                  None \<Rightarrow> None
                | Some i \<Rightarrow> Some \<lparr>listURL = TrimSpace (take i item), listFormat = TrimSpace (drop (i + 1) item)\<rparr>))
       (Split (CHR '','') s)"

text \<open>\<open>strconv.ParseUint\<close> to base 10 and 32 bits.\<close>

definition ParseUint32 :: "string \<Rightarrow> u32 option" where
  "ParseUint32 s = (if s = [] \<or> \<not> list_all isDigit s \<or> 2 ^ 32 \<le> decimal s then None else Some (of_nat (decimal s)))"

text \<open>
  \<open>time.ParseDuration\<close>: a sign and a sequence of decimal numbers, each with a fraction and a unit.  The fraction is
  computed exactly and rounded down; the code of the library computes it in floating point.
\<close>

definition durationUnit :: "string \<Rightarrow> nat option" where
  "durationUnit u = map_of [(''ns'', 1), (''us'', 1000), ([char_of (0xC2 :: nat), char_of (0xB5 :: nat), CHR ''s''], 1000),
     ([char_of (0xCE :: nat), char_of (0xBC :: nat), CHR ''s''], 1000), (''ms'', 1000000), (''s'', 1000000000),
     (''m'', 60000000000), (''h'', 3600000000000)] u"

function durationParts :: "string \<Rightarrow> nat \<Rightarrow> nat option" where
  "durationParts s d =
     (if s = [] then Some d
      else (let whole = takeWhile isDigit s;
                s1 = dropWhile isDigit s;
                frac = (if s1 \<noteq> [] \<and> hd s1 = dot then takeWhile isDigit (tl s1) else []);
                s2 = (if s1 \<noteq> [] \<and> hd s1 = dot then dropWhile isDigit (tl s1) else s1);
                unit = takeWhile (\<lambda>c. c \<noteq> dot \<and> \<not> isDigit c) s2;
                s3 = dropWhile (\<lambda>c. c \<noteq> dot \<and> \<not> isDigit c) s2 in
            if whole = [] \<and> frac = [] \<or> unit = [] then None
            else (case durationUnit unit of
                    None \<Rightarrow> None
                  | Some u \<Rightarrow>
                      (let d' = d + decimal whole * u + decimal frac * u div 10 ^ length frac in
                       if 2 ^ 63 < d' then None else durationParts s3 d'))))"
  by pat_completeness auto
termination
proof (relation "measure (\<lambda>(s, d). length s)", goal_cases)
  case (2 s d whole s1 frac s2 unit s3 u d')
  have "length s1 \<le> length s" "length s2 \<le> length s1" using 2(2-6)
    by (auto simp: le_diff_conv length_dropWhile_le intro: order_trans [OF length_dropWhile_le])
  moreover have "length s3 < length s2" using 2(6-8)
    by (metis dropWhile_eq_self_iff length_append length_greater_0_conv less_add_same_cancel2 takeWhile_dropWhile_id)
  ultimately show ?case by simp
qed simp

definition ParseDuration :: "string \<Rightarrow> int option" where
  "ParseDuration s =
     (let (neg, s) = (case s of c # cs \<Rightarrow> if c = CHR ''-'' then (True, cs) else if c = CHR ''+'' then (False, cs) else (False, s)
                              | [] \<Rightarrow> (False, s)) in
      if s = ''0'' then Some 0
      else if s = [] then None
      else (case durationParts s 0 of
              None \<Rightarrow> None
            | Some d \<Rightarrow> if neg then Some (- int d) else if 2 ^ 63 \<le> d then None else Some (int d)))"

text \<open>
  The setters of \<open>applyYAML\<close>: the new value of a field, given the keys and its old value.
\<close>

definition setString :: "Values \<Rightarrow> string list \<Rightarrow> string \<Rightarrow> string" where
  "setString v keys d = (case firstConfigValue v keys of Some s \<Rightarrow> s | None \<Rightarrow> d)"

definition setBool :: "Values \<Rightarrow> string list \<Rightarrow> bool \<Rightarrow> bool" where
  "setBool v keys d = (case firstConfigValue v keys of Some s \<Rightarrow> parseBool s | None \<Rightarrow> d)"

definition setParsed :: "(string \<Rightarrow> 'a option) \<Rightarrow> Values \<Rightarrow> string list \<Rightarrow> 'a \<Rightarrow> 'a" where
  "setParsed parse v keys d =
     (case firstConfigValue v keys of Some s \<Rightarrow> (case parse s of Some n \<Rightarrow> n | None \<Rightarrow> d) | None \<Rightarrow> d)"

definition setInt :: "Values \<Rightarrow> string list \<Rightarrow> int \<Rightarrow> int" where
  "setInt = setParsed Atoi"

definition setUint32 :: "Values \<Rightarrow> string list \<Rightarrow> u32 \<Rightarrow> u32" where
  "setUint32 = setParsed ParseUint32"

definition setFloat64 :: "(string \<Rightarrow> float64 option) \<Rightarrow> Values \<Rightarrow> string list \<Rightarrow> float64 \<Rightarrow> float64" where
  "setFloat64 pf = setParsed pf"

definition setDuration :: "Values \<Rightarrow> string list \<Rightarrow> int \<Rightarrow> int" where
  "setDuration = setParsed ParseDuration"

definition setCSV :: "Values \<Rightarrow> string list \<Rightarrow> string list \<Rightarrow> string list" where
  "setCSV v keys d =
     (case firstConfigValue v keys of Some s \<Rightarrow> if TrimSpace s \<noteq> [] then parseCSVList s else d | None \<Rightarrow> d)"

section \<open>Zones and peers\<close>

text \<open>
  The order in which Go ranges over a map: for each loop of the program, a permutation of the keys.
\<close>

type_synonym rangeOrder = "string \<Rightarrow> string list \<Rightarrow> string list"

text \<open>
  The loops over the values have the same frame: a key below the pre is cut at its last dot into the name of a
  zone and a field, and the field is set in the zone, which is created when it is new.
\<close>

definition LastIndexByte :: "string \<Rightarrow> char \<Rightarrow> nat option" where
  "LastIndexByte s c = map_option (\<lambda>i. length s - 1 - i) (IndexByte (rev s) c)"

definition zoneKey :: "string \<Rightarrow> string \<Rightarrow> (string \<times> string) option" where
  "zoneKey pre key =
     (if \<not> HasPrefix key pre then None
      else (let rest = drop (length pre) key in
            case LastIndexByte rest dot of
              None \<Rightarrow> None
            | Some dotIdx \<Rightarrow> Some (take dotIdx rest, drop (dotIdx + 1) rest)))"

definition zoneStep ::
  "string \<Rightarrow> (string \<times> string \<Rightarrow> bool) \<Rightarrow> (string \<Rightarrow> 'z) \<Rightarrow> (string \<Rightarrow> string \<Rightarrow> 'z \<Rightarrow> 'z) \<Rightarrow> Values \<Rightarrow> string \<Rightarrow> (string \<times> 'z) list \<Rightarrow> (string \<times> 'z) list" where
  "zoneStep pre use new put v key zs =
     (case (zoneKey pre key, map_of v key) of
        (Some (name, field), Some val) \<Rightarrow>
          if use (name, field) then
            AList.update name (put field val (case map_of zs name of Some z \<Rightarrow> z | None \<Rightarrow> new name)) zs
          else zs
      | _ \<Rightarrow> zs)"

definition putACL :: "string \<Rightarrow> string \<Rightarrow> ACLZoneConfig \<Rightarrow> ACLZoneConfig" where
  "putACL field val zc =
     (if field = ''allow'' then if val \<noteq> [] then zc\<lparr>aclZoneAllow := parseCSVList val\<rparr> else zc
      else if field = ''deny'' then if val \<noteq> [] then zc\<lparr>aclZoneDeny := parseCSVList val\<rparr> else zc
      else zc)"

definition parseACLZones :: "rangeOrder \<Rightarrow> Values \<Rightarrow> ACLZoneConfig list" where
  "parseACLZones rng v =
     (let zs = fold (zoneStep ''access_control.zones.'' (\<lambda>_. True) (\<lambda>n. \<lparr>aclZoneName = n, aclZoneAllow = [], aclZoneDeny = []\<rparr>) putACL v)
                       (rng ''parseACLZones'' (map fst v)) [] in
      filter (\<lambda>zc. aclZoneAllow zc \<noteq> [] \<or> aclZoneDeny zc \<noteq> [])
        (List.map_filter (map_of zs) (rng ''parseACLZones, zones'' (map fst zs))))"

definition putLocal :: "string \<Rightarrow> string \<Rightarrow> LocalZoneConfig \<Rightarrow> LocalZoneConfig" where
  "putLocal field val zc =
     (if field = ''type'' then zc\<lparr>localType := val\<rparr>
      else if field = ''data'' then if val \<noteq> [] then zc\<lparr>localData := localData zc @ parseCSVList val\<rparr> else zc
      else zc)"

definition parseLocalZones :: "rangeOrder \<Rightarrow> Values \<Rightarrow> LocalZoneConfig list" where
  "parseLocalZones rng v =
     (let zs = fold (zoneStep ''local_zones.'' (\<lambda>_. True) (\<lambda>n. \<lparr>localName = n, localType = [], localData = []\<rparr>) putLocal v)
                       (rng ''parseLocalZones'' (map fst v)) [] in
      filter (\<lambda>zc. localType zc \<noteq> [])
        (List.map_filter (map_of zs) (rng ''parseLocalZones, zones'' (map fst zs))))"

definition putAddrs :: "string \<Rightarrow> string \<Rightarrow> ForwardZoneConfig \<Rightarrow> ForwardZoneConfig" where
  "putAddrs field val zc = (if val \<noteq> [] then zc\<lparr>forwardAddrs := forwardAddrs zc @ parseCSVList val\<rparr> else zc)"

definition parseZoneAddrs :: "rangeOrder \<Rightarrow> Values \<Rightarrow> string \<Rightarrow> ForwardZoneConfig list" where
  "parseZoneAddrs rng v pre =
     (let zs = fold (zoneStep pre (\<lambda>(_, field). field = ''addrs'') (\<lambda>n. \<lparr>forwardName = n, forwardAddrs = []\<rparr>) putAddrs v)
                       (rng pre (map fst v)) [] in
      filter (\<lambda>zc. forwardAddrs zc \<noteq> [])
        (List.map_filter (map_of zs) (rng (pre @ '', zones'') (map fst zs))))"

definition parseForwardZones :: "rangeOrder \<Rightarrow> Values \<Rightarrow> ForwardZoneConfig list" where
  "parseForwardZones rng v = parseZoneAddrs rng v ''forward_zones.''"

definition parseStubZones :: "rangeOrder \<Rightarrow> Values \<Rightarrow> StubZoneConfig list" where
  "parseStubZones rng v = map (\<lambda>z. \<lparr>stubName = forwardName z, stubAddrs = forwardAddrs z\<rparr>) (parseZoneAddrs rng v ''stub_zones.'')"

definition putPeer :: "string \<Rightarrow> string \<Rightarrow> ClusterPeerConfig \<Rightarrow> ClusterPeerConfig" where
  "putPeer field val p =
     (if field = ''enabled'' then p\<lparr>peerEnabled := parseBool val\<rparr>
      else if field = ''api_base'' then p\<lparr>peerAPIBase := TrimSpace val\<rparr>
      else if field = ''api_token'' then p\<lparr>peerAPIToken := val\<rparr>
      else if field = ''sync_fields'' then if val \<noteq> [] then p\<lparr>peerSyncFields := parseCSVList val\<rparr> else p
      else p)"

definition parseClusterPeers :: "rangeOrder \<Rightarrow> Values \<Rightarrow> ClusterPeerConfig list" where
  "parseClusterPeers rng v =
     (let peers = fold (zoneStep ''cluster.peers.'' (\<lambda>(name, _). name \<noteq> [])
                          (\<lambda>n. \<lparr>peerName = n, peerEnabled = True, peerAPIBase = [], peerAPIToken = [], peerSyncFields = []\<rparr>) putPeer v)
                       (rng ''parseClusterPeers'' (map fst v)) [] in
      filter (\<lambda>p. \<not> (peerAPIBase p = [] \<and> peerAPIToken p = [] \<and> peerSyncFields p = []))
        (List.map_filter (map_of peers) (sort (rng ''parseClusterPeers, peers'' (map fst peers)))))"

section \<open>Values of the file\<close>

definition applyServer :: "Values \<Rightarrow> ServerConfig \<Rightarrow> ServerConfig" where
  "applyServer v c = c\<lparr>
     serverListenAddr := setString v [''server.listen_addr''] (serverListenAddr c),
     serverMetricsAddr := setString v [''server.metrics_addr''] (serverMetricsAddr c),
     serverMaxUDPSize := setInt v [''server.max_udp_size''] (serverMaxUDPSize c),
     serverTCPTimeout := setDuration v [''server.tcp_timeout''] (serverTCPTimeout c),
     serverMaxTCPConns := setInt v [''server.max_tcp_connections'', ''server.max_tcp_conns''] (serverMaxTCPConns c),
     serverMaxUDPWorkers := setInt v [''server.max_udp_workers''] (serverMaxUDPWorkers c),
     serverGracefulPeriod := setDuration v [''server.graceful_shutdown'', ''server.graceful_period''] (serverGracefulPeriod c),
     serverTCPPipelineMax := setInt v [''server.tcp_pipeline_max''] (serverTCPPipelineMax c),
     serverTCPIdleTimeout := setDuration v [''server.tcp_idle_timeout''] (serverTCPIdleTimeout c),
     serverDoTEnabled := setBool v [''server.dot_enabled''] (serverDoTEnabled c),
     serverDoTListenAddr := setString v [''server.dot_listen_addr''] (serverDoTListenAddr c),
     serverTLSCertFile := setString v [''server.tls_cert_file''] (serverTLSCertFile c),
     serverTLSKeyFile := setString v [''server.tls_key_file''] (serverTLSKeyFile c)\<rparr>"

definition applyResolver :: "Values \<Rightarrow> ResolverCfg \<Rightarrow> ResolverCfg" where
  "applyResolver v c = c\<lparr>
     resolverMaxDepth := setInt v [''resolver.max_depth''] (resolverMaxDepth c),
     resolverMaxCNAMEDepth := setInt v [''resolver.max_cname_depth''] (resolverMaxCNAMEDepth c),
     resolverUpstreamTimeout := setDuration v [''resolver.upstream_timeout''] (resolverUpstreamTimeout c),
     resolverUpstreamRetries := setInt v [''resolver.upstream_retries''] (resolverUpstreamRetries c),
     resolverQMinEnabled := setBool v [''resolver.qname_minimization''] (resolverQMinEnabled c),
     resolverCaps0x20Enabled := setBool v [''resolver.caps_for_id''] (resolverCaps0x20Enabled c),
     resolverPreferIPv4 := setBool v [''resolver.prefer_ipv4''] (resolverPreferIPv4 c),
     resolverDNSSECEnabled := setBool v [''resolver.dnssec_enabled''] (resolverDNSSECEnabled c),
     resolverDNSSECAllowSHA1 := setBool v [''resolver.dnssec_allow_sha1''] (resolverDNSSECAllowSHA1 c),
     resolverHardenBelowNXDomain := setBool v [''resolver.harden_below_nxdomain''] (resolverHardenBelowNXDomain c),
     resolverRootHintsRefresh := setDuration v [''resolver.root_hints_refresh''] (resolverRootHintsRefresh c),
     resolverECSEnabled := setBool v [''resolver.ecs_enabled''] (resolverECSEnabled c),
     resolverECSMaxPrefix := setInt v [''resolver.ecs_max_prefix''] (resolverECSMaxPrefix c),
     resolverECSMaxPrefixV6 := setInt v [''resolver.ecs_max_prefix_v6''] (resolverECSMaxPrefixV6 c),
     resolverDNS64Enabled := setBool v [''resolver.dns64_enabled''] (resolverDNS64Enabled c),
     resolverDNS64Prefix := setString v [''resolver.dns64_prefix''] (resolverDNS64Prefix c),
     resolverFallbackResolvers := setCSV v [''resolver.fallback_resolvers''] (resolverFallbackResolvers c),
     resolverUpstreamUDPBufferSize := setInt v [''resolver.upstream_udp_buffer_size''] (resolverUpstreamUDPBufferSize c)\<rparr>"

definition applyCache :: "Values \<Rightarrow> CacheConfig \<Rightarrow> CacheConfig" where
  "applyCache v c = c\<lparr>
     cacheMaxEntries := setInt v [''cache.max_entries''] (cacheMaxEntries c),
     cacheMinTTL := setUint32 v [''cache.min_ttl''] (cacheMinTTL c),
     cacheMaxTTL := setUint32 v [''cache.max_ttl''] (cacheMaxTTL c),
     cacheNegMaxTTL := setUint32 v [''cache.negative_max_ttl''] (cacheNegMaxTTL c),
     cacheSweepInterval := setDuration v [''cache.sweep_interval''] (cacheSweepInterval c),
     cacheServeStale := setBool v [''cache.serve_stale''] (cacheServeStale c),
     cacheStaleTTL := setUint32 v [''cache.serve_stale_ttl'', ''cache.stale_ttl''] (cacheStaleTTL c),
     cacheNoCacheClients := setCSV v [''cache.no_cache_clients''] (cacheNoCacheClients c),
     cachePrefetch := setBool v [''cache.prefetch''] (cachePrefetch c)\<rparr>"

definition applyRateLimit :: "(string \<Rightarrow> float64 option) \<Rightarrow> Values \<Rightarrow> RateLimitConfig \<Rightarrow> RateLimitConfig" where
  "applyRateLimit pf v c = c\<lparr>
     rateLimitEnabled := setBool v [''security.rate_limit.enabled''] (rateLimitEnabled c),
     rateLimitRate := setFloat64 pf v [''security.rate_limit.rate''] (rateLimitRate c),
     rateLimitBurst := setInt v [''security.rate_limit.burst''] (rateLimitBurst c)\<rparr>"

definition applyRRL :: "(string \<Rightarrow> float64 option) \<Rightarrow> Values \<Rightarrow> RRLConfig \<Rightarrow> RRLConfig" where
  "applyRRL pf v c = c\<lparr>
     rrlEnabled := setBool v [''security.rrl.enabled''] (rrlEnabled c),
     rrlResponsesPerSecond := setFloat64 pf v [''security.rrl.responses_per_second''] (rrlResponsesPerSecond c),
     rrlSlipRatio := setInt v [''security.rrl.slip_ratio''] (rrlSlipRatio c),
     rrlIPv4Prefix := setInt v [''security.rrl.ipv4_prefix''] (rrlIPv4Prefix c),
     rrlIPv6Prefix := setInt v [''security.rrl.ipv6_prefix''] (rrlIPv6Prefix c)\<rparr>"

definition applySecurity :: "(string \<Rightarrow> float64 option) \<Rightarrow> Values \<Rightarrow> SecurityConfig \<Rightarrow> SecurityConfig" where
  "applySecurity pf v c = c\<lparr>
     securityPrivateAddressFilter := setBool v [''security.private_address_filter''] (securityPrivateAddressFilter c),
     securityDNSCookies := setBool v [''security.dns_cookies''] (securityDNSCookies c),
     securityRateLimit := applyRateLimit pf v (securityRateLimit c),
     securityRRL := applyRRL pf v (securityRRL c)\<rparr>"

definition applyACL :: "rangeOrder \<Rightarrow> Values \<Rightarrow> ACLConfig \<Rightarrow> ACLConfig" where
  "applyACL rng v c = c\<lparr>
     aclConfigAllow := setCSV v [''access_control.allow''] (aclConfigAllow c),
     aclConfigDeny := setCSV v [''access_control.deny''] (aclConfigDeny c),
     aclConfigZones := parseACLZones rng v\<rparr>"

definition applyLogging :: "Values \<Rightarrow> LoggingConfig \<Rightarrow> LoggingConfig" where
  "applyLogging v c = c\<lparr>
     loggingLevel := setString v [''logging.level''] (loggingLevel c),
     loggingFormat := setString v [''logging.format''] (loggingFormat c)\<rparr>"

definition applyDashboard :: "Values \<Rightarrow> WebDashboardConfig \<Rightarrow> WebDashboardConfig" where
  "applyDashboard v c = c\<lparr>
     dashboardPanelOrder := setCSV v [''web.dashboard.panel_order''] (dashboardPanelOrder c),
     dashboardHiddenPanels := setCSV v [''web.dashboard.hidden_panels''] (dashboardHiddenPanels c)\<rparr>"

definition applyAuth :: "Values \<Rightarrow> WebAuthConfig \<Rightarrow> WebAuthConfig" where
  "applyAuth v c = c\<lparr>
     webAuthUsername := setString v [''web.auth.username''] (webAuthUsername c),
     webAuthPasswordHash := setString v [''web.auth.password_hash''] (webAuthPasswordHash c)\<rparr>"

definition applyWeb :: "(string \<Rightarrow> float64 option) \<Rightarrow> Values \<Rightarrow> WebConfig \<Rightarrow> WebConfig" where
  "applyWeb pf v c = c\<lparr>
     webEnabled := setBool v [''web.enabled''] (webEnabled c),
     webAddr := setString v [''web.addr''] (webAddr c),
     webQueryLogBuffer := setInt v [''web.query_log_buffer''] (webQueryLogBuffer c),
     webTopClientsLimit := setInt v [''web.top_clients_limit''] (webTopClientsLimit c),
     webTopDomainsLimit := setInt v [''web.top_domains_limit''] (webTopDomainsLimit c),
     webAlertErrorThreshold := setFloat64 pf v [''web.alert_error_threshold_pct'', ''web.error_threshold_pct''] (webAlertErrorThreshold c),
     webAlertLatencyMs := setInt v [''web.alert_latency_threshold_ms'', ''web.latency_threshold_ms''] (webAlertLatencyMs c),
     webAutoUpdate := setBool v [''web.auto_update''] (webAutoUpdate c),
     webUpdateCheckInterval := setDuration v [''web.update_check_interval''] (webUpdateCheckInterval c),
     webDoHEnabled := setBool v [''web.doh_enabled''] (webDoHEnabled c),
     webDoH3Enabled := setBool v [''web.doh3_enabled''] (webDoH3Enabled c),
     webTLSEnabled := setBool v [''web.tls_enabled''] (webTLSEnabled c),
     webTLSCertFile := setString v [''web.tls_cert_file''] (webTLSCertFile c),
     webTLSKeyFile := setString v [''web.tls_key_file''] (webTLSKeyFile c),
     webAutoTLS := setBool v [''web.auto_tls''] (webAutoTLS c),
     webAutoTLSDomain := setString v [''web.auto_tls_domain''] (webAutoTLSDomain c),
     webAutoTLSEmail := setString v [''web.auto_tls_email''] (webAutoTLSEmail c),
     webAutoTLSCacheDir := setString v [''web.auto_tls_cache_dir''] (webAutoTLSCacheDir c),
     webAutoTLSStaging := setBool v [''web.auto_tls_staging''] (webAutoTLSStaging c),
     webDashboard := applyDashboard v (webDashboard c),
     webAuth := applyAuth v (webAuth c)\<rparr>"

definition applyDaemon :: "Values \<Rightarrow> DaemonConfig \<Rightarrow> DaemonConfig" where
  "applyDaemon v c = c\<lparr>
     daemonEnabled := setBool v [''daemon.enabled''] (daemonEnabled c),
     daemonPIDFile := setString v [''daemon.pid_file''] (daemonPIDFile c)\<rparr>"

definition applyZabbix :: "Values \<Rightarrow> ZabbixConfig \<Rightarrow> ZabbixConfig" where
  "applyZabbix v c = c\<lparr>
     zabbixEnabled := setBool v [''zabbix.enabled''] (zabbixEnabled c),
     zabbixAddr := setString v [''zabbix.addr''] (zabbixAddr c)\<rparr>"

definition applyBlocklist :: "Values \<Rightarrow> BlocklistConfig \<Rightarrow> BlocklistConfig" where
  "applyBlocklist v c = c\<lparr>
     blocklistEnabled := setBool v [''blocklist.enabled''] (blocklistEnabled c),
     blocklistLists := (case firstConfigValue v [''blocklist.lists''] of
         Some s \<Rightarrow> if TrimSpace s \<noteq> [] then parseBlocklistEntries s else blocklistLists c
       | None \<Rightarrow> blocklistLists c),
     blocklistRefreshInterval := setDuration v [''blocklist.refresh_interval''] (blocklistRefreshInterval c),
     blocklistBlockingMode := setString v [''blocklist.blocking_mode''] (blocklistBlockingMode c),
     blocklistCustomIP := setString v [''blocklist.custom_ip''] (blocklistCustomIP c),
     blocklistWhitelist := setCSV v [''blocklist.whitelist''] (blocklistWhitelist c)\<rparr>"

definition applyActions :: "Values \<Rightarrow> ClusterActionConfig \<Rightarrow> ClusterActionConfig" where
  "applyActions v c = c\<lparr>
     actionFanoutCacheFlush := setBool v [''cluster.actions.fanout_cache_flush''] (actionFanoutCacheFlush c),
     actionFanoutBlocklistRefresh := setBool v [''cluster.actions.fanout_blocklist_refresh''] (actionFanoutBlocklistRefresh c)\<rparr>"

definition applySync :: "Values \<Rightarrow> ClusterSyncConfig \<Rightarrow> ClusterSyncConfig" where
  "applySync v c = c\<lparr>
     syncMode := setString v [''cluster.sync.mode''] (syncMode c),
     syncPushOnSave := setBool v [''cluster.sync.push_on_save''] (syncPushOnSave c),
     syncPullInterval := setDuration v [''cluster.sync.pull_interval''] (syncPullInterval c)\<rparr>"

definition applyCluster :: "rangeOrder \<Rightarrow> Values \<Rightarrow> ClusterConfig \<Rightarrow> ClusterConfig" where
  "applyCluster rng v c = c\<lparr>
     clusterEnabled := setBool v [''cluster.enabled''] (clusterEnabled c),
     clusterRole := setString v [''cluster.role''] (clusterRole c),
     clusterNodeID := setString v [''cluster.node_id''] (clusterNodeID c),
     clusterSharedFields := setCSV v [''cluster.shared_fields''] (clusterSharedFields c),
     clusterActions := applyActions v (clusterActions c),
     clusterSync := applySync v (clusterSync c),
     clusterPeers := parseClusterPeers rng v\<rparr>"

definition applyYAML :: "(string \<Rightarrow> float64 option) \<Rightarrow> rangeOrder \<Rightarrow> Values \<Rightarrow> Config \<Rightarrow> Config" where
  "applyYAML pf rng v cfg = cfg\<lparr>
     cfgServer := applyServer v (cfgServer cfg),
     cfgResolver := applyResolver v (cfgResolver cfg),
     cfgCache := applyCache v (cfgCache cfg),
     cfgSecurity := applySecurity pf v (cfgSecurity cfg),
     cfgACL := applyACL rng v (cfgACL cfg),
     cfgLogging := applyLogging v (cfgLogging cfg),
     cfgWeb := applyWeb pf v (cfgWeb cfg),
     cfgDaemon := applyDaemon v (cfgDaemon cfg),
     cfgZabbix := applyZabbix v (cfgZabbix cfg),
     cfgBlocklist := applyBlocklist v (cfgBlocklist cfg),
     cfgCluster := applyCluster rng v (cfgCluster cfg),
     cfgLocalZones := parseLocalZones rng v,
     cfgForwardZones := parseForwardZones rng v,
     cfgStubZones := parseStubZones rng v\<rparr>"

section \<open>Environment, validation, loading\<close>

text \<open>\<open>os.Getenv\<close> gives the empty string for a variable that is not set.\<close>

definition envInt :: "string \<Rightarrow> int \<Rightarrow> int" where
  "envInt s d = (if s \<noteq> [] then (case Atoi s of Some n \<Rightarrow> n | None \<Rightarrow> d) else d)"

definition envString :: "string \<Rightarrow> string \<Rightarrow> string" where
  "envString s d = (if s \<noteq> [] then s else d)"

definition applyEnv :: "(string \<Rightarrow> string) \<Rightarrow> Config \<Rightarrow> Config" where
  "applyEnv getenv cfg = cfg\<lparr>
     cfgServer := (cfgServer cfg)\<lparr>
       serverListenAddr := envString (getenv ''LABYRINTH_SERVER_LISTEN_ADDR'') (serverListenAddr (cfgServer cfg)),
       serverMetricsAddr := envString (getenv ''LABYRINTH_SERVER_METRICS_ADDR'') (serverMetricsAddr (cfgServer cfg))\<rparr>,
     cfgResolver := (cfgResolver cfg)\<lparr>resolverMaxDepth := envInt (getenv ''LABYRINTH_RESOLVER_MAX_DEPTH'') (resolverMaxDepth (cfgResolver cfg))\<rparr>,
     cfgCache := (cfgCache cfg)\<lparr>cacheMaxEntries := envInt (getenv ''LABYRINTH_CACHE_MAX_ENTRIES'') (cacheMaxEntries (cfgCache cfg))\<rparr>,
     cfgLogging := (cfgLogging cfg)\<lparr>
       loggingLevel := envString (getenv ''LABYRINTH_LOGGING_LEVEL'') (loggingLevel (cfgLogging cfg)),
       loggingFormat := envString (getenv ''LABYRINTH_LOGGING_FORMAT'') (loggingFormat (cfgLogging cfg))\<rparr>\<rparr>"

text \<open>\<open>validate\<close>: an error, or the configuration, in which the automatic certificates turn TLS on.\<close>

definition validateCluster :: "ClusterConfig \<Rightarrow> string option" where
  "validateCluster c =
     (if \<not> clusterEnabled c then None
      else if clusterRole c \<notin> {[], ''standalone'', ''master'', ''secondary''} then
        Some ''cluster.role must be one of standalone|master|secondary''
      else if syncMode (clusterSync c) \<notin> {[], ''off'', ''manual_push'', ''auto_push''} then
        Some ''cluster.sync.mode must be one of off|manual_push|auto_push''
      else (case find (\<lambda>p. peerEnabled p \<and> TrimSpace (peerAPIBase p) = []) (clusterPeers c) of
              Some p \<Rightarrow> Some (''cluster.peers.'' @ peerName p @ ''.api_base must be set when peer is enabled'')
            | None \<Rightarrow> None))"

definition validateWeb :: "WebConfig \<Rightarrow> string option" where
  "validateWeb w =
     (if webTLSEnabled w \<and> \<not> webAutoTLS w \<and> (webTLSCertFile w = [] \<or> webTLSKeyFile w = []) then
        Some ''web.tls_enabled=true requires web.tls_cert_file and web.tls_key_file (or use web.auto_tls)''
      else if webDoH3Enabled w \<and> \<not> webEnabled w then Some ''web.doh3_enabled=true requires web.enabled=true''
      else if webDoH3Enabled w \<and> \<not> webTLSEnabled w then Some ''web.doh3_enabled=true requires web.tls_enabled=true''
      else if webDoH3Enabled w \<and> \<not> webAutoTLS w \<and> (webTLSCertFile w = [] \<or> webTLSKeyFile w = []) then
        Some ''web.doh3_enabled=true requires cert/key files or web.auto_tls''
      else if notPositive (webAlertErrorThreshold w) then Some ''web.alert_error_threshold_pct must be > 0''
      else if webAlertLatencyMs w \<le> 0 then Some ''web.alert_latency_threshold_ms must be > 0''
      else None)"

definition validate :: "Config \<Rightarrow> string + Config" where
  "validate cfg =
     (if resolverMaxDepth (cfgResolver cfg) \<le> 0 then Inl ''resolver.max_depth must be > 0''
      else if cacheMaxTTL (cfgCache cfg) < cacheMinTTL (cfgCache cfg) then
        Inl (''cache.min_ttl ('' @ showNat (unat (cacheMinTTL (cfgCache cfg))) @ '') must be <= cache.max_ttl ('' @
             showNat (unat (cacheMaxTTL (cfgCache cfg))) @ '')'')
      else if rateLimitEnabled (securityRateLimit (cfgSecurity cfg)) \<and> notPositive (rateLimitRate (securityRateLimit (cfgSecurity cfg))) then
        Inl ''security.rate_limit.rate must be > 0''
      else if serverDoTEnabled (cfgServer cfg) \<and> (serverTLSCertFile (cfgServer cfg) = [] \<or> serverTLSKeyFile (cfgServer cfg) = []) then
        Inl ''server.dot_enabled=true requires server.tls_cert_file and server.tls_key_file''
      else if webAutoTLS (cfgWeb cfg) \<and> webAutoTLSDomain (cfgWeb cfg) = [] then Inl ''web.auto_tls=true requires web.auto_tls_domain''
      else (let cfg = (if webAutoTLS (cfgWeb cfg) then cfg\<lparr>cfgWeb := (cfgWeb cfg)\<lparr>webTLSEnabled := True\<rparr>\<rparr> else cfg) in
            case validateWeb (cfgWeb cfg) of
              Some e \<Rightarrow> Inl e
            | None \<Rightarrow> (case validateCluster (cfgCluster cfg) of Some e \<Rightarrow> Inl e | None \<Rightarrow> Inr cfg)))"

definition Parse :: "(string \<Rightarrow> float64 option) \<Rightarrow> rangeOrder \<Rightarrow> string \<Rightarrow> string + Config" where
  "Parse pf rng data = validate (applyYAML pf rng (parseYAML data) defaultConfig)"

text \<open>\<open>Load\<close>: \<open>file\<close> is the contents of the configuration file, if it can be read.\<close>

definition Load :: "(string \<Rightarrow> float64 option) \<Rightarrow> rangeOrder \<Rightarrow> string option \<Rightarrow> (string \<Rightarrow> string) \<Rightarrow> string + Config" where
  "Load pf rng file getenv =
     (case (case file of Some data \<Rightarrow> Parse pf rng data | None \<Rightarrow> Inr defaultConfig) of
        Inl e \<Rightarrow> Inl e
      | Inr cfg \<Rightarrow> validate (applyEnv getenv cfg))"

section \<open>The tables of the resolver (main\_zones.go)\<close>

definition localhostZone :: LocalZone where
  "localhostZone =
     \<lparr>lzName = ''localhost'', lzType = LocalStatic,
      lzRecords = List.map_filter ParseLocalRecord [''localhost. A 127.0.0.1'', ''localhost. AAAA ::1'']\<rparr>"

definition buildLocalZones :: "((LocalZone \<Rightarrow> nat) \<Rightarrow> LocalZone list \<Rightarrow> LocalZone list) \<Rightarrow> Config \<Rightarrow> LocalZoneTable" where
  "buildLocalZones srt cfg =
     NewLocalZoneTable srt
       (localhostZone #
        List.map_filter
          (\<lambda>zc. map_option (\<lambda>zt. \<lparr>lzName = localName zc, lzType = zt, lzRecords = List.map_filter ParseLocalRecord (localData zc)\<rparr>)
                  (ParseLocalZoneType (localType zc)))
          (cfgLocalZones cfg))"

definition buildForwardTable :: "Config \<Rightarrow> ForwardTable" where
  "buildForwardTable cfg =
     NewForwardTable
       (map (\<lambda>fz. \<lparr>fzName = forwardName fz, Addrs = forwardAddrs fz, IsStub = False\<rparr>) (cfgForwardZones cfg) @
        map (\<lambda>sz. \<lparr>fzName = stubName sz, Addrs = stubAddrs sz, IsStub = True\<rparr>) (cfgStubZones cfg))"

definition convertBlocklistEntries :: "BlocklistEntry list \<Rightarrow> (string \<times> string) list" where
  "convertBlocklistEntries es = map (\<lambda>e. (listURL e, listFormat e)) es"

end
