(* ===== verification/Web_Setup.thy ===== *)
theory Web_Setup
  imports Config
begin

text \<open>
  The configuration file that the setup wizard writes (\<open>writeConfigYAML\<close> in \<open>web/api_setup.go\<close>).  \<open>fmtG\<close> is the verb
  \<open>%g\<close> of package \<open>fmt\<close>; \<open>%q\<close> is \<open>Quote\<close>, which leaves bytes of 128 and more as they are (the code escapes those that
  are not printable).
\<close>

record SetupRequest =
  setupListenAddr :: string
  setupWebAddr :: string
  setupUsername :: string
  setupPassword :: string
  setupMaxCacheSize :: int
  setupMaxDepth :: int
  setupRateLimitRate :: float64
  setupRateLimitBurst :: int
  setupLogLevel :: string
  setupLogFormat :: string

section \<open>Formatting\<close>

definition showInt :: "int \<Rightarrow> string" where
  "showInt i = (if i < 0 then CHR ''-'' # showNat (nat (- i)) else showNat (nat i))"

definition quoteChar :: "char \<Rightarrow> string" where
  "quoteChar c =
     (let n = (of_char c :: nat) in
      if n = 34 \<or> n = 92 then [char_of (92 :: nat), c]
      else if n = 7 then [char_of (92 :: nat), CHR ''a'']
      else if n = 8 then [char_of (92 :: nat), CHR ''b'']
      else if n = 12 then [char_of (92 :: nat), CHR ''f'']
      else if n = 10 then [char_of (92 :: nat), CHR ''n'']
      else if n = 13 then [char_of (92 :: nat), CHR ''r'']
      else if n = 9 then [char_of (92 :: nat), CHR ''t'']
      else if n = 11 then [char_of (92 :: nat), CHR ''v'']
      else if n < 32 \<or> n = 127 then [char_of (92 :: nat), CHR ''x'', hexDigit (n div 16), hexDigit (n mod 16)]
      else [c])"

definition Quote :: "string \<Rightarrow> string" where
  "Quote s = char_of (34 :: nat) # concat (map quoteChar s) @ [char_of (34 :: nat)]"

definition yamlSpecial :: string where
  "yamlSpecial = '':#{}[]&*!|>%@`'' @ [char_of (34 :: nat), char_of (39 :: nat)]"

definition escYAML :: "string \<Rightarrow> string" where
  "escYAML s = (if list_ex (\<lambda>c. c \<in> set yamlSpecial) s \<or> s = [] then Quote s else s)"

definition positive :: "float64 \<Rightarrow> bool" where
  "positive x = (case x of Finite r \<Rightarrow> 0 < r | PosInf \<Rightarrow> True | NegInf \<Rightarrow> False | NaN \<Rightarrow> False)"

section \<open>The file\<close>

definition setupLines :: "(float64 \<Rightarrow> string) \<Rightarrow> SetupRequest \<Rightarrow> string \<Rightarrow> string list" where
  "setupLines fmtG cfg passwordHash =
     [''# Labyrinth DNS configuration'', ''# Generated by setup wizard'', [],
      ''server:'',
      ''  listen_addr: '' @ escYAML (setupListenAddr cfg), [],
      ''resolver:'',
      ''  max_depth: '' @ showInt (setupMaxDepth cfg),
      ''  qname_minimization: true'',
      ''  prefer_ipv4: true'', [],
      ''cache:'',
      ''  max_entries: '' @ showInt (setupMaxCacheSize cfg), []] @
     (if positive (setupRateLimitRate cfg) then
        [''security:'',
         ''  rate_limit:'',
         ''    enabled: true'',
         ''    rate: '' @ fmtG (setupRateLimitRate cfg)] @
        (if 0 < setupRateLimitBurst cfg then [''    burst: '' @ showInt (setupRateLimitBurst cfg)] else []) @ [[]]
      else []) @
     [''logging:'',
      ''  level: '' @ escYAML (setupLogLevel cfg),
      ''  format: '' @ escYAML (setupLogFormat cfg), [],
      ''web:'',
      ''  enabled: true'',
      ''  addr: '' @ escYAML (setupWebAddr cfg)] @
     (if setupUsername cfg \<noteq> [] then
        [''  auth:'',
         ''    username: '' @ escYAML (setupUsername cfg),
         ''    password_hash: '' @ escYAML passwordHash]
      else [])"

definition writeConfigYAML :: "(float64 \<Rightarrow> string) \<Rightarrow> SetupRequest \<Rightarrow> string \<Rightarrow> string" where
  "writeConfigYAML fmtG cfg passwordHash = concat (map (\<lambda>l. l @ [newline]) (setupLines fmtG cfg passwordHash))"

end
