(* ===== verification/Config_Properties.thy ===== *)
theory Config_Properties
  imports Config Resolver_Properties
begin

text \<open>
  Properties of the configuration: what the zones of a file are, whatever the order in which maps are ranged over;
  what a validated configuration guarantees; that the environment takes precedence over the file and the file over
  the defaults; and the answers for \<open>localhost\<close> that every configuration keeps.
\<close>

section \<open>The zones of a file\<close>

text \<open>A range over a map visits every key once.\<close>

definition ranges :: "rangeOrder \<Rightarrow> bool" where
  "ranges rng \<longleftrightarrow> (\<forall>site ks. mset (rng site ks) = mset ks)"

lemma ranges_set: "ranges rng \<Longrightarrow> set (rng site ks) = set ks"
  unfolding ranges_def by (metis mset_eq_setD)

lemma ranges_distinct: "ranges rng \<Longrightarrow> distinct (rng site ks) = distinct ks"
  unfolding ranges_def by (metis mset_eq_imp_distinct_iff)

lemma IndexByte_prefix: "c \<notin> set xs \<Longrightarrow> IndexByte (xs @ c # ys) c = Some (length xs)"
  by (induction xs) auto

lemma LastIndexByte_Some:
  assumes "c \<notin> set ys"
  shows "LastIndexByte (xs @ c # ys) c = Some (length xs)"
  using IndexByte_prefix [of c "rev ys" "rev xs"] assms by (simp add: LastIndexByte_def)

lemma zoneKey_join: "dot \<notin> set field \<Longrightarrow> zoneKey pre (pre @ name @ dot # field) = Some (name, field)"
  by (simp add: zoneKey_def HasPrefix_def LastIndexByte_Some)

lemma last_split: "c \<in> set s \<Longrightarrow> \<exists>xs ys. s = xs @ c # ys \<and> c \<notin> set ys"
  by (metis split_list_last)

lemma zoneKey_iff: "zoneKey pre key = Some (name, field) \<longleftrightarrow> key = pre @ name @ dot # field \<and> dot \<notin> set field"
proof
  assume z: "zoneKey pre key = Some (name, field)"
  then have p: "HasPrefix key pre" by (simp add: zoneKey_def split: if_splits)
  then obtain rest where k: "key = pre @ rest" unfolding HasPrefix_def by (metis append_take_drop_id)
  show "key = pre @ name @ dot # field \<and> dot \<notin> set field"
  proof (cases "dot \<in> set rest")
    case True
    then obtain xs ys where "rest = xs @ dot # ys" "dot \<notin> set ys" using last_split by metis
    then show ?thesis using z zoneKey_join [of ys pre xs] unfolding k by simp
  next
    case False
    then have "LastIndexByte rest dot = None" by (simp add: LastIndexByte_def IndexByte_None_iff)
    then show ?thesis using z p unfolding k by (simp add: zoneKey_def)
  qed
qed (simp add: zoneKey_join)

text \<open>
  What the loop over the values makes of one zone: its fields, in the order in which they are visited, are put into a
  new zone; a zone without fields is not there.
\<close>

definition zoneFields :: "string \<Rightarrow> (string \<times> string \<Rightarrow> bool) \<Rightarrow> Values \<Rightarrow> string \<Rightarrow> string list \<Rightarrow> (string \<times> string) list" where
  "zoneFields pre use v name ks =
     List.map_filter (\<lambda>k. case (zoneKey pre k, map_of v k) of
        (Some (n, field), Some val) \<Rightarrow> if n = name \<and> use (n, field) then Some (field, val) else None | _ \<Rightarrow> None) ks"

lemma zoneFields_field:
  "zoneKey pre k = Some (n, field) \<Longrightarrow> map_of v k = Some val \<Longrightarrow>
     zoneFields pre use v name (k # ks) =
       (if n = name \<and> use (n, field) then (field, val) # zoneFields pre use v name ks else zoneFields pre use v name ks)"
  by (auto simp: zoneFields_def List.map_filter_simps)

lemma zoneFields_other:
  "zoneKey pre k = None \<or> map_of v k = None \<Longrightarrow> zoneFields pre use v name (k # ks) = zoneFields pre use v name ks"
  by (auto simp: zoneFields_def List.map_filter_simps split: option.split prod.split)

lemma zoneKey_cases:
  obtains "zoneKey pre k = None \<or> map_of v k = None" | n field val where "zoneKey pre k = Some (n, field)" and "map_of v k = Some val"
  by (cases "zoneKey pre k"; cases "map_of v k") auto

lemma zoneFields_Nil [simp]: "zoneFields pre use v name [] = []"
  by (simp add: zoneFields_def List.map_filter_simps)

lemma mem_zoneFields:
  "(field, val) \<in> set (zoneFields pre use v name ks) \<longleftrightarrow>
     dot \<notin> set field \<and> pre @ name @ dot # field \<in> set ks \<and> map_of v (pre @ name @ dot # field) = Some val \<and> use (name, field)"
proof -
  have "(field, val) \<in> set (zoneFields pre use v name ks) \<longleftrightarrow>
      (\<exists>k\<in>set ks. zoneKey pre k = Some (name, field) \<and> map_of v k = Some val \<and> use (name, field))"
  proof (induction ks)
    case (Cons k ks)
    then show ?case by (cases rule: zoneKey_cases [of pre k v]) (auto simp: zoneFields_other zoneFields_field)
  qed simp
  then show ?thesis by (auto simp: zoneKey_iff)
qed

lemma zoneStep_other: "zoneKey pre k = None \<or> map_of v k = None \<Longrightarrow> zoneStep pre use new put v k zs = zs"
  by (auto simp: zoneStep_def split: option.split)

lemma zoneStep_field:
  "zoneKey pre k = Some (n, field) \<Longrightarrow> map_of v k = Some val \<Longrightarrow>
     zoneStep pre use new put v k zs =
       (if use (n, field) then AList.update n (put field val (case map_of zs n of Some z \<Rightarrow> z | None \<Rightarrow> new n)) zs else zs)"
  by (simp add: zoneStep_def)

lemma fold_zoneStep:
  "map_of (fold (zoneStep pre use new put v) ks zs) name =
     (case zoneFields pre use v name ks of
        [] \<Rightarrow> map_of zs name
      | f # fs \<Rightarrow> Some (fold (\<lambda>(field, val). put field val) (f # fs) (case map_of zs name of Some z \<Rightarrow> z | None \<Rightarrow> new name)))"
proof (induction ks arbitrary: zs)
  case (Cons k ks)
  show ?case
  proof (cases rule: zoneKey_cases [of pre k v])
    case 1
    then show ?thesis by (simp add: zoneStep_other zoneFields_other Cons.IH)
  next
    case (2 n field val)
    show ?thesis
    proof (cases "name = n")
      case True
      show ?thesis unfolding True
        by (simp add: zoneStep_field [OF 2] zoneFields_field [OF 2] Cons.IH [unfolded True] update_conv' split: list.split)
    qed (simp add: zoneStep_field [OF 2] zoneFields_field [OF 2] Cons.IH update_conv' split: list.split)
  qed
qed simp

lemma fold_zoneStep_distinct:
  "distinct (map fst zs) \<Longrightarrow> distinct (map fst (fold (zoneStep pre use new put v) ks zs))"
proof (induction ks arbitrary: zs)
  case (Cons k ks)
  then show ?case by (simp add: zoneStep_def distinct_update split: option.split prod.split)
qed simp

lemma zoneFields_distinct: "distinct ks \<Longrightarrow> distinct (map fst (zoneFields pre use v name ks))"
proof (induction ks)
  case (Cons k ks)
  have "field \<notin> fst ` set (zoneFields pre use v name ks)" if "zoneKey pre k = Some (name, field)" for field
    using Cons.prems that by (auto simp: mem_zoneFields zoneKey_iff)
  with Cons show ?case by (cases rule: zoneKey_cases [of pre k v]) (auto simp: zoneFields_other zoneFields_field)
qed simp


text \<open>The zones that a loop leaves, in the order of the second loop.\<close>

lemma set_map_filter: "set (List.map_filter f xs) = {y. \<exists>x\<in>set xs. f x = Some y}"
  by (induction xs) (auto simp: List.map_filter_simps split: option.split)

lemma map_of_Some_key: "map_of zs k = Some z \<Longrightarrow> k \<in> fst ` set zs"
  by (metis domI dom_map_of_conv_image_fst)

lemma mem_zoneList:
  assumes "set ks = set (map fst zs)"
  shows "z \<in> set (List.map_filter (map_of zs) ks) \<longleftrightarrow> (\<exists>name. map_of zs name = Some z)"
proof -
  have "name \<in> set ks" if "map_of zs name = Some z" for name using that assms map_of_Some_key [of zs name z] by simp
  then show ?thesis unfolding set_map_filter by blast
qed

lemma map_of_zoneFields:
  assumes "distinct ks" and "set ks = set (map fst v)" and "dot \<notin> set field" and "use (name, field)"
  shows "map_of (zoneFields pre use v name ks) field = map_of v (pre @ name @ dot # field)"
proof -
  have "map_of (zoneFields pre use v name ks) field = Some val \<longleftrightarrow> map_of v (pre @ name @ dot # field) = Some val" for val
    unfolding map_of_eq_Some_iff [OF zoneFields_distinct [OF assms(1)]] mem_zoneFields
    using assms(2-) map_of_Some_key [of v "pre @ name @ dot # field" val] by auto
  then show ?thesis by (metis not_None_eq)
qed

lemma zoneLoop:
  assumes "ranges rng" and "distinct (map fst v)"
  shows "distinct (rng site (map fst v))" and "set (rng site (map fst v)) = set (map fst v)"
  using assms ranges_distinct [of rng site "map fst v"] ranges_set [of rng site "map fst v"] by simp_all

text \<open>A list of comma-separated items has no empty ones, and none where the value is missing.\<close>

definition csvAt :: "Values \<Rightarrow> string \<Rightarrow> string list" where
  "csvAt v key = (case map_of v key of Some val \<Rightarrow> parseCSVList val | None \<Rightarrow> [])"

lemma parseCSVList_Nil [simp]: "parseCSVList [] = []"
  by (simp add: parseCSVList_def TrimSpace_def)

text \<open>A field of the zone that is changed only by one key.\<close>

lemma fold_put:
  assumes "\<And>f val z. g (put f val z) = (if f = key then h val (g z) else g z)" and "distinct (map fst fs)"
  shows "g (fold (\<lambda>(f, val). put f val) fs z) = (case map_of fs key of Some val \<Rightarrow> h val (g z) | None \<Rightarrow> g z)"
  using assms(2)
proof (induction fs arbitrary: z)
  case (Cons f fs)
  obtain k val where f: "f = (k, val)" by force
  then have "map_of fs k = None" using Cons.prems by (simp add: map_of_eq_None_iff)
  with Cons show ?case by (simp add: f assms(1) split: option.split)
qed simp

lemma fold_put_same: "(\<And>f val z. g (put f val z) = g z) \<Longrightarrow> g (fold (\<lambda>(f, val). put f val) fs z) = g z"
  by (induction fs arbitrary: z) auto

text \<open>The zones that one of the loops makes, for any of the record types.\<close>

lemma zones_iff:
  assumes "ranges rng" and "distinct (map fst v)"
  shows "z \<in> set (List.map_filter (map_of (fold (zoneStep pre use new put v) (rng site (map fst v)) []))
                    (rng site' (map fst (fold (zoneStep pre use new put v) (rng site (map fst v)) [])))) \<longleftrightarrow>
     (\<exists>name. zoneFields pre use v name (rng site (map fst v)) \<noteq> [] \<and>
             z = fold (\<lambda>(field, val). put field val) (zoneFields pre use v name (rng site (map fst v))) (new name))"
proof -
  let ?zs = "fold (zoneStep pre use new put v) (rng site (map fst v)) []"
  have "map_of ?zs name = Some z \<longleftrightarrow> zoneFields pre use v name (rng site (map fst v)) \<noteq> [] \<and>
      z = fold (\<lambda>(field, val). put field val) (zoneFields pre use v name (rng site (map fst v))) (new name)" for name
    unfolding fold_zoneStep by (cases "zoneFields pre use v name (rng site (map fst v))") auto
  then show ?thesis by (subst mem_zoneList) (simp_all add: ranges_set [OF assms(1)])
qed

lemma zoneField:
  assumes "ranges rng" and "distinct (map fst v)" and "\<And>f val z. g (put f val z) = (if f = key then h val (g z) else g z)"
    and "dot \<notin> set key" and "use (name, key)"
  shows "g (fold (\<lambda>(f, val). put f val) (zoneFields pre use v name (rng site (map fst v))) z) =
     (case map_of v (pre @ name @ dot # key) of Some val \<Rightarrow> h val (g z) | None \<Rightarrow> g z)"
  using fold_put [where fs = "zoneFields pre use v name (rng site (map fst v))", OF assms(3)]
    zoneFields_distinct [OF zoneLoop(1) [OF assms(1,2)]] map_of_zoneFields [OF zoneLoop [OF assms(1,2)] assms(4), of use name] assms(5)
  by simp

lemma field_present:
  assumes "ranges rng" and "distinct (map fst v)" and "map_of v (pre @ name @ dot # field) \<noteq> None" and "dot \<notin> set field" and "use (name, field)"
  shows "zoneFields pre use v name (rng site (map fst v)) \<noteq> []"
proof
  assume "zoneFields pre use v name (rng site (map fst v)) = []"
  then show False using assms(3,5) map_of_zoneFields [OF zoneLoop [OF assms(1,2)] assms(4), of use name pre site] by simp
qed

lemma csvAt_present: "csvAt v key \<noteq> [] \<Longrightarrow> map_of v key \<noteq> None"
  by (auto simp: csvAt_def split: option.splits)

lemma parseACLZones_iff:
  assumes "ranges rng" and "distinct (map fst v)"
  shows "z \<in> set (parseACLZones rng v) \<longleftrightarrow>
     aclZoneAllow z = csvAt v (''access_control.zones.'' @ aclZoneName z @ ''.allow'') \<and>
     aclZoneDeny z = csvAt v (''access_control.zones.'' @ aclZoneName z @ ''.deny'') \<and> (aclZoneAllow z \<noteq> [] \<or> aclZoneDeny z \<noteq> [])"
proof -
  let ?p = "''access_control.zones.''" and ?new = "\<lambda>n. \<lparr>aclZoneName = n, aclZoneAllow = [], aclZoneDeny = []\<rparr>"
  let ?F = "\<lambda>name. zoneFields ?p (\<lambda>_. True) v name (rng ''parseACLZones'' (map fst v))"
  let ?z = "\<lambda>name. fold (\<lambda>(field, val). putACL field val) (?F name) (?new name)"
  have "aclZoneAllow (?z name) = csvAt v (?p @ name @ ''.allow'')" for name
    by (subst zoneField [where key = "''allow''" and h = "\<lambda>val old. if val \<noteq> [] then parseCSVList val else old", OF assms])
      (auto simp: putACL_def csvAt_def split: option.split)
  moreover have "aclZoneDeny (?z name) = csvAt v (?p @ name @ ''.deny'')" for name
    by (subst zoneField [where key = "''deny''" and h = "\<lambda>val old. if val \<noteq> [] then parseCSVList val else old", OF assms])
      (auto simp: putACL_def csvAt_def split: option.split)
  moreover have "aclZoneName (?z name) = name" for name by (subst fold_put_same) (simp_all add: putACL_def)
  ultimately have z: "?z name = \<lparr>aclZoneName = name, aclZoneAllow = csvAt v (?p @ name @ ''.allow''), aclZoneDeny = csvAt v (?p @ name @ ''.deny'')\<rparr>" for name
    by (simp add: ACLZoneConfig.equality)
  have "?F name \<noteq> []" if "csvAt v (?p @ name @ ''.allow'') \<noteq> [] \<or> csvAt v (?p @ name @ ''.deny'') \<noteq> []" for name
    using that field_present [OF assms, where name = name and field = "''allow''" and pre = ?p]
      field_present [OF assms, where name = name and field = "''deny''" and pre = ?p] csvAt_present by auto
  then show ?thesis
    by (cases z) (auto simp: parseACLZones_def Let_def zones_iff [OF assms] z)
qed


lemma parseLocalZones_iff:
  assumes "ranges rng" and "distinct (map fst v)"
  shows "z \<in> set (parseLocalZones rng v) \<longleftrightarrow>
     map_of v (''local_zones.'' @ localName z @ ''.type'') = Some (localType z) \<and> localType z \<noteq> [] \<and>
     localData z = csvAt v (''local_zones.'' @ localName z @ ''.data'')"
proof -
  let ?p = "''local_zones.''" and ?new = "\<lambda>n. \<lparr>localName = n, localType = [], localData = []\<rparr>"
  let ?F = "\<lambda>name. zoneFields ?p (\<lambda>_. True) v name (rng ''parseLocalZones'' (map fst v))"
  let ?z = "\<lambda>name. fold (\<lambda>(field, val). putLocal field val) (?F name) (?new name)"
  let ?t = "\<lambda>name. case map_of v (?p @ name @ ''.type'') of Some t \<Rightarrow> t | None \<Rightarrow> []"
  have "localType (?z name) = ?t name" for name
    by (subst zoneField [where key = "''type''" and h = "\<lambda>val old. val", OF assms]) (auto simp: putLocal_def split: option.split)
  moreover have "localData (?z name) = csvAt v (?p @ name @ ''.data'')" for name
    by (subst zoneField [where key = "''data''" and h = "\<lambda>val old. if val \<noteq> [] then old @ parseCSVList val else old", OF assms])
      (auto simp: putLocal_def csvAt_def split: option.split)
  moreover have "localName (?z name) = name" for name by (subst fold_put_same) (simp_all add: putLocal_def)
  ultimately have z: "?z name = \<lparr>localName = name, localType = ?t name, localData = csvAt v (?p @ name @ ''.data'')\<rparr>" for name
    by (simp add: LocalZoneConfig.equality)
  have "?F name \<noteq> []" if "?t name \<noteq> []" for name
    using that field_present [OF assms, where name = name and field = "''type''" and pre = ?p] by (auto split: option.splits)
  then show ?thesis
    by (cases z) (auto simp: parseLocalZones_def Let_def zones_iff [OF assms] z split: option.splits)
qed

lemma parseZoneAddrs_iff:
  assumes "ranges rng" and "distinct (map fst v)"
  shows "z \<in> set (parseZoneAddrs rng v pre) \<longleftrightarrow> forwardAddrs z = csvAt v (pre @ forwardName z @ ''.addrs'') \<and> forwardAddrs z \<noteq> []"
proof -
  let ?use = "\<lambda>(_ :: string, field). field = ''addrs''" and ?new = "\<lambda>n. \<lparr>forwardName = n, forwardAddrs = []\<rparr>"
  let ?F = "\<lambda>name. zoneFields pre ?use v name (rng pre (map fst v))"
  let ?z = "\<lambda>name. fold (\<lambda>(field, val). putAddrs field val) (?F name) (?new name)"
  have only: "fst ` set (?F name) \<subseteq> {''addrs''}" for name by (auto simp: mem_zoneFields)
  have "fold (\<lambda>(f, val). putAddrs f val) fs y = fold (\<lambda>(f, val). if f = ''addrs'' then putAddrs f val else id) fs y" if "fst ` set fs \<subseteq> {''addrs''}" for fs y
    using that by (induction fs arbitrary: y) auto
  note same = this [OF only]
  have "forwardAddrs (?z name) = csvAt v (pre @ name @ ''.addrs'')" for name
    unfolding same
    by (subst zoneField [where key = "''addrs''" and h = "\<lambda>val old. if val \<noteq> [] then old @ parseCSVList val else old", OF assms])
      (auto simp: putAddrs_def csvAt_def split: option.split)
  moreover have "forwardName (?z name) = name" for name by (subst fold_put_same) (simp_all add: putAddrs_def)
  ultimately have z: "?z name = \<lparr>forwardName = name, forwardAddrs = csvAt v (pre @ name @ ''.addrs'')\<rparr>" for name
    by (simp add: ForwardZoneConfig.equality)
  have "?F name \<noteq> []" if "csvAt v (pre @ name @ ''.addrs'') \<noteq> []" for name
    using that field_present [OF assms, where name = name and field = "''addrs''" and pre = pre and use = ?use] csvAt_present by auto
  then show ?thesis
    by (cases z) (auto simp: parseZoneAddrs_def Let_def zones_iff [OF assms] z)
qed


section \<open>Validated configurations\<close>

text \<open>What \<open>validate\<close> changes: it may turn TLS on.\<close>

lemma validate_Inr:
  assumes "validate cfg = Inr cfg'"
  shows "cfg' = cfg\<lparr>cfgWeb := (cfgWeb cfg)\<lparr>webTLSEnabled := webTLSEnabled (cfgWeb cfg) \<or> webAutoTLS (cfgWeb cfg)\<rparr>\<rparr>"
  using assms by (auto simp: validate_def Let_def split: if_splits option.splits)

lemma forward_eta: "\<lparr>forwardName = forwardName z, forwardAddrs = forwardAddrs z\<rparr> = z"
  by simp

lemma Load_Inr:
  assumes "Load pf rng file getenv = Inr cfg"
  obtains base where "(case file of Some data \<Rightarrow> Parse pf rng data | None \<Rightarrow> Inr defaultConfig) = Inr base" and "validate (applyEnv getenv base) = Inr cfg"
  using assms by (auto simp: Load_def split: sum.splits)

text \<open>
  C38. Every zone of the configuration is a zone of the file, with exactly the lists that the file gives for it, whatever the order in which
  maps are ranged over: forward and stub zones are those with addresses, local zones those with a type, zones of the
  access list those with an entry.
\<close>

theorem file_zones:
  assumes "ranges rng" and "Load pf rng (Some data) getenv = Inr cfg"
  shows "(\<forall>z. z \<in> set (cfgForwardZones cfg) \<longleftrightarrow>
            forwardAddrs z = csvAt (parseYAML data) (''forward_zones.'' @ forwardName z @ ''.addrs'') \<and> forwardAddrs z \<noteq> []) \<and>
         (\<forall>z. z \<in> set (cfgStubZones cfg) \<longleftrightarrow>
            stubAddrs z = csvAt (parseYAML data) (''stub_zones.'' @ stubName z @ ''.addrs'') \<and> stubAddrs z \<noteq> []) \<and>
         (\<forall>z. z \<in> set (cfgLocalZones cfg) \<longleftrightarrow>
            map_of (parseYAML data) (''local_zones.'' @ localName z @ ''.type'') = Some (localType z) \<and> localType z \<noteq> [] \<and>
            localData z = csvAt (parseYAML data) (''local_zones.'' @ localName z @ ''.data'')) \<and>
         (\<forall>z. z \<in> set (aclConfigZones (cfgACL cfg)) \<longleftrightarrow>
            aclZoneAllow z = csvAt (parseYAML data) (''access_control.zones.'' @ aclZoneName z @ ''.allow'') \<and>
            aclZoneDeny z = csvAt (parseYAML data) (''access_control.zones.'' @ aclZoneName z @ ''.deny'') \<and>
            (aclZoneAllow z \<noteq> [] \<or> aclZoneDeny z \<noteq> []))"
proof -
  obtain base where b: "Parse pf rng data = Inr base" and e: "validate (applyEnv getenv base) = Inr cfg"
    using Load_Inr [OF assms(2)] by auto
  have zs: "cfgForwardZones cfg = parseForwardZones rng (parseYAML data)" "cfgStubZones cfg = parseStubZones rng (parseYAML data)"
    "cfgLocalZones cfg = parseLocalZones rng (parseYAML data)" "aclConfigZones (cfgACL cfg) = parseACLZones rng (parseYAML data)"
    using validate_Inr [OF b [unfolded Parse_def]] validate_Inr [OF e] by (simp_all add: applyEnv_def applyYAML_def applyACL_def)
  have "z \<in> set (parseStubZones rng (parseYAML data)) \<longleftrightarrow>
      \<lparr>forwardName = stubName z, forwardAddrs = stubAddrs z\<rparr> \<in> set (parseZoneAddrs rng (parseYAML data) ''stub_zones.'')" for z
    by (auto simp: parseStubZones_def forward_eta intro: rev_image_eqI)
  then show ?thesis
    by (simp add: zs parseForwardZones_def parseZoneAddrs_iff [OF assms(1) parseYAML_distinct]
        parseLocalZones_iff [OF assms(1) parseYAML_distinct] parseACLZones_iff [OF assms(1) parseYAML_distinct])
qed

text \<open>The conditions that \<open>validate\<close> checks.\<close>

definition web_ok :: "WebConfig \<Rightarrow> bool" where
  "web_ok w \<longleftrightarrow>
     (webTLSEnabled w \<longrightarrow> webAutoTLS w \<or> webTLSCertFile w \<noteq> [] \<and> webTLSKeyFile w \<noteq> []) \<and>
     (webDoH3Enabled w \<longrightarrow> webEnabled w \<and> webTLSEnabled w) \<and>
     \<not> notPositive (webAlertErrorThreshold w) \<and> 0 < webAlertLatencyMs w"

definition cluster_ok :: "ClusterConfig \<Rightarrow> bool" where
  "cluster_ok c \<longleftrightarrow>
     (clusterEnabled c \<longrightarrow>
        clusterRole c \<in> {[], ''standalone'', ''master'', ''secondary''} \<and>
        syncMode (clusterSync c) \<in> {[], ''off'', ''manual_push'', ''auto_push''} \<and>
        list_all (\<lambda>p. peerEnabled p \<longrightarrow> TrimSpace (peerAPIBase p) \<noteq> []) (clusterPeers c))"

definition config_ok :: "Config \<Rightarrow> bool" where
  "config_ok cfg \<longleftrightarrow>
     0 < resolverMaxDepth (cfgResolver cfg) \<and> cacheMinTTL (cfgCache cfg) \<le> cacheMaxTTL (cfgCache cfg) \<and>
     (rateLimitEnabled (securityRateLimit (cfgSecurity cfg)) \<longrightarrow> \<not> notPositive (rateLimitRate (securityRateLimit (cfgSecurity cfg)))) \<and>
     (serverDoTEnabled (cfgServer cfg) \<longrightarrow> serverTLSCertFile (cfgServer cfg) \<noteq> [] \<and> serverTLSKeyFile (cfgServer cfg) \<noteq> []) \<and>
     (webAutoTLS (cfgWeb cfg) \<longrightarrow> webTLSEnabled (cfgWeb cfg) \<and> webAutoTLSDomain (cfgWeb cfg) \<noteq> []) \<and>
     web_ok (cfgWeb cfg) \<and> cluster_ok (cfgCluster cfg)"

lemma find_error: "(case find P xs of Some x \<Rightarrow> Some (e x) | None \<Rightarrow> None) = None \<longleftrightarrow> list_all (\<lambda>x. \<not> P x) xs"
  by (induction xs) auto

lemma validateCluster_None: "validateCluster c = None \<longleftrightarrow> cluster_ok c"
  unfolding validateCluster_def cluster_ok_def by (simp add: find_error)

lemma validateWeb_None: "validateWeb w = None \<longleftrightarrow> web_ok w"
  unfolding validateWeb_def web_ok_def
  by (cases "webTLSEnabled w"; cases "webAutoTLS w"; cases "webDoH3Enabled w"; cases "webEnabled w") (simp_all add: not_le)

lemma guards:
  "(if a then Inl e1 else if b then Inl e2 else if c then Inl e3 else if d then Inl e4 else if e then Inl e5 else r) = Inr y \<longleftrightarrow>
     \<not> a \<and> \<not> b \<and> \<not> c \<and> \<not> d \<and> \<not> e \<and> r = Inr y"
  by simp

lemma both_checks:
  "(case a of Some e \<Rightarrow> Inl e | None \<Rightarrow> (case b of Some e \<Rightarrow> Inl e | None \<Rightarrow> Inr c)) = Inr d \<longleftrightarrow> a = None \<and> b = None \<and> d = c"
  by (auto split: option.split)

text \<open>Validation accepts exactly the well-formed configurations, with TLS turned on by automatic certificates.\<close>

lemma validate_iff:
  "validate cfg = Inr cfg' \<longleftrightarrow>
     config_ok cfg' \<and> cfg' = cfg\<lparr>cfgWeb := (cfgWeb cfg)\<lparr>webTLSEnabled := webTLSEnabled (cfgWeb cfg) \<or> webAutoTLS (cfgWeb cfg)\<rparr>\<rparr>"
  (is "_ \<longleftrightarrow> _ \<and> cfg' = ?cfg")
proof -
  have on: "(if webAutoTLS (cfgWeb cfg) then cfg\<lparr>cfgWeb := (cfgWeb cfg)\<lparr>webTLSEnabled := True\<rparr>\<rparr> else cfg) = ?cfg" by simp
  have "config_ok ?cfg \<longleftrightarrow> \<not> resolverMaxDepth (cfgResolver cfg) \<le> 0 \<and> \<not> cacheMaxTTL (cfgCache cfg) < cacheMinTTL (cfgCache cfg) \<and>
     \<not> (rateLimitEnabled (securityRateLimit (cfgSecurity cfg)) \<and> notPositive (rateLimitRate (securityRateLimit (cfgSecurity cfg)))) \<and>
     \<not> (serverDoTEnabled (cfgServer cfg) \<and> (serverTLSCertFile (cfgServer cfg) = [] \<or> serverTLSKeyFile (cfgServer cfg) = [])) \<and>
     \<not> (webAutoTLS (cfgWeb cfg) \<and> webAutoTLSDomain (cfgWeb cfg) = []) \<and> web_ok (cfgWeb ?cfg) \<and> cluster_ok (cfgCluster ?cfg)"
    unfolding config_ok_def by (simp add: not_le not_less)
  then show ?thesis
    unfolding validate_def Let_def on guards both_checks validateWeb_None validateCluster_None by blast
qed

text \<open>
  C39. A configuration that is loaded is well-formed, whatever the file and the environment hold: depth and alert latency are
  positive, the bounds of the cache are in order, TLS has its certificates, DNS over HTTP/3 has TLS, and the peers of a
  cluster that are enabled have an address.
\<close>

theorem Load_well_formed:
  assumes "Load pf rng file getenv = Inr cfg"
  shows "config_ok cfg"
  using Load_Inr [OF assms] validate_iff by metis


text \<open>A file with a forward zone and a zone of the access list.\<close>

definition sample_file :: string where
  "sample_file = ''forward_zones:'' @ newline # ''  corp:'' @ newline # ''    addrs: 10.0.0.1, 10.0.0.2'' @ newline #
     ''access_control:'' @ newline # ''  zones:'' @ newline # ''    corp:'' @ newline # ''      allow:'' @ newline # ''        - 10.0.0.0/8''"

definition keep_order :: rangeOrder where
  "keep_order site ks = ks"

lemma ranges_keep_order: "ranges keep_order"
  by (simp add: ranges_def keep_order_def)

lemma sample_values:
  "parseYAML sample_file =
     [(''forward_zones'', []), (''forward_zones.corp'', []), (''forward_zones.corp.addrs'', ''10.0.0.1, 10.0.0.2''),
      (''access_control'', []), (''access_control.zones'', []), (''access_control.zones.corp'', []),
      (''access_control.zones.corp.allow'', ''10.0.0.0/8'')]"
  by code_simp

text \<open>A section that the file does not have leaves the defaults.\<close>

definition absent :: "string \<Rightarrow> Values \<Rightarrow> bool" where
  "absent p v \<longleftrightarrow> list_all (\<lambda>kv. \<not> HasPrefix (fst kv) p) v"

lemma absent_key: "absent p v \<Longrightarrow> HasPrefix key p \<Longrightarrow> map_of v key = None"
  by (force simp: absent_def list_all_iff dest: map_of_SomeD intro: ccontr)

lemmas setter_defs = setString_def setBool_def setInt_def setUint32_def setFloat64_def setDuration_def setCSV_def setParsed_def
  firstConfigValue_def List.map_filter_simps

lemma applyServer_absent:
  assumes "absent ''server.'' v"
  shows "applyServer v c = c"
  by (simp add: absent_key [OF assms] applyServer_def setter_defs HasPrefix_def)

lemma applyResolver_absent:
  assumes "absent ''resolver.'' v"
  shows "applyResolver v c = c"
  by (simp add: absent_key [OF assms] applyResolver_def setter_defs HasPrefix_def)

lemma applyCache_absent:
  assumes "absent ''cache.'' v"
  shows "applyCache v c = c"
  by (simp add: absent_key [OF assms] applyCache_def setter_defs HasPrefix_def)

lemma applySecurity_absent:
  assumes "absent ''security.'' v"
  shows "applySecurity pf v c = c"
  by (simp add: absent_key [OF assms] applySecurity_def applyRateLimit_def applyRRL_def setter_defs HasPrefix_def)

lemma applyLogging_absent:
  assumes "absent ''logging.'' v"
  shows "applyLogging v c = c"
  by (simp add: absent_key [OF assms] applyLogging_def setter_defs HasPrefix_def)

lemma applyWeb_absent:
  assumes "absent ''web.'' v"
  shows "applyWeb pf v c = c"
  by (simp add: absent_key [OF assms] applyWeb_def applyDashboard_def applyAuth_def setter_defs HasPrefix_def)

lemma applyDaemon_absent:
  assumes "absent ''daemon.'' v"
  shows "applyDaemon v c = c"
  by (simp add: absent_key [OF assms] applyDaemon_def setter_defs HasPrefix_def)

lemma applyZabbix_absent:
  assumes "absent ''zabbix.'' v"
  shows "applyZabbix v c = c"
  by (simp add: absent_key [OF assms] applyZabbix_def setter_defs HasPrefix_def)

lemma applyBlocklist_absent:
  assumes "absent ''blocklist.'' v"
  shows "applyBlocklist v c = c"
  by (simp add: absent_key [OF assms] applyBlocklist_def setter_defs HasPrefix_def)


lemma applyCluster_absent:
  assumes "absent ''cluster.'' v"
  shows "applyCluster rng v c = c\<lparr>clusterPeers := parseClusterPeers rng v\<rparr>"
  by (simp add: absent_key [OF assms] applyCluster_def applyActions_def applySync_def setter_defs HasPrefix_def)

lemmas sections_absent = applyServer_absent applyResolver_absent applyCache_absent applySecurity_absent applyLogging_absent
  applyWeb_absent applyDaemon_absent applyZabbix_absent applyBlocklist_absent applyCluster_absent

text \<open>A file with zones only is accepted.\<close>

lemma default_ok: "config_ok defaultConfig"
  by (simp add: config_ok_def defaultConfig_def web_ok_def cluster_ok_def notPositive_def)

lemma Parse_zones:
  assumes "\<forall>p\<in>{''server.'', ''resolver.'', ''cache.'', ''security.'', ''logging.'', ''web.'', ''daemon.'', ''zabbix.'', ''blocklist.'', ''cluster.''}.
     absent p (parseYAML data)"
  shows "\<exists>cfg. Parse pf rng data = Inr cfg \<and> cfgForwardZones cfg = parseForwardZones rng (parseYAML data) \<and> config_ok cfg"
proof -
  let ?v = "parseYAML data"
  let ?cfg = "applyYAML pf rng ?v defaultConfig"
  have same: "cfgResolver ?cfg = cfgResolver defaultConfig" "cfgCache ?cfg = cfgCache defaultConfig" "cfgSecurity ?cfg = cfgSecurity defaultConfig"
    "cfgServer ?cfg = cfgServer defaultConfig" "cfgWeb ?cfg = cfgWeb defaultConfig"
    "cfgCluster ?cfg = (cfgCluster defaultConfig)\<lparr>clusterPeers := parseClusterPeers rng ?v\<rparr>"
    "cfgForwardZones ?cfg = parseForwardZones rng ?v"
    using assms by (simp_all add: applyYAML_def sections_absent)
  have tls: "?cfg\<lparr>cfgWeb := (cfgWeb ?cfg)\<lparr>webTLSEnabled := webTLSEnabled (cfgWeb ?cfg) \<or> webAutoTLS (cfgWeb ?cfg)\<rparr>\<rparr> = ?cfg"
    unfolding same by (simp add: applyYAML_def defaultConfig_def sections_absent assms)
  have "cluster_ok (cfgCluster ?cfg)" unfolding same by (simp add: cluster_ok_def defaultConfig_def)
  then have "config_ok ?cfg" using default_ok unfolding config_ok_def same by simp
  then have "Parse pf rng data = Inr ?cfg" unfolding Parse_def validate_iff tls by simp
  then show ?thesis using same \<open>config_ok ?cfg\<close> by blast
qed


lemma validate_ok: "config_ok cfg \<Longrightarrow> validate cfg = Inr cfg"
  unfolding validate_iff by (auto simp: config_ok_def)

lemma applyEnv_empty: "applyEnv (\<lambda>_. []) cfg = cfg"
  by (simp add: applyEnv_def envString_def envInt_def)

lemma Load_Parse: "Parse pf rng data = Inr cfg \<Longrightarrow> config_ok cfg \<Longrightarrow> Load pf rng (Some data) (\<lambda>_. []) = Inr cfg"
  by (simp add: Load_def applyEnv_empty validate_ok)

lemma sample_loads:
  obtains cfg where "Load pf rng (Some sample_file) (\<lambda>_. []) = Inr cfg"
proof -
  have "\<forall>p\<in>{''server.'', ''resolver.'', ''cache.'', ''security.'', ''logging.'', ''web.'', ''daemon.'', ''zabbix.'', ''blocklist.'', ''cluster.''}.
     absent p (parseYAML sample_file)"
    unfolding sample_values by (simp add: absent_def HasPrefix_def)
  then show ?thesis using Parse_zones Load_Parse that by blast
qed

theorem file_zones_witness:
  "case Load (\<lambda>_. None) keep_order (Some sample_file) (\<lambda>_. []) of
     Inl _ \<Rightarrow> False
   | Inr cfg \<Rightarrow> \<lparr>forwardName = ''corp'', forwardAddrs = [''10.0.0.1'', ''10.0.0.2'']\<rparr> \<in> set (cfgForwardZones cfg) \<and>
       \<lparr>aclZoneName = ''corp'', aclZoneAllow = [''10.0.0.0/8''], aclZoneDeny = []\<rparr> \<in> set (aclConfigZones (cfgACL cfg))"
proof -
  obtain cfg where l: "Load (\<lambda>_. None) keep_order (Some sample_file) (\<lambda>_. []) = Inr cfg" by (rule sample_loads)
  have "csvAt (parseYAML sample_file) ''forward_zones.corp.addrs'' = [''10.0.0.1'', ''10.0.0.2'']"
    "csvAt (parseYAML sample_file) ''access_control.zones.corp.allow'' = [''10.0.0.0/8'']"
    "csvAt (parseYAML sample_file) ''access_control.zones.corp.deny'' = []"
    unfolding sample_values csvAt_def by code_simp+
  then show ?thesis using file_zones [OF ranges_keep_order l] unfolding l by simp
qed

theorem Load_well_formed_witness: "case Load (\<lambda>_. None) keep_order (Some sample_file) (\<lambda>_. []) of Inl _ \<Rightarrow> False | Inr cfg \<Rightarrow> config_ok cfg"
proof -
  obtain cfg where l: "Load (\<lambda>_. None) keep_order (Some sample_file) (\<lambda>_. []) = Inr cfg" by (rule sample_loads)
  then show ?thesis using Load_well_formed [OF l] by simp
qed

section \<open>Precedence\<close>

text \<open>
  The environment goes before the file and the file before the defaults, and a number that does not parse is passed
  over at each of them.
\<close>

definition file_values :: "string option \<Rightarrow> Values" where
  "file_values file = (case file of Some data \<Rightarrow> parseYAML data | None \<Rightarrow> [])"

lemma base_values:
  assumes "(case file of Some data \<Rightarrow> Parse pf rng data | None \<Rightarrow> Inr defaultConfig) = Inr base"
  shows "cfgServer base = applyServer (file_values file) (cfgServer defaultConfig)"
    and "cfgResolver base = applyResolver (file_values file) (cfgResolver defaultConfig)"
proof -
  have none: "absent p []" for p by (simp add: absent_def)
  have "cfgServer base = applyServer (file_values file) (cfgServer defaultConfig) \<and>
      cfgResolver base = applyResolver (file_values file) (cfgResolver defaultConfig)"
  proof (cases "file")
    case None
    with assms show ?thesis by (simp add: file_values_def sections_absent none)
  next
    case (Some data)
    with assms validate_Inr [of "applyYAML pf rng (parseYAML data) defaultConfig" base] show ?thesis
      by (simp add: Parse_def file_values_def applyYAML_def)
  qed
  then show "cfgServer base = applyServer (file_values file) (cfgServer defaultConfig)"
    and "cfgResolver base = applyResolver (file_values file) (cfgResolver defaultConfig)" by auto
qed

lemma Atoi_Nil: "Atoi [] = None"
  by (simp add: Atoi_def)

theorem Load_precedence:
  assumes "Load pf rng file getenv = Inr cfg"
  shows "serverListenAddr (cfgServer cfg) =
       (if getenv ''LABYRINTH_SERVER_LISTEN_ADDR'' \<noteq> [] then getenv ''LABYRINTH_SERVER_LISTEN_ADDR''
        else (case map_of (file_values file) ''server.listen_addr'' of Some a \<Rightarrow> a | None \<Rightarrow> '':53'')) \<and>
     resolverMaxDepth (cfgResolver cfg) =
       (case Atoi (getenv ''LABYRINTH_RESOLVER_MAX_DEPTH'') of
          Some n \<Rightarrow> n
        | None \<Rightarrow> (case Option.bind (map_of (file_values file) ''resolver.max_depth'') Atoi of Some n \<Rightarrow> n | None \<Rightarrow> 30))"
proof -
  obtain base where b: "(case file of Some data \<Rightarrow> Parse pf rng data | None \<Rightarrow> Inr defaultConfig) = Inr base"
    and e: "validate (applyEnv getenv base) = Inr cfg" using Load_Inr [OF assms] by blast
  have "serverListenAddr (cfgServer base) = (case map_of (file_values file) ''server.listen_addr'' of Some a \<Rightarrow> a | None \<Rightarrow> '':53'')"
    unfolding base_values [OF b] by (simp add: applyServer_def setter_defs defaultConfig_def split: option.split)
  moreover have "resolverMaxDepth (cfgResolver base) =
      (case Option.bind (map_of (file_values file) ''resolver.max_depth'') Atoi of Some n \<Rightarrow> n | None \<Rightarrow> 30)"
    unfolding base_values [OF b] by (simp add: applyResolver_def setter_defs defaultConfig_def split: option.split)
  ultimately show ?thesis
    using validate_Inr [OF e] by (auto simp: applyEnv_def envString_def envInt_def Atoi_Nil)
qed

theorem Load_precedence_witness:
  "case Load (\<lambda>_. None) keep_order (Some sample_file) (\<lambda>_. []) of Inl _ \<Rightarrow> False | Inr cfg \<Rightarrow> serverListenAddr (cfgServer cfg) = '':53''"
proof -
  obtain cfg where l: "Load (\<lambda>_. None) keep_order (Some sample_file) (\<lambda>_. []) = Inr cfg" by (rule sample_loads)
  then show ?thesis using Load_precedence [OF l] by (simp add: file_values_def sample_values)
qed

section \<open>Local names\<close>

text \<open>
  \<open>localhost\<close> is answered with 127.0.0.1 by every configuration that does not define a zone of this name, whatever
  other zones it has and however the sort places them.
\<close>

lemma localhost_only: "inLocalZone ''localhost'' zn \<longleftrightarrow> zn = ''localhost''"
proof -
  have "\<not> HasSuffix ''localhost'' (dot # zn)"
  proof
    assume "HasSuffix ''localhost'' (dot # zn)"
    then have "dot \<in> set ''localhost''" unfolding HasSuffix_def by (metis in_set_dropD list.set_intros(1))
    then show False by simp
  qed
  then show ?thesis by (auto simp: inLocalZone_def)
qed


lemma localhost_fields:
  "Fields (TrimSpace ''localhost. A 127.0.0.1'') = [''localhost.'', ''A'', ''127.0.0.1'']"
  "Fields (TrimSpace ''localhost. AAAA ::1'') = [''localhost.'', ''AAAA'', ''::1'']"
  "stringToType (ToUpper ''A'') = Some TypeA" "stringToType (ToUpper ''AAAA'') = Some TypeAAAA"
  "encodeRData TypeA ''127.0.0.1'' = Some [127, 0, 0, 1]" "encodeRData TypeAAAA ''::1'' = Some (replicate 15 0 @ [1])"
  "normalizeName ''localhost.'' = ''localhost''" "normalizeName ''localhost'' = ''localhost''"
  by code_simp+

lemma localhost_records:
  "ParseLocalRecord ''localhost. A 127.0.0.1'' = Some \<lparr>lrName = ''localhost'', lrType = TypeA, lrRData = [127, 0, 0, 1], lrTTL = 3600\<rparr>"
  "ParseLocalRecord ''localhost. AAAA ::1'' = Some \<lparr>lrName = ''localhost'', lrType = TypeAAAA, lrRData = replicate 15 0 @ [1], lrTTL = 3600\<rparr>"
  unfolding ParseLocalRecord_def localhost_fields Let_def by (simp_all add: localhost_fields)

lemma localhostZone_value:
  "localhostZone = \<lparr>lzName = ''localhost'', lzType = LocalStatic,
     lzRecords = [\<lparr>lrName = ''localhost'', lrType = TypeA, lrRData = [127, 0, 0, 1], lrTTL = 3600\<rparr>,
                  \<lparr>lrName = ''localhost'', lrType = TypeAAAA, lrRData = replicate 15 0 @ [1], lrTTL = 3600\<rparr>]\<rparr>"
  unfolding localhostZone_def List.map_filter_simps localhost_records option.case by (rule refl)

lemma find_unique:
  assumes "\<And>y. y \<in> set xs \<Longrightarrow> P y \<Longrightarrow> y = x" and "x \<in> set xs" and "P x"
  shows "find P xs = Some x"
proof (cases "find P xs")
  case None
  with assms(2,3) show ?thesis by (auto simp: find_None_iff)
next
  case (Some y)
  then have "y \<in> set xs" "P y" by (auto simp: find_Some_iff)
  with Some assms(1) show ?thesis by simp
qed

theorem localhost_answered:
  assumes "slice_sort srt" and "\<forall>z\<in>set (cfgLocalZones cfg). normalizeName (localName z) \<noteq> ''localhost''"
  shows "LocalLookup (buildLocalZones srt cfg) ''localhost'' TypeA ClassIN =
     Some ((resultOf RCodeNoError)\<lparr>resAnswers := [\<lparr>rrName = ''localhost'', rrType = TypeA, rrClass = ClassIN, rrTTL = 3600,
       rrRDLength = 4, rrRData = [127, 0, 0, 1], rrRDataOffset = 0\<rparr>]\<rparr>)"
proof -
  let ?t = "buildLocalZones srt cfg"
  let ?norm = "\<lambda>z. z\<lparr>lzName := normalizeName (lzName z), lzRecords := map (\<lambda>r. r\<lparr>lrName := normalizeName (lrName r)\<rparr>) (lzRecords z)\<rparr>"
  let ?zs = "List.map_filter (\<lambda>zc. map_option (\<lambda>zt. \<lparr>lzName = localName zc, lzType = zt, lzRecords = List.map_filter ParseLocalRecord (localData zc)\<rparr>)
                  (ParseLocalZoneType (localType zc))) (cfgLocalZones cfg)"
  have "mset ?t = mset (map ?norm (localhostZone # ?zs))"
    using assms(1) unfolding slice_sort_def buildLocalZones_def NewLocalZoneTable_def by simp
  then have "set ?t = set (map ?norm (localhostZone # ?zs))" by (rule mset_eq_setD)
  then have t: "set ?t = insert (?norm localhostZone) (?norm ` set ?zs)" by simp
  have norm: "?norm localhostZone = localhostZone" by (simp add: localhostZone_value localhost_fields)
  have other: "\<not> inLocalZone ''localhost'' (lzName (?norm z))" if "z \<in> set ?zs" for z
    using that assms(2) unfolding localhost_only by (auto simp: set_map_filter)
  then have only: "y = localhostZone" if "y \<in> set ?t" "inLocalZone ''localhost'' (lzName y)" for y
    using that unfolding t norm by blast
  have "localhostZone \<in> set ?t" unfolding t norm by (rule insertI1)
  moreover have "inLocalZone ''localhost'' (lzName localhostZone)" unfolding localhost_only localhostZone_value by simp
  ultimately have f: "findZone ?t ''localhost'' = Some localhostZone"
    unfolding findZone_def using only by (intro find_unique)
  have "LocalLookup ?t ''localhost'' TypeA ClassIN = Some (lookupStatic localhostZone ''localhost'' TypeA)"
    unfolding LocalLookup_def Let_def localhost_fields f option.case by (simp add: localhostZone_value)
  also have "lookupStatic localhostZone ''localhost'' TypeA = (resultOf RCodeNoError)\<lparr>resAnswers :=
     [\<lparr>rrName = ''localhost'', rrType = TypeA, rrClass = ClassIN, rrTTL = 3600, rrRDLength = 4, rrRData = [127, 0, 0, 1], rrRDataOffset = 0\<rparr>]\<rparr>"
    by (simp add: localhostZone_value lookupStatic_def matchRecords_def answerRR_def)
  finally show ?thesis .
qed


theorem localhost_answered_witness:
  "map_option resAnswers (LocalLookup (buildLocalZones sortDesc defaultConfig) ''localhost'' TypeA ClassIN) =
     Some [\<lparr>rrName = ''localhost'', rrType = TypeA, rrClass = ClassIN, rrTTL = 3600, rrRDLength = 4, rrRData = [127, 0, 0, 1], rrRDataOffset = 0\<rparr>]"
  using localhost_answered [OF sortDesc_slice_sort, of defaultConfig] by (simp add: defaultConfig_def)

end
