(* ===== verification/Web_Setup_Properties.thy ===== *)
theory Web_Setup_Properties
  imports Web_Setup Config_Properties
begin

text \<open>
  The wizard's file and the reader of configuration files agree: what is written is read back, for values of printable
  characters without blanks, quotes, backslashes and number signs.
\<close>

section \<open>Lines that the reader takes apart\<close>

definition plainChar :: "char \<Rightarrow> bool" where
  "plainChar c \<longleftrightarrow> (let n = (of_char c :: nat) in 33 \<le> n \<and> n \<le> 126 \<and> n \<noteq> 34 \<and> n \<noteq> 35 \<and> n \<noteq> 39 \<and> n \<noteq> 92)"

definition plain :: "string \<Rightarrow> bool" where
  "plain s \<longleftrightarrow> s \<noteq> [] \<and> list_all plainChar s"

text \<open>The text \<open>t\<close> stands for the value \<open>s\<close>: plain, between quotes, or after a quote that is not closed.\<close>

definition token :: "string \<Rightarrow> string \<Rightarrow> bool" where
  "token t s \<longleftrightarrow> plain s \<and> (t = s \<or> t = char_of (34 :: nat) # s @ [char_of (34 :: nat)] \<or> t = char_of (34 :: nat) # s)"

lemma plainChar_not:
  assumes "plainChar c"
  shows "\<not> isSpace c" "\<not> quoteMark c" "\<not> lineEnd c" "c \<noteq> CHR ''#''" "c \<noteq> CHR '' ''" "c \<noteq> newline"
  using assms by (auto simp: plainChar_def isSpace_def quoteMark_def lineEnd_def Let_def)

lemma quote_not:
  "\<not> isSpace (char_of (34 :: nat))" "\<not> lineEnd (char_of (34 :: nat))" "char_of (34 :: nat) \<noteq> CHR ''#''"
  "char_of (34 :: nat) \<noteq> CHR '' ''" "char_of (34 :: nat) \<noteq> newline" "quoteMark (char_of (34 :: nat))"
  by code_simp+

lemma quoteChar_plain: "plainChar c \<Longrightarrow> quoteChar c = [c]"
  by (auto simp: plainChar_def quoteChar_def Let_def)

lemma token_plain: "plain s \<Longrightarrow> token s s"
  by (simp add: token_def)

lemma quote_plain:
  assumes "plain s"
  shows "concat (map quoteChar s) = s"
proof -
  have "list_all plainChar s" using assms by (simp add: plain_def)
  then show ?thesis by (induction s) (auto simp: quoteChar_plain)
qed

lemma token_esc: "plain s \<Longrightarrow> token (escYAML s) s"
  by (auto simp: token_def escYAML_def Quote_def quote_plain)

lemma token_chars: "token t s \<Longrightarrow> c \<in> set t \<Longrightarrow> \<not> isSpace c \<and> \<not> lineEnd c \<and> c \<noteq> CHR ''#'' \<and> c \<noteq> CHR '' '' \<and> c \<noteq> newline"
proof -
  assume t: "token t s" and c: "c \<in> set t"
  then have "plainChar c \<or> c = char_of (34 :: nat)" by (auto simp: token_def plain_def list_all_iff)
  then show ?thesis using plainChar_not [of c] quote_not by metis
qed

lemma token_not_Nil: "token t s \<Longrightarrow> t \<noteq> []"
  by (auto simp: token_def plain_def)

lemma dropWhile_none: "(\<And>c. c \<in> set s \<Longrightarrow> \<not> P c) \<Longrightarrow> dropWhile P s = s"
  by (cases s) auto

lemma Trim_token:
  assumes "token t s"
  shows "Trim quoteMark t = s"
proof -
  have q: "\<not> quoteMark c" if "c \<in> set s" for c using assms that by (auto simp: token_def plain_def list_all_iff plainChar_not)
  have s: "dropWhile quoteMark s = s" "dropWhile quoteMark (rev s) = rev s" using q by (auto intro: dropWhile_none)
  have ne: "s \<noteq> []" using assms by (simp add: token_def plain_def)
  have "dropWhile quoteMark (s @ [char_of (34 :: nat)]) = s @ [char_of (34 :: nat)]" using ne q by (cases s) auto
  then show ?thesis using assms s by (auto simp: token_def Trim_def TrimLeft_def TrimRight_def quote_not)
qed

lemma TrimSpace_lead: "TrimSpace (CHR '' '' # t) = TrimSpace t"
  by (simp add: TrimSpace_def isSpace_def)

text \<open>A key of the file.\<close>

definition yamlName :: "string \<Rightarrow> bool" where
  "yamlName k \<longleftrightarrow> k \<noteq> [] \<and> list_all (\<lambda>c. plainChar c \<and> c \<noteq> CHR '':'') k"

definition keyLine :: "nat \<Rightarrow> string \<Rightarrow> string \<Rightarrow> string" where
  "keyLine i k t = replicate i (CHR '' '') @ k @ '':'' @ t"


definition keyState :: "nat \<Rightarrow> string \<Rightarrow> yamlState \<Rightarrow> yamlState" where
  "keyState i content st =
     yamlKey (int i) content (if int i \<le> prevIndent st \<and> sections st \<noteq> [] then st\<lparr>sections := take (i div 2) (sections st)\<rparr> else st)"

lemma yamlName_chars: "yamlName k \<Longrightarrow> c \<in> set k \<Longrightarrow> plainChar c \<and> c \<noteq> CHR '':''"
  by (auto simp: yamlName_def list_all_iff)

lemma colon_not: "\<not> isSpace CHR '':''" "\<not> lineEnd CHR '':''"
  by code_simp+

lemma dropWhile_spaces: "s \<noteq> [] \<Longrightarrow> \<not> P (hd s) \<Longrightarrow> P c \<Longrightarrow> dropWhile P (replicate i c @ s) = s"
  by (induction i) (cases s; auto)+

text \<open>A line that consists of blanks and a text that begins and ends with other characters.\<close>

lemma yamlLine_content:
  assumes "line = replicate i (CHR '' '') @ content" and "content \<noteq> []" and "\<not> isSpace (hd content)" and "\<not> isSpace (last content)"
    and "CHR ''#'' \<notin> set content" and "\<not> HasPrefix content ''- ''"
  shows "yamlLine line st = keyState i content st"
proof -
  have sp: "isSpace (CHR '' '')" by code_simp
  have le: "isSpace c" if "lineEnd c" for c using that by (auto simp: lineEnd_def isSpace_def Let_def)
  have "IndexByte line (CHR ''#'') = None" using assms(1,5) by (simp add: IndexByte_None_iff)
  moreover have "TrimRight lineEnd line = line"
  proof -
    have "rev line \<noteq> []" "hd (rev line) = last content" using assms(1,2) by (simp_all add: hd_rev)
    then show ?thesis using assms(4) le by (cases "rev line") (auto simp: TrimRight_def)
  qed
  moreover have "line \<noteq> []" using assms(1,2) by simp
  moreover have "length line - length (TrimLeft (\<lambda>c. c = CHR '' '') line) = i"
  proof -
    have "hd content \<noteq> CHR '' ''" using assms(3) sp by metis
    then show ?thesis using assms(2) dropWhile_spaces [of content "\<lambda>c. c = CHR '' ''" "CHR '' ''" i] by (simp add: TrimLeft_def assms(1))
  qed
  moreover have "TrimSpace line = content"
  proof -
    have "dropWhile isSpace line = content" unfolding assms(1) using assms(2,3) sp by (intro dropWhile_spaces)
    moreover have "dropWhile isSpace (rev content) = rev content" using assms(2,4) by (cases "rev content") (auto simp: hd_rev simp flip: last_rev)
    ultimately show ?thesis by (simp add: TrimSpace_def)
  qed
  ultimately show ?thesis using assms(6) by (simp add: yamlLine_def Let_def keyState_def)
qed


text \<open>The line of a key with a value, and the line that opens a section.\<close>

lemma HasPrefix_item: "yamlName k \<Longrightarrow> \<not> HasPrefix (k @ CHR '':'' # t) ''- ''"
proof
  assume k: "yamlName k" and h: "HasPrefix (k @ CHR '':'' # t) ''- ''"
  obtain c cs where c: "k = c # cs" using k by (cases k) (auto simp: yamlName_def)
  show False
  proof (cases cs)
    case Nil
    with h c show False by (simp add: HasPrefix_def)
  next
    case (Cons d ds)
    with h c have "d = CHR '' ''" by (simp add: HasPrefix_def)
    then show False using yamlName_chars [OF k, of d] plainChar_not(5) [of d] c Cons by simp
  qed
qed

lemma yamlKey_split:
  assumes "yamlName k"
  shows "yamlKey i (k @ CHR '':'' # t) st =
     (let value = Trim quoteMark (TrimSpace t); fullKey = sectionKey (sections st) k in
      if value = [] then
        \<lparr>yamlResult = AList.update fullKey [] (yamlResult st), sections = sections st @ [k], lastKey = fullKey, prevIndent = i\<rparr>
      else st\<lparr>yamlResult := AList.update fullKey value (yamlResult st), lastKey := fullKey, prevIndent := i\<rparr>)"
proof -
  have "IndexByte (k @ CHR '':'' # t) (CHR '':'') = Some (length k)" using yamlName_chars [OF assms] by (intro IndexByte_prefix) blast
  moreover have "TrimSpace k = k" using yamlName_chars [OF assms] plainChar_not(1) by (intro TrimSpace_plain) blast
  ultimately show ?thesis by (simp add: yamlKey_def)
qed

lemma hd_last_key: "yamlName k \<Longrightarrow> k \<noteq> [] \<and> \<not> isSpace (hd k) \<and> CHR ''#'' \<notin> set k"
  using yamlName_chars [of k "hd k"] yamlName_chars [of k "CHR ''#''"] plainChar_not by (auto simp: yamlName_def)

lemma yamlLine_value:
  assumes "yamlName k" and "token t s"
  shows "yamlLine (replicate i (CHR '' '') @ k @ '': '' @ t) st = keyState i (k @ CHR '':'' # CHR '' '' # t) st"
  using hd_last_key [OF assms(1)] token_not_Nil [OF assms(2)] token_chars [OF assms(2)] HasPrefix_item [OF assms(1)]
  by (intro yamlLine_content) auto

lemma yamlLine_section:
  assumes "yamlName k"
  shows "yamlLine (replicate i (CHR '' '') @ k @ '':'') st = keyState i (k @ CHR '':'' # []) st"
  using hd_last_key [OF assms(1)] HasPrefix_item [OF assms(1), of "[]"] colon_not by (intro yamlLine_content) auto

lemma keyState_value:
  assumes "yamlName k" and "token t s"
  shows "keyState i (k @ CHR '':'' # CHR '' '' # t) st =
     (let secs = (if int i \<le> prevIndent st \<and> sections st \<noteq> [] then take (i div 2) (sections st) else sections st) in
      st\<lparr>yamlResult := AList.update (sectionKey secs k) s (yamlResult st), sections := secs, lastKey := sectionKey secs k, prevIndent := int i\<rparr>)"
proof -
  have "TrimSpace (CHR '' '' # t) = t" unfolding TrimSpace_lead using token_chars [OF assms(2)] by (intro TrimSpace_plain) blast
  moreover have "s \<noteq> []" using assms(2) by (simp add: token_def plain_def)
  ultimately show ?thesis by (simp add: keyState_def yamlKey_split [OF assms(1)] Trim_token [OF assms(2)] Let_def)
qed

lemma keyState_section:
  assumes "yamlName k"
  shows "keyState i (k @ CHR '':'' # []) st =
     (let secs = (if int i \<le> prevIndent st \<and> sections st \<noteq> [] then take (i div 2) (sections st) else sections st) in
      \<lparr>yamlResult = AList.update (sectionKey secs k) [] (yamlResult st), sections = secs @ [k], lastKey = sectionKey secs k, prevIndent = int i\<rparr>)"
  by (simp add: keyState_def yamlKey_split [OF assms(1)] Let_def TrimSpace_def Trim_def TrimLeft_def TrimRight_def)


section \<open>The file of the wizard\<close>

definition kv :: "nat \<Rightarrow> string \<Rightarrow> string \<Rightarrow> string" where
  "kv i k t = replicate i (CHR '' '') @ k @ '': '' @ t"

definition sec :: "nat \<Rightarrow> string \<Rightarrow> string" where
  "sec i k = replicate i (CHR '' '') @ k @ '':''"

lemma yamlLine_kv:
  assumes "yamlName k" and "token t s"
  shows "yamlLine (kv i k t) \<lparr>yamlResult = r, sections = ss, lastKey = l, prevIndent = p\<rparr> =
     (let secs = (if int i \<le> p \<and> ss \<noteq> [] then take (i div 2) ss else ss) in
      \<lparr>yamlResult = AList.update (sectionKey secs k) s r, sections = secs, lastKey = sectionKey secs k, prevIndent = int i\<rparr>)"
  unfolding kv_def yamlLine_value [OF assms] keyState_value [OF assms] by (simp add: Let_def)

lemma yamlLine_sec:
  assumes "yamlName k"
  shows "yamlLine (sec i k) \<lparr>yamlResult = r, sections = ss, lastKey = l, prevIndent = p\<rparr> =
     (let secs = (if int i \<le> p \<and> ss \<noteq> [] then take (i div 2) ss else ss) in
      \<lparr>yamlResult = AList.update (sectionKey secs k) [] r, sections = secs @ [k], lastKey = sectionKey secs k, prevIndent = int i\<rparr>)"
  unfolding sec_def yamlLine_section [OF assms] keyState_section [OF assms] by (simp add: Let_def)

lemma yamlLine_empty: "yamlLine [] st = st" "yamlLine (CHR ''#'' # t) st = st"
  by (simp_all add: yamlLine_def TrimRight_def)

lemma setupLines_form:
  "setupLines fmtG cfg passwordHash =
     [''# Labyrinth DNS configuration'', ''# Generated by setup wizard'', [],
      sec 0 ''server'', kv 2 ''listen_addr'' (escYAML (setupListenAddr cfg)), [],
      sec 0 ''resolver'', kv 2 ''max_depth'' (showInt (setupMaxDepth cfg)), kv 2 ''qname_minimization'' ''true'', kv 2 ''prefer_ipv4'' ''true'', [],
      sec 0 ''cache'', kv 2 ''max_entries'' (showInt (setupMaxCacheSize cfg)), []] @
     (if positive (setupRateLimitRate cfg) then
        [sec 0 ''security'', sec 2 ''rate_limit'', kv 4 ''enabled'' ''true'', kv 4 ''rate'' (fmtG (setupRateLimitRate cfg))] @
        (if 0 < setupRateLimitBurst cfg then [kv 4 ''burst'' (showInt (setupRateLimitBurst cfg))] else []) @ [[]]
      else []) @
     [sec 0 ''logging'', kv 2 ''level'' (escYAML (setupLogLevel cfg)), kv 2 ''format'' (escYAML (setupLogFormat cfg)), [],
      sec 0 ''web'', kv 2 ''enabled'' ''true'', kv 2 ''addr'' (escYAML (setupWebAddr cfg))] @
     (if setupUsername cfg \<noteq> [] then
        [sec 2 ''auth'', kv 4 ''username'' (escYAML (setupUsername cfg)), kv 4 ''password_hash'' (escYAML passwordHash)]
      else [])"
  by (simp add: setupLines_def kv_def sec_def numeral_eq_Suc)

lemma yamlNames:
  "yamlName ''server''" "yamlName ''listen_addr''" "yamlName ''resolver''" "yamlName ''max_depth''" "yamlName ''qname_minimization''"
  "yamlName ''prefer_ipv4''" "yamlName ''cache''" "yamlName ''max_entries''" "yamlName ''security''" "yamlName ''rate_limit''"
  "yamlName ''enabled''" "yamlName ''rate''" "yamlName ''burst''" "yamlName ''logging''" "yamlName ''level''" "yamlName ''format''"
  "yamlName ''web''" "yamlName ''addr''" "yamlName ''auth''" "yamlName ''username''" "yamlName ''password_hash''"
  by code_simp+

lemma token_true: "token ''true'' ''true''"
  by (rule token_plain) code_simp

lemma plain_showInt: "plain (showInt i)"
proof -
  have d: "plainChar c" if "isDigit c" for c
    using that by (auto simp: isDigit_def digitVal_def plainChar_def Let_def split: if_splits)
  have "plain (showNat n)" for n
    using showNat_digits [of n] d by (auto simp: plain_def list_all_iff)
  moreover have "plainChar (CHR ''-'')" by code_simp
  ultimately show ?thesis by (auto simp: showInt_def plain_def)
qed

lemma Atoi_showInt:
  assumes "- (2 ^ 63) \<le> i" and "i < 2 ^ 63"
  shows "Atoi (showInt i) = Some i"
proof (cases "i < 0")
  case True
  with assms show ?thesis using showNat_digits [of "nat (- i)"] by (simp add: Atoi_def showInt_def decimal_showNat)
next
  case False
  obtain c cs where c: "showNat (nat i) = c # cs" "isDigit c" using showNat_digits [of "nat i"] by (cases "showNat (nat i)") auto
  have "\<not> isDigit (CHR ''-'')" "\<not> isDigit (CHR ''+'')" by code_simp+
  then have "c \<noteq> CHR ''-''" "c \<noteq> CHR ''+''" using c(2) by metis+
  moreover have "decimal (c # cs) = nat i" "list_all isDigit (c # cs)" using decimal_showNat [of "nat i"] showNat_digits [of "nat i"] c(1) by simp_all
  ultimately show ?thesis using False assms c(1) by (simp add: Atoi_def showInt_def)
qed

text \<open>The values of the file.\<close>

definition setupValues :: "(float64 \<Rightarrow> string) \<Rightarrow> SetupRequest \<Rightarrow> string \<Rightarrow> Values" where
  "setupValues fmtG q hash =
     [(''server'', []), (''server.listen_addr'', setupListenAddr q),
      (''resolver'', []), (''resolver.max_depth'', showInt (setupMaxDepth q)), (''resolver.qname_minimization'', ''true''),
      (''resolver.prefer_ipv4'', ''true''), (''cache'', []), (''cache.max_entries'', showInt (setupMaxCacheSize q))] @
     (if positive (setupRateLimitRate q) then
        [(''security'', []), (''security.rate_limit'', []), (''security.rate_limit.enabled'', ''true''),
         (''security.rate_limit.rate'', fmtG (setupRateLimitRate q))] @
        (if 0 < setupRateLimitBurst q then [(''security.rate_limit.burst'', showInt (setupRateLimitBurst q))] else [])
      else []) @
     [(''logging'', []), (''logging.level'', setupLogLevel q), (''logging.format'', setupLogFormat q),
      (''web'', []), (''web.enabled'', ''true''), (''web.addr'', setupWebAddr q),
      (''web.auth'', []), (''web.auth.username'', setupUsername q), (''web.auth.password_hash'', hash)]"

definition setup_plain :: "(float64 \<Rightarrow> string) \<Rightarrow> SetupRequest \<Rightarrow> string \<Rightarrow> bool" where
  "setup_plain fmtG q hash \<longleftrightarrow>
     plain (setupListenAddr q) \<and> plain (setupLogLevel q) \<and> plain (setupLogFormat q) \<and> plain (setupWebAddr q) \<and>
     plain (setupUsername q) \<and> plain hash \<and> plain (fmtG (setupRateLimitRate q))"

text \<open>Reading the lines, where the text of the user name stands for \<open>u\<close>.\<close>

definition userRead :: "string \<Rightarrow> string \<Rightarrow> bool" where
  "userRead name u \<longleftrightarrow> name \<noteq> [] \<and> newline \<notin> set (escYAML name) \<and>
     (\<exists>t. token t u \<and> (\<forall>st. yamlLine (kv 4 ''username'' (escYAML name)) st = yamlLine (kv 4 ''username'' t) st))"

lemma userRead_plain: "plain u \<Longrightarrow> userRead u u"
  using token_esc [of u] token_chars [OF token_esc, of u newline] by (auto simp: userRead_def plain_def)

lemma setup_lines_read:
  assumes "setup_plain fmtG (q\<lparr>setupUsername := u\<rparr>) hash" and "userRead (setupUsername q) u"
  shows "yamlResult (fold yamlLine (setupLines fmtG q hash) yamlStart) = setupValues fmtG (q\<lparr>setupUsername := u\<rparr>) hash"
proof -
  obtain t where u: "setupUsername q \<noteq> []" "token t u"
    and line: "\<And>st. yamlLine (kv 4 ''username'' (escYAML (setupUsername q))) st = yamlLine (kv 4 ''username'' t) st"
    using assms(2) unfolding userRead_def by blast
  have t: "token (escYAML (setupListenAddr q)) (setupListenAddr q)" "token (escYAML (setupLogLevel q)) (setupLogLevel q)"
    "token (escYAML (setupLogFormat q)) (setupLogFormat q)" "token (escYAML (setupWebAddr q)) (setupWebAddr q)"
    "token t u" "token (escYAML hash) hash"
    "token (fmtG (setupRateLimitRate q)) (fmtG (setupRateLimitRate q))"
    using assms(1) u(2) by (simp_all add: setup_plain_def token_esc token_plain)
  have i: "token (showInt i) (showInt i)" for i by (simp add: token_plain plain_showInt)
  note lines = line yamlLine_empty yamlLine_sec [OF yamlNames(1)] yamlLine_kv [OF yamlNames(2) t(1)] yamlLine_sec [OF yamlNames(3)]
    yamlLine_kv [OF yamlNames(4) i] yamlLine_kv [OF yamlNames(5) token_true] yamlLine_kv [OF yamlNames(6) token_true] yamlLine_sec [OF yamlNames(7)]
    yamlLine_kv [OF yamlNames(8) i] yamlLine_sec [OF yamlNames(9)] yamlLine_sec [OF yamlNames(10)] yamlLine_kv [OF yamlNames(11) token_true]
    yamlLine_kv [OF yamlNames(12) t(7)] yamlLine_kv [OF yamlNames(13) i] yamlLine_sec [OF yamlNames(14)] yamlLine_kv [OF yamlNames(15) t(2)]
    yamlLine_kv [OF yamlNames(16) t(3)] yamlLine_sec [OF yamlNames(17)] yamlLine_kv [OF yamlNames(18) t(4)] yamlLine_sec [OF yamlNames(19)]
    yamlLine_kv [OF yamlNames(20) t(5)] yamlLine_kv [OF yamlNames(21) t(6)]
  show ?thesis
    unfolding setupLines_form setupValues_def yamlStart_def using u(1)
    by (cases "positive (setupRateLimitRate q)"; cases "0 < setupRateLimitBurst q") (simp_all add: lines Let_def sectionKey_def)
qed


lemma Split_lines: "\<forall>l\<in>set ls. newline \<notin> set l \<Longrightarrow> Split newline (concat (map (\<lambda>l. l @ [newline]) ls)) = ls @ [[]]"
proof (induction ls)
  case (Cons l ls)
  then have "Split newline (l @ newline # concat (map (\<lambda>l. l @ [newline]) ls)) = l # ls @ [[]]" by (simp add: Split_append_sep)
  then show ?case by simp
qed simp

lemma newline_not: "newline \<noteq> CHR '' ''" "newline \<noteq> CHR '':''" "newline \<noteq> CHR ''#''"
  by code_simp+

lemma sec_line: "yamlName k \<Longrightarrow> newline \<notin> set (sec i k)"
  using yamlName_chars [of k newline] plainChar_not(6) [of newline] newline_not by (auto simp: sec_def)

lemma kv_line: "yamlName k \<Longrightarrow> token t s \<Longrightarrow> newline \<notin> set (kv i k t)"
  using yamlName_chars [of k newline] plainChar_not(6) [of newline] token_chars [of t s newline] newline_not by (auto simp: kv_def)

lemma setup_no_newline:
  assumes "setup_plain fmtG (q\<lparr>setupUsername := u\<rparr>) hash" and "userRead (setupUsername q) u" and "l \<in> set (setupLines fmtG q hash)"
  shows "newline \<notin> set l"
proof -
  have t: "token (escYAML (setupListenAddr q)) (setupListenAddr q)" "token (escYAML (setupLogLevel q)) (setupLogLevel q)"
    "token (escYAML (setupLogFormat q)) (setupLogFormat q)" "token (escYAML (setupWebAddr q)) (setupWebAddr q)" "token (escYAML hash) hash"
    "token (fmtG (setupRateLimitRate q)) (fmtG (setupRateLimitRate q))" and i: "token (showInt i) (showInt i)" for i
    using assms by (simp_all add: setup_plain_def token_esc token_plain plain_showInt)
  have u: "newline \<notin> set (kv 4 ''username'' (escYAML (setupUsername q)))"
    using assms(2) yamlName_chars [OF yamlNames(20), of newline] plainChar_not(6) [of newline] newline_not by (auto simp: userRead_def kv_def)
  have c: "newline \<notin> set ''# Labyrinth DNS configuration''" "newline \<notin> set ''# Generated by setup wizard''" by code_simp+
  have "list_all (\<lambda>l. newline \<notin> set l) (setupLines fmtG q hash)"
    unfolding setupLines_form using c
    by (simp add: u sec_line yamlNames kv_line [OF _ t(1)] kv_line [OF _ t(2)] kv_line [OF _ t(3)] kv_line [OF _ t(4)] kv_line [OF _ t(5)]
        kv_line [OF _ t(6)] kv_line [OF _ i] kv_line [OF _ token_true])
  then show ?thesis using assms(3) by (simp add: list_all_iff)
qed

lemma setup_values:
  assumes "setup_plain fmtG (q\<lparr>setupUsername := u\<rparr>) hash" and "userRead (setupUsername q) u"
  shows "parseYAML (writeConfigYAML fmtG q hash) = setupValues fmtG (q\<lparr>setupUsername := u\<rparr>) hash"
proof -
  obtain cs ls where l: "setupLines fmtG q hash = (CHR ''#'' # cs) # ls" by (simp add: setupLines_def)
  have "Split newline (writeConfigYAML fmtG q hash) = setupLines fmtG q hash @ [[]]"
    unfolding writeConfigYAML_def using setup_no_newline [OF assms] by (intro Split_lines) blast
  moreover have "CHR ''#'' \<noteq> char_of (0xEF :: nat)" by code_simp
  then have "TrimPrefix (CHR ''#'' # cs) bom = CHR ''#'' # cs" by (simp add: TrimPrefix_def HasPrefix_def bom_def)
  ultimately have "parseYAML (writeConfigYAML fmtG q hash) = yamlResult (fold yamlLine (setupLines fmtG q hash @ [[]]) yamlStart)"
    by (simp add: parseYAML_def l)
  then show ?thesis by (simp add: setup_lines_read [OF assms] yamlLine_empty)
qed

section \<open>What is read is what was entered\<close>

lemma zones_absent:
  assumes "absent pre v"
  shows "fold (zoneStep pre use new put v) ks zs = zs"
proof (induction ks)
  case (Cons k ks)
  have "zoneKey pre k = None \<or> map_of v k = None"
    using absent_key [OF assms, of k] by (auto simp: zoneKey_def)
  with Cons show ?case by (simp add: zoneStep_other)
qed simp

lemma no_zones:
  assumes "ranges rng"
  shows "absent ''access_control.zones.'' v \<Longrightarrow> parseACLZones rng v = []" "absent ''local_zones.'' v \<Longrightarrow> parseLocalZones rng v = []"
    "absent ''forward_zones.'' v \<Longrightarrow> parseForwardZones rng v = []" "absent ''stub_zones.'' v \<Longrightarrow> parseStubZones rng v = []"
    "absent ''cluster.peers.'' v \<Longrightarrow> parseClusterPeers rng v = []"
proof -
  have n: "rng site [] = []" for site using assms unfolding ranges_def by (metis mset_zero_iff)
  show "absent ''access_control.zones.'' v \<Longrightarrow> parseACLZones rng v = []" "absent ''local_zones.'' v \<Longrightarrow> parseLocalZones rng v = []"
    "absent ''forward_zones.'' v \<Longrightarrow> parseForwardZones rng v = []" "absent ''stub_zones.'' v \<Longrightarrow> parseStubZones rng v = []"
    "absent ''cluster.peers.'' v \<Longrightarrow> parseClusterPeers rng v = []"
    by (simp_all add: parseACLZones_def parseLocalZones_def parseForwardZones_def parseStubZones_def parseZoneAddrs_def parseClusterPeers_def
        zones_absent n List.map_filter_simps)
qed

text \<open>The defaults, changed by the request.\<close>

definition setupConfig :: "SetupRequest \<Rightarrow> string \<Rightarrow> Config" where
  "setupConfig q hash =
     (let d = defaultConfig in
      d\<lparr>cfgServer := (cfgServer d)\<lparr>serverListenAddr := setupListenAddr q\<rparr>,
        cfgResolver := (cfgResolver d)\<lparr>resolverMaxDepth := setupMaxDepth q\<rparr>,
        cfgCache := (cfgCache d)\<lparr>cacheMaxEntries := setupMaxCacheSize q\<rparr>,
        cfgSecurity := (if positive (setupRateLimitRate q) then (cfgSecurity d)\<lparr>securityRateLimit :=
            \<lparr>rateLimitEnabled = True, rateLimitRate = setupRateLimitRate q,
             rateLimitBurst = (if 0 < setupRateLimitBurst q then setupRateLimitBurst q else 100)\<rparr>\<rparr>
          else cfgSecurity d),
        cfgLogging := \<lparr>loggingLevel = setupLogLevel q, loggingFormat = setupLogFormat q\<rparr>,
        cfgWeb := (cfgWeb d)\<lparr>webAddr := setupWebAddr q, webAuth := \<lparr>webAuthUsername = setupUsername q, webAuthPasswordHash = hash\<rparr>\<rparr>\<rparr>)"

lemma setup_absent:
  "absent ''access_control.'' (setupValues fmtG q hash)" "absent ''access_control.zones.'' (setupValues fmtG q hash)"
  "absent ''local_zones.'' (setupValues fmtG q hash)" "absent ''forward_zones.'' (setupValues fmtG q hash)"
  "absent ''stub_zones.'' (setupValues fmtG q hash)" "absent ''cluster.'' (setupValues fmtG q hash)"
  "absent ''cluster.peers.'' (setupValues fmtG q hash)" "absent ''daemon.'' (setupValues fmtG q hash)"
  "absent ''zabbix.'' (setupValues fmtG q hash)" "absent ''blocklist.'' (setupValues fmtG q hash)"
  by (simp_all add: absent_def setupValues_def HasPrefix_def)

lemma parseBool_true: "parseBool ''true''"
  by code_simp

text \<open>A section of the configuration depends only on the values of the section.\<close>

definition only :: "string \<Rightarrow> Values \<Rightarrow> Values" where
  "only p v = filter (\<lambda>kv. HasPrefix (fst kv) p) v"

lemma only_key: "only p v = w \<Longrightarrow> HasPrefix k p \<Longrightarrow> map_of v k = map_of w k"
  by (induction v arbitrary: w) (auto simp: only_def)

lemma only_first:
  assumes "only p v = w" and "list_all (\<lambda>k. HasPrefix k p) ks"
  shows "firstConfigValue v ks = firstConfigValue w ks"
proof -
  have "List.map_filter (map_of v) ks = List.map_filter (map_of w) ks"
    using assms(2) by (induction ks) (simp_all add: List.map_filter_simps only_key [OF assms(1)] split: option.split)
  then show ?thesis by (simp add: firstConfigValue_def)
qed

lemmas setters_only = setString_def setBool_def setInt_def setUint32_def setFloat64_def setDuration_def setCSV_def setParsed_def

lemma applyServer_only:
  assumes "only ''server.'' v = w"
  shows "applyServer v c = applyServer w c"
  by (simp add: only_first [OF assms] applyServer_def setters_only HasPrefix_def)

lemma applyResolver_only:
  assumes "only ''resolver.'' v = w"
  shows "applyResolver v c = applyResolver w c"
  by (simp add: only_first [OF assms] applyResolver_def setters_only HasPrefix_def)

lemma applyCache_only:
  assumes "only ''cache.'' v = w"
  shows "applyCache v c = applyCache w c"
  by (simp add: only_first [OF assms] applyCache_def setters_only HasPrefix_def)

lemma applySecurity_only:
  assumes "only ''security.'' v = w"
  shows "applySecurity pf v c = applySecurity pf w c"
  by (simp add: only_first [OF assms] applySecurity_def applyRateLimit_def applyRRL_def setters_only HasPrefix_def)

lemma applyLogging_only:
  assumes "only ''logging.'' v = w"
  shows "applyLogging v c = applyLogging w c"
  by (simp add: only_first [OF assms] applyLogging_def setters_only HasPrefix_def)

lemma applyWeb_only:
  assumes "only ''web.'' v = w"
  shows "applyWeb pf v c = applyWeb pf w c"
  by (simp add: only_first [OF assms] applyWeb_def applyDashboard_def applyAuth_def setters_only HasPrefix_def)

lemma setup_sections:
  "only ''server.'' (setupValues fmtG q hash) = [(''server.listen_addr'', setupListenAddr q)]"
  "only ''resolver.'' (setupValues fmtG q hash) =
     [(''resolver.max_depth'', showInt (setupMaxDepth q)), (''resolver.qname_minimization'', ''true''), (''resolver.prefer_ipv4'', ''true'')]"
  "only ''cache.'' (setupValues fmtG q hash) = [(''cache.max_entries'', showInt (setupMaxCacheSize q))]"
  "only ''security.'' (setupValues fmtG q hash) =
     (if positive (setupRateLimitRate q) then
        [(''security.rate_limit'', []), (''security.rate_limit.enabled'', ''true''), (''security.rate_limit.rate'', fmtG (setupRateLimitRate q))] @
        (if 0 < setupRateLimitBurst q then [(''security.rate_limit.burst'', showInt (setupRateLimitBurst q))] else [])
      else [])"
  "only ''logging.'' (setupValues fmtG q hash) = [(''logging.level'', setupLogLevel q), (''logging.format'', setupLogFormat q)]"
  "only ''web.'' (setupValues fmtG q hash) =
     [(''web.enabled'', ''true''), (''web.addr'', setupWebAddr q), (''web.auth'', []), (''web.auth.username'', setupUsername q),
      (''web.auth.password_hash'', hash)]"
  by (simp_all add: only_def setupValues_def HasPrefix_def)


lemma setup_applied:
  assumes "- (2 ^ 63) \<le> setupMaxDepth q" and "setupMaxDepth q < 2 ^ 63" and "- (2 ^ 63) \<le> setupMaxCacheSize q" and "setupMaxCacheSize q < 2 ^ 63"
    and "setupRateLimitBurst q < 2 ^ 63" and "pf (fmtG (setupRateLimitRate q)) = Some (setupRateLimitRate q)"
  shows "applyServer (setupValues fmtG q hash) (cfgServer defaultConfig) = cfgServer (setupConfig q hash)"
    and "applyResolver (setupValues fmtG q hash) (cfgResolver defaultConfig) = cfgResolver (setupConfig q hash)"
    and "applyCache (setupValues fmtG q hash) (cfgCache defaultConfig) = cfgCache (setupConfig q hash)"
    and "applySecurity pf (setupValues fmtG q hash) (cfgSecurity defaultConfig) = cfgSecurity (setupConfig q hash)"
    and "applyLogging (setupValues fmtG q hash) (cfgLogging defaultConfig) = cfgLogging (setupConfig q hash)"
    and "applyWeb pf (setupValues fmtG q hash) (cfgWeb defaultConfig) = cfgWeb (setupConfig q hash)"
proof -
  note result = setter_defs setupConfig_def Let_def defaultConfig_def parseBool_true
  have a: "Atoi (showInt (setupMaxDepth q)) = Some (setupMaxDepth q)" "Atoi (showInt (setupMaxCacheSize q)) = Some (setupMaxCacheSize q)"
    using assms by (simp_all only: Atoi_showInt)
  have b: "Atoi (showInt (setupRateLimitBurst q)) = Some (setupRateLimitBurst q)" if "0 < setupRateLimitBurst q"
    using that assms(5) by (intro Atoi_showInt) simp_all
  show "applyServer (setupValues fmtG q hash) (cfgServer defaultConfig) = cfgServer (setupConfig q hash)"
    unfolding applyServer_only [OF setup_sections(1)] by (simp add: applyServer_def result)
  show "applyResolver (setupValues fmtG q hash) (cfgResolver defaultConfig) = cfgResolver (setupConfig q hash)"
    unfolding applyResolver_only [OF setup_sections(2)] by (simp add: applyResolver_def result a)
  show "applyCache (setupValues fmtG q hash) (cfgCache defaultConfig) = cfgCache (setupConfig q hash)"
    unfolding applyCache_only [OF setup_sections(3)] by (simp add: applyCache_def result a)
  show "applySecurity pf (setupValues fmtG q hash) (cfgSecurity defaultConfig) = cfgSecurity (setupConfig q hash)"
    unfolding applySecurity_only [OF setup_sections(4)]
    by (cases "positive (setupRateLimitRate q)"; cases "0 < setupRateLimitBurst q")
      (simp_all add: applySecurity_def applyRateLimit_def applyRRL_def result b assms(6))
  show "applyLogging (setupValues fmtG q hash) (cfgLogging defaultConfig) = cfgLogging (setupConfig q hash)"
    unfolding applyLogging_only [OF setup_sections(5)] by (simp add: applyLogging_def result)
  show "applyWeb pf (setupValues fmtG q hash) (cfgWeb defaultConfig) = cfgWeb (setupConfig q hash)"
    unfolding applyWeb_only [OF setup_sections(6)] by (simp add: applyWeb_def applyDashboard_def applyAuth_def result)
qed


lemma setup_applyYAML:
  assumes "ranges rng" and "- (2 ^ 63) \<le> setupMaxDepth q" and "setupMaxDepth q < 2 ^ 63" and "- (2 ^ 63) \<le> setupMaxCacheSize q"
    and "setupMaxCacheSize q < 2 ^ 63" and "setupRateLimitBurst q < 2 ^ 63" and "pf (fmtG (setupRateLimitRate q)) = Some (setupRateLimitRate q)"
  shows "applyYAML pf rng (setupValues fmtG q hash) defaultConfig = setupConfig q hash"
proof -
  have acl: "applyACL rng (setupValues fmtG q hash) (cfgACL defaultConfig) = cfgACL defaultConfig"
    by (simp add: applyACL_def setter_defs absent_key [OF setup_absent(1)] HasPrefix_def no_zones [OF assms(1)] setup_absent defaultConfig_def)
  have cl: "applyCluster rng (setupValues fmtG q hash) (cfgCluster defaultConfig) = cfgCluster defaultConfig"
    by (simp add: applyCluster_absent setup_absent no_zones [OF assms(1)] defaultConfig_def)
  have rest: "cfgACL (setupConfig q hash) = cfgACL defaultConfig" "cfgCluster (setupConfig q hash) = cfgCluster defaultConfig"
    "cfgDaemon (setupConfig q hash) = cfgDaemon defaultConfig" "cfgZabbix (setupConfig q hash) = cfgZabbix defaultConfig"
    "cfgBlocklist (setupConfig q hash) = cfgBlocklist defaultConfig" "cfgLocalZones (setupConfig q hash) = []"
    "cfgForwardZones (setupConfig q hash) = []" "cfgStubZones (setupConfig q hash) = []"
    by (simp_all add: setupConfig_def Let_def defaultConfig_def)
  show ?thesis
    by (rule Config.equality)
      (simp_all add: applyYAML_def setup_applied [where pf = pf and fmtG = fmtG, OF assms(2-7)] acl cl sections_absent setup_absent no_zones [OF assms(1)] rest)
qed

lemma setup_config_ok:
  assumes "0 < setupMaxDepth q"
  shows "config_ok (setupConfig q hash)"
proof -
  have "\<not> notPositive x" if "positive x" for x using that by (auto simp: positive_def notPositive_def split: float64.splits)
  then show ?thesis
    using assms default_ok by (auto simp: config_ok_def setupConfig_def Let_def web_ok_def)
qed

lemma setup_parsed:
  assumes "ranges rng" and "setup_plain fmtG (q\<lparr>setupUsername := u\<rparr>) hash" and "userRead (setupUsername q) u"
    and "0 < setupMaxDepth q" and "setupMaxDepth q < 2 ^ 63"
    and "- (2 ^ 63) \<le> setupMaxCacheSize q" and "setupMaxCacheSize q < 2 ^ 63" and "setupRateLimitBurst q < 2 ^ 63"
    and "pf (fmtG (setupRateLimitRate q)) = Some (setupRateLimitRate q)"
  shows "Parse pf rng (writeConfigYAML fmtG q hash) = Inr (setupConfig (q\<lparr>setupUsername := u\<rparr>) hash)"
proof -
  have "applyYAML pf rng (setupValues fmtG (q\<lparr>setupUsername := u\<rparr>) hash) defaultConfig = setupConfig (q\<lparr>setupUsername := u\<rparr>) hash"
    using assms by (intro setup_applyYAML) simp_all
  moreover have "config_ok (setupConfig (q\<lparr>setupUsername := u\<rparr>) hash)" using assms(4) by (intro setup_config_ok) simp
  ultimately show ?thesis
    unfolding Parse_def setup_values [OF assms(2,3)] by (simp add: validate_ok)
qed

text \<open>
  C37. The wizard's file is read as it was meant: for an account and addresses of plain characters, parsing the file that
  \<open>writeConfigYAML\<close> writes succeeds, whatever the order in which maps are ranged over, and gives the defaults with
  the entries of the request, if numbers are read as they are printed.
\<close>

theorem setup_round_trip:
  assumes "ranges rng" and "setup_plain fmtG q hash" and "0 < setupMaxDepth q" and "setupMaxDepth q < 2 ^ 63"
    and "- (2 ^ 63) \<le> setupMaxCacheSize q" and "setupMaxCacheSize q < 2 ^ 63" and "setupRateLimitBurst q < 2 ^ 63"
    and "pf (fmtG (setupRateLimitRate q)) = Some (setupRateLimitRate q)"
  shows "Parse pf rng (writeConfigYAML fmtG q hash) = Inr (setupConfig q hash)"
proof -
  have "plain (setupUsername q)" using assms(2) by (simp add: setup_plain_def)
  then show ?thesis using setup_parsed [where u = "setupUsername q", OF assms(1) _ userRead_plain] assms(2-) by simp
qed

definition sample_setup :: SetupRequest where
  "sample_setup = \<lparr>setupListenAddr = '':53'', setupWebAddr = ''127.0.0.1:9153'', setupUsername = ''admin'', setupPassword = ''secret'',
     setupMaxCacheSize = 5000, setupMaxDepth = 20, setupRateLimitRate = Finite 50, setupRateLimitBurst = 0, setupLogLevel = ''info'', setupLogFormat = ''text''\<rparr>"

definition read50 :: "string \<Rightarrow> float64 option" where
  "read50 s = (if s = ''50'' then Some (Finite 50) else None)"

theorem setup_round_trip_witness:
  "Parse read50 keep_order (writeConfigYAML (\<lambda>_. ''50'') sample_setup ''$2a$10$x'') = Inr (setupConfig sample_setup ''$2a$10$x'')"
proof (rule setup_round_trip)
  show "ranges keep_order" by (rule ranges_keep_order)
  show "setup_plain (\<lambda>_. ''50'') sample_setup ''$2a$10$x''" by code_simp
qed (simp_all add: sample_setup_def read50_def)

lemma quoteChar_newline: "newline \<notin> set (quoteChar c)"
proof -
  have hex: "hexDigit k \<noteq> newline" if "k < 16" for k
  proof -
    have "of_char (hexDigit k) \<noteq> (10 :: nat)" using that by (simp add: hexDigit_def)
    then show ?thesis by auto
  qed
  have other: "c \<noteq> newline" if "(of_char c :: nat) \<noteq> 10" for c using that by auto
  have "(of_char c :: nat) mod 16 < 16" by simp
  moreover have "(of_char c :: nat) < 256" by (metis of_char_mod_256 mod_less_divisor zero_less_numeral)
  then have "(of_char c :: nat) div 16 < 16" by (simp add: less_mult_imp_div_less)
  moreover have "newline \<notin> {char_of (92 :: nat), CHR ''a'', CHR ''b'', CHR ''f'', CHR ''n'', CHR ''r'', CHR ''t'', CHR ''v'', CHR ''x''}" by code_simp
  ultimately show ?thesis using hex [of "of_char c mod 16"] hex [of "of_char c div 16"] other [of c]
    by (auto simp: quoteChar_def Let_def)
qed

lemma yamlLine_comment: "CHR ''#'' \<notin> set x \<Longrightarrow> yamlLine (x @ CHR ''#'' # y) st = yamlLine x st"
proof -
  assume x: "CHR ''#'' \<notin> set x"
  then have "IndexByte x (CHR ''#'') = None" by (simp add: IndexByte_None_iff)
  then show ?thesis using IndexByte_prefix [OF x, of y] by (simp add: yamlLine_def)
qed

lemma userRead_cut:
  assumes "plain u"
  shows "userRead (u @ CHR ''#'' # rest) u"
proof -
  let ?y = "concat (map quoteChar rest) @ [char_of (34 :: nat)]" and ?t = "char_of (34 :: nat) # u"
  have tok: "token ?t u" using assms by (simp add: token_def)
  have "concat (map quoteChar u) = u" using assms by (rule quote_plain)
  moreover have "quoteChar (CHR ''#'') = ''#''" "CHR ''#'' \<in> set yamlSpecial" by code_simp+
  ultimately have esc: "escYAML (u @ CHR ''#'' # rest) = ?t @ CHR ''#'' # ?y" by (auto simp: escYAML_def Quote_def)
  have "CHR ''#'' \<notin> set (kv 4 ''username'' ?t)"
    using yamlName_chars [OF yamlNames(20), of "CHR ''#''"] plainChar_not(4) [of "CHR ''#''"] token_chars [OF tok, of "CHR ''#''"] by (auto simp: kv_def)
  then have "yamlLine (kv 4 ''username'' (escYAML (u @ CHR ''#'' # rest))) st = yamlLine (kv 4 ''username'' ?t) st" for st
    using yamlLine_comment [of "kv 4 ''username'' ?t" ?y st] unfolding esc by (simp add: kv_def)
  moreover have "newline \<notin> set ?y" using quoteChar_newline quote_not(5) by auto
  then have "newline \<notin> set (escYAML (u @ CHR ''#'' # rest))"
    unfolding esc using token_chars [OF tok, of newline] newline_not by auto
  ultimately show ?thesis unfolding userRead_def using tok by blast
qed

text \<open>
  C40. A number sign cuts the user name: it is quoted in the file, but the reader takes the rest of the line, quoted or not,
  for a comment.  The wizard reports success, and the account that was set up has another name than the one entered.
\<close>

theorem setup_user_cut:
  assumes "ranges rng" and "setup_plain fmtG (q\<lparr>setupUsername := u\<rparr>) hash" and "setupUsername q = u @ CHR ''#'' # rest"
    and "0 < setupMaxDepth q" and "setupMaxDepth q < 2 ^ 63"
    and "- (2 ^ 63) \<le> setupMaxCacheSize q" and "setupMaxCacheSize q < 2 ^ 63" and "setupRateLimitBurst q < 2 ^ 63"
    and "pf (fmtG (setupRateLimitRate q)) = Some (setupRateLimitRate q)"
  shows "Parse pf rng (writeConfigYAML fmtG q hash) = Inr (setupConfig (q\<lparr>setupUsername := u\<rparr>) hash)"
proof -
  have "plain u" using assms(2) by (simp add: setup_plain_def)
  then show ?thesis using userRead_cut assms by (intro setup_parsed) simp_all
qed


theorem setup_user_cut_witness:
  "Parse read50 keep_order (writeConfigYAML (\<lambda>_. ''50'') (sample_setup\<lparr>setupUsername := ''admin#1''\<rparr>) ''$2a$10$x'') =
     Inr (setupConfig sample_setup ''$2a$10$x'')"
proof -
  have "setup_plain (\<lambda>_. ''50'') sample_setup ''$2a$10$x''" by code_simp
  then show ?thesis
    using setup_user_cut [where q = "sample_setup\<lparr>setupUsername := ''admin#1''\<rparr>" and u = "''admin''" and rest = "''1''" and rng = keep_order
        and fmtG = "\<lambda>_. ''50''" and hash = "''$2a$10$x''" and pf = read50] ranges_keep_order
    by (simp add: sample_setup_def read50_def)
qed

end
