(* ===== verification/Web_Update.thy ===== *)
theory Web_Update
  imports Web_Auth
begin

text \<open>
  The update of the program (\<open>web/api_update.go\<close>).  The network, the file system and the libraries are the record
  \<open>UpdateEnv\<close>: the \<open>n\<close>-th download of a URL, the JSON text of a release, SHA-256, the path of the executable, the names of
  temporary files, and whether an operation on files fails; a write that fails leaves a part of the data, and errors of the removal of
  a file are ignored, as in the code, so that the file stays.  The files themselves are part of the state, a map from
  paths to contents, because what an update does is to replace one of them.
\<close>

record githubAsset =
  assetName :: string
  BrowserDownloadURL :: string

record githubRelease =
  TagName :: string
  HTMLURL :: string
  releaseBody :: string
  Assets :: "githubAsset list"

text \<open>A reply of a server: \<open>replyErr\<close> is the error that ends the body early.\<close>

record Reply =
  replyStatus :: nat
  replyBody :: bytes
  replyErr :: "string option"

record fsError =
  erofs :: bool
  errText :: string

record UpdateEnv =
  httpGet :: "nat \<Rightarrow> string \<Rightarrow> string + Reply"
  decodeRelease :: "bytes \<Rightarrow> string + githubRelease"
  sha256 :: "bytes \<Rightarrow> bytes"
  executable :: "string + string"
  evalSymlinks :: "string \<Rightarrow> string + string"
  dirOf :: "string \<Rightarrow> string"
  createTemp :: "string \<Rightarrow> string \<Rightarrow> fsError + string"
  writeError :: "(string \<times> nat) option"
  removeFails :: "string \<Rightarrow> bool"
  chmodError :: "string \<Rightarrow> string option"
  renameError :: "string \<Rightarrow> string \<Rightarrow> fsError option"
  GOOS :: string
  GOARCH :: string
  buildVersion :: string

record UpdateInfo =
  CurrentVersion :: string
  LatestVersion :: string
  UpdateAvailable :: bool
  ReadOnly :: bool
  ReadOnlyHint :: string
  ReleaseURL :: string
  ReleaseNotes :: string
  infoAsset :: string

record UpdateState =
  files :: "string \<rightharpoonup> bytes"
  updateCache :: "UpdateInfo option"
  updateCheckedAt :: int
  restarting :: bool

datatype updateResponse = InfoReply UpdateInfo | Answer response

definition githubReleasesURL :: string where
  "githubReleasesURL = ''https://api.github.com/repos/labyrinthdns/labyrinth/releases/latest''"

definition maxUpdateBodyBytes :: nat where
  "maxUpdateBodyBytes = 200 * 2 ^ 20"

section \<open>Versions\<close>

definition parseSemverParts :: "string \<Rightarrow> int \<times> int \<times> int" where
  "parseSemverParts v =
     (let num = (\<lambda>seg. case Atoi (takeWhile (\<lambda>c. c \<noteq> CHR ''-'' \<and> c \<noteq> CHR ''+'') seg) of Some n \<Rightarrow> n | None \<Rightarrow> 0) in
      case SplitN v dot 3 of
        [a, b, c] \<Rightarrow> (num a, num b, num c)
      | [a, b] \<Rightarrow> (num a, num b, 0)
      | [a] \<Rightarrow> (num a, 0, 0)
      | _ \<Rightarrow> (0, 0, 0))"

definition compareSemver :: "string \<Rightarrow> string \<Rightarrow> int" where
  "compareSemver a b =
     (case (parseSemverParts a, parseSemverParts b) of
        ((a0, a1, a2), (b0, b1, b2)) \<Rightarrow>
          if a0 < b0 then -1 else if b0 < a0 then 1
          else if a1 < b1 then -1 else if b1 < a1 then 1
          else if a2 < b2 then -1 else if b2 < a2 then 1
          else 0)"

section \<open>Checksums\<close>

fun hexEncode :: "bytes \<Rightarrow> string" where
  "hexEncode [] = []"
| "hexEncode (b # bs) = hexDigit (unat b div 16) # hexDigit (unat b mod 16) # hexEncode bs"

definition secureCompareHex :: "string \<Rightarrow> string \<Rightarrow> bool" where
  "secureCompareHex a b =
     (let a = ToLower (TrimSpace a); b = ToLower (TrimSpace b) in
      if length a \<noteq> length b then False
      else foldl (\<lambda>diff (x, y). diff OR (byte_of x XOR byte_of y)) 0 (zip a b) = 0)"

text \<open>A line of \<open>checksums.txt\<close>: the digest, if the line names the asset; \<open>Inl\<close> where the digest is malformed.\<close>

definition checksumLine :: "string \<Rightarrow> string \<Rightarrow> (string + string) option" where
  "checksumLine name text =
     (let line = TrimSpace text in
      if line = [] \<or> HasPrefix line ''#'' then None
      else (let fields = Fields line in
            if length fields < 2 then None
            else (let f = last fields;
                      listed = (if HasPrefix f ''*'' then drop 1 f else f) in
                  if listed = name then
                    (let sha = ToLower (hd fields) in
                     if length sha \<noteq> 64 \<or> \<not> list_all (\<lambda>c. hexVal c \<noteq> None) sha then Some (Inl (''malformed sha256 entry for '' @ name))
                     else Some (Inr sha))
                  else None)))"

definition fetchExpectedSHA256 :: "(string + Reply) \<Rightarrow> string \<Rightarrow> string + string" where
  "fetchExpectedSHA256 reply name =
     (case reply of
        Inl err \<Rightarrow> Inl (''fetch checksums.txt: '' @ err)
      | Inr resp \<Rightarrow>
          if replyStatus resp \<noteq> 200 then Inl (''checksums.txt returned status '' @ showNat (replyStatus resp))
          else (let text = string_of (take (2 ^ 20) (replyBody resp)) in
                case List.map_filter (checksumLine name) (scanLines text) of
                  Inl e # _ \<Rightarrow> Inl e
                | Inr sha # _ \<Rightarrow> Inr sha
                | [] \<Rightarrow> if scanError text \<or> (replyErr resp \<noteq> None \<and> length (replyBody resp) < 2 ^ 20) then Inl ''read checksums.txt''
                        else Inl (''no checksum entry for '' @ name @ '' in checksums.txt'')))"

section \<open>Releases\<close>

definition latestRelease :: "UpdateEnv \<Rightarrow> nat \<Rightarrow> string + githubRelease" where
  "latestRelease env n =
     (case httpGet env n githubReleasesURL of
        Inl err \<Rightarrow> Inl (''failed to fetch release info: '' @ err)
      | Inr resp \<Rightarrow>
          if replyStatus resp \<noteq> 200 then Inl (''GitHub API returned status '' @ showNat (replyStatus resp))
          else (case decodeRelease env (replyBody resp) of
                  Inl err \<Rightarrow> Inl (''failed to parse release info: '' @ err)
                | Inr release \<Rightarrow> Inr release))"

text \<open>The loop over the assets keeps the last match of each.\<close>

definition assetStep :: "string \<Rightarrow> githubAsset \<Rightarrow> string \<times> string \<Rightarrow> string \<times> string" where
  "assetStep name asset = (\<lambda>(assetURL, checksumsURL).
     if assetName asset = name then (BrowserDownloadURL asset, checksumsURL)
     else if ToLower (assetName asset) = ''checksums.txt'' then (assetURL, BrowserDownloadURL asset)
     else (assetURL, checksumsURL))"

definition findAssetURLWithChecksums :: "UpdateEnv \<Rightarrow> nat \<Rightarrow> string \<Rightarrow> string + string \<times> string" where
  "findAssetURLWithChecksums env n name =
     (case latestRelease env n of
        Inl e \<Rightarrow> Inl e
      | Inr release \<Rightarrow>
          (let (assetURL, checksumsURL) = fold (assetStep name) (Assets release) ([], []) in
           if assetURL = [] then Inl (''asset '' @ name @ '' not found in release'')
           else if checksumsURL = [] then Inl ''checksums.txt not found in release''
           else Inr (assetURL, checksumsURL)))"

section \<open>Files\<close>

fun containsText :: "string \<Rightarrow> string \<Rightarrow> bool" where
  "containsText [] p \<longleftrightarrow> p = []"
| "containsText (c # cs) p \<longleftrightarrow> HasPrefix (c # cs) p \<or> containsText cs p"

definition isReadOnlyFS :: "fsError \<Rightarrow> bool" where
  "isReadOnlyFS e \<longleftrightarrow> erofs e \<or> containsText (ToLower (errText e)) ''read-only file system''"

definition updateReadOnlyHint :: "UpdateEnv \<Rightarrow> string \<Rightarrow> string" where
  "updateReadOnlyHint env exePath =
     ''self-update is disabled because the install path is read-only ('' @ dirOf env exePath @
     ''); use install/update script on the host or redeploy your container image''"

definition removeFile :: "UpdateEnv \<Rightarrow> string \<Rightarrow> UpdateState \<Rightarrow> UpdateState" where
  "removeFile env p s = (if removeFails env p then s else s\<lparr>files := (files s)(p := None)\<rparr>)"

definition moveFile :: "string \<Rightarrow> string \<Rightarrow> UpdateState \<Rightarrow> UpdateState" where
  "moveFile p q s = s\<lparr>files := (files s)(p := None, q := files s p)\<rparr>"

section \<open>Checking for updates\<close>

definition platformAsset :: "UpdateEnv \<Rightarrow> string" where
  "platformAsset env = ''labyrinth-'' @ GOOS env @ ''-'' @ GOARCH env @ (if GOOS env = ''windows'' then ''.exe'' else [])"

definition trimV :: "string \<Rightarrow> string" where
  "trimV v = (if HasPrefix v ''v'' then drop 1 v else v)"

text \<open>The probe of the install directory: whether it is read-only, and the files after it.\<close>

definition probeDir :: "UpdateEnv \<Rightarrow> UpdateState \<Rightarrow> (bool \<times> string) \<times> UpdateState" where
  "probeDir env s =
     (case executable env of
        Inl _ \<Rightarrow> ((False, []), s)
      | Inr exe \<Rightarrow>
          (let exePath = (case evalSymlinks env exe of Inr resolved \<Rightarrow> resolved | Inl _ \<Rightarrow> exe) in
           case createTemp env (dirOf env exePath) ''.labyrinth-probe-*'' of
             Inl err \<Rightarrow> if isReadOnlyFS err then ((True, updateReadOnlyHint env exePath), s) else ((False, []), s)
           | Inr tmp \<Rightarrow> ((False, []), removeFile env tmp (s\<lparr>files := (files s)(tmp \<mapsto> [])\<rparr>))))"

definition checkForUpdate :: "UpdateEnv \<Rightarrow> nat \<Rightarrow> UpdateState \<Rightarrow> (string + UpdateInfo) \<times> UpdateState" where
  "checkForUpdate env n s =
     (case latestRelease env n of
        Inl e \<Rightarrow> (Inl e, s)
      | Inr release \<Rightarrow>
          (let latestVersion = trimV (TagName release);
               currentVersion = trimV (buildVersion env);
               available = (if currentVersion = ''dev'' \<or> currentVersion = [] then TagName release \<noteq> []
                            else compareSemver currentVersion latestVersion < 0);
               ((readOnly, hint), s) = probeDir env s in
           (Inr \<lparr>CurrentVersion = buildVersion env, LatestVersion = TagName release, UpdateAvailable = available, ReadOnly = readOnly,
                 ReadOnlyHint = hint, ReleaseURL = HTMLURL release, ReleaseNotes = releaseBody release, infoAsset = platformAsset env\<rparr>, s)))"

text \<open>\<open>now\<close> is the time of the request, \<open>later\<close> the time after the check; \<open>interval\<close> is \<open>UpdateCheckInterval\<close>.\<close>

definition handleCheckUpdate ::
  "UpdateEnv \<Rightarrow> int \<Rightarrow> int \<Rightarrow> int \<Rightarrow> string \<Rightarrow> string \<Rightarrow> UpdateState \<Rightarrow> updateResponse \<times> UpdateState" where
  "handleCheckUpdate env interval now later verb forceParam s =
     (if verb \<noteq> ''GET'' then (Answer (errorJson 405 ''method not allowed''), s)
      else (let force = ToLower (TrimSpace forceParam) \<in> {''1'', ''true'', ''yes'', ''on''};
                cached = updateCache s in
            case (force, cached, now - updateCheckedAt s < interval) of
              (False, Some info, True) \<Rightarrow> (InfoReply info, s)
            | _ \<Rightarrow>
                (case checkForUpdate env 0 s of
                   (Inl err, s) \<Rightarrow>
                     (case (cached, force) of
                        (Some info, False) \<Rightarrow> (InfoReply info, s)
                      | _ \<Rightarrow> (Answer (errorJson 502 (''update check failed: '' @ err)), s))
                 | (Inr info, s) \<Rightarrow> (InfoReply info, s\<lparr>updateCache := Some info, updateCheckedAt := later\<rparr>))))"

text \<open>A tick of \<open>StartUpdateChecker\<close>.\<close>

definition updateTick :: "UpdateEnv \<Rightarrow> int \<Rightarrow> UpdateState \<Rightarrow> UpdateState" where
  "updateTick env later s =
     (case checkForUpdate env 0 s of
        (Inl _, s) \<Rightarrow> s
      | (Inr info, s) \<Rightarrow> s\<lparr>updateCache := Some info, updateCheckedAt := later\<rparr>)"

section \<open>Applying an update\<close>

definition fsFailure :: "UpdateEnv \<Rightarrow> string \<Rightarrow> string \<Rightarrow> fsError \<Rightarrow> response" where
  "fsFailure env exePath what err =
     (if isReadOnlyFS err then errorJson 409 (updateReadOnlyHint env exePath) else errorJson 500 (what @ errText err))"

text \<open>The exchange of the executable by the file that was downloaded.\<close>

definition replaceExecutable :: "UpdateEnv \<Rightarrow> string \<Rightarrow> string \<Rightarrow> string \<Rightarrow> UpdateState \<Rightarrow> response \<times> UpdateState" where
  "replaceExecutable env exePath tmpPath latest s =
     (let moved = (if GOOS env = ''windows'' then
                     (let s = removeFile env (exePath @ ''.old'') s in
                      case renameError env exePath (exePath @ ''.old'') of
                        Some err \<Rightarrow> (Some (fsFailure env exePath ''failed to move current executable: '' err), removeFile env tmpPath s)
                      | None \<Rightarrow> (None, moveFile exePath (exePath @ ''.old'') s))
                   else (None, s)) in
      case moved of
        (Some resp, s) \<Rightarrow> (resp, s)
      | (None, s) \<Rightarrow>
          (case renameError env tmpPath exePath of
             Some err \<Rightarrow> (fsFailure env exePath ''failed to replace executable: '' err, removeFile env tmpPath s)
           | None \<Rightarrow> (Json 200 [(''status'', ''updated''), (''version'', latest), (''message'', ''restarting...'')],
                      (moveFile tmpPath exePath s)\<lparr>restarting := True\<rparr>)))"

text \<open>The download, once the digest that is expected is known.\<close>

definition installUpdate :: "UpdateEnv \<Rightarrow> Reply \<Rightarrow> string \<Rightarrow> string \<Rightarrow> string \<Rightarrow> UpdateState \<Rightarrow> response \<times> UpdateState" where
  "installUpdate env resp expectedSHA exePath latest s =
     (case createTemp env (dirOf env exePath) ''labyrinth-update-*'' of
        Inl err \<Rightarrow> (fsFailure env exePath ''failed to create temp file: '' err, s)
      | Inr tmpPath \<Rightarrow>
          (let data = take maxUpdateBodyBytes (replyBody resp);
               s = s\<lparr>files := (files s)(tmpPath \<mapsto> (case writeError env of Some (e, k) \<Rightarrow> take k data | None \<Rightarrow> data))\<rparr>;
               copyErr = (case writeError env of Some (e, k) \<Rightarrow> Some e
                          | None \<Rightarrow> if length (replyBody resp) < maxUpdateBodyBytes then replyErr resp else None) in
           case copyErr of
             Some e \<Rightarrow> (errorJson 500 (''failed to write update: '' @ e), removeFile env tmpPath s)
           | None \<Rightarrow>
               (let actualSHA = hexEncode (sha256 env data) in
                if \<not> secureCompareHex expectedSHA actualSHA then
                  (errorJson 502 (''checksum mismatch: expected '' @ expectedSHA @ '', got '' @ actualSHA), removeFile env tmpPath s)
                else (case (if GOOS env \<noteq> ''windows'' then chmodError env tmpPath else None) of
                        Some e \<Rightarrow> (errorJson 500 (''failed to set permissions: '' @ e), removeFile env tmpPath s)
                      | None \<Rightarrow> replaceExecutable env exePath tmpPath latest s))))"

definition handleApplyUpdate :: "UpdateEnv \<Rightarrow> string \<Rightarrow> UpdateState \<Rightarrow> response \<times> UpdateState" where
  "handleApplyUpdate env verb s =
     (if verb \<noteq> ''POST'' then (errorJson 405 ''method not allowed'', s)
      else (case checkForUpdate env 0 s of
        (Inl err, s) \<Rightarrow> (errorJson 502 (''update check failed: '' @ err), s)
      | (Inr info, s) \<Rightarrow>
          if \<not> UpdateAvailable info then (Json 200 [(''status'', ''already up to date'')], s)
          else (case findAssetURLWithChecksums env 1 (infoAsset info) of
            Inl err \<Rightarrow> (errorJson 502 (''failed to find asset: '' @ err), s)
          | Inr (downloadURL, checksumsURL) \<Rightarrow>
              (case fetchExpectedSHA256 (httpGet env 2 checksumsURL) (infoAsset info) of
                 Inl err \<Rightarrow> (errorJson 502 (''checksum lookup failed: '' @ err), s)
               | Inr expectedSHA \<Rightarrow>
                   (case httpGet env 3 downloadURL of
                      Inl err \<Rightarrow> (errorJson 502 (''download failed: '' @ err), s)
                    | Inr resp \<Rightarrow>
                        if replyStatus resp \<noteq> 200 then (errorJson 502 (''download returned status '' @ showNat (replyStatus resp)), s)
                        else (case executable env of
                          Inl err \<Rightarrow> (errorJson 500 (''failed to get executable path: '' @ err), s)
                        | Inr exe \<Rightarrow>
                            (case evalSymlinks env exe of
                               Inl err \<Rightarrow> (errorJson 500 (''failed to resolve executable path: '' @ err), s)
                             | Inr exePath \<Rightarrow> installUpdate env resp expectedSHA exePath (LatestVersion info) s)))))))"

end
