(* ===== verification/Web_Update_Properties.thy ===== *)
theory Web_Update_Properties
  imports Web_Update
begin

text \<open>
  What an update does to the files: temporary ones apart, nothing, unless the program that was downloaded has the digest that the release
  lists for it.
\<close>

section \<open>Comparing digests\<close>

lemma or_zero: "(a :: u8) OR b = 0 \<longleftrightarrow> a = 0 \<and> b = 0"
  by (auto simp: bit_eq_iff bit_or_iff)

lemma xor_zero: "(a :: u8) XOR b = 0 \<longleftrightarrow> a = b"
  by (auto simp: bit_eq_iff bit_xor_iff)

lemma foldl_diff:
  "foldl (\<lambda>diff (x, y). diff OR (byte_of x XOR byte_of y)) d xys = 0 \<longleftrightarrow> d = 0 \<and> (\<forall>(x, y)\<in>set xys. x = y)"
proof (induction xys arbitrary: d)
  case (Cons xy xys)
  have "byte_of x XOR byte_of y = 0 \<longleftrightarrow> x = y" for x y by (metis xor_zero char_of_byte_of)
  with Cons show ?case by (cases xy) (auto simp: or_zero)
qed simp

lemma secureCompareHex_iff: "secureCompareHex a b \<longleftrightarrow> ToLower (TrimSpace a) = ToLower (TrimSpace b)"
proof -
  have "(\<forall>(x, y)\<in>set (zip xs ys). x = y) \<longleftrightarrow> xs = ys" if "length xs = length ys" for xs ys :: string
    using that by (induction rule: list_induct2) auto
  then show ?thesis by (auto simp: secureCompareHex_def foldl_diff Let_def simp del: length_ToLower)
qed

lemma hexVal_chars: "hexVal c \<noteq> None \<Longrightarrow> \<not> isSpace c"
  by (auto simp: hexVal_def isSpace_def Let_def split: if_splits)

lemma hexDigit_hex:
  assumes "k < 16"
  shows "hexVal (hexDigit k) \<noteq> None" and "lowerChar (hexDigit k) = hexDigit k"
  using assms by (auto simp: hexDigit_def hexVal_def lowerChar_def Let_def)

lemma hexEncode_hex: "list_all (\<lambda>c. hexVal c \<noteq> None) (hexEncode bs) \<and> ToLower (hexEncode bs) = hexEncode bs"
proof (induction bs)
  case (Cons b bs)
  have "unat b < 256" by (rule order_less_le_trans [OF unsigned_less]) simp
  then have "unat b div 16 < 16" "unat b mod 16 < 16" by (simp_all add: less_mult_imp_div_less)
  then show ?case using Cons hexDigit_hex [of "unat b div 16"] hexDigit_hex [of "unat b mod 16"] by (simp add: ToLower_def)
qed (simp add: ToLower_def)

lemma hex_trimmed: "list_all (\<lambda>c. hexVal c \<noteq> None) s \<Longrightarrow> TrimSpace s = s"
  using hexVal_chars by (intro TrimSpace_plain) (auto simp: list_all_iff)

text \<open>The digest that is expected is one that a line of the file that the release links gives for the asset.\<close>

definition listedDigest :: "UpdateEnv \<Rightarrow> string \<Rightarrow> string \<Rightarrow> bool" where
  "listedDigest env url sha \<longleftrightarrow> (\<exists>reply line. httpGet env 2 url = Inr reply \<and> replyStatus reply = 200 \<and>
     line \<in> set (scanLines (string_of (take (2 ^ 20) (replyBody reply)))) \<and> checksumLine (platformAsset env) line = Some (Inr sha))"

lemma checksumLine_hex: "checksumLine name line = Some (Inr sha) \<Longrightarrow> list_all (\<lambda>c. hexVal c \<noteq> None) sha \<and> ToLower sha = sha \<and> length sha = 64"
  by (auto simp: checksumLine_def Let_def split: if_splits)

lemma mem_map_filter: "y \<in> set (List.map_filter f xs) \<Longrightarrow> \<exists>x\<in>set xs. f x = Some y"
  by (auto simp: List.map_filter_def)

lemma fetchExpectedSHA256_listed:
  assumes "fetchExpectedSHA256 (httpGet env 2 url) (platformAsset env) = Inr sha"
  shows "listedDigest env url sha"
proof -
  obtain reply where r: "httpGet env 2 url = Inr reply" "replyStatus reply = 200" using assms by (auto simp: fetchExpectedSHA256_def split: sum.splits if_splits)
  obtain rest where "List.map_filter (checksumLine (platformAsset env)) (scanLines (string_of (take (2 ^ 20) (replyBody reply)))) = Inr sha # rest"
    using assms unfolding r(1) by (auto simp: fetchExpectedSHA256_def Let_def split: if_splits list.splits sum.splits)
  then show ?thesis using r mem_map_filter [of "Inr sha"] unfolding listedDigest_def by (metis list.set_intros(1))
qed

lemma digest_equal:
  assumes "listedDigest env url sha" and "secureCompareHex sha (hexEncode h)"
  shows "hexEncode h = sha"
proof -
  obtain line where "checksumLine (platformAsset env) line = Some (Inr sha)" using assms(1) unfolding listedDigest_def by blast
  then show ?thesis
    using checksumLine_hex [of "platformAsset env" line sha] hexEncode_hex [of h] assms(2) by (simp add: secureCompareHex_iff hex_trimmed)
qed


section \<open>Files during an update\<close>

text \<open>The temporary files, which may stay when their removal fails.\<close>

definition temporary :: "UpdateEnv \<Rightarrow> string \<Rightarrow> bool" where
  "temporary env p \<longleftrightarrow> (\<exists>dir. createTemp env dir ''.labyrinth-probe-*'' = Inr p \<or> createTemp env dir ''labyrinth-update-*'' = Inr p)"

definition untouched :: "UpdateEnv \<Rightarrow> UpdateState \<Rightarrow> UpdateState \<Rightarrow> bool" where
  "untouched env s s' \<longleftrightarrow> (\<forall>p. \<not> temporary env p \<longrightarrow> files s' p = files s p)"

lemma untouched_refl [simp]: "untouched env s s"
  by (simp add: untouched_def)

lemma untouched_trans: "untouched env s s1 \<Longrightarrow> untouched env s1 s2 \<Longrightarrow> untouched env s s2"
  by (simp add: untouched_def)

lemma untouched_temp:
  assumes "temporary env p"
  shows "untouched env s (removeFile env p s)" "untouched env s (s\<lparr>files := (files s)(p := x)\<rparr>)"
  using assms by (auto simp: untouched_def removeFile_def)

lemma probeDir_untouched: "untouched env s (snd (probeDir env s))"
proof (cases "createTemp env (dirOf env (case executable env of Inr exe \<Rightarrow> (case evalSymlinks env exe of Inr r \<Rightarrow> r | Inl _ \<Rightarrow> exe) | Inl _ \<Rightarrow> [])) ''.labyrinth-probe-*''")
  case (Inr tmp)
  then have "temporary env tmp" by (auto simp: temporary_def)
  from untouched_trans [OF untouched_temp(2) [OF this] untouched_temp(1) [OF this]] Inr show ?thesis
    by (auto simp: probeDir_def Let_def split: sum.splits)
qed (auto simp: probeDir_def Let_def split: sum.splits)

lemma checkForUpdate_untouched: "checkForUpdate env n s = (r, s') \<Longrightarrow> untouched env s s'"
  using probeDir_untouched [of env s] by (auto simp: checkForUpdate_def Let_def split: sum.splits prod.splits)

lemma checkForUpdate_asset: "checkForUpdate env n s = (Inr info, s') \<Longrightarrow> infoAsset info = platformAsset env"
  by (auto simp: checkForUpdate_def Let_def split: sum.splits prod.splits)

text \<open>The reply of an update that was made.\<close>

definition updated :: "response \<Rightarrow> bool" where
  "updated resp \<longleftrightarrow> (\<exists>v. resp = Json 200 [(''status'', ''updated''), (''version'', v), (''message'', ''restarting...'')])"

text \<open>The file at \<open>exe\<close> is replaced by \<open>d\<close>, and no other file changes.\<close>

definition replaced :: "UpdateEnv \<Rightarrow> string \<Rightarrow> bytes \<Rightarrow> UpdateState \<Rightarrow> UpdateState \<Rightarrow> bool" where
  "replaced env exe d s s' \<longleftrightarrow> files s' exe = Some d \<and> (\<forall>p. p \<noteq> exe \<and> \<not> temporary env p \<longrightarrow> files s' p = files s p)"

lemma replaced_after: "untouched env s s1 \<Longrightarrow> replaced env exe d s1 s' \<Longrightarrow> replaced env exe d s s'"
  by (simp add: replaced_def untouched_def)

lemma failure_not_updated [simp]: "\<not> updated (errorJson c e)" "\<not> updated (fsFailure env exe w err)"
  by (simp_all add: updated_def errorJson_def fsFailure_def)

lemma replaceExecutable_cases:
  assumes "GOOS env \<noteq> ''windows''" and "temporary env tmp" "files s tmp = Some d" and "replaceExecutable env exe tmp v s = (resp, s')"
  shows "\<not> updated resp \<and> untouched env s s' \<or> updated resp \<and> replaced env exe d s s'"
proof (cases "renameError env tmp exe")
  case (Some err)
  with assms show ?thesis using untouched_temp(1) [OF assms(2), of s] by (auto simp: replaceExecutable_def)
next
  case None
  with assms show ?thesis by (auto simp: replaceExecutable_def updated_def replaced_def moveFile_def)
qed

lemma installUpdate_cases:
  assumes "GOOS env \<noteq> ''windows''" and "listedDigest env url sha" and "installUpdate env r sha exe v s = (resp, s')"
  shows "\<not> updated resp \<and> untouched env s s' \<or>
    updated resp \<and> (\<exists>d. d = take maxUpdateBodyBytes (replyBody r) \<and> hexEncode (sha256 env d) = sha \<and> replaced env exe d s s')"
proof (cases "createTemp env (dirOf env exe) ''labyrinth-update-*''")
  case (Inl e)
  with assms(3) show ?thesis by (auto simp: installUpdate_def)
next
  case (Inr tmp)
  then have tmp: "temporary env tmp" by (auto simp: temporary_def)
  let ?d = "take maxUpdateBodyBytes (replyBody r)"
  let ?x = "case writeError env of Some (e, k) \<Rightarrow> take k ?d | None \<Rightarrow> ?d"
  let ?s = "s\<lparr>files := (files s)(tmp \<mapsto> ?x)\<rparr>"
  have u: "untouched env s ?s" "untouched env s (removeFile env tmp ?s)"
    using untouched_temp(2) [OF tmp] untouched_trans [OF untouched_temp(2) [OF tmp] untouched_temp(1) [OF tmp]] by blast+
  consider "\<not> updated resp" "s' = removeFile env tmp ?s" | "writeError env = None" "secureCompareHex sha (hexEncode (sha256 env ?d))"
      "replaceExecutable env exe tmp v ?s = (resp, s')"
    using assms(3) Inr by (auto simp: installUpdate_def Let_def split: option.splits if_splits)
  then show ?thesis
  proof cases
    case 2
    then have "files ?s tmp = Some ?d" by simp
    from replaceExecutable_cases [OF assms(1) tmp this 2(3)] show ?thesis
      using untouched_trans [OF u(1)] replaced_after [OF u(1)] digest_equal [OF assms(2) 2(2)] by blast
  qed (use u in simp)
qed

text \<open>
  C33. An update is verified or does nothing, on systems other than Windows.  If the reply says that the program was updated, the file that was replaced is the executable, behind its symbolic links,
  its new contents are what was downloaded (up to 200 MB) from the asset of the release for this platform, and the list of checksums that the same release links gives their SHA-256
  digest for that asset; no other file changed.  Otherwise, after any failure of the network, the disk or the comparison, no file changed.  Temporary files are excepted: the code ignores errors of their removal, so they may stay.
\<close>

theorem update_verified:
  assumes "GOOS env \<noteq> ''windows''" and "handleApplyUpdate env verb s = (resp, s')"
  shows "\<not> updated resp \<and> untouched env s s' \<or>
    updated resp \<and> (\<exists>x exe assetURL checksumsURL reply d.
       executable env = Inr x \<and> evalSymlinks env x = Inr exe \<and>
       findAssetURLWithChecksums env 1 (platformAsset env) = Inr (assetURL, checksumsURL) \<and>
       httpGet env 3 assetURL = Inr reply \<and> replyStatus reply = 200 \<and> d = take maxUpdateBodyBytes (replyBody reply) \<and>
       listedDigest env checksumsURL (hexEncode (sha256 env d)) \<and> replaced env exe d s s')"
proof (cases "checkForUpdate env 0 s")
  case (Pair r s1)
  note u = checkForUpdate_untouched [OF Pair]
  consider "\<not> updated resp" "s' = s1 \<or> s' = s"
    | info x exe assetURL checksumsURL sha reply where "r = Inr info" "executable env = Inr x" "evalSymlinks env x = Inr exe"
      "findAssetURLWithChecksums env 1 (infoAsset info) = Inr (assetURL, checksumsURL)"
      "fetchExpectedSHA256 (httpGet env 2 checksumsURL) (infoAsset info) = Inr sha"
      "httpGet env 3 assetURL = Inr reply" "replyStatus reply = 200"
      "installUpdate env reply sha exe (LatestVersion info) s1 = (resp, s')"
    using assms(2) Pair by (auto simp: handleApplyUpdate_def updated_def errorJson_def split: if_splits sum.splits prod.splits)
  then show ?thesis
  proof cases
    case 2
    have a: "infoAsset info = platformAsset env" using checkForUpdate_asset Pair 2(1) by blast
    note l = fetchExpectedSHA256_listed [OF 2(5) [unfolded a]]
    from installUpdate_cases [OF assms(1) l 2(8)] l show ?thesis
      using untouched_trans [OF u] replaced_after [OF u] 2(2-4,6,7) a by metis
  qed (use u in auto)
qed

text \<open>A release with a newer program, whose digest is 64 zeros.\<close>

definition sample_release :: githubRelease where
  "sample_release = \<lparr>TagName = ''v1.1.0'', HTMLURL = [], releaseBody = [],
     Assets = [\<lparr>assetName = ''labyrinth-linux-amd64'', BrowserDownloadURL = ''bin''\<rparr>, \<lparr>assetName = ''checksums.txt'', BrowserDownloadURL = ''sums''\<rparr>]\<rparr>"

definition sample_sums :: string where
  "sample_sums = replicate 64 (CHR ''0'') @ ''  labyrinth-linux-amd64''"

definition sample_update_env :: UpdateEnv where
  "sample_update_env =
     \<lparr>httpGet = (\<lambda>n url. Inr \<lparr>replyStatus = 200, replyBody = (if url = ''sums'' then bytes_of sample_sums else [1, 2]), replyErr = None\<rparr>),
      decodeRelease = (\<lambda>_. Inr sample_release), sha256 = (\<lambda>_. replicate 32 0), executable = Inr ''/bin/labyrinth'', evalSymlinks = Inr,
      dirOf = (\<lambda>_. ''/bin''), createTemp = (\<lambda>dir pat. Inr (dir @ ''/tmp1'')), writeError = None, removeFails = (\<lambda>_. False), chmodError = (\<lambda>_. None),
      renameError = (\<lambda>_ _. None), GOOS = ''linux'', GOARCH = ''amd64'', buildVersion = ''v1.0.0''\<rparr>"

definition sample_files :: UpdateState where
  "sample_files = \<lparr>files = [''/bin/labyrinth'' \<mapsto> [0]], updateCache = None, updateCheckedAt = 0, restarting = False\<rparr>"

lemma sample_sums_read: "fetchExpectedSHA256 (httpGet sample_update_env 2 ''sums'') ''labyrinth-linux-amd64'' = Inr (replicate 64 (CHR ''0''))"
proof -
  have "newline \<notin> set sample_sums" "last sample_sums \<noteq> char_of (13 :: nat)" by code_simp+
  then have "scanLines sample_sums = [sample_sums]"
    by (simp add: scanLines_def rawLines_def Split_no_sep dropCR_def sample_sums_def)
  moreover have "checksumLine ''labyrinth-linux-amd64'' sample_sums = Some (Inr (replicate 64 (CHR ''0'')))" by code_simp
  ultimately have "List.map_filter (checksumLine ''labyrinth-linux-amd64'') (scanLines sample_sums) = [Inr (replicate 64 (CHR ''0''))]"
    by (simp add: List.map_filter_simps)
  moreover have "take (2 ^ 20) (bytes_of sample_sums) = bytes_of sample_sums" by (simp add: sample_sums_def)
  ultimately show ?thesis by (simp add: fetchExpectedSHA256_def sample_update_env_def)
qed

lemma sample_fields:
  "compareSemver (trimV ''v1.0.0'') (trimV ''v1.1.0'') = -1" "trimV ''v1.0.0'' = ''1.0.0''" "platformAsset sample_update_env = ''labyrinth-linux-amd64''"
  "secureCompareHex (replicate 64 (CHR ''0'')) (hexEncode (replicate 32 0))"
  "fold (assetStep ''labyrinth-linux-amd64'') (Assets sample_release) ([], []) = (''bin'', ''sums'')"
  by code_simp+

lemma sample_release_found: "latestRelease sample_update_env n = Inr sample_release"
  by (simp add: latestRelease_def sample_update_env_def)

lemma sample_check:
  "\<exists>info. checkForUpdate sample_update_env 0 sample_files = (Inr info, sample_files) \<and> UpdateAvailable info \<and> infoAsset info = ''labyrinth-linux-amd64''"
proof -
  have "snd (probeDir sample_update_env sample_files) = sample_files"
    by (simp add: probeDir_def sample_update_env_def sample_files_def removeFile_def fun_upd_idem)
  then obtain ro where p: "probeDir sample_update_env sample_files = (ro, sample_files)" by (metis prod.collapse)
  have v: "buildVersion sample_update_env = ''v1.0.0''" "TagName sample_release = ''v1.1.0''" by (simp_all add: sample_update_env_def sample_release_def)
  show ?thesis unfolding checkForUpdate_def sample_release_found p v Let_def sum.case
    by (cases ro) (simp add: sample_fields sample_fields(1) [unfolded sample_fields(2)])
qed

lemma sample_installed:
  "\<exists>v s'. installUpdate sample_update_env \<lparr>replyStatus = 200, replyBody = [1, 2], replyErr = None\<rparr> (replicate 64 (CHR ''0'')) ''/bin/labyrinth'' w sample_files =
     (Json 200 [(''status'', ''updated''), (''version'', v), (''message'', ''restarting...'')], s') \<and> restarting s'"
proof -
  have "take maxUpdateBodyBytes [1, 2] = [1 :: u8, 2]" by (simp add: maxUpdateBodyBytes_def)
  then show ?thesis using sample_fields(4)
    by (simp add: installUpdate_def replaceExecutable_def sample_update_env_def Let_def del: replicate.simps)
qed

theorem update_verified_witness:
  "case handleApplyUpdate sample_update_env ''POST'' sample_files of (resp, s') \<Rightarrow>
     updated resp \<and> listedDigest sample_update_env ''sums'' (hexEncode (sha256 sample_update_env [1, 2])) \<and> files s' ''/bin/labyrinth'' = Some [1, 2]"
proof -
  obtain info where i: "checkForUpdate sample_update_env 0 sample_files = (Inr info, sample_files)" "UpdateAvailable info"
    "infoAsset info = ''labyrinth-linux-amd64''" using sample_check by blast
  have f: "findAssetURLWithChecksums sample_update_env 1 ''labyrinth-linux-amd64'' = Inr (''bin'', ''sums'')"
    by (simp add: findAssetURLWithChecksums_def sample_release_found sample_fields)
  have g: "httpGet sample_update_env 3 ''bin'' = Inr \<lparr>replyStatus = 200, replyBody = [1, 2], replyErr = None\<rparr>"
    "executable sample_update_env = Inr ''/bin/labyrinth''" "evalSymlinks sample_update_env ''/bin/labyrinth'' = Inr ''/bin/labyrinth''"
    by (simp_all add: sample_update_env_def)
  obtain v s' where h: "handleApplyUpdate sample_update_env ''POST'' sample_files =
      (Json 200 [(''status'', ''updated''), (''version'', v), (''message'', ''restarting...'')], s')" "restarting s'"
    using sample_installed [of "LatestVersion info"] by (auto simp: handleApplyUpdate_def i f f [simplified] g sample_sums_read)
  have "GOOS sample_update_env \<noteq> ''windows''" "platformAsset sample_update_env = ''labyrinth-linux-amd64''"
    by (simp add: sample_update_env_def) (rule sample_fields(3))
  moreover have "updated (Json 200 [(''status'', ''updated''), (''version'', v), (''message'', ''restarting...'')])" by (simp add: updated_def)
  moreover have "take maxUpdateBodyBytes [1, 2] = [1 :: u8, 2]" by (simp add: maxUpdateBodyBytes_def)
  ultimately show ?thesis using update_verified [OF _ h(1)] f g unfolding h replaced_def by auto
qed

text \<open>
  On Windows the executable can get lost: the running program is moved away first, and when the new file then cannot be
  moved to its place, it is not moved back.
\<close>

theorem windows_update_loses_executable:
  assumes "GOOS env = ''windows''" and "renameError env exe (exe @ ''.old'') = None" and "renameError env tmp exe = Some err"
  shows "files (snd (replaceExecutable env exe tmp v s)) exe = None"
  using assms by (simp add: replaceExecutable_def moveFile_def removeFile_def)

text \<open>A release candidate is not updated to the release: the suffixes are not compared.\<close>

theorem prerelease_not_updated: "compareSemver ''1.2.0-rc1'' ''1.2.0'' = 0"
  by code_simp

end
