(* ===== verification/Metrics.thy ===== *)
theory Metrics
  imports Config
begin

text \<open>
  The counters of the program (\<open>metrics/metrics.go\<close>): the ring of fallback events, the histogram of durations, the
  counters themselves with their snapshot, and the text that is exported.  Counters are natural numbers: \<open>2\<^sup>6\<^sup>3\<close> increments
  are not reached.  Durations are whole nanoseconds; the seconds that the code computes from them in floating point are
  rational numbers.  \<open>fmtG\<close> is the verb \<open>%g\<close>, and the maps are ranged over in the order of \<open>rng\<close>.
\<close>

section \<open>Fallback events\<close>

record FallbackEvent =
  feTimestamp :: time
  feQueryName :: string
  feQType :: u16
  feQClass :: u16
  fePrimaryFailureReason :: string
  feResolverAddr :: string
  feRecovered :: bool
  feRCODE :: u8
  feError :: string

definition zeroEvent :: FallbackEvent where
  "zeroEvent = \<lparr>feTimestamp = 0, feQueryName = [], feQType = 0, feQClass = 0, fePrimaryFailureReason = [], feResolverAddr = [],
     feRecovered = False, feRCODE = 0, feError = []\<rparr>"

record FallbackEventRing =
  events :: "FallbackEvent list"
  ringHead :: u64
  ringSize :: u64

definition NewFallbackEventRing :: FallbackEventRing where
  "NewFallbackEventRing = \<lparr>events = replicate 100 zeroEvent, ringHead = 0, ringSize = 0\<rparr>"

definition AddEvent :: "FallbackEvent \<Rightarrow> FallbackEventRing \<Rightarrow> FallbackEventRing" where
  "AddEvent e r =
     (let idx = unat (ringHead r mod 100) in
      r\<lparr>events := (events r)[idx := e], ringHead := ringHead r + 1,
        ringSize := (if ringSize r < 100 then ringSize r + 1 else ringSize r)\<rparr>)"

definition Events :: "FallbackEventRing \<Rightarrow> FallbackEvent list" where
  "Events r =
     (let n = unat (ringSize r); start = ringHead r - ringSize r in
      map (\<lambda>i. events r ! unat ((start + of_nat i) mod 100)) [0..<n])"

section \<open>The histogram of durations\<close>

record histogram =
  boundaries :: "rat list"
  bucketCounts :: "nat list"
  durationSum :: int
  durationCount :: nat

definition newHistogram :: "rat list \<Rightarrow> histogram" where
  "newHistogram bs = \<lparr>boundaries = bs, bucketCounts = replicate (length bs + 1) 0, durationSum = 0, durationCount = 0\<rparr>"

text \<open>The bucket of a value: the first boundary that is not below it, or the last bucket.\<close>

fun bucketIndex :: "rat list \<Rightarrow> rat \<Rightarrow> nat" where
  "bucketIndex [] v = 0"
| "bucketIndex (b # bs) v = (if v \<le> b then 0 else Suc (bucketIndex bs v))"

text \<open>
  The durations come from differences of times and are not negative, so that rounding down is what the conversion to an
  integer does; the sum of nanoseconds is an unbounded integer here and 64 bits, enough for 292 years, in the code, which also multiplies in float64.
\<close>

definition observe :: "rat \<Rightarrow> histogram \<Rightarrow> histogram" where
  "observe v h =
     (let i = bucketIndex (boundaries h) v in
      h\<lparr>bucketCounts := (bucketCounts h)[i := bucketCounts h ! i + 1], durationCount := durationCount h + 1,
        durationSum := durationSum h + \<lfloor>v * 1000000000\<rfloor>\<rparr>)"

fun cumulative :: "nat \<Rightarrow> nat list \<Rightarrow> nat list" where
  "cumulative acc [] = []"
| "cumulative acc (c # cs) = (acc + c) # cumulative (acc + c) cs"

definition bucketLine :: "string \<Rightarrow> string \<Rightarrow> nat \<Rightarrow> string" where
  "bucketLine name le c = name @ ''_bucket{le='' @ [char_of (34 :: nat)] @ le @ [char_of (34 :: nat)] @ ''} '' @ showNat c"

definition writeTo :: "(rat \<Rightarrow> string) \<Rightarrow> histogram \<Rightarrow> string \<Rightarrow> string list" where
  "writeTo fmtG h name =
     map (\<lambda>(le, c). bucketLine name le c) (zip (map fmtG (boundaries h) @ [''+Inf'']) (cumulative 0 (bucketCounts h))) @
     [name @ ''_sum '' @ fmtG (of_int (durationSum h) / 1000000000), name @ ''_count '' @ showNat (durationCount h)]"

section \<open>The counters\<close>

record Metrics =
  queriesTotal :: "(string \<times> nat) list"
  responsesTotal :: "(string \<times> nat) list"
  mCacheHits :: nat
  mCacheMisses :: nat
  mCacheEvictions :: nat
  mUpstreamQueries :: nat
  mUpstreamErrors :: nat
  mRateLimited :: nat
  mDNSSECSecure :: nat
  mDNSSECInsecure :: nat
  mDNSSECBogus :: nat
  mBlockedQueries :: nat
  mFallbackQueries :: nat
  mFallbackRecoveries :: nat
  fallbackEventRing :: FallbackEventRing
  queryDurations :: histogram
  startTime :: time

definition NewMetrics :: "time \<Rightarrow> Metrics" where
  "NewMetrics now =
     \<lparr>queriesTotal = [], responsesTotal = [], mCacheHits = 0, mCacheMisses = 0, mCacheEvictions = 0, mUpstreamQueries = 0, mUpstreamErrors = 0,
      mRateLimited = 0, mDNSSECSecure = 0, mDNSSECInsecure = 0, mDNSSECBogus = 0, mBlockedQueries = 0, mFallbackQueries = 0,
      mFallbackRecoveries = 0, fallbackEventRing = NewFallbackEventRing,
      queryDurations = newHistogram [1/1000, 5/1000, 1/100, 5/100, 1/10, 5/10, 1, 5], startTime = now\<rparr>"

text \<open>\<open>getOrCreate\<close> and the increment of the counter.\<close>

definition bumpCounter :: "string \<Rightarrow> (string \<times> nat) list \<Rightarrow> (string \<times> nat) list" where
  "bumpCounter k mp = AList.update k ((case map_of mp k of Some n \<Rightarrow> n | None \<Rightarrow> 0) + 1) mp"

definition IncQueries :: "string \<Rightarrow> Metrics \<Rightarrow> Metrics" where
  "IncQueries qtype m = m\<lparr>queriesTotal := bumpCounter qtype (queriesTotal m)\<rparr>"

definition IncResponses :: "string \<Rightarrow> Metrics \<Rightarrow> Metrics" where
  "IncResponses rcode m = m\<lparr>responsesTotal := bumpCounter rcode (responsesTotal m)\<rparr>"

datatype counter = CacheHits | CacheMisses | UpstreamQueries | UpstreamErrors | RateLimited | DNSSECSecure | DNSSECInsecure | DNSSECBogus
  | BlockedQueries | FallbackQueries | FallbackRecoveries

definition Inc_counter :: "counter \<Rightarrow> Metrics \<Rightarrow> Metrics" where
  "Inc_counter c m = (case c of
      CacheHits \<Rightarrow> m\<lparr>mCacheHits := mCacheHits m + 1\<rparr>
    | CacheMisses \<Rightarrow> m\<lparr>mCacheMisses := mCacheMisses m + 1\<rparr>
    | UpstreamQueries \<Rightarrow> m\<lparr>mUpstreamQueries := mUpstreamQueries m + 1\<rparr>
    | UpstreamErrors \<Rightarrow> m\<lparr>mUpstreamErrors := mUpstreamErrors m + 1\<rparr>
    | RateLimited \<Rightarrow> m\<lparr>mRateLimited := mRateLimited m + 1\<rparr>
    | DNSSECSecure \<Rightarrow> m\<lparr>mDNSSECSecure := mDNSSECSecure m + 1\<rparr>
    | DNSSECInsecure \<Rightarrow> m\<lparr>mDNSSECInsecure := mDNSSECInsecure m + 1\<rparr>
    | DNSSECBogus \<Rightarrow> m\<lparr>mDNSSECBogus := mDNSSECBogus m + 1\<rparr>
    | BlockedQueries \<Rightarrow> m\<lparr>mBlockedQueries := mBlockedQueries m + 1\<rparr>
    | FallbackQueries \<Rightarrow> m\<lparr>mFallbackQueries := mFallbackQueries m + 1\<rparr>
    | FallbackRecoveries \<Rightarrow> m\<lparr>mFallbackRecoveries := mFallbackRecoveries m + 1\<rparr>)"

definition IncCacheEvictions :: "string \<Rightarrow> Metrics \<Rightarrow> Metrics" where
  "IncCacheEvictions reason m = m\<lparr>mCacheEvictions := mCacheEvictions m + 1\<rparr>"

definition AddCacheEvictions :: "string \<Rightarrow> nat \<Rightarrow> Metrics \<Rightarrow> Metrics" where
  "AddCacheEvictions reason n m = m\<lparr>mCacheEvictions := mCacheEvictions m + n\<rparr>"

definition ObserveQueryDuration :: "nat \<Rightarrow> Metrics \<Rightarrow> Metrics" where
  "ObserveQueryDuration d m = m\<lparr>queryDurations := observe (of_nat d / 1000000000) (queryDurations m)\<rparr>"

record MetricsSnapshot =
  snapQueriesByType :: "(string \<times> nat) list"
  snapResponsesByRCode :: "(string \<times> nat) list"
  snapCacheHits :: nat
  snapCacheMisses :: nat
  snapCacheEvictions :: nat
  snapUpstreamQueries :: nat
  snapUpstreamErrors :: nat
  snapRateLimited :: nat
  snapUptimeSeconds :: rat
  snapGoroutines :: nat
  snapQueryDurationCount :: nat
  snapDNSSECSecure :: nat
  snapDNSSECInsecure :: nat
  snapDNSSECBogus :: nat
  snapBlockedQueries :: nat
  snapFallbackQueries :: nat
  snapFallbackRecoveries :: nat

text \<open>\<open>now\<close> is the clock and \<open>gs\<close> the number of goroutines.\<close>

definition MetricsSnapshotOf :: "time \<Rightarrow> nat \<Rightarrow> Metrics \<Rightarrow> MetricsSnapshot" where
  "MetricsSnapshotOf now gs m =
     \<lparr>snapQueriesByType = queriesTotal m, snapResponsesByRCode = responsesTotal m, snapCacheHits = mCacheHits m, snapCacheMisses = mCacheMisses m,
      snapCacheEvictions = mCacheEvictions m, snapUpstreamQueries = mUpstreamQueries m, snapUpstreamErrors = mUpstreamErrors m,
      snapRateLimited = mRateLimited m, snapUptimeSeconds = (of_nat now - of_nat (startTime m)) / 1000000000, snapGoroutines = gs,
      snapQueryDurationCount = durationCount (queryDurations m), snapDNSSECSecure = mDNSSECSecure m, snapDNSSECInsecure = mDNSSECInsecure m,
      snapDNSSECBogus = mDNSSECBogus m, snapBlockedQueries = mBlockedQueries m, snapFallbackQueries = mFallbackQueries m,
      snapFallbackRecoveries = mFallbackRecoveries m\<rparr>"

text \<open>The text of \<open>WriteMetrics\<close>, line by line; \<open>quoted\<close> is the verb \<open>%q\<close> and \<open>fmt0\<close> the verb \<open>%.0f\<close>.\<close>

definition labelledLines :: "(string \<Rightarrow> string) \<Rightarrow> string \<Rightarrow> string \<Rightarrow> string list \<Rightarrow> (string \<times> nat) list \<Rightarrow> string list" where
  "labelledLines quoted name label ks mp =
     List.map_filter (\<lambda>k. map_option (\<lambda>n. name @ ''{'' @ label @ ''='' @ quoted k @ ''} '' @ showNat n) (map_of mp k)) ks"

definition WriteMetrics ::
  "(rat \<Rightarrow> string) \<Rightarrow> (rat \<Rightarrow> string) \<Rightarrow> (string \<Rightarrow> string) \<Rightarrow> rangeOrder \<Rightarrow> time \<Rightarrow> nat \<Rightarrow> Metrics \<Rightarrow> string list" where
  "WriteMetrics fmtG fmt0 quoted rng now gs m =
     labelledLines quoted ''labyrinth_queries_total'' ''type'' (rng ''WriteMetrics, queries'' (map fst (queriesTotal m))) (queriesTotal m) @
     labelledLines quoted ''labyrinth_responses_total'' ''rcode'' (rng ''WriteMetrics, responses'' (map fst (responsesTotal m))) (responsesTotal m) @
     [''labyrinth_cache_hits_total '' @ showNat (mCacheHits m),
      ''labyrinth_cache_misses_total '' @ showNat (mCacheMisses m),
      ''labyrinth_cache_evictions_total '' @ showNat (mCacheEvictions m),
      ''labyrinth_upstream_queries_total '' @ showNat (mUpstreamQueries m),
      ''labyrinth_upstream_errors_total '' @ showNat (mUpstreamErrors m),
      ''labyrinth_rate_limited_total '' @ showNat (mRateLimited m),
      ''labyrinth_dnssec_secure_total '' @ showNat (mDNSSECSecure m),
      ''labyrinth_dnssec_insecure_total '' @ showNat (mDNSSECInsecure m),
      ''labyrinth_dnssec_bogus_total '' @ showNat (mDNSSECBogus m),
      ''labyrinth_blocked_queries_total '' @ showNat (mBlockedQueries m),
      ''labyrinth_fallback_queries_total '' @ showNat (mFallbackQueries m),
      ''labyrinth_fallback_recoveries_total '' @ showNat (mFallbackRecoveries m),
      ''labyrinth_uptime_seconds '' @ fmt0 ((of_nat now - of_nat (startTime m)) / 1000000000),
      ''labyrinth_goroutines '' @ showNat gs] @
     writeTo fmtG (queryDurations m) ''labyrinth_query_duration_seconds''"

text \<open>The endpoint for the counters (\<open>metrics/http.go\<close>), which repeats \<open>WriteMetrics\<close> with fewer of them.\<close>

definition MetricsServeHTTP ::
  "(rat \<Rightarrow> string) \<Rightarrow> (rat \<Rightarrow> string) \<Rightarrow> (string \<Rightarrow> string) \<Rightarrow> rangeOrder \<Rightarrow> time \<Rightarrow> nat \<Rightarrow> Metrics \<Rightarrow> string list" where
  "MetricsServeHTTP fmtG fmt0 quoted rng now gs m =
     labelledLines quoted ''labyrinth_queries_total'' ''type'' (rng ''ServeHTTP, queries'' (map fst (queriesTotal m))) (queriesTotal m) @
     labelledLines quoted ''labyrinth_responses_total'' ''rcode'' (rng ''ServeHTTP, responses'' (map fst (responsesTotal m))) (responsesTotal m) @
     [''labyrinth_cache_hits_total '' @ showNat (mCacheHits m),
      ''labyrinth_cache_misses_total '' @ showNat (mCacheMisses m),
      ''labyrinth_cache_evictions_total '' @ showNat (mCacheEvictions m),
      ''labyrinth_upstream_queries_total '' @ showNat (mUpstreamQueries m),
      ''labyrinth_upstream_errors_total '' @ showNat (mUpstreamErrors m),
      ''labyrinth_rate_limited_total '' @ showNat (mRateLimited m),
      ''labyrinth_fallback_queries_total '' @ showNat (mFallbackQueries m),
      ''labyrinth_fallback_recoveries_total '' @ showNat (mFallbackRecoveries m),
      ''labyrinth_uptime_seconds '' @ fmt0 ((of_nat now - of_nat (startTime m)) / 1000000000),
      ''labyrinth_goroutines '' @ showNat gs] @
     writeTo fmtG (queryDurations m) ''labyrinth_query_duration_seconds''"

end
