(* ===== verification/Metrics_Properties.thy ===== *)
theory Metrics_Properties
  imports Metrics Last_Events
begin

text \<open>
  Properties of the metrics: the ring shows the last hundred fallback events, and the exported histogram counts, at every
  boundary, the durations that are not above it.
\<close>

section \<open>The ring of fallback events\<close>

text \<open>The ring after the events \<open>L\<close>.\<close>

definition ring_of :: "FallbackEvent list \<Rightarrow> FallbackEventRing \<Rightarrow> bool" where
  "ring_of L r \<longleftrightarrow> length L < 2 ^ 64 \<and> ringHead r = of_nat (length L) \<and> ringSize r = of_nat (min 100 (length L)) \<and> length (events r) = 100 \<and>
     (\<forall>j < length L. length L \<le> j + 100 \<longrightarrow> events r ! (j mod 100) = L ! j)"

lemma unat_small: "n < 2 ^ 64 \<Longrightarrow> unat (of_nat n :: u64) = n"
  by (simp add: unsigned_of_nat take_bit_nat_eq_self)

lemma unat_mod_100: "n < 2 ^ 64 \<Longrightarrow> unat ((of_nat n :: u64) mod 100) = n mod 100"
  by (simp add: unat_mod_distrib unat_small)

lemma mod_apart_100:
  assumes "j < m" and "m < j + 100"
  shows "j mod 100 \<noteq> m mod (100 :: nat)"
proof
  assume "j mod 100 = m mod 100"
  then have "100 dvd m - j" using assms(1) mod_eq_dvd_iff_nat [of j m 100] by simp
  then show False using assms by (auto dest: dvd_imp_le)
qed

lemma ring_of_Add:
  assumes "ring_of L r" and "Suc (length L) < 2 ^ 64"
  shows "ring_of (L @ [e]) (AddEvent e r)"
proof -
  note h = assms(1) [unfolded ring_of_def]
  have idx: "unat (ringHead r mod 100) = length L mod 100" using h by (simp add: unat_mod_100)
  have small: "ringSize r < 100 \<longleftrightarrow> length L < 100" using h by (auto simp: word_less_nat_alt unat_small min_def)
  have "(events r)[length L mod 100 := e] ! (j mod 100) = (L @ [e]) ! j" if "j < length (L @ [e])" "length (L @ [e]) \<le> j + 100" for j
  proof (cases "j = length L")
    case True
    then show ?thesis using h by simp
  next
    case False
    then have "j < length L" "length L < j + 100" using that by auto
    then show ?thesis using h mod_apart_100 [of j "length L"] by (simp add: nth_append)
  qed
  moreover have "(if ringSize r < 100 then ringSize r + 1 else ringSize r) = of_nat (min 100 (length (L @ [e])))"
  proof (cases "length L < 100")
    case True
    then have "ringSize r + 1 = of_nat (Suc (length L))" using h by simp
    then show ?thesis using True small by simp
  next
    case False
    then show ?thesis using h small by simp
  qed
  ultimately show ?thesis using h assms(2) idx by (simp add: ring_of_def AddEvent_def Let_def)
qed

lemma Events_ring: "ring_of L r \<Longrightarrow> Events r = drop (length L - 100) L"
proof -
  assume "ring_of L r"
  note h = this [unfolded ring_of_def]
  let ?n = "min 100 (length L)"
  have n: "unat (ringSize r) = ?n" using h by (simp add: unat_small)
  have "ringHead r - ringSize r = of_nat (length L - ?n)" using h by (simp add: of_nat_diff)
  then have start: "ringHead r - ringSize r + of_nat i = of_nat (length L - ?n + i)" for i by (simp only: of_nat_add)
  have idx: "unat ((ringHead r - ringSize r + of_nat i) mod 100) = (length L - ?n + i) mod 100" if "i < ?n" for i
  proof -
    have "length L - ?n + i < 2 ^ 64" using that h by auto
    then show ?thesis unfolding start by (rule unat_mod_100)
  qed
  have "Events r = map (\<lambda>i. events r ! ((length L - ?n + i) mod 100)) [0..<?n]"
    unfolding Events_def Let_def n by (intro map_cong refl) (simp add: idx)
  also have "\<dots> = map (\<lambda>i. L ! (length L - ?n + i)) [0..<?n]" using h by (intro map_cong refl) auto
  also have "\<dots> = drop (length L - 100) L" by (rule nth_equalityI) (auto simp: min_def)
  finally show ?thesis .
qed

interpretation fallback: last_events "\<lambda>n r. \<exists>L. ring_of L r \<and> length L = n" AddEvent Events 100 "2 ^ 64 - 1"
proof
  fix n s e
  assume "\<exists>L. ring_of L s \<and> length L = n" and n: "n < 2 ^ 64 - 1"
  then obtain L where L: "ring_of L s" "length L = n" by blast
  then have r: "ring_of (L @ [e]) (AddEvent e s)" using n by (intro ring_of_Add) auto
  then show "\<exists>L'. ring_of L' (AddEvent e s) \<and> length L' = Suc n" using L(2) by auto
  show "Events (AddEvent e s) = drop (Suc (length (Events s)) - 100) (Events s @ [e])"
    using drop_last_idem [of "length L - 100" L 100 "[e]"] unfolding Events_ring [OF L(1)] Events_ring [OF r] by simp
qed

text \<open>
  The ring shows the last hundred fallback events in the order in which they happened, for as many events as its counter
  of 64 bits can number.
\<close>

theorem Events_last:
  assumes "length es < 2 ^ 64"
  shows "Events (fold AddEvent es NewFallbackEventRing) = drop (length es - 100) es"
proof (rule fallback.view_last)
  show "\<exists>L. ring_of L NewFallbackEventRing \<and> length L = 0" by (simp add: ring_of_def NewFallbackEventRing_def)
  show "Events NewFallbackEventRing = []" by (simp add: Events_def NewFallbackEventRing_def)
  show "length es \<le> 2 ^ 64 - 1" using assms by simp
qed

section \<open>The histogram\<close>

lemma cumulative_nth: "i < length cs \<Longrightarrow> cumulative a cs ! i = a + sum_list (take (Suc i) cs)"
  by (induction cs arbitrary: a i) (auto simp: nth_Cons split: nat.split)

lemma length_cumulative [simp]: "length (cumulative a cs) = length cs"
  by (induction cs arbitrary: a) auto

lemma bucketIndex_le: "bucketIndex bs v \<le> length bs"
  by (induction bs) auto

lemma bucketIndex_iff: "sorted bs \<Longrightarrow> i < length bs \<Longrightarrow> bucketIndex bs v \<le> i \<longleftrightarrow> v \<le> bs ! i"
proof (induction bs arbitrary: i)
  case (Cons b bs)
  then show ?case by (cases i) (auto dest: order_trans)
qed simp

lemma sum_take_update:
  "i < length cs \<Longrightarrow> sum_list (take k (cs[i := Suc (cs ! i)])) = sum_list (take k cs) + (if i < k then 1 else 0)"
  by (induction cs arbitrary: i k) (auto simp: take_Cons nth_Cons split: nat.split)

lemma observe_counts:
  assumes "length (bucketCounts h) = length (boundaries h) + 1" and "sorted (boundaries h)" and "i < length (boundaries h)"
  shows "sum_list (take (Suc i) (bucketCounts (observe v h))) = sum_list (take (Suc i) (bucketCounts h)) + (if v \<le> boundaries h ! i then 1 else 0)"
  using assms bucketIndex_le [of "boundaries h" v] bucketIndex_iff [OF assms(2,3), of v]
  by (simp add: observe_def Let_def sum_take_update less_Suc_eq_le)


lemma observe_fold:
  assumes "length (bucketCounts h) = length (boundaries h) + 1" and "sorted (boundaries h)"
  shows "boundaries (fold observe vs h) = boundaries h \<and> length (bucketCounts (fold observe vs h)) = length (boundaries h) + 1 \<and>
     durationCount (fold observe vs h) = durationCount h + length vs \<and>
     sum_list (bucketCounts (fold observe vs h)) = sum_list (bucketCounts h) + length vs \<and>
     (\<forall>i < length (boundaries h). sum_list (take (Suc i) (bucketCounts (fold observe vs h))) =
        sum_list (take (Suc i) (bucketCounts h)) + length (filter (\<lambda>v. v \<le> boundaries h ! i) vs))"
  using assms
proof (induction vs arbitrary: h)
  case (Cons v vs)
  have l: "length (bucketCounts (observe v h)) = length (boundaries (observe v h)) + 1" "boundaries (observe v h) = boundaries h"
    "durationCount (observe v h) = durationCount h + 1" using Cons.prems by (simp_all add: observe_def Let_def)
  have "sum_list (bucketCounts (observe v h)) = sum_list (bucketCounts h) + 1"
    using sum_take_update [of "bucketIndex (boundaries h) v" "bucketCounts h" "length (bucketCounts h)"] bucketIndex_le [of "boundaries h" v] Cons.prems(1)
    by (simp add: observe_def Let_def less_Suc_eq_le)
  then show ?case using Cons.IH [of "observe v h"] l Cons.prems observe_counts [of h _ v] by auto
qed simp

text \<open>
  C36. The exported histogram is right: after any durations have been observed, the line of every boundary gives the number
  of durations that are not above it, and the last bucket and the count the number of all of them.
\<close>

theorem histogram_counts:
  assumes "sorted bs"
  shows "writeTo fmtG (fold observe vs (newHistogram bs)) name =
     map (\<lambda>b. bucketLine name (fmtG b) (length (filter (\<lambda>v. v \<le> b) vs))) bs @
     [bucketLine name ''+Inf'' (length vs), name @ ''_sum '' @ fmtG (of_int (durationSum (fold observe vs (newHistogram bs))) / 1000000000),
      name @ ''_count '' @ showNat (length vs)]"
proof -
  let ?h = "fold observe vs (newHistogram bs)"
  have z: "length (bucketCounts (newHistogram bs)) = length (boundaries (newHistogram bs)) + 1" "sorted (boundaries (newHistogram bs))"
    using assms by (simp_all add: newHistogram_def)
  have c: "boundaries ?h = bs" "length (bucketCounts ?h) = length bs + 1" "durationCount ?h = length vs" "sum_list (bucketCounts ?h) = length vs"
    "\<forall>i < length bs. sum_list (take (Suc i) (bucketCounts ?h)) = length (filter (\<lambda>v. v \<le> bs ! i) vs)"
    using observe_fold [OF z, of vs] by (simp_all add: newHistogram_def take_replicate sum_list_replicate)
  have "zip (map fmtG bs @ [''+Inf'']) (cumulative 0 (bucketCounts ?h)) =
      map (\<lambda>b. (fmtG b, length (filter (\<lambda>v. v \<le> b) vs))) bs @ [(''+Inf'', length vs)]"
  proof (rule nth_equalityI)
    fix i assume "i < length (zip (map fmtG bs @ [''+Inf'']) (cumulative 0 (bucketCounts ?h)))"
    then have i: "i < length bs \<or> i = length bs" using c(2) by auto
    then show "zip (map fmtG bs @ [''+Inf'']) (cumulative 0 (bucketCounts ?h)) ! i =
        (map (\<lambda>b. (fmtG b, length (filter (\<lambda>v. v \<le> b) vs))) bs @ [(''+Inf'', length vs)]) ! i"
      using c by (auto simp: cumulative_nth nth_append)
  qed (simp add: c)
  then show ?thesis unfolding writeTo_def c(1,3) by (simp add: comp_def)
qed

theorem histogram_counts_witness: "writeTo (\<lambda>_. ''x'') (fold observe [1/2, 2] (newHistogram [1])) ''d'' =
    [bucketLine ''d'' ''x'' 1, bucketLine ''d'' ''+Inf'' 2, ''d_sum x'', ''d_count 2'']"
proof -
  have "showNat (Suc (Suc 0)) = ''2''" by code_simp
  then show ?thesis by (subst histogram_counts) (simp_all add: numeral_2_eq_2)
qed

theorem Events_last_witness: "Events (fold AddEvent [zeroEvent] NewFallbackEventRing) = [zeroEvent]"
  by (subst Events_last) simp_all

end
