(* ===== verification/Web_Admin.thy ===== *)
theory Web_Admin
  imports Web_Update Metrics Blocklist_Manager Server_Handler
begin

text \<open>
  The endpoints of the dashboard that read and change the cache and the blocklist (\<open>web/api_cache.go\<close>,
  \<open>web/api_blocklist.go\<close>), and the listing of negative entries in \<open>cache/cache.go\<close>.  A response is a status and a JSON
  value.  \<open>parseURI\<close> says whether \<open>url.ParseRequestURI\<close> accepts a text, \<open>post\<close> is the status that a peer answers a request
  with; maps are ranged over in the order of their association lists, or, where texts are the keys, of \<open>rng\<close>.
\<close>

datatype json = JStr string | JNum nat | JInt int | JRat rat | JFloat float64 | JBool bool | JList "json list" | JObj "(string \<times> json) list"

type_synonym apiResponse = "nat \<times> json"

definition jsonError :: "nat \<Rightarrow> string \<Rightarrow> apiResponse" where
  "jsonError code e = (code, JObj [(''error'', JStr e)])"

section \<open>Negative entries (cache/cache.go)\<close>

record ResourceRecordInfo =
  infoName :: string
  infoType :: string
  infoTTL :: u32
  infoRData :: string

record NegativeEntryInfo =
  negName :: string
  negQType :: string
  negNegType :: string
  negRCODE :: string
  negRemainingTTL :: u32
  negAuthority :: "ResourceRecordInfo list"

definition formatAuthorityRData :: "ResourceRecord \<Rightarrow> string" where
  "formatAuthorityRData rr =
     (if rrType rr = TypeSOA then (case ParseSOA (rrRData rr) 0 of Ret soa \<Rightarrow> MName soa @ '' '' @ RName soa | _ \<Rightarrow> [])
      else if rrType rr = TypeNS then (case DecodeName (rrRData rr) 0 of Ret (name, _) \<Rightarrow> name | _ \<Rightarrow> [])
      else [])"

definition orUnknown :: "string \<Rightarrow> string" where
  "orUnknown s = (if s = [] then ''UNKNOWN'' else s)"

definition negativeInfo :: "time \<Rightarrow> cacheKey \<times> Entry \<Rightarrow> NegativeEntryInfo option" where
  "negativeInfo now = (\<lambda>(key, entry).
     let remaining = RemainingTTL now entry in
     if \<not> Negative entry \<or> remaining = 0 then None
     else Some \<lparr>negName = keyName key,
       negQType = (if TypeToString (keyType key) = [] then if keyType key = 0 \<and> NegType entry = NegNXDomain then ''*'' else ''UNKNOWN''
                   else TypeToString (keyType key)),
       negNegType = (if NegType entry = NegNXDomain then ''NXDOMAIN'' else if NegType entry = NegNoData then ''NODATA''
                     else if NegType entry = NegServFail then ''SERVFAIL'' else ''UNKNOWN''),
       negRCODE = orUnknown (RCodeToString (entRCODE entry)), negRemainingTTL = remaining,
       negAuthority = map (\<lambda>rr. \<lparr>infoName = rrName rr, infoType = orUnknown (TypeToString (rrType rr)), infoTTL = remaining,
                                 infoRData = formatAuthorityRData rr\<rparr>) (entAuthority entry)\<rparr>)"

text \<open>The loops over the shards and their entries, which stop when the limit is reached.\<close>

fun negativeLoop :: "time \<Rightarrow> int \<Rightarrow> (cacheKey \<times> Entry) list \<Rightarrow> NegativeEntryInfo list \<Rightarrow> NegativeEntryInfo list" where
  "negativeLoop now limit [] result = result"
| "negativeLoop now limit (ke # kes) result =
     (case negativeInfo now ke of
        None \<Rightarrow> negativeLoop now limit kes result
      | Some info \<Rightarrow>
          (let result = result @ [info] in
           if 0 < limit \<and> limit \<le> int (length result) then result else negativeLoop now limit kes result))"

definition NegativeEntries :: "time \<Rightarrow> Cache \<Rightarrow> int \<Rightarrow> NegativeEntryInfo list" where
  "NegativeEntries now c limit = negativeLoop now limit (concat (map (\<lambda>i. entries (shards c (of_nat i))) [0..<shardCount])) []"

section \<open>Cache endpoints (api\_cache.go)\<close>

definition joinSpaced :: "string list \<Rightarrow> string" where
  "joinSpaced ws = Join (CHR '' '') ws"

definition formatRData :: "ResourceRecord \<Rightarrow> string" where
  "formatRData rr =
     (let t = rrType rr; d = rrRData rr; fallback = hexEncode d in
      if t = TypeA then (case ParseA d of Ret ip \<Rightarrow> IP_String ip | _ \<Rightarrow> fallback)
      else if t = TypeAAAA then (case ParseAAAA d of Ret ip \<Rightarrow> IP_String ip | _ \<Rightarrow> fallback)
      else if t = TypeNS \<or> t = TypeCNAME \<or> t = TypePTR \<or> t = TypeDNAME then (case DecodeName d 0 of Ret (name, _) \<Rightarrow> name | _ \<Rightarrow> fallback)
      else if t = TypeMX then (case ParseMX d 0 of Ret mx \<Rightarrow> joinSpaced [showNat (unat (Preference mx)), Exchange mx] | _ \<Rightarrow> fallback)
      else if t = TypeTXT then (case ParseTXT d of Ret txts \<Rightarrow> joinSpaced txts | _ \<Rightarrow> fallback)
      else if t = TypeSOA then
        (case ParseSOA d 0 of
           Ret soa \<Rightarrow> joinSpaced [MName soa, RName soa, showNat (unat (Serial soa)), showNat (unat (Refresh soa)), showNat (unat (Retry soa)),
                             showNat (unat (Expire soa)), showNat (unat (Minimum soa))]
         | _ \<Rightarrow> fallback)
      else if t = TypeSRV then
        (case ParseSRV d 0 of
           Ret srv \<Rightarrow> joinSpaced [showNat (unat (Priority srv)), showNat (unat (Weight srv)), showNat (unat (Port srv)), Target srv]
         | _ \<Rightarrow> fallback)
      else fallback)"

definition apiStringToType :: "string \<Rightarrow> u16 option" where
  "apiStringToType = map_of [(''A'', TypeA), (''NS'', TypeNS), (''CNAME'', TypeCNAME), (''SOA'', TypeSOA), (''PTR'', TypePTR), (''MX'', TypeMX),
     (''TXT'', TypeTXT), (''AAAA'', TypeAAAA), (''SRV'', TypeSRV), (''DNAME'', TypeDNAME)]"

definition handleCacheStats :: "string \<Rightarrow> Cache \<Rightarrow> MetricsSnapshot \<Rightarrow> apiResponse" where
  "handleCacheStats verb c snap =
     (if verb \<noteq> ''GET'' then jsonError 405 ''method not allowed''
      else (let stats = DetailedStats c;
                total = snapCacheHits snap + snapCacheMisses snap;
                hitRate = (if 0 < total then of_nat (snapCacheHits snap) / of_nat total * 100 else 0) in
            (200, JObj [(''entries'', JNum (statEntries stats)), (''positive_entries'', JNum (statPositive stats)),
              (''negative_entries'', JNum (statNegative stats)), (''hits'', JNum (snapCacheHits snap)), (''misses'', JNum (snapCacheMisses snap)),
              (''evictions'', JNum (snapCacheEvictions snap)), (''hit_rate'', JRat hitRate)])))"

definition recordJson :: "ResourceRecord \<Rightarrow> json" where
  "recordJson rr = JObj [(''name'', JStr (rrName rr)), (''type'', JStr (TypeToString (rrType rr))), (''ttl'', JNum (unat (rrTTL rr))),
     (''rdata'', JStr (formatRData rr))]"

text \<open>The type of an entry is the first name of a type among its records.\<close>

definition entryType :: "ResourceRecord list \<Rightarrow> string" where
  "entryType rrs = (case filter (\<lambda>t. t \<noteq> []) (map (\<lambda>rr. TypeToString (rrType rr)) rrs) of t # _ \<Rightarrow> t | [] \<Rightarrow> ''UNKNOWN'')"

definition entryJson :: "time \<Rightarrow> string \<Rightarrow> string \<Rightarrow> Entry \<Rightarrow> json" where
  "entryJson now name t e = JObj [(''name'', JStr name), (''type'', JStr t), (''records'', JList (map recordJson (Records e))),
     (''negative'', JBool (Negative e)), (''ttl'', JNum (unat (RemainingTTL now e)))]"

text \<open>The first of the three spellings of the name for which something is found.\<close>

definition firstOf :: "('a \<Rightarrow> 'b option) \<Rightarrow> 'a list \<Rightarrow> 'b option" where
  "firstOf f xs = (case List.map_filter f xs of y # _ \<Rightarrow> Some y | [] \<Rightarrow> None)"

definition spellings :: "string \<Rightarrow> string list" where
  "spellings name = (let noDot = TrimSuffix (ToLower name) ''.'' in [noDot, noDot @ ''.'', ToLower name])"

definition handleCacheLookup :: "time \<Rightarrow> string \<Rightarrow> string \<Rightarrow> string \<Rightarrow> Cache \<Rightarrow> apiResponse" where
  "handleCacheLookup now verb nameParam typeParam c =
     (if verb \<noteq> ''GET'' then jsonError 405 ''method not allowed''
      else if nameParam = [] then jsonError 400 ''missing name parameter''
      else (let name = ToLower nameParam;
                typeStr = (if typeParam = [] then ''A'' else typeParam);
                typeUpper = ToUpper typeStr in
            if typeUpper = ''ALL'' then
              (case firstOf (\<lambda>n. case LookupAll now c n ClassIN of [] \<Rightarrow> None | es \<Rightarrow> Some es) (spellings nameParam) of
                 None \<Rightarrow> jsonError 404 ''no entries found''
               | Some es \<Rightarrow> (200, JObj [(''name'', JStr name), (''type'', JStr ''ALL''),
                   (''entries'', JList (map (\<lambda>e. entryJson now name (entryType (Records e)) e) es))]))
            else (case apiStringToType typeUpper of
                    None \<Rightarrow> jsonError 400 ''unsupported query type''
                  | Some qtype \<Rightarrow>
                      (case firstOf (\<lambda>n. Lookup now c n qtype ClassIN) (spellings nameParam) of
                         None \<Rightarrow> jsonError 404 ''entry not found''
                       | Some e \<Rightarrow> (200, entryJson now name typeStr e)))))"

text \<open>Requests to peers: the URL and the headers.\<close>

type_synonym peerRequest = "string \<times> (string \<times> string) list"

definition clusterFanoutHeader :: string where
  "clusterFanoutHeader = ''X-Labyrinth-Cluster-Fanout''"

definition normalizePeerBase :: "string \<Rightarrow> string" where
  "normalizePeerBase base = TrimRight (\<lambda>c. c = CHR ''/'') (TrimSpace base)"

definition cacheFlushURL :: "(string \<Rightarrow> bool) \<Rightarrow> ClusterPeerConfig \<Rightarrow> string" where
  "cacheFlushURL parseURI peer =
     (let base = normalizePeerBase (peerAPIBase peer) in
      if base = [] \<or> \<not> parseURI base then [] else base @ ''/api/cache/flush'')"

definition flushRequest :: "string \<Rightarrow> ClusterPeerConfig \<Rightarrow> peerRequest" where
  "flushRequest target peer =
     (target, (clusterFanoutHeader, ''1'') #
        (if TrimSpace (peerAPIToken peer) \<noteq> [] then [(''Authorization'', ''Bearer '' @ peerAPIToken peer)] else []))"

text \<open>\<open>newRequest\<close> says whether \<open>http.NewRequest\<close> accepts the URL; the result counts successes and failures and lists what was sent.\<close>

fun fanoutCacheFlush ::
  "(string \<Rightarrow> bool) \<Rightarrow> (string \<Rightarrow> bool) \<Rightarrow> (peerRequest \<Rightarrow> nat option) \<Rightarrow> ClusterPeerConfig list \<Rightarrow> nat \<times> nat \<times> peerRequest list" where
  "fanoutCacheFlush parseURI newRequest post [] = (0, 0, [])"
| "fanoutCacheFlush parseURI newRequest post (peer # peers) =
     (let (okCount, failCount, sent) = fanoutCacheFlush parseURI newRequest post peers;
          target = cacheFlushURL parseURI peer;
          req = flushRequest target peer in
      if \<not> peerEnabled peer then (okCount, failCount, sent)
      else if target = [] \<or> \<not> newRequest target then (okCount, failCount + 1, sent)
      else (case post req of
              None \<Rightarrow> (okCount, failCount + 1, req # sent)
            | Some status \<Rightarrow> if 200 \<le> status \<and> status < 300 then (okCount + 1, failCount, req # sent) else (okCount, failCount + 1, req # sent)))"

definition handleCacheFlush ::
  "(string \<Rightarrow> bool) \<Rightarrow> (string \<Rightarrow> bool) \<Rightarrow> (peerRequest \<Rightarrow> nat option) \<Rightarrow> ClusterConfig \<Rightarrow> string \<Rightarrow> (string \<times> string) list \<Rightarrow> Cache \<Rightarrow>
   apiResponse \<times> Cache \<times> peerRequest list" where
  "handleCacheFlush parseURI newRequest post cluster verb headers c =
     (if verb \<noteq> ''POST'' then (jsonError 405 ''method not allowed'', c, [])
      else (let fromPeer = (map_of headers clusterFanoutHeader = Some ''1'');
                skipped = (fromPeer \<or> \<not> clusterEnabled cluster \<or> \<not> actionFanoutCacheFlush (clusterActions cluster));
                (fanoutOK, fanoutFailed, sent) =
                  (if skipped then (0, 0, []) else fanoutCacheFlush parseURI newRequest post (clusterPeers cluster)) in
            ((200, JObj [(''status'', JStr ''flushed''), (''cluster_fanout'', JObj [(''attempted'', JNum (fanoutOK + fanoutFailed)),
                (''ok'', JNum fanoutOK), (''failed'', JNum fanoutFailed), (''skipped'', JBool skipped)])]), Flush c, sent)))"

text \<open>The three attempts to delete.\<close>

fun deleteFirst :: "u16 \<Rightarrow> string list \<Rightarrow> Cache \<Rightarrow> bool \<times> Cache" where
  "deleteFirst qtype [] c = (False, c)"
| "deleteFirst qtype (n # ns) c =
     (case Delete c n qtype ClassIN of (True, c) \<Rightarrow> (True, c) | (False, c) \<Rightarrow> deleteFirst qtype ns c)"

definition handleCacheDelete :: "string \<Rightarrow> string \<Rightarrow> string \<Rightarrow> Cache \<Rightarrow> apiResponse \<times> Cache" where
  "handleCacheDelete verb nameParam typeParam c =
     (if verb \<noteq> ''DELETE'' then (jsonError 405 ''method not allowed'', c)
      else if nameParam = [] then (jsonError 400 ''missing name parameter'', c)
      else (case apiStringToType (ToUpper (if typeParam = [] then ''A'' else typeParam)) of
              None \<Rightarrow> (jsonError 400 ''unsupported query type'', c)
            | Some qtype \<Rightarrow>
                (case deleteFirst qtype (spellings nameParam) c of
                   (False, c) \<Rightarrow> (jsonError 404 ''entry not found'', c)
                 | (True, c) \<Rightarrow> ((200, JObj [(''status'', JStr ''deleted'')]), c))))"

definition negativeJson :: "NegativeEntryInfo \<Rightarrow> json" where
  "negativeJson i = JObj [(''name'', JStr (negName i)), (''qtype'', JStr (negQType i)), (''neg_type'', JStr (negNegType i)),
     (''rcode'', JStr (negRCODE i)), (''remaining_ttl'', JNum (unat (negRemainingTTL i))),
     (''authority'', JList (map (\<lambda>a. JObj [(''name'', JStr (infoName a)), (''type'', JStr (infoType a)), (''ttl'', JNum (unat (infoTTL a))),
        (''rdata'', JStr (infoRData a))]) (negAuthority i)))]"

definition handleNegativeCache :: "time \<Rightarrow> string \<Rightarrow> string \<Rightarrow> Cache \<Rightarrow> apiResponse" where
  "handleNegativeCache now verb limitParam c =
     (if verb \<noteq> ''GET'' then jsonError 405 ''method not allowed''
      else (let limit = (case Atoi limitParam of Some n \<Rightarrow> if 0 < n then n else 100 | None \<Rightarrow> 100);
                es = NegativeEntries now c limit in
            (200, JObj [(''entries'', JList (map negativeJson es)), (''count'', JNum (length es))])))"


section \<open>Blocklist endpoints (api\_blocklist.go)\<close>

text \<open>The manager is absent where the blocklist is not enabled.  \<open>decodeDomain\<close> reads the JSON body of a request.\<close>

definition statsJson :: "BlocklistStats \<Rightarrow> json" where
  "statsJson st = JObj [(''enabled'', JBool (stEnabled st)), (''total_rules'', JNum (TotalRules st)), (''list_count'', JNum (ListCount st)),
     (''blocked_total'', JNum (BlockedTotal st)), (''custom_blocks'', JNum (CustomBlocks st)), (''custom_allows'', JNum (CustomAllows st)),
     (''blocking_mode'', JStr (stBlockingMode st))]"

definition handleBlocklistStats :: "string \<Rightarrow> Manager option \<Rightarrow> apiResponse" where
  "handleBlocklistStats verb mgr =
     (if verb \<noteq> ''GET'' then jsonError 405 ''method not allowed''
      else (case mgr of
              None \<Rightarrow> (200, statsJson \<lparr>stEnabled = False, TotalRules = 0, ListCount = 0, BlockedTotal = 0, CustomBlocks = 0, CustomAllows = 0,
                                      stBlockingMode = ''nxdomain''\<rparr>)
            | Some m \<Rightarrow> (200, statsJson (ManagerStats m))))"

definition sourceJson :: "ListSource \<Rightarrow> json" where
  "sourceJson src = JObj [(''url'', JStr (srcURL src)), (''format'', JStr (srcFormat src)), (''enabled'', JBool (srcEnabled src)),
     (''last_update'', JNum (LastUpdate src)), (''rule_count'', JNum (RuleCount src)), (''error'', JStr (srcError src))]"

definition handleBlocklistLists :: "string \<Rightarrow> Manager option \<Rightarrow> apiResponse" where
  "handleBlocklistLists verb mgr =
     (if verb \<noteq> ''GET'' then jsonError 405 ''method not allowed''
      else (200, JObj [(''lists'', JList (case mgr of None \<Rightarrow> [] | Some m \<Rightarrow> map sourceJson (Sources m)))]))"

text \<open>The refresh runs beside the reply; the flag says that it was started.\<close>

definition handleBlocklistRefresh :: "string \<Rightarrow> Manager option \<Rightarrow> apiResponse \<times> bool" where
  "handleBlocklistRefresh verb mgr =
     (if verb \<noteq> ''POST'' then (jsonError 405 ''method not allowed'', False)
      else (case mgr of
              None \<Rightarrow> ((200, JObj [(''status'', JStr ''blocklist not enabled'')]), False)
            | Some _ \<Rightarrow> ((200, JObj [(''status'', JStr ''refresh started'')]), True)))"

definition customDomain ::
  "(bytes \<Rightarrow> string option) \<Rightarrow> string \<Rightarrow> (string \<Rightarrow> Manager \<Rightarrow> Manager) \<Rightarrow> string \<Rightarrow> bytes \<Rightarrow> Manager option \<Rightarrow> apiResponse \<times> Manager option" where
  "customDomain decodeDomain status f verb payload mgr =
     (if verb \<noteq> ''POST'' then (jsonError 405 ''method not allowed'', mgr)
      else (case mgr of
              None \<Rightarrow> ((200, JObj [(''status'', JStr ''blocklist not enabled'')]), mgr)
            | Some m \<Rightarrow>
                (case decodeDomain payload of
                   None \<Rightarrow> (jsonError 400 ''missing or invalid domain'', mgr)
                 | Some d \<Rightarrow>
                     if d = [] then (jsonError 400 ''missing or invalid domain'', mgr)
                     else ((200, JObj [(''status'', JStr status), (''domain'', JStr d)]), Some (f d m)))))"

definition handleBlocklistBlock :: "(bytes \<Rightarrow> string option) \<Rightarrow> string \<Rightarrow> bytes \<Rightarrow> Manager option \<Rightarrow> apiResponse \<times> Manager option" where
  "handleBlocklistBlock decodeDomain = customDomain decodeDomain ''blocked'' BlockDomain"

definition handleBlocklistUnblock :: "(bytes \<Rightarrow> string option) \<Rightarrow> string \<Rightarrow> bytes \<Rightarrow> Manager option \<Rightarrow> apiResponse \<times> Manager option" where
  "handleBlocklistUnblock decodeDomain = customDomain decodeDomain ''unblocked'' UnblockDomain"

definition handleBlocklistCheck :: "string \<Rightarrow> string \<Rightarrow> Manager option \<Rightarrow> apiResponse" where
  "handleBlocklistCheck verb domain mgr =
     (if verb \<noteq> ''GET'' then jsonError 405 ''method not allowed''
      else (case mgr of
              None \<Rightarrow> (200, JObj [(''blocked'', JBool False), (''domain'', JStr [])])
            | Some m \<Rightarrow>
                if domain = [] then jsonError 400 ''missing domain parameter''
                else (200, JObj [(''blocked'', JBool (CheckDomain m domain)), (''domain'', JStr domain)])))"

text \<open>The sets are listed in the order of \<open>order\<close>, in which the code ranges over them.\<close>

definition handleBlocklistDomains :: "(string set \<Rightarrow> string list) \<Rightarrow> string \<Rightarrow> Manager option \<Rightarrow> apiResponse" where
  "handleBlocklistDomains order verb mgr =
     (if verb \<noteq> ''GET'' then jsonError 405 ''method not allowed''
      else (case mgr of
              None \<Rightarrow> (200, JObj [(''blocked_domains'', JList []), (''allowed_domains'', JList [])])
            | Some m \<Rightarrow>
                (let (blocks, allows) = BlockedDomains m in
                 (200, JObj [(''blocked_domains'', JList (map JStr (order blocks))), (''allowed_domains'', JList (map JStr (order allows)))]))))"

end
