(* ===== verification/Web_Admin_Properties.thy ===== *)
theory Web_Admin_Properties
  imports Web_Admin Blocklist_Properties Cache_Properties
begin

text \<open>
  Properties of the endpoints for the cache and the blocklist: what a flush does here and at the peers, what a deletion
  removes and what it does not, and which negative entries are listed.
\<close>

section \<open>Flushing\<close>

lemma findEntry_Flush: "findEntry (Flush c) k = None"
  by (simp add: findEntry_def Flush_def resetEntries_def)

lemma Lookup_Flush: "Lookup now (Flush c) name qtype class = None"
  by (simp add: Lookup_def findEntry_Flush)

text \<open>The requests of a fan-out: one to each peer that is enabled and has a valid address, in the order of the peers.\<close>

definition reachable :: "(string \<Rightarrow> bool) \<Rightarrow> (string \<Rightarrow> bool) \<Rightarrow> ClusterPeerConfig \<Rightarrow> bool" where
  "reachable parseURI newRequest peer \<longleftrightarrow> peerEnabled peer \<and> cacheFlushURL parseURI peer \<noteq> [] \<and> newRequest (cacheFlushURL parseURI peer)"

lemma fanout_sent:
  "snd (snd (fanoutCacheFlush parseURI newRequest send peers)) =
     map (\<lambda>p. flushRequest (cacheFlushURL parseURI p) p) (filter (reachable parseURI newRequest) peers)"
proof (induction peers)
  case (Cons p ps)
  obtain a b s where r: "fanoutCacheFlush parseURI newRequest send ps = (a, b, s)" by (metis prod_cases3)
  with Cons show ?case by (auto simp: reachable_def Let_def split: option.split)
qed simp

lemma fanout_counts:
  "fanoutCacheFlush parseURI newRequest send peers = (a, b, s) \<Longrightarrow> a + b = length (filter peerEnabled peers) \<and> a \<le> length s"
proof (induction peers arbitrary: a b s)
  case (Cons p ps)
  obtain a' b' s' where r: "fanoutCacheFlush parseURI newRequest send ps = (a', b', s')" by (metis prod_cases3)
  with Cons show ?case by (auto simp: Let_def split: if_splits option.splits)
qed simp

lemma fanout_header: "map_of (snd (flushRequest t p)) clusterFanoutHeader = Some ''1''"
  by (simp add: flushRequest_def)

text \<open>
  C30. A flush empties the cache, and where the cluster shares flushes it is passed on to every peer that is enabled and has
  a valid address, once: a node that receives such a request, whatever its own peers are, empties its cache and sends
  nothing further.
\<close>

theorem flush_once:
  assumes "handleCacheFlush parseURI newRequest send cluster ''POST'' headers c = (resp, c', sent)"
  shows "Lookup now c' name qtype class = None \<and>
     sent = (if map_of headers clusterFanoutHeader \<noteq> Some ''1'' \<and> clusterEnabled cluster \<and> actionFanoutCacheFlush (clusterActions cluster)
             then map (\<lambda>p. flushRequest (cacheFlushURL parseURI p) p) (filter (reachable parseURI newRequest) (clusterPeers cluster)) else []) \<and>
     (\<forall>req\<in>set sent. \<forall>pu nr ps cl d. snd (handleCacheFlush pu nr ps cl ''POST'' (snd req) d) = (Flush d, []))"
proof -
  obtain a b s where f: "fanoutCacheFlush parseURI newRequest send (clusterPeers cluster) = (a, b, s)" by (metis prod_cases3)
  have s: "s = map (\<lambda>p. flushRequest (cacheFlushURL parseURI p) p) (filter (reachable parseURI newRequest) (clusterPeers cluster))"
    using fanout_sent [of parseURI newRequest send "clusterPeers cluster"] f by simp
  have "snd (handleCacheFlush pu nr ps cl ''POST'' h d) = (Flush d, [])" if "map_of h clusterFanoutHeader = Some ''1''" for pu nr ps cl h d
    using that by (simp add: handleCacheFlush_def)
  moreover have "map_of (snd req) clusterFanoutHeader = Some ''1''" if "req \<in> set s" for req using that unfolding s by (auto simp: fanout_header)
  ultimately show ?thesis
    using assms f s by (auto simp: handleCacheFlush_def Let_def Lookup_Flush split: if_splits)
qed

definition sample_cluster :: ClusterConfig where
  "sample_cluster = (cfgCluster defaultConfig)\<lparr>clusterEnabled := True, clusterActions := \<lparr>actionFanoutCacheFlush = True, actionFanoutBlocklistRefresh = False\<rparr>,
     clusterPeers := [\<lparr>peerName = ''b'', peerEnabled = True, peerAPIBase = ''http://b/'', peerAPIToken = [], peerSyncFields = []\<rparr>]\<rparr>"

theorem flush_once_witness:
  "case handleCacheFlush (\<lambda>_. True) (\<lambda>_. True) (\<lambda>_. Some 200) sample_cluster ''POST'' [] (NewCache 10 0 0 0) of (resp, c', sent) \<Rightarrow>
     Lookup 0 c' ''a'' TypeA ClassIN = None \<and> sent = [(''http://b/api/cache/flush'', [(clusterFanoutHeader, ''1'')])]"
proof -
  obtain resp c' sent where r: "handleCacheFlush (\<lambda>_. True) (\<lambda>_. True) (\<lambda>_. Some 200) sample_cluster ''POST'' [] (NewCache 10 0 0 0) = (resp, c', sent)"
    by (metis prod_cases3)
  have "cacheFlushURL (\<lambda>_. True) \<lparr>peerName = ''b'', peerEnabled = True, peerAPIBase = ''http://b/'', peerAPIToken = [], peerSyncFields = []\<rparr> = ''http://b/api/cache/flush''"
    by code_simp
  moreover have "TrimSpace [] = []" by code_simp
  ultimately show ?thesis using flush_once [OF r, of 0 "''a''" TypeA ClassIN] unfolding r
    by (simp add: sample_cluster_def reachable_def flushRequest_def)
qed

section \<open>Deleting\<close>

lemma Delete_findEntry:
  "Delete c n qtype class = (b, c') \<Longrightarrow>
     findEntry c' = (findEntry c)(mkKey (ToLower n) qtype class [] := None) \<and> (b \<longleftrightarrow> findEntry c (mkKey (ToLower n) qtype class []) \<noteq> None)"
  by (auto simp: Delete_def Let_def findEntry_deleteKey fun_upd_idem split: option.splits)

lemma deleteFirst_other:
  "deleteFirst qtype ns c = (b, c') \<Longrightarrow> ecsPrefix k \<noteq> [] \<Longrightarrow> findEntry c' k = findEntry c k"
proof (induction ns arbitrary: c)
  case (Cons n ns)
  obtain b1 c1 where d: "Delete c n qtype ClassIN = (b1, c1)" by force
  then have "findEntry c1 k = findEntry c k" using Delete_findEntry [OF d] Cons.prems(2) by auto
  then show ?case using Cons d by (cases b1) auto
qed simp

text \<open>
  A deletion does not reach the answers for client subnets: entries that were stored with a subnet stay in the cache
  after the entry of the name has been reported as deleted, and are served to the clients of the subnet.
\<close>

theorem delete_keeps_subnet_answers:
  assumes "handleCacheDelete verb name typ c = (resp, c')" and "ecs \<noteq> []"
  shows "fst (GetWithECS now c' n t cls ecs) = fst (GetWithECS now c n t cls ecs)"
proof -
  have "findEntry c' (mkKey (ToLower n) t cls ecs) = findEntry c (mkKey (ToLower n) t cls ecs)"
    using assms deleteFirst_other [of _ _ c _ c' "mkKey (ToLower n) t cls ecs"]
    by (auto simp: handleCacheDelete_def split: if_splits option.splits prod.splits bool.splits)
  then show ?thesis using assms(2) by (simp add: GetWithECS_def Let_def split: option.split)
qed


text \<open>An entry of a name without and one with a subnet.\<close>

definition subnet_cache :: Cache where
  "subnet_cache =
     (let e = \<lparr>entryId = 0, Records = [], entAuthority = [], InsertedAt = 0, OrigTTL = 60, Negative = False, NegType = 0, entSOA = None,
               entRCODE = 0, DNSSECStatus = [], ECSScope = 24, prefetched = False\<rparr> in
      (NewCache 10 0 0 0)\<lparr>shards := (\<lambda>i. \<lparr>entries = [(mkKey ''a'' TypeA ClassIN [], e), (mkKey ''a'' TypeA ClassIN ''10.0.0.0/24'', e)], evictQ = heapInit []\<rparr>)\<rparr>)"

theorem delete_keeps_subnet_answers_witness:
  "case handleCacheDelete ''DELETE'' ''a'' [] subnet_cache of (resp, c') \<Rightarrow>
     resp = (200, JObj [(''status'', JStr ''deleted'')]) \<and> fst (GetWithECS 0 c' ''a'' TypeA ClassIN ''10.0.0.0/24'') \<noteq> None"
proof -
  obtain resp c' where r: "handleCacheDelete ''DELETE'' ''a'' [] subnet_cache = (resp, c')" by (metis prod.exhaust)
  have names: "spellings ''a'' = [''a'', ''a.'', ''a'']" "apiStringToType (ToUpper ''A'') = Some TypeA" "ToLower ''a'' = ''a''" by code_simp+
  have "findEntry subnet_cache (mkKey ''a'' TypeA ClassIN []) \<noteq> None" by (simp add: findEntry_def subnet_cache_def Let_def)
  then have "resp = (200, JObj [(''status'', JStr ''deleted'')])"
    using r by (auto simp: handleCacheDelete_def names Delete_def Let_def split: option.splits)
  moreover have "fst (GetWithECS 0 subnet_cache ''a'' TypeA ClassIN ''10.0.0.0/24'') \<noteq> None"
    by (simp add: GetWithECS_def names findEntry_def subnet_cache_def Let_def RemainingTTL_def)
  ultimately show ?thesis using delete_keeps_subnet_answers [OF r, of "''10.0.0.0/24''"] unfolding r by simp
qed

section \<open>Negative entries\<close>

lemma negativeLoop_eq:
  "0 < limit \<longrightarrow> int (length result) < limit \<Longrightarrow>
     negativeLoop now limit kes result =
       result @ (if 0 < limit then take (nat limit - length result) (List.map_filter (negativeInfo now) kes) else List.map_filter (negativeInfo now) kes)"
proof (induction kes arbitrary: result)
  case (Cons ke kes)
  show ?case
  proof (cases "negativeInfo now ke")
    case None
    with Cons show ?thesis by (simp add: List.map_filter_simps)
  next
    case (Some info)
    show ?thesis
    proof (cases "0 < limit \<and> limit \<le> int (length (result @ [info]))")
      case True
      then have "nat limit - length result = 1" using Cons.prems by auto
      with True Some show ?thesis by (simp add: List.map_filter_simps)
    next
      case False
      then have "0 < limit \<longrightarrow> int (length (result @ [info])) < limit" by auto
      from Cons.IH [OF this] False Some show ?thesis
        by (auto simp: List.map_filter_simps take_Cons' Let_def diff_Suc split: nat.split)
    qed
  qed
qed (simp add: List.map_filter_simps)

text \<open>
  The negative entries that are listed are the live ones of the cache, all of them, or as many as the limit allows.
\<close>

theorem NegativeEntries_spec:
  "NegativeEntries now c limit =
     (let live = List.map_filter (negativeInfo now) (concat (map (\<lambda>i. entries (shards c (of_nat i))) [0..<shardCount])) in
      if 0 < limit then take (nat limit) live else live)"
  by (simp add: NegativeEntries_def negativeLoop_eq Let_def)

end
