(* ===== verification/Web_Config.thy ===== *)
theory Web_Config
  imports Web_Admin
begin

text \<open>
  The endpoints of the dashboard that show and edit the configuration (\<open>web/api_config.go\<close>,
  \<open>web/api_dashboard_layout.go\<close>).  The files are a map from paths to contents; the record \<open>FileEnv\<close> says which operations
  on files fail, the renames of \<open>writeFileAtomically\<close> by their position in the function; a write that fails leaves a part of the data, and
  a removal that fails is ignored, as in the code.  \<open>durStr\<close> is
  \<open>Duration.String\<close>.  A nil list and an empty one are the same JSON value.  The argument \<open>content\<close> of a handler is what its
  JSON decoder gives.
\<close>

section \<open>The configuration as JSON\<close>

definition strs :: "string list \<Rightarrow> json" where
  "strs xs = JList (map JStr xs)"

definition redacted :: string where
  "redacted = ''***REDACTED***''"

definition serverJson :: "(int \<Rightarrow> string) \<Rightarrow> ServerConfig \<Rightarrow> json" where
  "serverJson durStr c = JObj
     [(''listen_addr'', JStr (serverListenAddr c)), (''metrics_addr'', JStr (serverMetricsAddr c)), (''max_udp_size'', JInt (serverMaxUDPSize c)),
      (''tcp_timeout'', JStr (durStr (serverTCPTimeout c))), (''max_tcp_conns'', JInt (serverMaxTCPConns c)),
      (''max_udp_workers'', JInt (serverMaxUDPWorkers c)), (''graceful_period'', JStr (durStr (serverGracefulPeriod c))),
      (''tcp_pipeline_max'', JInt (serverTCPPipelineMax c)), (''tcp_idle_timeout'', JStr (durStr (serverTCPIdleTimeout c))),
      (''dot_enabled'', JBool (serverDoTEnabled c)), (''dot_listen_addr'', JStr (serverDoTListenAddr c)),
      (''tls_cert_file'', JStr (serverTLSCertFile c)), (''tls_key_file'', JStr (serverTLSKeyFile c))]"

definition resolverJson :: "(int \<Rightarrow> string) \<Rightarrow> ResolverCfg \<Rightarrow> json" where
  "resolverJson durStr c = JObj
     [(''max_depth'', JInt (resolverMaxDepth c)), (''max_cname_depth'', JInt (resolverMaxCNAMEDepth c)),
      (''upstream_timeout'', JStr (durStr (resolverUpstreamTimeout c))), (''upstream_retries'', JInt (resolverUpstreamRetries c)),
      (''qname_minimization'', JBool (resolverQMinEnabled c)), (''caps_for_id'', JBool (resolverCaps0x20Enabled c)),
      (''prefer_ipv4'', JBool (resolverPreferIPv4 c)), (''dnssec_enabled'', JBool (resolverDNSSECEnabled c)),
      (''dnssec_allow_sha1'', JBool (resolverDNSSECAllowSHA1 c)), (''harden_below_nxdomain'', JBool (resolverHardenBelowNXDomain c)),
      (''root_hints_refresh'', JStr (durStr (resolverRootHintsRefresh c))), (''ecs_enabled'', JBool (resolverECSEnabled c)),
      (''ecs_max_prefix'', JInt (resolverECSMaxPrefix c)), (''ecs_max_prefix_v6'', JInt (resolverECSMaxPrefixV6 c)),
      (''dns64_enabled'', JBool (resolverDNS64Enabled c)), (''dns64_prefix'', JStr (resolverDNS64Prefix c)),
      (''fallback_resolvers'', strs (resolverFallbackResolvers c))]"

definition cacheJson :: "(int \<Rightarrow> string) \<Rightarrow> CacheConfig \<Rightarrow> json" where
  "cacheJson durStr c = JObj
     [(''max_entries'', JInt (cacheMaxEntries c)), (''min_ttl'', JNum (unat (cacheMinTTL c))), (''max_ttl'', JNum (unat (cacheMaxTTL c))),
      (''negative_max_ttl'', JNum (unat (cacheNegMaxTTL c))), (''sweep_interval'', JStr (durStr (cacheSweepInterval c))),
      (''serve_stale'', JBool (cacheServeStale c)), (''stale_ttl'', JNum (unat (cacheStaleTTL c))),
      (''no_cache_clients'', strs (cacheNoCacheClients c)), (''prefetch'', JBool (cachePrefetch c))]"

definition securityJson :: "SecurityConfig \<Rightarrow> json" where
  "securityJson c = JObj
     [(''private_address_filter'', JBool (securityPrivateAddressFilter c)), (''dns_cookies'', JBool (securityDNSCookies c)),
      (''rate_limit'', JObj [(''enabled'', JBool (rateLimitEnabled (securityRateLimit c))), (''rate'', JFloat (rateLimitRate (securityRateLimit c))),
         (''burst'', JInt (rateLimitBurst (securityRateLimit c)))]),
      (''rrl'', JObj [(''enabled'', JBool (rrlEnabled (securityRRL c))), (''responses_per_second'', JFloat (rrlResponsesPerSecond (securityRRL c))),
         (''slip_ratio'', JInt (rrlSlipRatio (securityRRL c))), (''ipv4_prefix'', JInt (rrlIPv4Prefix (securityRRL c))),
         (''ipv6_prefix'', JInt (rrlIPv6Prefix (securityRRL c)))])]"

definition webJson :: "(int \<Rightarrow> string) \<Rightarrow> WebConfig \<Rightarrow> json" where
  "webJson durStr c = JObj
     [(''enabled'', JBool (webEnabled c)), (''addr'', JStr (webAddr c)), (''query_log_buffer'', JInt (webQueryLogBuffer c)),
      (''top_clients_limit'', JInt (webTopClientsLimit c)), (''top_domains_limit'', JInt (webTopDomainsLimit c)),
      (''alert_error_threshold_pct'', JFloat (webAlertErrorThreshold c)), (''alert_latency_threshold_ms'', JInt (webAlertLatencyMs c)),
      (''auto_update'', JBool (webAutoUpdate c)), (''update_check_interval'', JStr (durStr (webUpdateCheckInterval c))),
      (''dashboard'', JObj [(''panel_order'', strs (dashboardPanelOrder (webDashboard c))), (''hidden_panels'', strs (dashboardHiddenPanels (webDashboard c)))]),
      (''doh_enabled'', JBool (webDoHEnabled c)), (''doh3_enabled'', JBool (webDoH3Enabled c)), (''tls_enabled'', JBool (webTLSEnabled c)),
      (''tls_cert_file'', JStr (webTLSCertFile c)), (''tls_key_file'', JStr (webTLSKeyFile c)),
      (''auth'', JObj [(''username'', JStr (webAuthUsername (webAuth c))),
         (''password_hash'', JStr (if webAuthPasswordHash (webAuth c) \<noteq> [] then redacted else []))])]"

definition aclJson :: "ACLConfig \<Rightarrow> json" where
  "aclJson c = JObj
     [(''allow'', strs (aclConfigAllow c)), (''deny'', strs (aclConfigDeny c)),
      (''zones'', JList (map (\<lambda>z. JObj [(''zone'', JStr (aclZoneName z)), (''allow'', strs (aclZoneAllow z)), (''deny'', strs (aclZoneDeny z))])
         (aclConfigZones c)))]"

definition blocklistJson :: "(int \<Rightarrow> string) \<Rightarrow> BlocklistConfig \<Rightarrow> json" where
  "blocklistJson durStr c = JObj
     [(''enabled'', JBool (blocklistEnabled c)), (''refresh_interval'', JStr (durStr (blocklistRefreshInterval c))),
      (''blocking_mode'', JStr (blocklistBlockingMode c)), (''custom_ip'', JStr (blocklistCustomIP c)), (''whitelist'', strs (blocklistWhitelist c)),
      (''list_count'', JNum (length (blocklistLists c))),
      (''lists'', JList (map (\<lambda>e. JObj [(''url'', JStr (listURL e)), (''format'', JStr (listFormat e))]) (blocklistLists c)))]"

definition peerJson :: "ClusterPeerConfig \<Rightarrow> json" where
  "peerJson p =
     (let tokenSet = (TrimSpace (peerAPIToken p) \<noteq> []) in
      JObj [(''name'', JStr (peerName p)), (''enabled'', JBool (peerEnabled p)), (''api_base'', JStr (peerAPIBase p)),
        (''api_token'', JStr (if tokenSet then redacted else [])), (''api_token_set'', JBool tokenSet), (''sync_fields'', strs (peerSyncFields p))])"

definition clusterJson :: "(int \<Rightarrow> string) \<Rightarrow> ClusterConfig \<Rightarrow> json" where
  "clusterJson durStr c = JObj
     [(''enabled'', JBool (clusterEnabled c)), (''role'', JStr (clusterRole c)), (''node_id'', JStr (clusterNodeID c)),
      (''shared_fields'', strs (clusterSharedFields c)),
      (''actions'', JObj [(''fanout_cache_flush'', JBool (actionFanoutCacheFlush (clusterActions c))),
         (''fanout_blocklist_refresh'', JBool (actionFanoutBlocklistRefresh (clusterActions c)))]),
      (''sync'', JObj [(''mode'', JStr (syncMode (clusterSync c))), (''push_on_save'', JBool (syncPushOnSave (clusterSync c))),
         (''pull_interval'', JStr (durStr (syncPullInterval (clusterSync c))))]),
      (''peers'', JList (map peerJson (clusterPeers c)))]"

definition configJson :: "(int \<Rightarrow> string) \<Rightarrow> Config \<Rightarrow> json" where
  "configJson durStr cfg = JObj
     [(''server'', serverJson durStr (cfgServer cfg)), (''resolver'', resolverJson durStr (cfgResolver cfg)),
      (''cache'', cacheJson durStr (cfgCache cfg)), (''security'', securityJson (cfgSecurity cfg)),
      (''logging'', JObj [(''level'', JStr (loggingLevel (cfgLogging cfg))), (''format'', JStr (loggingFormat (cfgLogging cfg)))]),
      (''web'', webJson durStr (cfgWeb cfg)),
      (''zabbix'', JObj [(''enabled'', JBool (zabbixEnabled (cfgZabbix cfg))), (''addr'', JStr (zabbixAddr (cfgZabbix cfg)))]),
      (''daemon'', JObj [(''enabled'', JBool (daemonEnabled (cfgDaemon cfg))), (''pid_file'', JStr (daemonPIDFile (cfgDaemon cfg)))]),
      (''acl'', aclJson (cfgACL cfg)), (''blocklist'', blocklistJson durStr (cfgBlocklist cfg)), (''cluster'', clusterJson durStr (cfgCluster cfg)),
      (''local_zones'', JList (map (\<lambda>z. JObj [(''name'', JStr (localName z)), (''type'', JStr (localType z)), (''data'', strs (localData z))])
         (cfgLocalZones cfg))),
      (''forward_zones'', JList (map (\<lambda>z. JObj [(''name'', JStr (forwardName z)), (''addrs'', strs (forwardAddrs z))]) (cfgForwardZones cfg))),
      (''stub_zones'', JList (map (\<lambda>z. JObj [(''name'', JStr (stubName z)), (''addrs'', strs (stubAddrs z))]) (cfgStubZones cfg)))]"

definition handleGetConfig :: "(int \<Rightarrow> string) \<Rightarrow> string \<Rightarrow> Config \<Rightarrow> apiResponse" where
  "handleGetConfig durStr verb cfg =
     (if verb \<noteq> ''GET'' then jsonError 405 ''method not allowed'' else (200, configJson durStr cfg))"

section \<open>Files\<close>

type_synonym files = "string \<rightharpoonup> string"

record FileEnv =
  fsDir :: "string \<Rightarrow> string"
  fsCreateTemp :: "string \<Rightarrow> string \<Rightarrow> string + string"
  fsWriteError :: "(string \<times> nat) option"
  fsSyncError :: "string option"
  fsCloseError :: "string option"
  fsStatFails :: "string \<Rightarrow> bool"
  fsRenameError :: "nat \<Rightarrow> string option"
  fsRemoveFails :: "string \<Rightarrow> bool"
  fsReadError :: "string \<Rightarrow> string option"

definition renameTo :: "string \<Rightarrow> string \<Rightarrow> files \<Rightarrow> files" where
  "renameTo p q fs = fs(p := None, q := fs p)"

definition removePath :: "FileEnv \<Rightarrow> string \<Rightarrow> files \<Rightarrow> files" where
  "removePath fe p fs = (if fsRemoveFails fe p then fs else fs(p := None))"

text \<open>Moving the original out of the way; \<open>Inl\<close> where that fails.\<close>

definition backupOriginal :: "FileEnv \<Rightarrow> string \<Rightarrow> files \<Rightarrow> string \<times> files + bool \<times> files" where
  "backupOriginal fe path fs =
     (if fs path = None \<or> fsStatFails fe path then Inr (False, fs)
      else (let fs = removePath fe (path @ ''.bak'') fs in
            case fsRenameError fe 0 of
              Some e \<Rightarrow> Inl (''backup existing config: '' @ e, fs)
            | None \<Rightarrow> Inr (True, renameTo path (path @ ''.bak'') fs)))"

definition writeFileAtomically :: "FileEnv \<Rightarrow> string \<Rightarrow> string \<Rightarrow> files \<Rightarrow> string option \<times> files" where
  "writeFileAtomically fe path data fs =
     (case fsCreateTemp fe (if fsDir fe path = [] then ''.'' else fsDir fe path) ''.labyrinth-config-*.tmp'' of
        Inl e \<Rightarrow> (Some (''create temp file: '' @ e), fs)
      | Inr tmpPath \<Rightarrow>
          (case (fsWriteError fe, fsSyncError fe, fsCloseError fe) of
             (Some (e, k), _, _) \<Rightarrow> (Some (''write temp file: '' @ e), removePath fe tmpPath (fs(tmpPath \<mapsto> take k data)))
           | (None, Some e, _) \<Rightarrow> (Some (''sync temp file: '' @ e), removePath fe tmpPath (fs(tmpPath \<mapsto> data)))
           | (None, None, Some e) \<Rightarrow> (Some (''close temp file: '' @ e), removePath fe tmpPath (fs(tmpPath \<mapsto> data)))
           | (None, None, None) \<Rightarrow>
               (case backupOriginal fe path (fs(tmpPath \<mapsto> data)) of
                  Inl (e, fs) \<Rightarrow> (Some e, removePath fe tmpPath fs)
                | Inr (hadOriginal, fs) \<Rightarrow>
                    (case fsRenameError fe 1 of
                       Some e \<Rightarrow>
                         (let fs = (if hadOriginal \<and> fsRenameError fe 2 = None then renameTo (path @ ''.bak'') path fs else fs) in
                          (Some (''replace config file: '' @ e), removePath fe tmpPath fs))
                     | None \<Rightarrow> (None, renameTo tmpPath path fs)))))"

section \<open>Editing the file\<close>

text \<open>The parts of the server that the editor reads and changes; \<open>runtimeApplied\<close> lists the arguments of \<open>runtimeApplier\<close>.\<close>

record Editor =
  editFiles :: files
  editConfig :: Config
  editPath :: string
  hasApplier :: bool
  runtimeApplied :: "Config list"

definition extractLine :: "string \<Rightarrow> string option" where
  "extractLine line =
     (let trimmed = TrimSpace line in
      if \<not> HasPrefix trimmed ''password_hash:'' then None
      else (let val = TrimSpace (TrimPrefix trimmed ''password_hash:'');
                dq = [char_of (34 :: nat)]; sq = [char_of (39 :: nat)] in
            Some (if val \<noteq> [] \<and> (HasPrefix val dq \<and> HasSuffix val dq \<or> HasPrefix val sq \<and> HasSuffix val sq) then Trim quoteMark val else val)))"

definition extractPasswordHashFromYAML :: "string \<Rightarrow> string option" where
  "extractPasswordHashFromYAML content = firstOf extractLine (Split newline content)"

definition ensurePasswordHashUnchanged :: "Config \<Rightarrow> string \<Rightarrow> string option" where
  "ensurePasswordHashUnchanged cfg content =
     (let current = TrimSpace (webAuthPasswordHash (webAuth (cfgWeb cfg)));
          found = extractPasswordHashFromYAML content;
          incoming = (case found of Some h \<Rightarrow> TrimSpace h | None \<Rightarrow> []) in
      if current = [] then
        (if found \<noteq> None \<and> incoming \<noteq> [] then Some ''admin password cannot be set from config editor; use change password'' else None)
      else if found = None \<or> incoming = [] then Some ''admin password cannot be removed from config editor; use change password''
      else if incoming \<noteq> current then Some ''admin password cannot be changed from config editor; use change password''
      else None)"

definition invalidConfig :: "string \<Rightarrow> apiResponse" where
  "invalidConfig e = (400, JObj [(''valid'', JBool False), (''error'', JStr e)])"

definition handleValidateConfig :: "(string \<Rightarrow> float64 option) \<Rightarrow> rangeOrder \<Rightarrow> string \<Rightarrow> string option \<Rightarrow> Config \<Rightarrow> apiResponse" where
  "handleValidateConfig pf rng verb content cfg =
     (if verb \<noteq> ''POST'' then jsonError 405 ''method not allowed''
      else (case content of
              None \<Rightarrow> jsonError 400 ''invalid request body''
            | Some text \<Rightarrow>
                (case ensurePasswordHashUnchanged cfg text of
                   Some e \<Rightarrow> invalidConfig e
                 | None \<Rightarrow> (case Parse pf rng text of
                              Inl e \<Rightarrow> invalidConfig e
                            | Inr _ \<Rightarrow> (200, JObj [(''valid'', JBool True)])))))"

definition configFilePath :: "Editor \<Rightarrow> string" where
  "configFilePath s = (let p = TrimSpace (editPath s) in if p = [] then ''labyrinth.yaml'' else p)"

text \<open>Reading the file: \<open>None\<close> where it does not exist.\<close>

definition readConfigFile :: "FileEnv \<Rightarrow> Editor \<Rightarrow> string + string option" where
  "readConfigFile fe s =
     (case fsReadError fe (configFilePath s) of Some e \<Rightarrow> Inl e | None \<Rightarrow> Inr (editFiles s (configFilePath s)))"

definition saveConfig :: "(string \<Rightarrow> float64 option) \<Rightarrow> rangeOrder \<Rightarrow> FileEnv \<Rightarrow> string \<Rightarrow> Editor \<Rightarrow> apiResponse \<times> Editor" where
  "saveConfig pf rng fe text s =
     (case ensurePasswordHashUnchanged (editConfig s) text of
        Some e \<Rightarrow> (jsonError 400 e, s)
      | None \<Rightarrow>
          (case Parse pf rng text of
             Inl e \<Rightarrow> (jsonError 400 e, s)
           | Inr parsedCfg \<Rightarrow>
               (case writeFileAtomically fe (configFilePath s) text (editFiles s) of
                  (Some e, fs) \<Rightarrow> (jsonError 500 (''failed to save config: '' @ e), s\<lparr>editFiles := fs\<rparr>)
                | (None, fs) \<Rightarrow>
                    ((200, JObj [(''status'', JStr ''saved''), (''path'', JStr (configFilePath s)), (''live_applied'', JBool (hasApplier s)),
                        (''restart_required'', JBool True)]),
                     s\<lparr>editFiles := fs, editConfig := parsedCfg,
                       runtimeApplied := runtimeApplied s @ (if hasApplier s then [parsedCfg] else [])\<rparr>))))"

definition handleConfigRaw ::
  "(string \<Rightarrow> float64 option) \<Rightarrow> rangeOrder \<Rightarrow> FileEnv \<Rightarrow> string \<Rightarrow> string option \<Rightarrow> Editor \<Rightarrow> apiResponse \<times> Editor" where
  "handleConfigRaw pf rng fe verb content s =
     (if verb = ''GET'' then
        (case readConfigFile fe s of
           Inl e \<Rightarrow> (jsonError 500 (''failed to read config: '' @ e), s)
         | Inr None \<Rightarrow> (jsonError 404 ''config file not found'', s)
         | Inr (Some data) \<Rightarrow> ((200, JObj [(''path'', JStr (configFilePath s)), (''content'', JStr data)]), s))
      else if verb = ''PUT'' then
        (case content of
           None \<Rightarrow> (jsonError 400 ''invalid request body'', s)
         | Some text \<Rightarrow> saveConfig pf rng fe text s)
      else (jsonError 405 ''method not allowed'', s))"

section \<open>The layout of the dashboard\<close>

definition dashboardLayoutBeginMarker :: string where
  "dashboardLayoutBeginMarker = ''# labyrinth:webui-layout begin''"

definition dashboardLayoutEndMarker :: string where
  "dashboardLayoutEndMarker = ''# labyrinth:webui-layout end''"

definition defaultDashboardPanelOrder :: "string list" where
  "defaultDashboardPanelOrder = [''query_types'', ''network_security'', ''top_lists'']"

definition allowedDashboardPanels :: "string set" where
  "allowedDashboardPanels = {''query_types'', ''network_security'', ''top_lists''}"

definition panelStep :: "string list \<Rightarrow> string \<Rightarrow> string list" where
  "panelStep out raw =
     (let ident = TrimSpace (ToLower raw) in
      if ident = [] \<or> ident \<notin> allowedDashboardPanels \<or> ident \<in> set out then out else out @ [ident])"

definition normalizeDashboardPanelIDs :: "string list \<Rightarrow> string list" where
  "normalizeDashboardPanelIDs ids = foldl panelStep [] ids"

definition completeDashboardPanelOrder :: "string list \<Rightarrow> string list" where
  "completeDashboardPanelOrder order =
     (if order = [] then defaultDashboardPanelOrder
      else (let existing = normalizeDashboardPanelIDs order in
            existing @ filter (\<lambda>ident. ident \<notin> set existing) defaultDashboardPanelOrder))"

definition panelLines :: "string \<Rightarrow> string list \<Rightarrow> string list" where
  "panelLines key ids =
     (if ids = [] then [''    '' @ key @ '': '' @ [char_of (34 :: nat), char_of (34 :: nat)]]
      else (''    '' @ key @ '':'') # map (\<lambda>ident. ''      - '' @ ident) ids)"

definition layoutLines :: "string list \<Rightarrow> string list \<Rightarrow> string list" where
  "layoutLines panelOrder hiddenPanels =
     [dashboardLayoutBeginMarker, ''web:'', ''  dashboard:''] @ panelLines ''panel_order'' panelOrder @ panelLines ''hidden_panels'' hiddenPanels @
     [dashboardLayoutEndMarker]"

definition buildDashboardLayoutBlock :: "string list \<Rightarrow> string list \<Rightarrow> string" where
  "buildDashboardLayoutBlock panelOrder hiddenPanels = concat (map (\<lambda>l. l @ [newline]) (layoutLines panelOrder hiddenPanels))"

fun Index :: "string \<Rightarrow> string \<Rightarrow> nat option" where
  "Index [] p = (if p = [] then Some 0 else None)"
| "Index (c # cs) p = (if HasPrefix (c # cs) p then Some 0 else map_option Suc (Index cs p))"

definition newlines :: "char \<Rightarrow> bool" where
  "newlines c \<longleftrightarrow> c = char_of (13 :: nat) \<or> c = newline"

definition upsertDashboardLayoutBlock :: "string \<Rightarrow> string list \<Rightarrow> string list \<Rightarrow> string" where
  "upsertDashboardLayoutBlock content panelOrder hiddenPanels =
     (let block = buildDashboardLayoutBlock panelOrder hiddenPanels;
          appended = (let trimmed = TrimRight newlines content in if trimmed = [] then block else trimmed @ [newline, newline] @ block) in
      case (Index content dashboardLayoutBeginMarker, Index content dashboardLayoutEndMarker) of
        (Some start, Some stop) \<Rightarrow>
          if start < stop then
            (let updated = take start content @ block @ TrimLeft newlines (drop (stop + length dashboardLayoutEndMarker) content) in
             if HasSuffix updated [newline] then updated else updated @ [newline])
          else appended
      | _ \<Rightarrow> appended)"

definition handleDashboardLayout ::
  "(string \<Rightarrow> float64 option) \<Rightarrow> rangeOrder \<Rightarrow> FileEnv \<Rightarrow> string \<Rightarrow> (string list \<times> string list) option \<Rightarrow> Editor \<Rightarrow> apiResponse \<times> Editor" where
  "handleDashboardLayout pf rng fe verb payload s =
     (if verb = ''GET'' then
        (let d = webDashboard (cfgWeb (editConfig s)) in
         ((200, JObj [(''panel_order'', strs (completeDashboardPanelOrder (dashboardPanelOrder d))),
            (''hidden_panels'', strs (normalizeDashboardPanelIDs (dashboardHiddenPanels d)))]), s))
      else if verb = ''PUT'' then
        (case payload of
           None \<Rightarrow> (jsonError 400 ''invalid request body'', s)
         | Some (order, hidden) \<Rightarrow>
             (let panelOrder = completeDashboardPanelOrder order;
                  hiddenPanels = normalizeDashboardPanelIDs hidden;
                  path = configFilePath s in
              case readConfigFile fe s of
                Inl e \<Rightarrow> (jsonError 500 (''failed to read config: '' @ e), s)
              | Inr raw \<Rightarrow>
                  (let updated = upsertDashboardLayoutBlock (case raw of Some t \<Rightarrow> t | None \<Rightarrow> []) panelOrder hiddenPanels in
                   case writeFileAtomically fe path updated (editFiles s) of
                     (Some e, fs) \<Rightarrow> (jsonError 500 (''failed to save dashboard layout: '' @ e), s\<lparr>editFiles := fs\<rparr>)
                   | (None, fs) \<Rightarrow>
                       (let cfg = (case Parse pf rng updated of
                                     Inr parsed \<Rightarrow> parsed
                                   | Inl _ \<Rightarrow> (editConfig s)\<lparr>cfgWeb := (cfgWeb (editConfig s))\<lparr>webDashboard :=
                                                 \<lparr>dashboardPanelOrder = panelOrder, dashboardHiddenPanels = hiddenPanels\<rparr>\<rparr>\<rparr>) in
                        ((200, JObj [(''status'', JStr ''saved''), (''panel_order'', strs panelOrder), (''hidden_panels'', strs hiddenPanels),
                            (''path'', JStr path), (''storage'', JStr ''yaml'')]),
                         s\<lparr>editFiles := fs, editConfig := cfg\<rparr>)))))
      else (jsonError 405 ''method not allowed'', s))"

end
