(* ===== verification/Web_Config_Properties.thy ===== *)
theory Web_Config_Properties
  imports Web_Config Web_Setup_Properties
begin

text \<open>
  What the endpoints for the configuration promise: the view of the configuration does not depend on its secrets; saving
  keeps the old file until the new one is in place; every panel is in the
  layout of the dashboard once.  The guard for the password hash does not hold what it promises.
\<close>

section \<open>Secrets\<close>

definition publicPeer :: "ClusterPeerConfig \<Rightarrow> ClusterPeerConfig" where
  "publicPeer p = p\<lparr>peerAPIToken := (if TrimSpace (peerAPIToken p) = [] then [] else ''x'')\<rparr>"

definition publicConfig :: "Config \<Rightarrow> Config" where
  "publicConfig cfg = cfg\<lparr>
     cfgWeb := (cfgWeb cfg)\<lparr>webAuth := (webAuth (cfgWeb cfg))\<lparr>webAuthPasswordHash :=
       (if webAuthPasswordHash (webAuth (cfgWeb cfg)) = [] then [] else ''x'')\<rparr>\<rparr>,
     cfgCluster := (cfgCluster cfg)\<lparr>clusterPeers := map publicPeer (clusterPeers (cfgCluster cfg))\<rparr>\<rparr>"

lemma peerJson_public: "peerJson (publicPeer p) = peerJson p"
proof -
  have "TrimSpace ''x'' \<noteq> []" "TrimSpace [] = []" by code_simp+
  then show ?thesis by (simp add: peerJson_def publicPeer_def)
qed

text \<open>
  The configuration that is shown does not depend on the password hash and on the tokens of the peers, but for whether they
  are set.
\<close>

theorem config_view_hides_secrets: "handleGetConfig durStr verb (publicConfig cfg) = handleGetConfig durStr verb cfg"
  by (simp add: handleGetConfig_def configJson_def webJson_def clusterJson_def publicConfig_def peerJson_public comp_def)

section \<open>Saving\<close>

text \<open>Temporary files have names of their own, and may stay when their removal fails.\<close>

definition tempFile :: "FileEnv \<Rightarrow> string \<Rightarrow> bool" where
  "tempFile fe p \<longleftrightarrow> (\<exists>d. fsCreateTemp fe d ''.labyrinth-config-*.tmp'' = Inr p)"

text \<open>The file has its old content, or the backup has.\<close>

definition content_kept :: "string \<Rightarrow> files \<Rightarrow> files \<Rightarrow> bool" where
  "content_kept path fs fs' \<longleftrightarrow> fs' path = fs path \<or> fs' path = None \<and> fs' (path @ ''.bak'') = fs path"

lemma bak_other: "path @ ''.bak'' \<noteq> path"
  by simp

lemma write_outcome:
  assumes "\<not> tempFile fe path" "\<not> tempFile fe (path @ ''.bak'')" and "writeFileAtomically fe path text fs = (r, fs')"
  shows "(if r = None then fs' path = Some text else content_kept path fs fs') \<and>
     (\<forall>p. p \<noteq> path \<and> p \<noteq> path @ ''.bak'' \<and> \<not> tempFile fe p \<longrightarrow> fs' p = fs p)"
proof (cases "fsCreateTemp fe (if fsDir fe path = [] then ''.'' else fsDir fe path) ''.labyrinth-config-*.tmp''")
  case (Inr tmp)
  then have "tempFile fe tmp" unfolding tempFile_def by blast
  then have t: "tempFile fe tmp" "tmp \<noteq> path" "tmp \<noteq> path @ ''.bak''" using assms(1,2) by auto
  show ?thesis
    using assms(3) t Inr
    by (auto simp: writeFileAtomically_def backupOriginal_def renameTo_def removePath_def content_kept_def Let_def split: option.splits if_splits)
qed (use assms(3) in \<open>auto simp: writeFileAtomically_def content_kept_def\<close>)

text \<open>
  A text that the editor saves is in the file and is the configuration of the server; one that it does not save leaves the
  configuration as it was, and the old file, or its backup, in place.  No other file changes, temporary ones apart.
\<close>

theorem config_saved_or_kept:
  assumes "\<not> tempFile fe (configFilePath s)" "\<not> tempFile fe (configFilePath s @ ''.bak'')" and "handleConfigRaw pf rng fe ''PUT'' (Some text) s = ((code, a), s')"
  shows "(if code = 200 then editFiles s' (configFilePath s) = Some text \<and> Parse pf rng text = Inr (editConfig s')
          else editConfig s' = editConfig s \<and> content_kept (configFilePath s) (editFiles s) (editFiles s')) \<and>
     (\<forall>p. p \<noteq> configFilePath s \<and> p \<noteq> configFilePath s @ ''.bak'' \<and> \<not> tempFile fe p \<longrightarrow> editFiles s' p = editFiles s p)"
proof -
  let ?path = "configFilePath s"
  obtain r fs' where w: "writeFileAtomically fe ?path text (editFiles s) = (r, fs')" by (metis prod.exhaust)
  have same: "content_kept p fs fs" for p fs by (simp add: content_kept_def)
  have save: "saveConfig pf rng fe text s = ((code, a), s')" using assms(3) by (simp add: handleConfigRaw_def)
  note outcome = write_outcome [OF assms(1,2) w]
  show ?thesis
  proof (cases "ensurePasswordHashUnchanged (editConfig s) text")
    case None
    note guard = None
    show ?thesis
    proof (cases "Parse pf rng text")
      case (Inr cfg)
      show ?thesis
      proof (cases r)
        case None
        then have "code = 200" "editFiles s' = fs'" "editConfig s' = cfg" using save by (auto simp: saveConfig_def guard Inr w)
        then show ?thesis using outcome None Inr by simp
      next
        case (Some e)
        then have "code \<noteq> 200" "editFiles s' = fs'" "editConfig s' = editConfig s" using save by (auto simp: saveConfig_def jsonError_def guard Inr w)
        then show ?thesis using outcome Some by simp
      qed
    qed (use save guard same in \<open>auto simp: saveConfig_def jsonError_def\<close>)
  qed (use save same in \<open>auto simp: saveConfig_def jsonError_def\<close>)
qed

section \<open>The guard for the password\<close>

lemma TrimSpace_ends:
  assumes "s \<noteq> []" and "\<not> isSpace (hd s)" and "\<not> isSpace (last s)"
  shows "TrimSpace s = s"
proof -
  have "dropWhile isSpace s = s" using assms(1,2) by (cases s) auto
  moreover have "dropWhile isSpace (rev s) = rev s" using assms(1,3) by (cases "rev s") (auto simp: hd_rev simp flip: last_rev)
  ultimately show ?thesis by (simp add: TrimSpace_def)
qed

lemma plain_ends: "plain h \<Longrightarrow> h \<noteq> [] \<and> \<not> isSpace (hd h) \<and> \<not> isSpace (last h) \<and> \<not> quoteMark (hd h) "
  using plainChar_not by (auto simp: plain_def list_all_iff)

lemma extract_decoy:
  assumes "plain h"
  shows "extractLine (''password_hash: '' @ h) = Some h"
proof -
  let ?l = "''password_hash: '' @ h"
  note e = plain_ends [OF assms]
  have "\<not> isSpace CHR ''p''" by code_simp
  then have t: "TrimSpace ?l = ?l" using e by (intro TrimSpace_ends) auto
  have v: "TrimSpace (CHR '' '' # h) = h" using e unfolding TrimSpace_lead by (intro TrimSpace_ends) auto
  have q: "\<not> HasPrefix h [char_of (34 :: nat)]" "\<not> HasPrefix h [char_of (39 :: nat)]"
    using e by (cases h; auto simp: HasPrefix_def quoteMark_def)+
  show ?thesis unfolding extractLine_def t using q v by (simp add: HasPrefix_def TrimPrefix_def)
qed

text \<open>The text of three lines: a decoy for the guard, and the user and the hash that the reader takes.\<close>

definition decoyText :: "string \<Rightarrow> string \<Rightarrow> string \<Rightarrow> string" where
  "decoyText h u h' = kv 0 ''password_hash'' h @ [newline] @ kv 0 ''web.auth.username'' u @ [newline] @ kv 0 ''web.auth.password_hash'' h'"

lemma decoy_names: "yamlName ''password_hash''" "yamlName ''web.auth.username''" "yamlName ''web.auth.password_hash''"
  by code_simp+

lemma decoy_lines:
  assumes "plain h" and "plain u" and "plain h'"
  shows "Split newline (decoyText h u h') = [kv 0 ''password_hash'' h, kv 0 ''web.auth.username'' u, kv 0 ''web.auth.password_hash'' h']"
  using assms by (simp add: decoyText_def Split_append_sep Split_no_sep kv_line [OF _ token_plain] decoy_names)

lemma decoy_values:
  assumes "plain h" and "plain u" and "plain h'"
  shows "parseYAML (decoyText h u h') = [(''password_hash'', h), (''web.auth.username'', u), (''web.auth.password_hash'', h')]"
proof -
  have "CHR ''p'' \<noteq> char_of (0xEF :: nat)" by code_simp
  then have "TrimPrefix (kv 0 ''password_hash'' h) bom = kv 0 ''password_hash'' h" by (simp add: TrimPrefix_def HasPrefix_def bom_def kv_def)
  then show ?thesis
    using assms by (simp add: parseYAML_def decoy_lines yamlStart_def yamlLine_kv [OF _ token_plain] decoy_names sectionKey_def Let_def)
qed

lemma decoy_guard:
  assumes "plain h" and "plain u" and "plain h'" and "TrimSpace (webAuthPasswordHash (webAuth (cfgWeb cfg))) = h"
  shows "ensurePasswordHashUnchanged cfg (decoyText h u h') = None"
proof -
  have "extractLine (kv 0 ''password_hash'' h) = Some h" using extract_decoy [OF assms(1)] by (simp add: kv_def)
  then have "extractPasswordHashFromYAML (decoyText h u h') = Some h"
    using assms by (simp add: extractPasswordHashFromYAML_def firstOf_def decoy_lines List.map_filter_simps)
  moreover have "TrimSpace h = h" "h \<noteq> []" using plain_ends [OF assms(1)] by (auto intro: TrimSpace_ends)
  ultimately show ?thesis using assms(4) by (simp add: ensurePasswordHashUnchanged_def)
qed

lemma decoy_absent:
  assumes "p \<in> {''server.'', ''resolver.'', ''cache.'', ''security.'', ''logging.'', ''daemon.'', ''zabbix.'', ''blocklist.'', ''cluster.''}"
  shows "absent p [(''password_hash'', h), (''web.auth.username'', u), (''web.auth.password_hash'', h')]"
  using assms by (auto simp: absent_def HasPrefix_def)

lemma decoy_parsed:
  assumes "plain h" and "plain u" and "plain h'"
  shows "\<exists>cfg. Parse pf rng (decoyText h u h') = Inr cfg \<and> webAuth (cfgWeb cfg) = \<lparr>webAuthUsername = u, webAuthPasswordHash = h'\<rparr>"
proof -
  let ?v = "[(''password_hash'', h), (''web.auth.username'', u), (''web.auth.password_hash'', h')]"
  let ?cfg = "applyYAML pf rng ?v defaultConfig"
  have ne: "u \<noteq> []" "h' \<noteq> []" using assms by (simp_all add: plain_def)
  have "only ''web.'' ?v = [(''web.auth.username'', u), (''web.auth.password_hash'', h')]" by (simp add: only_def HasPrefix_def)
  then have web: "cfgWeb ?cfg = (cfgWeb defaultConfig)\<lparr>webAuth := \<lparr>webAuthUsername = u, webAuthPasswordHash = h'\<rparr>\<rparr>"
    by (simp add: applyYAML_def applyWeb_only applyWeb_def applyDashboard_def applyAuth_def setter_defs defaultConfig_def ne)
  have same: "cfgResolver ?cfg = cfgResolver defaultConfig" "cfgCache ?cfg = cfgCache defaultConfig" "cfgSecurity ?cfg = cfgSecurity defaultConfig"
    "cfgServer ?cfg = cfgServer defaultConfig"
    "cfgCluster ?cfg = (cfgCluster defaultConfig)\<lparr>clusterPeers := parseClusterPeers rng ?v\<rparr>"
    by (simp_all add: applyYAML_def sections_absent decoy_absent)
  have "cluster_ok (cfgCluster ?cfg)" "web_ok (cfgWeb ?cfg)" "\<not> webAutoTLS (cfgWeb ?cfg)"
    unfolding same web by (simp_all add: cluster_ok_def web_ok_def notPositive_def defaultConfig_def)
  then have "config_ok ?cfg" using default_ok unfolding config_ok_def same by simp
  then have "Parse pf rng (decoyText h u h') = Inr ?cfg" by (simp add: Parse_def decoy_values assms validate_ok)
  then show ?thesis by (intro exI [of _ ?cfg]) (simp add: web)
qed

text \<open>
  The guard of the editor looks for the first line that begins with the key of the password hash, wherever it stands, while
  the reader takes the hash from the section of the account.  A text with a decoy for the guard is saved and sets another
  user and another hash, although the hash is meant to be changed only by who knows the old password.
\<close>

theorem editor_sets_password:
  assumes "TrimSpace (webAuthPasswordHash (webAuth (cfgWeb (editConfig s)))) = h" and "plain h" and "plain u" and "plain h'"
    and "writeFileAtomically fe (configFilePath s) (decoyText h u h') (editFiles s) = (None, fs)"
  shows "\<exists>a s'. handleConfigRaw pf rng fe ''PUT'' (Some (decoyText h u h')) s = ((200, a), s') \<and>
     webAuth (cfgWeb (editConfig s')) = \<lparr>webAuthUsername = u, webAuthPasswordHash = h'\<rparr>"
proof -
  obtain cfg where "Parse pf rng (decoyText h u h') = Inr cfg" "webAuth (cfgWeb cfg) = \<lparr>webAuthUsername = u, webAuthPasswordHash = h'\<rparr>"
    using decoy_parsed [OF assms(2-4)] by blast
  then show ?thesis using decoy_guard [OF assms(2-4,1)] assms(5) by (simp add: handleConfigRaw_def saveConfig_def)
qed

section \<open>The layout of the dashboard\<close>

lemma normalize_panels:
  "set (foldl panelStep out ids) \<subseteq> set out \<union> allowedDashboardPanels \<and> (distinct out \<longrightarrow> distinct (foldl panelStep out ids))"
proof (induction ids arbitrary: out)
  case (Cons i ids)
  from Cons.IH [of "panelStep out i"] show ?case by (auto simp: panelStep_def Let_def split: if_splits)
qed simp

text \<open>Whatever order is asked for, every panel is in it once.\<close>

lemma panels_once:
  "distinct (completeDashboardPanelOrder order) \<and> set (completeDashboardPanelOrder order) = set defaultDashboardPanelOrder"
proof -
  have d: "distinct defaultDashboardPanelOrder" "set defaultDashboardPanelOrder = allowedDashboardPanels"
    by (simp_all add: defaultDashboardPanelOrder_def allowedDashboardPanels_def)
  then show ?thesis using normalize_panels [of "[]" order]
    by (auto simp: completeDashboardPanelOrder_def normalizeDashboardPanelIDs_def Let_def)
qed

end
