(* ===== verification/Spec2Isabelle.thy ===== *)
theory Spec2Isabelle
  imports Dns_Properties Cache_Properties Security_Properties Rate_Properties Resolver_Properties Resolver_Iter_Properties Resolver_Glueless Server_Properties Dnssec_Properties Blocklist_Properties Server_Listen_Properties Web_Doh_Properties Web_Auth_Properties Web_Stats_Properties Web_Setup_Properties Web_Update_Properties Metrics_Properties Web_Admin_Properties Web_Config_Properties
begin

text \<open>
  A verification development of \<open>labyrinth\<close>, a recursive DNS resolver written in Go (\<open>src/\<close>).

  \<^bold>\<open>The program.\<close>  A listener (\<open>server/udp.go\<close>, \<open>tcp.go\<close>, \<open>dot.go\<close>, or the HTTPS endpoint \<open>web/api_doh.go\<close>) hands the
  bytes of a query to \<open>MainHandler.Handle\<close> (\<open>server/handler.go\<close>).  The handler unpacks them (\<open>dns/\<close>), asks the access
  lists and the rate limiter (\<open>security/\<close>), the blocklist (\<open>blocklist/\<close>) and the cache (\<open>cache/\<close>), and otherwise calls the
  resolver (\<open>resolver/\<close>).  The resolver looks at local, special and forwarded zones and then walks from the root servers
  down the delegations, filters what it is told (\<open>security/bailiwick.go\<close>), lets the validator (\<open>dnssec/\<close>) judge the
  answer and stores it in the cache.  The handler builds a reply, counts it (\<open>metrics/\<close>) and reports it to the dashboard
  (\<open>web/\<close>), whose endpoints log users in, change the cache, the blocklist and the configuration (\<open>config/\<close>), and update
  the program.

  \<^bold>\<open>The theories.\<close>  One group per package; the theories that end in \<open>_Properties\<close> hold the theorems about a package, the
  others its records, operations and the lemmas that go with them.

  \<^item> \<open>Prelude\<close>: widths of integers, byte slices, the outcome type \<open>Ret | Err | Panic\<close>, the functions of Go's \<open>strings\<close>
    that the sources use, and the lemma collections.  \<open>Net_IP\<close> and \<open>Net_Text\<close>: addresses and networks of Go's \<open>net\<close>.
    \<open>Base64\<close>: the decoder of the HTTPS endpoint.
  \<^item> \<open>Zone_Names\<close>: names at or below a zone.  The sources test this in six places with different code; the locale
    \<open>zone_test\<close> states what they share and is interpreted on each (\<open>bw\<close>, \<open>acl\<close>, \<open>fwd\<close>, \<open>lz\<close>, \<open>su\<close>, \<open>walk\<close>).
  \<^item> \<open>dns/\<close>: \<open>Dns_Wire\<close> (reader, writer, header), \<open>Dns_Name\<close> (names with compression, and the grammar of RFC 1035 as an
    inductive predicate), \<open>Dns_Record\<close>, \<open>Dns_RData\<close>, \<open>Dns_Edns\<close>, \<open>Dns_Message\<close> (\<open>Pack\<close>, \<open>Unpack\<close>), \<open>Dns_RoundTrip\<close>
    (packing and unpacking), \<open>Dns_Cut\<close> (the part of a packed message that truncation keeps), \<open>Dns_Properties\<close>.
  \<^item> \<open>cache/\<close>: \<open>Cache_Entry\<close>, \<open>Cache_Heap\<close> (the eviction queue; locale \<open>min_queue\<close>, interpretation \<open>evq\<close>), \<open>Cache_Shard\<close>,
    \<open>Cache\<close>, \<open>Cache_Inv\<close> (the invariant; locale \<open>forgetful_store\<close>, a store that may forget but not invent, interpretation
    \<open>kv\<close>), \<open>Cache_Properties\<close> (the states that the operations reach, and the map that they refine).
  \<^item> \<open>security/\<close>: \<open>Security_Zone\<close> (bailiwick, access lists, reserved addresses), \<open>Security_Rate\<close> (limiters and the hash of
    cookies), \<open>Security_Properties\<close>, \<open>Rate_Properties\<close>.
  \<^item> \<open>resolver/\<close>: \<open>Resolver_Names\<close> (pure functions on names and responses), \<open>Resolver_Local\<close>, \<open>Resolver_Infra\<close> (server
    statistics, and the coalescing of equal requests as interleaved steps of goroutines), \<open>Resolver_Upstream\<close> (state,
    environment, exchange with servers), \<open>Resolver_Iter\<close> (the iterative loop), \<open>Resolver_Top\<close> (entry points, DNS64),
    \<open>Resolver_Logic\<close> (rules for total correctness of computations), \<open>Resolver_Samples\<close> (a small network for witnesses),
    \<open>Resolver_Properties\<close>, \<open>Resolver_Iter_Properties\<close>, \<open>Resolver_Glueless\<close> (delegations without an address).
  \<^item> \<open>dnssec/\<close>: \<open>Dnssec_Names\<close>, \<open>Dnssec_Verify\<close> (canonical forms, signatures, digests), \<open>Dnssec_Denial\<close> (NSEC, NSEC3),
    \<open>Dnssec_Validator\<close> (the chain of trust and the key cache), \<open>Dnssec_Properties\<close>.
  \<^item> \<open>blocklist/\<close>: \<open>Blocklist\<close> (parsers, matcher, response policy zones), \<open>Blocklist_Manager\<close>, \<open>Blocklist_Properties\<close>.
  \<^item> \<open>server/\<close>: \<open>Server_Build\<close> (the functions that build replies), \<open>Server_Handler\<close> (\<open>Handle\<close>), \<open>Server_Listen\<close> (what a
    listener does with a datagram or a stream), \<open>Server_Properties\<close>, \<open>Server_Listen_Properties\<close> (locale \<open>dns_handler\<close>,
    what the listeners need of a handler, interpretation \<open>handler\<close>).
  \<^item> \<open>config/\<close> and \<open>main_zones.go\<close>: \<open>Config_Yaml\<close> (the reader of files), \<open>Config\<close> (defaults, setters, environment,
    validation, tables of zones), \<open>Config_Properties\<close>.
  \<^item> \<open>metrics/\<close>: \<open>Metrics\<close>, \<open>Metrics_Properties\<close>.  \<open>Last_Events\<close>: the locale \<open>last_events\<close> of buffers that keep the last
    events, interpreted on the ring of the metrics (\<open>fallback\<close>) and on the query log of the dashboard (\<open>qlog\<close>).
  \<^item> \<open>web/\<close>, each with its \<open>_Properties\<close>: \<open>Web_Doh\<close> (DNS over HTTPS), \<open>Web_Login\<close> (limiter of failed logins), \<open>Web_Auth\<close>
    (tokens, login, password, protected routes, setup), \<open>Web_Setup\<close> (the file of the setup wizard), \<open>Web_Stats\<close> (query
    log, leaderboards, time series), \<open>Web_Admin\<close> (cache and blocklist), \<open>Web_Config\<close> (configuration editor, layout of the
    dashboard), \<open>Web_Update\<close> (update of the program).

  \<^bold>\<open>How code is written.\<close>  A struct is a record, an enumeration a datatype, an unsigned integer a word of its width; times
  and Go's \<open>int\<close> are integers, and where a width matters the wrap-around is written out.  A slice access that can fail is
  checked in the model, and a failed one is \<open>Panic\<close>.  The parts with state pass it on explicitly.  A computation of the
  resolver is \<open>'a io\<close>, a function from the state to the result and the new state, or \<open>None\<close>, which stands for a panic and
  for a computation that does not return; a theorem that something returns excludes both, and the theorem on delegations
  without an address shows in addition that the single iteration returns, so that the nesting is what does not end.
  The validator treats a panic of an RDATA parser like its error; that no such parser panics is a theorem of
  \<open>Dns_Properties\<close>.

  \<^bold>\<open>Parameters.\<close>  What is outside the sources is an argument.  The record \<open>Env\<close> gives the clock, random numbers and the
  replies of the network, each as a function of the number of earlier readings, so that nothing is assumed of how two
  readings relate.  The record \<open>Crypto\<close> and its like stand for hashes, signatures, bcrypt and HMAC; others for downloads,
  JSON, \<open>strconv.ParseFloat\<close>, the verb \<open>%g\<close>, failures of file operations, and the order in which Go ranges over a map.
  Floating-point numbers are rational ones with the rounding as an argument.  No theorem assumes that a hash or a MAC has no
  collisions.

  \<^bold>\<open>Bounds and fuel.\<close>  Every loop of the sources that ends is a total function with its own measure.  The two exceptions are
  \<open>enforceLoop\<close> of the cache, a partial function that is shown to return on every cache that keeps its invariant, and the
  resolution of name-server addresses, in which the resolver calls itself: \<open>resolveInner\<close> takes the number \<open>n\<close> of nested
  calls that are left and is \<open>None\<close> at zero.  The sources have no such limit, so the theorems take it as a hypothesis that
  nested calls return, and \<open>Resolver_Glueless\<close> shows that they need not.  \<open>messagesSent\<close> is a counter of the model
  only: it is raised for each message that is handed to a socket, retries and repetitions over TCP included, and nothing
  reads it.

  \<^bold>\<open>What the theorems show.\<close>
  \<^item> The wire format: messages survive packing and unpacking; no bytes make the reader or an RDATA parser panic; names are
    decoded as the grammar says.
  \<^item> The cache: an invariant of all reachable states with the order of its queue, what a lookup finds after a store, and
    refinement of a map that may forget.
  \<^item> The filters: the bailiwick filter, the closest access rule, the rate of a client (in exact arithmetic).
  \<^item> The resolver: it returns on every network if nested calls do; it accepts only replies to its query; referrals
    descend; the messages it sends are bounded; a bogus verdict is final; requests for one key are coalesced without losing
    a waiter.
  \<^item> The validator: what a secure answer rests on (a valid signature by a key that was cached at the start or fetched in
    the run, with a chain to a trust anchor), and what NSEC proofs establish; and that negative verdicts ignore the anchors.
  \<^item> The server: the handler returns on every query that a listener for datagrams can read; refused queries do not reach
    the resolver; replies fit the client; streams are answered in order; a long query over TLS ends the process.
  \<^item> The dashboard and the configuration: guards of protected routes, the password change, the number of guesses, updates,
    flushes in a cluster, the setup file and its reader, zones of a file, validated configurations.

  \<^bold>\<open>Simplifications.\<close>  \<open>strings.ToLower\<close> maps ASCII letters only; \<open>Quote\<close> leaves bytes above 127 as they are;
  \<open>ParseDuration\<close> computes fractions exactly; the sum of the histogram is exact; the sharing of key fetches that are in
  flight in the validator is left out, as are locks (an operation under a lock is one step), log lines, durations and
  texts of errors.

  \<^bold>\<open>Not modelled.\<close>  \<open>resolver/trace.go\<close> (a copy of the resolution that records its steps); the remaining endpoints of
  \<open>web/\<close>, which render the state of other parts, its websockets and pages; sockets, accept loops and semaphores of the
  listeners; start-up, flags and signals of the main program; \<open>certmanager/\<close>, \<open>daemon/\<close>, \<open>log/\<close>, the buffer pool and the
  load generator \<open>cmd/labyrinth-bench\<close>: they are calls of the operating system and of libraries.
\<close>

end
